(* ===== verification/Prelude.thy ===== *)
theory Prelude
  imports Main "HOL-Library.Word" "HOL-Library.Char_ord" "HOL-Library.List_Lexorder"
    "HOL-Library.Sublist"
begin

text \<open>
  Vocabulary shared by every component: machine-integer bounds, the error-or-value result,
  byte strings and their UTF-8 structure, paths as component lists, and the list facts the
  components use.

  A Rust \<open>String\<close>, \<open>&str\<close> or \<open>Vec<u8>\<close> is a HOL \<^typ>\<open>string\<close>: a HOL character is one byte, so
  \<open>length\<close> is Rust's \<open>len()\<close> and the lexicographic order of \<^theory_text>\<open>List_Lexorder\<close> is Rust's
  bytewise order. Unsigned counters are \<^typ>\<open>nat\<close> with the saturation of the code written out.
\<close>

named_theorems path_simps "how the path operations act on component lists"

section \<open>Saturating unsigned arithmetic\<close>

definition u64_max :: nat where
  "u64_max = 2 ^ 64 - 1"

definition u32_max :: nat where
  "u32_max = 2 ^ 32 - 1"

text \<open>\<open>u64::saturating_add\<close>; \<open>u64::saturating_sub\<close> is subtraction on \<^typ>\<open>nat\<close>.\<close>

definition sat_add :: "nat \<Rightarrow> nat \<Rightarrow> nat" where
  "sat_add a b = min (a + b) u64_max"

lemma sat_add_exact [simp]: "a + b \<le> u64_max \<Longrightarrow> sat_add a b = a + b"
  by (simp add: sat_add_def)

lemma sat_add_le: "sat_add a b \<le> a + b"
  by (simp add: sat_add_def)

lemma sat_add_bound: "sat_add a b \<le> u64_max"
  by (simp add: sat_add_def)

section \<open>First minimum of a list\<close>

text \<open>\<open>Iterator::min_by_key\<close>: the first element with the least key, \<open>None\<close> on an empty iterator.\<close>

fun min_by_key :: "('a \<Rightarrow> nat) \<Rightarrow> 'a list \<Rightarrow> 'a option" where
  "min_by_key f [] = None"
| "min_by_key f (x # xs) =
     (case min_by_key f xs of
        None \<Rightarrow> Some x
      | Some y \<Rightarrow> if f x \<le> f y then Some x else Some y)"

lemma min_by_key_None [simp]: "min_by_key f xs = None \<longleftrightarrow> xs = []"
  by (cases xs) (auto split: option.splits)

lemma min_by_key_Some:
  "min_by_key f xs = Some x \<Longrightarrow> x \<in> set xs \<and> (\<forall>y \<in> set xs. f x \<le> f y)"
  by (induction xs arbitrary: x) (fastforce split: option.splits if_splits)+

section \<open>Suffixes\<close>

text \<open>\<open>str::strip_suffix\<close> of one byte, with \<open>unwrap_or\<close> the string itself.\<close>

definition strip_last :: "char \<Rightarrow> string \<Rightarrow> string" where
  "strip_last c s = (if s \<noteq> [] \<and> last s = c then butlast s else s)"

lemma strip_last_simps [simp]:
  "strip_last c [] = []"
  "strip_last c (s @ [d]) = (if d = c then s else s @ [d])"
  by (simp_all add: strip_last_def)

lemma strip_last_absent [simp]: "c \<notin> set s \<Longrightarrow> strip_last c s = s"
  by (auto simp: strip_last_def)

lemma strip_last_length: "length (strip_last c s) \<le> length s"
  by (simp add: strip_last_def)

lemma strip_last_take: "take (length (strip_last c s)) s = strip_last c s"
  by (simp add: strip_last_def butlast_conv_take)

end
