(* ===== verification/Paths.thy ===== *)
theory Paths
  imports Prelude
begin

text \<open>
  \<open>std::path\<close>: a path is the list of its components, which is what \<open>Path\<close> compares, orders,
  and tests prefixes by. A canonical absolute path starts with \<open>RootDir\<close>.
\<close>

section \<open>Components and their order\<close>

datatype component = PrefixC string | RootDir | CurDir | ParentDir | Normal string

type_synonym path = "component list"

text \<open>Rust derives the order of \<open>Component\<close> from the order of its variants.\<close>

fun component_rank :: "component \<Rightarrow> nat" where
  "component_rank (PrefixC _) = 0"
| "component_rank RootDir = 1"
| "component_rank CurDir = 2"
| "component_rank ParentDir = 3"
| "component_rank (Normal _) = 4"

fun component_name :: "component \<Rightarrow> string" where
  "component_name (PrefixC s) = s"
| "component_name (Normal s) = s"
| "component_name _ = []"

lemma component_eqI:
  "component_rank a = component_rank b \<Longrightarrow> component_name a = component_name b \<Longrightarrow> a = b"
  by (cases a; cases b) auto

instantiation component :: linorder
begin

definition less_component :: "component \<Rightarrow> component \<Rightarrow> bool" where
  "less_component a b \<longleftrightarrow>
     component_rank a < component_rank b
     \<or> component_rank a = component_rank b \<and> component_name a < component_name b"

definition less_eq_component :: "component \<Rightarrow> component \<Rightarrow> bool" where
  "less_eq_component a b \<longleftrightarrow> a = b \<or> a < (b :: component)"

instance
proof
  fix x y z :: component
  show "x < y \<longleftrightarrow> x \<le> y \<and> \<not> y \<le> x" "x \<le> x"
    by (auto simp: less_component_def less_eq_component_def)
  show "x \<le> y \<Longrightarrow> y \<le> z \<Longrightarrow> x \<le> z" "x \<le> y \<Longrightarrow> y \<le> x \<Longrightarrow> x = y"
    by (auto simp: less_component_def less_eq_component_def)
  show "x \<le> y \<or> y \<le> x"
    unfolding less_component_def less_eq_component_def
    using component_eqI [of x y] by (metis linorder_neqE linorder_neqE_nat)
qed

end

section \<open>Path operations\<close>

text \<open>
  \<open>Path::starts_with\<close> is \<^term>\<open>prefix\<close>; \<open>strip_prefix\<close>, \<open>join\<close> with a relative path,
  \<open>parent\<close>, \<open>file_name\<close> and \<open>ancestors\<close> follow \<open>std::path\<close>.
\<close>

definition starts_with :: "path \<Rightarrow> path \<Rightarrow> bool" where
  "starts_with p root \<longleftrightarrow> prefix root p"

definition strip_path_prefix :: "path \<Rightarrow> path \<Rightarrow> path option" where
  "strip_path_prefix p root = (if starts_with p root then Some (drop (length root) p) else None)"

definition join_path :: "path \<Rightarrow> path \<Rightarrow> path" where
  "join_path p rel = p @ rel"

definition join_name :: "path \<Rightarrow> string \<Rightarrow> path" where
  "join_name p name = p @ [Normal name]"

fun is_stem :: "component \<Rightarrow> bool" where
  "is_stem (PrefixC _) = False"
| "is_stem RootDir = False"
| "is_stem _ = True"

definition parent :: "path \<Rightarrow> path option" where
  "parent p = (if p \<noteq> [] \<and> is_stem (last p) then Some (butlast p) else None)"

definition file_name :: "path \<Rightarrow> string option" where
  "file_name p = (if p = [] then None else case last p of Normal n \<Rightarrow> Some n | _ \<Rightarrow> None)"

text \<open>\<open>ancestors().skip(1)\<close>: the parent, its parent, and so on.\<close>

function proper_ancestors :: "path \<Rightarrow> path list" where
  "proper_ancestors p = (case parent p of None \<Rightarrow> [] | Some q \<Rightarrow> q # proper_ancestors q)"
  by pat_completeness auto
termination
  by (relation "measure length") (auto simp: parent_def split: if_splits)

declare proper_ancestors.simps [simp del]

definition is_absolute :: "path \<Rightarrow> bool" where
  "is_absolute p \<longleftrightarrow> p \<noteq> [] \<and> (hd p = RootDir \<or> (\<exists>x s. hd p = PrefixC x \<and> tl p = RootDir # s))"

lemma is_absolute_code [code]:
  "is_absolute p = (case p of [] \<Rightarrow> False
     | RootDir # _ \<Rightarrow> True
     | PrefixC _ # q \<Rightarrow> (case q of RootDir # _ \<Rightarrow> True | _ \<Rightarrow> False)
     | _ \<Rightarrow> False)"
  by (auto simp: is_absolute_def split: list.splits component.splits)

section \<open>Laws\<close>

lemma starts_with_refl [simp, path_simps]: "starts_with p p"
  by (simp add: starts_with_def)

lemma starts_with_trans: "starts_with p q \<Longrightarrow> starts_with q r \<Longrightarrow> starts_with p r"
  by (auto simp: starts_with_def)

lemma starts_with_antisym: "starts_with p q \<Longrightarrow> starts_with q p \<Longrightarrow> p = q"
  by (simp add: starts_with_def prefix_order.antisym)

lemma starts_with_append [simp, path_simps]: "starts_with (p @ q) p"
  by (simp add: starts_with_def)

lemma starts_with_iff: "starts_with p q \<longleftrightarrow> (\<exists>r. p = q @ r)"
  by (auto simp: starts_with_def prefix_def)

lemma strip_path_prefix_Some:
  "strip_path_prefix p root = Some rel \<longleftrightarrow> p = root @ rel"
  by (auto simp: strip_path_prefix_def starts_with_def prefix_def)

lemma strip_path_prefix_None:
  "strip_path_prefix p root = None \<longleftrightarrow> \<not> starts_with p root"
  by (auto simp: strip_path_prefix_def)

lemma strip_path_prefix_append [simp, path_simps]: "strip_path_prefix (p @ q) p = Some q"
  by (simp add: strip_path_prefix_Some)

lemma join_name_inject [simp]: "join_name p a = join_name q b \<longleftrightarrow> p = q \<and> a = b"
  by (auto simp: join_name_def)

lemma parent_join_name [simp, path_simps]: "parent (join_name p n) = Some p"
  by (simp add: parent_def join_name_def)

lemma file_name_join_name [simp, path_simps]: "file_name (join_name p n) = Some n"
  by (simp add: file_name_def join_name_def)

lemma starts_with_join_name [simp, path_simps]: "starts_with (join_name p n) p"
  by (simp add: join_name_def)

lemma parent_starts_with: "parent p = Some q \<Longrightarrow> starts_with p q"
  by (auto simp: parent_def starts_with_def prefix_def split: if_splits)
     (metis append_butlast_last_id)

lemma parent_length: "parent p = Some q \<Longrightarrow> Suc (length q) = length p"
  by (auto simp: parent_def split: if_splits)

lemma proper_ancestors_Some:
  "parent p = Some q \<Longrightarrow> proper_ancestors p = q # proper_ancestors q"
  by (subst proper_ancestors.simps) simp

lemma proper_ancestors_None: "parent p = None \<Longrightarrow> proper_ancestors p = []"
  by (subst proper_ancestors.simps) simp

lemma proper_ancestors_prefix:
  "q \<in> set (proper_ancestors p) \<Longrightarrow> starts_with p q \<and> length q < length p"
proof (induction p rule: proper_ancestors.induct)
  case (1 p)
  show ?case
  proof (cases "parent p")
    case None
    with "1.prems" show ?thesis by (simp add: proper_ancestors_None)
  next
    case (Some r)
    note r = parent_starts_with [OF Some] parent_length [OF Some]
    show ?thesis
    proof (cases "q = r")
      case True
      with r show ?thesis by simp
    next
      case False
      with "1.prems" Some have "q \<in> set (proper_ancestors r)"
        by (simp add: proper_ancestors_Some)
      with "1.IH" Some have "starts_with r q" "length q < length r" by auto
      with r show ?thesis by (auto intro: starts_with_trans)
    qed
  qed
qed

text \<open>
  In the component order a subtree is contiguous: between a path and a path below it lie only
  paths below it. That is what makes \<open>range(path..).take_while(starts_with)\<close> the subtree.
\<close>

lemma prefix_le: "prefix p q \<Longrightarrow> p \<le> (q :: 'a::linorder list)"
proof (induction p arbitrary: q)
  case (Cons a p)
  then show ?case by (cases q) auto
qed simp

lemma subtree_contiguous:
  assumes "p \<le> (q :: 'a::linorder list)" "q \<le> r" "prefix p r"
  shows "prefix p q"
  using assms
proof (induction p arbitrary: q r)
  case (Cons a p)
  then obtain b q' where q: "q = b # q'"
    by (cases q) auto
  from Cons.prems(3) obtain r' where r: "r = a # r'" "prefix p r'"
    by (cases r) auto
  from Cons.prems q r have "a = b" "p \<le> q'" "q' \<le> r'"
    by auto
  with Cons.IH q r show ?case by auto
qed simp

end
