(* ===== verification/BTree_Map.thy ===== *)
theory BTree_Map
  imports Paths
begin

text \<open>
  \<open>std::collections::BTreeMap\<close> and \<open>BTreeSet\<close>. A map is its list of entries in key order, because
  the code iterates, takes ranges and picks first minima in that order. Components rest on the
  interface \<^theory_text>\<open>ordered_map\<close>; its interpretation \<^theory_text>\<open>bt\<close> proves the laws for this model.
\<close>

section \<open>The interface\<close>

locale ordered_map =
  fixes lookup :: "'m \<Rightarrow> 'k \<Rightarrow> 'v option"
    and put :: "'k \<Rightarrow> 'v \<Rightarrow> 'm \<Rightarrow> 'm"
    and drop_key :: "'k \<Rightarrow> 'm \<Rightarrow> 'm"
    and entries :: "'m \<Rightarrow> ('k \<times> 'v) list"
    and ok :: "'m \<Rightarrow> bool"
  assumes lookup_entries: "ok m \<Longrightarrow> lookup m = map_of (entries m)"
    and distinct_entries: "ok m \<Longrightarrow> distinct (map fst (entries m))"
    and ok_put: "ok m \<Longrightarrow> ok (put k v m)"
    and ok_drop: "ok m \<Longrightarrow> ok (drop_key k m)"
    and lookup_put: "ok m \<Longrightarrow> lookup (put k v m) = (lookup m)(k \<mapsto> v)"
    and lookup_drop: "ok m \<Longrightarrow> lookup (drop_key k m) = (lookup m)(k := None)"
begin

lemma set_entries: "ok m \<Longrightarrow> set (entries m) = {(k, v). lookup m k = Some v}"
  by (auto simp: lookup_entries distinct_entries)

lemma sum_entries:
  fixes f :: "'k \<times> 'v \<Rightarrow> nat"
  assumes "ok m"
  shows "sum_list (map f (entries m)) = sum f {(k, v). lookup m k = Some v}"
proof -
  have "distinct (entries m)"
    using distinct_entries [OF assms] distinct_map by blast
  then show ?thesis
    by (simp add: sum_list_distinct_conv_sum_set set_entries [OF assms])
qed

lemma finite_graph: "ok m \<Longrightarrow> finite {(k, v). lookup m k = Some v}"
  using set_entries by (metis List.finite_set)

lemma sum_drop_Some:
  fixes f :: "'k \<times> 'v \<Rightarrow> nat"
  assumes "ok m" "lookup m k = Some v"
  shows "sum_list (map f (entries (drop_key k m))) + f (k, v) = sum_list (map f (entries m))"
proof -
  have "{(k', v'). lookup m k' = Some v'}
      = insert (k, v) {(k', v'). lookup (drop_key k m) k' = Some v'}"
    using assms by (auto simp: lookup_drop split: if_splits)
  moreover have "(k, v) \<notin> {(k', v'). lookup (drop_key k m) k' = Some v'}"
    using assms by (simp add: lookup_drop)
  ultimately show ?thesis
    using assms by (simp add: sum_entries ok_drop finite_graph)
qed

lemma sum_drop_None:
  fixes f :: "'k \<times> 'v \<Rightarrow> nat"
  assumes "ok m" "lookup m k = None"
  shows "sum_list (map f (entries (drop_key k m))) = sum_list (map f (entries m))"
proof -
  have "lookup (drop_key k m) = lookup m"
    using assms by (auto simp: lookup_drop)
  with assms show ?thesis by (simp add: sum_entries ok_drop)
qed

lemma sum_put_fresh:
  fixes f :: "'k \<times> 'v \<Rightarrow> nat"
  assumes "ok m" "lookup m k = None"
  shows "sum_list (map f (entries (put k v m))) = sum_list (map f (entries m)) + f (k, v)"
proof -
  have "{(k', v'). lookup (put k v m) k' = Some v'}
      = insert (k, v) {(k', v'). lookup m k' = Some v'}"
    using assms by (auto simp: lookup_put split: if_splits)
  with assms show ?thesis by (simp add: sum_entries ok_put finite_graph)
qed

lemma length_sum: "length (entries m) = sum_list (map (\<lambda>_. 1) (entries m))"
  by (simp add: sum_list_triv)

lemma length_drop_Some:
  "ok m \<Longrightarrow> lookup m k = Some v \<Longrightarrow> Suc (length (entries (drop_key k m))) = length (entries m)"
  using sum_drop_Some [of m k v "\<lambda>_. 1"] by (simp add: length_sum)

lemma length_put_fresh:
  "ok m \<Longrightarrow> lookup m k = None \<Longrightarrow> length (entries (put k v m)) = Suc (length (entries m))"
  using sum_put_fresh [of m k "\<lambda>_. 1" v] by (simp add: length_sum)

end

section \<open>The model of \<open>BTreeMap\<close>\<close>

type_synonym ('k, 'v) btree = "('k \<times> 'v) list"

definition bt_ok :: "('k::linorder, 'v) btree \<Rightarrow> bool" where
  "bt_ok m \<longleftrightarrow> sorted_wrt (<) (map fst m)"

definition bt_insert :: "'k::linorder \<Rightarrow> 'v \<Rightarrow> ('k, 'v) btree \<Rightarrow> ('k, 'v) btree" where
  "bt_insert k v m = filter (\<lambda>e. fst e < k) m @ (k, v) # filter (\<lambda>e. k < fst e) m"

definition bt_remove :: "'k::linorder \<Rightarrow> ('k, 'v) btree \<Rightarrow> ('k, 'v) btree" where
  "bt_remove k m = filter (\<lambda>e. fst e \<noteq> k) m"

definition bt_of_list :: "('k::linorder \<times> 'v) list \<Rightarrow> ('k, 'v) btree" where
  "bt_of_list es = fold (\<lambda>(k, v). bt_insert k v) es []"

abbreviation bt_get :: "('k, 'v) btree \<Rightarrow> 'k \<Rightarrow> 'v option" where
  "bt_get \<equiv> map_of"

definition bt_keys :: "('k, 'v) btree \<Rightarrow> 'k list" where
  "bt_keys m = map fst m"

lemma bt_ok_empty [simp, intro]: "bt_ok []"
  by (simp add: bt_ok_def)

lemma sorted_wrt_distinct: "sorted_wrt (<) (ks :: 'k::linorder list) \<Longrightarrow> distinct ks"
  by (simp add: strict_sorted_iff)

lemma bt_ok_distinct: "bt_ok m \<Longrightarrow> distinct (map fst m)"
  by (simp add: bt_ok_def sorted_wrt_distinct)

lemma bt_ok_filter [simp, intro]: "bt_ok m \<Longrightarrow> bt_ok (filter P m)"
  by (simp add: bt_ok_def sorted_wrt_map sorted_wrt_filter)

lemma bt_ok_remove [simp, intro]: "bt_ok m \<Longrightarrow> bt_ok (bt_remove k m)"
  by (simp add: bt_remove_def)

lemma bt_ok_insert [simp, intro]: "bt_ok m \<Longrightarrow> bt_ok (bt_insert k v m)"
  by (auto simp: bt_ok_def bt_insert_def sorted_wrt_append sorted_wrt_map sorted_wrt_filter)

lemma map_of_filter_key:
  "map_of (filter (\<lambda>e. P (fst e)) m) k = (if P k then map_of m k else None)"
  by (induction m) auto

lemma map_of_filter_cmp [simp]:
  "map_of (filter (\<lambda>e. fst e \<noteq> k) m) x = (if x \<noteq> k then map_of m x else None)"
  "map_of (filter (\<lambda>e. fst e < l) m) x = (if x < (l :: 'k::linorder) then map_of m x else None)"
  "map_of (filter (\<lambda>e. l < fst e) m) x = (if l < x then map_of m x else None)"
  by (rule map_of_filter_key)+

lemma bt_get_remove [simp]: "bt_get (bt_remove k m) = (bt_get m)(k := None)"
  by (auto simp: bt_remove_def fun_eq_iff)

lemma bt_get_insert [simp]: "bt_get (bt_insert k v m) = (bt_get m)(k \<mapsto> v)"
  by (rule ext) (auto simp: bt_insert_def map_add_def split: option.splits dest: linorder_cases)

lemma bt_ok_of_list [simp, intro]: "bt_ok (bt_of_list es)"
proof -
  have "bt_ok m \<Longrightarrow> bt_ok (fold (\<lambda>(k, v). bt_insert k v) es m)" for m
    by (induction es arbitrary: m) auto
  then show ?thesis by (simp add: bt_of_list_def)
qed

lemma bt_get_of_list: "bt_get (bt_of_list es) = map_of (rev es)"
proof -
  have "bt_get (fold (\<lambda>(k, v). bt_insert k v) es m) = bt_get m ++ map_of (rev es)" for m
    by (induction es arbitrary: m) (auto simp: map_add_def fun_eq_iff split: option.splits)
  then show ?thesis by (simp add: bt_of_list_def)
qed

lemma bt_remove_absent: "bt_get m k = None \<Longrightarrow> bt_remove k m = m"
  by (auto simp: bt_remove_def map_of_eq_None_iff intro!: filter_True)

lemma bt_get_mem: "bt_ok m \<Longrightarrow> bt_get m k = Some v \<longleftrightarrow> (k, v) \<in> set m"
  by (simp add: bt_ok_distinct)

lemma bt_ok_unique: "bt_ok m \<Longrightarrow> (k, v) \<in> set m \<Longrightarrow> (k, w) \<in> set m \<Longrightarrow> v = w"
  by (metis bt_ok_distinct eq_key_imp_eq_value)

lemma set_bt_insert: "set (bt_insert k v m) = insert (k, v) {e \<in> set m. fst e \<noteq> k}"
  by (auto simp: bt_insert_def)

lemma set_bt_remove: "set (bt_remove k m) = {e \<in> set m. fst e \<noteq> k}"
  by (auto simp: bt_remove_def)

lemma bt_insert_remove: "bt_insert k v (bt_remove k m) = bt_insert k v m"
proof -
  have "(fst e \<noteq> k \<and> fst e < k) = (fst e < k)" "(fst e \<noteq> k \<and> k < fst e) = (k < fst e)" for e :: "'a \<times> 'b"
    by auto
  then show ?thesis by (simp add: bt_insert_def bt_remove_def)
qed

interpretation bt: ordered_map bt_get bt_insert bt_remove "\<lambda>m. m" bt_ok
  by unfold_locales (auto simp: bt_ok_distinct)

text \<open>Overwriting the value of a key.\<close>

lemma sum_bt_insert_over:
  fixes f :: "'k::linorder \<times> 'v \<Rightarrow> nat"
  assumes "bt_ok m" "bt_get m k = Some w"
  shows "sum_list (map f (bt_insert k v m)) + f (k, w) = sum_list (map f m) + f (k, v)"
  using bt.sum_put_fresh [of "bt_remove k m" k f v] bt.sum_drop_Some [OF assms, of f] assms(1)
  by (simp add: bt_insert_remove)

lemma length_bt_insert_over:
  assumes "bt_ok m" "bt_get m k = Some w"
  shows "length (bt_insert k v m) = length m"
  using bt.length_put_fresh [of "bt_remove k m" k v] bt.length_drop_Some [OF assms] assms(1)
  by (simp add: bt_insert_remove)

text \<open>Two maps in key order with the same lookups are the same map.\<close>

lemma rebuild_from_keys: "distinct (map fst m) \<Longrightarrow> map (\<lambda>k. (k, the (map_of m k))) (map fst m) = m"
  unfolding map_map by (rule map_idI) auto

lemma bt_ext:
  assumes "bt_ok m" "bt_ok n" "bt_get m = bt_get n"
  shows "m = n"
proof -
  have "set (map fst m) = set (map fst n)"
    using assms(3) by (metis dom_map_of_conv_image_fst list.set_map)
  then have "map fst m = map fst n"
    using assms(1,2) strict_sorted_equal unfolding bt_ok_def by blast
  with assms show ?thesis
    by (metis bt_ok_distinct rebuild_from_keys)
qed

section \<open>Range queries\<close>

text \<open>\<open>range(p..).take_while(|(q, _)| q.starts_with(p))\<close>: the entries at and below a path.\<close>

definition subtree :: "path \<Rightarrow> (path, 'v) btree \<Rightarrow> (path \<times> 'v) list" where
  "subtree p m = takeWhile (\<lambda>e. starts_with (fst e) p) (dropWhile (\<lambda>e. fst e < p) m)"

lemma takeWhile_filter:
  assumes "sorted_wrt (\<lambda>x y. P y \<longrightarrow> P x) xs"
  shows "takeWhile P xs = filter P xs"
  using assms
proof (induction xs)
  case (Cons x xs)
  then show ?case by (auto simp: filter_empty_conv)
qed simp

lemma dropWhile_filter:
  assumes "sorted_wrt (\<lambda>x y. P y \<longrightarrow> P x) xs"
  shows "dropWhile P xs = filter (\<lambda>x. \<not> P x) xs"
  using assms
proof (induction xs)
  case (Cons x xs)
  show ?case
  proof (cases "P x")
    case True
    with Cons show ?thesis by simp
  next
    case False
    with Cons.prems have "filter (\<lambda>x. \<not> P x) xs = xs"
      by (auto intro: filter_True)
    with False show ?thesis by simp
  qed
qed simp

lemma sorted_wrt_fst: "bt_ok m \<Longrightarrow> sorted_wrt (\<lambda>x y. fst x < fst y) m"
  by (simp add: bt_ok_def sorted_wrt_map)

text \<open>In an ordered map the range query finds every entry below the path, and nothing else.\<close>

lemma subtree_filter:
  assumes "bt_ok m"
  shows "subtree p m = filter (\<lambda>e. starts_with (fst e) p) m"
proof -
  have "sorted_wrt (\<lambda>x y. fst y < p \<longrightarrow> fst x < p) m"
    by (rule sorted_wrt_mono_rel [OF _ sorted_wrt_fst [OF assms]]) auto
  then have drop: "dropWhile (\<lambda>e. fst e < p) m = filter (\<lambda>e. p \<le> fst e) m"
    by (simp add: dropWhile_filter not_less)
  have "sorted_wrt (\<lambda>x y. starts_with (fst y) p \<longrightarrow> starts_with (fst x) p)
          (filter (\<lambda>e. p \<le> fst e) m)"
    by (rule sorted_wrt_mono_rel [OF _ sorted_wrt_fst])
       (use assms in \<open>auto simp: starts_with_def intro: subtree_contiguous [OF _ less_imp_le]\<close>)
  then have "subtree p m = filter (\<lambda>e. starts_with (fst e) p) (filter (\<lambda>e. p \<le> fst e) m)"
    by (simp add: subtree_def drop takeWhile_filter)
  also have "\<dots> = filter (\<lambda>e. starts_with (fst e) p) m"
    by (auto simp: starts_with_def prefix_le intro: filter_cong)
  finally show ?thesis .
qed

section \<open>\<open>BTreeSet\<close>\<close>

definition bs_insert :: "'a::linorder \<Rightarrow> 'a list \<Rightarrow> 'a list" where
  "bs_insert x xs = (if x \<in> set xs then xs else insort x xs)"

lemma set_bs_insert [simp]: "set (bs_insert x xs) = insert x (set xs)"
  by (auto simp: bs_insert_def set_insort_key)

lemma strict_sorted_bs_insert [simp]:
  "sorted_wrt (<) xs \<Longrightarrow> sorted_wrt (<) (bs_insert x xs)"
  by (auto simp: bs_insert_def strict_sorted_iff sorted_insort distinct_insort)

definition bs_of_list :: "'a::linorder list \<Rightarrow> 'a list" where
  "bs_of_list xs = fold bs_insert xs []"

end
