(* ===== verification/Json_Value.thy ===== *)
theory Json_Value
  imports BTree_Map
begin

unbundle bit_operations_syntax

text \<open>
  \<open>serde_json::Value\<close>. A number is what \<open>serde_json::Number\<close> stores: a non-negative integer as
  \<open>u64\<close>, a negative one as \<open>i64\<close>, or the bit pattern of a finite \<open>f64\<close>. An object is a
  \<open>BTreeMap\<close> (the crate is built without \<open>preserve_order\<close>).
\<close>

datatype number = PosInt "64 word" | NegInt "64 word" | Float64 "64 word"

datatype json =
    JNull
  | JBool bool
  | JNumber number
  | JString string
  | JArray "json list"
  | JObject "(string \<times> json) list"

text \<open>The accessors \<open>as_i64\<close>, \<open>as_u64\<close>, \<open>as_str\<close>, \<open>as_bool\<close>, \<open>as_array\<close>, \<open>as_object\<close>.\<close>

fun number_i64 :: "number \<Rightarrow> int option" where
  "number_i64 (PosInt w) = (if unat w < 2 ^ 63 then Some (uint w) else None)"
| "number_i64 (NegInt w) = Some (sint w)"
| "number_i64 (Float64 _) = None"

fun number_u64 :: "number \<Rightarrow> nat option" where
  "number_u64 (PosInt w) = Some (unat w)"
| "number_u64 _ = None"

fun as_i64 :: "json \<Rightarrow> int option" where
  "as_i64 (JNumber n) = number_i64 n"
| "as_i64 _ = None"

fun as_u64 :: "json \<Rightarrow> nat option" where
  "as_u64 (JNumber n) = number_u64 n"
| "as_u64 _ = None"

fun as_str :: "json \<Rightarrow> string option" where
  "as_str (JString s) = Some s"
| "as_str _ = None"

fun as_bool :: "json \<Rightarrow> bool option" where
  "as_bool (JBool b) = Some b"
| "as_bool _ = None"

fun as_array :: "json \<Rightarrow> json list option" where
  "as_array (JArray xs) = Some xs"
| "as_array _ = None"

fun as_object :: "json \<Rightarrow> (string, json) btree option" where
  "as_object (JObject m) = Some m"
| "as_object _ = None"

text \<open>\<open>Value::get\<close> with a string key, and the total indexing \<open>value["key"]\<close>.\<close>

fun json_get :: "json \<Rightarrow> string \<Rightarrow> json option" where
  "json_get (JObject m) k = bt_get m k"
| "json_get _ _ = None"

definition json_index :: "json \<Rightarrow> string \<Rightarrow> json" where
  "json_index v k = (case json_get v k of None \<Rightarrow> JNull | Some x \<Rightarrow> x)"

text \<open>
  The assignment \<open>value["key"] = x\<close> (\<open>IndexMut\<close>): it inserts into an object, turns \<open>Null\<close>
  into a one-entry object, and panics (\<open>None\<close>) on any other value.
\<close>

fun json_set :: "json \<Rightarrow> string \<Rightarrow> json \<Rightarrow> json option" where
  "json_set (JObject m) k x = Some (JObject (bt_insert k x m))"
| "json_set JNull k x = Some (JObject [(k, x)])"
| "json_set _ _ _ = None"

definition jnat :: "nat \<Rightarrow> json" where
  "jnat n = JNumber (PosInt (word_of_nat n))"

definition jint :: "int \<Rightarrow> json" where
  "jint i = JNumber (if i < 0 then NegInt (word_of_int i) else PosInt (word_of_int i))"

definition jopt :: "('a \<Rightarrow> json) \<Rightarrow> 'a option \<Rightarrow> json" where
  "jopt f x = (case x of None \<Rightarrow> JNull | Some y \<Rightarrow> f y)"

text \<open>An object literal of the \<open>json!\<close> macro.\<close>

definition jobj :: "(string \<times> json) list \<Rightarrow> json" where
  "jobj es = JObject (bt_of_list es)"

text \<open>
  What every \<open>Value\<close> of a run satisfies: negative integers are stored as such, object keys are
  in order, and no string or collection has \<open>2^64\<close> bytes or entries.
\<close>

fun json_ok :: "json \<Rightarrow> bool" where
  "json_ok (JNumber (NegInt w)) = (sint w < 0)"
| "json_ok (JString s) = (length s < 2 ^ 64)"
| "json_ok (JArray xs) = (length xs < 2 ^ 64 \<and> list_all json_ok xs)"
| "json_ok (JObject m) =
     (length m < 2 ^ 64 \<and> bt_ok m \<and> list_all (\<lambda>e. length (fst e) < 2 ^ 64 \<and> json_ok (snd e)) m)"
| "json_ok _ = True"

section \<open>\<open>canonical_value.rs\<close>: the canonical encoding\<close>

text \<open>\<open>u64::to_be_bytes\<close>.\<close>

definition byte_at :: "64 word \<Rightarrow> nat \<Rightarrow> char" where
  "byte_at w i = char_of (unat (take_bit 8 (drop_bit (8 * i) w)))"

definition be_bytes :: "64 word \<Rightarrow> string" where
  "be_bytes w = map (byte_at w) (rev [0..<8])"

definition be_len :: "nat \<Rightarrow> string" where
  "be_len n = be_bytes (word_of_nat n)"

text \<open>\<open>encode_bytes\<close>: a length prefix and the bytes.\<close>

definition encode_bytes :: "string \<Rightarrow> string" where
  "encode_bytes s = be_len (length s) @ s"

text \<open>
  \<open>encode_canonical_value\<close>: the bytes it feeds to the hasher, in order. A zero float is
  normalised to \<open>+0.0\<close>, object entries are sorted by key bytes.
\<close>

definition float_zero :: "64 word \<Rightarrow> bool" where
  "float_zero w \<longleftrightarrow> w = 0 \<or> w = 0x8000000000000000"

definition tag :: "nat \<Rightarrow> char" where
  "tag n = char_of n"

fun encode_number :: "number \<Rightarrow> string" where
  "encode_number n =
     (case number_i64 n of
        Some i \<Rightarrow> if i < 0 then tag 3 # be_bytes (word_of_int i)
                 else (case number_u64 n of Some u \<Rightarrow> tag 4 # be_bytes (word_of_nat u) | None \<Rightarrow> [])
      | None \<Rightarrow>
        (case number_u64 n of
           Some u \<Rightarrow> tag 4 # be_bytes (word_of_nat u)
         | None \<Rightarrow> (case n of Float64 w \<Rightarrow> tag 5 # be_bytes (if float_zero w then 0 else w)
                          | _ \<Rightarrow> [])))"

declare encode_number.simps [simp del]

function encode_canonical_value :: "json \<Rightarrow> string" where
  "encode_canonical_value JNull = [tag 0]"
| "encode_canonical_value (JBool b) = [if b then tag 2 else tag 1]"
| "encode_canonical_value (JNumber n) = encode_number n"
| "encode_canonical_value (JString s) = tag 6 # encode_bytes s"
| "encode_canonical_value (JArray xs) =
     tag 7 # be_len (length xs) @ concat (map encode_canonical_value xs)"
| "encode_canonical_value (JObject m) =
     tag 8 # be_len (length m)
       @ concat (map (\<lambda>e. encode_bytes (fst e) @ encode_canonical_value (snd e)) (sort_key fst m))"
  by pat_completeness auto
termination
proof (relation "measure size")
  show "(x, JArray xs) \<in> measure size" if "x \<in> set xs" for x xs
    using that by (simp add: le_imp_less_Suc size_list_estimation')
  show "(snd e, JObject m) \<in> measure size" if "e \<in> set (sort_key fst m)" for m e
  proof -
    from that have "e \<in> set m" by simp
    then have "size (snd e) < Suc (size_list (size_prod (\<lambda>_. 0) size) m)"
      by (induction m) (auto split: prod.splits)
    then show ?thesis by simp
  qed
qed simp

text \<open>
  \<open>digest_canonical_value\<close> and \<open>digest_raw_bytes\<close>. The parameter \<open>hexsha\<close> stands for
  \<open>hex::encode(Sha256::digest(bytes))\<close> of the \<open>sha2\<close> and \<open>hex\<close> crates.
\<close>

definition canonical_preimage :: "string \<Rightarrow> json \<Rightarrow> string" where
  "canonical_preimage domain v = domain @ [tag 0] @ encode_canonical_value v"

definition digest_canonical_value :: "(string \<Rightarrow> string) \<Rightarrow> string \<Rightarrow> json \<Rightarrow> string" where
  "digest_canonical_value hexsha domain v = ''sha256:'' @ hexsha (canonical_preimage domain v)"

definition digest_raw_bytes :: "(string \<Rightarrow> string) \<Rightarrow> string \<Rightarrow> string" where
  "digest_raw_bytes hexsha bytes = ''sha256:'' @ hexsha bytes"

end
