(* ===== verification/Canonical_Value.thy ===== *)
theory Canonical_Value
  imports Json_Value
begin

text \<open>
  The laws of \<open>canonical_value.rs\<close>: the canonical encoding is prefix-free and forgets nothing
  but the sign of a zero float, so the bytes hashed for two values agree only on equal values,
  and the domain separator keeps the digests of different record types apart.
\<close>

section \<open>Fixed-width fields\<close>

lemma length_be_bytes [simp]: "length (be_bytes w) = 8"
  by (simp add: be_bytes_def)

lemma length_be_len [simp]: "length (be_len n) = 8"
  by (simp add: be_len_def)

lemma byte_at_eqD:
  assumes "byte_at v i = byte_at w i"
  shows "take_bit 8 (drop_bit (8 * i) v) = take_bit 8 (drop_bit (8 * i) (w :: 64 word))"
proof -
  have bound: "unat (take_bit 8 x) < 2 ^ 8" for x :: "64 word"
    by (simp only: unsigned_take_bit_eq take_bit_nat_less_exp)
  have "unat (take_bit 8 (drop_bit (8 * i) v)) = unat (take_bit 8 (drop_bit (8 * i) w))"
    using arg_cong [OF assms, of "of_char :: char \<Rightarrow> nat"] bound
    by (simp add: byte_at_def take_bit_nat_eq_self)
  then show ?thesis by (simp add: word_unat_eq_iff)
qed

lemma be_bytes_inject [simp]: "be_bytes v = be_bytes w \<longleftrightarrow> v = w"
proof
  assume "be_bytes v = be_bytes w"
  then have eq: "byte_at v i = byte_at w i" if "i < 8" for i
    using that by (simp add: be_bytes_def)
  show "v = w"
  proof (rule bit_word_eqI)
    fix n assume "n < LENGTH(64)"
    then have "take_bit 8 (drop_bit (8 * (n div 8)) v) = take_bit 8 (drop_bit (8 * (n div 8)) w)"
      by (intro byte_at_eqD eq) auto
    then have "bit (take_bit 8 (drop_bit (8 * (n div 8)) v)) (n mod 8)
             = bit (take_bit 8 (drop_bit (8 * (n div 8)) w)) (n mod 8)"
      by simp
    then show "bit v n = bit w n"
      by (simp add: bit_take_bit_iff bit_drop_bit_eq)
  qed
qed simp

lemma be_len_inject: "a < 2 ^ 64 \<Longrightarrow> b < 2 ^ 64 \<Longrightarrow> be_len a = be_len b \<longleftrightarrow> a = b"
  by (auto simp: be_len_def word_of_nat_eq_iff take_bit_nat_eq_self)

lemma tag_inject [simp]: "a < 256 \<Longrightarrow> b < 256 \<Longrightarrow> tag a = tag b \<longleftrightarrow> a = b"
  by (auto simp: tag_def take_bit_nat_eq_self dest!: arg_cong [where f = "of_char :: char \<Rightarrow> nat"])

section \<open>What the encoding forgets\<close>

fun normalize_number :: "number \<Rightarrow> number" where
  "normalize_number (Float64 w) = Float64 (if float_zero w then 0 else w)"
| "normalize_number n = n"

fun normalize :: "json \<Rightarrow> json" where
  "normalize (JNumber n) = JNumber (normalize_number n)"
| "normalize (JArray xs) = JArray (map normalize xs)"
| "normalize (JObject m) = JObject (map (map_prod id normalize) m)"
| "normalize v = v"

lemma encode_number_cases:
  assumes "json_ok (JNumber n)"
  shows "encode_number n =
    (case n of NegInt w \<Rightarrow> tag 3 # be_bytes w
     | PosInt w \<Rightarrow> tag 4 # be_bytes w
     | Float64 w \<Rightarrow> tag 5 # be_bytes (if float_zero w then 0 else w))"
  using assms by (cases n) (auto simp: encode_number.simps)

lemma encode_number_prefix:
  assumes "json_ok (JNumber m)" "json_ok (JNumber n)"
    and "encode_number m @ r = encode_number n @ s"
  shows "normalize_number m = normalize_number n \<and> r = s"
  using assms(3) unfolding encode_number_cases [OF assms(1)] encode_number_cases [OF assms(2)]
  by (cases m; cases n) (auto simp: append_eq_append_conv)

section \<open>Prefix-freeness\<close>

text \<open>Sequences of the same length whose elements have prefix-free codes are prefix-free.\<close>

lemma concat_code_prefix:
  assumes "length xs = length ys"
    and "concat (map code xs) @ r = concat (map code ys) @ s"
    and "\<And>x y r s. x \<in> set xs \<Longrightarrow> y \<in> set ys \<Longrightarrow> code x @ r = code y @ s \<Longrightarrow> f x = f y \<and> r = s"
  shows "map f xs = map f ys \<and> r = s"
  using assms
proof (induction xs ys rule: list_induct2)
  case (Cons x xs y ys)
  from Cons.prems(1) have "code x @ (concat (map code xs) @ r) = code y @ (concat (map code ys) @ s)"
    by simp
  then have "f x = f y" "concat (map code xs) @ r = concat (map code ys) @ s"
    using Cons.prems(2) [of x y] by auto
  with Cons show ?case by auto
qed simp

lemma encode_bytes_prefix:
  assumes "length a < 2 ^ 64" "length b < 2 ^ 64" "encode_bytes a @ r = encode_bytes b @ s"
  shows "a = b \<and> r = s"
  using assms by (auto simp: encode_bytes_def append_eq_append_conv be_len_inject)

lemma encode_object:
  "json_ok (JObject m) \<Longrightarrow> encode_canonical_value (JObject m) =
     tag 8 # be_len (length m)
       @ concat (map (\<lambda>e. encode_bytes (fst e) @ encode_canonical_value (snd e)) m)"
  by (simp add: bt_ok_def strict_sorted_iff sort_key_id_if_sorted)

text \<open>The first byte names the kind of value.\<close>

fun head_tag :: "json \<Rightarrow> nat" where
  "head_tag JNull = 0"
| "head_tag (JBool b) = (if b then 2 else 1)"
| "head_tag (JNumber (NegInt _)) = 3"
| "head_tag (JNumber (PosInt _)) = 4"
| "head_tag (JNumber (Float64 _)) = 5"
| "head_tag (JString _) = 6"
| "head_tag (JArray _) = 7"
| "head_tag (JObject _) = 8"

lemma head_tag_bound: "head_tag v < 256"
  by (cases v rule: head_tag.cases) auto

lemma encode_head: "json_ok v \<Longrightarrow> \<exists>body. encode_canonical_value v = tag (head_tag v) # body"
  by (cases v rule: head_tag.cases) (auto simp: encode_number_cases)

lemma encode_same_head:
  assumes "json_ok a" "json_ok b" "encode_canonical_value a @ r = encode_canonical_value b @ s"
  shows "head_tag a = head_tag b"
  using encode_head [OF assms(1)] encode_head [OF assms(2)] assms(3)
  by (auto simp: head_tag_bound)

lemma head_tag_simps:
  "head_tag v = 6 \<longleftrightarrow> (\<exists>x. v = JString x)"
  "head_tag v = 7 \<longleftrightarrow> (\<exists>x. v = JArray x)"
  "head_tag v = 8 \<longleftrightarrow> (\<exists>x. v = JObject x)"
  by (cases v rule: head_tag.cases; simp)+

lemma head_tag_leaf:
  "head_tag v = 0 \<Longrightarrow> v = JNull"
  "head_tag v = head_tag (JBool x) \<Longrightarrow> v = JBool x"
  by (cases v rule: head_tag.cases; simp split: if_splits)+

lemma head_tag_number: "head_tag (JNumber n) = head_tag v \<Longrightarrow> \<exists>x. v = JNumber x"
  by (cases n; cases v rule: head_tag.cases) (auto split: if_splits)

lemma encode_prefix:
  assumes "json_ok a" "json_ok b"
    and "encode_canonical_value a @ r = encode_canonical_value b @ s"
  shows "normalize a = normalize b \<and> r = s"
  using assms
proof (induction a arbitrary: b r s)
  case JNull
  then have "b = JNull"
    using encode_same_head [OF JNull] head_tag_leaf(1) by simp
  with JNull show ?case by simp
next
  case (JBool x)
  then have "b = JBool x"
    using encode_same_head [OF JBool] head_tag_leaf(2) by metis
  with JBool show ?case by simp
next
  case (JNumber n)
  from head_tag_number [OF encode_same_head [OF JNumber]] obtain k where b: "b = JNumber k" ..
  from encode_number_prefix [of n k r s] JNumber b show ?case by simp
next
  case (JString x)
  from encode_same_head [OF JString] obtain y where b: "b = JString y"
    by (auto simp: head_tag_simps eq_commute [of 6])
  from encode_bytes_prefix [of x y r s] JString b show ?case by simp
next
  case (JArray xs)
  from encode_same_head [OF JArray.prems] obtain ys where b: "b = JArray ys"
    by (auto simp: head_tag_simps eq_commute [of 7])
  with JArray.prems have "length xs = length ys"
    and "concat (map encode_canonical_value xs) @ r = concat (map encode_canonical_value ys) @ s"
    by (auto simp: append_eq_append_conv be_len_inject)
  then have "map normalize xs = map normalize ys \<and> r = s"
    by (rule concat_code_prefix) (use JArray b in \<open>auto simp: list_all_iff\<close>)
  with b show ?case by simp
next
  case (JObject m)
  from encode_same_head [OF JObject.prems] obtain n where b: "b = JObject n"
    by (auto simp: head_tag_simps eq_commute [of 8])
  let ?code = "\<lambda>e. encode_bytes (fst e) @ encode_canonical_value (snd e)"
  have ok: "length m < 2 ^ 64" "length n < 2 ^ 64"
    using JObject.prems b by auto
  have "be_len (length m) @ concat (map ?code m) @ r = be_len (length n) @ concat (map ?code n) @ s"
    using JObject.prems(3) unfolding b encode_object [OF JObject.prems(1)]
      encode_object [OF JObject.prems(2) [unfolded b]] by simp
  then have "length m = length n" "concat (map ?code m) @ r = concat (map ?code n) @ s"
    using ok by (auto simp: append_eq_append_conv be_len_inject)
  then have "map (map_prod id normalize) m = map (map_prod id normalize) n \<and> r = s"
  proof (rule concat_code_prefix)
    fix d e r s
    assume mem: "d \<in> set m" "e \<in> set n" and eq: "?code d @ r = ?code e @ s"
    from mem JObject.prems b have len: "length (fst d) < 2 ^ 64" "length (fst e) < 2 ^ 64"
      and sub: "json_ok (snd d)" "json_ok (snd e)"
      by (auto simp: list_all_iff)
    from encode_bytes_prefix [OF len, of "encode_canonical_value (snd d) @ r"
        "encode_canonical_value (snd e) @ s"] eq
    have "fst d = fst e" "encode_canonical_value (snd d) @ r = encode_canonical_value (snd e) @ s"
      by auto
    moreover have "normalize (snd d) = normalize (snd e) \<and> r = s"
      by (rule JObject.IH [OF mem(1) _ sub]) (use calculation in \<open>auto simp: snds.simps\<close>)
    ultimately show "map_prod id normalize d = map_prod id normalize e \<and> r = s"
      by (simp add: prod_eq_iff)
  qed
  with b show ?case by simp
qed

lemma encode_number_normalize:
  "json_ok (JNumber m) \<Longrightarrow> json_ok (JNumber n) \<Longrightarrow> normalize_number m = normalize_number n
    \<Longrightarrow> encode_number m = encode_number n"
  by (cases m; cases n) (auto simp: encode_number_cases split: if_splits)

lemma normalize_kind:
  "normalize v = JNumber n \<Longrightarrow> \<exists>m. v = JNumber m"
  "normalize v = JArray ys \<Longrightarrow> \<exists>xs. v = JArray xs \<and> ys = map normalize xs"
  "normalize v = JObject es \<Longrightarrow> \<exists>m. v = JObject m \<and> es = map (map_prod id normalize) m"
  by (cases v; simp)+

lemma normalize_leaf:
  "normalize v = JNull \<longleftrightarrow> v = JNull"
  "normalize v = JBool x \<longleftrightarrow> v = JBool x"
  "normalize v = JString t \<longleftrightarrow> v = JString t"
  by (cases v; simp)+

lemma map_eq_same_code:
  assumes "map f xs = map f ys"
    and "\<And>x y. x \<in> set xs \<Longrightarrow> y \<in> set ys \<Longrightarrow> f x = f y \<Longrightarrow> g x = g y"
  shows "map g xs = map g ys"
proof -
  have "length xs = length ys"
    using assms(1) by (rule map_eq_imp_length_eq)
  then show ?thesis
    using assms by (induction xs ys rule: list_induct2) auto
qed

lemma encode_normalize:
  assumes "json_ok a" "json_ok b" "normalize a = normalize b"
  shows "encode_canonical_value a = encode_canonical_value b"
  using assms
proof (induction a arbitrary: b)
  case (JNumber n)
  then obtain m where "b = JNumber m"
    using normalize_kind(1) [of b] by (metis normalize.simps(1))
  with JNumber show ?case by (auto intro: encode_number_normalize)
next
  case (JArray xs)
  then obtain ys where b: "b = JArray ys" "map normalize xs = map normalize ys"
    using normalize_kind(2) [of b] by (metis normalize.simps(2))
  have "map encode_canonical_value xs = map encode_canonical_value ys"
    using b(2) by (rule map_eq_same_code) (use JArray b in \<open>auto simp: list_all_iff\<close>)
  with b show ?case using map_eq_imp_length_eq [OF b(2)] by simp
next
  case (JObject m)
  then obtain n where b: "b = JObject n" "map (map_prod id normalize) m = map (map_prod id normalize) n"
    using normalize_kind(3) [of b] by (metis normalize.simps(3))
  have "map (\<lambda>e. encode_bytes (fst e) @ encode_canonical_value (snd e)) m
      = map (\<lambda>e. encode_bytes (fst e) @ encode_canonical_value (snd e)) n"
    using b(2)
  proof (rule map_eq_same_code)
    fix d e
    assume mem: "d \<in> set m" "e \<in> set n" and eq: "map_prod id normalize d = map_prod id normalize e"
    have "encode_canonical_value (snd d) = encode_canonical_value (snd e)"
      by (rule JObject.IH [OF mem(1)]) (use mem eq JObject.prems b in
        \<open>auto simp: snds.simps list_all_iff map_prod_def split: prod.splits\<close>)
    with eq show "encode_bytes (fst d) @ encode_canonical_value (snd d)
        = encode_bytes (fst e) @ encode_canonical_value (snd e)"
      by (simp add: map_prod_def split: prod.splits)
  qed
  then show ?case
    using map_eq_imp_length_eq [OF b(2)] JObject.prems b by (simp only: encode_object)
qed (simp_all add: normalize_leaf eq_commute [of _ "normalize _"])

lemma separator_unique:
  assumes "x \<notin> set a" "x \<notin> set b" "a @ x # r = b @ x # s"
  shows "a = b \<and> r = s"
proof -
  have "takeWhile (\<lambda>y. y \<noteq> x) (a @ x # r) = a" "takeWhile (\<lambda>y. y \<noteq> x) (b @ x # s) = b"
    using assms(1,2) by (auto simp: takeWhile_append)
  with assms(3) show ?thesis by auto
qed

section \<open>The property\<close>

text \<open>
  C18. Two calls of \<open>digest_canonical_value\<close> hash the same bytes exactly when they use the same
  domain and the same value up to the sign of zero floats: the encoding is unambiguous, and the
  NUL after the domain separates record types (no domain of the code contains a NUL).
\<close>

theorem canonical_preimage_injective:
  assumes "tag 0 \<notin> set d" "tag 0 \<notin> set e" "json_ok a" "json_ok b"
  shows "canonical_preimage d a = canonical_preimage e b \<longleftrightarrow> d = e \<and> normalize a = normalize b"
proof
  assume "canonical_preimage d a = canonical_preimage e b"
  then have "d = e" "encode_canonical_value a = encode_canonical_value b"
    using separator_unique [OF assms(1,2)] by (auto simp: canonical_preimage_def)
  with encode_prefix [OF assms(3,4), of "[]" "[]"] show "d = e \<and> normalize a = normalize b"
    by simp
next
  assume "d = e \<and> normalize a = normalize b"
  with encode_normalize [OF assms(3,4)] show "canonical_preimage d a = canonical_preimage e b"
    by (simp add: canonical_preimage_def)
qed

theorem canonical_preimage_injective_witness:
  "canonical_preimage ''lspctl-test-v1'' (JNumber (Float64 0x8000000000000000))
     = canonical_preimage ''lspctl-test-v1'' (JNumber (Float64 0))
   \<and> canonical_preimage ''lspctl-test-v1'' (JArray [JBool True])
     \<noteq> canonical_preimage ''lspctl-other-v1'' (JArray [JBool True])"
proof -
  have nul: "tag 0 \<notin> set ''lspctl-test-v1''" "tag 0 \<notin> set ''lspctl-other-v1''"
    by (simp_all add: tag_def char_of_def)
  show ?thesis
    using canonical_preimage_injective [OF nul(1) nul(1),
        of "JNumber (Float64 0x8000000000000000)" "JNumber (Float64 0)"]
      canonical_preimage_injective [OF nul, of "JArray [JBool True]" "JArray [JBool True]"]
    by (simp add: float_zero_def)
qed

end
