(* ===== verification/Contract.thy ===== *)
theory Contract
  imports Json_Value
begin

text \<open>
  \<open>contract.rs\<close>: the failure every fallible operation returns. The prose \<open>message\<close> and the
  diagnostic \<open>data\<close> payload are not modelled; what callers and agents branch on is.
\<close>

record contract_failure =
  exit_code :: nat
  category :: string
  code :: string
  stage :: string
  delivery :: string
  retry :: string

definition failure ::
  "nat \<Rightarrow> string \<Rightarrow> string \<Rightarrow> string \<Rightarrow> string \<Rightarrow> string \<Rightarrow> contract_failure" where
  "failure e cat cd st del ret =
     \<lparr>exit_code = e, category = cat, code = cd, stage = st, delivery = del, retry = ret\<rparr>"

lemma failure_sel [simp]:
  "code (failure e cat cd st del ret) = cd" "exit_code (failure e cat cd st del ret) = e"
  by (simp_all add: failure_def)

end
