(* ===== verification/Utf8.thy ===== *)
theory Utf8
  imports Prelude
begin

text \<open>
  UTF-8 as the standard library sees it: \<open>std::str::from_utf8\<close>, \<open>is_char_boundary\<close>,
  \<open>char_indices\<close>, \<open>encode_utf16\<close>. Everything is stated on bytes; on a valid string the scalars
  start at exactly the bytes that are no continuation bytes.
\<close>

section \<open>Definitions\<close>

definition in_range :: "nat \<Rightarrow> nat \<Rightarrow> char \<Rightarrow> bool" where
  "in_range lo hi c \<longleftrightarrow> lo \<le> of_char c \<and> of_char c \<le> hi"

text \<open>A continuation byte \<open>0b10xx_xxxx\<close>.\<close>

definition cont_byte :: "char \<Rightarrow> bool" where
  "cont_byte c \<longleftrightarrow> in_range 128 191 c"

text \<open>The second byte after a three-byte or four-byte lead: no overlong form, no surrogate,
  nothing above U+10FFFF.\<close>

definition second3 :: "char \<Rightarrow> char \<Rightarrow> bool" where
  "second3 a b \<longleftrightarrow> in_range (if of_char a = (224::nat) then 160 else 128)
                          (if of_char a = (237::nat) then 159 else 191) b"

definition second4 :: "char \<Rightarrow> char \<Rightarrow> bool" where
  "second4 a b \<longleftrightarrow> in_range (if of_char a = (240::nat) then 144 else 128)
                          (if of_char a = (244::nat) then 143 else 191) b"

text \<open>The bytes of the scalar a string starts with; 0 where the bytes are malformed.\<close>

fun scalar_width :: "string \<Rightarrow> nat" where
  "scalar_width (a # s) =
     (if in_range 0 127 a then 1
      else if in_range 194 223 a then
        (case s of b # _ \<Rightarrow> if cont_byte b then 2 else 0 | _ \<Rightarrow> 0)
      else if in_range 224 239 a then
        (case s of b # c # _ \<Rightarrow> if second3 a b \<and> cont_byte c then 3 else 0 | _ \<Rightarrow> 0)
      else if in_range 240 244 a then
        (case s of b # c # d # _ \<Rightarrow>
           if second4 a b \<and> cont_byte c \<and> cont_byte d then 4 else 0 | _ \<Rightarrow> 0)
      else 0)"
| "scalar_width [] = 0"

function utf8_valid :: "string \<Rightarrow> bool" where
  "utf8_valid s =
     (if s = [] then True
      else if scalar_width s = 0 then False
      else utf8_valid (drop (scalar_width s) s))"
  by pat_completeness auto
termination by (relation "measure length") auto

declare utf8_valid.simps [simp del]

definition is_char_boundary :: "string \<Rightarrow> nat \<Rightarrow> bool" where
  "is_char_boundary s i \<longleftrightarrow>
     i = 0 \<or> i = length s \<or> (i < length s \<and> \<not> cont_byte (s ! i))"

text \<open>\<open>char_indices\<close>: the offset and the lead byte of each scalar.\<close>

definition char_starts :: "string \<Rightarrow> nat list" where
  "char_starts s = filter (\<lambda>i. \<not> cont_byte (s ! i)) [0..<length s]"

definition char_indices :: "string \<Rightarrow> (nat \<times> char) list" where
  "char_indices s = map (\<lambda>i. (i, s ! i)) (char_starts s)"

text \<open>\<open>char::len_utf16\<close> by the lead byte, and \<open>encode_utf16().count()\<close>.\<close>

definition lead_utf16_units :: "char \<Rightarrow> nat" where
  "lead_utf16_units c = (if cont_byte c then 0 else if 240 \<le> (of_char c :: nat) then 2 else 1)"

definition utf16_len :: "string \<Rightarrow> nat" where
  "utf16_len s = sum_list (map lead_utf16_units s)"

section \<open>The scalar at the head\<close>

lemma in_range_disjoint:
  "in_range lo hi c \<Longrightarrow> hi < lo' \<Longrightarrow> \<not> in_range lo' hi' c"
  by (simp add: in_range_def)

lemma second_cont: "second3 a b \<Longrightarrow> cont_byte b" "second4 a b \<Longrightarrow> cont_byte b"
  by (auto simp: second3_def second4_def cont_byte_def in_range_def split: if_splits)

lemma width_le: "scalar_width s \<le> length s"
  by (cases s rule: scalar_width.cases) (auto split: list.splits)

lemma width_head: "0 < scalar_width s \<Longrightarrow> \<not> cont_byte (s ! 0)"
  by (cases s rule: scalar_width.cases)
     (auto simp: cont_byte_def in_range_def split: if_splits)

lemma width_le_4: "scalar_width s \<le> 4"
  by (cases s rule: scalar_width.cases) (auto split: list.splits)

lemma width_tail:
  assumes "0 < j" "j < scalar_width s"
  shows "cont_byte (s ! j)"
proof -
  from assms width_le_4 [of s] consider "j = 1" | "j = 2" | "j = 3" by linarith
  then show ?thesis
    using assms(2)
    by cases (cases s rule: scalar_width.cases;
      auto dest: second_cont split: if_splits list.splits)+
qed

lemma width_append: "0 < scalar_width s \<Longrightarrow> scalar_width (s @ t) = scalar_width s"
  by (cases s rule: scalar_width.cases) (auto split: list.splits if_splits)

lemma width_take_self:
  "scalar_width (take (scalar_width s) s) = scalar_width s"
  by (cases s rule: scalar_width.cases) (auto split: list.splits)

lemma width_take:
  assumes "scalar_width s \<le> i" "0 < scalar_width s"
  shows "scalar_width (take i s) = scalar_width s"
proof -
  have "take i s = take (scalar_width s) s @ take (i - scalar_width s) (drop (scalar_width s) s)"
    using assms(1) by (metis le_add_diff_inverse take_add)
  with width_append [of "take (scalar_width s) s"] assms(2) show ?thesis
    by (simp add: width_take_self)
qed

section \<open>Validity and boundaries\<close>

lemma utf8_valid_Nil [simp]: "utf8_valid []"
  by (simp add: utf8_valid.simps)

lemma utf8_valid_step:
  "s \<noteq> [] \<Longrightarrow> utf8_valid s \<longleftrightarrow> 0 < scalar_width s \<and> utf8_valid (drop (scalar_width s) s)"
  by (subst utf8_valid.simps) simp

lemma utf8_valid_append:
  "utf8_valid s \<Longrightarrow> utf8_valid t \<Longrightarrow> utf8_valid (s @ t)"
proof (induction s rule: utf8_valid.induct)
  case (1 s)
  show ?case
  proof (cases "s = []")
    case False
    with "1.prems" have "0 < scalar_width s" "utf8_valid (drop (scalar_width s) s)"
      by (auto simp: utf8_valid_step)
    with False "1" width_le [of s] show ?thesis
      by (simp add: utf8_valid_step width_append)
  qed (use "1.prems" in simp)
qed

lemma boundary_width:
  "is_char_boundary s i \<Longrightarrow> 0 < i \<Longrightarrow> scalar_width s \<le> i"
  using width_tail [of i s] width_le [of s] by (fastforce simp: is_char_boundary_def)

lemma boundary_drop:
  "is_char_boundary s i \<Longrightarrow> w \<le> i \<Longrightarrow> w \<le> length s \<Longrightarrow> is_char_boundary (drop w s) (i - w)"
  by (auto simp: is_char_boundary_def)

lemma utf8_valid_split:
  "utf8_valid s \<Longrightarrow> is_char_boundary s i \<Longrightarrow> utf8_valid (take i s) \<and> utf8_valid (drop i s)"
proof (induction s arbitrary: i rule: utf8_valid.induct)
  case (1 s)
  show ?case
  proof (cases "s = [] \<or> i = 0")
    case False
    let ?w = "scalar_width s"
    from False "1.prems" have w: "0 < ?w" "utf8_valid (drop ?w s)" "?w \<le> i" "?w \<le> length s"
      by (auto simp: utf8_valid_step boundary_width width_le)
    have "utf8_valid (take (i - ?w) (drop ?w s)) \<and> utf8_valid (drop (i - ?w) (drop ?w s))"
      by (rule "1.IH") (use False w boundary_drop [OF "1.prems"(2)] in auto)
    then have "utf8_valid (take (i - ?w) (drop ?w s))" "utf8_valid (drop (i - ?w) (drop ?w s))"
      by blast+
    moreover have "drop ?w (take i s) = take (i - ?w) (drop ?w s)" "drop (i - ?w) (drop ?w s) = drop i s"
      using w(3) by (simp_all add: drop_take)
    ultimately have "utf8_valid (drop ?w (take i s))" "utf8_valid (drop i s)"
      by (simp_all only:)
    with w False show ?thesis
      by (auto simp: utf8_valid_step [of "take i s"] width_take)
  qed (use "1.prems" in auto)
qed

lemma utf8_valid_hd: "utf8_valid s \<Longrightarrow> s \<noteq> [] \<Longrightarrow> \<not> cont_byte (hd s)"
  using width_head [of s] by (simp add: utf8_valid_step hd_conv_nth)

lemma ascii_not_cont: "in_range 0 127 c \<Longrightarrow> \<not> cont_byte c"
  by (simp add: in_range_def cont_byte_def)

text \<open>A valid string can be cut before and after any ASCII byte.\<close>

lemma utf8_valid_cut:
  assumes "utf8_valid (a @ c # b)" "in_range 0 127 c"
  shows "utf8_valid a" "utf8_valid b"
proof -
  have "is_char_boundary (a @ c # b) (length a)"
    using ascii_not_cont [OF assms(2)] by (simp add: is_char_boundary_def)
  from utf8_valid_split [OF assms(1) this] have ab: "utf8_valid a" "utf8_valid (c # b)"
    by auto
  then show "utf8_valid a" by simp
  from ab(2) assms(2) show "utf8_valid b"
    by (simp add: utf8_valid_step)
qed

section \<open>UTF-16 lengths\<close>

lemma utf16_len_simps [simp]:
  "utf16_len [] = 0" "utf16_len (c # s) = lead_utf16_units c + utf16_len s"
  "utf16_len (s @ t) = utf16_len s + utf16_len t"
  by (simp_all add: utf16_len_def)

lemma lead_units_pos: "\<not> cont_byte c \<Longrightarrow> 0 < lead_utf16_units c"
  by (simp add: lead_utf16_units_def)

lemma lead_units_cont [simp]: "cont_byte c \<Longrightarrow> lead_utf16_units c = 0"
  by (simp add: lead_utf16_units_def)

lemma utf16_len_mono: "i \<le> j \<Longrightarrow> utf16_len (take i s) \<le> utf16_len (take j s)"
  by (metis le_add1 le_add_diff_inverse take_add utf16_len_simps(3))

end
