(* ===== verification/Source_Position.thy ===== *)
theory Source_Position
  imports Contract Utf8 "HOL-Library.Code_Target_Nat"
begin

text \<open>
  Positions. \<open>workspace.rs\<close> turns an agent's line and scalar column into the protocol position
  sent to the server; \<open>mutation/planner.rs\<close> turns a protocol position of the server's edits back
  into a byte offset. The interface \<^theory_text>\<open>position_codec\<close> states what the two encodings
  promise; the round trip through a whole Document is proved once inside it.
\<close>

datatype position_encoding = Utf8 | Utf16

record protocol_position =
  line :: nat
  character :: nat

abbreviation newline :: char where "newline \<equiv> CHR 0x0A"
abbreviation carriage_return :: char where "carriage_return \<equiv> CHR 0x0D"

section \<open>\<open>workspace.rs\<close>: from source to protocol\<close>

text \<open>
  The loop of \<open>line_slice\<close>: \<open>rest\<close> is what remains of \<open>text\<close> from \<open>offset\<close> on, \<open>start\<close> is where
  the current line begins.
\<close>

fun line_scan :: "string \<Rightarrow> nat \<Rightarrow> string \<Rightarrow> nat \<Rightarrow> nat \<Rightarrow> nat \<Rightarrow> (nat \<times> string) option" where
  "line_scan text wanted [] offset start ln =
     (if ln = wanted then Some (start, drop start text) else None)"
| "line_scan text wanted (b # rest) offset start ln =
     (if b = newline then
        if ln = wanted then
          let stop = (if start < offset \<and> text ! (offset - 1) = carriage_return
                      then offset - 1 else offset)
          in Some (start, take (stop - start) (drop start text))
        else line_scan text wanted rest (offset + 1) (offset + 1) (min (ln + 1) u32_max)
      else line_scan text wanted rest (offset + 1) start ln)"

definition line_slice :: "string \<Rightarrow> nat \<Rightarrow> (nat \<times> string) option" where
  "line_slice text wanted = line_scan text wanted text 0 0 0"

text \<open>\<open>line.chars().count()\<close> is the number of scalar starts.\<close>

definition byte_offset_for_scalar :: "string \<Rightarrow> nat \<Rightarrow> nat option" where
  "byte_offset_for_scalar ln wanted =
     (if wanted = 0 then Some 0
      else if wanted < length (char_indices ln) then Some (fst (char_indices ln ! wanted))
      else if length (char_indices ln) = wanted then Some (length ln)
      else None)"

definition invalid_position_failure :: contract_failure where
  "invalid_position_failure =
     failure 2 ''input'' ''invalid_source_position'' ''synchronize'' ''not_sent'' ''after_change''"

definition resolve_source_position ::
  "string \<Rightarrow> nat \<Rightarrow> nat \<Rightarrow> position_encoding \<Rightarrow> contract_failure + protocol_position" where
  "resolve_source_position text ln scalar_column encoding =
     (case line_slice text ln of
        None \<Rightarrow> Inl invalid_position_failure
      | Some (_, line_text) \<Rightarrow>
          (case byte_offset_for_scalar line_text scalar_column of
             None \<Rightarrow> Inl invalid_position_failure
           | Some byte_in_line \<Rightarrow>
               let c = (case encoding of
                          Utf8 \<Rightarrow> byte_in_line
                        | Utf16 \<Rightarrow> utf16_len (take byte_in_line line_text))
               in if c \<le> u32_max then Inr \<lparr>line = ln, character = c\<rparr>
                  else Inl invalid_position_failure))"

section \<open>\<open>planner.rs\<close>: from protocol to byte offset\<close>

text \<open>\<open>str::split_inclusive('\n')\<close>: the pieces, each with its terminator.\<close>

fun split_inclusive :: "string \<Rightarrow> string list" where
  "split_inclusive [] = []"
| "split_inclusive (c # s) =
     (if c = newline then [c] # split_inclusive s
      else case split_inclusive s of
             [] \<Rightarrow> [[c]]
           | piece # pieces \<Rightarrow> (c # piece) # pieces)"

text \<open>The UTF-16 loop of \<open>offset_in_line\<close> over \<open>char_indices\<close>.\<close>

fun utf16_offset :: "(nat \<times> char) list \<Rightarrow> nat \<Rightarrow> nat \<Rightarrow> nat \<Rightarrow> nat option" where
  "utf16_offset [] units wanted len = (if units = wanted then Some len else None)"
| "utf16_offset ((offset, scalar) # rest) units wanted len =
     (if units = wanted then Some offset
      else if wanted < units + lead_utf16_units scalar then None
      else utf16_offset rest (units + lead_utf16_units scalar) wanted len)"

fun offset_in_line :: "position_encoding \<Rightarrow> string \<Rightarrow> nat \<Rightarrow> nat option" where
  "offset_in_line Utf8 ln wanted =
     (if is_char_boundary ln wanted \<and> wanted \<le> length ln then Some wanted else None)"
| "offset_in_line Utf16 ln wanted = utf16_offset (char_indices ln) 0 wanted (length ln)"

text \<open>
  The loop of \<open>position_to_offset\<close>. \<open>None\<close>: the loop ended without reaching the line;
  \<open>Some r\<close>: it returned \<open>r\<close>.
\<close>

fun find_line ::
  "(string \<Rightarrow> nat \<Rightarrow> nat option) \<Rightarrow> string list \<Rightarrow> nat \<Rightarrow> nat \<Rightarrow> protocol_position
     \<Rightarrow> nat option option" where
  "find_line decode [] line_number offset pos = None"
| "find_line decode (segment # segments) line_number offset pos =
     (if line_number = line pos then
        Some (map_option ((+) offset)
          (decode (strip_last carriage_return (strip_last newline segment)) (character pos)))
      else find_line decode segments (line_number + 1) (offset + length segment) pos)"

text \<open>\<open>split_terminator('\n')\<close> has the pieces of \<open>split_inclusive\<close>, without the terminators.\<close>

definition position_to_offset :: "string \<Rightarrow> protocol_position \<Rightarrow> position_encoding \<Rightarrow> nat option" where
  "position_to_offset text pos encoding =
     (case find_line (offset_in_line encoding) (split_inclusive text) 0 0 pos of
        Some r \<Rightarrow> r
      | None \<Rightarrow>
          if text = [] \<and> line pos = 0 \<and> character pos = 0
             \<or> text \<noteq> [] \<and> last text = newline
               \<and> line pos = length (split_inclusive text) mod 2 ^ 32 \<and> character pos = 0
          then Some (length text) else None)"

section \<open>Lines\<close>

lemma split_inclusive_line:
  "newline \<notin> set pre \<Longrightarrow> split_inclusive (pre @ newline # rest) = (pre @ [newline]) # split_inclusive rest"
  by (induction pre) auto

lemma split_inclusive_last:
  "newline \<notin> set pre \<Longrightarrow> pre \<noteq> [] \<Longrightarrow> split_inclusive pre = [pre]"
proof (induction pre)
  case (Cons c pre)
  then show ?case by (cases "pre = []") auto
qed simp

lemma split_inclusive_concat: "concat (split_inclusive s) = s"
  by (induction s) (auto split: list.splits)

lemma line_scan_line:
  assumes "newline \<notin> set pre" "text = d @ cur @ pre @ newline # rest"
  shows "line_scan text wanted (pre @ newline # rest) (length d + length cur) (length d) ln =
    (if ln = wanted then Some (length d, strip_last carriage_return (cur @ pre))
     else line_scan text wanted rest (length (d @ cur @ pre @ [newline]))
            (length (d @ cur @ pre @ [newline])) (min (ln + 1) u32_max))"
  using assms
proof (induction pre arbitrary: cur)
  case Nil
  then show ?case
    by (cases cur rule: rev_cases) (auto simp: Let_def nth_append)
next
  case (Cons c pre)
  with Cons.IH [of "cur @ [c]"] show ?case by auto
qed

lemma line_scan_last:
  "newline \<notin> set pre \<Longrightarrow> line_scan text wanted pre offset start ln =
     (if ln = wanted then Some (start, drop start text) else None)"
  by (induction pre arbitrary: offset) auto

text \<open>Every string is one piece without newline, or a terminated piece and the rest.\<close>

lemma line_cases:
  obtains (Last) "newline \<notin> set s" | (Line) pre rest where "s = pre @ newline # rest" "newline \<notin> set pre"
  using split_list_first [of newline s] by blast

text \<open>
  What the byte scan of \<open>line_slice\<close> finds is what the loop over the pieces finds, when the
  text does not end in a bare carriage return.
\<close>

lemma line_scan_find_line:
  assumes "line_scan text (line pos) s (length d) (length d) k = Some (st, lt)"
    and "text = d @ s" "k \<le> line pos" "line pos \<le> u32_max"
    and "s = [] \<or> last s \<noteq> carriage_return"
  shows "find_line decode (split_inclusive s) k (length d) pos
           = Some (map_option ((+) st) (decode lt (character pos)))
       \<and> st + length lt \<le> length text \<and> lt = take (length lt) (drop st text)
       \<or> find_line decode (split_inclusive s) k (length d) pos = None
         \<and> lt = [] \<and> st = length text \<and> line pos = k + length (split_inclusive s)
         \<and> (s = [] \<or> last s = newline)"
  using assms
proof (induction "length s" arbitrary: s d k rule: less_induct)
  case less
  show ?case
  proof (cases s rule: line_cases)
    case Last
    with less.prems(1) have "k = line pos" "st = length d" "lt = drop (length d) text"
      by (auto simp: line_scan_last split: if_splits)
    moreover have "last s \<noteq> newline" if "s \<noteq> []"
      using that Last last_in_set by metis
    ultimately show ?thesis using Last less.prems(2,5)
      by (cases "s = []") (auto simp: split_inclusive_last strip_last_def)
  next
    case (Line pre rest)
    note scan = line_scan_line [OF Line(2), of "text" d "[]" rest "line pos" k]
    show ?thesis
    proof (cases "k = line pos")
      case True
      with less.prems(1,2) Line scan have "st = length d" "lt = strip_last carriage_return pre"
        by auto
      moreover have "strip_last newline (pre @ [newline]) = pre"
        by (rule strip_last_simps(2) [THEN trans]) simp
      moreover have "length (strip_last carriage_return pre) \<le> length pre"
        "take (length (strip_last carriage_return pre)) pre = strip_last carriage_return pre"
        by (rule strip_last_length strip_last_take)+
      ultimately show ?thesis
        using True Line less.prems(2) by (auto simp: split_inclusive_line [OF Line(2)])
    next
      case False
      let ?d = "d @ pre @ [newline]"
      from False less.prems(3,4) have k: "min (k + 1) u32_max = k + 1" "k + 1 \<le> line pos" by auto
      have "line_scan text (line pos) rest (length ?d) (length ?d) (k + 1) = Some (st, lt)"
        using less.prems(1,2) Line scan False k(1) by simp
      from less.hyps [OF _ this _ k(2) less.prems(4)] less.prems(2,5) Line False
      show ?thesis
        by (cases "rest = []") (auto simp: split_inclusive_line algebra_simps)
    qed
  qed
qed

section \<open>The codec interface\<close>

text \<open>
  An encoding turns the byte offset of a scalar in a line into a character count; the decoder
  used on the server's positions inverts it and only ever names scalar boundaries.
\<close>

locale position_codec =
  fixes encode :: "string \<Rightarrow> nat \<Rightarrow> nat"
    and decode :: "string \<Rightarrow> nat \<Rightarrow> nat option"
  assumes decode_encode: "utf8_valid ln \<Longrightarrow> is_char_boundary ln b \<Longrightarrow> decode ln (encode ln b) = Some b"
    and decode_boundary: "decode ln u = Some b \<Longrightarrow> is_char_boundary ln b \<and> b \<le> length ln"
begin

lemma encode_inject:
  "utf8_valid ln \<Longrightarrow> is_char_boundary ln a \<Longrightarrow> is_char_boundary ln b
    \<Longrightarrow> encode ln a = encode ln b \<Longrightarrow> a = b"
  using decode_encode by (metis option.inject)

text \<open>A position encoded in the line the byte scan found is decoded to the same byte.\<close>

lemma document_roundtrip:
  assumes "line_slice text ln = Some (st, lt)" "utf8_valid lt" "is_char_boundary lt b"
    and "text = [] \<or> last text \<noteq> carriage_return" "ln \<le> u32_max"
  shows "find_line decode (split_inclusive text) 0 0 \<lparr>line = ln, character = encode lt b\<rparr>
           = Some (Some (st + b))
    \<or> find_line decode (split_inclusive text) 0 0 \<lparr>line = ln, character = encode lt b\<rparr> = None
      \<and> lt = [] \<and> st = length text \<and> ln = length (split_inclusive text)
      \<and> (text = [] \<or> last text = newline)"
  using line_scan_find_line [of "text" "\<lparr>line = ln, character = encode lt b\<rparr>" "text" "[]" 0 st lt decode]
    assms by (auto simp: line_slice_def decode_encode)

end

section \<open>The two encodings\<close>

lemma char_starts_boundary:
  "i \<in> set (char_starts s) \<longleftrightarrow> i < length s \<and> \<not> cont_byte (s ! i)"
  by (auto simp: char_starts_def)

lemma utf16_offset_Some:
  "utf16_offset xs units wanted len = Some b \<Longrightarrow> b \<in> fst ` set xs \<or> b = len"
  by (induction xs units wanted len rule: utf16_offset.induct) (auto split: if_splits)

text \<open>The loop stops at the start \<open>b\<close> because every scalar before it adds at least one unit.\<close>

lemma char_starts_from:
  "i \<le> length s \<Longrightarrow> filter (\<lambda>j. \<not> cont_byte (s ! j)) [i..<length s]
    = (if i = length s then []
       else if cont_byte (s ! i) then filter (\<lambda>j. \<not> cont_byte (s ! j)) [Suc i..<length s]
       else i # filter (\<lambda>j. \<not> cont_byte (s ! j)) [Suc i..<length s])"
  by (auto simp: upt_conv_Cons)

lemma utf16_len_take_Suc:
  "i < length s \<Longrightarrow> utf16_len (take (Suc i) s) = utf16_len (take i s) + lead_utf16_units (s ! i)"
  by (simp add: take_Suc_conv_app_nth)

lemma utf16_offset_from:
  assumes "i \<le> b" "b \<le> length s" "b < length s \<Longrightarrow> \<not> cont_byte (s ! b)"
  shows "utf16_offset (map (\<lambda>j. (j, s ! j)) (filter (\<lambda>j. \<not> cont_byte (s ! j)) [i..<length s]))
           (utf16_len (take i s)) (utf16_len (take b s)) (length s) = Some b"
  using assms
proof (induction "b - i" arbitrary: i)
  case 0
  then show ?case by (auto simp: char_starts_from [of i s])
next
  case (Suc n)
  then have i: "i < b" "i < length s" by auto
  with Suc have IH: "utf16_offset (map (\<lambda>j. (j, s ! j)) (filter (\<lambda>j. \<not> cont_byte (s ! j)) [Suc i..<length s]))
           (utf16_len (take (Suc i) s)) (utf16_len (take b s)) (length s) = Some b"
    by (intro Suc.hyps) auto
  have "utf16_len (take i s) + lead_utf16_units (s ! i) \<le> utf16_len (take b s)"
    using utf16_len_mono [of "Suc i" b s] i by (simp add: utf16_len_take_Suc)
  with IH i show ?case
    using lead_units_pos [of "s ! i"]
    by (cases "cont_byte (s ! i)") (auto simp: char_starts_from [of i s] utf16_len_take_Suc)
qed

lemma utf16_roundtrip:
  assumes "utf8_valid s" "is_char_boundary s b"
  shows "offset_in_line Utf16 s (utf16_len (take b s)) = Some b"
proof -
  have "b \<le> length s" using assms(2) by (auto simp: is_char_boundary_def)
  moreover have "\<not> cont_byte (s ! b)" if "b < length s"
    using assms that utf8_valid_hd [of s] by (auto simp: is_char_boundary_def hd_conv_nth)
  ultimately show ?thesis
    using utf16_offset_from [of 0 b s] by (simp add: char_indices_def char_starts_def)
qed

interpretation utf8_codec: position_codec "\<lambda>_ b. b" "offset_in_line Utf8"
  by unfold_locales (auto simp: is_char_boundary_def split: if_splits)

interpretation utf16_codec: position_codec "\<lambda>s b. utf16_len (take b s)" "offset_in_line Utf16"
proof
  show "utf8_valid s \<Longrightarrow> is_char_boundary s b
      \<Longrightarrow> offset_in_line Utf16 s (utf16_len (take b s)) = Some b" for s b
    by (rule utf16_roundtrip)
  show "offset_in_line Utf16 s u = Some b \<Longrightarrow> is_char_boundary s b \<and> b \<le> length s" for s u b
    using utf16_offset_Some [of "char_indices s" 0 u "length s" b]
    by (auto simp: char_indices_def char_starts_boundary is_char_boundary_def)
qed

section \<open>Validity of the found line\<close>

lemma utf8_valid_strip_last:
  "utf8_valid s \<Longrightarrow> in_range 0 127 c \<Longrightarrow> utf8_valid (strip_last c s)"
  using utf8_valid_cut(1) [of "butlast s" c "[]"]
  by (cases s rule: rev_cases) auto

lemma ascii_line_ends [simp]: "in_range 0 127 newline" "in_range 0 127 carriage_return"
  by (simp_all add: in_range_def)

lemma line_scan_valid:
  assumes "line_scan text w s (length d) (length d) k = Some (st, lt)"
    and "text = d @ s" "utf8_valid s"
  shows "utf8_valid lt"
  using assms
proof (induction "length s" arbitrary: s d k rule: less_induct)
  case less
  show ?case
  proof (cases s rule: line_cases)
    case Last
    with less.prems show ?thesis
      by (auto simp: line_scan_last split: if_splits)
  next
    case (Line pre rest)
    note scan = line_scan_line [OF Line(2), of "text" d "[]" rest w k]
    from less.prems(3) Line have valid: "utf8_valid pre" "utf8_valid rest"
      using utf8_valid_cut [of pre newline rest] by auto
    show ?thesis
    proof (cases "k = w")
      case True
      with less.prems(1,2) Line scan valid show ?thesis
        by (auto intro: utf8_valid_strip_last)
    next
      case False
      let ?d = "d @ pre @ [newline]"
      have "line_scan text w rest (length ?d) (length ?d) (min (k + 1) u32_max) = Some (st, lt)"
        using less.prems(1,2) Line scan False by simp
      from less.hyps [OF _ this] less.prems(2) Line valid show ?thesis by auto
    qed
  qed
qed

lemma char_indices_nth:
  assumes "i < length (char_indices s)"
  shows "fst (char_indices s ! i) < length s" "\<not> cont_byte (s ! fst (char_indices s ! i))"
proof -
  from assms have "char_starts s ! i \<in> set (char_starts s)" "fst (char_indices s ! i) = char_starts s ! i"
    by (auto simp: char_indices_def)
  then show "fst (char_indices s ! i) < length s" "\<not> cont_byte (s ! fst (char_indices s ! i))"
    by (auto simp: char_starts_boundary)
qed

lemma byte_offset_boundary:
  "byte_offset_for_scalar ln col = Some b \<Longrightarrow> is_char_boundary ln b"
  using char_indices_nth [of col ln]
  by (auto simp: byte_offset_for_scalar_def is_char_boundary_def split: if_splits)

lemma byte_offset_empty: "byte_offset_for_scalar [] col = Some b \<Longrightarrow> b = 0"
  by (auto simp: byte_offset_for_scalar_def char_indices_def char_starts_def split: if_splits)

text \<open>A decoded offset is a scalar boundary of the whole Document.\<close>

lemma boundary_in_text:
  assumes "utf8_valid (lt @ e @ rest)" "is_char_boundary lt b" "b \<le> length lt"
    and "e @ rest = [] \<or> \<not> cont_byte (hd (e @ rest))"
  shows "is_char_boundary (d @ lt @ e @ rest) (length d + b)"
proof (cases "b < length lt")
  case True
  then show ?thesis
    using assms(2) utf8_valid_hd [OF assms(1)]
    by (cases "b = 0") (auto simp: is_char_boundary_def nth_append hd_conv_nth)
next
  case False
  with assms(3) have "b = length lt" by simp
  with assms(4) show ?thesis
    by (cases "e @ rest") (auto simp: is_char_boundary_def nth_append hd_conv_nth)
qed

lemma strip_last_split:
  obtains e where "s = strip_last c s @ e" "e = [] \<or> e = [c]"
proof (cases "s \<noteq> [] \<and> last s = c")
  case True
  then have "s = strip_last c s @ [c]" by (auto simp: strip_last_def)
  then show thesis using that by blast
next
  case False
  then have "s = strip_last c s @ []" by (auto simp: strip_last_def)
  then show thesis using that by blast
qed

lemma find_line_boundary:
  assumes "find_line (offset_in_line enc) (split_inclusive s) k (length d) pos = Some (Some b)"
    and "utf8_valid s"
  shows "is_char_boundary (d @ s) b \<and> b \<le> length (d @ s)"
  using assms
proof (induction "length s" arbitrary: s d k rule: less_induct)
  case less
  have decode: "offset_in_line enc lt u = Some c \<Longrightarrow> is_char_boundary lt c \<and> c \<le> length lt" for lt u c
    using utf8_codec.decode_boundary utf16_codec.decode_boundary by (cases enc) blast+
  have in_segment: "is_char_boundary (d @ seg @ rest) (length d + c) \<and> c \<le> length seg"
    if "offset_in_line enc (strip_last carriage_return (strip_last newline seg)) u = Some c"
      "utf8_valid (seg @ rest)" "rest = [] \<or> \<not> cont_byte (hd rest)" for seg rest u c
  proof -
    obtain e where e: "seg = strip_last newline seg @ e" "e = [] \<or> e = [newline]"
      by (rule strip_last_split)
    obtain f where f: "strip_last newline seg = strip_last carriage_return (strip_last newline seg) @ f"
      "f = [] \<or> f = [carriage_return]"
      by (rule strip_last_split)
    let ?lt = "strip_last carriage_return (strip_last newline seg)"
    have seg: "seg = ?lt @ f @ e" using e(1) f(1) by (metis append.assoc)
    have "is_char_boundary (d @ ?lt @ (f @ e) @ rest) (length d + c)"
      by (rule boundary_in_text)
         (use decode [OF that(1)] that(2,3) seg e(2) f(2) ascii_not_cont in \<open>auto simp flip: append_assoc\<close>)
    moreover have "c \<le> length seg"
      using decode [OF that(1)] seg by (metis length_append trans_le_add1)
    moreover have "d @ ?lt @ (f @ e) @ rest = d @ seg @ rest"
      using seg by (metis append.assoc)
    ultimately show ?thesis by metis
  qed
  show ?case
  proof (cases s rule: line_cases)
    case Last
    with less.prems in_segment [of s _ _ "[]"] show ?thesis
      by (cases "s = []") (auto simp: split_inclusive_last split: if_splits)
  next
    case (Line pre rest)
    from less.prems(2) Line have "utf8_valid rest"
      using utf8_valid_cut [of pre newline rest] by auto
    moreover from this utf8_valid_hd [of rest] have "rest = [] \<or> \<not> cont_byte (hd rest)" by blast
    ultimately show ?thesis
      using less.prems Line less.hyps [of rest "k + 1" "d @ pre @ [newline]"]
        in_segment [of "pre @ [newline]" "character pos" _ rest]
      by (fastforce simp: split_inclusive_line algebra_simps split: if_splits)
  qed
qed

lemma position_to_offset_boundary:
  assumes "position_to_offset text pos enc = Some b" "utf8_valid text"
  shows "is_char_boundary text b \<and> b \<le> length text"
  using assms find_line_boundary [of enc "text" 0 "[]" pos b]
  by (auto simp: position_to_offset_def is_char_boundary_def split: option.splits if_splits)

section \<open>Properties\<close>

text \<open>
  C19. Round trip: the protocol position that \<open>resolve_source_position\<close> computes for an agent's
  line and scalar column is mapped back by the planner's \<open>position_to_offset\<close> to the byte
  offset of that very scalar, in both encodings, for every valid Document that does not end in
  a bare carriage return.
\<close>

theorem position_roundtrip:
  assumes "resolve_source_position text ln col enc = Inr pos"
    and "utf8_valid text" "ln \<le> u32_max" "text = [] \<or> last text \<noteq> carriage_return"
  shows "\<exists>st lt b. line_slice text ln = Some (st, lt) \<and> byte_offset_for_scalar lt col = Some b
           \<and> position_to_offset text pos enc = Some (st + b)"
proof -
  from assms(1) obtain st lt b where line: "line_slice text ln = Some (st, lt)"
    and b: "byte_offset_for_scalar lt col = Some b"
    and pos: "pos = \<lparr>line = ln, character = (case enc of Utf8 \<Rightarrow> b | Utf16 \<Rightarrow> utf16_len (take b lt))\<rparr>"
    by (auto simp: resolve_source_position_def Let_def split: option.splits if_splits)
  have "utf8_valid lt"
    using line line_scan_valid [of "text" ln "text" "[]" 0 st lt] assms(2) by (simp add: line_slice_def)
  note codec = line this byte_offset_boundary [OF b] assms(4,3)
  have mod: "ln mod 2 ^ 32 = ln" using assms(3) by (simp add: u32_max_def)
  have found: "find_line (offset_in_line enc) (split_inclusive text) 0 0 pos = Some (Some (st + b))
      \<or> find_line (offset_in_line enc) (split_inclusive text) 0 0 pos = None
        \<and> lt = [] \<and> st = length text \<and> ln = length (split_inclusive text)
        \<and> (text = [] \<or> last text = newline)"
    using utf8_codec.document_roundtrip [OF codec] utf16_codec.document_roundtrip [OF codec]
    unfolding pos by (cases enc) (simp_all only: position_encoding.case)
  have "position_to_offset text pos enc = Some (st + b)"
    using found
  proof
    assume "find_line (offset_in_line enc) (split_inclusive text) 0 0 pos = Some (Some (st + b))"
    then show ?thesis by (simp add: position_to_offset_def)
  next
    assume none: "find_line (offset_in_line enc) (split_inclusive text) 0 0 pos = None
        \<and> lt = [] \<and> st = length text \<and> ln = length (split_inclusive text)
        \<and> (text = [] \<or> last text = newline)"
    then have "b = 0" using b byte_offset_empty by simp
    then have "character pos = 0" "line pos = ln"
      by (auto simp: pos split: position_encoding.splits)
    with none mod \<open>b = 0\<close> show ?thesis
      by (cases "text = []") (auto simp: position_to_offset_def)
  qed
  with line b show ?thesis by blast
qed

text \<open>The smiling face is four bytes and two UTF-16 units; column 2 of the second line.\<close>

theorem position_roundtrip_witness:
  "position_to_offset (''zero'' @ [carriage_return, newline] @ ''a'' @ map char_of [240, 159, 152, 128 :: nat] @ ''b'' @ [newline])
     \<lparr>line = 1, character = 3\<rparr> Utf16 = Some 11"
proof -
  let ?t = "''zero'' @ [carriage_return, newline] @ ''a'' @ map char_of [240, 159, 152, 128 :: nat] @ ''b'' @ [newline]"
  have r: "resolve_source_position ?t 1 2 Utf16 = Inr \<lparr>line = 1, character = 3\<rparr>" by code_simp
  have v: "utf8_valid ?t" by code_simp
  have l: "(1 :: nat) \<le> u32_max" "?t = [] \<or> last ?t \<noteq> carriage_return" by (simp_all add: u32_max_def)
  have "line_slice ?t 1 = Some (6, ''a'' @ map char_of [240, 159, 152, 128 :: nat] @ ''b'')"
    "byte_offset_for_scalar (''a'' @ map char_of [240, 159, 152, 128 :: nat] @ ''b'') 2 = Some 5"
    by code_simp+
  with position_roundtrip [OF r v l] show ?thesis by auto
qed

text \<open>
  A position of a server edit that the planner accepts names a scalar boundary inside the
  Document, so cutting the text there is safe and keeps it valid UTF-8.
\<close>

lemma planner_offset_is_boundary:
  assumes "position_to_offset text pos enc = Some b" "utf8_valid text"
  shows "b \<le> length text \<and> is_char_boundary text b \<and> utf8_valid (take b text) \<and> utf8_valid (drop b text)"
  using position_to_offset_boundary [OF assms] utf8_valid_split [OF assms(2)] by blast

lemma planner_offset_is_boundary_example:
  "utf8_valid (drop 3 (''a'' @ map char_of [195, 169 :: nat] @ ''b''))"
proof -
  have "position_to_offset (''a'' @ map char_of [195, 169 :: nat] @ ''b'') \<lparr>line = 0, character = 2\<rparr> Utf16 = Some 3"
    "utf8_valid (''a'' @ map char_of [195, 169 :: nat] @ ''b'')"
    by code_simp+
  from planner_offset_is_boundary [OF this] show ?thesis by blast
qed


end
