(* ===== verification/Document_Store.thy ===== *)
theory Document_Store
  imports Source_Position
begin

text \<open>
  \<open>workspace.rs\<close>: reading a Document and the bounded \<open>DocumentStore\<close> of the snapshots presented
  to the language server. The filesystem is what one read observes (\<open>read_attempt\<close>);
  \<open>file_uri\<close> (crate \<open>url\<close>) and \<open>hexsha\<close> (crates \<open>sha2\<close>, \<open>hex\<close>) are parameters.
\<close>

section \<open>Data\<close>

record document_snapshot =
  snap_path :: path
  snap_uri :: string
  snap_language :: string
  snap_version :: int
  snap_text :: string
  snap_digest :: string

record file_identity =
  fi_length :: nat
  fi_modified_nanos :: "nat option"
  fi_device :: nat
  fi_inode :: nat

datatype text_synchronization = NoSync | OpenClose

datatype synchronization_event = DidOpen document_snapshot | DidClose string

record open_document =
  od_snapshot :: document_snapshot
  od_last_used :: nat

record document_store =
  documents :: "(string, open_document) btree"
  next_versions :: "(string, int) btree"
  use_clock :: nat
  max_open_documents :: nat
  max_document_bytes :: nat
  max_total_text_bytes :: nat
  total_text_bytes :: nat
  pending_events :: "synchronization_event list"

definition new_document_store :: "nat \<Rightarrow> nat \<Rightarrow> nat \<Rightarrow> document_store" where
  "new_document_store max_open max_doc max_total =
     \<lparr>documents = [], next_versions = [], use_clock = 0, max_open_documents = max_open,
      max_document_bytes = max_doc, max_total_text_bytes = max_total, total_text_bytes = 0,
      pending_events = []\<rparr>"

section \<open>Failures\<close>

definition document_failure :: "string \<Rightarrow> contract_failure" where
  "document_failure cd = failure 5 ''query'' cd ''synchronize'' ''not_sent'' ''after_change''"

definition document_too_large :: contract_failure where
  "document_too_large = document_failure ''document_too_large''"

definition document_changed_while_reading :: contract_failure where
  "document_changed_while_reading =
     failure 5 ''query'' ''document_changed_while_reading'' ''synchronize'' ''not_sent'' ''safe''"

section \<open>\<open>read_document\<close>\<close>

text \<open>
  What one \<open>read_document_once\<close> observes: whether the file opens, its metadata (regular file?
  identity), the bytes a read to the end would give, the identity behind the same handle after
  the read, and the identity of what the path names then. \<open>None\<close> is an I/O error.
\<close>

record read_attempt =
  ra_opens :: bool
  ra_metadata :: "(bool \<times> file_identity) option"
  ra_contents :: "string option"
  ra_after_handle :: "file_identity option"
  ra_reopens :: bool
  ra_after_path :: "file_identity option"

datatype read_attempt_error = Changed file_identity file_identity | ReadFailure contract_failure

definition read_failed :: "read_attempt_error + 'a" where
  "read_failed = Inl (ReadFailure (document_failure ''document_read_failed''))"

definition read_document_once ::
  "(string \<Rightarrow> string) \<Rightarrow> read_attempt \<Rightarrow> nat \<Rightarrow> read_attempt_error + (string \<times> string \<times> file_identity)" where
  "read_document_once hexsha a max_bytes =
     (if \<not> ra_opens a then read_failed
      else case ra_metadata a of
        None \<Rightarrow> read_failed
      | Some (is_file, before) \<Rightarrow>
        if \<not> is_file then read_failed
        else if max_bytes < fi_length before then Inl (ReadFailure document_too_large)
        else case ra_contents a of
          None \<Rightarrow> read_failed
        | Some contents \<Rightarrow>
          let bytes = take (sat_add max_bytes 1) contents in
          if max_bytes < length bytes then Inl (ReadFailure document_too_large)
          else case ra_after_handle a of
            None \<Rightarrow> read_failed
          | Some after_handle \<Rightarrow>
            if \<not> ra_reopens a then read_failed
            else case ra_after_path a of
              None \<Rightarrow> read_failed
            | Some after_path \<Rightarrow>
              if before \<noteq> after_handle \<or> before \<noteq> after_path \<or> fi_length before \<noteq> length bytes
              then Inl (Changed before after_path)
              else if utf8_valid bytes then Inr (bytes, digest_raw_bytes hexsha bytes, before)
              else Inl (ReadFailure (document_failure ''document_non_utf8'')))"

text \<open>The two attempts of \<open>read_document\<close>.\<close>

fun read_attempts ::
  "(string \<Rightarrow> string) \<Rightarrow> nat \<Rightarrow> read_attempt list \<Rightarrow> contract_failure + (string \<times> string)" where
  "read_attempts hexsha max_bytes [] = Inl document_changed_while_reading"
| "read_attempts hexsha max_bytes (a # rest) =
     (case read_document_once hexsha a max_bytes of
        Inr (text, digest, _) \<Rightarrow> Inr (text, digest)
      | Inl (Changed _ _) \<Rightarrow> read_attempts hexsha max_bytes rest
      | Inl (ReadFailure f) \<Rightarrow> Inl f)"

text \<open>What a refresh of one path observes: \<open>dunce::canonicalize\<close> and the two read attempts.\<close>

record observation =
  obs_canonical :: "path option"
  obs_first :: read_attempt
  obs_second :: read_attempt

definition read_document ::
  "(string \<Rightarrow> string) \<Rightarrow> (path \<Rightarrow> contract_failure + string) \<Rightarrow> observation \<Rightarrow> nat
     \<Rightarrow> contract_failure + (path \<times> string \<times> string \<times> string)" where
  "read_document hexsha file_uri obs max_bytes =
     (case obs_canonical obs of
        None \<Rightarrow> Inl (document_failure ''document_read_failed'')
      | Some canonical \<Rightarrow>
        (case file_uri canonical of
           Inl f \<Rightarrow> Inl f
         | Inr uri \<Rightarrow>
           (case read_attempts hexsha max_bytes [obs_first obs, obs_second obs] of
              Inl f \<Rightarrow> Inl f
            | Inr (text, digest) \<Rightarrow> Inr (canonical, uri, text, digest))))"

section \<open>\<open>DocumentStore\<close>\<close>

definition text_len :: "string \<times> open_document \<Rightarrow> nat" where
  "text_len e = length (snap_text (od_snapshot (snd e)))"

definition store_remove :: "string \<Rightarrow> document_store \<Rightarrow> document_store" where
  "store_remove uri s =
     (case bt_get (documents s) uri of
        None \<Rightarrow> s
      | Some d \<Rightarrow>
          s\<lparr>documents := bt_remove uri (documents s),
            total_text_bytes := total_text_bytes s - length (snap_text (od_snapshot d))\<rparr>)"

definition push_pending_close :: "text_synchronization \<Rightarrow> string \<Rightarrow> document_store \<Rightarrow> document_store" where
  "push_pending_close sync uri s =
     (if sync = OpenClose then s\<lparr>pending_events := pending_events s @ [DidClose uri]\<rparr> else s)"

definition close_failed_document ::
  "(path \<Rightarrow> contract_failure + string) \<Rightarrow> path \<Rightarrow> text_synchronization \<Rightarrow> document_store
     \<Rightarrow> document_store" where
  "close_failed_document file_uri p sync s =
     (case file_uri p of
        Inl _ \<Rightarrow> s
      | Inr uri \<Rightarrow>
          if bt_get (documents s) uri = None then s
          else push_pending_close sync uri (store_remove uri s))"

definition i64_max :: int where
  "i64_max = 2 ^ 63 - 1"

definition allocate_version :: "string \<Rightarrow> document_store \<Rightarrow> document_store \<times> int" where
  "allocate_version uri s =
     (let v = min ((case bt_get (next_versions s) uri of None \<Rightarrow> 0 | Some v \<Rightarrow> v) + 1) i64_max
      in (s\<lparr>next_versions := bt_insert uri v (next_versions s)\<rparr>, v))"

definition close_events :: "text_synchronization \<Rightarrow> string \<Rightarrow> synchronization_event list" where
  "close_events sync uri = (if sync = OpenClose then [DidClose uri] else [])"

definition over_limits :: "document_store \<Rightarrow> bool" where
  "over_limits s \<longleftrightarrow>
     max_open_documents s < length (documents s) \<or> max_total_text_bytes s < total_text_bytes s"

text \<open>The least recently used Document other than the active one.\<close>

definition eviction_candidate :: "string \<Rightarrow> document_store \<Rightarrow> string option" where
  "eviction_candidate active s =
     map_option fst (min_by_key (\<lambda>e. od_last_used (snd e)) (filter (\<lambda>e. fst e \<noteq> active) (documents s)))"

lemma eviction_candidate_Some:
  assumes "eviction_candidate active s = Some uri"
  shows "uri \<noteq> active" "\<exists>d. (uri, d) \<in> set (documents s)"
  using assms min_by_key_Some unfolding eviction_candidate_def by fastforce+

lemma store_remove_sel [simp]:
  "documents (store_remove uri s) = bt_remove uri (documents s)"
  "next_versions (store_remove uri s) = next_versions s" "use_clock (store_remove uri s) = use_clock s"
  "max_open_documents (store_remove uri s) = max_open_documents s"
  "max_document_bytes (store_remove uri s) = max_document_bytes s"
  "max_total_text_bytes (store_remove uri s) = max_total_text_bytes s"
  "pending_events (store_remove uri s) = pending_events s"
  by (auto simp: store_remove_def bt_remove_absent split: option.splits)

text \<open>
  \<open>evict_to_limits\<close>. The result is \<open>None\<close> where the code panics: \<open>unwrap\<close> of an active Document
  that is not in the store.
\<close>

function evict_to_limits ::
  "string \<Rightarrow> text_synchronization \<Rightarrow> document_store \<Rightarrow> synchronization_event list
     \<Rightarrow> (document_store \<times> (contract_failure + synchronization_event list)) option" where
  "evict_to_limits active sync s events =
     (if \<not> over_limits s then Some (s, Inr events)
      else case eviction_candidate active s of
        None \<Rightarrow>
          (case bt_get (documents s) active of
             None \<Rightarrow> None
           | Some _ \<Rightarrow> Some (push_pending_close sync active (store_remove active s), Inl document_too_large))
      | Some uri \<Rightarrow>
          evict_to_limits active sync (store_remove uri s) (events @ close_events sync uri))"
  by pat_completeness auto
termination
proof (relation "measure (\<lambda>(_, _, s, _). length (documents s))", simp, clarsimp)
  fix active s uri
  assume "eviction_candidate active s = Some uri"
  then obtain d where "(uri, d) \<in> set (documents s)"
    using eviction_candidate_Some(2) by blast
  then show "length (bt_remove uri (documents s)) < length (documents s)"
    unfolding bt_remove_def by (rule length_filter_less) simp
qed

declare evict_to_limits.simps [simp del]

record refresh_outcome =
  ro_snapshot :: document_snapshot
  ro_events :: "synchronization_event list"

text \<open>The part of \<open>refresh\<close> after a successful read within the limits.\<close>

definition refresh_loaded ::
  "path \<Rightarrow> string \<Rightarrow> string \<Rightarrow> string \<Rightarrow> string \<Rightarrow> text_synchronization \<Rightarrow> document_store
     \<Rightarrow> (document_store \<times> (contract_failure + refresh_outcome)) option" where
  "refresh_loaded canonical uri txt digest language sync s =
     (let existing = bt_get (documents s) uri;
          s1 = store_remove uri s;
          unchanged = (case existing of None \<Rightarrow> False
             | Some d \<Rightarrow> snap_digest (od_snapshot d) = digest \<and> snap_language (od_snapshot d) = language);
          (s2, version) = (case existing of
             Some d \<Rightarrow> if unchanged then (s1, snap_version (od_snapshot d)) else allocate_version uri s1
           | None \<Rightarrow> allocate_version uri s1);
          snapshot = \<lparr>snap_path = canonical, snap_uri = uri, snap_language = language,
                      snap_version = version, snap_text = txt, snap_digest = digest\<rparr>;
          events = (if sync = OpenClose \<and> \<not> unchanged
                    then (if existing \<noteq> None then [DidClose uri] else []) @ [DidOpen snapshot]
                    else []);
          clock = sat_add (use_clock s2) 1;
          s3 = s2\<lparr>use_clock := clock,
                  total_text_bytes := sat_add (total_text_bytes s2) (length txt),
                  documents := bt_insert uri \<lparr>od_snapshot = snapshot, od_last_used = clock\<rparr> (documents s2)\<rparr>
      in map_option
           (\<lambda>(s4, r). (s4, case r of
               Inl f \<Rightarrow> Inl f
             | Inr evictions \<Rightarrow> Inr \<lparr>ro_snapshot = snapshot, ro_events = events @ evictions\<rparr>))
           (evict_to_limits uri sync s3 []))"

definition refresh ::
  "(string \<Rightarrow> string) \<Rightarrow> (path \<Rightarrow> contract_failure + string) \<Rightarrow> observation \<Rightarrow> path \<Rightarrow> string
     \<Rightarrow> text_synchronization \<Rightarrow> document_store
     \<Rightarrow> (document_store \<times> (contract_failure + refresh_outcome)) option" where
  "refresh hexsha file_uri obs p language sync s =
     (case read_document hexsha file_uri obs (max_document_bytes s) of
        Inl f \<Rightarrow> Some (close_failed_document file_uri p sync s, Inl f)
      | Inr (canonical, uri, txt, digest) \<Rightarrow>
          if max_open_documents s = 0 \<or> max_total_text_bytes s < length txt
          then Some (close_failed_document file_uri canonical sync s, Inl document_too_large)
          else refresh_loaded canonical uri txt digest language sync s)"

text \<open>\<open>refresh_open_documents\<close>: the inputs are collected before the first refresh.\<close>

fun refresh_each ::
  "(string \<Rightarrow> string) \<Rightarrow> (path \<Rightarrow> contract_failure + string) \<Rightarrow> (path \<Rightarrow> observation)
     \<Rightarrow> text_synchronization \<Rightarrow> (path \<times> string) list \<Rightarrow> document_store
     \<Rightarrow> (document_store \<times> refresh_outcome list \<times> contract_failure list) option" where
  "refresh_each hexsha file_uri observe sync [] s = Some (s, [], [])"
| "refresh_each hexsha file_uri observe sync ((p, language) # inputs) s =
     (case refresh hexsha file_uri (observe p) p language sync s of
        None \<Rightarrow> None
      | Some (s', r) \<Rightarrow>
          (case refresh_each hexsha file_uri observe sync inputs s' of
             None \<Rightarrow> None
           | Some (s'', refreshed, failures) \<Rightarrow>
               (case r of
                  Inl f \<Rightarrow> Some (s'', refreshed, f # failures)
                | Inr outcome \<Rightarrow> Some (s'', outcome # refreshed, failures))))"

definition refresh_open_documents ::
  "(string \<Rightarrow> string) \<Rightarrow> (path \<Rightarrow> contract_failure + string) \<Rightarrow> (path \<Rightarrow> observation)
     \<Rightarrow> text_synchronization \<Rightarrow> document_store
     \<Rightarrow> (document_store \<times> refresh_outcome list \<times> contract_failure list) option" where
  "refresh_open_documents hexsha file_uri observe sync s =
     refresh_each hexsha file_uri observe sync
       (map (\<lambda>e. (snap_path (od_snapshot (snd e)), snap_language (od_snapshot (snd e)))) (documents s)) s"

definition get_snapshot :: "string \<Rightarrow> document_store \<Rightarrow> document_snapshot option" where
  "get_snapshot uri s = map_option od_snapshot (bt_get (documents s) uri)"

definition snapshots :: "document_store \<Rightarrow> document_snapshot list" where
  "snapshots s = map (\<lambda>e. od_snapshot (snd e)) (documents s)"

definition close_all :: "text_synchronization \<Rightarrow> document_store \<Rightarrow> document_store \<times> synchronization_event list" where
  "close_all sync s =
     (s\<lparr>documents := [], total_text_bytes := 0\<rparr>,
      if sync = OpenClose then map DidClose (bt_keys (documents s)) else [])"

definition drain_pending_events :: "document_store \<Rightarrow> document_store \<times> synchronization_event list" where
  "drain_pending_events s = (s\<lparr>pending_events := []\<rparr>, pending_events s)"

end
