(* ===== verification/Document_Store_Laws.thy ===== *)
theory Document_Store_Laws
  imports Document_Store
begin

text \<open>
  What the \<open>DocumentStore\<close> promises: its bounds and its byte accounting, that eviction never
  fails and is least-recently-used, and that the events it emits keep the language server's set
  of open Documents equal to the store.
\<close>

section \<open>The invariant\<close>

definition store_accounts :: "document_store \<Rightarrow> bool" where
  "store_accounts s \<longleftrightarrow>
     bt_ok (documents s) \<and> bt_ok (next_versions s)
     \<and> total_text_bytes s = sum_list (map text_len (documents s))
     \<and> (\<forall>(u, d) \<in> set (documents s). snap_uri (od_snapshot d) = u \<and> od_last_used d \<le> use_clock s
          \<and> (\<exists>v. bt_get (next_versions s) u = Some v \<and> snap_version (od_snapshot d) \<le> v))"

definition store_ok :: "document_store \<Rightarrow> bool" where
  "store_ok s \<longleftrightarrow> store_accounts s \<and> \<not> over_limits s \<and> 2 * max_total_text_bytes s \<le> u64_max
     \<and> use_clock s \<le> u64_max"

lemma store_ok_new: "2 * b \<le> u64_max \<Longrightarrow> store_ok (new_document_store n m b)"
  by (simp add: store_ok_def store_accounts_def over_limits_def new_document_store_def u64_max_def)

lemma store_remove_total:
  assumes "bt_ok (documents s)" "total_text_bytes s = sum_list (map text_len (documents s))"
  shows "total_text_bytes (store_remove uri s) = sum_list (map text_len (bt_remove uri (documents s)))"
proof (cases "bt_get (documents s) uri")
  case None
  with assms show ?thesis by (simp add: store_remove_def bt_remove_absent)
next
  case (Some d)
  have "sum_list (map text_len (bt_remove uri (documents s))) + text_len (uri, d) = total_text_bytes s"
    using bt.sum_drop_Some [OF assms(1) Some] assms(2) by simp
  with Some show ?thesis by (simp add: store_remove_def text_len_def)
qed

lemma store_remove_total_le: "total_text_bytes (store_remove uri s) \<le> total_text_bytes s"
  by (simp add: store_remove_def split: option.splits)

lemma store_accounts_remove: "store_accounts s \<Longrightarrow> store_accounts (store_remove uri s)"
  by (auto simp: store_accounts_def store_remove_total set_bt_remove)

lemma push_pending_sel [simp]:
  "documents (push_pending_close sync uri s) = documents s"
  "next_versions (push_pending_close sync uri s) = next_versions s"
  "use_clock (push_pending_close sync uri s) = use_clock s"
  "total_text_bytes (push_pending_close sync uri s) = total_text_bytes s"
  "max_open_documents (push_pending_close sync uri s) = max_open_documents s"
  "max_total_text_bytes (push_pending_close sync uri s) = max_total_text_bytes s"
  "max_document_bytes (push_pending_close sync uri s) = max_document_bytes s"
  by (simp_all add: push_pending_close_def)

lemma length_bt_remove_le: "length (bt_remove k m) \<le> length m"
  by (simp add: bt_remove_def)

lemma not_over_limits_remove: "\<not> over_limits s \<Longrightarrow> \<not> over_limits (store_remove uri s)"
  using store_remove_total_le [of uri s] length_bt_remove_le [of uri "documents s"]
  by (auto simp: over_limits_def)

lemma store_ok_close_failed: "store_ok s \<Longrightarrow> store_ok (close_failed_document file_uri p sync s)"
proof -
  have "store_ok (push_pending_close sync uri t)" if "store_ok t" for uri t
    using that by (simp add: store_ok_def store_accounts_def over_limits_def)
  moreover have "store_ok (store_remove uri s)" if "store_ok s" for uri
    using that by (simp add: store_ok_def store_accounts_remove not_over_limits_remove)
  ultimately show "store_ok s \<Longrightarrow> ?thesis"
    by (simp add: close_failed_document_def split: sum.splits)
qed

section \<open>The server's view\<close>

text \<open>
  What the server knows of an open Document. \<open>textDocument/didOpen\<close> is legal only for a closed
  Document and \<open>didClose\<close> only for an open one; an illegal event is \<open>None\<close>.
\<close>

type_synonym server_view = "string \<Rightarrow> (string \<times> int \<times> string) option"

definition presented :: "document_snapshot \<Rightarrow> string \<times> int \<times> string" where
  "presented d = (snap_language d, snap_version d, snap_digest d)"

fun apply_event :: "server_view \<Rightarrow> synchronization_event \<Rightarrow> server_view option" where
  "apply_event v (DidOpen d) =
     (if v (snap_uri d) = None then Some (v(snap_uri d \<mapsto> presented d)) else None)"
| "apply_event v (DidClose u) = (if v u = None then None else Some (v(u := None)))"

fun apply_events :: "server_view \<Rightarrow> synchronization_event list \<Rightarrow> server_view option" where
  "apply_events v [] = Some v"
| "apply_events v (e # es) = (case apply_event v e of None \<Rightarrow> None | Some v' \<Rightarrow> apply_events v' es)"

definition store_view :: "document_store \<Rightarrow> server_view" where
  "store_view s = (\<lambda>u. map_option (\<lambda>d. presented (od_snapshot d)) (bt_get (documents s) u))"

lemma apply_events_append:
  "apply_events v (es @ fs) = (case apply_events v es of None \<Rightarrow> None | Some v' \<Rightarrow> apply_events v' fs)"
  by (induction es arbitrary: v) (auto split: option.splits)

lemma store_view_remove: "store_view (store_remove uri s) = (store_view s)(uri := None)"
  by (auto simp: store_view_def)

section \<open>Eviction\<close>

text \<open>Alone in the store, a Document within the byte limit is within every limit.\<close>

lemma only_active_within_limits:
  assumes "eviction_candidate active s = None" "store_accounts s"
    and "bt_get (documents s) active = Some d" "length (snap_text (od_snapshot d)) \<le> max_total_text_bytes s"
    and "0 < max_open_documents s"
  shows "\<not> over_limits s"
proof -
  have "set (documents s) \<subseteq> {(active, d)}"
    using assms(1-3)
    by (auto simp: eviction_candidate_def filter_empty_conv store_accounts_def bt_get_mem dest: bt_ok_unique)
  moreover have "distinct (documents s)"
    using assms(2) by (metis store_accounts_def bt_ok_distinct distinct_map)
  ultimately have "documents s = [(active, d)]"
    using assms(3) by (cases "documents s" rule: list.exhaust; cases "tl (documents s)") auto
  with assms show ?thesis
    by (simp add: over_limits_def store_accounts_def text_len_def)
qed

lemma evict_to_limits_spec:
  assumes "store_accounts s" "bt_get (documents s) active = Some d"
    and "length (snap_text (od_snapshot d)) \<le> max_total_text_bytes s" "0 < max_open_documents s"
  shows "\<exists>s' evictions. evict_to_limits active sync s events = Some (s', Inr (events @ evictions))
    \<and> store_accounts s' \<and> \<not> over_limits s' \<and> bt_get (documents s') active = Some d
    \<and> set (documents s') \<subseteq> set (documents s)
    \<and> (\<forall>e \<in> set (documents s) - set (documents s'). \<forall>f \<in> set (documents s').
         fst f \<noteq> active \<longrightarrow> od_last_used (snd e) \<le> od_last_used (snd f))
    \<and> max_total_text_bytes s' = max_total_text_bytes s \<and> max_open_documents s' = max_open_documents s
    \<and> pending_events s' = pending_events s \<and> use_clock s' = use_clock s
    \<and> next_versions s' = next_versions s \<and> max_document_bytes s' = max_document_bytes s
    \<and> (sync = OpenClose \<longrightarrow> apply_events (store_view s) evictions = Some (store_view s'))
    \<and> (sync = NoSync \<longrightarrow> evictions = [])"
  using assms
proof (induction active sync s events rule: evict_to_limits.induct)
  case (1 active sync s events)
  show ?case
  proof (cases "over_limits s")
    case False
    with "1.prems" show ?thesis
      by (intro exI [of _ s] exI [of _ "[]"]) (simp add: evict_to_limits.simps [of active sync s])
  next
    case True
    with only_active_within_limits [OF _ "1.prems"] obtain uri
      where uri: "eviction_candidate active s = Some uri" by fastforce
    note cand = eviction_candidate_Some [OF uri]
    let ?s = "store_remove uri s"
    obtain o' where o': "(uri, o') \<in> set (documents s)" using cand(2) by blast
    have least: "od_last_used (snd e) \<le> od_last_used (snd f)"
      if "e \<in> set (documents s)" "fst e = uri" "f \<in> set (documents s)" "fst f \<noteq> active" for e f
    proof -
      obtain g where g: "min_by_key (\<lambda>e. od_last_used (snd e)) (filter (\<lambda>e. fst e \<noteq> active) (documents s)) = Some g"
        "fst g = uri" using uri by (auto simp: eviction_candidate_def)
      from min_by_key_Some [OF g(1)] have "g \<in> set (documents s)" "od_last_used (snd g) \<le> od_last_used (snd f)"
        using that(3,4) by (cases f; auto)+
      moreover have "g = e"
        using that(1,2) g(2) \<open>g \<in> set (documents s)\<close> "1.prems"(1)
        by (metis store_accounts_def bt_ok_unique prod.collapse)
      ultimately show ?thesis by simp
    qed
    have "\<exists>s' evictions. evict_to_limits active sync ?s (events @ close_events sync uri)
        = Some (s', Inr ((events @ close_events sync uri) @ evictions))
      \<and> store_accounts s' \<and> \<not> over_limits s' \<and> bt_get (documents s') active = Some d
      \<and> set (documents s') \<subseteq> set (documents ?s)
      \<and> (\<forall>e \<in> set (documents ?s) - set (documents s'). \<forall>f \<in> set (documents s').
           fst f \<noteq> active \<longrightarrow> od_last_used (snd e) \<le> od_last_used (snd f))
      \<and> max_total_text_bytes s' = max_total_text_bytes ?s \<and> max_open_documents s' = max_open_documents ?s
      \<and> pending_events s' = pending_events ?s \<and> use_clock s' = use_clock ?s
      \<and> next_versions s' = next_versions ?s \<and> max_document_bytes s' = max_document_bytes ?s
      \<and> (sync = OpenClose \<longrightarrow> apply_events (store_view ?s) evictions = Some (store_view s'))
      \<and> (sync = NoSync \<longrightarrow> evictions = [])"
      by (rule "1.IH") (use True uri cand "1.prems" in \<open>auto simp: store_accounts_remove\<close>)
    then obtain s' evictions where step: "evict_to_limits active sync ?s (events @ close_events sync uri)
        = Some (s', Inr ((events @ close_events sync uri) @ evictions))"
      and ok: "store_accounts s'" "\<not> over_limits s'" "bt_get (documents s') active = Some d"
      and sub: "set (documents s') \<subseteq> set (documents ?s)"
      and lru: "\<forall>e \<in> set (documents ?s) - set (documents s'). \<forall>f \<in> set (documents s').
           fst f \<noteq> active \<longrightarrow> od_last_used (snd e) \<le> od_last_used (snd f)"
      and frame: "max_total_text_bytes s' = max_total_text_bytes s" "max_open_documents s' = max_open_documents s"
        "pending_events s' = pending_events s" "use_clock s' = use_clock s"
        "next_versions s' = next_versions s" "max_document_bytes s' = max_document_bytes s"
      and view: "sync = OpenClose \<longrightarrow> apply_events (store_view ?s) evictions = Some (store_view s')"
      and nosync: "sync = NoSync \<longrightarrow> evictions = []"
      by auto
    have "bt_get (documents s) uri = Some o'"
      using o' "1.prems"(1) by (simp add: store_accounts_def bt_get_mem)
    then have "sync = OpenClose \<longrightarrow>
        apply_events (store_view s) (close_events sync uri @ evictions) = Some (store_view s')"
      using view by (auto simp: close_events_def store_view_remove) (simp add: store_view_def)
    moreover have "\<forall>e \<in> set (documents s) - set (documents s'). \<forall>f \<in> set (documents s').
           fst f \<noteq> active \<longrightarrow> od_last_used (snd e) \<le> od_last_used (snd f)"
    proof (intro ballI impI)
      fix e f
      assume e: "e \<in> set (documents s) - set (documents s')" and f: "f \<in> set (documents s')" "fst f \<noteq> active"
      show "od_last_used (snd e) \<le> od_last_used (snd f)"
      proof (cases "fst e = uri")
        case True
        with e f sub least show ?thesis by (simp add: set_bt_remove subset_eq)
      next
        case False
        with e have "e \<in> set (documents ?s) - set (documents s')" by (simp add: set_bt_remove)
        with lru f show ?thesis by blast
      qed
    qed
    moreover have "set (documents s') \<subseteq> set (documents s)"
      using sub by (auto simp: set_bt_remove)
    moreover have "evict_to_limits active sync s events = Some (s', Inr (events @ close_events sync uri @ evictions))"
      using True uri step by (simp add: evict_to_limits.simps [of active sync s])
    ultimately show ?thesis
      using ok frame nosync
      by (intro exI [of _ s'] exI [of _ "close_events sync uri @ evictions"]) (simp add: close_events_def)
  qed
qed

section \<open>Refresh\<close>

lemma store_accounts_insert:
  assumes "store_accounts s" "2 * max_total_text_bytes s \<le> u64_max" "bt_get (documents s) uri = None"
    and "total_text_bytes s \<le> max_total_text_bytes s" "length txt \<le> max_total_text_bytes s"
    and "snap_uri d = uri" "snap_text d = txt" "bt_get (next_versions s) uri = Some v" "snap_version d \<le> v"
    and "clock = sat_add (use_clock s) 1" "use_clock s \<le> u64_max"
  shows "store_accounts (s\<lparr>use_clock := clock, total_text_bytes := sat_add (total_text_bytes s) (length txt),
           documents := bt_insert uri \<lparr>od_snapshot = d, od_last_used = clock\<rparr> (documents s)\<rparr>)"
proof -
  have "total_text_bytes s + length txt \<le> u64_max" using assms(2,4,5) by linarith
  moreover have "use_clock s \<le> clock" using assms(10,11) by (simp add: sat_add_def)
  moreover have "sum_list (map text_len (bt_insert uri \<lparr>od_snapshot = d, od_last_used = clock\<rparr> (documents s)))
      = sum_list (map text_len (documents s)) + length txt"
    using bt.sum_put_fresh [of "documents s" uri text_len "\<lparr>od_snapshot = d, od_last_used = clock\<rparr>"] assms
    by (simp add: store_accounts_def text_len_def)
  ultimately show ?thesis
    using assms unfolding store_accounts_def by (auto simp: set_bt_insert intro: order_trans)
qed


lemma allocate_version_sel [simp]:
  "documents (fst (allocate_version uri s)) = documents s"
  "use_clock (fst (allocate_version uri s)) = use_clock s"
  "max_open_documents (fst (allocate_version uri s)) = max_open_documents s"
  "max_document_bytes (fst (allocate_version uri s)) = max_document_bytes s"
  "max_total_text_bytes (fst (allocate_version uri s)) = max_total_text_bytes s"
  "total_text_bytes (fst (allocate_version uri s)) = total_text_bytes s"
  "pending_events (fst (allocate_version uri s)) = pending_events s"
  "next_versions (fst (allocate_version uri s)) = bt_insert uri (snd (allocate_version uri s)) (next_versions s)"
  by (simp_all add: allocate_version_def Let_def)

lemma store_accounts_allocate:
  assumes "store_accounts s" "bt_get (documents s) uri = None"
  shows "store_accounts (fst (allocate_version uri s))"
proof -
  have ok: "bt_ok (documents s)" "bt_ok (next_versions s)" using assms(1) by (simp_all add: store_accounts_def)
  have "u \<noteq> uri" if "(u, d) \<in> set (documents s)" for u d
    using that assms(2) ok(1) by (metis bt_get_mem option.distinct(1))
  with assms(1) ok show ?thesis by (auto simp: store_accounts_def)
qed

text \<open>The Document a refresh presents: a fresh version unless digest and language are the ones presented.\<close>

definition refreshed_version :: "string \<Rightarrow> string \<Rightarrow> string \<Rightarrow> document_store \<Rightarrow> int" where
  "refreshed_version uri digest language s =
     (case bt_get (documents s) uri of
        None \<Rightarrow> snd (allocate_version uri s)
      | Some d \<Rightarrow>
          if snap_digest (od_snapshot d) = digest \<and> snap_language (od_snapshot d) = language
          then snap_version (od_snapshot d) else snd (allocate_version uri s))"

lemma allocate_version_remove:
  "snd (allocate_version uri (store_remove u s)) = snd (allocate_version uri s)"
  by (simp add: allocate_version_def Let_def)

lemma store_view_insert:
  "documents s = bt_insert u d m \<Longrightarrow> bt_ok m \<Longrightarrow>
     store_view s = (\<lambda>x. map_option (\<lambda>d. presented (od_snapshot d)) (bt_get m x))(u \<mapsto> presented (od_snapshot d))"
  by (auto simp: store_view_def)

lemma refresh_loaded_spec:
  fixes canonical uri digest language
  assumes ok: "store_ok s" and fits: "length txt \<le> max_total_text_bytes s" "0 < max_open_documents s"
  defines "snapshot \<equiv> \<lparr>snap_path = canonical, snap_uri = uri, snap_language = language,
             snap_version = refreshed_version uri digest language s, snap_text = txt, snap_digest = digest\<rparr>"
  shows "\<exists>s' evs. refresh_loaded canonical uri txt digest language sync s
             = Some (s', Inr \<lparr>ro_snapshot = snapshot, ro_events = evs\<rparr>)
    \<and> store_ok s'
    \<and> bt_get (documents s') uri = Some \<lparr>od_snapshot = snapshot, od_last_used = sat_add (use_clock s) 1\<rparr>
    \<and> (\<forall>e \<in> set (documents s). fst e \<noteq> uri \<and> e \<notin> set (documents s') \<longrightarrow>
         (\<forall>f \<in> set (documents s'). fst f \<noteq> uri \<longrightarrow> od_last_used (snd e) \<le> od_last_used (snd f)))
    \<and> (\<forall>e \<in> set (documents s'). fst e \<noteq> uri \<longrightarrow> e \<in> set (documents s))
    \<and> max_total_text_bytes s' = max_total_text_bytes s \<and> max_open_documents s' = max_open_documents s
    \<and> max_document_bytes s' = max_document_bytes s \<and> pending_events s' = pending_events s
    \<and> use_clock s' = sat_add (use_clock s) 1
    \<and> (sync = OpenClose \<longrightarrow> apply_events (store_view s) evs = Some (store_view s'))
    \<and> (sync = NoSync \<longrightarrow> evs = [])"
proof -
  let ?s1 = "store_remove uri s"
  define existing where "existing = bt_get (documents s) uri"
  define unchanged where "unchanged = (case existing of None \<Rightarrow> False
     | Some d \<Rightarrow> snap_digest (od_snapshot d) = digest \<and> snap_language (od_snapshot d) = language)"
  define s2 where "s2 = (if unchanged then ?s1 else fst (allocate_version uri ?s1))"
  define evs0 where "evs0 = (if sync = OpenClose \<and> \<not> unchanged
                    then (if existing \<noteq> None then [DidClose uri] else []) @ [DidOpen snapshot] else [])"
  define clock where "clock = sat_add (use_clock s) 1"
  define s3 where "s3 = s2\<lparr>use_clock := clock,
                  total_text_bytes := sat_add (total_text_bytes s2) (length txt),
                  documents := bt_insert uri \<lparr>od_snapshot = snapshot, od_last_used = clock\<rparr> (documents s2)\<rparr>"
  have acc: "store_accounts s" and lim: "\<not> over_limits s" "2 * max_total_text_bytes s \<le> u64_max"
    and clk: "use_clock s \<le> u64_max"
    using ok by (auto simp: store_ok_def)
  have okm: "bt_ok (documents s)" using acc by (simp add: store_accounts_def)
  have loaded: "refresh_loaded canonical uri txt digest language sync s
      = map_option (\<lambda>(s4, r). (s4, case r of Inl f \<Rightarrow> Inl f
             | Inr evictions \<Rightarrow> Inr \<lparr>ro_snapshot = snapshot, ro_events = evs0 @ evictions\<rparr>))
           (evict_to_limits uri sync s3 [])"
    unfolding refresh_loaded_def Let_def s3_def s2_def evs0_def unchanged_def existing_def snapshot_def
      clock_def refreshed_version_def
    by (cases "bt_get (documents s) uri")
      (simp_all add: case_prod_beta allocate_version_remove cong: sum.case_cong)
  have s2: "documents s2 = bt_remove uri (documents s)" "use_clock s2 = use_clock s"
    "max_total_text_bytes s2 = max_total_text_bytes s" "max_open_documents s2 = max_open_documents s"
    "max_document_bytes s2 = max_document_bytes s" "pending_events s2 = pending_events s"
    "total_text_bytes s2 = total_text_bytes ?s1"
    by (simp_all add: s2_def)
  have "store_accounts s2"
    using acc okm by (simp add: s2_def store_accounts_remove store_accounts_allocate)
  moreover have "\<exists>v. bt_get (next_versions s2) uri = Some v \<and> snap_version snapshot \<le> v"
  proof (cases unchanged)
    case True
    then obtain d where d: "bt_get (documents s) uri = Some d" "snap_digest (od_snapshot d) = digest"
        "snap_language (od_snapshot d) = language"
      by (auto simp: unchanged_def existing_def split: option.splits)
    then have "(uri, d) \<in> set (documents s)" using okm by (simp add: bt_get_mem)
    with acc obtain v where "bt_get (next_versions s) uri = Some v" "snap_version (od_snapshot d) \<le> v"
      unfolding store_accounts_def by fastforce
    with True d show ?thesis by (simp add: s2_def snapshot_def refreshed_version_def)
  next
    case False
    then have "snap_version snapshot = snd (allocate_version uri ?s1)"
      by (auto simp: snapshot_def refreshed_version_def unchanged_def existing_def allocate_version_remove
          split: option.splits)
    with False acc show ?thesis by (simp add: s2_def store_accounts_def)
  qed
  ultimately have acc3: "store_accounts s3"
    using store_accounts_insert [of s2 uri "txt" snapshot _ clock] s2 lim fits clk okm
      store_remove_total_le [of uri s]
    by (auto simp: s3_def snapshot_def clock_def over_limits_def)
  have view: "sync = OpenClose \<longrightarrow> apply_events (store_view s) evs0 = Some (store_view s3)"
  proof
    assume sync: "sync = OpenClose"
    have v3: "store_view s3 = (store_view s)(uri \<mapsto> presented snapshot)"
      using okm by (auto simp: s3_def store_view_def s2)
    show "apply_events (store_view s) evs0 = Some (store_view s3)"
    proof (cases unchanged)
      case True
      then obtain d where d: "bt_get (documents s) uri = Some d" "snap_digest (od_snapshot d) = digest"
          "snap_language (od_snapshot d) = language"
        by (auto simp: unchanged_def existing_def split: option.splits)
      then have "store_view s uri = Some (presented snapshot)"
        by (simp add: store_view_def presented_def snapshot_def refreshed_version_def)
      then show ?thesis using True sync v3 by (auto simp: evs0_def)
    next
      case False
      then show ?thesis using sync v3
        by (cases existing) (simp_all add: evs0_def store_view_def existing_def snapshot_def)
    qed
  qed
  have get3: "bt_get (documents s3) uri = Some \<lparr>od_snapshot = snapshot, od_last_used = clock\<rparr>"
    using okm by (simp add: s3_def s2)
  have "\<exists>s' evictions. evict_to_limits uri sync s3 [] = Some (s', Inr ([] @ evictions))
    \<and> store_accounts s' \<and> \<not> over_limits s' \<and> bt_get (documents s') uri = Some \<lparr>od_snapshot = snapshot, od_last_used = clock\<rparr>
    \<and> set (documents s') \<subseteq> set (documents s3)
    \<and> (\<forall>e \<in> set (documents s3) - set (documents s'). \<forall>f \<in> set (documents s').
         fst f \<noteq> uri \<longrightarrow> od_last_used (snd e) \<le> od_last_used (snd f))
    \<and> max_total_text_bytes s' = max_total_text_bytes s3 \<and> max_open_documents s' = max_open_documents s3
    \<and> pending_events s' = pending_events s3 \<and> use_clock s' = use_clock s3
    \<and> next_versions s' = next_versions s3 \<and> max_document_bytes s' = max_document_bytes s3
    \<and> (sync = OpenClose \<longrightarrow> apply_events (store_view s3) evictions = Some (store_view s'))
    \<and> (sync = NoSync \<longrightarrow> evictions = [])"
    by (rule evict_to_limits_spec) (use acc3 get3 fits in \<open>simp_all add: s3_def s2 snapshot_def\<close>)
  then obtain s' evictions where ev: "evict_to_limits uri sync s3 [] = Some (s', Inr ([] @ evictions))"
    and ok': "store_accounts s'" "\<not> over_limits s'"
      "bt_get (documents s') uri = Some \<lparr>od_snapshot = snapshot, od_last_used = clock\<rparr>"
    and sub: "set (documents s') \<subseteq> set (documents s3)"
    and lru: "\<forall>e \<in> set (documents s3) - set (documents s'). \<forall>f \<in> set (documents s').
         fst f \<noteq> uri \<longrightarrow> od_last_used (snd e) \<le> od_last_used (snd f)"
    and frame: "max_total_text_bytes s' = max_total_text_bytes s3" "max_open_documents s' = max_open_documents s3"
      "pending_events s' = pending_events s3" "use_clock s' = use_clock s3"
      "max_document_bytes s' = max_document_bytes s3"
    and view': "sync = OpenClose \<longrightarrow> apply_events (store_view s3) evictions = Some (store_view s')"
    and nosync: "sync = NoSync \<longrightarrow> evictions = []"
    by blast
  have docs3: "set (documents s3) = insert (uri, \<lparr>od_snapshot = snapshot, od_last_used = clock\<rparr>)
      {e \<in> set (documents s). fst e \<noteq> uri}"
    using okm by (auto simp: s3_def s2 set_bt_insert set_bt_remove)
  have "store_ok s'"
    using ok' frame lim by (simp add: store_ok_def s3_def s2 clock_def sat_add_bound)
  moreover have "sync = OpenClose \<longrightarrow> apply_events (store_view s) (evs0 @ evictions) = Some (store_view s')"
    using view view' by (simp add: apply_events_append)
  moreover have "\<forall>e \<in> set (documents s). fst e \<noteq> uri \<and> e \<notin> set (documents s') \<longrightarrow>
         (\<forall>f \<in> set (documents s'). fst f \<noteq> uri \<longrightarrow> od_last_used (snd e) \<le> od_last_used (snd f))"
    using lru docs3 by blast
  moreover have "\<forall>e \<in> set (documents s'). fst e \<noteq> uri \<longrightarrow> e \<in> set (documents s)"
    using sub docs3 by auto
  ultimately show ?thesis
    using loaded ev ok' frame nosync
    by (intro exI [of _ s'] exI [of _ "evs0 @ evictions"]) (simp add: s3_def s2 clock_def evs0_def)
qed


text \<open>The store of a refresh that fails is the store after \<open>close_failed_document\<close>.\<close>

lemma refresh_cases:
  assumes "store_ok s"
  obtains (failed) q f where
      "refresh hexsha file_uri obs p language sync s = Some (close_failed_document file_uri q sync s, Inl f)"
  | (loaded) canonical uri "text" digest where
      "read_document hexsha file_uri obs (max_document_bytes s) = Inr (canonical, uri, text, digest)"
      "length text \<le> max_total_text_bytes s" "0 < max_open_documents s"
      "refresh hexsha file_uri obs p language sync s = refresh_loaded canonical uri text digest language sync s"
proof (cases "read_document hexsha file_uri obs (max_document_bytes s)")
  case (Inl f)
  then show ?thesis by (intro failed [of p f]) (simp add: refresh_def)
next
  case (Inr r)
  then obtain canonical uri "text" digest
    where read: "read_document hexsha file_uri obs (max_document_bytes s) = Inr (canonical, uri, text, digest)"
    by (cases r) auto
  show ?thesis
  proof (cases "max_open_documents s = 0 \<or> max_total_text_bytes s < length text")
    case True
    with read show ?thesis by (intro failed [of canonical]) (simp add: refresh_def)
  next
    case False
    with read show ?thesis by (intro loaded [of canonical uri "text" digest]) (simp_all add: refresh_def)
  qed
qed

text \<open>The two outcomes of a refresh, with what each keeps: the facts every property below rests on.\<close>

lemma refresh_outcome:
  assumes ok: "store_ok s"
  obtains (failed) q f where
      "refresh hexsha file_uri obs p language sync s = Some (close_failed_document file_uri q sync s, Inl f)"
      "store_ok (close_failed_document file_uri q sync s)"
  | (loaded) s' oc where
      "refresh hexsha file_uri obs p language sync s = Some (s', Inr oc)" "store_ok s'"
      "pending_events s' = pending_events s"
      "sync = OpenClose \<longrightarrow> apply_events (store_view s) (ro_events oc) = Some (store_view s')"
      "sync = NoSync \<longrightarrow> ro_events oc = []"
proof (cases rule: refresh_cases [OF ok, of hexsha file_uri obs p language sync])
  case (1 q f)
  then show ?thesis using failed store_ok_close_failed [OF ok] by blast
next
  case (2 canonical uri "text" digest)
  from refresh_loaded_spec [OF ok 2(2,3), of canonical uri digest language sync]
  obtain s' evs d where spec: "refresh_loaded canonical uri text digest language sync s
        = Some (s', Inr \<lparr>ro_snapshot = d, ro_events = evs\<rparr>)"
      "store_ok s'" "pending_events s' = pending_events s"
      "sync = OpenClose \<longrightarrow> apply_events (store_view s) evs = Some (store_view s')"
      "sync = NoSync \<longrightarrow> evs = []"
    by blast
  show ?thesis
    by (rule loaded [of s' "\<lparr>ro_snapshot = d, ro_events = evs\<rparr>"]) (simp_all add: spec 2(4))
qed

lemma close_failed_mirror:
  assumes "apply_events v (pending_events s) = Some (store_view s)"
  shows "apply_events v (pending_events (close_failed_document file_uri q OpenClose s))
    = Some (store_view (close_failed_document file_uri q OpenClose s))"
proof (cases "\<exists>uri. file_uri q = Inr uri \<and> bt_get (documents s) uri \<noteq> None")
  case True
  then obtain uri d where uri: "file_uri q = Inr uri" "bt_get (documents s) uri = Some d" by auto
  then have "close_failed_document file_uri q OpenClose s = push_pending_close OpenClose uri (store_remove uri s)"
    by (simp add: close_failed_document_def)
  moreover have "store_view (push_pending_close OpenClose uri (store_remove uri s)) = (store_view s)(uri := None)"
    using store_view_remove [of uri s] by (simp add: store_view_def)
  moreover have "store_view s uri \<noteq> None" using uri by (simp add: store_view_def)
  ultimately show ?thesis
    using assms by (simp add: apply_events_append) (simp add: push_pending_close_def apply_events_append)
next
  case False
  then have "close_failed_document file_uri q OpenClose s = s"
    by (auto simp: close_failed_document_def split: sum.splits)
  with assms show ?thesis by simp
qed

lemma refresh_each_total:
  "store_ok s \<Longrightarrow> \<exists>s' rs fs. refresh_each hexsha file_uri observe sync inputs s = Some (s', rs, fs)
     \<and> store_ok s' \<and> length rs + length fs = length inputs"
proof (induction inputs arbitrary: s)
  case Nil
  then show ?case by simp
next
  case (Cons i inputs)
  obtain p language where i: "i = (p, language)" by (cases i)
  show ?case
    using Cons.prems
  proof (cases rule: refresh_outcome [of _ hexsha file_uri "observe p" p language sync])
    case (failed q f)
    with Cons.IH [OF failed(2)] i show ?thesis by auto
  next
    case (loaded s' oc)
    with Cons.IH [OF loaded(2)] i show ?thesis by auto
  qed
qed


section \<open>Properties\<close>


text \<open>
  C1. Refinement of the server's view: if the events still pending turn what the server has open
  into exactly the store (each Document with the language, version and digest presented), then
  after a refresh the new events, delivered after the pending ones, again turn it into exactly
  the store. Every \<open>didOpen\<close> is for a Document that is closed and every \<open>didClose\<close> for one open.
\<close>

theorem refresh_mirrors_server:
  assumes "store_ok s" "apply_events v (pending_events s) = Some (store_view s)"
  shows "case refresh hexsha file_uri obs p language OpenClose s of
      None \<Rightarrow> False
    | Some (s', Inl f) \<Rightarrow> apply_events v (pending_events s') = Some (store_view s')
    | Some (s', Inr oc) \<Rightarrow> apply_events v (pending_events s' @ ro_events oc) = Some (store_view s')"
  using assms(1)
proof (cases rule: refresh_outcome [of _ hexsha file_uri obs p language OpenClose])
  case (failed q f)
  then show ?thesis using close_failed_mirror [OF assms(2), of file_uri q] by simp
next
  case (loaded s' oc)
  then show ?thesis using assms(2) by (simp add: apply_events_append)
qed


text \<open>
  C25. Eviction is least-recently-used: a Document that a successful refresh of another Document
  removed was used no later than any other Document the store keeps.
\<close>

theorem refresh_evicts_least_recently_used:
  assumes "store_ok s" "0 < max_open_documents s" "length text \<le> max_total_text_bytes s"
    and "read_document hexsha file_uri obs (max_document_bytes s) = Inr (canonical, uri, text, digest)"
    and "refresh hexsha file_uri obs p language sync s = Some (s', Inr oc)"
    and "(u, d) \<in> set (documents s)" "u \<noteq> uri" "bt_get (documents s') u = None"
    and "(w, e) \<in> set (documents s')" "w \<noteq> uri"
  shows "(w, e) \<in> set (documents s) \<and> od_last_used d \<le> od_last_used e"
proof -
  from refresh_loaded_spec [OF assms(1,3,2), of canonical uri digest language sync]
  obtain s'' evs d' where "refresh_loaded canonical uri text digest language sync s
        = Some (s'', Inr \<lparr>ro_snapshot = d', ro_events = evs\<rparr>)"
      and lru: "\<forall>e \<in> set (documents s). fst e \<noteq> uri \<and> e \<notin> set (documents s'') \<longrightarrow>
         (\<forall>f \<in> set (documents s''). fst f \<noteq> uri \<longrightarrow> od_last_used (snd e) \<le> od_last_used (snd f))"
      and sub: "\<forall>e \<in> set (documents s''). fst e \<noteq> uri \<longrightarrow> e \<in> set (documents s)"
      and ok: "store_ok s''"
    by blast
  moreover have "refresh hexsha file_uri obs p language sync s = refresh_loaded canonical uri text digest language sync s"
    using assms by (simp add: refresh_def)
  ultimately have eq: "s'' = s'" using assms(5) by simp
  have "(u, d) \<notin> set (documents s')"
    using assms(8) ok eq by (metis bt_get_mem option.distinct(1) store_accounts_def store_ok_def)
  with lru sub assms eq show ?thesis by fastforce
qed


section \<open>Witnesses\<close>

definition sample_attempt :: "string \<Rightarrow> read_attempt" where
  "sample_attempt t =
     (let i = \<lparr>fi_length = length t, fi_modified_nanos = Some 7, fi_device = 1, fi_inode = 2\<rparr>
      in \<lparr>ra_opens = True, ra_metadata = Some (True, i), ra_contents = Some t, ra_after_handle = Some i,
          ra_reopens = True, ra_after_path = Some i\<rparr>)"

definition sample_observation :: "string \<Rightarrow> string \<Rightarrow> observation" where
  "sample_observation n t =
     \<lparr>obs_canonical = Some [RootDir, Normal n], obs_first = sample_attempt t, obs_second = sample_attempt t\<rparr>"

definition sample_uri :: "path \<Rightarrow> contract_failure + string" where
  "sample_uri p = Inr (''file://'' @ concat (map (\<lambda>c. case c of Normal n \<Rightarrow> CHR ''/'' # n | _ \<Rightarrow> []) p))"

definition sample_refresh :: "string \<Rightarrow> string \<Rightarrow> document_store \<Rightarrow> document_store option" where
  "sample_refresh n t s =
     map_option fst (refresh id sample_uri (sample_observation n t) [RootDir, Normal n] ''rust'' OpenClose s)"

text \<open>Room for two Documents; \<open>a\<close> and then \<open>b\<close> are read.\<close>

definition sample_store :: document_store where
  "sample_store = the (Option.bind (sample_refresh ''a'' ''xy'' (new_document_store 2 10 20)) (sample_refresh ''b'' ''z''))"

lemma sample_store_eq:
  "sample_store = \<lparr>
     documents = [(''file:///a'', \<lparr>od_snapshot = \<lparr>snap_path = [RootDir, Normal ''a''], snap_uri = ''file:///a'',
          snap_language = ''rust'', snap_version = 1, snap_text = ''xy'', snap_digest = ''sha256:xy''\<rparr>, od_last_used = 1\<rparr>),
        (''file:///b'', \<lparr>od_snapshot = \<lparr>snap_path = [RootDir, Normal ''b''], snap_uri = ''file:///b'',
          snap_language = ''rust'', snap_version = 1, snap_text = ''z'', snap_digest = ''sha256:z''\<rparr>, od_last_used = 2\<rparr>)],
     next_versions = [(''file:///a'', 1), (''file:///b'', 1)], use_clock = 2, max_open_documents = 2,
     max_document_bytes = 10, max_total_text_bytes = 20, total_text_bytes = 3, pending_events = []\<rparr>"
  by code_simp

lemma sample_store_ok: "store_ok sample_store"
proof -
  have "bt_ok (documents sample_store)" "bt_ok (next_versions sample_store)" by code_simp+
  moreover have "\<not> over_limits sample_store" "2 * max_total_text_bytes sample_store \<le> u64_max"
    "use_clock sample_store \<le> u64_max" by code_simp+
  moreover have "total_text_bytes sample_store = sum_list (map text_len (documents sample_store))" by code_simp
  ultimately show ?thesis
    by (simp add: store_ok_def store_accounts_def) (simp add: sample_store_eq)
qed

definition sample_view :: server_view where
  "sample_view = [''file:///a'' \<mapsto> (''rust'', 1, ''sha256:xy''), ''file:///b'' \<mapsto> (''rust'', 1, ''sha256:z'')]"

lemma sample_view_ok: "apply_events sample_view (pending_events sample_store) = Some (store_view sample_store)"
  by (simp add: sample_store_eq) (auto simp: sample_view_def store_view_def presented_def)


theorem refresh_mirrors_server_witness:
  "case refresh id sample_uri (sample_observation ''c'' ''w'') [RootDir, Normal ''c''] ''rust'' OpenClose sample_store of
      None \<Rightarrow> False
    | Some (s', Inl f) \<Rightarrow> apply_events sample_view (pending_events s') = Some (store_view s')
    | Some (s', Inr oc) \<Rightarrow> apply_events sample_view (pending_events s' @ ro_events oc) = Some (store_view s')"
  by (rule refresh_mirrors_server [OF sample_store_ok sample_view_ok])

lemma sample_read:
  "read_document id sample_uri (sample_observation ''c'' ''w'') (max_document_bytes sample_store)
     = Inr ([RootDir, Normal ''c''], ''file:///c'', ''w'', ''sha256:w'')"
  by code_simp


theorem refresh_evicts_least_recently_used_witness:
  "\<exists>s' oc e. refresh id sample_uri (sample_observation ''c'' ''w'') [] ''rust'' OpenClose sample_store
      = Some (s', Inr oc)
    \<and> (''file:///b'', e) \<in> set (documents sample_store)
    \<and> od_last_used (the (bt_get (documents sample_store) ''file:///a'')) \<le> od_last_used e"
proof -
  let ?r = "refresh id sample_uri (sample_observation ''c'' ''w'') [] ''rust'' OpenClose sample_store"
  have fits: "0 < max_open_documents sample_store" "length ''w'' \<le> max_total_text_bytes sample_store"
    by code_simp+
  have a: "(''file:///a'', the (bt_get (documents sample_store) ''file:///a'')) \<in> set (documents sample_store)"
    by code_simp
  have "case ?r of Some (s', Inr oc) \<Rightarrow> bt_get (documents s') ''file:///a'' = None
      \<and> (''file:///b'', the (bt_get (documents s') ''file:///b'')) \<in> set (documents s') | _ \<Rightarrow> False"
    by code_simp
  then obtain s' oc where r: "?r = Some (s', Inr oc)"
    and evicted: "bt_get (documents s') ''file:///a'' = None"
    and kept: "(''file:///b'', the (bt_get (documents s') ''file:///b'')) \<in> set (documents s')"
    by (auto split: option.splits prod.splits sum.splits)
  from refresh_evicts_least_recently_used [OF sample_store_ok fits sample_read r a _ evicted kept] r
  show ?thesis by auto
qed

end
