(* ===== verification/Diagnostic_Cache.thy ===== *)
theory Diagnostic_Cache
  imports Json_Value "HOL-Library.Code_Target_Nat"
begin

text \<open>
  \<open>workspace/diagnostics.rs\<close>: the bounded least-recently-used cache of published (push) and
  requested (pull) diagnostics. \<open>ser_len\<close> is a parameter: the length of what
  \<open>serde_json::to_vec\<close> writes. \<open>None\<close> is a panic of the indexed assignment \<open>value["key"] = x\<close>.
\<close>

section \<open>Data\<close>

record cached_diagnostics =
  cd_uri :: string
  cd_version :: "int option"
  cd_diagnostics :: json
  cd_raw_report :: json
  cd_result_id :: "string option"
  cd_received_for_version :: "int option"
  cd_closed :: bool
  cd_serialized_bytes :: nat
  cd_last_used :: nat

record diagnostic_result =
  dr_uri :: string
  dr_diagnostics :: json
  dr_raw_report :: json
  dr_effective_report :: json
  dr_result_id :: "string option"
  dr_version :: "int option"
  dr_fresh :: bool
  dr_complete :: bool
  dr_closed :: bool

record workspace_diagnostic_result =
  wr_effective_report :: json
  wr_raw_report :: json
  wr_fresh :: bool
  wr_complete :: bool
  wr_workspace_complete :: bool

record diagnostic_cache =
  dc_snapshots :: "(string, cached_diagnostics) btree"
  dc_max_snapshots :: nat
  dc_max_total_bytes :: nat
  dc_total_bytes :: nat
  dc_clock :: nat

definition new_diagnostic_cache :: "nat \<Rightarrow> nat \<Rightarrow> diagnostic_cache" where
  "new_diagnostic_cache max_snapshots max_bytes =
     \<lparr>dc_snapshots = [], dc_max_snapshots = max_snapshots, dc_max_total_bytes = max_bytes,
      dc_total_bytes = 0, dc_clock = 0\<rparr>"

abbreviation push_prefix :: string where "push_prefix \<equiv> ''push'' @ [CHR 0x00]"
abbreviation pull_prefix :: string where "pull_prefix \<equiv> ''pull'' @ [CHR 0x00]"

definition push_key :: "string \<Rightarrow> string" where
  "push_key uri = push_prefix @ uri"

definition pull_key :: "string \<Rightarrow> string" where
  "pull_key uri = pull_prefix @ uri"

definition render :: "cached_diagnostics \<Rightarrow> bool \<Rightarrow> bool \<Rightarrow> diagnostic_result" where
  "render s fresh complete =
     \<lparr>dr_uri = cd_uri s, dr_diagnostics = cd_diagnostics s, dr_raw_report = cd_raw_report s,
      dr_effective_report = cd_raw_report s, dr_result_id = cd_result_id s, dr_version = cd_version s,
      dr_fresh = fresh, dr_complete = complete, dr_closed = cd_closed s\<rparr>"

section \<open>\<open>store\<close>\<close>

text \<open>Removal of a key with its bytes.\<close>

definition forget :: "string \<Rightarrow> diagnostic_cache \<Rightarrow> diagnostic_cache" where
  "forget key c =
     (case bt_get (dc_snapshots c) key of
        None \<Rightarrow> c
      | Some s \<Rightarrow> c\<lparr>dc_snapshots := bt_remove key (dc_snapshots c),
                    dc_total_bytes := dc_total_bytes c - cd_serialized_bytes s\<rparr>)"

definition cache_over_limits :: "diagnostic_cache \<Rightarrow> bool" where
  "cache_over_limits c \<longleftrightarrow>
     dc_max_snapshots c < length (dc_snapshots c) \<or> dc_max_total_bytes c < dc_total_bytes c"

lemma forget_sel [simp]:
  "dc_snapshots (forget k c) = bt_remove k (dc_snapshots c)"
  "dc_max_snapshots (forget k c) = dc_max_snapshots c"
  "dc_max_total_bytes (forget k c) = dc_max_total_bytes c"
  "dc_clock (forget k c) = dc_clock c"
  by (simp_all add: forget_def bt_remove_absent split: option.splits)

function shrink :: "diagnostic_cache \<Rightarrow> diagnostic_cache" where
  "shrink c =
     (if \<not> cache_over_limits c then c
      else case min_by_key (\<lambda>e. cd_last_used (snd e)) (dc_snapshots c) of
        None \<Rightarrow> c
      | Some e \<Rightarrow> shrink (forget (fst e) c))"
  by pat_completeness auto
termination
proof (relation "measure (\<lambda>c. length (dc_snapshots c))", simp, clarsimp)
  fix c k s
  assume "min_by_key (\<lambda>e. cd_last_used (snd e)) (dc_snapshots c) = Some (k, s)"
  then have "(k, s) \<in> set (dc_snapshots c)" using min_by_key_Some by fastforce
  then show "length (bt_remove k (dc_snapshots c)) < length (dc_snapshots c)"
    unfolding bt_remove_def by (rule length_filter_less) simp
qed

declare shrink.simps [simp del]

definition cache_store ::
  "(json \<Rightarrow> nat) \<Rightarrow> string \<Rightarrow> cached_diagnostics \<Rightarrow> diagnostic_cache \<Rightarrow> diagnostic_cache \<times> bool" where
  "cache_store ser_len key s c =
     (let clock = sat_add (dc_clock c) 1;
          bytes = ser_len (cd_raw_report s);
          c1 = forget key (c\<lparr>dc_clock := clock\<rparr>)
      in if dc_max_total_bytes c1 < bytes \<or> dc_max_snapshots c1 = 0 then (c1, False)
         else let c2 = shrink (c1\<lparr>dc_total_bytes := sat_add (dc_total_bytes c1) bytes,
                    dc_snapshots := bt_insert key
                      (s\<lparr>cd_serialized_bytes := bytes, cd_last_used := clock\<rparr>) (dc_snapshots c1)\<rparr>)
              in (c2, bt_get (dc_snapshots c2) key \<noteq> None))"

section \<open>Published diagnostics\<close>

definition no_diagnostics :: "string \<Rightarrow> int option \<Rightarrow> json \<Rightarrow> diagnostic_result" where
  "no_diagnostics uri version raw =
     \<lparr>dr_uri = uri, dr_diagnostics = JArray [], dr_raw_report = raw, dr_effective_report = JNull,
      dr_result_id = None, dr_version = version, dr_fresh = False, dr_complete = False, dr_closed = False\<rparr>"

definition published :: "string \<Rightarrow> int option \<Rightarrow> diagnostic_cache \<Rightarrow> diagnostic_cache \<times> diagnostic_result" where
  "published uri current_version c =
     (let clock = sat_add (dc_clock c) 1; c1 = c\<lparr>dc_clock := clock\<rparr>
      in case bt_get (dc_snapshots c) (push_key uri) of
           None \<Rightarrow> (c1, no_diagnostics uri current_version JNull)
         | Some s0 \<Rightarrow>
             let s = s0\<lparr>cd_last_used := clock\<rparr>;
                 c2 = c1\<lparr>dc_snapshots := bt_insert (push_key uri) s (dc_snapshots c)\<rparr>;
                 exact_version = (cd_version s \<noteq> None \<and> cd_version s = current_version);
                 usable_versionless = (cd_version s = None \<and> cd_received_for_version s \<noteq> None
                    \<and> cd_received_for_version s = current_version)
             in if exact_version \<or> usable_versionless then (c2, render s exact_version True)
                else (c2, no_diagnostics uri current_version JNull))"

definition push_report :: "string \<Rightarrow> int option \<Rightarrow> json \<Rightarrow> json" where
  "push_report uri version diagnostics =
     jobj [(''uri'', JString uri), (''version'', jopt jint version), (''diagnostics'', diagnostics)]"

definition publish ::
  "(json \<Rightarrow> nat) \<Rightarrow> string \<Rightarrow> int option \<Rightarrow> json \<Rightarrow> int option \<Rightarrow> bool \<Rightarrow> diagnostic_cache
     \<Rightarrow> diagnostic_cache \<times> diagnostic_result" where
  "publish ser_len uri version diagnostics current_version received_after_boundary c =
     (let raw_report = push_report uri version diagnostics;
          (c1, cached) = cache_store ser_len (push_key uri)
            \<lparr>cd_uri = uri, cd_version = version, cd_diagnostics = diagnostics, cd_raw_report = raw_report,
             cd_result_id = None,
             cd_received_for_version = (if received_after_boundary then current_version else None),
             cd_closed = False, cd_serialized_bytes = 0, cd_last_used = 0\<rparr> c
      in if cached then published uri current_version c1
         else (c1, \<lparr>dr_uri = uri, dr_diagnostics = diagnostics, dr_raw_report = raw_report,
                    dr_effective_report = raw_report, dr_result_id = None, dr_version = version,
                    dr_fresh = (version \<noteq> None \<and> version = current_version), dr_complete = False,
                    dr_closed = False\<rparr>))"

section \<open>Requested diagnostics\<close>

definition get_str :: "json \<Rightarrow> string \<Rightarrow> string option" where
  "get_str v k = Option.bind (json_get v k) as_str"

text \<open>The report of an unchanged Document: the cached full report under the new identifiers.\<close>

definition unchanged_report :: "string \<Rightarrow> json \<Rightarrow> string option \<Rightarrow> json \<Rightarrow> json option" where
  "unchanged_report uri report result_id cached =
     Option.bind (case result_id of None \<Rightarrow> Some cached | Some i \<Rightarrow> json_set cached ''resultId'' (JString i))
       (\<lambda>e1. Option.bind (json_set e1 ''uri'' (JString uri))
         (\<lambda>e2. case json_get report ''version'' of None \<Rightarrow> Some e2 | Some v \<Rightarrow> json_set e2 ''version'' v))"

definition reconstruct_pull_report ::
  "diagnostic_cache \<Rightarrow> string \<Rightarrow> json \<Rightarrow> diagnostic_result option" where
  "reconstruct_pull_report c uri report =
     (if get_str report ''kind'' = Some ''unchanged'' then
        (case bt_get (dc_snapshots c) (pull_key uri) of
           None \<Rightarrow> Some (no_diagnostics uri None report)
         | Some s \<Rightarrow>
             let result_id = (case get_str report ''resultId'' of None \<Rightarrow> cd_result_id s | Some i \<Rightarrow> Some i)
             in map_option
                  (\<lambda>e. (render s True True)\<lparr>dr_result_id := result_id, dr_effective_report := e,
                          dr_raw_report := report\<rparr>)
                  (unchanged_report uri report result_id (cd_raw_report s)))
      else if get_str report ''kind'' = Some ''full''
           \<and> (case json_get report ''items'' of None \<Rightarrow> False | Some i \<Rightarrow> as_array i \<noteq> None) then
        Some \<lparr>dr_uri = uri, dr_diagnostics = json_index report ''items'', dr_raw_report = report,
              dr_effective_report = report, dr_result_id = get_str report ''resultId'', dr_version = None,
              dr_fresh = True, dr_complete = True, dr_closed = False\<rparr>
      else Some (no_diagnostics uri None report))"

definition store_pull_result ::
  "(json \<Rightarrow> nat) \<Rightarrow> diagnostic_result \<Rightarrow> diagnostic_cache \<Rightarrow> diagnostic_cache" where
  "store_pull_result ser_len r c =
     (if \<not> dr_complete r then c
      else fst (cache_store ser_len (pull_key (dr_uri r))
        \<lparr>cd_uri = dr_uri r, cd_version = dr_version r, cd_diagnostics = dr_diagnostics r,
         cd_raw_report = dr_effective_report r, cd_result_id = dr_result_id r,
         cd_received_for_version = None, cd_closed = dr_closed r, cd_serialized_bytes = 0,
         cd_last_used = 0\<rparr> c))"

definition apply_pull_report ::
  "(json \<Rightarrow> nat) \<Rightarrow> string \<Rightarrow> json \<Rightarrow> diagnostic_cache \<Rightarrow> (diagnostic_cache \<times> diagnostic_result) option" where
  "apply_pull_report ser_len uri report c =
     map_option (\<lambda>r. (store_pull_result ser_len r c, r)) (reconstruct_pull_report c uri report)"

definition apply_document_pull_report ::
  "(json \<Rightarrow> nat) \<Rightarrow> string \<Rightarrow> json \<Rightarrow> diagnostic_cache \<Rightarrow> (diagnostic_cache \<times> diagnostic_result) option" where
  "apply_document_pull_report ser_len uri report c =
     Option.bind
       (case Option.bind (json_get report ''relatedDocuments'') as_object of
          None \<Rightarrow> Some None
        | Some reports \<Rightarrow> map_option Some (those (map (\<lambda>(u, r). reconstruct_pull_report c u r) reports)))
       (\<lambda>related. Option.bind (reconstruct_pull_report c uri report)
         (\<lambda>result.
           if \<not> dr_complete result
              \<or> (case related of None \<Rightarrow> False | Some rs \<Rightarrow> \<exists>r \<in> set rs. \<not> dr_complete r)
           then Some (c, result\<lparr>dr_effective_report := JNull, dr_fresh := False, dr_complete := False\<rparr>)
           else case related of
             None \<Rightarrow> Some (store_pull_result ser_len result c, result)
           | Some rs \<Rightarrow>
               map_option
                 (\<lambda>e. let result' = result\<lparr>dr_effective_report := e\<rparr>
                      in (store_pull_result ser_len result' (fold (store_pull_result ser_len) rs c), result'))
                 (json_set (dr_effective_report result) ''relatedDocuments''
                   (jobj (map (\<lambda>r. (dr_uri r, dr_effective_report r)) rs)))))"

text \<open>
  The items of a workspace report up to the first that cannot be reconstructed: the inner
  option is the collected \<open>Option<Vec<_>>\<close>, the outer one a panic.
\<close>

fun reconstruct_items :: "diagnostic_cache \<Rightarrow> json list \<Rightarrow> diagnostic_result list option option" where
  "reconstruct_items c [] = Some (Some [])"
| "reconstruct_items c (item # items) =
     (case get_str item ''uri'' of
        None \<Rightarrow> Some None
      | Some uri \<Rightarrow>
          (case reconstruct_pull_report c uri item of
             None \<Rightarrow> None
           | Some r \<Rightarrow>
               if dr_complete r then map_option (map_option (Cons r)) (reconstruct_items c items)
               else Some None))"

definition apply_workspace_pull_report ::
  "(json \<Rightarrow> nat) \<Rightarrow> json \<Rightarrow> diagnostic_cache \<Rightarrow> (diagnostic_cache \<times> workspace_diagnostic_result) option" where
  "apply_workspace_pull_report ser_len report c =
     Option.bind
       (case Option.bind (json_get report ''items'') as_array of
          None \<Rightarrow> Some None
        | Some items \<Rightarrow> reconstruct_items c items)
       (\<lambda>reconstructed.
         case reconstructed of
           None \<Rightarrow> Some (c, \<lparr>wr_effective_report = report, wr_raw_report = report, wr_fresh = False,
                            wr_complete = False, wr_workspace_complete = False\<rparr>)
         | Some rs \<Rightarrow>
             map_option
               (\<lambda>e. (fold (store_pull_result ser_len) rs c,
                     \<lparr>wr_effective_report = e,
                      wr_raw_report =
                        (if \<exists>r \<in> set rs. json_index (dr_raw_report r) ''kind'' = JString ''unchanged''
                         then report else JNull),
                      wr_fresh = True, wr_complete = True, wr_workspace_complete = True\<rparr>))
               (json_set report ''items'' (JArray (map dr_effective_report rs))))"

section \<open>Closing, identifiers, listing\<close>

definition mark_closed_key :: "string \<Rightarrow> diagnostic_cache \<Rightarrow> diagnostic_cache" where
  "mark_closed_key key c =
     (case bt_get (dc_snapshots c) key of
        None \<Rightarrow> c
      | Some s \<Rightarrow> c\<lparr>dc_snapshots := bt_insert key (s\<lparr>cd_closed := True, cd_received_for_version := None\<rparr>)
                                      (dc_snapshots c)\<rparr>)"

definition mark_closed :: "string \<Rightarrow> diagnostic_cache \<Rightarrow> diagnostic_cache" where
  "mark_closed uri c = mark_closed_key (pull_key uri) (mark_closed_key (push_key uri) c)"

definition invalidate_pull_result_ids :: "diagnostic_cache \<Rightarrow> diagnostic_cache" where
  "invalidate_pull_result_ids c =
     fold forget (filter (prefix pull_prefix) (bt_keys (dc_snapshots c))) c"

definition pull_result_id :: "string \<Rightarrow> diagnostic_cache \<Rightarrow> string option" where
  "pull_result_id uri c = Option.bind (bt_get (dc_snapshots c) (pull_key uri)) cd_result_id"

definition pull_result_ids :: "diagnostic_cache \<Rightarrow> json list" where
  "pull_result_ids c =
     List.map_filter
       (\<lambda>e. map_option (\<lambda>i. jobj [(''uri'', JString (cd_uri (snd e))), (''value'', JString i)]) (cd_result_id (snd e)))
       (filter (\<lambda>e. prefix pull_prefix (fst e)) (dc_snapshots c))"

definition touch_if :: "(string \<Rightarrow> bool) \<Rightarrow> diagnostic_cache \<Rightarrow> diagnostic_cache" where
  "touch_if P c =
     (let clock = sat_add (dc_clock c) 1
      in c\<lparr>dc_clock := clock,
           dc_snapshots := map (\<lambda>(k, s). (k, if P k then s\<lparr>cd_last_used := clock\<rparr> else s)) (dc_snapshots c)\<rparr>)"

definition all_known :: "diagnostic_cache \<Rightarrow> diagnostic_cache \<times> diagnostic_result list" where
  "all_known c =
     (touch_if (prefix push_prefix) c,
      map (\<lambda>e. render (snd e) False True) (filter (\<lambda>e. prefix push_prefix (fst e)) (dc_snapshots c)))"

section \<open>Export and import\<close>

definition export_record :: "string \<Rightarrow> cached_diagnostics \<Rightarrow> json" where
  "export_record key s = jobj
     [(''kind'', JString (if prefix push_prefix key then ''push'' else ''pull'')),
      (''uri'', JString (cd_uri s)), (''version'', jopt jint (cd_version s)),
      (''diagnostics'', cd_diagnostics s), (''rawReport'', cd_raw_report s),
      (''receivedForVersion'', jopt jint (cd_received_for_version s)), (''closed'', JBool (cd_closed s))]"

definition export_state :: "diagnostic_cache \<Rightarrow> diagnostic_cache \<times> json" where
  "export_state c = (touch_if (\<lambda>_. True) c, JArray (map (\<lambda>(k, s). export_record k s) (dc_snapshots c)))"

definition import_record :: "(json \<Rightarrow> nat) \<Rightarrow> json \<Rightarrow> diagnostic_cache \<Rightarrow> diagnostic_cache option" where
  "import_record ser_len rec c =
     (case get_str rec ''uri'' of
        None \<Rightarrow> Some c
      | Some uri \<Rightarrow>
          let applied =
            (if get_str rec ''kind'' = Some ''pull'' then
               map_option fst (apply_pull_report ser_len uri (json_index rec ''rawReport'') c)
             else
               let version = Option.bind (json_get rec ''version'') as_i64;
                   current_version = (case Option.bind (json_get rec ''receivedForVersion'') as_i64 of
                      None \<Rightarrow> version | Some v \<Rightarrow> Some v)
               in Some (fst (publish ser_len uri version
                    (case json_get rec ''diagnostics'' of None \<Rightarrow> JArray [] | Some d \<Rightarrow> d)
                    current_version (current_version \<noteq> None) c)))
          in map_option
               (if Option.bind (json_get rec ''closed'') as_bool = Some True then mark_closed uri else id)
               applied)"

fun import_records :: "(json \<Rightarrow> nat) \<Rightarrow> json list \<Rightarrow> diagnostic_cache \<Rightarrow> diagnostic_cache option" where
  "import_records ser_len [] c = Some c"
| "import_records ser_len (rec # recs) c =
     Option.bind (import_record ser_len rec c) (import_records ser_len recs)"

definition import_state :: "(json \<Rightarrow> nat) \<Rightarrow> json \<Rightarrow> diagnostic_cache \<Rightarrow> diagnostic_cache option" where
  "import_state ser_len state c =
     (case as_array state of None \<Rightarrow> Some c | Some recs \<Rightarrow> import_records ser_len recs c)"

end
