(* ===== verification/Diagnostic_Cache_Laws.thy ===== *)
theory Diagnostic_Cache_Laws
  imports Diagnostic_Cache
begin

text \<open>
  What the diagnostic cache promises: its bounds and accounting under every sequence of
  operations, the absence of panics, that the newest snapshot survives its own store, that an
  unchanged report is resolved to the cached content, and that export and import round-trip.
\<close>

section \<open>The invariant\<close>

definition i64_range :: "int option \<Rightarrow> bool" where
  "i64_range v \<longleftrightarrow> (case v of None \<Rightarrow> True | Some i \<Rightarrow> - (2 ^ 63) \<le> i \<and> i < 2 ^ 63)"

text \<open>A pushed snapshot keeps the report built for it; a pulled one a full report with its items.\<close>

definition pushed :: "cached_diagnostics \<Rightarrow> bool" where
  "pushed s \<longleftrightarrow> cd_raw_report s = push_report (cd_uri s) (cd_version s) (cd_diagnostics s)
     \<and> cd_result_id s = None \<and> i64_range (cd_version s) \<and> i64_range (cd_received_for_version s)"

definition full_report :: "json \<Rightarrow> json \<Rightarrow> string option \<Rightarrow> bool" where
  "full_report raw items result_id \<longleftrightarrow> get_str raw ''kind'' = Some ''full''
     \<and> json_get raw ''items'' = Some items \<and> as_array items \<noteq> None \<and> get_str raw ''resultId'' = result_id"

definition pulled :: "cached_diagnostics \<Rightarrow> bool" where
  "pulled s \<longleftrightarrow> full_report (cd_raw_report s) (cd_diagnostics s) (cd_result_id s)
     \<and> cd_version s = None \<and> cd_received_for_version s = None"

definition entry_ok :: "(json \<Rightarrow> nat) \<Rightarrow> nat \<Rightarrow> string \<times> cached_diagnostics \<Rightarrow> bool" where
  "entry_ok ser_len clock e \<longleftrightarrow>
     (fst e = push_key (cd_uri (snd e)) \<and> pushed (snd e) \<or> fst e = pull_key (cd_uri (snd e)) \<and> pulled (snd e))
     \<and> cd_serialized_bytes (snd e) = ser_len (cd_raw_report (snd e)) \<and> cd_last_used (snd e) \<le> clock"

definition cache_bytes :: "string \<times> cached_diagnostics \<Rightarrow> nat" where
  "cache_bytes e = cd_serialized_bytes (snd e)"

definition cache_accounts :: "(json \<Rightarrow> nat) \<Rightarrow> diagnostic_cache \<Rightarrow> bool" where
  "cache_accounts ser_len c \<longleftrightarrow> bt_ok (dc_snapshots c)
     \<and> dc_total_bytes c = sum_list (map cache_bytes (dc_snapshots c))
     \<and> (\<forall>e \<in> set (dc_snapshots c). entry_ok ser_len (dc_clock c) e)"

definition cache_ok :: "(json \<Rightarrow> nat) \<Rightarrow> diagnostic_cache \<Rightarrow> bool" where
  "cache_ok ser_len c \<longleftrightarrow> cache_accounts ser_len c \<and> \<not> cache_over_limits c
     \<and> 2 * dc_max_total_bytes c \<le> u64_max \<and> dc_clock c \<le> u64_max"

lemma push_pull_distinct [simp]: "push_key u \<noteq> pull_key v" "pull_key v \<noteq> push_key u"
  by (simp_all add: push_key_def pull_key_def)

lemma key_inject [simp]: "push_key u = push_key v \<longleftrightarrow> u = v" "pull_key u = pull_key v \<longleftrightarrow> u = v"
  by (simp_all add: push_key_def pull_key_def)

lemma prefix_keys [simp]:
  "prefix push_prefix (push_key u)" "\<not> prefix push_prefix (pull_key u)"
  "prefix pull_prefix (pull_key u)" "\<not> prefix pull_prefix (push_key u)"
  by (simp_all add: push_key_def pull_key_def)

lemma cache_ok_new: "2 * b \<le> u64_max \<Longrightarrow> cache_ok ser_len (new_diagnostic_cache n b)"
  by (simp add: cache_ok_def cache_accounts_def cache_over_limits_def new_diagnostic_cache_def u64_max_def)

section \<open>Storing\<close>

lemma forget_total:
  assumes "bt_ok (dc_snapshots c)" "dc_total_bytes c = sum_list (map cache_bytes (dc_snapshots c))"
  shows "dc_total_bytes (forget k c) = sum_list (map cache_bytes (bt_remove k (dc_snapshots c)))"
proof (cases "bt_get (dc_snapshots c) k")
  case None
  with assms show ?thesis by (simp add: forget_def bt_remove_absent)
next
  case (Some s)
  have "sum_list (map cache_bytes (bt_remove k (dc_snapshots c))) + cache_bytes (k, s) = dc_total_bytes c"
    using bt.sum_drop_Some [OF assms(1) Some] assms(2) by simp
  with Some show ?thesis by (simp add: forget_def cache_bytes_def)
qed

lemma cache_accounts_forget: "cache_accounts ser_len c \<Longrightarrow> cache_accounts ser_len (forget k c)"
  by (auto simp: cache_accounts_def forget_total set_bt_remove)

lemma forget_total_le: "dc_total_bytes (forget k c) \<le> dc_total_bytes c"
  by (simp add: forget_def split: option.splits)

lemma cache_within_forget: "\<not> cache_over_limits c \<Longrightarrow> \<not> cache_over_limits (forget k c)"
  using forget_total_le [of k c] le_trans [OF length_filter_le [of "\<lambda>e. fst e \<noteq> k" "dc_snapshots c"]]
  by (auto simp: cache_over_limits_def bt_remove_def not_less)

lemma cache_ok_forget: "cache_ok ser_len c \<Longrightarrow> cache_ok ser_len (forget k c)"
  by (simp add: cache_ok_def cache_accounts_forget cache_within_forget)

text \<open>A snapshot used later than all others is the last to go, and fits when it fits alone.\<close>

definition newest_fits :: "string \<Rightarrow> cached_diagnostics \<Rightarrow> diagnostic_cache \<Rightarrow> bool" where
  "newest_fits key s c \<longleftrightarrow> bt_get (dc_snapshots c) key = Some s
     \<and> (\<forall>e \<in> set (dc_snapshots c). fst e \<noteq> key \<longrightarrow> cd_last_used (snd e) < cd_last_used s)
     \<and> cd_serialized_bytes s \<le> dc_max_total_bytes c \<and> 0 < dc_max_snapshots c"

lemma newest_fits_forget: "newest_fits key s c \<Longrightarrow> k \<noteq> key \<Longrightarrow> newest_fits key s (forget k c)"
  by (simp add: newest_fits_def set_bt_remove)

lemma newest_alone_within:
  assumes "cache_accounts ser_len c" "newest_fits key s c"
    and "min_by_key (\<lambda>e. cd_last_used (snd e)) (dc_snapshots c) = Some e" "fst e = key"
  shows "\<not> cache_over_limits c"
proof -
  note newest = assms(2) [unfolded newest_fits_def]
  have ok: "bt_ok (dc_snapshots c)" using assms(1) by (simp add: cache_accounts_def)
  from min_by_key_Some [OF assms(3)]
  have e: "e \<in> set (dc_snapshots c)" "\<forall>f \<in> set (dc_snapshots c). cd_last_used (snd e) \<le> cd_last_used (snd f)"
    by auto
  have es: "snd e = s" using e(1) newest assms(4) ok by (metis bt_get_mem bt_ok_unique prod.collapse)
  have "set (dc_snapshots c) \<subseteq> {(key, s)}"
  proof
    fix f assume f: "f \<in> set (dc_snapshots c)"
    have "fst f = key" using newest e(2) es f by (metis leD)
    then show "f \<in> {(key, s)}" using f newest ok by (metis bt_get_mem bt_ok_unique prod.collapse singletonI)
  qed
  moreover have "distinct (dc_snapshots c)" using ok by (metis bt_ok_distinct distinct_map)
  ultimately have "dc_snapshots c = [(key, s)]"
    using newest by (cases "dc_snapshots c" rule: list.exhaust; cases "tl (dc_snapshots c)") auto
  with assms(1) newest show ?thesis by (simp add: cache_over_limits_def cache_accounts_def cache_bytes_def)
qed

lemma shrink_spec:
  assumes "cache_accounts ser_len c"
  shows "cache_accounts ser_len (shrink c) \<and> \<not> cache_over_limits (shrink c)
    \<and> dc_max_snapshots (shrink c) = dc_max_snapshots c \<and> dc_max_total_bytes (shrink c) = dc_max_total_bytes c
    \<and> dc_clock (shrink c) = dc_clock c \<and> set (dc_snapshots (shrink c)) \<subseteq> set (dc_snapshots c)
    \<and> (\<forall>s. newest_fits key s c \<longrightarrow> bt_get (dc_snapshots (shrink c)) key = Some s)"
  using assms
proof (induction c rule: shrink.induct)
  case (1 c)
  show ?case
  proof (cases "cache_over_limits c")
    case False
    with "1.prems" show ?thesis by (simp add: shrink.simps [of c] newest_fits_def)
  next
    case True
    then have "dc_snapshots c \<noteq> []"
      using "1.prems" by (auto simp: cache_over_limits_def cache_accounts_def)
    then obtain e where e: "min_by_key (\<lambda>e. cd_last_used (snd e)) (dc_snapshots c) = Some e"
      by (metis min_by_key_None not_None_eq)
    have step: "shrink c = shrink (forget (fst e) c)"
      using True e by (simp add: shrink.simps [of c])
    have "newest_fits key s c \<longrightarrow> newest_fits key s (forget (fst e) c)" for s
      using newest_alone_within [OF "1.prems" _ e] True newest_fits_forget by blast
    then show ?thesis
      using "1.IH" [OF _ e cache_accounts_forget [OF "1.prems"]] True unfolding step
      by (auto simp: set_bt_remove)
  qed
qed

lemma entry_ok_mono: "entry_ok ser_len n e \<Longrightarrow> n \<le> m \<Longrightarrow> entry_ok ser_len m e"
  by (auto simp: entry_ok_def)

lemma cache_ok_clock:
  "cache_ok ser_len c \<Longrightarrow> cache_ok ser_len (c\<lparr>dc_clock := sat_add (dc_clock c) 1\<rparr>)"
proof -
  assume ok: "cache_ok ser_len c"
  then have "dc_clock c \<le> sat_add (dc_clock c) 1" by (simp add: cache_ok_def sat_add_def)
  with ok show ?thesis
    by (auto simp: cache_ok_def cache_accounts_def cache_over_limits_def sat_add_bound intro: entry_ok_mono)
qed

text \<open>The effect of \<open>store\<close>.\<close>

lemma cache_store_spec:
  assumes ok: "cache_ok ser_len c"
    and kind: "key = push_key (cd_uri s) \<and> pushed s \<or> key = pull_key (cd_uri s) \<and> pulled s"
  defines "stored \<equiv> s\<lparr>cd_serialized_bytes := ser_len (cd_raw_report s), cd_last_used := sat_add (dc_clock c) 1\<rparr>"
  shows "cache_ok ser_len (fst (cache_store ser_len key s c))
    \<and> (snd (cache_store ser_len key s c) \<longleftrightarrow>
         bt_get (dc_snapshots (fst (cache_store ser_len key s c))) key \<noteq> None)
    \<and> set (dc_snapshots (fst (cache_store ser_len key s c)))
         \<subseteq> insert (key, stored) {e \<in> set (dc_snapshots c). fst e \<noteq> key}
    \<and> dc_max_snapshots (fst (cache_store ser_len key s c)) = dc_max_snapshots c
    \<and> dc_max_total_bytes (fst (cache_store ser_len key s c)) = dc_max_total_bytes c
    \<and> dc_clock (fst (cache_store ser_len key s c)) = sat_add (dc_clock c) 1
    \<and> (dc_clock c < u64_max \<and> ser_len (cd_raw_report s) \<le> dc_max_total_bytes c \<and> 0 < dc_max_snapshots c
        \<longrightarrow> bt_get (dc_snapshots (fst (cache_store ser_len key s c))) key = Some stored)"
proof -
  define c0 where "c0 = forget key (c\<lparr>dc_clock := sat_add (dc_clock c) 1\<rparr>)"
  define c1 where "c1 = c0\<lparr>dc_total_bytes := sat_add (dc_total_bytes c0) (ser_len (cd_raw_report s)),
      dc_snapshots := bt_insert key stored (dc_snapshots c0)\<rparr>"
  have ok0: "cache_ok ser_len c0" unfolding c0_def by (rule cache_ok_forget [OF cache_ok_clock [OF ok]])
  have okm: "bt_ok (dc_snapshots c)" using ok by (simp add: cache_ok_def cache_accounts_def)
  have c0: "dc_snapshots c0 = bt_remove key (dc_snapshots c)" "dc_max_snapshots c0 = dc_max_snapshots c"
    "dc_max_total_bytes c0 = dc_max_total_bytes c" "dc_clock c0 = sat_add (dc_clock c) 1"
    by (simp_all add: c0_def)
  show ?thesis
  proof (cases "dc_max_total_bytes c < ser_len (cd_raw_report s) \<or> dc_max_snapshots c = 0")
    case True
    then have "cache_store ser_len key s c = (c0, False)"
      by (simp add: cache_store_def Let_def c0_def)
    then show ?thesis using True ok0 c0 by (auto simp: set_bt_remove)
  next
    case False
    then have run: "cache_store ser_len key s c = (shrink c1, bt_get (dc_snapshots (shrink c1)) key \<noteq> None)"
      by (simp add: cache_store_def Let_def c1_def c0_def stored_def)
    have fits: "dc_total_bytes c0 + ser_len (cd_raw_report s) \<le> u64_max"
      using ok0 False c0(3) by (simp add: cache_ok_def cache_over_limits_def)
    have "entry_ok ser_len (sat_add (dc_clock c) 1) (key, stored)"
      using kind by (auto simp: entry_ok_def stored_def pushed_def pulled_def)
    moreover have "sum_list (map cache_bytes (bt_insert key stored (dc_snapshots c0)))
        = sum_list (map cache_bytes (dc_snapshots c0)) + ser_len (cd_raw_report s)"
      using bt.sum_put_fresh [of "dc_snapshots c0" key cache_bytes stored] okm c0
      by (simp add: cache_bytes_def stored_def)
    ultimately have acc: "cache_accounts ser_len c1"
      using ok0 fits c0 by (auto simp: cache_ok_def cache_accounts_def c1_def set_bt_insert)
    have newest: "cd_last_used (snd e) < cd_last_used stored"
      if "dc_clock c < u64_max" "e \<in> set (dc_snapshots c1)" "fst e \<noteq> key" for e
    proof -
      have "e \<in> set (dc_snapshots c)" using that c0 by (auto simp: c1_def set_bt_insert set_bt_remove)
      then have "cd_last_used (snd e) \<le> dc_clock c"
        using ok by (auto simp: cache_ok_def cache_accounts_def entry_ok_def)
      then show ?thesis using that(1) by (simp add: stored_def)
    qed
    have get1: "bt_get (dc_snapshots c1) key = Some stored" by (simp add: c1_def)
    note sp = shrink_spec [OF acc, of key]
    have "set (dc_snapshots (shrink c1)) \<subseteq> insert (key, stored) {e \<in> set (dc_snapshots c). fst e \<noteq> key}"
      using sp c0 by (auto simp: c1_def set_bt_insert set_bt_remove)
    moreover have "cache_ok ser_len (shrink c1)"
      using sp ok0 by (simp add: cache_ok_def c1_def)
    moreover have "dc_clock c < u64_max \<and> ser_len (cd_raw_report s) \<le> dc_max_total_bytes c \<and> 0 < dc_max_snapshots c
        \<longrightarrow> bt_get (dc_snapshots (shrink c1)) key = Some stored"
    proof (intro impI, elim conjE)
      assume h: "dc_clock c < u64_max" "ser_len (cd_raw_report s) \<le> dc_max_total_bytes c" "0 < dc_max_snapshots c"
      have "cd_serialized_bytes stored \<le> dc_max_total_bytes c1" "0 < dc_max_snapshots c1"
        using h c0 by (simp_all add: c1_def stored_def)
      then show "bt_get (dc_snapshots (shrink c1)) key = Some stored"
        using sp get1 newest [OF h(1)] by (simp add: newest_fits_def)
    qed
    ultimately show ?thesis
      unfolding run using sp c0 by (simp add: c1_def)
  qed
qed


section \<open>Updates in place\<close>

lemma cache_ok_update:
  assumes "cache_ok ser_len c" "bt_get (dc_snapshots c) key = Some s"
    and "entry_ok ser_len (dc_clock c) (key, s')" "cd_raw_report s' = cd_raw_report s"
  shows "cache_ok ser_len (c\<lparr>dc_snapshots := bt_insert key s' (dc_snapshots c)\<rparr>)"
proof -
  have okm: "bt_ok (dc_snapshots c)" using assms(1) by (simp add: cache_ok_def cache_accounts_def)
  have "entry_ok ser_len (dc_clock c) (key, s)"
    using assms(1,2) okm by (auto simp: cache_ok_def cache_accounts_def bt_get_mem)
  then have "cd_serialized_bytes s' = cd_serialized_bytes s"
    using assms(3,4) by (simp add: entry_ok_def)
  then have "sum_list (map cache_bytes (bt_insert key s' (dc_snapshots c))) = sum_list (map cache_bytes (dc_snapshots c))"
    using sum_bt_insert_over [OF okm assms(2), of cache_bytes s'] by (simp add: cache_bytes_def)
  moreover have "length (bt_insert key s' (dc_snapshots c)) = length (dc_snapshots c)"
    by (rule length_bt_insert_over [OF okm assms(2)])
  ultimately show ?thesis
    using assms(1,3) okm by (auto simp: cache_ok_def cache_accounts_def cache_over_limits_def set_bt_insert)
qed

lemma cache_entry:
  assumes "cache_ok ser_len c" "bt_get (dc_snapshots c) key = Some s"
  shows "entry_ok ser_len (dc_clock c) (key, s)"
proof -
  have "bt_ok (dc_snapshots c)" using assms(1) by (simp add: cache_ok_def cache_accounts_def)
  then show ?thesis using assms by (auto simp: cache_ok_def cache_accounts_def bt_get_mem)
qed

lemma pull_entry:
  "cache_ok ser_len c \<Longrightarrow> bt_get (dc_snapshots c) (pull_key uri) = Some s \<Longrightarrow> pulled s \<and> cd_uri s = uri"
  using cache_entry by (fastforce simp: entry_ok_def)

lemma push_entry:
  "cache_ok ser_len c \<Longrightarrow> bt_get (dc_snapshots c) (push_key uri) = Some s \<Longrightarrow> pushed s \<and> cd_uri s = uri"
  using cache_entry by (fastforce simp: entry_ok_def)

lemma entry_ok_used:
  "entry_ok ser_len n (k, s) \<Longrightarrow> entry_ok ser_len m (k, s\<lparr>cd_last_used := m\<rparr>)"
  by (auto simp: entry_ok_def pushed_def pulled_def)

lemma entry_ok_closed:
  "entry_ok ser_len n (k, s) \<Longrightarrow> entry_ok ser_len n (k, s\<lparr>cd_closed := True, cd_received_for_version := None\<rparr>)"
  by (auto simp: entry_ok_def pushed_def pulled_def i64_range_def)

lemma cache_ok_published: "cache_ok ser_len c \<Longrightarrow> cache_ok ser_len (fst (published uri v c))"
proof (cases "bt_get (dc_snapshots c) (push_key uri)")
  case None
  assume "cache_ok ser_len c"
  with None show ?thesis by (simp add: published_def Let_def cache_ok_clock del: One_nat_def)
next
  case (Some s)
  assume ok: "cache_ok ser_len c"
  let ?c = "c\<lparr>dc_clock := sat_add (dc_clock c) 1\<rparr>"
  let ?s = "s\<lparr>cd_last_used := sat_add (dc_clock c) 1\<rparr>"
  have "cache_ok ser_len (?c\<lparr>dc_snapshots := bt_insert (push_key uri) ?s (dc_snapshots ?c)\<rparr>)"
    by (rule cache_ok_update [OF cache_ok_clock [OF ok]])
       (use Some entry_ok_used [OF cache_entry [OF ok Some]] in auto)
  then show ?thesis using Some by (simp add: published_def Let_def)
qed

lemma cache_ok_publish:
  assumes "cache_ok ser_len c" "i64_range version" "i64_range current_version"
  shows "cache_ok ser_len (fst (publish ser_len uri version diagnostics current_version after c))"
proof -
  let ?s = "\<lparr>cd_uri = uri, cd_version = version, cd_diagnostics = diagnostics,
     cd_raw_report = push_report uri version diagnostics, cd_result_id = None,
     cd_received_for_version = (if after then current_version else None),
     cd_closed = False, cd_serialized_bytes = 0, cd_last_used = 0\<rparr>"
  have "pushed ?s" using assms(2,3) by (simp add: pushed_def i64_range_def)
  then have "cache_ok ser_len (fst (cache_store ser_len (push_key uri) ?s c))"
    using cache_store_spec [OF assms(1), of "push_key uri" ?s] by simp
  then show ?thesis
    by (auto simp: publish_def Let_def case_prod_beta cache_ok_published split: prod.splits)
qed

lemma cache_ok_mark_closed: "cache_ok ser_len c \<Longrightarrow> cache_ok ser_len (mark_closed uri c)"
proof -
  have "cache_ok ser_len (mark_closed_key key c)" if ok: "cache_ok ser_len c" for key c
  proof (cases "bt_get (dc_snapshots c) key")
    case (Some s)
    then show ?thesis
      using cache_ok_update [OF ok Some entry_ok_closed [OF cache_entry [OF ok Some]]]
      by (simp add: mark_closed_key_def)
  qed (simp add: mark_closed_key_def ok)
  then show "cache_ok ser_len c \<Longrightarrow> ?thesis" by (simp add: mark_closed_def)
qed

lemma cache_ok_invalidate: "cache_ok ser_len c \<Longrightarrow> cache_ok ser_len (invalidate_pull_result_ids c)"
proof -
  have "cache_ok ser_len c \<Longrightarrow> cache_ok ser_len (fold forget ks c)" for ks
    by (induction ks arbitrary: c) (simp_all add: cache_ok_forget)
  then show "cache_ok ser_len c \<Longrightarrow> ?thesis" by (simp add: invalidate_pull_result_ids_def)
qed

lemma cache_ok_touch: "cache_ok ser_len c \<Longrightarrow> cache_ok ser_len (touch_if P c)"
proof -
  assume ok: "cache_ok ser_len c"
  let ?n = "sat_add (dc_clock c) 1"
  let ?f = "\<lambda>(k, s). (k, if P k then s\<lparr>cd_last_used := ?n\<rparr> else s)"
  have "dc_clock c \<le> ?n" using ok by (simp add: cache_ok_def sat_add_def)
  then have "\<forall>e \<in> set (dc_snapshots c). entry_ok ser_len ?n (?f e)"
    using ok by (fastforce simp: cache_ok_def cache_accounts_def intro: entry_ok_mono entry_ok_used)
  moreover have "map fst (map ?f (dc_snapshots c)) = map fst (dc_snapshots c)"
    by (simp add: comp_def case_prod_beta)
  moreover have "map cache_bytes (map ?f (dc_snapshots c)) = map cache_bytes (dc_snapshots c)"
    by (simp add: cache_bytes_def case_prod_beta)
  ultimately show ?thesis
    using ok unfolding cache_ok_def cache_accounts_def cache_over_limits_def touch_if_def Let_def
    by (simp add: bt_ok_def sat_add_bound del: map_map One_nat_def)
qed

section \<open>Reconstruction\<close>

lemma full_report_set:
  assumes "full_report raw items i" "k \<noteq> ''kind''" "k \<noteq> ''items''" "k \<noteq> ''resultId''"
  shows "\<exists>raw'. json_set raw k x = Some raw' \<and> full_report raw' items i"
  using assms by (cases raw) (auto simp: full_report_def get_str_def)

lemma full_report_set_id:
  assumes "full_report raw items i"
  shows "\<exists>raw'. json_set raw ''resultId'' (JString j) = Some raw' \<and> full_report raw' items (Some j)"
  using assms by (cases raw) (auto simp: full_report_def get_str_def)

text \<open>The report of an unchanged Document is the cached full report, with the new identifier.\<close>

lemma unchanged_report_full:
  assumes "full_report raw items i" "result_id = None \<longrightarrow> i = None"
  shows "\<exists>e. unchanged_report uri report result_id raw = Some e \<and> full_report e items result_id"
proof -
  obtain e1 where e1: "(case result_id of None \<Rightarrow> Some raw | Some i \<Rightarrow> json_set raw ''resultId'' (JString i)) = Some e1"
    "full_report e1 items result_id"
    using assms full_report_set_id by (cases result_id) fastforce+
  obtain e2 where e2: "json_set e1 ''uri'' (JString uri) = Some e2" "full_report e2 items result_id"
    using full_report_set [OF e1(2), of "''uri''"] by auto
  show ?thesis
    using e1 e2 full_report_set [OF e2(2), of "''version''"]
    by (cases "json_get report ''version''") (auto simp: unchanged_report_def)
qed

lemma reconstruct_pull_report_spec:
  assumes "cache_ok ser_len c"
  shows "\<exists>r. reconstruct_pull_report c uri report = Some r \<and> dr_uri r = uri \<and> dr_raw_report r = report
    \<and> (dr_complete r \<longrightarrow> full_report (dr_effective_report r) (dr_diagnostics r) (dr_result_id r) \<and> dr_version r = None)"
proof (cases "get_str report ''kind'' = Some ''unchanged''")
  case True
  show ?thesis
  proof (cases "bt_get (dc_snapshots c) (pull_key uri)")
    case None
    with True show ?thesis by (simp add: reconstruct_pull_report_def no_diagnostics_def)
  next
    case (Some s)
    from pull_entry [OF assms Some] have s: "pulled s" "cd_uri s = uri" by auto
    obtain e where "unchanged_report uri report
        (case get_str report ''resultId'' of None \<Rightarrow> cd_result_id s | Some i \<Rightarrow> Some i) (cd_raw_report s) = Some e"
      "full_report e (cd_diagnostics s) (case get_str report ''resultId'' of None \<Rightarrow> cd_result_id s | Some i \<Rightarrow> Some i)"
      using unchanged_report_full [of "cd_raw_report s" "cd_diagnostics s" "cd_result_id s"] s(1)
      by (fastforce simp: pulled_def split: option.splits)
    with True Some s show ?thesis
      by (simp add: reconstruct_pull_report_def Let_def render_def pulled_def)
  qed
next
  case False
  then show ?thesis
    by (auto simp: reconstruct_pull_report_def no_diagnostics_def full_report_def json_index_def
        split: option.splits)
qed

lemma cache_ok_store_pull:
  assumes "cache_ok ser_len c"
    and "dr_complete r \<longrightarrow> full_report (dr_effective_report r) (dr_diagnostics r) (dr_result_id r) \<and> dr_version r = None"
  shows "cache_ok ser_len (store_pull_result ser_len r c)"
proof (cases "dr_complete r")
  case True
  let ?s = "\<lparr>cd_uri = dr_uri r, cd_version = dr_version r, cd_diagnostics = dr_diagnostics r,
         cd_raw_report = dr_effective_report r, cd_result_id = dr_result_id r,
         cd_received_for_version = None, cd_closed = dr_closed r, cd_serialized_bytes = 0, cd_last_used = 0\<rparr>"
  have "pulled ?s" using True assms(2) by (simp add: pulled_def)
  then show ?thesis
    using True cache_store_spec [OF assms(1), of "pull_key (dr_uri r)" ?s] by (simp add: store_pull_result_def)
qed (simp add: store_pull_result_def assms)


text \<open>The facts every caller of the reconstruction uses.\<close>

definition result_ok :: "diagnostic_result \<Rightarrow> bool" where
  "result_ok r \<longleftrightarrow>
     (dr_complete r \<longrightarrow> full_report (dr_effective_report r) (dr_diagnostics r) (dr_result_id r) \<and> dr_version r = None)"

lemma reconstruct_obtains:
  assumes "cache_ok ser_len c"
  obtains r where "reconstruct_pull_report c uri report = Some r" "dr_uri r = uri" "dr_raw_report r = report" "result_ok r"
  using reconstruct_pull_report_spec [OF assms, of uri report] by (auto simp: result_ok_def)

lemma cache_ok_store_pull_fold:
  "cache_ok ser_len c \<Longrightarrow> \<forall>r \<in> set rs. result_ok r \<Longrightarrow> cache_ok ser_len (fold (store_pull_result ser_len) rs c)"
  by (induction rs arbitrary: c) (simp_all add: cache_ok_store_pull result_ok_def)

lemma those_total: "\<forall>x \<in> set xs. \<exists>y. f x = Some y \<and> P y \<Longrightarrow> \<exists>ys. those (map f xs) = Some ys \<and> (\<forall>y \<in> set ys. P y)"
  by (induction xs) auto

lemma full_report_object: "full_report raw items i \<Longrightarrow> \<exists>raw'. json_set raw k x = Some raw'"
  by (cases raw) (auto simp: full_report_def get_str_def)

lemma apply_pull_report_ok:
  assumes "cache_ok ser_len c"
  shows "\<exists>c' r. apply_pull_report ser_len uri report c = Some (c', r) \<and> cache_ok ser_len c'"
  using assms by (rule reconstruct_obtains [of _ _ uri report])
    (simp add: apply_pull_report_def result_ok_def cache_ok_store_pull [OF assms])

lemma apply_document_pull_report_ok:
  assumes ok: "cache_ok ser_len c"
  shows "\<exists>c' r. apply_document_pull_report ser_len uri report c = Some (c', r) \<and> cache_ok ser_len c'"
proof -
  obtain result where result: "reconstruct_pull_report c uri report = Some result" "result_ok result"
    using ok by (rule reconstruct_obtains [of _ _ uri report])
  show ?thesis
  proof (cases "Option.bind (json_get report ''relatedDocuments'') as_object")
    case None
    with result show ?thesis
      by (auto simp: apply_document_pull_report_def ok result_ok_def cache_ok_store_pull)
  next
    case (Some reports)
    have "\<forall>x \<in> set reports. \<exists>r. (\<lambda>(u, r). reconstruct_pull_report c u r) x = Some r \<and> result_ok r"
      by (metis case_prod_conv ok reconstruct_obtains surj_pair)
    then obtain rs where rs: "those (map (\<lambda>(u, r). reconstruct_pull_report c u r) reports) = Some rs"
      "\<forall>r \<in> set rs. result_ok r"
      using those_total by blast
    show ?thesis
    proof (cases "\<not> dr_complete result \<or> (\<exists>r \<in> set rs. \<not> dr_complete r)")
      case True
      with Some rs result show ?thesis by (simp add: apply_document_pull_report_def ok)
    next
      case False
      then have full: "full_report (dr_effective_report result) (dr_diagnostics result) (dr_result_id result)"
        "dr_version result = None"
        using result(2) by (auto simp: result_ok_def)
      obtain e where e: "json_set (dr_effective_report result) ''relatedDocuments''
            (jobj (map (\<lambda>r. (dr_uri r, dr_effective_report r)) rs)) = Some e"
          "full_report e (dr_diagnostics result) (dr_result_id result)"
        using full_report_set [OF full(1), of "''relatedDocuments''"] by auto
      have "cache_ok ser_len (store_pull_result ser_len (result\<lparr>dr_effective_report := e\<rparr>)
              (fold (store_pull_result ser_len) rs c))"
        by (rule cache_ok_store_pull [OF cache_ok_store_pull_fold [OF ok rs(2)]]) (simp add: e full)
      with Some rs result False e show ?thesis by (simp add: apply_document_pull_report_def Let_def)
    qed
  qed
qed

lemma reconstruct_items_ok:
  "cache_ok ser_len c \<Longrightarrow> \<exists>rs. reconstruct_items c items = Some rs \<and> (\<forall>ys. rs = Some ys \<longrightarrow> (\<forall>r \<in> set ys. result_ok r))"
proof (induction items)
  case (Cons item items)
  show ?case
  proof (cases "get_str item ''uri''")
    case (Some uri)
    obtain r where "reconstruct_pull_report c uri item = Some r" "result_ok r"
      using Cons.prems by (rule reconstruct_obtains [of _ _ uri item])
    with Cons Some show ?thesis by auto
  qed simp
qed simp

lemma apply_workspace_pull_report_ok:
  assumes ok: "cache_ok ser_len c"
  shows "\<exists>c' r. apply_workspace_pull_report ser_len report c = Some (c', r) \<and> cache_ok ser_len c'"
proof (cases "Option.bind (json_get report ''items'') as_array")
  case None
  with ok show ?thesis by (simp add: apply_workspace_pull_report_def)
next
  case (Some items)
  then obtain m where m: "report = JObject m" by (cases report) auto
  obtain rs where "reconstruct_items c items = Some rs" "\<forall>ys. rs = Some ys \<longrightarrow> (\<forall>r \<in> set ys. result_ok r)"
    using reconstruct_items_ok [OF ok] by blast
  with Some m ok show ?thesis
    by (cases rs) (simp_all add: apply_workspace_pull_report_def cache_ok_store_pull_fold)
qed

lemma i64_range_as_i64: "Option.bind x as_i64 = Some i \<Longrightarrow> i64_range (Some i)"
proof (cases x)
  case (Some v)
  assume "Option.bind x as_i64 = Some i"
  with Some have v: "as_i64 v = Some i" by simp
  then obtain n where n: "v = JNumber n" "number_i64 n = Some i" by (cases v) auto
  show ?thesis
  proof (cases n)
    case (PosInt w)
    with n have "i = uint w" "unat w < 2 ^ 63" by (auto split: if_splits)
    then show ?thesis using uint_ge_0 [of w] by (simp add: i64_range_def uint_nat del: of_nat_unat)
  next
    case (NegInt w)
    with n have "i = sint w" by simp
    then show ?thesis using sint_range_size [of w] by (simp add: i64_range_def word_size)
  qed (use n in auto)
qed simp

lemma import_record_ok:
  assumes ok: "cache_ok ser_len c"
  shows "\<exists>c'. import_record ser_len rec c = Some c' \<and> cache_ok ser_len c'"
proof (cases "get_str rec ''uri''")
  case None
  with ok show ?thesis by (simp add: import_record_def)
next
  case (Some uri)
  have range: "i64_range (Option.bind x as_i64)" for x
    using i64_range_as_i64 [of x] by (cases "Option.bind x as_i64") (simp_all add: i64_range_def)
  let ?v = "Option.bind (json_get rec ''version'') as_i64"
  let ?w = "case Option.bind (json_get rec ''receivedForVersion'') as_i64 of None \<Rightarrow> ?v | Some v \<Rightarrow> Some v"
  have w: "i64_range ?w"
    using range [of "json_get rec ''receivedForVersion''"] range [of "json_get rec ''version''"]
    by (auto split: option.splits)
  obtain c' r where pull: "apply_pull_report ser_len uri (json_index rec ''rawReport'') c = Some (c', r)" "cache_ok ser_len c'"
    using apply_pull_report_ok [OF ok] by blast
  show ?thesis
    using Some pull ok w range [of "json_get rec ''version''"]
    by (simp add: import_record_def Let_def cache_ok_publish cache_ok_mark_closed)
qed

lemma import_records_ok: "cache_ok ser_len c \<Longrightarrow> \<exists>c'. import_records ser_len recs c = Some c' \<and> cache_ok ser_len c'"
proof (induction recs arbitrary: c)
  case (Cons rec recs)
  obtain c' where "import_record ser_len rec c = Some c'" "cache_ok ser_len c'"
    using import_record_ok [OF Cons.prems] by blast
  with Cons.IH [of c'] show ?case by simp
qed simp


section \<open>Sequences of operations\<close>

text \<open>The requests the owner of a cache makes of it, and a run of them.\<close>

datatype cache_request =
    Publish string "int option" json "int option" bool
  | Published string "int option"
  | ApplyPull string json
  | ApplyDocumentPull string json
  | ApplyWorkspacePull json
  | MarkClosed string
  | InvalidatePullResultIds
  | AllKnown
  | ExportState
  | ImportState json

fun run_cache_request :: "(json \<Rightarrow> nat) \<Rightarrow> cache_request \<Rightarrow> diagnostic_cache \<Rightarrow> diagnostic_cache option" where
  "run_cache_request ser_len (Publish uri v d cv after) c = Some (fst (publish ser_len uri v d cv after c))"
| "run_cache_request ser_len (Published uri cv) c = Some (fst (published uri cv c))"
| "run_cache_request ser_len (ApplyPull uri report) c = map_option fst (apply_pull_report ser_len uri report c)"
| "run_cache_request ser_len (ApplyDocumentPull uri report) c =
     map_option fst (apply_document_pull_report ser_len uri report c)"
| "run_cache_request ser_len (ApplyWorkspacePull report) c =
     map_option fst (apply_workspace_pull_report ser_len report c)"
| "run_cache_request ser_len (MarkClosed uri) c = Some (mark_closed uri c)"
| "run_cache_request ser_len InvalidatePullResultIds c = Some (invalidate_pull_result_ids c)"
| "run_cache_request ser_len AllKnown c = Some (fst (all_known c))"
| "run_cache_request ser_len ExportState c = Some (fst (export_state c))"
| "run_cache_request ser_len (ImportState v) c = import_state ser_len v c"

text \<open>The versions of a publication are \<open>i64\<close>.\<close>

fun request_typed :: "cache_request \<Rightarrow> bool" where
  "request_typed (Publish uri v d cv after) = (i64_range v \<and> i64_range cv)"
| "request_typed _ = True"

fun run_cache_requests :: "(json \<Rightarrow> nat) \<Rightarrow> cache_request list \<Rightarrow> diagnostic_cache \<Rightarrow> diagnostic_cache option" where
  "run_cache_requests ser_len [] c = Some c"
| "run_cache_requests ser_len (r # rs) c =
     Option.bind (run_cache_request ser_len r c) (run_cache_requests ser_len rs)"

lemma run_cache_request_ok:
  assumes ok: "cache_ok ser_len c" and typed: "request_typed r"
  shows "\<exists>c'. run_cache_request ser_len r c = Some c' \<and> cache_ok ser_len c'"
proof (cases r)
  case (ApplyPull uri report)
  then show ?thesis using apply_pull_report_ok [OF ok, of uri report] by auto
next
  case (ApplyDocumentPull uri report)
  then show ?thesis using apply_document_pull_report_ok [OF ok, of uri report] by auto
next
  case (ApplyWorkspacePull report)
  then show ?thesis using apply_workspace_pull_report_ok [OF ok, of report] by auto
next
  case (ImportState v)
  then show ?thesis using import_records_ok [OF ok] ok by (simp add: import_state_def split: option.split)
qed (use ok typed in \<open>simp_all add: cache_ok_publish cache_ok_published cache_ok_mark_closed
      cache_ok_invalidate cache_ok_touch all_known_def export_state_def\<close>)

lemma run_cache_requests_ok:
  "cache_ok ser_len c \<Longrightarrow> \<forall>r \<in> set rs. request_typed r \<Longrightarrow>
     \<exists>c'. run_cache_requests ser_len rs c = Some c' \<and> cache_ok ser_len c'"
proof (induction rs arbitrary: c)
  case (Cons r rs)
  obtain c' where "run_cache_request ser_len r c = Some c'" "cache_ok ser_len c'"
    using run_cache_request_ok [OF Cons.prems(1), of r] Cons.prems(2) by auto
  with Cons.IH [of c'] Cons.prems show ?case by simp
qed simp

section \<open>Export and import\<close>

text \<open>What a snapshot holds, apart from its accounting.\<close>

definition content :: "cached_diagnostics \<Rightarrow> string \<times> int option \<times> json \<times> json \<times> string option \<times> bool" where
  "content s = (cd_uri s, cd_version s, cd_diagnostics s, cd_raw_report s, cd_result_id s, cd_closed s)"

definition cache_contents :: "diagnostic_cache \<Rightarrow> string \<Rightarrow> (string \<times> int option \<times> json \<times> json \<times> string option \<times> bool) option" where
  "cache_contents c = (\<lambda>k. map_option content (bt_get (dc_snapshots c) k))"

lemma as_i64_jint: "i64_range (Some i) \<Longrightarrow> as_i64 (jint i) = Some i"
proof -
  assume r: "i64_range (Some i)"
  show ?thesis
  proof (cases "i < 0")
    case True
    have "(i + 2 ^ 63) mod 2 ^ 64 = i + 2 ^ 63"
      using r True by (intro mod_pos_pos_trivial) (auto simp: i64_range_def)
    then have "sint (word_of_int i :: 64 word) = i" by (simp add: int_word_sint)
    with True show ?thesis by (simp add: jint_def)
  next
    case False
    have "i mod 2 ^ 64 = i"
      using r False by (intro mod_pos_pos_trivial) (auto simp: i64_range_def)
    then have u: "uint (word_of_int i :: 64 word) = i" by (simp add: uint_word_of_int_eq take_bit_eq_mod)
    moreover have "unat (word_of_int i :: 64 word) < 2 ^ 63"
      using u r False unfolding unat_eq_nat_uint by (simp add: i64_range_def nat_less_iff)
    ultimately have "uint (word_of_int i :: 64 word) = i" "unat (word_of_int i :: 64 word) < 2 ^ 63" by auto
    with False show ?thesis by (simp add: jint_def)
  qed
qed

lemma as_i64_jopt: "i64_range v \<Longrightarrow> as_i64 (jopt jint v) = v"
  by (cases v) (simp_all add: jopt_def as_i64_jint)

text \<open>The fields of an exported record.\<close>

lemma export_record_get:
  "json_get (export_record key s) ''kind'' = Some (JString (if prefix push_prefix key then ''push'' else ''pull''))"
  "json_get (export_record key s) ''uri'' = Some (JString (cd_uri s))"
  "json_get (export_record key s) ''version'' = Some (jopt jint (cd_version s))"
  "json_get (export_record key s) ''diagnostics'' = Some (cd_diagnostics s)"
  "json_get (export_record key s) ''rawReport'' = Some (cd_raw_report s)"
  "json_get (export_record key s) ''receivedForVersion'' = Some (jopt jint (cd_received_for_version s))"
  "json_get (export_record key s) ''closed'' = Some (JBool (cd_closed s))"
  by (simp_all add: export_record_def jobj_def bt_of_list_def)


text \<open>A store that needs no eviction.\<close>

lemma cache_store_fits:
  assumes "bt_get (dc_snapshots c) key = None" "dc_total_bytes c + ser_len (cd_raw_report s) \<le> dc_max_total_bytes c"
    and "length (dc_snapshots c) < dc_max_snapshots c" "dc_max_total_bytes c \<le> u64_max" "bt_ok (dc_snapshots c)"
  shows "snd (cache_store ser_len key s c)"
    "cache_contents (fst (cache_store ser_len key s c)) = (cache_contents c)(key \<mapsto> content s)"
    "dc_max_total_bytes (fst (cache_store ser_len key s c)) = dc_max_total_bytes c"
    "dc_max_snapshots (fst (cache_store ser_len key s c)) = dc_max_snapshots c"
proof -
  define c1 where "c1 = c\<lparr>dc_clock := sat_add (dc_clock c) 1,
      dc_total_bytes := sat_add (dc_total_bytes c) (ser_len (cd_raw_report s)),
      dc_snapshots := bt_insert key (s\<lparr>cd_serialized_bytes := ser_len (cd_raw_report s),
          cd_last_used := sat_add (dc_clock c) 1\<rparr>) (dc_snapshots c)\<rparr>"
  have "\<not> cache_over_limits c1"
    using assms bt.length_put_fresh [OF assms(5,1)]
    by (simp add: c1_def cache_over_limits_def)
  then have "shrink c1 = c1" by (simp add: shrink.simps [of c1])
  moreover have "forget key (c\<lparr>dc_clock := sat_add (dc_clock c) 1\<rparr>) = c\<lparr>dc_clock := sat_add (dc_clock c) 1\<rparr>"
    using assms(1) by (simp add: forget_def)
  moreover have "c\<lparr>dc_clock := sat_add (dc_clock c) 1\<rparr>\<lparr>dc_total_bytes := sat_add (dc_total_bytes c) (ser_len (cd_raw_report s)),
      dc_snapshots := bt_insert key (s\<lparr>cd_serialized_bytes := ser_len (cd_raw_report s),
          cd_last_used := sat_add (dc_clock c) 1\<rparr>) (dc_snapshots c)\<rparr> = c1"
    by (simp add: c1_def)
  ultimately have "cache_store ser_len key s c = (c1, True)"
    using assms unfolding cache_store_def Let_def by (simp add: c1_def)
  then show "snd (cache_store ser_len key s c)"
    "cache_contents (fst (cache_store ser_len key s c)) = (cache_contents c)(key \<mapsto> content s)"
    "dc_max_total_bytes (fst (cache_store ser_len key s c)) = dc_max_total_bytes c"
    "dc_max_snapshots (fst (cache_store ser_len key s c)) = dc_max_snapshots c"
    by (auto simp: c1_def cache_contents_def content_def)
qed

lemma published_frame:
  "cache_contents (fst (published uri v c)) = cache_contents c"
  "dc_max_total_bytes (fst (published uri v c)) = dc_max_total_bytes c"
  "dc_max_snapshots (fst (published uri v c)) = dc_max_snapshots c"
  by (auto simp: published_def Let_def cache_contents_def content_def split: option.splits)

definition closing :: "string \<times> int option \<times> json \<times> json \<times> string option \<times> bool
     \<Rightarrow> string \<times> int option \<times> json \<times> json \<times> string option \<times> bool" where
  "closing x = (case x of (u, v, d, r, i, _) \<Rightarrow> (u, v, d, r, i, True))"

lemma mark_closed_frame:
  "cache_contents (mark_closed uri c) =
     (\<lambda>k. if k = push_key uri \<or> k = pull_key uri then map_option closing (cache_contents c k) else cache_contents c k)"
  "dc_max_total_bytes (mark_closed uri c) = dc_max_total_bytes c"
  "dc_max_snapshots (mark_closed uri c) = dc_max_snapshots c"
  by (auto simp: mark_closed_def mark_closed_key_def cache_contents_def content_def closing_def split: option.splits)

lemma closing_closing: "closing (closing x) = closing x"
  by (simp add: closing_def split: prod.splits)

text \<open>
  What import makes of a list of exported snapshots: their contents, except that a closed push
  snapshot also closes the pull snapshot of its Document.
\<close>

definition restored ::
  "(string \<times> cached_diagnostics) list \<Rightarrow> string \<Rightarrow> (string \<times> int option \<times> json \<times> json \<times> string option \<times> bool) option" where
  "restored es k = (case map_of es k of
      None \<Rightarrow> None
    | Some s \<Rightarrow> Some (if \<exists>p. map_of es (push_key (cd_uri s)) = Some p \<and> cd_closed p then closing (content s) else content s))"

lemma same_weight:
  assumes "bt_ok (dc_snapshots c)" "bt_ok es" "cache_contents c = restored es"
  shows "length (dc_snapshots c) = length es"
    "sum_list (map (\<lambda>e. ser_len (cd_raw_report (snd e))) (dc_snapshots c))
       = sum_list (map (\<lambda>e. ser_len (cd_raw_report (snd e))) es)"
proof -
  let ?f = "map (\<lambda>(k, s). (k, cd_raw_report s))"
  have get: "map_of (?f m) = (\<lambda>k. map_option cd_raw_report (map_of m k))" for m :: "(string \<times> cached_diagnostics) list"
    by (simp add: map_of_map comp_def)
  have raw: "map_option cd_raw_report (map_of (dc_snapshots c) k) = map_option cd_raw_report (map_of es k)" for k
    using fun_cong [OF assms(3), of k]
    by (cases "map_of (dc_snapshots c) k"; cases "map_of es k")
      (auto simp: cache_contents_def restored_def content_def closing_def split: if_splits)
  have keys: "map fst (?f m) = map fst m" for m :: "(string \<times> cached_diagnostics) list"
    by (simp add: comp_def case_prod_beta)
  have okf: "bt_ok (?f m)" if "bt_ok m" for m :: "(string \<times> cached_diagnostics) list"
    using that unfolding bt_ok_def keys .
  have "?f (dc_snapshots c) = ?f es"
    by (rule bt_ext) (use okf [OF assms(1)] okf [OF assms(2)] raw in \<open>simp_all add: get fun_eq_iff\<close>)
  then have "length (?f (dc_snapshots c)) = length (?f es)"
    "sum_list (map (\<lambda>e. ser_len (snd e)) (?f (dc_snapshots c))) = sum_list (map (\<lambda>e. ser_len (snd e)) (?f es))"
    by simp_all
  then show "length (dc_snapshots c) = length es"
    "sum_list (map (\<lambda>e. ser_len (cd_raw_report (snd e))) (dc_snapshots c))
       = sum_list (map (\<lambda>e. ser_len (cd_raw_report (snd e))) es)"
    by (simp_all add: comp_def case_prod_beta)
qed

lemma cache_total_weight:
  assumes "cache_ok ser_len c"
  shows "dc_total_bytes c = sum_list (map (\<lambda>e. ser_len (cd_raw_report (snd e))) (dc_snapshots c))"
proof -
  have "map cache_bytes (dc_snapshots c) = map (\<lambda>e. ser_len (cd_raw_report (snd e))) (dc_snapshots c)"
    using assms by (auto simp: cache_ok_def cache_accounts_def entry_ok_def cache_bytes_def)
  with assms show ?thesis by (simp add: cache_ok_def cache_accounts_def)
qed

text \<open>Importing one exported record into a cache with room for it.\<close>

lemma import_record_fits:
  assumes ok: "cache_ok ser_len c" and e: "entry_ok ser_len n (k, s)" and new: "bt_get (dc_snapshots c) k = None"
    and room: "dc_total_bytes c + ser_len (cd_raw_report s) \<le> dc_max_total_bytes c"
      "length (dc_snapshots c) < dc_max_snapshots c"
  shows "\<exists>c'. import_record ser_len (export_record k s) c = Some c'
    \<and> dc_max_total_bytes c' = dc_max_total_bytes c \<and> dc_max_snapshots c' = dc_max_snapshots c
    \<and> cache_contents c' =
        (if cd_closed s
         then (\<lambda>x. if x = push_key (cd_uri s) \<or> x = pull_key (cd_uri s)
                   then map_option closing (((cache_contents c)(k \<mapsto> content s)) x)
                   else ((cache_contents c)(k \<mapsto> content s)) x)
         else (cache_contents c)(k \<mapsto> content s))"
proof -
  have okm: "bt_ok (dc_snapshots c)" "dc_max_total_bytes c \<le> u64_max"
    using ok by (auto simp: cache_ok_def cache_accounts_def)
  note got = export_record_get [of k s]
  have finish: ?thesis
    if c1: "import_record ser_len (export_record k s) c
        = Some (if cd_closed s then mark_closed (cd_uri s) c1 else c1)"
      "dc_max_total_bytes c1 = dc_max_total_bytes c" "dc_max_snapshots c1 = dc_max_snapshots c"
      "cache_contents c1 = (cache_contents c)(k \<mapsto> b)" "closing b = closing (content s)" "\<not> cd_closed s \<Longrightarrow> b = content s"
      "k = push_key (cd_uri s) \<or> k = pull_key (cd_uri s)" for c1 b
    using c1 by (cases "cd_closed s") (auto simp: mark_closed_frame fun_eq_iff)
  consider (push) "k = push_key (cd_uri s)" "pushed s" | (pull) "k = pull_key (cd_uri s)" "pulled s"
    using e by (auto simp: entry_ok_def)
  then show ?thesis
  proof cases
    case push
    define cv where "cv = (case cd_received_for_version s of None \<Rightarrow> cd_version s | Some v \<Rightarrow> Some v)"
    let ?s = "\<lparr>cd_uri = cd_uri s, cd_version = cd_version s, cd_diagnostics = cd_diagnostics s,
       cd_raw_report = push_report (cd_uri s) (cd_version s) (cd_diagnostics s), cd_result_id = None,
       cd_received_for_version = (if cv \<noteq> None then cv else None),
       cd_closed = False, cd_serialized_bytes = 0, cd_last_used = 0\<rparr>"
    have raw: "cd_raw_report ?s = cd_raw_report s" using push by (simp add: pushed_def)
    note st = cache_store_fits [where s = ?s and key = k and c = c and ser_len = ser_len, unfolded raw, OF new room okm(2,1)]
    let ?c1 = "fst (published (cd_uri s) cv (fst (cache_store ser_len k ?s c)))"
    have vs: "Option.bind (json_get (export_record k s) ''version'') as_i64 = cd_version s"
      "Option.bind (json_get (export_record k s) ''receivedForVersion'') as_i64 = cd_received_for_version s"
      using push(2) unfolding got by (simp_all add: pushed_def as_i64_jopt)
    have strs: "get_str (export_record k s) ''uri'' = Some (cd_uri s)"
      "get_str (export_record k s) ''kind'' = Some ''push''"
      using push(1) by (simp_all add: get_str_def export_record_get push_key_def)
    have pub: "fst (publish ser_len (cd_uri s) (cd_version s) (cd_diagnostics s) cv (cv \<noteq> None) c) = ?c1"
      using st(1) push(1) by (simp add: publish_def Let_def case_prod_beta)
    have "import_record ser_len (export_record k s) c
        = Some (if cd_closed s then mark_closed (cd_uri s) ?c1 else ?c1)"
      using pub unfolding import_record_def Let_def vs cv_def [symmetric] by (simp add: got strs)
    then show ?thesis
      by (rule finish [where b = "content ?s"])
        (use push st in \<open>auto simp: published_frame content_def closing_def pushed_def\<close>)
  next
    case pull
    then have full: "full_report (cd_raw_report s) (cd_diagnostics s) (cd_result_id s)" "cd_version s = None"
      by (auto simp: pulled_def)
    let ?r = "\<lparr>dr_uri = cd_uri s, dr_diagnostics = cd_diagnostics s, dr_raw_report = cd_raw_report s,
        dr_effective_report = cd_raw_report s, dr_result_id = cd_result_id s, dr_version = None,
        dr_fresh = True, dr_complete = True, dr_closed = False\<rparr>"
    let ?s = "\<lparr>cd_uri = cd_uri s, cd_version = None, cd_diagnostics = cd_diagnostics s,
         cd_raw_report = cd_raw_report s, cd_result_id = cd_result_id s,
         cd_received_for_version = None, cd_closed = False, cd_serialized_bytes = 0, cd_last_used = 0\<rparr>"
    have "reconstruct_pull_report c (cd_uri s) (cd_raw_report s) = Some ?r"
      using full by (auto simp: reconstruct_pull_report_def full_report_def json_index_def)
    then have kind: "apply_pull_report ser_len (cd_uri s) (cd_raw_report s) c
        = Some (fst (cache_store ser_len k ?s c), ?r)"
      using pull(1) by (simp add: apply_pull_report_def store_pull_result_def)
    have strs: "get_str (export_record k s) ''uri'' = Some (cd_uri s)"
      "get_str (export_record k s) ''kind'' = Some ''pull''"
      using pull(1) by (simp_all add: get_str_def export_record_get pull_key_def)
    have "import_record ser_len (export_record k s) c
        = Some (if cd_closed s then mark_closed (cd_uri s) (fst (cache_store ser_len k ?s c))
                else fst (cache_store ser_len k ?s c))"
      using kind unfolding import_record_def by (simp add: strs got json_index_def)
    moreover have raw: "cd_raw_report ?s = cd_raw_report s" by simp
    note st = cache_store_fits [where s = ?s and key = k and c = c and ser_len = ser_len, unfolded raw, OF new room okm(2,1)]
    ultimately show ?thesis
      by (elim finish [where b = "content ?s"]) (use pull full st in \<open>auto simp: content_def closing_def\<close>)
  qed
qed


lemma import_records_restores:
  assumes "bt_ok (pre @ suf)" "\<forall>e \<in> set (pre @ suf). entry_ok ser_len n e" "cache_ok ser_len c"
    and "cache_contents c = restored pre"
    and "sum_list (map (\<lambda>e. ser_len (cd_raw_report (snd e))) (pre @ suf)) \<le> dc_max_total_bytes c"
    and "length (pre @ suf) \<le> dc_max_snapshots c"
  shows "\<exists>c'. import_records ser_len (map (\<lambda>(k, s). export_record k s) suf) c = Some c'
    \<and> cache_contents c' = restored (pre @ suf)"
  using assms
proof (induction suf arbitrary: pre c)
  case Nil
  then show ?case by simp
next
  case (Cons e suf)
  obtain k s where e: "e = (k, s)" by (cases e)
  have sorted: "\<forall>x \<in> set pre. fst x < k" and okpre: "bt_ok pre" and okapp: "bt_ok (pre @ [e])"
    using Cons.prems(1) e by (auto simp: bt_ok_def sorted_wrt_append)
  have entry: "entry_ok ser_len n (k, s)" using Cons.prems(2) e by simp
  have new: "map_of pre k = None" using sorted by (force simp: map_of_eq_None_iff)
  then have new': "bt_get (dc_snapshots c) k = None"
    using fun_cong [OF Cons.prems(4), of k] by (simp add: cache_contents_def restored_def)
  have okc: "bt_ok (dc_snapshots c)" using Cons.prems(3) by (simp add: cache_ok_def cache_accounts_def)
  note weight = same_weight [OF okc okpre Cons.prems(4)]
  have "dc_total_bytes c + ser_len (cd_raw_report s) \<le> dc_max_total_bytes c"
    "length (dc_snapshots c) < dc_max_snapshots c"
    using Cons.prems(5,6) e by (simp_all add: cache_total_weight [OF Cons.prems(3)] weight)
  from import_record_fits [OF Cons.prems(3) entry new' this]
  obtain c1 where c1: "import_record ser_len (export_record k s) c = Some c1"
    "dc_max_total_bytes c1 = dc_max_total_bytes c" "dc_max_snapshots c1 = dc_max_snapshots c"
    "cache_contents c1 =
        (if cd_closed s
         then (\<lambda>x. if x = push_key (cd_uri s) \<or> x = pull_key (cd_uri s)
                   then map_option closing (((cache_contents c)(k \<mapsto> content s)) x)
                   else ((cache_contents c)(k \<mapsto> content s)) x)
         else (cache_contents c)(k \<mapsto> content s))"
    by blast
  have ok1: "cache_ok ser_len c1" using import_record_ok [OF Cons.prems(3), of "export_record k s"] c1(1) by auto
  have later: "map_of pre (push_key (cd_uri s)) = None" if "k = pull_key (cd_uri s)"
    using sorted that by (force simp: map_of_eq_None_iff push_key_def pull_key_def)
  have keys: "x = push_key (cd_uri t) \<or> x = pull_key (cd_uri t)" if "map_of pre x = Some t" for x t
    using Cons.prems(2) [rule_format, of "(x, t)"] map_of_SomeD [OF that] by (auto simp: entry_ok_def)
  have app: "map_of (pre @ [e]) = (map_of pre)(k \<mapsto> s)"
    using new e by (auto simp: map_add_def fun_eq_iff split: option.splits)
  have kkey: "k = push_key (cd_uri s) \<or> k = pull_key (cd_uri s)" using entry by (auto simp: entry_ok_def)
  have closes: "closing (content s) = content s" if "cd_closed s"
    using that by (simp add: closing_def content_def)
  have "cache_contents c1 x = restored (pre @ [e]) x" for x
  proof (cases "x = k")
    case True
    then show ?thesis
      using kkey later closes unfolding c1(4) restored_def app by auto
  next
    case False
    show ?thesis
    proof (cases "map_of pre x")
      case None
      then show ?thesis
        using False unfolding c1(4) Cons.prems(4) restored_def app by auto
    next
      case (Some t)
      then show ?thesis
        using False keys [OF Some] kkey later new unfolding c1(4) Cons.prems(4) restored_def app
        by (cases "cd_uri t = cd_uri s") (auto simp: closing_closing)
    qed
  qed
  then have "cache_contents c1 = restored (pre @ [e])" by (rule ext)
  then have "\<exists>c'. import_records ser_len (map (\<lambda>(k, s). export_record k s) suf) c1 = Some c'
    \<and> cache_contents c' = restored ((pre @ [e]) @ suf)"
    by (intro Cons.IH) (use Cons.prems ok1 c1 in simp_all)
  then show ?case using c1(1) e by simp
qed


section \<open>Properties\<close>

text \<open>
  C33. Bounds under every history: from a new cache, any sequence of requests (publications,
  pull, document and workspace reports, closing, invalidation, listing, export, import of any
  value) runs without a panic and leaves at most \<open>max_snapshots\<close> snapshots of at most
  \<open>max_total_bytes\<close> serialized bytes together, and \<open>total_bytes\<close> is exactly their sum.
\<close>

theorem cache_requests_keep_bounds:
  assumes "2 * max_bytes \<le> u64_max" "\<forall>r \<in> set requests. request_typed r"
  shows "\<exists>c. run_cache_requests ser_len requests (new_diagnostic_cache max_snapshots max_bytes) = Some c
    \<and> dc_total_bytes c = sum_list (map (\<lambda>e. ser_len (cd_raw_report (snd e))) (dc_snapshots c))
    \<and> length (dc_snapshots c) \<le> dc_max_snapshots c \<and> dc_total_bytes c \<le> dc_max_total_bytes c"
  using run_cache_requests_ok [OF cache_ok_new [OF assms(1)] assms(2), of ser_len max_snapshots]
    cache_total_weight
  by (fastforce simp: cache_ok_def cache_over_limits_def)

text \<open>
  C35. A full pull report that fits is remembered: when the server later answers \<open>unchanged\<close>
  for the same Document, the result is complete, has the items of the full report, carries the
  new result identifier both as a field and in the effective report, and keeps the wire payload.
\<close>

theorem unchanged_resolves_to_cached_items:
  assumes "cache_ok ser_len c" "dc_clock c < u64_max" "0 < dc_max_snapshots c"
    and "ser_len full \<le> dc_max_total_bytes c"
    and "get_str full ''kind'' = Some ''full''" "json_get full ''items'' = Some (JArray items)"
    and "get_str unchanged ''kind'' = Some ''unchanged''" "get_str unchanged ''resultId'' = Some new_id"
  shows "\<exists>c1 r1 c2 r2. apply_pull_report ser_len uri full c = Some (c1, r1)
    \<and> apply_pull_report ser_len uri unchanged c1 = Some (c2, r2)
    \<and> dr_complete r2 \<and> dr_diagnostics r2 = JArray items \<and> dr_result_id r2 = Some new_id
    \<and> json_get (dr_effective_report r2) ''items'' = Some (JArray items)
    \<and> get_str (dr_effective_report r2) ''resultId'' = Some new_id
    \<and> get_str (dr_effective_report r2) ''kind'' = Some ''full'' \<and> dr_raw_report r2 = unchanged"
proof -
  let ?r = "\<lparr>dr_uri = uri, dr_diagnostics = JArray items, dr_raw_report = full,
        dr_effective_report = full, dr_result_id = get_str full ''resultId'', dr_version = None,
        dr_fresh = True, dr_complete = True, dr_closed = False\<rparr>"
  let ?s = "\<lparr>cd_uri = uri, cd_version = None, cd_diagnostics = JArray items, cd_raw_report = full,
        cd_result_id = get_str full ''resultId'', cd_received_for_version = None, cd_closed = False,
        cd_serialized_bytes = 0, cd_last_used = 0\<rparr>"
  let ?c1 = "fst (cache_store ser_len (pull_key uri) ?s c)"
  have r1: "apply_pull_report ser_len uri full c = Some (?c1, ?r)"
    using assms(5,6) by (simp add: apply_pull_report_def reconstruct_pull_report_def store_pull_result_def json_index_def)
  have full: "full_report full (JArray items) (get_str full ''resultId'')"
    using assms(5,6) by (simp add: full_report_def)
  then have "pulled ?s" by (simp add: pulled_def)
  then obtain s where s: "bt_get (dc_snapshots ?c1) (pull_key uri) = Some s"
      "cd_raw_report s = full" "cd_diagnostics s = JArray items"
    using cache_store_spec [OF assms(1), of "pull_key uri" ?s] assms(2-4) by auto
  obtain e where e: "unchanged_report uri unchanged (Some new_id) full = Some e" "full_report e (JArray items) (Some new_id)"
    using unchanged_report_full [OF full, of "Some new_id"] by auto
  have "reconstruct_pull_report ?c1 uri unchanged = Some ((render s True True)\<lparr>dr_result_id := Some new_id,
      dr_effective_report := e, dr_raw_report := unchanged\<rparr>)"
    using assms(7,8) s e(1) by (simp add: reconstruct_pull_report_def Let_def)
  with r1 e(2) s show ?thesis
    by (simp add: apply_pull_report_def render_def full_report_def)
qed

text \<open>
  C36. A publication that fits survives its own store, whatever had to be evicted, and answers
  the current version: the result is the published diagnostics, complete, and fresh.
\<close>

theorem publication_survives_eviction:
  assumes "cache_ok ser_len c" "dc_clock c < u64_max" "0 < dc_max_snapshots c"
    and "ser_len (push_report uri (Some v) diagnostics) \<le> dc_max_total_bytes c"
    and "i64_range (Some v)"
  shows "cache_contents (fst (publish ser_len uri (Some v) diagnostics (Some v) after c)) (push_key uri)
      = Some (uri, Some v, diagnostics, push_report uri (Some v) diagnostics, None, False)
    \<and> dr_diagnostics (snd (publish ser_len uri (Some v) diagnostics (Some v) after c)) = diagnostics
    \<and> dr_complete (snd (publish ser_len uri (Some v) diagnostics (Some v) after c))
    \<and> dr_fresh (snd (publish ser_len uri (Some v) diagnostics (Some v) after c))"
proof -
  let ?s = "\<lparr>cd_uri = uri, cd_version = Some v, cd_diagnostics = diagnostics,
     cd_raw_report = push_report uri (Some v) diagnostics, cd_result_id = None,
     cd_received_for_version = (if after then Some v else None),
     cd_closed = False, cd_serialized_bytes = 0, cd_last_used = 0\<rparr>"
  have "pushed ?s" using assms(5) by (simp add: pushed_def i64_range_def)
  then have st: "snd (cache_store ser_len (push_key uri) ?s c)"
    "bt_get (dc_snapshots (fst (cache_store ser_len (push_key uri) ?s c))) (push_key uri)
       = Some (?s\<lparr>cd_serialized_bytes := ser_len (cd_raw_report ?s), cd_last_used := sat_add (dc_clock c) 1\<rparr>)"
    using cache_store_spec [OF assms(1), of "push_key uri" ?s] assms(2-4) by auto
  have run: "publish ser_len uri (Some v) diagnostics (Some v) after c
      = published uri (Some v) (fst (cache_store ser_len (push_key uri) ?s c))"
    using st(1) by (simp add: publish_def Let_def case_prod_beta)
  show ?thesis
    unfolding run using st(2)
    by (simp add: published_def Let_def render_def published_frame cache_contents_def content_def)
qed

text \<open>
  C34. Export and import round-trip: a cache exported by the owner and imported into a new cache
  of the same or larger limits has every snapshot again with its URI, version, diagnostics,
  report and result identifier, and nothing else. A closed push snapshot also closes the pull
  snapshot of the same Document, because import closes by URI.
\<close>

theorem export_import_restores:
  assumes "cache_ok ser_len c" "dc_max_snapshots c \<le> n" "dc_max_total_bytes c \<le> b" "2 * b \<le> u64_max"
  shows "\<exists>c'. import_state ser_len (snd (export_state c)) (new_diagnostic_cache n b) = Some c'
    \<and> (\<forall>key. cache_contents c' key =
        (case bt_get (dc_snapshots c) key of
           None \<Rightarrow> None
         | Some s \<Rightarrow> Some (cd_uri s, cd_version s, cd_diagnostics s, cd_raw_report s, cd_result_id s,
             cd_closed s \<or> (\<exists>p. bt_get (dc_snapshots c) (push_key (cd_uri s)) = Some p \<and> cd_closed p))))"
proof -
  let ?new = "new_diagnostic_cache n b"
  have "cache_contents ?new = restored []"
    by (auto simp: cache_contents_def restored_def new_diagnostic_cache_def)
  moreover have "dc_total_bytes c \<le> b" "length (dc_snapshots c) \<le> n"
    using assms by (auto simp: cache_ok_def cache_over_limits_def)
  ultimately have "\<exists>c'. import_records ser_len (map (\<lambda>(k, s). export_record k s) (dc_snapshots c)) ?new = Some c'
    \<and> cache_contents c' = restored ([] @ dc_snapshots c)"
    by (intro import_records_restores [where n = "dc_clock c"])
      (use assms cache_ok_new [OF assms(4)] in \<open>auto simp: cache_ok_def cache_accounts_def
          cache_total_weight [OF assms(1), symmetric] new_diagnostic_cache_def\<close>)
  then show ?thesis
    by (auto simp: import_state_def export_state_def restored_def content_def closing_def split: option.splits)
qed

section \<open>Witnesses\<close>

definition sample_len :: "json \<Rightarrow> nat" where
  "sample_len v = (case v of JObject m \<Rightarrow> 20 * length m | _ \<Rightarrow> 4)"

definition sample_requests :: "cache_request list" where
  "sample_requests =
     [Publish ''file:///a'' (Some 2) (JArray [JString ''x'']) (Some 2) True,
      ApplyPull ''file:///b'' (jobj [(''kind'', JString ''full''), (''resultId'', JString ''one''), (''items'', JArray [])]),
      ApplyPull ''file:///b'' (jobj [(''kind'', JString ''unchanged''), (''resultId'', JString ''two'')]),
      MarkClosed ''file:///a'']"

definition sample_cache :: diagnostic_cache where
  "sample_cache = the (run_cache_requests sample_len sample_requests (new_diagnostic_cache 4 1000))"

lemma sample_typed: "\<forall>r \<in> set sample_requests. request_typed r"
  by (simp add: sample_requests_def i64_range_def)

lemma sample_limit: "2 * (1000 :: nat) \<le> u64_max"
  by code_simp

lemma sample_cache_ok: "cache_ok sample_len sample_cache"
  using run_cache_requests_ok [OF cache_ok_new [OF sample_limit] sample_typed, of sample_len 4]
  by (auto simp: sample_cache_def)

theorem cache_requests_keep_bounds_witness:
  "\<exists>c. run_cache_requests sample_len sample_requests (new_diagnostic_cache 4 1000) = Some c
    \<and> dc_total_bytes c = sum_list (map (\<lambda>e. sample_len (cd_raw_report (snd e))) (dc_snapshots c))
    \<and> length (dc_snapshots c) \<le> dc_max_snapshots c \<and> dc_total_bytes c \<le> dc_max_total_bytes c"
  by (rule cache_requests_keep_bounds [OF sample_limit sample_typed])

definition sample_full :: json where
  "sample_full = jobj [(''kind'', JString ''full''), (''items'', JArray [JString ''w''])]"

definition sample_unchanged :: json where
  "sample_unchanged = jobj [(''kind'', JString ''unchanged''), (''resultId'', JString ''three'')]"

lemma sample_room: "dc_clock sample_cache < u64_max" "0 < dc_max_snapshots sample_cache"
  by code_simp+

theorem unchanged_resolves_to_cached_items_witness:
  "\<exists>c1 r1 c2 r2. apply_pull_report sample_len ''file:///c'' sample_full sample_cache = Some (c1, r1)
    \<and> apply_pull_report sample_len ''file:///c'' sample_unchanged c1 = Some (c2, r2)
    \<and> dr_diagnostics r2 = JArray [JString ''w''] \<and> dr_result_id r2 = Some ''three''"
proof -
  have "sample_len sample_full \<le> dc_max_total_bytes sample_cache"
    "get_str sample_full ''kind'' = Some ''full''" "json_get sample_full ''items'' = Some (JArray [JString ''w''])"
    "get_str sample_unchanged ''kind'' = Some ''unchanged''" "get_str sample_unchanged ''resultId'' = Some ''three''"
    by code_simp+
  from unchanged_resolves_to_cached_items [OF sample_cache_ok sample_room this, of "''file:///c''"]
  show ?thesis by blast
qed

theorem publication_survives_eviction_witness:
  "dr_fresh (snd (publish sample_len ''file:///a'' (Some 3) (JArray []) (Some 3) True sample_cache))"
proof -
  have "sample_len (push_report ''file:///a'' (Some 3) (JArray [])) \<le> dc_max_total_bytes sample_cache"
    "i64_range (Some 3)"
    by code_simp+
  from publication_survives_eviction [OF sample_cache_ok sample_room this, of True]
  show ?thesis by blast
qed

theorem export_import_restores_witness:
  "\<exists>c'. import_state sample_len (snd (export_state sample_cache)) (new_diagnostic_cache 4 1000) = Some c'
    \<and> cache_contents c' (pull_key ''file:///b'') = cache_contents sample_cache (pull_key ''file:///b'')"
proof -
  have limits: "dc_max_snapshots sample_cache \<le> 4" "dc_max_total_bytes sample_cache \<le> 1000" by code_simp+
  have open_b: "bt_get (dc_snapshots sample_cache) (push_key ''file:///b'') = None" by code_simp
  obtain s where b: "bt_get (dc_snapshots sample_cache) (pull_key ''file:///b'') = Some s"
  proof -
    have "bt_get (dc_snapshots sample_cache) (pull_key ''file:///b'') \<noteq> None" by code_simp
    then show ?thesis using that by auto
  qed
  have "cd_uri s = ''file:///b''" using pull_entry [OF sample_cache_ok b] by simp
  moreover obtain c' where c': "import_state sample_len (snd (export_state sample_cache)) (new_diagnostic_cache 4 1000) = Some c'"
    "\<forall>key. cache_contents c' key = (case bt_get (dc_snapshots sample_cache) key of
           None \<Rightarrow> None
         | Some s \<Rightarrow> Some (cd_uri s, cd_version s, cd_diagnostics s, cd_raw_report s, cd_result_id s,
             cd_closed s \<or> (\<exists>p. bt_get (dc_snapshots sample_cache) (push_key (cd_uri s)) = Some p \<and> cd_closed p)))"
    using export_import_restores [OF sample_cache_ok limits sample_limit] by blast
  moreover have "cache_contents sample_cache (pull_key ''file:///b'') = Some (content s)"
    using b by (simp add: cache_contents_def)
  ultimately show ?thesis
    using c'(2) [rule_format, of "pull_key ''file:///b''"] b open_b by (simp add: content_def)
qed

end
