(* ===== verification/Ascii_Text.thy ===== *)
theory Ascii_Text
  imports Prelude
begin

text \<open>
  What the components use of \<open>str\<close> on ASCII text: splitting, trimming, comparison without case,
  and decimal numbers.
\<close>

section \<open>Splitting\<close>

text \<open>\<open>split_once\<close>, \<open>split\<close> on one byte, \<open>strip_prefix\<close>, \<open>strip_suffix\<close>.\<close>

fun split_once :: "string \<Rightarrow> string \<Rightarrow> (string \<times> string) option" where
  "split_once sep [] = (if sep = [] then Some ([], []) else None)"
| "split_once sep (c # s) =
     (if prefix sep (c # s) then Some ([], drop (length sep) (c # s))
      else map_option (\<lambda>(a, b). (c # a, b)) (split_once sep s))"

fun split_on :: "char \<Rightarrow> string \<Rightarrow> string list" where
  "split_on sep [] = [[]]"
| "split_on sep (c # s) =
     (if c = sep then [] # split_on sep s
      else case split_on sep s of [] \<Rightarrow> [[c]] | piece # pieces \<Rightarrow> (c # piece) # pieces)"

definition strip_prefix :: "string \<Rightarrow> string \<Rightarrow> string option" where
  "strip_prefix s p = (if take (length p) s = p then Some (drop (length p) s) else None)"

definition strip_suffix :: "string \<Rightarrow> string \<Rightarrow> string option" where
  "strip_suffix s e = (if drop (length s - length e) s = e then Some (take (length s - length e) s) else None)"

section \<open>Characters\<close>

definition ascii_lower :: "char \<Rightarrow> char" where
  "ascii_lower c = (if CHR ''A'' \<le> c \<and> c \<le> CHR ''Z'' then char_of (of_char c + 32 :: nat) else c)"

definition eq_ignore_case :: "string \<Rightarrow> string \<Rightarrow> bool" where
  "eq_ignore_case s t \<longleftrightarrow> map ascii_lower s = map ascii_lower t"

definition is_ascii :: "string \<Rightarrow> bool" where
  "is_ascii s \<longleftrightarrow> list_all (\<lambda>c. of_char c < (128 :: nat)) s"

definition ascii_digit :: "char \<Rightarrow> bool" where
  "ascii_digit c \<longleftrightarrow> CHR ''0'' \<le> c \<and> c \<le> CHR ''9''"

text \<open>\<open>char::is_whitespace\<close> and \<open>str::trim\<close> of ASCII text.\<close>

definition ascii_space :: "char \<Rightarrow> bool" where
  "ascii_space c \<longleftrightarrow> of_char c \<in> {9..13} \<union> {32 :: nat}"

definition trim :: "string \<Rightarrow> string" where
  "trim s = rev (dropWhile ascii_space (rev (dropWhile ascii_space s)))"

lemma trim_plain: "list_all (\<lambda>c. \<not> ascii_space c) s \<Longrightarrow> trim s = s"
  by (cases s rule: rev_cases; cases s) (auto simp: trim_def list_all_iff dropWhile_append)

section \<open>Decimal numbers\<close>

fun digits_value :: "nat \<Rightarrow> string \<Rightarrow> nat option" where
  "digits_value acc [] = Some acc"
| "digits_value acc (c # cs) =
     (if CHR ''0'' \<le> c \<and> c \<le> CHR ''9'' \<and> acc * 10 + (of_char c - 48) \<le> u64_max
      then digits_value (acc * 10 + (of_char c - 48)) cs else None)"

text \<open>\<open>str::parse::<u64>\<close>: an optional sign and at least one digit.\<close>

definition parse_u64 :: "string \<Rightarrow> nat option" where
  "parse_u64 s =
     (let ds = (case s of [] \<Rightarrow> [] | c # cs \<Rightarrow> if c = CHR ''+'' then cs else s) in if ds = [] then None else digits_value 0 ds)"

text \<open>\<open>to_string\<close> of an unsigned integer.\<close>

definition digit_char :: "nat \<Rightarrow> char" where
  "digit_char d = char_of (48 + d)"

function decimal :: "nat \<Rightarrow> string" where
  "decimal n = (if n < 10 then [digit_char n] else decimal (n div 10) @ [digit_char (n mod 10)])"
  by pat_completeness auto
termination by (relation "measure id") auto

declare decimal.simps [simp del]

lemma digits_value_append:
  "digits_value acc (s @ t) = Option.bind (digits_value acc s) (\<lambda>a. digits_value a t)"
  by (induction acc s rule: digits_value.induct) auto

lemma of_digit_char: "d < 10 \<Longrightarrow> of_char (digit_char d) = 48 + d"
  by (simp add: digit_char_def)

lemma digit_digit: "d < 10 \<Longrightarrow> ascii_digit (digit_char d)"
  by (simp add: ascii_digit_def less_eq_char_def of_digit_char)

lemma digits_value_digit: "d < 10 \<Longrightarrow> acc * 10 + d \<le> u64_max \<Longrightarrow> digits_value acc [digit_char d] = Some (acc * 10 + d)"
  using digit_digit [of d] by (simp add: ascii_digit_def of_digit_char)

lemma digits_value_decimal: "n \<le> u64_max \<Longrightarrow> digits_value 0 (decimal n) = Some n"
proof (induction n rule: decimal.induct)
  case (1 n)
  show ?case
  proof (cases "n < 10")
    case True
    with 1(2) digits_value_digit [of n 0] show ?thesis by (simp add: decimal.simps [of n])
  next
    case False
    with 1 have "digits_value 0 (decimal (n div 10)) = Some (n div 10)" by simp
    with False 1(2) digits_value_digit [of "n mod 10" "n div 10"] show ?thesis
      by (simp add: decimal.simps [of n] digits_value_append)
  qed
qed

lemma decimal_digits: "list_all ascii_digit (decimal n) \<and> decimal n \<noteq> []"
proof (induction n rule: decimal.induct)
  case (1 n)
  then show ?case by (cases "n < 10") (auto simp: decimal.simps [of n] digit_digit)
qed

lemma decimal_length: "n < 10 ^ Suc k \<Longrightarrow> length (decimal n) \<le> Suc k"
proof (induction k arbitrary: n)
  case 0
  then show ?case by (simp add: decimal.simps [of n])
next
  case (Suc k)
  then have "n div 10 < 10 ^ Suc k" by (simp add: less_mult_imp_div_less mult.commute)
  with Suc.IH show ?case by (simp add: decimal.simps [of n])
qed

lemma parse_u64_decimal: "n \<le> u64_max \<Longrightarrow> parse_u64 (decimal n) = Some n"
proof -
  assume n: "n \<le> u64_max"
  have "hd (decimal n) \<noteq> CHR ''+''" using decimal_digits [of n]
    by (cases "decimal n") (auto simp: ascii_digit_def)
  then show ?thesis using decimal_digits [of n] digits_value_decimal [OF n]
    by (cases "decimal n") (simp_all add: parse_u64_def)
qed

end
