(* ===== verification/Glob.thy ===== *)
theory Glob
  imports Document_Store Ascii_Text
begin

text \<open>
  \<open>query.rs\<close>: document selectors and the glob patterns of the protocol, matched by a memoised
  search after a bounded brace expansion. The crate \<open>url\<close> is a parameter: \<open>url_path\<close> gives the
  path of a URI that parses. Nesting depths are \<^typ>\<open>nat\<close>: a pattern has fewer than \<open>2^32\<close> bytes.
\<close>

abbreviation slash :: char where "slash \<equiv> CHR ''/''"

section \<open>Character classes\<close>

text \<open>The loop over the body of a class: a range \<open>a-b\<close> takes three bytes, anything else one.\<close>

function class_matches :: "string \<Rightarrow> char \<Rightarrow> nat \<Rightarrow> bool \<Rightarrow> bool" where
  "class_matches cls ch index matched =
     (if index < length cls then
        (if index + 2 < length cls \<and> cls ! (index + 1) = CHR ''-'' then
           class_matches cls ch (index + 3) (matched \<or> (cls ! index \<le> ch \<and> ch \<le> cls ! (index + 2)))
         else class_matches cls ch (index + 1) (matched \<or> cls ! index = ch))
      else matched)"
  by pat_completeness auto
termination by (relation "measure (\<lambda>(cls, _, index, _). length cls - index)") auto

declare class_matches.simps [simp del]

fun position :: "char \<Rightarrow> string \<Rightarrow> nat option" where
  "position c [] = None"
| "position c (x # xs) = (if x = c then Some 0 else map_option Suc (position c xs))"

definition character_class :: "string \<Rightarrow> nat \<Rightarrow> char option \<Rightarrow> (bool \<times> nat) option" where
  "character_class pattern start byte =
     (case byte of
        None \<Rightarrow> None
      | Some ch \<Rightarrow>
          if ch = slash then None
          else case position (CHR '']'') (drop (start + 1) pattern) of
            None \<Rightarrow> None
          | Some off \<Rightarrow>
              let end = off + start + 1;
                  cls = take (end - (start + 1)) (drop (start + 1) pattern);
                  (negated, cls') = (if cls \<noteq> [] \<and> hd cls = CHR ''!'' then (True, tl cls) else (False, cls))
              in Some (class_matches cls' ch 0 False \<noteq> negated, end + 1))"

lemma character_class_next: "character_class pattern start c = Some (m, n) \<Longrightarrow> start < n"
  by (auto simp: character_class_def Let_def split: option.splits if_splits prod.splits)

section \<open>The memoised search\<close>

type_synonym memo = "bool option list list"

definition get_byte :: "string \<Rightarrow> nat \<Rightarrow> char option" where
  "get_byte s i = (if i < length s then Some (s ! i) else None)"

text \<open>
  \<open>glob_matches_at\<close> with its table of results threaded through; \<open>&&\<close> and \<open>||\<close> are evaluated
  left to right and stop early, as in the code.
\<close>

function glob_matches_at :: "string \<Rightarrow> string \<Rightarrow> nat \<Rightarrow> nat \<Rightarrow> memo \<Rightarrow> bool \<times> memo" where
  "glob_matches_at pattern path pi qi states =
     (case states ! pi ! qi of
        Some result \<Rightarrow> (result, states)
      | None \<Rightarrow>
          let (result, states') =
            (if length pattern \<le> pi then (qi = length path, states)
             else if pattern ! pi = CHR ''*'' then
               let recursive = (get_byte pattern (pi + 1) = Some (CHR ''*''));
                   next0 = pi + (if recursive then 2 else 1);
                   recursive_directory = (recursive \<and> get_byte pattern next0 = Some slash);
                   next = (if recursive_directory then next0 + 1 else next0);
                   (first, states1) =
                     (if \<not> recursive_directory \<or> qi = 0 \<or> path ! (qi - 1) = slash
                      then glob_matches_at pattern path next qi states else (False, states))
               in if first then (True, states1)
                  else if qi < length path then
                    (if recursive \<or> path ! qi \<noteq> slash
                     then glob_matches_at pattern path pi (qi + 1) states1 else (False, states1))
                  else (False, states1)
             else if pattern ! pi = CHR ''?'' then
               (if qi < length path \<and> path ! qi \<noteq> slash
                then glob_matches_at pattern path (pi + 1) (qi + 1) states else (False, states))
             else if pattern ! pi = CHR ''['' then
               (case character_class pattern pi (get_byte path qi) of
                  None \<Rightarrow> (False, states)
                | Some (matches, next) \<Rightarrow>
                    if matches then glob_matches_at pattern path next (qi + 1) states else (False, states))
             else
               (if get_byte path qi = get_byte pattern pi
                then glob_matches_at pattern path (pi + 1) (qi + 1) states else (False, states)))
          in (result, states'[pi := (states' ! pi)[qi := Some result]]))"
  by pat_completeness auto
termination
  by (relation "measures [\<lambda>(pattern, path, pi, qi, _). length pattern - pi,
                          \<lambda>(pattern, path, pi, qi, _). length path - qi]")
    (auto split: if_splits dest: character_class_next)

declare glob_matches_at.simps [simp del]

section \<open>Brace expansion\<close>

text \<open>The first balanced group: the indices of its braces.\<close>

fun brace_scan :: "string \<Rightarrow> nat \<Rightarrow> nat option \<Rightarrow> nat \<Rightarrow> (nat \<times> nat) option" where
  "brace_scan [] index opened depth = None"
| "brace_scan (c # cs) index opened depth =
     (if c = CHR ''{'' then
        (if depth = 0 then brace_scan cs (index + 1) (Some index) 1
         else brace_scan cs (index + 1) opened (depth + 1))
      else if c = CHR ''}'' then
        (if depth = 0 then brace_scan cs (index + 1) opened depth
         else if depth = 1 then Some (the opened, index)
         else brace_scan cs (index + 1) opened (depth - 1))
      else brace_scan cs (index + 1) opened depth)"

text \<open>\<open>split_brace_alternatives\<close>: \<open>cur\<close> is \<open>value[start..index]\<close>.\<close>

fun split_brace_alternatives :: "string \<Rightarrow> string \<Rightarrow> nat \<Rightarrow> string list" where
  "split_brace_alternatives cur [] depth = [cur]"
| "split_brace_alternatives cur (c # cs) depth =
     (if c = CHR ''{'' then split_brace_alternatives (cur @ [c]) cs (depth + 1)
      else if c = CHR ''}'' then split_brace_alternatives (cur @ [c]) cs (depth - 1)
      else if c = CHR '','' \<and> depth = 0 then cur # split_brace_alternatives [] cs depth
      else split_brace_alternatives (cur @ [c]) cs depth)"

text \<open>\<open>None\<close> when the pattern is pushed as it is, otherwise the patterns to expand in its place.\<close>

definition brace_choices :: "string \<Rightarrow> string list option" where
  "brace_choices pattern =
     (case brace_scan pattern 0 None 0 of
        None \<Rightarrow> None
      | Some (opening, index) \<Rightarrow>
          let alternatives = split_brace_alternatives [] (take (index - (opening + 1)) (drop (opening + 1) pattern)) 0
          in if length alternatives \<le> 1 then None
             else Some (map (\<lambda>a. take opening pattern @ a @ drop (index + 1) pattern) alternatives))"

definition scan_opened :: "nat \<Rightarrow> nat option \<Rightarrow> nat \<Rightarrow> bool" where
  "scan_opened index opened depth \<longleftrightarrow> depth = 0 \<or> (\<exists>j. opened = Some j \<and> j < index)"

lemma scan_opened_simps:
  "scan_opened index opened 0" "scan_opened (index + 1) (Some index) 1"
  "scan_opened index opened depth \<Longrightarrow> depth \<noteq> 0 \<Longrightarrow> scan_opened (index + 1) opened d"
  "scan_opened index opened depth \<Longrightarrow> scan_opened (index + 1) opened depth"
  "scan_opened index opened depth \<Longrightarrow> depth \<noteq> 0 \<Longrightarrow> the opened < index"
  by (auto simp: scan_opened_def)

lemma brace_scan_bounds:
  "brace_scan cs index opened depth = Some (a, b) \<Longrightarrow> scan_opened index opened depth \<Longrightarrow> a < b \<and> b < index + length cs"
proof (induction cs arbitrary: index opened depth)
  case Nil
  then show ?case by simp
next
  case (Cons c cs)
  have step: "a < b \<and> b < index + length (c # cs)"
    if "brace_scan cs (index + 1) o' d' = Some (a, b)" "scan_opened (index + 1) o' d'" for o' d'
    using Cons.IH [OF that] by simp
  consider "c = CHR ''{''" "depth = 0" | "c = CHR ''{''" "depth \<noteq> 0" | "c = CHR ''}''" "depth = 0"
    | "c = CHR ''}''" "depth = 1" | "c = CHR ''}''" "depth \<noteq> 0" "depth \<noteq> 1"
    | "c \<noteq> CHR ''{''" "c \<noteq> CHR ''}''"
    by blast
  then show ?case
  proof cases
    case 4
    then show ?thesis using Cons.prems scan_opened_simps(5) [OF Cons.prems(2)] by auto
  qed (use Cons.prems scan_opened_simps step in \<open>simp_all del: One_nat_def\<close>)
qed

lemma alternative_length:
  "a \<in> set (split_brace_alternatives cur cs depth) \<Longrightarrow> length a \<le> length cur + length cs"
  by (induction cur cs depth rule: split_brace_alternatives.induct) (fastforce split: if_splits)+

lemma brace_choices_shorter: "brace_choices pattern = Some cs \<Longrightarrow> c \<in> set cs \<Longrightarrow> length c < length pattern"
proof -
  assume choices: "brace_choices pattern = Some cs" and c: "c \<in> set cs"
  then obtain a b where scan: "brace_scan pattern 0 None 0 = Some (a, b)"
    by (auto simp: brace_choices_def split: option.splits)
  have ab: "a < b" "b < length pattern" using brace_scan_bounds [OF scan] by (simp_all add: scan_opened_simps)
  obtain alt where "alt \<in> set (split_brace_alternatives [] (take (b - (a + 1)) (drop (a + 1) pattern)) 0)"
    "c = take a pattern @ alt @ drop (b + 1) pattern"
    using choices c scan by (auto simp: brace_choices_def Let_def split: if_splits)
  then show ?thesis using alternative_length [of alt "[]"] ab by fastforce
qed

text \<open>The loop over the alternatives stops once the limit is reached.\<close>

function expand_braces :: "string \<Rightarrow> string list \<Rightarrow> nat \<Rightarrow> string list" where
  "expand_braces pattern output limit =
     (if limit \<le> length output then output
      else case brace_choices pattern of
        None \<Rightarrow> output @ [pattern]
      | Some choices \<Rightarrow>
          fold (\<lambda>choice out. if limit \<le> length out then out else expand_braces choice out limit) choices output)"
  by pat_completeness auto
termination
  by (relation "measure (\<lambda>(pattern, _, _). length pattern)") (auto dest: brace_choices_shorter)

declare expand_braces.simps [simp del]

definition fresh_memo :: "string \<Rightarrow> string \<Rightarrow> memo" where
  "fresh_memo pattern path = replicate (length pattern + 1) (replicate (length path + 1) None)"

definition glob_matches :: "string \<Rightarrow> string \<Rightarrow> bool" where
  "glob_matches pattern path \<longleftrightarrow>
     (\<exists>p \<in> set (expand_braces pattern [] 256). fst (glob_matches_at p path 0 0 (fresh_memo p path)))"

definition protocol_glob_matches :: "string \<Rightarrow> string \<Rightarrow> bool \<Rightarrow> bool" where
  "protocol_glob_matches pattern path ignore_case =
     (if ignore_case then glob_matches (map ascii_lower pattern) (map ascii_lower path)
      else glob_matches pattern path)"

section \<open>Document selectors\<close>

text \<open>\<open>trim_end_matches('/')\<close>, \<open>trim_start_matches('/')\<close>, \<open>strip_prefix\<close>.\<close>

definition trim_end_slashes :: "string \<Rightarrow> string" where
  "trim_end_slashes s = rev (dropWhile (\<lambda>c. c = slash) (rev s))"

definition trim_start_slashes :: "string \<Rightarrow> string" where
  "trim_start_slashes s = dropWhile (\<lambda>c. c = slash) s"

definition strip_text_prefix :: "string \<Rightarrow> string \<Rightarrow> string option" where
  "strip_text_prefix p s = (if prefix p s then Some (drop (length p) s) else None)"

definition document_pattern_matches ::
  "(string \<Rightarrow> string option) \<Rightarrow> (path \<Rightarrow> string) \<Rightarrow> json \<Rightarrow> document_snapshot \<Rightarrow> bool" where
  "document_pattern_matches url_path path_text pattern document =
     (let uri_path = (case url_path (snap_uri document) of
            Some p \<Rightarrow> p
          | None \<Rightarrow> map (\<lambda>c. if c = CHR 0x5C then slash else c) (path_text (snap_path document)))
      in case as_str pattern of
           Some p \<Rightarrow> glob_matches p uri_path
         | None \<Rightarrow>
             if as_object pattern = None then False
             else case Option.bind (json_get pattern ''pattern'') as_str of
               None \<Rightarrow> False
             | Some p \<Rightarrow>
                 let base_uri = Option.bind (json_get pattern ''baseUri'')
                       (\<lambda>base. case as_str base of
                          Some b \<Rightarrow> Some b
                        | None \<Rightarrow> Option.bind (json_get base ''uri'') as_str)
                 in case Option.bind base_uri url_path of
                      None \<Rightarrow> False
                    | Some bp \<Rightarrow>
                        (case strip_text_prefix (trim_end_slashes bp) uri_path of
                           None \<Rightarrow> False
                         | Some remainder \<Rightarrow>
                             if remainder = [] \<or> hd remainder = slash
                             then glob_matches p (trim_start_slashes remainder) else False))"

definition document_filter_matches ::
  "(string \<Rightarrow> string option) \<Rightarrow> (path \<Rightarrow> string) \<Rightarrow> document_snapshot \<Rightarrow> json \<Rightarrow> bool" where
  "document_filter_matches url_path path_text document filter_value =
     (if as_object filter_value = None then False
      else if (case Option.bind (json_get filter_value ''language'') as_str of
                 None \<Rightarrow> False | Some l \<Rightarrow> l \<noteq> snap_language document) then False
      else if (case Option.bind (json_get filter_value ''scheme'') as_str of
                 None \<Rightarrow> False | Some s \<Rightarrow> s \<noteq> ''file'') then False
      else case json_get filter_value ''pattern'' of
        None \<Rightarrow> True
      | Some pattern \<Rightarrow> document_pattern_matches url_path path_text pattern document)"

definition selector_matches ::
  "(string \<Rightarrow> string option) \<Rightarrow> (path \<Rightarrow> string) \<Rightarrow> json \<Rightarrow> document_snapshot \<Rightarrow> bool" where
  "selector_matches url_path path_text selector document =
     (case as_array selector of
        None \<Rightarrow> False
      | Some filters \<Rightarrow> list_ex (document_filter_matches url_path path_text document) filters)"

end
