(* ===== verification/Glob_Laws.thy ===== *)
theory Glob_Laws
  imports Glob
begin

text \<open>
  What a glob pattern means: a token list and a declarative acceptance relation. The memoised
  search decides it, and the bounded brace expansion is a prefix of the unbounded one.
\<close>

section \<open>Tokens and acceptance\<close>

datatype glob_token = Lit char | AnyByte | CharClass string | Star | StarStar | StarStarSlash | NoMatch

function glob_tokens :: "string \<Rightarrow> glob_token list" where
  "glob_tokens pattern =
     (case pattern of
        [] \<Rightarrow> []
      | c # cs \<Rightarrow>
          if c = CHR ''*'' then
            (if cs \<noteq> [] \<and> hd cs = CHR ''*'' then
               (if tl cs \<noteq> [] \<and> hd (tl cs) = slash then StarStarSlash # glob_tokens (tl (tl cs))
                else StarStar # glob_tokens (tl cs))
             else Star # glob_tokens cs)
          else if c = CHR ''?'' then AnyByte # glob_tokens cs
          else if c = CHR ''['' then
            (case position (CHR '']'') cs of
               None \<Rightarrow> [NoMatch]
             | Some n \<Rightarrow> CharClass (take n cs) # glob_tokens (drop (Suc n) cs))
          else Lit c # glob_tokens cs)"
  by pat_completeness auto
termination by (relation "measure length") auto

declare glob_tokens.simps [simp del]

text \<open>The bytes a class matches: a leading \<open>!\<close> negates.\<close>

definition in_class :: "string \<Rightarrow> char \<Rightarrow> bool" where
  "in_class cls ch =
     (if cls \<noteq> [] \<and> hd cls = CHR ''!'' then \<not> class_matches (tl cls) ch 0 False else class_matches cls ch 0 False)"

text \<open>Whether the position after \<open>u\<close> starts a path segment, when the one before it does as \<open>b\<close> says.\<close>

definition at_segment :: "bool \<Rightarrow> string \<Rightarrow> bool" where
  "at_segment b u = (if u = [] then b else last u = slash)"

inductive glob_accepts :: "bool \<Rightarrow> glob_token list \<Rightarrow> string \<Rightarrow> bool" where
  accept_end: "glob_accepts b [] []"
| accept_lit: "glob_accepts (c = slash) ts p \<Longrightarrow> glob_accepts b (Lit c # ts) (c # p)"
| accept_any: "c \<noteq> slash \<Longrightarrow> glob_accepts False ts p \<Longrightarrow> glob_accepts b (AnyByte # ts) (c # p)"
| accept_class: "c \<noteq> slash \<Longrightarrow> in_class cls c \<Longrightarrow> glob_accepts False ts p \<Longrightarrow> glob_accepts b (CharClass cls # ts) (c # p)"
| accept_star: "slash \<notin> set u \<Longrightarrow> glob_accepts (at_segment b u) ts p \<Longrightarrow> glob_accepts b (Star # ts) (u @ p)"
| accept_star_star: "glob_accepts (at_segment b u) ts p \<Longrightarrow> glob_accepts b (StarStar # ts) (u @ p)"
| accept_star_star_slash:
    "at_segment b u \<Longrightarrow> glob_accepts (at_segment b u) ts p \<Longrightarrow> glob_accepts b (StarStarSlash # ts) (u @ p)"

inductive_simps glob_accepts_end [simp]: "glob_accepts b [] p"
inductive_simps glob_accepts_lit [simp]: "glob_accepts b (Lit c # ts) p"
inductive_simps glob_accepts_any [simp]: "glob_accepts b (AnyByte # ts) p"
inductive_simps glob_accepts_class [simp]: "glob_accepts b (CharClass cls # ts) p"
inductive_simps glob_accepts_none [simp]: "glob_accepts b (NoMatch # ts) p"
inductive_cases glob_accepts_starE: "glob_accepts b (Star # ts) p"
inductive_cases glob_accepts_star_starE: "glob_accepts b (StarStar # ts) p"
inductive_cases glob_accepts_star_star_slashE: "glob_accepts b (StarStarSlash # ts) p"

text \<open>A star is nothing, or one byte and a star.\<close>

lemma accepts_star_step:
  "glob_accepts b (Star # ts) p \<longleftrightarrow>
     glob_accepts b ts p \<or> (\<exists>c q. p = c # q \<and> c \<noteq> slash \<and> glob_accepts False (Star # ts) q)"
  (is "?l \<longleftrightarrow> ?r")
proof
  assume ?l
  then obtain u q where u: "p = u @ q" "slash \<notin> set u" "glob_accepts (at_segment b u) ts q"
    by (rule glob_accepts_starE) auto
  show ?r
  proof (cases u)
    case (Cons c u')
    with u have "glob_accepts (at_segment False u') ts q" by (auto simp: at_segment_def split: if_splits)
    then have "glob_accepts False (Star # ts) (u' @ q)" using u Cons by (intro accept_star) auto
    with u Cons show ?r by auto
  qed (use u in \<open>simp add: at_segment_def\<close>)
next
  assume ?r
  then show ?l
  proof
    assume "glob_accepts b ts p"
    then show ?l using accept_star [of "[]" b ts p] by (simp add: at_segment_def)
  next
    assume "\<exists>c q. p = c # q \<and> c \<noteq> slash \<and> glob_accepts False (Star # ts) q"
    then obtain c q where q: "p = c # q" "c \<noteq> slash" "glob_accepts False (Star # ts) q" by blast
    from q(3) obtain u r where "q = u @ r" "slash \<notin> set u" "glob_accepts (at_segment False u) ts r"
      by (rule glob_accepts_starE) auto
    with q show ?l using accept_star [of "c # u" b ts r] by (auto simp: at_segment_def split: if_splits)
  qed
qed

lemma accepts_star_star_step:
  "glob_accepts b (StarStar # ts) p \<longleftrightarrow>
     glob_accepts b ts p \<or> (\<exists>c q. p = c # q \<and> glob_accepts (c = slash) (StarStar # ts) q)"
  (is "?l \<longleftrightarrow> ?r")
proof
  assume ?l
  then obtain u q where u: "p = u @ q" "glob_accepts (at_segment b u) ts q"
    by (rule glob_accepts_star_starE) auto
  show ?r
  proof (cases u)
    case (Cons c u')
    with u have "glob_accepts (at_segment (c = slash) u') ts q" by (auto simp: at_segment_def split: if_splits)
    then have "glob_accepts (c = slash) (StarStar # ts) (u' @ q)" by (rule accept_star_star)
    with u Cons show ?r by auto
  qed (use u in \<open>simp add: at_segment_def\<close>)
next
  assume ?r
  then show ?l
  proof
    assume "glob_accepts b ts p"
    then show ?l using accept_star_star [of b "[]" ts p] by (simp add: at_segment_def)
  next
    assume "\<exists>c q. p = c # q \<and> glob_accepts (c = slash) (StarStar # ts) q"
    then obtain c q where q: "p = c # q" "glob_accepts (c = slash) (StarStar # ts) q" by blast
    from q(2) obtain u r where "q = u @ r" "glob_accepts (at_segment (c = slash) u) ts r"
      by (rule glob_accepts_star_starE) auto
    with q show ?l using accept_star_star [of b "c # u" ts r] by (auto simp: at_segment_def split: if_splits)
  qed
qed

lemma accepts_star_star_slash_step:
  "glob_accepts b (StarStarSlash # ts) p \<longleftrightarrow>
     b \<and> glob_accepts b ts p \<or> (\<exists>c q. p = c # q \<and> glob_accepts (c = slash) (StarStarSlash # ts) q)"
  (is "?l \<longleftrightarrow> ?r")
proof
  assume ?l
  then obtain u q where u: "p = u @ q" "at_segment b u" "glob_accepts (at_segment b u) ts q"
    by (rule glob_accepts_star_star_slashE) auto
  show ?r
  proof (cases u)
    case (Cons c u')
    with u have "at_segment (c = slash) u'" "glob_accepts (at_segment (c = slash) u') ts q"
      by (auto simp: at_segment_def split: if_splits)
    then have "glob_accepts (c = slash) (StarStarSlash # ts) (u' @ q)" by (rule accept_star_star_slash)
    with u Cons show ?r by auto
  qed (use u in \<open>auto simp: at_segment_def\<close>)
next
  assume ?r
  then show ?l
  proof
    assume "b \<and> glob_accepts b ts p"
    then show ?l using accept_star_star_slash [of b "[]" ts p] by (auto simp: at_segment_def)
  next
    assume "\<exists>c q. p = c # q \<and> glob_accepts (c = slash) (StarStarSlash # ts) q"
    then obtain c q where q: "p = c # q" "glob_accepts (c = slash) (StarStarSlash # ts) q" by blast
    from q(2) obtain u r where "q = u @ r" "at_segment (c = slash) u" "glob_accepts (at_segment (c = slash) u) ts r"
      by (rule glob_accepts_star_star_slashE) auto
    with q show ?l using accept_star_star_slash [of b "c # u" ts r] by (auto simp: at_segment_def split: if_splits)
  qed
qed


section \<open>The search without its table\<close>

definition glob_at :: "string \<Rightarrow> string \<Rightarrow> nat \<Rightarrow> nat \<Rightarrow> bool" where
  "glob_at pattern path pi qi =
     glob_accepts (qi = 0 \<or> path ! (qi - 1) = slash) (glob_tokens (drop pi pattern)) (drop qi path)"

lemma drop_Cons_iff:
  "(\<exists>c q. drop qi path = c # q \<and> P c q) \<longleftrightarrow> qi < length path \<and> P (path ! qi) (drop (Suc qi) path)"
proof (cases "qi < length path")
  case True
  then show ?thesis by (simp add: Cons_nth_drop_Suc [symmetric])
qed simp

lemma get_byte_hd: "get_byte s i = Some c \<longleftrightarrow> drop i s \<noteq> [] \<and> hd (drop i s) = c"
  by (auto simp: get_byte_def hd_drop_conv_nth)

lemma glob_at_end: "glob_at pattern path (length pattern) qi \<longleftrightarrow> length path \<le> qi"
  by (simp add: glob_at_def glob_tokens.simps [of "[]"])

lemma drop_pattern: "pi < length pattern \<Longrightarrow> drop pi pattern = pattern ! pi # drop (Suc pi) pattern"
  by (simp add: Cons_nth_drop_Suc)

lemma glob_at_star:
  assumes inside: "pi < length pattern" and "pattern ! pi = CHR ''*''" "get_byte pattern (pi + 1) \<noteq> Some (CHR ''*'')"
  shows "glob_at pattern path pi qi \<longleftrightarrow> glob_at pattern path (pi + 1) qi
    \<or> qi < length path \<and> path ! qi \<noteq> slash \<and> glob_at pattern path pi (qi + 1)"
proof -
  have "glob_tokens (drop pi pattern) = Star # glob_tokens (drop (Suc pi) pattern)"
    using assms by (simp add: drop_pattern [OF inside] glob_tokens.simps [of "_ # _"] get_byte_hd)
  then show ?thesis
    by (simp add: glob_at_def accepts_star_step [of "qi = 0 \<or> _"] drop_Cons_iff) auto
qed

lemma glob_at_star_star:
  assumes inside: "pi < length pattern" and "pattern ! pi = CHR ''*''" "get_byte pattern (pi + 1) = Some (CHR ''*'')"
    "get_byte pattern (pi + 2) \<noteq> Some slash"
  shows "glob_at pattern path pi qi \<longleftrightarrow> glob_at pattern path (pi + 2) qi
    \<or> qi < length path \<and> glob_at pattern path pi (qi + 1)"
proof -
  have "glob_tokens (drop pi pattern) = StarStar # glob_tokens (drop (pi + 2) pattern)"
    using assms by (simp add: drop_pattern [OF inside] glob_tokens.simps [of "_ # _"] get_byte_hd tl_drop drop_Suc)
  then show ?thesis
    by (simp add: glob_at_def accepts_star_star_step [of "qi = 0 \<or> _"] drop_Cons_iff)
qed

lemma glob_at_star_star_slash:
  assumes inside: "pi < length pattern" and "pattern ! pi = CHR ''*''" "get_byte pattern (pi + 1) = Some (CHR ''*'')"
    "get_byte pattern (pi + 2) = Some slash"
  shows "glob_at pattern path pi qi \<longleftrightarrow> (qi = 0 \<or> path ! (qi - 1) = slash) \<and> glob_at pattern path (pi + 2 + 1) qi
    \<or> qi < length path \<and> glob_at pattern path pi (qi + 1)"
proof -
  have "glob_tokens (drop pi pattern) = StarStarSlash # glob_tokens (drop (pi + 2 + 1) pattern)"
    using assms by (simp add: drop_pattern [OF inside] glob_tokens.simps [of "_ # _"] get_byte_hd tl_drop drop_Suc numeral_eq_Suc)
  then show ?thesis
    by (simp add: glob_at_def accepts_star_star_slash_step [of "qi = 0 \<or> _"] drop_Cons_iff)
qed

lemma glob_at_any:
  assumes inside: "pi < length pattern" and "pattern ! pi = CHR ''?''"
  shows "glob_at pattern path pi qi \<longleftrightarrow>
    qi < length path \<and> path ! qi \<noteq> slash \<and> glob_at pattern path (pi + 1) (qi + 1)"
proof -
  have "glob_tokens (drop pi pattern) = AnyByte # glob_tokens (drop (Suc pi) pattern)"
    using assms by (simp add: drop_pattern [OF inside] glob_tokens.simps [of "_ # _"])
  moreover have "glob_accepts b (AnyByte # ts) (drop qi path) \<longleftrightarrow>
      qi < length path \<and> path ! qi \<noteq> slash \<and> glob_accepts False ts (drop (Suc qi) path)" for b ts
    by (simp add: drop_Cons_iff [of qi path "\<lambda>c q. c \<noteq> slash \<and> glob_accepts False ts q", symmetric])
  ultimately show ?thesis by (simp add: glob_at_def) auto
qed

lemma glob_at_lit:
  assumes inside: "pi < length pattern" and "pattern ! pi \<notin> {CHR ''*'', CHR ''?'', CHR ''[''}"
  shows "glob_at pattern path pi qi \<longleftrightarrow>
    get_byte path qi = get_byte pattern pi \<and> glob_at pattern path (pi + 1) (qi + 1)"
proof -
  have "glob_tokens (drop pi pattern) = Lit (pattern ! pi) # glob_tokens (drop (Suc pi) pattern)"
    using assms by (simp add: drop_pattern [OF inside] glob_tokens.simps [of "_ # _"])
  moreover have "glob_accepts b (Lit a # ts) (drop qi path) \<longleftrightarrow>
      qi < length path \<and> path ! qi = a \<and> glob_accepts (a = slash) ts (drop (Suc qi) path)" for b a ts
    by (simp add: drop_Cons_iff [of qi path "\<lambda>c q. c = a \<and> glob_accepts (a = slash) ts q", symmetric])
  ultimately show ?thesis using inside by (auto simp: glob_at_def get_byte_def)
qed

lemma glob_at_class:
  assumes inside: "pi < length pattern" and "pattern ! pi = CHR ''[''"
  shows "glob_at pattern path pi qi \<longleftrightarrow>
    (case character_class pattern pi (get_byte path qi) of
       None \<Rightarrow> False
     | Some (matches, next) \<Rightarrow> matches \<and> glob_at pattern path next (qi + 1))"
proof (cases "position (CHR '']'') (drop (Suc pi) pattern)")
  case None
  then have "glob_tokens (drop pi pattern) = [NoMatch]"
    using assms by (simp add: drop_pattern [OF inside] glob_tokens.simps [of "_ # _"])
  with None show ?thesis
    by (simp add: glob_at_def character_class_def split: option.split)
next
  case (Some n)
  let ?cls = "take n (drop (Suc pi) pattern)"
  have "drop (Suc n) (drop (Suc pi) pattern) = drop (n + pi + 2) pattern" by (simp add: add.commute)
  then have toks: "glob_tokens (drop pi pattern) = CharClass ?cls # glob_tokens (drop (n + pi + 2) pattern)"
    using assms Some by (simp add: drop_pattern [OF inside] glob_tokens.simps [of "_ # _"])
  have "glob_accepts b (CharClass cls # ts) (drop qi path) \<longleftrightarrow>
      qi < length path \<and> path ! qi \<noteq> slash \<and> in_class cls (path ! qi) \<and> glob_accepts False ts (drop (Suc qi) path)" for b cls ts
    by (simp add: drop_Cons_iff [of qi path "\<lambda>c q. c \<noteq> slash \<and> in_class cls c \<and> glob_accepts False ts q", symmetric])
  then have l: "glob_at pattern path pi qi \<longleftrightarrow> qi < length path \<and> path ! qi \<noteq> slash \<and> in_class ?cls (path ! qi)
      \<and> glob_accepts False (glob_tokens (drop (n + pi + 2) pattern)) (drop (Suc qi) path)"
    by (simp add: glob_at_def toks)
  have "character_class pattern pi (get_byte path qi) =
      (if qi < length path \<and> path ! qi \<noteq> slash then Some (in_class ?cls (path ! qi), n + pi + 2) else None)"
    using Some by (auto simp: character_class_def get_byte_def in_class_def Let_def)
  with l show ?thesis by (auto simp: glob_at_def)
qed

section \<open>The table\<close>

definition memo_ok :: "string \<Rightarrow> string \<Rightarrow> memo \<Rightarrow> bool" where
  "memo_ok pattern path states \<longleftrightarrow> length states = length pattern + 1
     \<and> (\<forall>i \<le> length pattern. length (states ! i) = length path + 1
          \<and> (\<forall>j \<le> length path. \<forall>r. states ! i ! j = Some r \<longrightarrow> r = glob_at pattern path i j))"

lemma memo_ok_fresh: "memo_ok pattern path (fresh_memo pattern path)"
  by (simp add: memo_ok_def fresh_memo_def nth_replicate del: replicate_Suc)

lemma memo_ok_update:
  assumes "memo_ok pattern path states" "r = glob_at pattern path i j" "i \<le> length pattern" "j \<le> length path"
  shows "memo_ok pattern path (states[i := (states ! i)[j := Some r]])"
  using assms by (auto simp: memo_ok_def nth_list_update)

text \<open>One step of the search: its value, and the table after it.\<close>

lemma memo_step:
  assumes "memo_ok pattern path states" "i \<le> length pattern" "j \<le> length path" "states ! i ! j = None"
    and "fst r = glob_at pattern path i j \<and> memo_ok pattern path (snd r)"
  shows "fst (let (result, states') = r in (result, states'[i := (states' ! i)[j := Some result]])) = glob_at pattern path i j
    \<and> memo_ok pattern path (snd (let (result, states') = r in (result, states'[i := (states' ! i)[j := Some result]])))"
  using assms memo_ok_update by (cases r) auto


lemma character_class_bound:
  "character_class pattern pi c = Some (m, n) \<Longrightarrow> n \<le> length pattern"
proof -
  have pos: "position x xs = Some k \<Longrightarrow> k < length xs" for x k and xs :: string
    by (induction xs arbitrary: k) (auto split: if_splits)
  show "character_class pattern pi c = Some (m, n) \<Longrightarrow> n \<le> length pattern"
    using pos [of "CHR '']''" "drop (Suc pi) pattern"]
    by (auto simp: character_class_def Let_def split: option.splits if_splits prod.splits)
qed

lemma glob_matches_at_spec:
  "memo_ok pattern path states \<Longrightarrow> pi \<le> length pattern \<Longrightarrow> qi \<le> length path \<Longrightarrow>
     fst (glob_matches_at pattern path pi qi states) = glob_at pattern path pi qi
     \<and> memo_ok pattern path (snd (glob_matches_at pattern path pi qi states))"
proof (induction "(length pattern - pi) + (length path - qi)" arbitrary: pi qi states rule: less_induct)
  case less
  note ok = less.prems(1) and pi = less.prems(2) and qi = less.prems(3)
  let ?G = "glob_matches_at pattern path"
  have IH: "fst (?G i j st) = glob_at pattern path i j \<and> memo_ok pattern path (snd (?G i j st))"
    if "memo_ok pattern path st" "i \<le> length pattern" "j \<le> length path" "pi \<le> i" "qi \<le> j" "pi < i \<or> qi < j" for i j st
    by (rule less.hyps) (use that in auto)
  show ?case
  proof (cases "states ! pi ! qi")
    case (Some r)
    then have "r = glob_at pattern path pi qi" using ok pi qi by (auto simp: memo_ok_def)
    with Some ok show ?thesis by (simp add: glob_matches_at.simps [of pattern path pi qi])
  next
    case None
    let ?out = "\<lambda>r. let (result, states') = r in (result, states'[pi := (states' ! pi)[qi := Some result]])"
    have step: "fst r = glob_at pattern path pi qi \<and> memo_ok pattern path (snd r) \<Longrightarrow>
        fst (?out r) = glob_at pattern path pi qi \<and> memo_ok pattern path (snd (?out r))" for r
      using memo_step [OF ok pi qi None] by blast
    consider (finish) "pi = length pattern" | (star) "pi < length pattern" "pattern ! pi = CHR ''*''"
      | (any) "pi < length pattern" "pattern ! pi = CHR ''?''"
      | (cls) "pi < length pattern" "pattern ! pi = CHR ''[''"
      | (lit) "pi < length pattern" "pattern ! pi \<notin> {CHR ''*'', CHR ''?'', CHR ''[''}"
      using pi by fastforce
    then show ?thesis
    proof cases
      case finish
      have "?G pi qi states = ?out (qi = length path, states)"
        using None finish by (subst glob_matches_at.simps) simp
      moreover have "(qi = length path) = glob_at pattern path pi qi" using finish qi by (auto simp: glob_at_end)
      ultimately show ?thesis using step [of "(qi = length path, states)"] ok by simp
    next
      case any
      let ?r = "if qi < length path \<and> path ! qi \<noteq> slash then ?G (pi + 1) (qi + 1) states else (False, states)"
      have "?G pi qi states = ?out ?r"
        using None any by (simp add: glob_matches_at.simps [of pattern path pi qi])
      moreover have "fst ?r = glob_at pattern path pi qi \<and> memo_ok pattern path (snd ?r)"
        using any ok IH [of states "pi + 1" "qi + 1"] by (auto simp: glob_at_any)
      ultimately show ?thesis using step [of ?r] by simp
    next
      case lit
      let ?r = "if get_byte path qi = get_byte pattern pi then ?G (pi + 1) (qi + 1) states else (False, states)"
      have "get_byte path qi = get_byte pattern pi \<Longrightarrow> qi < length path"
        using lit(1) by (auto simp: get_byte_def split: if_splits)
      then have "fst ?r = glob_at pattern path pi qi \<and> memo_ok pattern path (snd ?r)"
        using lit ok IH [of states "pi + 1" "qi + 1"] by (auto simp: glob_at_lit)
      moreover have "?G pi qi states = ?out ?r"
        using None lit by (simp add: glob_matches_at.simps [of pattern path pi qi])
      ultimately show ?thesis using step [of ?r] by simp
    next
      case cls
      let ?r = "case character_class pattern pi (get_byte path qi) of
                  None \<Rightarrow> (False, states)
                | Some (matches, next) \<Rightarrow> if matches then ?G next (qi + 1) states else (False, states)"
      have bounds: "qi < length path \<and> pi < n \<and> n \<le> length pattern"
        if "character_class pattern pi (get_byte path qi) = Some (m, n)" for m n
        using that character_class_next [OF that] character_class_bound [OF that]
        by (auto simp: character_class_def get_byte_def split: if_splits)
      have "fst ?r = glob_at pattern path pi qi \<and> memo_ok pattern path (snd ?r)"
      proof (cases "character_class pattern pi (get_byte path qi)")
        case None
        then show ?thesis using cls ok by (simp add: glob_at_class)
      next
        case (Some x)
        obtain m n where x: "x = (m, n)" by (cases x)
        show ?thesis
          using Some x cls ok bounds [of m n] IH [of states n "qi + 1"] by (auto simp: glob_at_class)
      qed
      moreover have "?G pi qi states = ?out ?r"
        using None cls by (simp add: glob_matches_at.simps [of pattern path pi qi])
      ultimately show ?thesis using step [of ?r] by simp
    next
      case star
      let ?rec = "get_byte pattern (pi + 1) = Some (CHR ''*'')"
      let ?dir = "?rec \<and> get_byte pattern (pi + 2) = Some slash"
      define nxt where "nxt = (if ?dir then pi + 2 + 1 else if ?rec then pi + 2 else pi + 1)"
      have nxt: "pi < nxt" "nxt \<le> length pattern"
        using star(1) by (auto simp: nxt_def get_byte_def split: if_splits)
      have unfolded: "glob_at pattern path pi qi \<longleftrightarrow>
          (\<not> ?dir \<or> qi = 0 \<or> path ! (qi - 1) = slash) \<and> glob_at pattern path nxt qi
          \<or> qi < length path \<and> (?rec \<or> path ! qi \<noteq> slash) \<and> glob_at pattern path pi (qi + 1)"
        using star glob_at_star [of pi pattern path qi] glob_at_star_star [of pi pattern path qi]
          glob_at_star_star_slash [of pi pattern path qi]
        unfolding nxt_def by auto
      let ?first = "if \<not> ?dir \<or> qi = 0 \<or> path ! (qi - 1) = slash then ?G nxt qi states else (False, states)"
      let ?r = "if fst ?first then (True, snd ?first)
                else if qi < length path then
                  (if ?rec \<or> path ! qi \<noteq> slash then ?G pi (qi + 1) (snd ?first) else (False, snd ?first))
                else (False, snd ?first)"
      have first: "fst ?first = ((\<not> ?dir \<or> qi = 0 \<or> path ! (qi - 1) = slash) \<and> glob_at pattern path nxt qi)"
        "memo_ok pattern path (snd ?first)"
        using IH [of states nxt qi] ok nxt qi by auto
      have "fst ?r = glob_at pattern path pi qi \<and> memo_ok pattern path (snd ?r)"
        using first unfolded pi IH [of "snd ?first" pi "qi + 1"] by auto
      note stepped = step [OF this]
      have "?G pi qi states = ?out ?r"
        using None star by (auto simp: glob_matches_at.simps [of pattern path pi qi] nxt_def Let_def case_prod_beta)
      with stepped show ?thesis by simp
    qed
  qed
qed


section \<open>Brace expansion\<close>

text \<open>Every combination of alternatives, leftmost group first.\<close>

function brace_expansions :: "string \<Rightarrow> string list" where
  "brace_expansions pattern =
     (case brace_choices pattern of None \<Rightarrow> [pattern] | Some choices \<Rightarrow> concat (map brace_expansions choices))"
  by pat_completeness auto
termination by (relation "measure length") (auto dest: brace_choices_shorter)

declare brace_expansions.simps [simp del]

lemma take_take_append: "take n (take n xs @ ys) = take n (xs @ ys)"
  by (cases "length xs \<le> n") simp_all

lemma expand_braces_spec:
  "length out \<le> limit \<Longrightarrow> expand_braces pattern out limit = take limit (out @ brace_expansions pattern)"
proof (induction "length pattern" arbitrary: pattern out rule: less_induct)
  case less
  show ?case
  proof (cases "brace_choices pattern")
    case None
    then show ?thesis
      using less.prems by (simp add: expand_braces.simps [of pattern] brace_expansions.simps [of pattern])
  next
    case (Some choices)
    let ?f = "\<lambda>choice out. if limit \<le> length out then out else expand_braces choice out limit"
    have one: "?f c o' = take limit (o' @ brace_expansions c)" if "c \<in> set choices" "length o' \<le> limit" for c o'
      using that less.hyps [OF brace_choices_shorter [OF Some that(1)] that(2)] by auto
    have "fold ?f cs o' = take limit (o' @ concat (map brace_expansions cs))"
      if "set cs \<subseteq> set choices" "length o' \<le> limit" for cs o'
      using that
    proof (induction cs arbitrary: o')
      case (Cons c cs)
      have "fold ?f (c # cs) o' = fold ?f cs (take limit (o' @ brace_expansions c))"
        using one [of c o'] Cons.prems by simp
      also have "\<dots> = take limit (take limit (o' @ brace_expansions c) @ concat (map brace_expansions cs))"
        by (rule Cons.IH) (use Cons.prems in simp_all)
      finally show ?case by (simp only: take_take_append) simp
    qed simp
    then show ?thesis
      using less.prems Some
      by (simp add: expand_braces.simps [of pattern] brace_expansions.simps [of pattern])
  qed
qed

section \<open>Properties\<close>

text \<open>
  C37. The memoised search with bounded brace expansion decides the meaning of the pattern: a
  path matches exactly when one of the first 256 brace expansions, read as tokens, accepts it:
  \<open>*\<close> any bytes of one segment, \<open>**\<close> any bytes, \<open>**/\<close> any bytes up to a segment start, \<open>?\<close> and
  a class one byte other than \<open>/\<close>, and any other byte itself.
\<close>

theorem glob_matches_meaning:
  "glob_matches pattern path \<longleftrightarrow>
     (\<exists>p \<in> set (take 256 (brace_expansions pattern)). glob_accepts True (glob_tokens p) path)"
proof -
  have "fst (glob_matches_at p path 0 0 (fresh_memo p path)) = glob_accepts True (glob_tokens p) path" for p
    using glob_matches_at_spec [OF memo_ok_fresh, of 0 p 0 path] by (simp add: glob_at_def)
  then show ?thesis using expand_braces_spec [of "[]" 256 pattern] by (simp add: glob_matches_def)
qed

text \<open>
  C38. Brace expansion under a limit yields the expansions of the pattern in order, cut at the
  limit, so a hostile pattern costs at most that many searches.
\<close>

theorem expand_braces_is_bounded_prefix:
  "expand_braces pattern [] limit = take limit (brace_expansions pattern)
   \<and> length (expand_braces pattern [] limit) \<le> limit"
  using expand_braces_spec [of "[]" limit pattern] by simp

end
