(* ===== verification/Plan_Types.thy ===== *)
theory Plan_Types
  imports Source_Position Json_Value
begin

text \<open>
  The data of \<open>mutation/planner.rs\<close> and what it observes. Planning only reads: an
  \<open>environment\<close> is the filesystem at one instant together with the crates \<open>url\<close>, \<open>sha2\<close>,
  \<open>hex\<close> and \<open>xattr\<close>. A problem keeps its code, operation, path and annotation; its message
  and data are presentation. The model is the \<open>cfg(unix)\<close> build.
\<close>

section \<open>The filesystem and the other crates\<close>

datatype node_kind = RegularNode | DirectoryNode | SymlinkNode | OtherNode

record metadata =
  md_kind :: node_kind
  md_device :: nat
  md_inode :: nat
  md_links :: nat
  md_mode :: nat
  md_uid :: nat
  md_gid :: nat
  md_len :: nat
  md_blocks :: nat

datatype stat_result = StatOk metadata | StatNotFound | StatError

text \<open>
  A file opened for inspection: its length and access time if they can be had, the bytes of a
  read to the end, and whether the access time can be restored.
\<close>

record opened_file =
  of_len :: "nat option"
  of_accessed :: bool
  of_bytes :: "string option"
  of_restored :: bool

record dir_entry =
  de_name :: string
  de_kind :: "node_kind option"

text \<open>
  \<open>env_lstat\<close> is \<open>fs::symlink_metadata\<close>, \<open>env_stat\<close> is \<open>fs::metadata\<close>. In \<open>env_read_dir\<close> the
  outer \<open>None\<close> is a failed enumeration, an inner one a failed entry. \<open>env_xattrs\<close> gives the names
  and, per name, the value (\<open>Some None\<close>: no longer present). \<open>env_parse_url\<close> gives the scheme
  of a URL that parses and its \<open>to_file_path\<close>.
\<close>

record environment =
  env_lstat :: "path \<Rightarrow> stat_result"
  env_stat :: "path \<Rightarrow> metadata option"
  env_open :: "path \<Rightarrow> opened_file option"
  env_xattrs :: "path \<Rightarrow> (string \<times> string option option) list option"
  env_read_dir :: "path \<Rightarrow> dir_entry option list option"
  env_parse_url :: "string \<Rightarrow> (string \<times> path option) option"
  env_sha :: "string \<Rightarrow> string"
  env_hex :: "string \<Rightarrow> string"

section \<open>Manifests, operations and plans\<close>

datatype resource_kind = FileKind | DirectoryKind | MissingKind

record manifest_entry =
  me_path :: path
  me_exists :: bool
  me_kind :: resource_kind
  me_identity :: "string option"
  me_content :: "string option"
  me_metadata :: "string option"

record document_version_precondition =
  dv_version :: int
  dv_digest :: string

record canonical_text_edit =
  ce_start :: nat
  ce_end :: nat
  ce_new_text :: string
  ce_annotation :: "string option"

datatype canonical_operation =
    OpText nat string path string string "canonical_text_edit list"
      \<comment> \<open>index, uri, path, before digest, after digest, edits\<close>
  | OpCreate nat string path bool bool
      \<comment> \<open>index, uri, path, overwrite, ignore if exists\<close>
  | OpRename nat string string path path bool bool
      \<comment> \<open>index, old uri, new uri, old path, new path, overwrite, ignore if exists\<close>
  | OpDelete nat string path bool bool
      \<comment> \<open>index, uri, path, recursive, ignore if not exists\<close>

record canonical_plan =
  cp_operations :: "canonical_operation list"
  cp_before :: "manifest_entry list"
  cp_intended :: "manifest_entry list"

record preview_summary =
  su_files_changed :: nat
  su_text_edits :: nat
  su_creates :: nat
  su_renames :: nat
  su_deletes :: nat

record workspace_edit_problem =
  wp_code :: string
  wp_index :: "nat option"
  wp_path :: "path option"
  wp_annotation :: "string option"

record planned_workspace_edit =
  pw_plan :: canonical_plan
  pw_annotations :: json
  pw_summary :: preview_summary

record planner =
  pl_workspace :: path
  pl_encoding :: position_encoding
  pl_max_document_text_bytes :: nat
  pl_max_text_bytes :: nat
  pl_max_entries :: nat
  pl_max_rollback_bytes :: nat
  pl_max_staged_text_bytes :: nat
  pl_max_recursion_depth :: nat
  pl_root_device :: "nat option"

record resource_state =
  rs_manifest :: manifest_entry
  rs_text :: "string option"
  rs_text_source :: "path option"

record virtual_workspace =
  vw_entries :: "(path, resource_state) btree"
  vw_before :: "(path, manifest_entry) btree"
  vw_affected :: "path list"
  vw_rollback_bytes :: nat

definition empty_virtual_workspace :: virtual_workspace where
  "empty_virtual_workspace = \<lparr>vw_entries = [], vw_before = [], vw_affected = [], vw_rollback_bytes = 0\<rparr>"

definition empty_summary :: preview_summary where
  "empty_summary = \<lparr>su_files_changed = 0, su_text_edits = 0, su_creates = 0, su_renames = 0, su_deletes = 0\<rparr>"

text \<open>\<open>problem\<close>.\<close>

definition problem :: "string \<Rightarrow> nat option \<Rightarrow> path option \<Rightarrow> workspace_edit_problem" where
  "problem cd index p = \<lparr>wp_code = cd, wp_index = index, wp_path = p, wp_annotation = None\<rparr>"

definition missing_annotation :: "nat \<Rightarrow> path option \<Rightarrow> string \<Rightarrow> workspace_edit_problem" where
  "missing_annotation index p annotation =
     \<lparr>wp_code = ''missing_annotation'', wp_index = Some index, wp_path = p, wp_annotation = Some annotation\<rparr>"

definition missing_manifest :: "path \<Rightarrow> manifest_entry" where
  "missing_manifest p =
     \<lparr>me_path = p, me_exists = False, me_kind = MissingKind, me_identity = None, me_content = None,
      me_metadata = None\<rparr>"

definition missing_resource :: "path \<Rightarrow> resource_state" where
  "missing_resource p = \<lparr>rs_manifest = missing_manifest p, rs_text = None, rs_text_source = None\<rparr>"

definition document_version_precondition ::
  "(string, document_version_precondition) btree \<Rightarrow> string \<Rightarrow> int \<Rightarrow> document_version_precondition option" where
  "document_version_precondition preconditions uri version =
     (case bt_get preconditions uri of
        None \<Rightarrow> None
      | Some p \<Rightarrow> if dv_version p = version then Some p else None)"

section \<open>Steps that may panic\<close>

text \<open>
  A computation on a state that may fail with an error, keeping the state it reached, or panic
  (\<open>None\<close>): \<open>step_bind\<close> is \<open>?\<close>.
\<close>

type_synonym ('s, 'e, 'a) step = "'s \<Rightarrow> ('s \<times> ('e + 'a)) option"

definition step_bind :: "('s, 'e, 'a) step \<Rightarrow> ('a \<Rightarrow> ('s, 'e, 'b) step) \<Rightarrow> ('s, 'e, 'b) step" where
  "step_bind m f = (\<lambda>s. case m s of
      None \<Rightarrow> None
    | Some (s', Inl e) \<Rightarrow> Some (s', Inl e)
    | Some (s', Inr a) \<Rightarrow> f a s')"

definition step_ok :: "'a \<Rightarrow> ('s, 'e, 'a) step" where
  "step_ok a = (\<lambda>s. Some (s, Inr a))"

definition step_err :: "'e \<Rightarrow> ('s, 'e, 'a) step" where
  "step_err e = (\<lambda>s. Some (s, Inl e))"

definition step_panic :: "('s, 'e, 'a) step" where
  "step_panic = (\<lambda>s. None)"

definition step_lift :: "'e + 'a \<Rightarrow> ('s, 'e, 'a) step" where
  "step_lift r = (\<lambda>s. Some (s, r))"

end
