(* ===== verification/Plan_Inspect.thy ===== *)
theory Plan_Inspect
  imports Plan_Types Ascii_Text
begin

text \<open>
  \<open>mutation/planner.rs\<close>: validation of an operation's fields, the mapping of a URI to a path
  inside the Workspace, and the inspection of a resource with its digests.
\<close>

section \<open>Fields\<close>

type_synonym object = "(string, json) btree"

definition validate_object_keys :: "object \<Rightarrow> string list \<Rightarrow> nat option \<Rightarrow> workspace_edit_problem + unit" where
  "validate_object_keys obj allowed index =
     (if list_all (\<lambda>k. k \<in> set allowed) (bt_keys obj) then Inr ()
      else Inl (problem ''unknown_operation'' index None))"

definition is_boolean :: "json \<Rightarrow> bool" where
  "is_boolean v \<longleftrightarrow> as_bool v \<noteq> None"

definition validate_resource_operation ::
  "object \<Rightarrow> string list \<Rightarrow> string list \<Rightarrow> nat \<Rightarrow> workspace_edit_problem + unit" where
  "validate_resource_operation operation allowed allowed_options index =
     (case validate_object_keys operation allowed (Some index) of
        Inl p \<Rightarrow> Inl p
      | Inr _ \<Rightarrow>
          (case bt_get operation ''options'' of
             None \<Rightarrow> Inr ()
           | Some options \<Rightarrow>
               if options = JNull then Inr ()
               else case as_object options of
                 None \<Rightarrow> Inl (problem ''unknown_operation'' (Some index) None)
               | Some opts \<Rightarrow>
                   (case validate_object_keys opts allowed_options (Some index) of
                      Inl p \<Rightarrow> Inl p
                    | Inr _ \<Rightarrow>
                        if list_all (\<lambda>e. is_boolean (snd e)) opts then Inr ()
                        else Inl (problem ''unknown_operation'' (Some index) None))))"

definition validate_annotation :: "object \<Rightarrow> object \<Rightarrow> nat \<Rightarrow> workspace_edit_problem + unit" where
  "validate_annotation operation annotations index =
     (case Option.bind (bt_get operation ''annotationId'') as_str of
        None \<Rightarrow> Inr ()
      | Some annotation \<Rightarrow>
          if bt_get annotations annotation \<noteq> None then Inr ()
          else Inl (missing_annotation index None annotation))"

definition option_bool :: "object option \<Rightarrow> string \<Rightarrow> bool" where
  "option_bool options name =
     (case Option.bind (Option.bind options (\<lambda>o'. bt_get o' name)) as_bool of None \<Rightarrow> False | Some b \<Rightarrow> b)"

section \<open>URIs and paths\<close>

text \<open>The loop that decodes \<open>%2e\<close> and \<open>%2E\<close> in a segment.\<close>

fun decode_dots :: "string \<Rightarrow> string" where
  "decode_dots [] = []"
| "decode_dots (c # s) =
     (case s of
        d # e # t \<Rightarrow>
          if c = CHR ''%'' \<and> d = CHR ''2'' \<and> (e = CHR ''e'' \<or> e = CHR ''E'') then CHR ''.'' # decode_dots t
          else c # decode_dots s
      | _ \<Rightarrow> c # decode_dots s)"

definition uri_contains_path_traversal :: "string \<Rightarrow> bool" where
  "uri_contains_path_traversal raw =
     (let after = (case split_once ''://'' raw of None \<Rightarrow> raw | Some (_, p) \<Rightarrow> p);
          p = takeWhile (\<lambda>c. c \<noteq> CHR ''?'' \<and> c \<noteq> CHR ''#'') after
      in list_ex (\<lambda>segment. decode_dots segment = ''.'' \<or> decode_dots segment = ''..'') (split_on (CHR ''/'') p))"

definition inner_component :: "component \<Rightarrow> bool" where
  "inner_component c = (case c of ParentDir \<Rightarrow> False | RootDir \<Rightarrow> False | PrefixC _ \<Rightarrow> False | _ \<Rightarrow> True)"

definition lexically_beneath :: "path \<Rightarrow> path \<Rightarrow> bool" where
  "lexically_beneath root p =
     (is_absolute p \<and> starts_with p root \<and> list_all inner_component (the (strip_path_prefix p root)))"

text \<open>\<open>to_str().is_some()\<close>.\<close>

definition path_utf8 :: "path \<Rightarrow> bool" where
  "path_utf8 p = list_all (\<lambda>c. utf8_valid (component_name c)) p"

fun walk_ancestors ::
  "environment \<Rightarrow> planner \<Rightarrow> nat \<Rightarrow> path \<Rightarrow> path \<Rightarrow> workspace_edit_problem + unit" where
  "walk_ancestors env pl index current [] = Inr ()"
| "walk_ancestors env pl index current (c # rest) =
     (let here = current @ [c]
      in case env_lstat env here of
           StatOk md \<Rightarrow>
             if md_kind md = SymlinkNode
             then Inl (problem ''symlink_or_reparse_point'' (Some index) (Some here))
             else if Some (md_device md) \<noteq> pl_root_device pl
             then Inl (problem ''volume_boundary'' (Some index) (Some here))
             else walk_ancestors env pl index here rest
         | StatNotFound \<Rightarrow> Inr ()
         | StatError \<Rightarrow> Inl (problem ''filesystem_capability_unavailable'' (Some index) (Some here)))"

definition validate_existing_ancestors ::
  "environment \<Rightarrow> planner \<Rightarrow> path \<Rightarrow> nat \<Rightarrow> workspace_edit_problem + unit" where
  "validate_existing_ancestors env pl p index =
     (case strip_path_prefix p (pl_workspace pl) of
        None \<Rightarrow> Inl (problem ''outside_workspace'' (Some index) (Some p))
      | Some relative \<Rightarrow> walk_ancestors env pl index (pl_workspace pl) relative)"

definition path_from_file_uri ::
  "environment \<Rightarrow> planner \<Rightarrow> string \<Rightarrow> nat \<Rightarrow> workspace_edit_problem + path" where
  "path_from_file_uri env pl raw index =
     (if uri_contains_path_traversal raw then Inl (problem ''path_traversal'' (Some index) None)
      else case env_parse_url env raw of
        None \<Rightarrow> Inl (problem ''malformed_uri'' (Some index) None)
      | Some (scheme, file_path) \<Rightarrow>
          if scheme \<noteq> ''file'' then Inl (problem ''unsupported_uri_scheme'' (Some index) None)
          else case file_path of
            None \<Rightarrow> Inl (problem ''malformed_uri'' (Some index) None)
          | Some p \<Rightarrow>
              if \<not> path_utf8 p then Inl (problem ''malformed_uri'' (Some index) None)
              else if p = pl_workspace pl
              then Inl (problem ''workspace_root_mutation'' (Some index) (Some p))
              else if \<not> lexically_beneath (pl_workspace pl) p
              then Inl (problem ''outside_workspace'' (Some index) (Some p))
              else case validate_existing_ancestors env pl p index of
                Inl e \<Rightarrow> Inl e
              | Inr _ \<Rightarrow> Inr p)"

section \<open>Digests and reading\<close>

fun kind_name :: "resource_kind \<Rightarrow> string" where
  "kind_name FileKind = ''file''"
| "kind_name DirectoryKind = ''directory''"
| "kind_name MissingKind = ''missing''"

definition membership_digest :: "(string \<Rightarrow> string) \<Rightarrow> (string, resource_kind) btree \<Rightarrow> string" where
  "membership_digest sha children =
     digest_canonical_value sha ''lspctl-directory-membership-v1''
       (JObject (map (\<lambda>(n, k). (n, JString (kind_name k))) children))"

definition directory_membership_digest :: "environment \<Rightarrow> (string, resource_kind) btree \<Rightarrow> string" where
  "directory_membership_digest env = membership_digest (env_sha env)"

definition hash_file :: "environment \<Rightarrow> path \<Rightarrow> nat \<Rightarrow> workspace_edit_problem + string" where
  "hash_file env p index =
     (case env_open env p of
        None \<Rightarrow> Inl (problem ''filesystem_capability_unavailable'' (Some index) (Some p))
      | Some f \<Rightarrow>
          if of_len f = None \<or> \<not> of_accessed f
          then Inl (problem ''metadata_unsupported'' (Some index) (Some p))
          else case of_bytes f of
            None \<Rightarrow> Inl (problem ''filesystem_capability_unavailable'' (Some index) (Some p))
          | Some bytes \<Rightarrow>
              if \<not> of_restored f then Inl (problem ''metadata_unsupported'' (Some index) (Some p))
              else Inr (digest_raw_bytes (env_sha env) bytes))"

definition read_text_file :: "environment \<Rightarrow> path \<Rightarrow> nat \<Rightarrow> nat \<Rightarrow> workspace_edit_problem + string" where
  "read_text_file env p limit index =
     (case env_open env p of
        None \<Rightarrow> Inl (problem ''filesystem_capability_unavailable'' (Some index) (Some p))
      | Some f \<Rightarrow>
          (case of_len f of
             None \<Rightarrow> Inl (problem ''filesystem_capability_unavailable'' (Some index) (Some p))
           | Some len \<Rightarrow>
               if limit < len then Inl (problem ''resource_limit_exceeded'' (Some index) (Some p))
               else if \<not> of_accessed f then Inl (problem ''metadata_unsupported'' (Some index) (Some p))
               else case of_bytes f of
                 None \<Rightarrow> Inl (problem ''filesystem_capability_unavailable'' (Some index) (Some p))
               | Some bytes \<Rightarrow>
                   if \<not> of_restored f then Inl (problem ''metadata_unsupported'' (Some index) (Some p))
                   else Inr bytes))"

definition identity_digest :: "environment \<Rightarrow> metadata \<Rightarrow> string" where
  "identity_digest env md =
     digest_canonical_value (env_sha env) ''lspctl-resource-identity-v1''
       (jobj [(''device'', jnat (md_device md)), (''inode'', jnat (md_inode md))])"

fun collect_xattrs :: "(string \<times> string option option) list \<Rightarrow> (string \<times> string) list option" where
  "collect_xattrs [] = Some []"
| "collect_xattrs ((name, value) # rest) =
     (case value of
        None \<Rightarrow> None
      | Some v \<Rightarrow> map_option (Cons (name, case v of None \<Rightarrow> [] | Some b \<Rightarrow> b)) (collect_xattrs rest))"

definition metadata_digest :: "environment \<Rightarrow> path \<Rightarrow> metadata \<Rightarrow> nat \<Rightarrow> workspace_edit_problem + string" where
  "metadata_digest env p md index =
     (case Option.bind (env_xattrs env p) collect_xattrs of
        None \<Rightarrow> Inl (problem ''metadata_unsupported'' (Some index) (Some p))
      | Some attributes \<Rightarrow>
          Inr (digest_canonical_value (env_sha env) ''lspctl-resource-metadata-v1''
            (jobj [(''mode'', jnat (md_mode md)), (''uid'', jnat (md_uid md)), (''gid'', jnat (md_gid md)),
                   (''extendedAttributes'',
                     jobj (map (\<lambda>(n, b). (n, JString (env_hex env b))) attributes))])))"

definition metadata_is_sparse :: "metadata \<Rightarrow> bool" where
  "metadata_is_sparse md \<longleftrightarrow> 0 < md_len md \<and> min (md_blocks md * 512) u64_max < md_len md"

definition inspect_resource ::
  "environment \<Rightarrow> planner \<Rightarrow> path \<Rightarrow> nat \<Rightarrow> bool \<Rightarrow> workspace_edit_problem + resource_state" where
  "inspect_resource env pl p index load_text =
     (case env_lstat env p of
        StatNotFound \<Rightarrow> Inr (missing_resource p)
      | StatError \<Rightarrow> Inl (problem ''filesystem_capability_unavailable'' (Some index) (Some p))
      | StatOk md \<Rightarrow>
          if md_kind md = SymlinkNode then Inl (problem ''symlink_or_reparse_point'' (Some index) (Some p))
          else if md_kind md = OtherNode then Inl (problem ''unsupported_resource_kind'' (Some index) (Some p))
          else
            let kind = (if md_kind md = RegularNode then FileKind else DirectoryKind)
            in if kind = FileKind \<and> 1 < md_links md then Inl (problem ''hard_link'' (Some index) (Some p))
               else if kind = FileKind \<and> metadata_is_sparse md
               then Inl (problem ''sparse_file_unsupported'' (Some index) (Some p))
               else case (if kind = FileKind then map_sum id Some (hash_file env p index) else Inr None) of
                 Inl e \<Rightarrow> Inl e
               | Inr content \<Rightarrow>
                   (case (if load_text
                          then map_sum id Some (read_text_file env p (pl_max_document_text_bytes pl) index)
                          else Inr None) of
                      Inl e \<Rightarrow> Inl e
                    | Inr txt \<Rightarrow>
                        (case metadata_digest env p md index of
                           Inl e \<Rightarrow> Inl e
                         | Inr metadata_dig \<Rightarrow>
                             Inr \<lparr>rs_manifest =
                                    \<lparr>me_path = p, me_exists = True, me_kind = kind,
                                     me_identity = Some (identity_digest env md),
                                     me_content = content, me_metadata = Some metadata_dig\<rparr>,
                                  rs_text = txt,
                                  rs_text_source = (if kind = FileKind then Some p else None)\<rparr>)))"

section \<open>Directories\<close>

fun collect_children ::
  "environment \<Rightarrow> planner \<Rightarrow> path \<Rightarrow> nat \<Rightarrow> dir_entry option list \<Rightarrow> (string, resource_kind) btree
     \<Rightarrow> workspace_edit_problem + (string, resource_kind) btree" where
  "collect_children env pl p index [] children = Inr children"
| "collect_children env pl p index (entry # rest) children =
     (case entry of
        None \<Rightarrow> Inl (problem ''filesystem_capability_unavailable'' (Some index) (Some p))
      | Some e \<Rightarrow>
          if \<not> utf8_valid (de_name e) then Inl (problem ''unsupported_resource_kind'' (Some index) (Some p))
          else
            let child = join_name p (de_name e)
            in case validate_existing_ancestors env pl child index of
                 Inl f \<Rightarrow> Inl f
               | Inr _ \<Rightarrow>
                   (case de_kind e of
                      None \<Rightarrow> Inl (problem ''filesystem_capability_unavailable'' (Some index) (Some p))
                    | Some k \<Rightarrow>
                        if k \<noteq> RegularNode \<and> k \<noteq> DirectoryNode
                        then Inl (problem ''unsupported_resource_kind'' (Some index) (Some child))
                        else
                          let children' = bt_insert (de_name e)
                                (if k = RegularNode then FileKind else DirectoryKind) children
                          in if pl_max_entries pl \<le> length children'
                             then Inl (problem ''resource_limit_exceeded'' (Some index) (Some p))
                             else collect_children env pl p index rest children'))"

definition directory_children ::
  "environment \<Rightarrow> planner \<Rightarrow> path \<Rightarrow> nat \<Rightarrow> workspace_edit_problem + (string, resource_kind) btree" where
  "directory_children env pl p index =
     (case validate_existing_ancestors env pl p index of
        Inl e \<Rightarrow> Inl e
      | Inr _ \<Rightarrow>
          (case env_read_dir env p of
             None \<Rightarrow> Inl (problem ''filesystem_capability_unavailable'' (Some index) (Some p))
           | Some entries \<Rightarrow> collect_children env pl p index entries []))"

section \<open>Devices and rollback bytes\<close>

definition resource_rollback_bytes :: "environment \<Rightarrow> manifest_entry \<Rightarrow> nat" where
  "resource_rollback_bytes env m =
     (if me_kind m = FileKind
      then (case env_stat env (me_path m) of None \<Rightarrow> u64_max | Some md \<Rightarrow> md_len md) else 0)"

fun first_device :: "environment \<Rightarrow> path list \<Rightarrow> nat option" where
  "first_device env [] = None"
| "first_device env (p # ps) =
     (case env_stat env p of Some md \<Rightarrow> Some (md_device md) | None \<Rightarrow> first_device env ps)"

definition nearest_existing_device :: "environment \<Rightarrow> path \<Rightarrow> nat option" where
  "nearest_existing_device env p = first_device env (p # proper_ancestors p)"

end
