(* ===== verification/Virtual_Workspace.thy ===== *)
theory Virtual_Workspace
  imports Plan_Inspect
begin

text \<open>
  \<open>mutation/planner.rs\<close>: the virtual Workspace of a plan. Resources are loaded from the
  filesystem once and then changed only in memory. \<open>None\<close> is a panic (\<open>unwrap\<close>, an absent key
  of an index expression) or, for the directory walk, not returning.
\<close>

definition entry_missing :: "virtual_workspace \<Rightarrow> path \<Rightarrow> bool" where
  "entry_missing vw p \<longleftrightarrow>
     (case bt_get (vw_entries vw) p of None \<Rightarrow> False | Some st \<Rightarrow> \<not> me_exists (rs_manifest st))"

definition load_exact_resource ::
  "environment \<Rightarrow> planner \<Rightarrow> path \<Rightarrow> nat \<Rightarrow> bool \<Rightarrow> (virtual_workspace, workspace_edit_problem, unit) step" where
  "load_exact_resource env pl p index load_text vw =
     (case bt_get (vw_entries vw) p of
        Some st \<Rightarrow>
          if load_text \<and> rs_text st = None \<and> me_exists (rs_manifest st) \<and> me_kind (rs_manifest st) = FileKind
          then (case rs_text_source st of
              None \<Rightarrow> None
            | Some source \<Rightarrow>
                (case validate_existing_ancestors env pl source index of
                   Inl e \<Rightarrow> Some (vw, Inl e)
                 | Inr _ \<Rightarrow>
                     (case read_text_file env source (pl_max_document_text_bytes pl) index of
                        Inl e \<Rightarrow> Some (vw, Inl e)
                      | Inr bytes \<Rightarrow>
                          Some (vw\<lparr>vw_entries := bt_insert p (st\<lparr>rs_text := Some bytes\<rparr>) (vw_entries vw)\<rparr>, Inr ()))))
          else Some (vw, Inr ())
      | None \<Rightarrow>
          (case (if list_ex (entry_missing vw) (proper_ancestors p) then Inr (missing_resource p)
                 else inspect_resource env pl p index load_text) of
             Inl e \<Rightarrow> Some (vw, Inl e)
           | Inr st \<Rightarrow>
               let m = rs_manifest st;
                   rollback = (if me_exists m then sat_add (vw_rollback_bytes vw) (resource_rollback_bytes env m)
                               else vw_rollback_bytes vw)
               in Some (vw\<lparr>vw_rollback_bytes := rollback, vw_before := bt_insert p m (vw_before vw),
                           vw_entries := bt_insert p st (vw_entries vw)\<rparr>, Inr ())))"

fun load_names ::
  "environment \<Rightarrow> planner \<Rightarrow> path \<Rightarrow> nat \<Rightarrow> string list \<Rightarrow> (virtual_workspace, workspace_edit_problem, unit) step" where
  "load_names env pl directory index [] = step_ok ()"
| "load_names env pl directory index (name # names) =
     step_bind (load_exact_resource env pl (join_name directory name) index False)
       (\<lambda>_. load_names env pl directory index names)"

text \<open>The listing of a directory whose membership digest is not known yet.\<close>

definition visit_directory ::
  "environment \<Rightarrow> planner \<Rightarrow> nat \<Rightarrow> path \<Rightarrow> (virtual_workspace, workspace_edit_problem, unit) step" where
  "visit_directory env pl index directory vw =
     (case bt_get (vw_entries vw) directory of
        None \<Rightarrow> None
      | Some st \<Rightarrow>
          if me_content (rs_manifest st) \<noteq> None then Some (vw, Inr ())
          else case directory_children env pl directory index of
            Inl e \<Rightarrow> Some (vw, Inl e)
          | Inr children \<Rightarrow>
              (case bt_get (vw_before vw) directory of
                 None \<Rightarrow> None
               | Some b \<Rightarrow>
                   let digest = Some (directory_membership_digest env children);
                       st' = st\<lparr>rs_manifest := (rs_manifest st)\<lparr>me_content := digest\<rparr>\<rparr>
                   in load_names env pl directory index (bt_keys children)
                        (vw\<lparr>vw_before := bt_insert directory (b\<lparr>me_content := digest\<rparr>) (vw_before vw),
                            vw_entries := bt_insert directory st' (vw_entries vw)\<rparr>)))"

definition existing_children :: "virtual_workspace \<Rightarrow> path \<Rightarrow> path list" where
  "existing_children vw directory =
     map fst (filter (\<lambda>e. parent (fst e) = Some directory \<and> me_exists (rs_manifest (snd e)))
                (subtree directory (vw_entries vw)))"

text \<open>The loop over the children; the stack \<open>pending\<close> has its top first.\<close>

fun push_children ::
  "planner \<Rightarrow> nat \<Rightarrow> path \<Rightarrow> nat \<Rightarrow> virtual_workspace \<Rightarrow> path list \<Rightarrow> (path \<times> nat) list
     \<Rightarrow> (workspace_edit_problem + (path \<times> nat) list) option" where
  "push_children pl index directory depth vw [] pending = Some (Inr pending)"
| "push_children pl index directory depth vw (child # children) pending =
     (case bt_get (vw_entries vw) child of
        None \<Rightarrow> None
      | Some st \<Rightarrow>
          let pending' = (if me_kind (rs_manifest st) = DirectoryKind
                          then (child, sat_add depth 1) # pending else pending)
          in if pl_max_entries pl < length (vw_entries vw)
             then Some (Inl (problem ''resource_limit_exceeded'' (Some index) (Some directory)))
             else push_children pl index directory depth vw children pending')"

partial_function (option) load_pending ::
  "environment \<Rightarrow> planner \<Rightarrow> nat \<Rightarrow> (path \<times> nat) list \<Rightarrow> virtual_workspace
     \<Rightarrow> (virtual_workspace \<times> (workspace_edit_problem + unit)) option" where
  "load_pending env pl index pending vw =
     (case pending of
        [] \<Rightarrow> Some (vw, Inr ())
      | item # rest \<Rightarrow>
          if pl_max_recursion_depth pl < snd item
          then Some (vw, Inl (problem ''resource_limit_exceeded'' (Some index) (Some (fst item))))
          else case visit_directory env pl index (fst item) vw of
            None \<Rightarrow> None
          | Some r \<Rightarrow>
              (case snd r of
                 Inl e \<Rightarrow> Some (fst r, Inl e)
               | Inr u \<Rightarrow>
                   (case push_children pl index (fst item) (snd item) (fst r)
                           (existing_children (fst r) (fst item)) rest of
                      None \<Rightarrow> None
                    | Some pushed \<Rightarrow>
                        (case pushed of
                           Inl e \<Rightarrow> Some (fst r, Inl e)
                         | Inr pending' \<Rightarrow> load_pending env pl index pending' (fst r)))))"

declare load_pending.simps [code]

definition load_resource_tree ::
  "environment \<Rightarrow> planner \<Rightarrow> path \<Rightarrow> nat \<Rightarrow> (virtual_workspace, workspace_edit_problem, unit) step" where
  "load_resource_tree env pl p index =
     step_bind (load_exact_resource env pl p index False)
       (\<lambda>_ vw. case bt_get (vw_entries vw) p of
           None \<Rightarrow> None
         | Some st \<Rightarrow>
             if me_kind (rs_manifest st) \<noteq> DirectoryKind then Some (vw, Inr ())
             else load_pending env pl index [(p, 0)] vw)"

definition require_existing_parent ::
  "environment \<Rightarrow> planner \<Rightarrow> virtual_workspace \<Rightarrow> path \<Rightarrow> nat \<Rightarrow> workspace_edit_problem + unit" where
  "require_existing_parent env pl vw p index =
     (let par = (case parent p of None \<Rightarrow> pl_workspace pl | Some q \<Rightarrow> q);
          missing = Inl (problem ''parent_missing'' (Some index) (Some par))
      in case bt_get (vw_entries vw) par of
           Some st \<Rightarrow> if me_kind (rs_manifest st) = DirectoryKind then Inr () else missing
         | None \<Rightarrow>
             (case env_lstat env par of
                StatOk md \<Rightarrow> if md_kind md = DirectoryNode then Inr () else missing
              | _ \<Rightarrow> missing))"

end
