(* ===== verification/Plan_Operations.thy ===== *)
theory Plan_Operations
  imports Virtual_Workspace "HOL-Library.Product_Lexorder"
begin

text \<open>
  \<open>mutation/planner.rs\<close>: the four operations of a Workspace Edit and the plan of a whole edit.
  The mutable arguments of the handlers are one \<open>plan_state\<close>.
\<close>

record plan_state =
  ps_workspace :: virtual_workspace
  ps_operations :: "canonical_operation list"
  ps_summary :: preview_summary
  ps_new_text_bytes :: nat
  ps_problems :: "workspace_edit_problem list"

definition initial_plan_state :: plan_state where
  "initial_plan_state = \<lparr>ps_workspace = empty_virtual_workspace, ps_operations = [],
     ps_summary = empty_summary, ps_new_text_bytes = 0, ps_problems = []\<rparr>"

definition push_problem :: "workspace_edit_problem \<Rightarrow> plan_state \<Rightarrow> plan_state" where
  "push_problem p s = s\<lparr>ps_problems := ps_problems s @ [p]\<rparr>"

definition push_operation :: "canonical_operation \<Rightarrow> plan_state \<Rightarrow> plan_state" where
  "push_operation op s = s\<lparr>ps_operations := ps_operations s @ [op]\<rparr>"

text \<open>\<open>if let Err(problem) = ... { problems.push(problem); return; }\<close>, for a pure step and for one on the Workspace.\<close>

definition attempt :: "workspace_edit_problem + 'a \<Rightarrow> ('a \<Rightarrow> plan_state \<Rightarrow> plan_state option) \<Rightarrow> plan_state \<Rightarrow> plan_state option" where
  "attempt r f s = (case r of Inl p \<Rightarrow> Some (push_problem p s) | Inr a \<Rightarrow> f a s)"

definition attempt_load ::
  "(virtual_workspace, workspace_edit_problem, unit) step \<Rightarrow> (plan_state \<Rightarrow> plan_state option) \<Rightarrow> plan_state \<Rightarrow> plan_state option" where
  "attempt_load m f s =
     (case m (ps_workspace s) of
        None \<Rightarrow> None
      | Some (vw, Inl p) \<Rightarrow> Some (push_problem p (s\<lparr>ps_workspace := vw\<rparr>))
      | Some (vw, Inr _) \<Rightarrow> f (s\<lparr>ps_workspace := vw\<rparr>))"

section \<open>Text edits\<close>

record parsed_text_edit =
  pe_start :: nat
  pe_end :: nat
  pe_new_text :: string
  pe_annotation :: "string option"
  pe_ordinal :: nat

definition as_u32 :: "json \<Rightarrow> nat option" where
  "as_u32 v = (case as_u64 v of None \<Rightarrow> None | Some n \<Rightarrow> if n \<le> u32_max then Some n else None)"

definition parse_position :: "json option \<Rightarrow> protocol_position option" where
  "parse_position value =
     Option.bind (Option.bind value as_object) (\<lambda>obj.
       Option.bind (Option.bind (bt_get obj ''line'') as_u32) (\<lambda>l.
         map_option (\<lambda>c. \<lparr>line = l, character = c\<rparr>) (Option.bind (bt_get obj ''character'') as_u32)))"

definition parse_text_edit ::
  "string \<Rightarrow> json \<Rightarrow> object \<Rightarrow> position_encoding \<Rightarrow> nat \<Rightarrow> path \<Rightarrow> nat \<Rightarrow> workspace_edit_problem + parsed_text_edit" where
  "parse_text_edit text edit annotations encoding index p ordinal =
     (let fail = (\<lambda>c. Inl (problem c (Some index) (Some p)))
      in case as_object edit of
        None \<Rightarrow> fail ''unknown_operation''
      | Some obj \<Rightarrow>
        (case validate_object_keys obj
                [''range'', ''newText'', ''annotationId'', ''insertTextFormat'', ''snippet''] (Some index) of
           Inl e \<Rightarrow> Inl e
         | Inr _ \<Rightarrow>
           if bt_get obj ''insertTextFormat'' \<noteq> None \<or> bt_get obj ''snippet'' \<noteq> None
           then fail ''snippet_edit_unsupported''
           else case Option.bind (bt_get obj ''newText'') as_str of
             None \<Rightarrow> fail ''snippet_edit_unsupported''
           | Some new_text \<Rightarrow>
             let annotation = Option.bind (bt_get obj ''annotationId'') as_str
             in if (case annotation of None \<Rightarrow> False | Some a \<Rightarrow> bt_get annotations a = None)
                then Inl (missing_annotation index (Some p) (the annotation))
                else case Option.bind (bt_get obj ''range'') as_object of
                  None \<Rightarrow> fail ''invalid_range''
                | Some extent \<Rightarrow>
                  (case (parse_position (bt_get extent ''start''), parse_position (bt_get extent ''end'')) of
                     (Some start, Some stop) \<Rightarrow>
                       (case (position_to_offset text start encoding, position_to_offset text stop encoding) of
                          (Some start_byte, Some end_byte) \<Rightarrow>
                            if end_byte < start_byte then fail ''invalid_range''
                            else Inr \<lparr>pe_start = start_byte, pe_end = end_byte, pe_new_text = new_text,
                                      pe_annotation = annotation, pe_ordinal = ordinal\<rparr>
                        | _ \<Rightarrow> fail ''invalid_range'')
                   | _ \<Rightarrow> fail ''invalid_range'')))"

text \<open>The loop over the raw edits: the parsed edits and the problems, each in order.\<close>

fun parse_text_edits ::
  "string \<Rightarrow> object \<Rightarrow> position_encoding \<Rightarrow> nat \<Rightarrow> path \<Rightarrow> nat \<Rightarrow> json list
     \<Rightarrow> parsed_text_edit list \<times> workspace_edit_problem list" where
  "parse_text_edits text annotations encoding index p ordinal [] = ([], [])"
| "parse_text_edits text annotations encoding index p ordinal (edit # rest) =
     (let (edits, problems) = parse_text_edits text annotations encoding index p (ordinal + 1) rest
      in case parse_text_edit text edit annotations encoding index p ordinal of
           Inr e \<Rightarrow> (e # edits, problems)
         | Inl e \<Rightarrow> (edits, e # problems))"

definition conflicting :: "parsed_text_edit \<Rightarrow> parsed_text_edit \<Rightarrow> bool" where
  "conflicting left right \<longleftrightarrow>
     pe_start right < pe_end left
     \<or> pe_start right = pe_start left \<and> (pe_end right \<noteq> pe_start right \<or> pe_end left \<noteq> pe_start left)"

fun overlapping :: "parsed_text_edit list \<Rightarrow> bool" where
  "overlapping (left # right # rest) \<longleftrightarrow> conflicting left right \<or> overlapping (right # rest)"
| "overlapping _ \<longleftrightarrow> False"

text \<open>The replacement loop; a slice out of range panics.\<close>

fun splice_edits :: "string \<Rightarrow> nat \<Rightarrow> parsed_text_edit list \<Rightarrow> string \<Rightarrow> string option" where
  "splice_edits bytes cursor [] result =
     (if cursor \<le> length bytes then Some (result @ drop cursor bytes) else None)"
| "splice_edits bytes cursor (e # edits) result =
     (if cursor \<le> pe_start e \<and> pe_start e \<le> length bytes
      then splice_edits bytes (pe_end e) edits
             (result @ take (pe_start e - cursor) (drop cursor bytes) @ pe_new_text e)
      else None)"

definition canonical_edit :: "parsed_text_edit \<Rightarrow> canonical_text_edit" where
  "canonical_edit e = \<lparr>ce_start = pe_start e, ce_end = pe_end e, ce_new_text = pe_new_text e,
     ce_annotation = pe_annotation e\<rparr>"

text \<open>The part of \<open>plan_text_operation\<close> once the file's text is at hand.\<close>

definition plan_text_edits ::
  "environment \<Rightarrow> planner \<Rightarrow> nat \<Rightarrow> string \<Rightarrow> path \<Rightarrow> json list \<Rightarrow> object \<Rightarrow> resource_state \<Rightarrow> string
     \<Rightarrow> plan_state \<Rightarrow> plan_state option" where
  "plan_text_edits env pl index uri p raw_edits annotations st bytes s =
     (let (parsed, failures) = parse_text_edits bytes annotations (pl_encoding pl) index p 0 raw_edits;
          s1 = s\<lparr>ps_problems := ps_problems s @ failures\<rparr>;
          edits = sort_key (\<lambda>e. (pe_start e, pe_end e, pe_ordinal e)) parsed
      in if overlapping edits then Some (push_problem (problem ''overlapping_edits'' (Some index) (Some p)) s1)
         else if \<exists>q \<in> set (ps_problems s1). wp_index q = Some index then Some s1
         else case splice_edits bytes 0 edits [] of
           None \<Rightarrow> None
         | Some result \<Rightarrow>
             let s2 = s1\<lparr>ps_new_text_bytes := fold (\<lambda>e n. sat_add n (length (pe_new_text e))) edits (ps_new_text_bytes s1)\<rparr>
             in case me_content (rs_manifest st) of
                  None \<Rightarrow> None
                | Some before_digest \<Rightarrow>
                    let after_digest = digest_raw_bytes (env_sha env) result
                    in if after_digest = before_digest then Some s2
                       else
                         let vw = ps_workspace s2;
                             st' = st\<lparr>rs_text := Some result,
                                      rs_manifest := (rs_manifest st)\<lparr>me_content := Some after_digest\<rparr>\<rparr>;
                             vw' = vw\<lparr>vw_entries := bt_insert p st' (vw_entries vw),
                                      vw_affected := bs_insert p (vw_affected vw)\<rparr>;
                             summary = (ps_summary s2)\<lparr>su_text_edits := sat_add (su_text_edits (ps_summary s2)) (length edits)\<rparr>
                         in Some (push_operation (OpText index uri p before_digest after_digest (map canonical_edit edits))
                                    (s2\<lparr>ps_workspace := vw', ps_summary := summary\<rparr>)))"

definition text_loaded ::
  "environment \<Rightarrow> planner \<Rightarrow> nat \<Rightarrow> string \<Rightarrow> json \<Rightarrow> object \<Rightarrow> string option \<Rightarrow> path \<Rightarrow> plan_state \<Rightarrow> plan_state option" where
  "text_loaded env pl index uri edits_value annotations expected_digest p s =
     (let fail = (\<lambda>c. Some (push_problem (problem c (Some index) (Some p)) s));
          vw = ps_workspace s
      in if expected_digest \<noteq> None \<and> Option.bind (bt_get (vw_before vw) p) me_content \<noteq> expected_digest
         then fail ''invalid_document_version''
         else case bt_get (vw_entries vw) p of
           None \<Rightarrow> None
         | Some st \<Rightarrow>
             if me_kind (rs_manifest st) \<noteq> FileKind then fail ''unsupported_resource_kind''
             else case rs_text st of
               None \<Rightarrow> fail ''resource_limit_exceeded''
             | Some bytes \<Rightarrow>
                 if \<not> utf8_valid bytes then fail ''unsupported_resource_kind''
                 else case as_array edits_value of
                   None \<Rightarrow> fail ''unknown_operation''
                 | Some raw_edits \<Rightarrow> plan_text_edits env pl index uri p raw_edits annotations st bytes s)"

definition plan_text_operation ::
  "environment \<Rightarrow> planner \<Rightarrow> nat \<Rightarrow> string \<Rightarrow> json \<Rightarrow> object \<Rightarrow> string option \<Rightarrow> plan_state \<Rightarrow> plan_state option" where
  "plan_text_operation env pl index uri edits_value annotations expected_digest =
     attempt (path_from_file_uri env pl uri index) (\<lambda>p.
       attempt_load (load_exact_resource env pl p index True)
         (text_loaded env pl index uri edits_value annotations expected_digest p))"

section \<open>Create, rename, delete\<close>

definition affect :: "path \<Rightarrow> resource_state \<Rightarrow> virtual_workspace \<Rightarrow> virtual_workspace" where
  "affect p st vw = vw\<lparr>vw_entries := bt_insert p st (vw_entries vw), vw_affected := bs_insert p (vw_affected vw)\<rparr>"

definition created_resource :: "environment \<Rightarrow> resource_state \<Rightarrow> resource_state" where
  "created_resource env st =
     st\<lparr>rs_manifest := (rs_manifest st)\<lparr>me_exists := True, me_kind := FileKind,
          me_content := Some (digest_raw_bytes (env_sha env) [])\<rparr>,
        rs_text := Some [], rs_text_source := None\<rparr>"

text \<open>A creation once its target is loaded.\<close>

definition create_loaded ::
  "environment \<Rightarrow> planner \<Rightarrow> nat \<Rightarrow> object \<Rightarrow> string \<Rightarrow> path \<Rightarrow> plan_state \<Rightarrow> plan_state option" where
  "create_loaded env pl index operation uri p s =
     (let options = Option.bind (bt_get operation ''options'') as_object;
          overwrite = option_bool options ''overwrite'';
          ignore_if_exists = option_bool options ''ignoreIfExists'';
          vw = ps_workspace s;
          fail = (\<lambda>c. Some (push_problem (problem c (Some index) (Some p)) s))
      in case bt_get (vw_entries vw) p of
           None \<Rightarrow> None
         | Some current \<Rightarrow>
             let exists = me_exists (rs_manifest current)
             in if exists \<and> \<not> overwrite then (if ignore_if_exists then Some s else fail ''target_exists'')
                else if exists \<and> me_kind (rs_manifest current) \<noteq> FileKind then fail ''resource_kind_mismatch''
                else attempt (if exists then Inr () else require_existing_parent env pl vw p index) (\<lambda>_ s.
                  let next = created_resource env (if exists then current else missing_resource p);
                      summary = (ps_summary s)\<lparr>su_creates := sat_add (su_creates (ps_summary s)) 1\<rparr>
                  in Some (push_operation (OpCreate index uri p overwrite ignore_if_exists)
                             (s\<lparr>ps_workspace := affect p next vw, ps_summary := summary\<rparr>))) s)"

definition plan_create_operation ::
  "environment \<Rightarrow> planner \<Rightarrow> nat \<Rightarrow> object \<Rightarrow> object \<Rightarrow> plan_state \<Rightarrow> plan_state option" where
  "plan_create_operation env pl index operation annotations =
     attempt (validate_resource_operation operation [''kind'', ''uri'', ''options'', ''annotationId'']
            [''overwrite'', ''ignoreIfExists''] index) (\<lambda>_.
     attempt (validate_annotation operation annotations index) (\<lambda>_ s.
       case Option.bind (bt_get operation ''uri'') as_str of
         None \<Rightarrow> Some (push_problem (problem ''malformed_uri'' (Some index) None) s)
       | Some uri \<Rightarrow>
         attempt (path_from_file_uri env pl uri index) (\<lambda>p.
         attempt_load (load_exact_resource env pl p index False)
           (create_loaded env pl index operation uri p)) s))"

text \<open>The loops of a rename over the destination tree and over the entries that move.\<close>

definition remove_resource :: "path \<Rightarrow> virtual_workspace \<Rightarrow> virtual_workspace" where
  "remove_resource p = affect p (missing_resource p)"

definition move_resource :: "path \<Rightarrow> path \<Rightarrow> path \<times> resource_state \<Rightarrow> virtual_workspace \<Rightarrow> virtual_workspace" where
  "move_resource old_path new_path e vw =
     (let relative = the (strip_path_prefix (fst e) old_path);
          target = (if relative = [] then new_path else join_path new_path relative);
          st = (snd e)\<lparr>rs_manifest := (rs_manifest (snd e))\<lparr>me_path := target\<rparr>\<rparr>
      in affect target st (remove_resource (fst e) vw))"

definition move_tree :: "path \<Rightarrow> path \<Rightarrow> virtual_workspace \<Rightarrow> virtual_workspace" where
  "move_tree old_path new_path vw =
     (let moved = subtree old_path (vw_entries vw);
          destination_tree = map fst (subtree new_path (vw_entries vw))
      in fold (move_resource old_path new_path) moved (fold remove_resource destination_tree vw))"

text \<open>A rename once its source tree and its destination are loaded, and once the destination tree is, too.\<close>

definition rename_trees ::
  "environment \<Rightarrow> planner \<Rightarrow> nat \<Rightarrow> string \<Rightarrow> string \<Rightarrow> path \<Rightarrow> path \<Rightarrow> bool \<Rightarrow> bool \<Rightarrow> plan_state \<Rightarrow> plan_state option" where
  "rename_trees env pl index old_uri new_uri old_path new_path overwrite ignore_if_exists s =
     attempt (require_existing_parent env pl (ps_workspace s) new_path index) (\<lambda>_ s.
       if nearest_existing_device env old_path \<noteq> nearest_existing_device env new_path
       then Some (push_problem (problem ''cross_volume_rename'' (Some index) (Some new_path)) s)
       else
         let summary = (ps_summary s)\<lparr>su_renames := sat_add (su_renames (ps_summary s)) 1\<rparr>
         in Some (push_operation (OpRename index old_uri new_uri old_path new_path overwrite ignore_if_exists)
                    (s\<lparr>ps_workspace := move_tree old_path new_path (ps_workspace s), ps_summary := summary\<rparr>))) s"

definition rename_loaded ::
  "environment \<Rightarrow> planner \<Rightarrow> nat \<Rightarrow> object \<Rightarrow> string \<Rightarrow> string \<Rightarrow> path \<Rightarrow> path \<Rightarrow> plan_state \<Rightarrow> plan_state option" where
  "rename_loaded env pl index operation old_uri new_uri old_path new_path s =
     (let options = Option.bind (bt_get operation ''options'') as_object;
          overwrite = option_bool options ''overwrite'';
          ignore_if_exists = option_bool options ''ignoreIfExists'';
          fail = (\<lambda>c q. Some (push_problem (problem c (Some index) (Some q)) s))
      in case (bt_get (vw_entries (ps_workspace s)) old_path, bt_get (vw_entries (ps_workspace s)) new_path) of
           (Some source, Some destination) \<Rightarrow>
             if \<not> me_exists (rs_manifest source) then fail ''source_missing'' old_path
             else if me_exists (rs_manifest destination) \<and> \<not> overwrite
             then (if ignore_if_exists then Some s else fail ''target_exists'' new_path)
             else if me_exists (rs_manifest destination)
                  \<and> me_kind (rs_manifest destination) \<noteq> me_kind (rs_manifest source)
             then fail ''resource_kind_mismatch'' new_path
             else
               attempt_load (if me_kind (rs_manifest destination) = DirectoryKind
                         then load_resource_tree env pl new_path index else step_ok ())
                 (rename_trees env pl index old_uri new_uri old_path new_path overwrite ignore_if_exists) s
         | _ \<Rightarrow> None)"

definition plan_rename_operation ::
  "environment \<Rightarrow> planner \<Rightarrow> nat \<Rightarrow> object \<Rightarrow> object \<Rightarrow> plan_state \<Rightarrow> plan_state option" where
  "plan_rename_operation env pl index operation annotations =
     attempt (validate_resource_operation operation [''kind'', ''oldUri'', ''newUri'', ''options'', ''annotationId'']
            [''overwrite'', ''ignoreIfExists''] index) (\<lambda>_.
     attempt (validate_annotation operation annotations index) (\<lambda>_ s.
       case (Option.bind (bt_get operation ''oldUri'') as_str, Option.bind (bt_get operation ''newUri'') as_str) of
         (Some old_uri, Some new_uri) \<Rightarrow>
           attempt (path_from_file_uri env pl old_uri index) (\<lambda>old_path.
           attempt (path_from_file_uri env pl new_uri index) (\<lambda>new_path s.
             if old_path = new_path
             then Some (push_problem (problem ''resource_alias'' (Some index) (Some old_path)) s)
             else if starts_with old_path new_path \<or> starts_with new_path old_path
             then Some (push_problem (problem ''ambiguous_path_sequence'' (Some index) (Some old_path)) s)
             else
               attempt_load (load_resource_tree env pl old_path index) (
               attempt_load (load_exact_resource env pl new_path index False)
                 (rename_loaded env pl index operation old_uri new_uri old_path new_path)) s)) s
       | _ \<Rightarrow> Some (push_problem (problem ''malformed_uri'' (Some index) None) s)))"

text \<open>A deletion once its tree is loaded.\<close>

definition delete_loaded ::
  "nat \<Rightarrow> object \<Rightarrow> string \<Rightarrow> path \<Rightarrow> plan_state \<Rightarrow> plan_state option" where
  "delete_loaded index operation uri p s =
     (let options = Option.bind (bt_get operation ''options'') as_object;
          recursive = option_bool options ''recursive'';
          ignore_if_not_exists = option_bool options ''ignoreIfNotExists'';
          vw = ps_workspace s;
          fail = (\<lambda>c. Some (push_problem (problem c (Some index) (Some p)) s))
      in case bt_get (vw_entries vw) p of
           None \<Rightarrow> None
         | Some source \<Rightarrow>
             if \<not> me_exists (rs_manifest source)
             then (if ignore_if_not_exists then Some s else fail ''source_missing'')
             else
               let doomed = map fst (filter (\<lambda>e. me_exists (rs_manifest (snd e))) (subtree p (vw_entries vw)))
               in if me_kind (rs_manifest source) = DirectoryKind \<and> 1 < length doomed \<and> \<not> recursive
                  then fail ''directory_not_empty''
                  else
                    let summary = (ps_summary s)\<lparr>su_deletes := sat_add (su_deletes (ps_summary s)) 1\<rparr>
                    in Some (push_operation (OpDelete index uri p recursive ignore_if_not_exists)
                               (s\<lparr>ps_workspace := fold remove_resource doomed vw, ps_summary := summary\<rparr>)))"

definition plan_delete_operation ::
  "environment \<Rightarrow> planner \<Rightarrow> nat \<Rightarrow> object \<Rightarrow> object \<Rightarrow> plan_state \<Rightarrow> plan_state option" where
  "plan_delete_operation env pl index operation annotations =
     attempt (validate_resource_operation operation [''kind'', ''uri'', ''options'', ''annotationId'']
            [''recursive'', ''ignoreIfNotExists''] index) (\<lambda>_.
     attempt (validate_annotation operation annotations index) (\<lambda>_ s.
       case Option.bind (bt_get operation ''uri'') as_str of
         None \<Rightarrow> Some (push_problem (problem ''malformed_uri'' (Some index) None) s)
       | Some uri \<Rightarrow>
         attempt (path_from_file_uri env pl uri index) (\<lambda>p.
         attempt_load (load_resource_tree env pl p index) (delete_loaded index operation uri p)) s))"

end
