(* ===== verification/Workspace_Plan.thy ===== *)
theory Workspace_Plan
  imports Plan_Operations
begin

text \<open>
  \<open>mutation/planner.rs\<close>: the plan of a whole Workspace Edit, its manifests, and the
  re-inspection of a manifest.
\<close>

type_synonym preconditions = "(string, document_version_precondition) btree"

section \<open>One \<open>documentChanges\<close> entry\<close>

definition plan_document_edit ::
  "environment \<Rightarrow> planner \<Rightarrow> preconditions \<Rightarrow> object \<Rightarrow> nat \<Rightarrow> object \<Rightarrow> json \<Rightarrow> plan_state \<Rightarrow> plan_state option" where
  "plan_document_edit env pl preconditions annotations index change text_document =
     attempt (validate_object_keys change [''textDocument'', ''edits''] (Some index)) (\<lambda>_ s.
       case as_object text_document of
         None \<Rightarrow> Some (push_problem (problem ''unknown_operation'' (Some index) None) s)
       | Some doc \<Rightarrow>
         attempt (validate_object_keys doc [''uri'', ''version''] (Some index)) (\<lambda>_ s.
           case Option.bind (bt_get doc ''uri'') as_str of
             None \<Rightarrow> Some (push_problem (problem ''malformed_uri'' (Some index) None) s)
           | Some uri \<Rightarrow>
             let version = (case bt_get doc ''version'' of None \<Rightarrow> None | Some v \<Rightarrow> if v = JNull then None else Some v);
                 precondition = Option.bind (Option.bind version as_i64)
                                  (document_version_precondition preconditions uri)
             in if version \<noteq> None \<and> precondition = None
                then Some (push_problem (problem ''invalid_document_version'' (Some index) None) s)
                else plan_text_operation env pl index uri
                       (case bt_get change ''edits'' of None \<Rightarrow> JNull | Some e \<Rightarrow> e) annotations
                       (map_option dv_digest precondition) s) s)"

definition plan_change ::
  "environment \<Rightarrow> planner \<Rightarrow> preconditions \<Rightarrow> object \<Rightarrow> nat \<Rightarrow> json \<Rightarrow> plan_state \<Rightarrow> plan_state option" where
  "plan_change env pl preconditions annotations index change s =
     (case as_object change of
        None \<Rightarrow> Some (push_problem (problem ''unknown_operation'' (Some index) None) s)
      | Some obj \<Rightarrow>
          (case bt_get obj ''textDocument'' of
             Some text_document \<Rightarrow> plan_document_edit env pl preconditions annotations index obj text_document s
           | None \<Rightarrow>
               let kind = Option.bind (bt_get obj ''kind'') as_str
               in if kind = Some ''create'' then plan_create_operation env pl index obj annotations s
                  else if kind = Some ''rename'' then plan_rename_operation env pl index obj annotations s
                  else if kind = Some ''delete'' then plan_delete_operation env pl index obj annotations s
                  else Some (push_problem (problem ''unknown_operation'' (Some index) None) s)))"

fun plan_changes ::
  "environment \<Rightarrow> planner \<Rightarrow> preconditions \<Rightarrow> object \<Rightarrow> nat \<Rightarrow> json list \<Rightarrow> plan_state \<Rightarrow> plan_state option" where
  "plan_changes env pl preconditions annotations index [] s = Some s"
| "plan_changes env pl preconditions annotations index (change # changes) s =
     Option.bind (plan_change env pl preconditions annotations index change s)
       (plan_changes env pl preconditions annotations (index + 1) changes)"

text \<open>The entries of \<open>changes\<close>, sorted by URI.\<close>

fun plan_uri_changes ::
  "environment \<Rightarrow> planner \<Rightarrow> object \<Rightarrow> nat \<Rightarrow> (string \<times> json) list \<Rightarrow> plan_state \<Rightarrow> plan_state option" where
  "plan_uri_changes env pl annotations index [] s = Some s"
| "plan_uri_changes env pl annotations index ((uri, edits) # entries) s =
     Option.bind (plan_text_operation env pl index uri edits annotations None s)
       (plan_uri_changes env pl annotations (index + 1) entries)"

section \<open>Limits and manifests\<close>

definition limit_problems :: "planner \<Rightarrow> plan_state \<Rightarrow> workspace_edit_problem list" where
  "limit_problems pl s =
     (let p = problem ''resource_limit_exceeded'' None None
      in (if pl_max_entries pl < length (vw_affected (ps_workspace s)) then [p] else [])
         @ (if pl_max_rollback_bytes pl < vw_rollback_bytes (ps_workspace s) then [p] else [])
         @ (if pl_max_text_bytes pl < ps_new_text_bytes s \<or> pl_max_staged_text_bytes pl < ps_new_text_bytes s
            then [p] else []))"

text \<open>The affected paths that have no before-image yet are inspected now.\<close>

fun complete_before ::
  "environment \<Rightarrow> planner \<Rightarrow> path list \<Rightarrow> (path, manifest_entry) btree
     \<Rightarrow> workspace_edit_problem list + (path, manifest_entry) btree" where
  "complete_before env pl [] before = Inr before"
| "complete_before env pl (p # ps) before =
     (case bt_get before p of
        Some _ \<Rightarrow> complete_before env pl ps before
      | None \<Rightarrow>
          (case inspect_resource env pl p 0 False of
             Inl e \<Rightarrow> Inl [e]
           | Inr st \<Rightarrow> complete_before env pl ps (bt_insert p (rs_manifest st) before)))"

definition virtual_children :: "virtual_workspace \<Rightarrow> path \<Rightarrow> (string, resource_kind) btree option" where
  "virtual_children vw p =
     map_option bt_of_list
       (those (map (\<lambda>e. case file_name (fst e) of
                     Some n \<Rightarrow> if utf8_valid n then Some (n, me_kind (rs_manifest (snd e))) else None
                   | None \<Rightarrow> None)
          (filter (\<lambda>e. parent (fst e) = Some p \<and> me_exists (rs_manifest (snd e))) (subtree p (vw_entries vw)))))"

definition intended_entry :: "environment \<Rightarrow> virtual_workspace \<Rightarrow> path \<Rightarrow> manifest_entry option" where
  "intended_entry env vw p =
     (let entry = (case bt_get (vw_entries vw) p of None \<Rightarrow> missing_manifest p | Some st \<Rightarrow> rs_manifest st)
      in if me_kind entry = DirectoryKind
         then map_option (\<lambda>children. entry\<lparr>me_content := Some (directory_membership_digest env children)\<rparr>)
                (virtual_children vw p)
         else Some entry)"

definition files_changed :: "manifest_entry list \<Rightarrow> manifest_entry list \<Rightarrow> nat" where
  "files_changed before intended =
     (let by_path = bt_of_list (map (\<lambda>e. (me_path e, e)) before)
      in length (filter (\<lambda>e. bt_get by_path (me_path e) \<noteq> Some e) intended))"

definition finish_plan ::
  "environment \<Rightarrow> planner \<Rightarrow> json \<Rightarrow> plan_state \<Rightarrow> (workspace_edit_problem list + planned_workspace_edit) option" where
  "finish_plan env pl annotations s =
     (let problems = ps_problems s @ limit_problems pl s; vw = ps_workspace s
      in if problems \<noteq> [] then Some (Inl problems)
         else case complete_before env pl (vw_affected vw) (vw_before vw) of
           Inl e \<Rightarrow> Some (Inl e)
         | Inr before \<Rightarrow>
             map_option
               (\<lambda>intended.
                 let before_manifest = map snd before
                 in Inr \<lparr>pw_plan = \<lparr>cp_operations = ps_operations s, cp_before = before_manifest,
                                     cp_intended = intended\<rparr>,
                         pw_annotations = annotations,
                         pw_summary = (ps_summary s)\<lparr>su_files_changed := files_changed before_manifest intended\<rparr>\<rparr>)
               (those (map (intended_entry env vw) (vw_affected vw))))"

definition plan_workspace_edit_with_document_preconditions ::
  "environment \<Rightarrow> planner \<Rightarrow> json \<Rightarrow> preconditions \<Rightarrow> (workspace_edit_problem list + planned_workspace_edit) option" where
  "plan_workspace_edit_with_document_preconditions env pl edit preconditions =
     (let reject = (\<lambda>c. Some (Inl [problem c None None]))
      in case as_object edit of
        None \<Rightarrow> reject ''unknown_operation''
      | Some obj \<Rightarrow>
        (case validate_object_keys obj [''changes'', ''documentChanges'', ''changeAnnotations''] None of
           Inl p \<Rightarrow> Some (Inl [p])
         | Inr _ \<Rightarrow>
           let annotations = (case bt_get obj ''changeAnnotations'' of None \<Rightarrow> JObject [] | Some a \<Rightarrow> a)
           in case as_object annotations of
                None \<Rightarrow> reject ''missing_annotation''
              | Some annotation_map \<Rightarrow>
                let present = (\<lambda>k. case bt_get obj k of None \<Rightarrow> False | Some v \<Rightarrow> v \<noteq> JNull);
                    has_changes = present ''changes'';
                    has_document_changes = present ''documentChanges''
                in if has_changes \<and> has_document_changes then reject ''both_changes_and_document_changes''
                   else if has_changes then
                     (case Option.bind (bt_get obj ''changes'') as_object of
                        None \<Rightarrow> reject ''unknown_operation''
                      | Some changes \<Rightarrow>
                          Option.bind (plan_uri_changes env pl annotation_map 0 (sort_key fst changes) initial_plan_state)
                            (finish_plan env pl annotations))
                   else if has_document_changes then
                     (case Option.bind (bt_get obj ''documentChanges'') as_array of
                        None \<Rightarrow> reject ''unknown_operation''
                      | Some changes \<Rightarrow>
                          Option.bind (plan_changes env pl preconditions annotation_map 0 changes initial_plan_state)
                            (finish_plan env pl annotations))
                   else finish_plan env pl annotations initial_plan_state))"

definition plan_workspace_edit ::
  "environment \<Rightarrow> planner \<Rightarrow> json \<Rightarrow> (workspace_edit_problem list + planned_workspace_edit) option" where
  "plan_workspace_edit env pl edit = plan_workspace_edit_with_document_preconditions env pl edit []"

section \<open>Re-inspection\<close>

fun inspect_each ::
  "environment \<Rightarrow> planner \<Rightarrow> path list \<Rightarrow> manifest_entry list \<times> workspace_edit_problem list" where
  "inspect_each env pl [] = ([], [])"
| "inspect_each env pl (p # ps) =
     (let (manifest, problems) = inspect_each env pl ps
      in case validate_existing_ancestors env pl p 0 of
           Inl e \<Rightarrow> (manifest, e # problems)
         | Inr _ \<Rightarrow>
             (case inspect_resource env pl p 0 False of
                Inr st \<Rightarrow> (rs_manifest st # manifest, problems)
              | Inl e \<Rightarrow> (manifest, e # problems)))"

definition inspect_manifest_paths ::
  "environment \<Rightarrow> planner \<Rightarrow> path list \<Rightarrow> workspace_edit_problem list + manifest_entry list" where
  "inspect_manifest_paths env pl paths =
     (let (manifest, problems) = inspect_each env pl paths
      in if problems = [] then Inr (sort_key me_path manifest) else Inl problems)"

fun certify_directories ::
  "environment \<Rightarrow> planner \<Rightarrow> path list \<Rightarrow> manifest_entry list \<Rightarrow> workspace_edit_problem list + manifest_entry list" where
  "certify_directories env pl certified [] = Inr []"
| "certify_directories env pl certified (e # es) =
     (let continue = (\<lambda>e'. map_sum id (Cons e') (certify_directories env pl certified es))
      in if me_kind e = DirectoryKind \<and> me_path e \<in> set certified
         then (case directory_children env pl (me_path e) 0 of
                 Inl p \<Rightarrow> Inl [p]
               | Inr children \<Rightarrow> continue (e\<lparr>me_content := Some (directory_membership_digest env children)\<rparr>))
         else continue e)"

definition inspect_manifest ::
  "environment \<Rightarrow> planner \<Rightarrow> manifest_entry list \<Rightarrow> workspace_edit_problem list + manifest_entry list" where
  "inspect_manifest env pl template =
     (let certified = map me_path (filter (\<lambda>e. me_kind e = DirectoryKind \<and> me_content e \<noteq> None) template)
      in case inspect_manifest_paths env pl (map me_path template) of
           Inl e \<Rightarrow> Inl e
         | Inr observed \<Rightarrow> certify_directories env pl certified observed)"

end
