(* ===== verification/Plan_Disk.thy ===== *)
theory Plan_Disk
  imports Workspace_Plan
begin

text \<open>
  What the planner may rely on about the filesystem it reads, and what the validation and the
  inspection of a path establish. \<open>posix_fs\<close> collects documented behaviour of path resolution,
  of directory listings and of \<open>Path::components\<close>; nothing else is assumed of an environment.
\<close>

section \<open>Assumptions on the environment\<close>

definition on_disk :: "environment \<Rightarrow> path \<Rightarrow> bool" where
  "on_disk env p \<longleftrightarrow> (\<exists>md. env_lstat env p = StatOk md)"

definition disk_dir :: "environment \<Rightarrow> path \<Rightarrow> bool" where
  "disk_dir env p \<longleftrightarrow> (\<exists>md. env_lstat env p = StatOk md \<and> md_kind md = DirectoryNode)"

text \<open>
  An entry is found only inside a directory (or through a symlink to one); below a path that is
  not found nothing is found, and below a path whose lookup fails every lookup fails; a listing names
  every entry of the directory; the components of an absolute path never are \<open>CurDir\<close>.
\<close>

definition posix_fs :: "environment \<Rightarrow> bool" where
  "posix_fs env \<longleftrightarrow>
     (\<forall>p n md. env_lstat env (join_name p n) = StatOk md \<longrightarrow>
        (\<exists>md'. env_lstat env p = StatOk md' \<and> md_kind md' \<in> {DirectoryNode, SymlinkNode}))
     \<and> (\<forall>p n. env_lstat env p = StatNotFound \<longrightarrow> env_lstat env (join_name p n) = StatNotFound)
     \<and> (\<forall>p n. env_lstat env p = StatError \<longrightarrow> env_lstat env (join_name p n) = StatError)
     \<and> (\<forall>p listing n. env_read_dir env p = Some listing \<longrightarrow> on_disk env (join_name p n) \<longrightarrow>
          (\<exists>e. Some e \<in> set listing \<and> de_name e = n))
     \<and> (\<forall>raw scheme p. env_parse_url env raw = Some (scheme, Some p) \<longrightarrow> CurDir \<notin> set p)"

lemma posix_parent:
  assumes "posix_fs env" "on_disk env (join_name p n)"
  obtains md where "env_lstat env p = StatOk md" "md_kind md \<in> {DirectoryNode, SymlinkNode}"
  using assms unfolding posix_fs_def on_disk_def by blast

lemma posix_not_found:
  "posix_fs env \<Longrightarrow> env_lstat env p = StatNotFound \<Longrightarrow> env_lstat env (join_name p n) = StatNotFound"
  by (auto simp: posix_fs_def)

lemma posix_error:
  "posix_fs env \<Longrightarrow> env_lstat env p = StatError \<Longrightarrow> env_lstat env (join_name p n) = StatError"
  by (auto simp: posix_fs_def)

lemma posix_listed:
  "posix_fs env \<Longrightarrow> env_read_dir env p = Some listing \<Longrightarrow> on_disk env (join_name p n)
     \<Longrightarrow> \<exists>e. Some e \<in> set listing \<and> de_name e = n"
  by (auto simp: posix_fs_def)

lemma posix_url:
  "posix_fs env \<Longrightarrow> env_parse_url env raw = Some (scheme, Some p) \<Longrightarrow> CurDir \<notin> set p"
  unfolding posix_fs_def by blast

lemma disk_dir_on_disk [simp]: "disk_dir env p \<Longrightarrow> on_disk env p"
  by (auto simp: disk_dir_def on_disk_def)

lemma on_disk_cases:
  "on_disk env p \<or> env_lstat env p = StatNotFound \<or> env_lstat env p = StatError"
  by (cases "env_lstat env p") (auto simp: on_disk_def)

section \<open>Paths inside the Workspace\<close>

definition confined :: "planner \<Rightarrow> path \<Rightarrow> bool" where
  "confined pl p \<longleftrightarrow>
     (\<exists>names. names \<noteq> [] \<and> p = pl_workspace pl @ map Normal names \<and> list_all utf8_valid names)"

text \<open>The strict relations between paths that the invariants are about.\<close>

definition below :: "path \<Rightarrow> path \<Rightarrow> bool" where
  "below p q \<longleftrightarrow> starts_with p q \<and> p \<noteq> q"

lemma below_join_name [simp]: "below (join_name p n) p"
  by (simp add: below_def join_name_def)

lemma below_irrefl [simp]: "\<not> below p p"
  by (simp add: below_def)

lemma below_trans: "below p q \<Longrightarrow> below q r \<Longrightarrow> below p r"
  by (auto simp: below_def starts_with_def)

lemma below_starts: "below p q \<Longrightarrow> starts_with q r \<Longrightarrow> below p r"
  by (auto simp: below_def starts_with_def prefix_order.antisym)

lemma starts_below: "starts_with p q \<Longrightarrow> below q r \<Longrightarrow> below p r"
  by (auto simp: below_def starts_with_def prefix_order.antisym)

lemma starts_with_below: "starts_with p q \<longleftrightarrow> p = q \<or> below p q"
  by (auto simp: below_def)

lemma below_linear: "starts_with p q \<Longrightarrow> starts_with p r \<Longrightarrow> q = r \<or> below q r \<or> below r q"
  unfolding below_def starts_with_def using prefix_same_cases by blast

lemma confined_below: "confined pl p \<Longrightarrow> below p (pl_workspace pl)"
  by (auto simp: confined_def below_def)

lemma confined_join_name: "confined pl p \<Longrightarrow> utf8_valid n \<Longrightarrow> confined pl (join_name p n)"
  unfolding confined_def join_name_def
  by (elim exE, rename_tac names) (rule_tac x = "names @ [n]" in exI, simp)

lemma confined_last: "confined pl p \<Longrightarrow> \<exists>q n. p = join_name q n \<and> utf8_valid n"
proof -
  assume "confined pl p"
  then obtain names where names: "names \<noteq> []" "p = pl_workspace pl @ map Normal names" "list_all utf8_valid names"
    by (auto simp: confined_def)
  then obtain us u where "names = us @ [u]" by (cases names rule: rev_cases) auto
  with names have "p = join_name (pl_workspace pl @ map Normal us) u \<and> utf8_valid u"
    by (simp add: join_name_def)
  then show ?thesis by blast
qed

lemma confined_between:
  assumes "confined pl p" "starts_with p q" "below q (pl_workspace pl)"
  shows "confined pl q"
proof -
  obtain names where n: "p = pl_workspace pl @ map Normal names" "list_all utf8_valid names"
    using assms(1) by (auto simp: confined_def)
  obtain rel where q: "q = pl_workspace pl @ rel" "rel \<noteq> []"
    using assms(3) by (auto simp: below_def starts_with_iff)
  then obtain rest where "map Normal names = rel @ rest"
    using assms(2) n by (auto simp: starts_with_iff)
  then obtain us vs where "names = us @ vs" "rel = map Normal us"
    by (auto simp: map_eq_append_conv)
  with n q show ?thesis by (auto simp: confined_def)
qed

text \<open>The step from a path toward a path below it.\<close>

lemma below_step:
  assumes "below p q" "confined pl p" "starts_with q (pl_workspace pl)"
  obtains n where "starts_with p (join_name q n)" "utf8_valid n"
proof -
  obtain names where n: "p = pl_workspace pl @ map Normal names" "list_all utf8_valid names"
    using assms(2) by (auto simp: confined_def)
  obtain rel where q: "q = pl_workspace pl @ rel"
    using assms(3) by (auto simp: starts_with_iff)
  obtain rest where "map Normal names = rel @ rest" "rest \<noteq> []"
    using assms(1) n q by (auto simp: below_def starts_with_iff)
  then obtain us v vs where "names = us @ v # vs" "rel = map Normal us" "rest = Normal v # map Normal vs"
    by (auto simp: map_eq_append_conv Cons_eq_map_conv neq_Nil_conv)
  with n q show thesis
    by (intro that [of v]) (auto simp: join_name_def starts_with_iff)
qed

lemma below_length: "below p q \<Longrightarrow> length q < length p"
  by (auto simp: below_def starts_with_iff)

lemma below_join: "below (join_name q n) r \<longleftrightarrow> starts_with q r"
proof
  assume "below (join_name q n) r"
  then show "starts_with q r"
    by (auto simp: below_def starts_with_def join_name_def prefix_snoc)
next
  assume "starts_with q r"
  then show "below (join_name q n) r"
    by (auto simp: below_def starts_with_iff join_name_def)
qed

lemma confined_cases:
  assumes "confined pl p"
  obtains n where "p = join_name (pl_workspace pl) n" "utf8_valid n"
    | q n where "p = join_name q n" "confined pl q" "utf8_valid n"
proof -
  obtain q n where p: "p = join_name q n" "utf8_valid n"
    using confined_last [OF assms] by blast
  have "starts_with q (pl_workspace pl)"
    using confined_below [OF assms] by (simp add: p below_join)
  with p assms that show thesis
    by (metis confined_between starts_with_below starts_with_join_name)
qed

section \<open>Validation of a path\<close>

text \<open>
  \<open>validated\<close>: the ancestors walk from the Workspace to the path meets no symlink, no other
  device and no failed lookup before the first name that is not found.
\<close>

definition plain_on_root :: "environment \<Rightarrow> planner \<Rightarrow> path \<Rightarrow> bool" where
  "plain_on_root env pl p \<longleftrightarrow>
     (case env_lstat env p of
        StatOk md \<Rightarrow> md_kind md \<noteq> SymlinkNode \<and> Some (md_device md) = pl_root_device pl
      | StatNotFound \<Rightarrow> True
      | StatError \<Rightarrow> False)"

definition validated :: "environment \<Rightarrow> planner \<Rightarrow> path \<Rightarrow> bool" where
  "validated env pl p \<longleftrightarrow> (\<forall>q. starts_with p q \<and> below q (pl_workspace pl) \<longrightarrow> plain_on_root env pl q)"

lemma walk_ancestors_ok:
  assumes "posix_fs env" "walk_ancestors env pl index current (map Normal names) = Inr ()"
    and "starts_with (current @ map Normal names) q" "below q current"
  shows "plain_on_root env pl q"
  using assms(2-4)
proof (induction names arbitrary: current)
  case (Cons n names)
  let ?here = "join_name current n"
  have q: "q = ?here \<or> below q ?here"
    using Cons.prems(2,3) by (auto simp: below_def starts_with_iff join_name_def Cons_eq_append_conv)
  have absent: "plain_on_root env pl q" if "env_lstat env ?here = StatNotFound"
  proof -
    obtain us where "q = ?here @ map Normal us"
      using q Cons.prems(2)
      by (auto simp: below_def starts_with_iff join_name_def map_eq_append_conv)
         (metis append.right_neutral list.simps(8))
    then have "env_lstat env q = StatNotFound"
      using that
    proof (induction us arbitrary: q rule: rev_induct)
      case (snoc u us)
      then show ?case
        using posix_not_found [OF assms(1), of "?here @ map Normal us" u] by (simp add: join_name_def)
    qed simp
    then show ?thesis by (simp add: plain_on_root_def)
  qed
  show ?case
  proof (cases "env_lstat env ?here")
    case (StatOk md)
    then have "plain_on_root env pl ?here"
      and "walk_ancestors env pl index ?here (map Normal names) = Inr ()"
      using Cons.prems(1) by (auto simp: Let_def join_name_def plain_on_root_def split: if_splits)
    then show ?thesis
      using q Cons.IH [of ?here] Cons.prems(2) by (auto simp: join_name_def)
  next
    case StatNotFound
    then show ?thesis by (rule absent)
  next
    case StatError
    then show ?thesis using Cons.prems(1) by (simp add: Let_def join_name_def)
  qed
qed (auto simp: below_def starts_with_def dest: prefix_order.antisym)

lemma walk_ancestors_complete:
  assumes "\<And>q. starts_with (current @ rel) q \<Longrightarrow> below q current \<Longrightarrow> plain_on_root env pl q"
  shows "walk_ancestors env pl index current rel = Inr ()"
  using assms
proof (induction rel arbitrary: current)
  case (Cons c rel)
  let ?here = "current @ [c]"
  have "plain_on_root env pl ?here"
    by (rule Cons.prems) (auto simp: starts_with_iff below_def)
  moreover have "walk_ancestors env pl index ?here rel = Inr ()"
    by (rule Cons.IH, rule Cons.prems) (auto simp: below_def starts_with_iff)
  ultimately show ?case
    by (auto simp: plain_on_root_def split: stat_result.splits)
qed simp

lemma validate_existing_ancestors_iff:
  assumes "posix_fs env" "confined pl p"
  shows "validate_existing_ancestors env pl p index = Inr () \<longleftrightarrow> validated env pl p"
proof -
  obtain names where "p = pl_workspace pl @ map Normal names"
    using assms(2) by (auto simp: confined_def)
  then show ?thesis
    using walk_ancestors_ok [OF assms(1)] walk_ancestors_complete
    by (auto simp: validate_existing_ancestors_def validated_def)
qed

lemma validate_not_Inl:
  "validate_existing_ancestors env pl p index = Inr u \<longleftrightarrow> validate_existing_ancestors env pl p index = Inr ()"
  by simp

lemma validated_up: "validated env pl p \<Longrightarrow> starts_with p q \<Longrightarrow> validated env pl q"
  unfolding validated_def using starts_with_trans by blast

lemma validated_self:
  "validated env pl p \<Longrightarrow> confined pl p \<Longrightarrow> plain_on_root env pl p"
  by (simp add: validated_def confined_below)

text \<open>The directories above a validated path that is on the disk.\<close>

lemma on_disk_up:
  assumes "posix_fs env" "on_disk env (join_name q n)"
  shows "on_disk env q"
  using posix_parent [OF assms] by (auto simp: on_disk_def)

lemma validated_parent_dir:
  assumes "posix_fs env" "validated env pl (join_name q n)" "on_disk env (join_name q n)"
    and "below q (pl_workspace pl)"
  shows "disk_dir env q"
proof -
  obtain md where md: "env_lstat env q = StatOk md" "md_kind md \<in> {DirectoryNode, SymlinkNode}"
    using posix_parent [OF assms(1,3)] by blast
  have "plain_on_root env pl q"
    using assms(2,4) unfolding validated_def by (meson starts_with_join_name)
  with md show ?thesis by (auto simp: plain_on_root_def disk_dir_def)
qed

lemma validated_ancestor_dir:
  assumes "posix_fs env" "confined pl p" "validated env pl p" "on_disk env p"
    and "below p q" "below q (pl_workspace pl)"
  shows "disk_dir env q"
  using assms(2-5)
proof (induction "length p" arbitrary: p rule: less_induct)
  case less
  then obtain r n where p: "p = join_name r n"
    using confined_last by blast
  with less.prems(4) have r: "starts_with r q" by (simp add: below_join)
  have "below r (pl_workspace pl)" using r assms(6) by (rule starts_below)
  with less.prems p have "disk_dir env r" "confined pl r" "validated env pl r"
    using validated_parent_dir [OF assms(1)] confined_between validated_up
    by (auto simp: starts_with_below)
  with less.hyps [of r] r p show ?case
    by (auto simp: starts_with_below join_name_def)
qed

text \<open>Below a validated path that is not on the disk, nothing is.\<close>

lemma validated_not_found:
  assumes "validated env pl p" "confined pl p" "\<not> on_disk env p"
  shows "env_lstat env p = StatNotFound"
  using validated_self [OF assms(1,2)] assms(3)
  by (auto simp: plain_on_root_def on_disk_def split: stat_result.splits)

text \<open>No symlink and no other device on the way to the path, as far as the disk has it.\<close>

definition plain_path :: "environment \<Rightarrow> planner \<Rightarrow> path \<Rightarrow> bool" where
  "plain_path env pl p \<longleftrightarrow>
     (\<forall>q. starts_with p q \<and> below q (pl_workspace pl) \<and> on_disk env q \<longrightarrow> plain_on_root env pl q)"

lemma plain_pathI: "validated env pl p \<Longrightarrow> plain_path env pl p"
  by (simp add: plain_path_def validated_def)

lemma error_below:
  assumes "posix_fs env" "env_lstat env q = StatError" "confined pl p" "below p q" "below q (pl_workspace pl)"
  shows "env_lstat env p = StatError"
  using assms(3,4)
proof (induction "length p" arbitrary: p rule: less_induct)
  case less
  obtain r n where p: "p = join_name r n" using confined_last [OF less.prems(1)] by blast
  show ?case
  proof (cases "r = q")
    case True
    then show ?thesis using posix_error [OF assms(1,2), of n] by (simp add: p)
  next
    case False
    have "starts_with r q" using less.prems(2) by (simp add: p below_join)
    with False have r: "below r q" by (simp add: below_def)
    then have "confined pl r"
      using confined_between [OF less.prems(1), of r] below_trans [OF r assms(5)] by (simp add: p)
    with r less.hyps [of r] posix_error [OF assms(1), of r n] show ?thesis by (simp add: p join_name_def)
  qed
qed

text \<open>A plain path that is not found is validated.\<close>

lemma plain_not_found:
  assumes "posix_fs env" "confined pl p" "plain_path env pl p" "env_lstat env p = StatNotFound"
  shows "validated env pl p"
  unfolding validated_def
proof (intro allI impI, elim conjE)
  fix q assume q: "starts_with p q" "below q (pl_workspace pl)"
  have "env_lstat env q \<noteq> StatError"
    using error_below [OF assms(1) _ assms(2) _ q(2)] assms(4) q(1) by (cases "p = q") (auto simp: below_def)
  then show "plain_on_root env pl q"
    using assms(3) q on_disk_cases [of env q] by (auto simp: plain_path_def plain_on_root_def)
qed

section \<open>What the checks of a URI establish\<close>

lemma lexically_confined:
  assumes "lexically_beneath (pl_workspace pl) p" "p \<noteq> pl_workspace pl" "path_utf8 p" "CurDir \<notin> set p"
  shows "confined pl p"
proof -
  obtain rel where rel: "p = pl_workspace pl @ rel" "list_all inner_component rel"
    using assms(1) by (auto simp: lexically_beneath_def starts_with_iff)
  then have "rel \<noteq> []" using assms(2) by auto
  have "\<exists>names. rel = map Normal names \<and> list_all utf8_valid names"
    using rel(2) assms(3,4) unfolding rel(1)
  proof (induction rel)
    case (Cons c rel)
    then obtain names where "rel = map Normal names" "list_all utf8_valid names"
      by (auto simp: path_utf8_def)
    moreover from Cons.prems obtain n where "c = Normal n" "utf8_valid n"
      by (cases c) (auto simp: inner_component_def path_utf8_def)
    ultimately show ?case by (intro exI [of _ "n # names"]) simp
  qed simp
  with rel \<open>rel \<noteq> []\<close> show ?thesis by (auto simp: confined_def)
qed

lemma path_from_file_uri_ok:
  assumes "posix_fs env" "path_from_file_uri env pl raw index = Inr p"
  shows "confined pl p" "validated env pl p" "\<not> uri_contains_path_traversal raw"
    "env_parse_url env raw = Some (''file'', Some p)"
proof -
  note r = assms(2) [unfolded path_from_file_uri_def]
  show u: "env_parse_url env raw = Some (''file'', Some p)" and "\<not> uri_contains_path_traversal raw"
    using r by (auto split: if_splits option.splits sum.splits)
  have v: "lexically_beneath (pl_workspace pl) p" "p \<noteq> pl_workspace pl" "path_utf8 p"
    "validate_existing_ancestors env pl p index = Inr ()"
    using r by (auto split: if_splits option.splits sum.splits)
  from v show c: "confined pl p"
    using posix_url [OF assms(1) u] by (intro lexically_confined)
  with v show "validated env pl p" by (simp add: validate_existing_ancestors_iff [OF assms(1)])
qed

section \<open>What an inspection finds\<close>

lemma digest_index:
  "hash_file env p i = Inr d \<Longrightarrow> hash_file env p j = Inr d"
  "metadata_digest env p md i = Inr d \<Longrightarrow> metadata_digest env p md j = Inr d"
  by (auto simp: hash_file_def metadata_digest_def split: option.splits if_splits)

text \<open>An inspection that succeeds finds nothing, or a regular file, or a directory.\<close>

lemma inspect_resource_cases:
  assumes "inspect_resource env pl p index load_text = Inr st"
  obtains (missing) "env_lstat env p = StatNotFound" "st = missing_resource p"
  | (regular) md d m where "env_lstat env p = StatOk md" "md_kind md = RegularNode"
      "rs_manifest st = \<lparr>me_path = p, me_exists = True, me_kind = FileKind,
         me_identity = Some (identity_digest env md), me_content = Some d, me_metadata = Some m\<rparr>"
      "hash_file env p index = Inr d" "metadata_digest env p md index = Inr m" "rs_text_source st = Some p"
      "md_links md \<le> 1" "\<not> metadata_is_sparse md"
      "if load_text then \<exists>b. rs_text st = Some b \<and> read_text_file env p (pl_max_document_text_bytes pl) index = Inr b
       else rs_text st = None"
  | (directory) md m where "env_lstat env p = StatOk md" "md_kind md = DirectoryNode"
      "rs_manifest st = \<lparr>me_path = p, me_exists = True, me_kind = DirectoryKind,
         me_identity = Some (identity_digest env md), me_content = None, me_metadata = Some m\<rparr>"
      "metadata_digest env p md index = Inr m" "rs_text_source st = None" "\<not> load_text \<Longrightarrow> rs_text st = None"
proof (cases "env_lstat env p")
  case StatNotFound
  with assms show thesis by (intro missing) (auto simp: inspect_resource_def)
next
  case StatError
  with assms show thesis by (simp add: inspect_resource_def)
next
  case (StatOk md)
  note r = assms [unfolded inspect_resource_def StatOk stat_result.case]
  consider "md_kind md = RegularNode" | "md_kind md = DirectoryNode"
    using r by (cases "md_kind md") auto
  then show thesis
  proof cases
    case 1
    with r StatOk show thesis
      by (intro regular [of md "the (me_content (rs_manifest st))" "the (me_metadata (rs_manifest st))"])
         (auto simp: Let_def map_sum_def split: if_splits sum.splits)
  next
    case 2
    with r StatOk show thesis
      by (intro directory [of md "the (me_metadata (rs_manifest st))"])
         (auto simp: Let_def map_sum_def split: if_splits sum.splits)
  qed
qed

text \<open>The manifest an inspection reports does not depend on the operation or on loading the text.\<close>

lemma inspect_manifest_again:
  assumes "inspect_resource env pl p index load_text = Inr st"
  shows "\<exists>st'. inspect_resource env pl p 0 False = Inr st' \<and> rs_manifest st' = rs_manifest st"
  using assms
proof (cases rule: inspect_resource_cases)
  case missing
  then show ?thesis by (simp add: inspect_resource_def)
next
  case regular

  show ?thesis
    using regular digest_index(1) [OF regular(4), of 0] digest_index(2) [OF regular(5), of 0]
    by (auto simp: inspect_resource_def Let_def)
next
  case directory
  show ?thesis
    using directory digest_index(2) [OF directory(4), of 0]
    by (auto simp: inspect_resource_def Let_def)
qed

section \<open>What a listing establishes\<close>

lemma collect_children_step:
  assumes "posix_fs env" "confined pl p"
    and c: "collect_children env pl p index (entry # listing) children = Inr result"
  obtains e k where "entry = Some e" "utf8_valid (de_name e)" "validated env pl (join_name p (de_name e))"
    "collect_children env pl p index listing (bt_insert (de_name e) k children) = Inr result"
proof -
  obtain e where entry: "entry = Some e" using c by (cases entry) auto
  note c' = c [unfolded entry, simplified Let_def collect_children.simps option.case]
  have u: "utf8_valid (de_name e)"
    using c' by (simp split: if_splits)
  have v: "validate_existing_ancestors env pl (join_name p (de_name e)) index = Inr ()"
    using c' u by (cases "validate_existing_ancestors env pl (join_name p (de_name e)) index") simp_all
  have k: "\<exists>k. collect_children env pl p index listing (bt_insert (de_name e) k children) = Inr result"
  proof (cases "de_kind e")
    case None
    with c' u v show ?thesis by simp
  next
    case (Some kind)
    let ?k = "if kind = RegularNode then FileKind else DirectoryKind"
    have "collect_children env pl p index listing (bt_insert (de_name e) ?k children) = Inr result"
      using c' u v Some by (simp del: bt_get_insert split: if_split_asm)
    then show ?thesis by blast
  qed
  have "validated env pl (join_name p (de_name e))"
    using v validate_existing_ancestors_iff [OF assms(1) confined_join_name [OF assms(2) u]] by blast
  with k show thesis using that [OF entry u] by (elim exE)
qed

lemma collect_children_ok:
  assumes "posix_fs env" "confined pl p" "bt_ok children"
    and "collect_children env pl p index listing children = Inr result"
  shows "bt_ok result"
    and "bt_get result n \<noteq> None \<longleftrightarrow> bt_get children n \<noteq> None \<or> (\<exists>e. Some e \<in> set listing \<and> de_name e = n)"
    and "\<forall>e. Some e \<in> set listing \<longrightarrow> utf8_valid (de_name e) \<and> validated env pl (join_name p (de_name e))"
  using assms(3,4)
proof (induction listing arbitrary: children)
  case (Cons entry listing)
  { case 1
    then obtain e k where "entry = Some e" "collect_children env pl p index listing (bt_insert (de_name e) k children) = Inr result"
      by (blast elim: collect_children_step [OF assms(1,2)])
    then show ?case using 1 by (intro Cons.IH(1) [of "bt_insert (de_name e) k children"] bt_ok_insert) }
  { case 2
    then obtain e k where e: "entry = Some e"
      "collect_children env pl p index listing (bt_insert (de_name e) k children) = Inr result"
      by (blast elim: collect_children_step [OF assms(1,2)])
    have "bt_ok (bt_insert (de_name e) k children)" using 2 by blast
    from Cons.IH(2) [OF this e(2)] show ?case unfolding e(1) by (auto split: if_splits) }
  { case 3
    then obtain e k where e: "entry = Some e" "utf8_valid (de_name e)" "validated env pl (join_name p (de_name e))"
      "collect_children env pl p index listing (bt_insert (de_name e) k children) = Inr result"
      by (blast elim: collect_children_step [OF assms(1,2)])
    have "bt_ok (bt_insert (de_name e) k children)" using 3 by blast
    from Cons.IH(3) [OF this e(4)] show ?case using e(1-3) by simp }
qed auto

lemma directory_children_ok:
  assumes "posix_fs env" "confined pl p" "directory_children env pl p index = Inr children"
  shows "bt_ok children" "validated env pl p"
    and "on_disk env (join_name p n) \<Longrightarrow> n \<in> set (bt_keys children)"
    and "n \<in> set (bt_keys children) \<Longrightarrow> utf8_valid n \<and> validated env pl (join_name p n)"
proof -
  obtain listing where l: "env_read_dir env p = Some listing" "validate_existing_ancestors env pl p index = Inr ()"
    "collect_children env pl p index listing [] = Inr children"
    using assms(3) by (auto simp: directory_children_def split: sum.splits option.splits)
  note c = collect_children_ok [OF assms(1,2) bt_ok_empty l(3)]
  show "bt_ok children" by (rule c)
  show "validated env pl p" using l(2) by (simp add: validate_existing_ancestors_iff [OF assms(1,2)])
  have "n \<in> set (bt_keys children) \<longleftrightarrow> (\<exists>e. Some e \<in> set listing \<and> de_name e = n)" for n
    using c(2) [of n] by (force simp: bt_keys_def map_of_eq_None_iff)
  then show "on_disk env (join_name p n) \<Longrightarrow> n \<in> set (bt_keys children)"
    "n \<in> set (bt_keys children) \<Longrightarrow> utf8_valid n \<and> validated env pl (join_name p n)"
    using posix_listed [OF assms(1) l(1)] c(3) by auto
qed

text \<open>A successful listing does not depend on the operation it is made for.\<close>

lemma walk_ancestors_index:
  "walk_ancestors env pl i current rel = Inr u \<Longrightarrow> walk_ancestors env pl j current rel = Inr u"
  by (induction rel arbitrary: current) (auto simp: Let_def split: stat_result.splits if_splits)

lemma validate_index:
  "validate_existing_ancestors env pl p i = Inr u \<Longrightarrow> validate_existing_ancestors env pl p j = Inr u"
  by (auto simp: validate_existing_ancestors_def dest: walk_ancestors_index split: option.splits)

lemma collect_children_index:
  "collect_children env pl p i listing children = Inr r \<Longrightarrow> collect_children env pl p j listing children = Inr r"
proof (induction listing arbitrary: children)
  case (Cons entry listing)
  then show ?case
    using validate_index [where i = i and j = j]
    by (fastforce simp: Let_def split: option.splits sum.splits if_splits)
qed simp

lemma directory_children_index:
  assumes "directory_children env pl p i = Inr r"
  shows "directory_children env pl p j = Inr r"
proof -
  have "validate_existing_ancestors env pl p i = Inr ()"
    using assms by (auto simp: directory_children_def split: sum.splits)
  from validate_index [OF this, of j] show ?thesis
    using assms collect_children_index [where i = i and j = j]
    by (auto simp: directory_children_def split: sum.splits option.splits)
qed

end
