(* ===== verification/Text_Edits.thy ===== *)
theory Text_Edits
  imports Plan_Operations
begin

text \<open>
  The text edits of one Document: what parsing establishes, the order and disjointness that the
  sort and the overlap check establish, and the meaning of the splice.
\<close>

section \<open>Parsed edits\<close>

definition edit_in :: "string \<Rightarrow> parsed_text_edit \<Rightarrow> bool" where
  "edit_in text e \<longleftrightarrow>
     pe_start e \<le> pe_end e \<and> pe_end e \<le> length text
     \<and> is_char_boundary text (pe_start e) \<and> is_char_boundary text (pe_end e)"

lemma parse_text_edit_ok:
  assumes "parse_text_edit text edit annotations enc index p ordinal = Inr e" "utf8_valid text"
  shows "edit_in text e" "pe_ordinal e = ordinal"
proof -
  obtain start stop where "position_to_offset text start enc = Some (pe_start e)"
    "position_to_offset text stop enc = Some (pe_end e)" "pe_start e \<le> pe_end e" "pe_ordinal e = ordinal"
    using assms(1)
    by (auto simp: parse_text_edit_def Let_def split: option.splits sum.splits if_splits)
  with position_to_offset_boundary [OF _ assms(2)] show "edit_in text e" "pe_ordinal e = ordinal"
    by (auto simp: edit_in_def)
qed

lemma parse_text_edits_ok:
  assumes "utf8_valid text" "parse_text_edits text annotations enc index p ordinal raw = (edits, failures)"
  shows "\<forall>e \<in> set edits. edit_in text e" "\<forall>q \<in> set failures. wp_index q = Some index"
proof -
  have fail: "wp_index q = Some index" if "parse_text_edit text edit annotations enc index p k = Inl q" for edit q k
    using that by (auto simp: parse_text_edit_def Let_def validate_object_keys_def problem_def missing_annotation_def
      split: option.splits sum.splits if_splits)
  have "(\<forall>e \<in> set edits. edit_in text e) \<and> (\<forall>q \<in> set failures. wp_index q = Some index)"
    using assms(2)
  proof (induction raw arbitrary: ordinal edits failures)
    case (Cons edit raw)
    obtain es fs where rec: "parse_text_edits text annotations enc index p (ordinal + 1) raw = (es, fs)"
      by fastforce
    with Cons.IH have "(\<forall>e \<in> set es. edit_in text e) \<and> (\<forall>q \<in> set fs. wp_index q = Some index)" by blast
    with rec Cons.prems parse_text_edit_ok(1) [OF _ assms(1)] fail show ?case
      by (auto split: sum.splits)
  qed simp
  then show "\<forall>e \<in> set edits. edit_in text e" "\<forall>q \<in> set failures. wp_index q = Some index" by auto
qed

section \<open>Order\<close>

text \<open>Edits from left to right, each starting where the previous ended or later.\<close>

fun edits_chain :: "nat \<Rightarrow> parsed_text_edit list \<Rightarrow> bool" where
  "edits_chain c [] \<longleftrightarrow> True"
| "edits_chain c (e # es) \<longleftrightarrow> c \<le> pe_start e \<and> pe_start e \<le> pe_end e \<and> edits_chain (pe_end e) es"

abbreviation edit_key :: "parsed_text_edit \<Rightarrow> nat \<times> nat \<times> nat" where
  "edit_key e \<equiv> (pe_start e, pe_end e, pe_ordinal e)"

lemma edits_chain_sorted:
  assumes "sorted (map edit_key es)" "\<not> overlapping es" "\<forall>e \<in> set es. pe_start e \<le> pe_end e"
    and "\<And>e. es \<noteq> [] \<Longrightarrow> c \<le> pe_start (hd es)"
  shows "edits_chain c es"
  using assms
proof (induction es arbitrary: c rule: overlapping.induct)
  case (1 left right rest)
  have "pe_start left \<le> pe_start right" using "1.prems"(1) by (auto simp: less_eq_prod_def)
  moreover have "\<not> conflicting left right" using "1.prems"(2) by simp
  ultimately have "pe_end left \<le> pe_start right"
    by (auto simp: conflicting_def not_less)
  then have "edits_chain (pe_end left) (right # rest)"
    using "1.prems" by (intro "1.IH") auto
  with "1.prems" show ?case by simp
qed simp_all

text \<open>What the handler relies on, once the sort and the overlap check have passed.\<close>

lemma sorted_edits_chain:
  assumes "utf8_valid text" "parse_text_edits text annotations enc index p k raw = (parsed, failures)"
    and "\<not> overlapping (sort_key edit_key parsed)"
  shows "edits_chain 0 (sort_key edit_key parsed)" "\<forall>e \<in> set (sort_key edit_key parsed). edit_in text e"
proof -
  have "\<forall>e \<in> set parsed. edit_in text e" by (rule parse_text_edits_ok(1) [OF assms(1,2)])
  then show "\<forall>e \<in> set (sort_key edit_key parsed). edit_in text e" by simp
  then show "edits_chain 0 (sort_key edit_key parsed)"
    using assms(3) by (intro edits_chain_sorted) (auto simp: edit_in_def)
qed

section \<open>Meaning\<close>

text \<open>The reference: every edit replaces its range, the last one first, so that no range moves.\<close>

definition replace_range :: "parsed_text_edit \<Rightarrow> string \<Rightarrow> string" where
  "replace_range e s = take (pe_start e) s @ pe_new_text e @ drop (pe_end e) s"

definition apply_backwards :: "parsed_text_edit list \<Rightarrow> string \<Rightarrow> string" where
  "apply_backwards es s = foldr replace_range es s"

lemma apply_backwards_prefix:
  "edits_chain c es \<Longrightarrow> \<forall>e \<in> set es. pe_end e \<le> length s \<Longrightarrow> c \<le> length s
     \<Longrightarrow> take c (apply_backwards es s) = take c s \<and> c \<le> length (apply_backwards es s)"
proof (induction es arbitrary: c)
  case (Cons e es)
  let ?t = "apply_backwards es s"
  have step: "apply_backwards (e # es) s = take (pe_start e) ?t @ pe_new_text e @ drop (pe_end e) ?t"
    by (simp add: apply_backwards_def replace_range_def)
  have IH: "take (pe_end e) ?t = take (pe_end e) s" "pe_end e \<le> length ?t"
    using Cons.IH [of "pe_end e"] Cons.prems by auto
  have le: "c \<le> pe_start e" "c \<le> pe_end e" using Cons.prems(1) by simp_all
  have "take c ?t = take c (take (pe_end e) ?t)" "take c s = take c (take (pe_end e) s)"
    using le by (simp_all add: min_absorb1)
  with IH have "take c ?t = take c s" by simp
  moreover have "take c (apply_backwards (e # es) s) = take c ?t"
    using le IH(2) by (simp add: step min_absorb1)
  moreover have "c \<le> length (apply_backwards (e # es) s)"
    using le IH(2) by (simp add: step)
  ultimately show ?case by simp
qed (simp add: apply_backwards_def)

lemma splice_edits_spec:
  "edits_chain c es \<Longrightarrow> \<forall>e \<in> set es. pe_end e \<le> length s \<Longrightarrow> c \<le> length s
     \<Longrightarrow> splice_edits s c es acc = Some (acc @ drop c (apply_backwards es s))"
proof (induction es arbitrary: c acc)
  case (Cons e es)
  let ?t = "apply_backwards es s"
  have step: "apply_backwards (e # es) s = take (pe_start e) ?t @ pe_new_text e @ drop (pe_end e) ?t"
    by (simp add: apply_backwards_def replace_range_def)
  have t: "take (pe_end e) ?t = take (pe_end e) s" "pe_end e \<le> length ?t"
    using apply_backwards_prefix [of "pe_end e" es s] Cons.prems by auto
  have "take (pe_start e) ?t = take (pe_start e) (take (pe_end e) ?t)"
    using Cons.prems(1) by (simp add: min_absorb1)
  also have "\<dots> = take (pe_start e) s" unfolding t(1) using Cons.prems(1) by (simp add: min_absorb1)
  finally have "drop c (apply_backwards (e # es) s)
      = take (pe_start e - c) (drop c s) @ pe_new_text e @ drop (pe_end e) ?t"
    using Cons.prems t by (simp add: step drop_take)
  then show ?case using Cons by simp
qed (simp add: apply_backwards_def)

text \<open>Edits at scalar boundaries keep the text valid UTF-8.\<close>

lemma utf8_valid_slice:
  assumes "utf8_valid s" "is_char_boundary s a" "is_char_boundary s b" "a \<le> b" "b \<le> length s"
  shows "utf8_valid (take (b - a) (drop a s))"
  using utf8_valid_split [OF _ boundary_drop [OF assms(3,4)]] utf8_valid_split [OF assms(1,2)] assms(4,5) by simp

lemma apply_backwards_valid:
  assumes "utf8_valid s"
  shows "edits_chain c es \<Longrightarrow> \<forall>e \<in> set es. edit_in s e \<and> utf8_valid (pe_new_text e) \<Longrightarrow> is_char_boundary s c
    \<Longrightarrow> c \<le> length s \<Longrightarrow> utf8_valid (drop c (apply_backwards es s))"
proof (induction es arbitrary: c)
  case Nil
  with assms utf8_valid_split show ?case by (simp add: apply_backwards_def)
next
  case (Cons e es)
  let ?t = "apply_backwards es s"
  have e: "edit_in s e" "c \<le> pe_start e" "pe_start e \<le> pe_end e" "edits_chain (pe_end e) es"
    using Cons.prems by auto
  have ends: "\<forall>e \<in> set es. pe_end e \<le> length s" using Cons.prems(2) by (auto simp: edit_in_def)
  have "utf8_valid (drop (pe_end e) ?t)"
    using Cons.IH [of "pe_end e"] Cons.prems e by (auto simp: edit_in_def)
  moreover have "utf8_valid (take (pe_start e - c) (drop c s))"
    using e Cons.prems(3) by (intro utf8_valid_slice [OF assms]) (auto simp: edit_in_def)
  moreover have "drop c (apply_backwards (e # es) s)
      = take (pe_start e - c) (drop c s) @ pe_new_text e @ drop (pe_end e) ?t"
    using splice_edits_spec [of c "e # es" s "[]"] splice_edits_spec [of "pe_end e" es s] Cons.prems(1,4) e(1,4) ends
    by (simp add: edit_in_def)
  ultimately show ?case
    using Cons.prems(2) by (simp add: utf8_valid_append)
qed

section \<open>Properties\<close>


text \<open>Two edits of one line, listed out of order.\<close>

definition sample_edit :: "nat \<Rightarrow> nat \<Rightarrow> string \<Rightarrow> json" where
  "sample_edit a b t = (let pos = (\<lambda>c. JObject [(''character'', jnat c), (''line'', jnat 0)])
     in JObject [(''newText'', JString t), (''range'', JObject [(''end'', pos b), (''start'', pos a)])])"

lemma sample_edit_parsed:
  "b \<le> 10 \<Longrightarrow> a \<le> b \<Longrightarrow> position_to_offset text \<lparr>line = 0, character = a\<rparr> Utf8 = Some a
     \<Longrightarrow> position_to_offset text \<lparr>line = 0, character = b\<rparr> Utf8 = Some b
     \<Longrightarrow> parse_text_edit text (sample_edit a b t) [] Utf8 index p k
       = Inr \<lparr>pe_start = a, pe_end = b, pe_new_text = t, pe_annotation = None, pe_ordinal = k\<rparr>"
  by (simp add: sample_edit_def parse_text_edit_def validate_object_keys_def bt_keys_def parse_position_def as_u32_def
      jnat_def u32_max_def unat_of_nat take_bit_eq_mod Let_def)


end
