(* ===== verification/Plan_Tree.thy ===== *)
theory Plan_Tree
  imports Plan_Disk Text_Edits
begin

text \<open>
  What a plan means: a file tree, the tree the disk holds, and the effect of each canonical
  operation on a tree. The entries of a virtual Workspace mirror a tree when each entry describes
  the tree's node and the disk supplies the nodes that have no entry.
\<close>

section \<open>Trees\<close>

datatype node = Dir | File string

type_synonym tree = "path \<Rightarrow> node option"

fun node_kind_of :: "node \<Rightarrow> resource_kind" where
  "node_kind_of Dir = DirectoryKind"
| "node_kind_of (File b) = FileKind"

definition disk_tree :: "environment \<Rightarrow> tree" where
  "disk_tree env p =
     (case env_lstat env p of
        StatOk md \<Rightarrow>
          (if md_kind md = DirectoryNode then Some Dir
           else if md_kind md = RegularNode
           then map_option File (Option.bind (env_open env p) of_bytes) else None)
      | _ \<Rightarrow> None)"

definition edit_text :: "canonical_text_edit list \<Rightarrow> string \<Rightarrow> string" where
  "edit_text edits b = foldr (\<lambda>e s. take (ce_start e) s @ ce_new_text e @ drop (ce_end e) s) edits b"

definition moved_path :: "path \<Rightarrow> path \<Rightarrow> path \<Rightarrow> path" where
  "moved_path old new p = new @ drop (length old) p"

fun apply_operation :: "canonical_operation \<Rightarrow> tree \<Rightarrow> tree" where
  "apply_operation (OpText _ _ p _ _ edits) t =
     (case t p of Some (File b) \<Rightarrow> t(p \<mapsto> File (edit_text edits b)) | _ \<Rightarrow> t)"
| "apply_operation (OpCreate _ _ p _ _) t = t(p \<mapsto> File [])"
| "apply_operation (OpRename _ _ _ old new _ _) t =
     (\<lambda>q. if starts_with q new then t (moved_path new old q) else if starts_with q old then None else t q)"
| "apply_operation (OpDelete _ _ p _ _) t = (\<lambda>q. if starts_with q p then None else t q)"

definition apply_operations :: "canonical_operation list \<Rightarrow> tree \<Rightarrow> tree" where
  "apply_operations ops t = fold apply_operation ops t"

lemma apply_operations_simps [simp]:
  "apply_operations [] t = t"
  "apply_operations (ops @ [op]) t = apply_operation op (apply_operations ops t)"
  by (simp_all add: apply_operations_def)

lemma edit_text_canonical: "edit_text (map canonical_edit es) b = apply_backwards es b"
  by (induction es) (simp_all add: edit_text_def apply_backwards_def replace_range_def canonical_edit_def)

text \<open>
  When an operation applies to a tree, and what it takes from its place. A plan is sound on a tree if
  each operation applies to what the operations before it leave, names and takes away only paths of
  \<open>A\<close>, and changes nothing else.
\<close>

definition edits_within :: "string \<Rightarrow> canonical_text_edit list \<Rightarrow> bool" where
  "edits_within b edits \<longleftrightarrow>
     (\<forall>e \<in> set edits. ce_end e \<le> length b \<and> is_char_boundary b (ce_start e) \<and> is_char_boundary b (ce_end e))"

fun applicable :: "environment \<Rightarrow> planner \<Rightarrow> canonical_operation \<Rightarrow> tree \<Rightarrow> bool" where
  "applicable env pl (OpText _ _ p before_digest after_digest edits) t \<longleftrightarrow>
     (\<exists>b. t p = Some (File b) \<and> utf8_valid b \<and> edits_within b edits
        \<and> before_digest = digest_raw_bytes (env_sha env) b
        \<and> after_digest = digest_raw_bytes (env_sha env) (edit_text edits b))"
| "applicable env pl (OpCreate _ _ p overwrite _) t \<longleftrightarrow>
     (case t p of None \<Rightarrow> True | Some (File b) \<Rightarrow> overwrite | Some Dir \<Rightarrow> False)"
| "applicable env pl (OpRename _ _ _ old new overwrite _) t \<longleftrightarrow>
     \<not> starts_with old new \<and> \<not> starts_with new old \<and> t old \<noteq> None
     \<and> (t new = None \<longrightarrow> (\<forall>q. confined pl q \<longrightarrow> below q new \<longrightarrow> t q = None))
     \<and> (t new \<noteq> None \<longrightarrow> overwrite \<and> map_option node_kind_of (t new) = map_option node_kind_of (t old))"
| "applicable env pl (OpDelete _ _ p recursive _) t \<longleftrightarrow>
     t p \<noteq> None \<and> (recursive \<or> (\<forall>q. confined pl q \<longrightarrow> below q p \<longrightarrow> t q = None))"

fun op_paths :: "canonical_operation \<Rightarrow> path list" where
  "op_paths (OpText _ _ p _ _ _) = [p]"
| "op_paths (OpCreate _ _ p _ _) = [p]"
| "op_paths (OpRename _ _ _ old new _ _) = [old, new]"
| "op_paths (OpDelete _ _ p _ _) = [p]"

fun uproots :: "canonical_operation \<Rightarrow> path \<Rightarrow> bool" where
  "uproots (OpRename _ _ _ old new _ _) q \<longleftrightarrow> starts_with q old \<or> starts_with q new"
| "uproots (OpDelete _ _ p _ _) q \<longleftrightarrow> starts_with q p"
| "uproots _ q \<longleftrightarrow> False"

definition sound_step :: "environment \<Rightarrow> planner \<Rightarrow> path set \<Rightarrow> canonical_operation \<Rightarrow> tree \<Rightarrow> bool" where
  "sound_step env pl A op t \<longleftrightarrow>
     applicable env pl op t \<and> set (op_paths op) \<subseteq> A
     \<and> (\<forall>q. confined pl q \<longrightarrow> uproots op q \<longrightarrow> t q \<noteq> None \<longrightarrow> q \<in> A)
     \<and> (\<forall>q. confined pl q \<longrightarrow> q \<notin> A \<longrightarrow> apply_operation op t q = t q)"

fun sound_steps :: "environment \<Rightarrow> planner \<Rightarrow> path set \<Rightarrow> canonical_operation list \<Rightarrow> tree \<Rightarrow> bool" where
  "sound_steps env pl A [] t \<longleftrightarrow> True"
| "sound_steps env pl A (op # ops) t \<longleftrightarrow> sound_step env pl A op t \<and> sound_steps env pl A ops (apply_operation op t)"

lemma sound_steps_append:
  "sound_steps env pl A (ops @ [op]) t \<longleftrightarrow> sound_steps env pl A ops t \<and> sound_step env pl A op (apply_operations ops t)"
  by (induction ops arbitrary: t) (simp_all add: apply_operations_def)

lemma sound_steps_mono: "sound_steps env pl A ops t \<Longrightarrow> A \<subseteq> B \<Longrightarrow> sound_steps env pl B ops t"
  by (induction ops arbitrary: t) (auto simp: sound_step_def)

section \<open>Entries that mirror a tree\<close>

definition matches :: "environment \<Rightarrow> resource_state \<Rightarrow> node option \<Rightarrow> bool" where
  "matches env st n \<longleftrightarrow>
     (case me_kind (rs_manifest st) of
        MissingKind \<Rightarrow> n = None
      | DirectoryKind \<Rightarrow> n = Some Dir
      | FileKind \<Rightarrow>
          (\<exists>b. n = Some (File b) \<and> me_content (rs_manifest st) = Some (digest_raw_bytes (env_sha env) b)
             \<and> (case rs_text st of
                  Some t \<Rightarrow> t = b
                | None \<Rightarrow> \<exists>source f. rs_text_source st = Some source \<and> env_open env source = Some f \<and> of_bytes f = Some b)))"

definition mirrors :: "environment \<Rightarrow> planner \<Rightarrow> (path, resource_state) btree \<Rightarrow> tree \<Rightarrow> bool" where
  "mirrors env pl E t \<longleftrightarrow>
     (\<forall>p. confined pl p \<longrightarrow> (case bt_get E p of None \<Rightarrow> t p = disk_tree env p | Some st \<Rightarrow> matches env st (t p)))"

lemma mirrors_empty [simp]: "mirrors env pl [] (disk_tree env)"
  by (simp add: mirrors_def)

lemma mirrorsD:
  assumes "mirrors env pl E t" "confined pl p"
  shows "bt_get E p = None \<Longrightarrow> t p = disk_tree env p" "bt_get E p = Some st \<Longrightarrow> matches env st (t p)"
  using assms by (auto simp: mirrors_def split: option.splits)

lemma mirrors_insert:
  assumes "mirrors env pl E t" "matches env st (t' p)" "\<And>q. confined pl q \<Longrightarrow> q \<noteq> p \<Longrightarrow> t' q = t q"
  shows "mirrors env pl (bt_insert p st E) t'"
  unfolding mirrors_def
proof (intro allI impI)
  fix q assume q: "confined pl q"
  show "case bt_get (bt_insert p st E) q of None \<Rightarrow> t' q = disk_tree env q | Some st \<Rightarrow> matches env st (t' q)"
  proof (cases "q = p")
    case True
    with assms(2) show ?thesis by simp
  next
    case False
    with assms(3) q have "t' q = t q" by blast
    with assms(1) [unfolded mirrors_def, rule_format, OF q] False show ?thesis
      by (cases "bt_get E q") simp_all
  qed
qed

lemma matches_missing [simp]: "matches env (missing_resource p) n \<longleftrightarrow> n = None"
  by (simp add: matches_def missing_resource_def missing_manifest_def)

lemma disk_tree_absent: "\<not> on_disk env p \<Longrightarrow> disk_tree env p = None"
  by (auto simp: disk_tree_def on_disk_def split: stat_result.splits)

lemma matches_inspected:
  assumes "inspect_resource env pl p index load_text = Inr st"
  shows "matches env st (disk_tree env p)"
  using assms
proof (cases rule: inspect_resource_cases)
  case missing
  then show ?thesis by (simp add: disk_tree_def)
next
  case (regular md d m)
  from regular(4) obtain f b where f: "env_open env p = Some f" "of_bytes f = Some b"
    "d = digest_raw_bytes (env_sha env) b"
    by (auto simp: hash_file_def split: option.splits if_splits)
  have "rs_text st = (if load_text then Some b else None)"
    using regular(9) f(1,2) by (auto simp: read_text_file_def split: if_splits option.splits)
  with regular f show ?thesis by (simp add: matches_def disk_tree_def)
next
  case directory
  then show ?thesis by (simp add: matches_def disk_tree_def)
qed

lemma matches_text:
  assumes "matches env st n" "me_kind (rs_manifest st) = FileKind" "rs_text st = None" "rs_text_source st = Some source"
    and "read_text_file env source limit index = Inr bytes"
  shows "matches env (st\<lparr>rs_text := Some bytes\<rparr>) n"
  using assms by (auto simp: matches_def read_text_file_def split: option.splits if_splits)

end
