(* ===== verification/Plan_Invariant.thy ===== *)
theory Plan_Invariant
  imports Plan_Tree "HOL-Library.Multiset"
begin

text \<open>
  The invariant of the virtual Workspace and the operations that load resources into it: they
  keep the invariant, touch only what they load, return, and do not panic. A tree that was loaded
  is covered: everything the disk has below it has an entry.
\<close>

section \<open>The invariant\<close>

abbreviation st_kind :: "resource_state \<Rightarrow> resource_kind" where
  "st_kind st \<equiv> me_kind (rs_manifest st)"

abbreviation st_exists :: "resource_state \<Rightarrow> bool" where
  "st_exists st \<equiv> me_exists (rs_manifest st)"

text \<open>An entry is settled unless it is a directory whose children have not been listed.\<close>

definition settled :: "resource_state \<Rightarrow> bool" where
  "settled st \<longleftrightarrow> (st_kind st = DirectoryKind \<longrightarrow> me_content (rs_manifest st) \<noteq> None)"

definition entry_ok :: "planner \<Rightarrow> path \<Rightarrow> resource_state \<Rightarrow> bool" where
  "entry_ok pl p st \<longleftrightarrow>
     confined pl p \<and> me_path (rs_manifest st) = p \<and> (st_exists st \<longleftrightarrow> st_kind st \<noteq> MissingKind)
     \<and> (st_kind st = FileKind \<longrightarrow>
          me_content (rs_manifest st) \<noteq> None \<and> (rs_text st = None \<longrightarrow> rs_text_source st \<noteq> None))"

definition dir_at :: "environment \<Rightarrow> (path, resource_state) btree \<Rightarrow> path \<Rightarrow> bool" where
  "dir_at env E q \<longleftrightarrow> (case bt_get E q of Some st \<Rightarrow> st_kind st = DirectoryKind | None \<Rightarrow> disk_dir env q)"

text \<open>
  What exists stands in directories; what the disk has right below a settled entry is known;
  an unsettled entry is a directory of the disk.
\<close>

definition tree_ok :: "environment \<Rightarrow> planner \<Rightarrow> (path, resource_state) btree \<Rightarrow> bool" where
  "tree_ok env pl E \<longleftrightarrow>
     bt_ok E
     \<and> (\<forall>p st. bt_get E p = Some st \<longrightarrow> entry_ok pl p st)
     \<and> (\<forall>p st q. bt_get E p = Some st \<longrightarrow> st_exists st \<longrightarrow> below p q \<longrightarrow> below q (pl_workspace pl) \<longrightarrow> dir_at env E q)
     \<and> (\<forall>p st n. bt_get E p = Some st \<longrightarrow> settled st \<longrightarrow> on_disk env (join_name p n) \<longrightarrow> bt_get E (join_name p n) \<noteq> None)
     \<and> (\<forall>p st. bt_get E p = Some st \<longrightarrow> \<not> settled st \<longrightarrow> disk_dir env p)"

text \<open>A manifest entry shows what an inspection of the path shows, a directory with or without its listing.\<close>

definition observed :: "environment \<Rightarrow> planner \<Rightarrow> manifest_entry \<Rightarrow> bool" where
  "observed env pl m \<longleftrightarrow>
     (\<exists>st. inspect_resource env pl (me_path m) 0 False = Inr st
        \<and> (m = rs_manifest st
           \<or> st_kind st = DirectoryKind
             \<and> (\<exists>children. directory_children env pl (me_path m) 0 = Inr children
                  \<and> m = (rs_manifest st)\<lparr>me_content := Some (directory_membership_digest env children)\<rparr>)))"

definition before_ok ::
  "environment \<Rightarrow> planner \<Rightarrow> (path, resource_state) btree \<Rightarrow> (path, manifest_entry) btree \<Rightarrow> bool" where
  "before_ok env pl E B \<longleftrightarrow>
     bt_ok B
     \<and> (\<forall>p m. bt_get B p = Some m \<longrightarrow>
          me_path m = p \<and> confined pl p \<and> validated env pl p \<and> observed env pl m \<and> bt_get E p \<noteq> None)
     \<and> (\<forall>p m n. bt_get B p = Some m \<longrightarrow> me_kind m = DirectoryKind \<longrightarrow> me_content m \<noteq> None
          \<longrightarrow> on_disk env (join_name p n) \<longrightarrow> bt_get E (join_name p n) \<noteq> None)
     \<and> (\<forall>p. bt_get E p \<noteq> None \<longrightarrow> plain_path env pl p \<and> (on_disk env p \<longrightarrow> bt_get B p \<noteq> None))"

text \<open>The whole invariant: the entries mirror the tree that the operations planned so far make of the disk.\<close>

definition vw_ok :: "environment \<Rightarrow> planner \<Rightarrow> tree \<Rightarrow> virtual_workspace \<Rightarrow> bool" where
  "vw_ok env pl t vw \<longleftrightarrow>
     tree_ok env pl (vw_entries vw) \<and> before_ok env pl (vw_entries vw) (vw_before vw)
     \<and> sorted_wrt (<) (vw_affected vw)
     \<and> (\<forall>p \<in> set (vw_affected vw). \<exists>st. bt_get (vw_entries vw) p = Some st \<and> settled st)
     \<and> mirrors env pl (vw_entries vw) t"

lemma vw_ok_empty [simp]: "vw_ok env pl (disk_tree env) empty_virtual_workspace"
  by (simp add: vw_ok_def tree_ok_def before_ok_def empty_virtual_workspace_def)

lemma tree_okD:
  assumes "tree_ok env pl E" "bt_get E p = Some st"
  shows "entry_ok pl p st"
    and "st_exists st \<Longrightarrow> below p q \<Longrightarrow> below q (pl_workspace pl) \<Longrightarrow> dir_at env E q"
    and "settled st \<Longrightarrow> on_disk env (join_name p n) \<Longrightarrow> bt_get E (join_name p n) \<noteq> None"
    and "\<not> settled st \<Longrightarrow> disk_dir env p"
  using assms unfolding tree_ok_def by blast+

lemma tree_ok_sorted: "tree_ok env pl E \<Longrightarrow> bt_ok E"
  by (simp add: tree_ok_def)

lemma tree_ok_confined: "tree_ok env pl E \<Longrightarrow> bt_get E p = Some st \<Longrightarrow> confined pl p"
  using tree_okD(1) by (auto simp: entry_ok_def)

lemma dir_at_insert:
  "dir_at env (bt_insert p st E) q \<longleftrightarrow> (if q = p then st_kind st = DirectoryKind else dir_at env E q)"
  by (simp add: dir_at_def)

text \<open>Putting an entry into the tree.\<close>

lemma tree_ok_insert:
  assumes ok: "tree_ok env pl E" and entry: "entry_ok pl p st"
    and up: "\<And>q. st_exists st \<Longrightarrow> below p q \<Longrightarrow> below q (pl_workspace pl) \<Longrightarrow> dir_at env E q"
    and down: "\<And>r sr. bt_get E r = Some sr \<Longrightarrow> st_exists sr \<Longrightarrow> below r p \<Longrightarrow> st_kind st = DirectoryKind"
    and children: "\<And>n. settled st \<Longrightarrow> on_disk env (join_name p n) \<Longrightarrow> bt_get E (join_name p n) \<noteq> None"
    and disk: "\<not> settled st \<Longrightarrow> disk_dir env p"
  shows "tree_ok env pl (bt_insert p st E)"
  unfolding tree_ok_def
proof (intro conjI allI impI)
  show "bt_ok (bt_insert p st E)" using ok by (simp add: tree_ok_def)
next
  fix q sq assume "bt_get (bt_insert p st E) q = Some sq"
  then show "entry_ok pl q sq" using entry tree_okD(1) [OF ok] by (auto split: if_splits)
next
  fix q sq r assume q: "bt_get (bt_insert p st E) q = Some sq" "st_exists sq" "below q r" "below r (pl_workspace pl)"
  show "dir_at env (bt_insert p st E) r"
  proof (cases "q = p")
    case True
    with q up [of r] show ?thesis by (auto simp: dir_at_insert)
  next
    case False
    with q down [of q sq] tree_okD(2) [OF ok, of q sq r] show ?thesis by (auto simp: dir_at_insert)
  qed
next
  fix q sq n assume "bt_get (bt_insert p st E) q = Some sq" "settled sq" "on_disk env (join_name q n)"
  then show "bt_get (bt_insert p st E) (join_name q n) \<noteq> None"
    using children [of n] tree_okD(3) [OF ok, of q sq n] by (auto split: if_splits)
next
  fix q sq assume "bt_get (bt_insert p st E) q = Some sq" "\<not> settled sq"
  then show "disk_dir env q" using disk tree_okD(4) [OF ok, of q sq] by (auto split: if_splits)
qed

text \<open>Replacing an entry by one of the same kind.\<close>

lemma tree_ok_replace:
  assumes ok: "tree_ok env pl E" and p: "bt_get E p = Some st" and entry: "entry_ok pl p st'"
    and same: "st_kind st' = st_kind st"
    and children: "\<And>n. settled st' \<Longrightarrow> \<not> settled st \<Longrightarrow> on_disk env (join_name p n) \<Longrightarrow> bt_get E (join_name p n) \<noteq> None"
    and settled: "settled st \<Longrightarrow> settled st'"
  shows "tree_ok env pl (bt_insert p st' E)"
proof (rule tree_ok_insert [OF ok entry])
  have exists: "st_exists st' = st_exists st"
    using entry tree_okD(1) [OF ok p] same by (simp add: entry_ok_def)
  { fix q assume "st_exists st'" "below p q" "below q (pl_workspace pl)"
    then show "dir_at env E q" using tree_okD(2) [OF ok p] exists by simp }
  { fix r sr assume r: "bt_get E r = Some sr" "st_exists sr" "below r p"
    have "below p (pl_workspace pl)" using tree_ok_confined [OF ok p] by (rule confined_below)
    with tree_okD(2) [OF ok r(1,2,3)] p same show "st_kind st' = DirectoryKind" by (simp add: dir_at_def) }
  { fix n assume "settled st'" "on_disk env (join_name p n)"
    then show "bt_get E (join_name p n) \<noteq> None"
      using children tree_okD(3) [OF ok p] by (cases "settled st") blast+ }
  show "disk_dir env p" if "\<not> settled st'"
    using that settled tree_okD(4) [OF ok p] by blast
qed

section \<open>Coverage\<close>

definition settled_below :: "(path, resource_state) btree \<Rightarrow> path \<Rightarrow> bool" where
  "settled_below E a \<longleftrightarrow> (\<forall>p st. bt_get E p = Some st \<longrightarrow> starts_with p a \<longrightarrow> settled st)"

lemma covered:
  assumes fs: "posix_fs env" and ok: "tree_ok env pl E" and a: "bt_get E a \<noteq> None" "settled_below E a"
    and p: "confined pl p" "below p a" "on_disk env p"
  shows "bt_get E p \<noteq> None"
  using p
proof (induction "length p" arbitrary: p rule: less_induct)
  case less
  then obtain q n where p: "p = join_name q n" using confined_last by blast
  have q: "starts_with q a" "on_disk env q"
    using less.prems(2,3) on_disk_up [OF fs] by (auto simp: p below_join)
  have "bt_get E q \<noteq> None"
  proof (cases "q = a")
    case True
    with a(1) show ?thesis by simp
  next
    case False
    with q(1) have "below q a" by (simp add: below_def)
    moreover from a(1) ok have "confined pl a" using tree_ok_confined by blast
    then have "below q (pl_workspace pl)" using \<open>below q a\<close> confined_below below_trans by blast
    then have "confined pl q" using confined_between [OF less.prems(1), of q] by (simp add: p)
    ultimately show ?thesis using less.hyps [of q] q(2) by (simp add: p join_name_def)
  qed
  then obtain sq where sq: "bt_get E q = Some sq" by blast
  with a(2) q(1) have "settled sq" by (auto simp: settled_below_def)
  with tree_okD(3) [OF ok sq] less.prems(3) show ?case by (simp add: p)
qed

text \<open>Nothing exists below an entry that is not a directory.\<close>

lemma nothing_below:
  assumes "tree_ok env pl E" "bt_get E a = Some st" "st_kind st \<noteq> DirectoryKind"
    and "bt_get E p = Some sp" "below p a"
  shows "\<not> st_exists sp" "st_kind sp = MissingKind"
proof -
  have "below a (pl_workspace pl)"
    using assms(1,2) by (intro confined_below tree_ok_confined)
  then show "\<not> st_exists sp"
    using tree_okD(2) [OF assms(1,4) _ assms(5)] assms(2,3) by (auto simp: dir_at_def)
  with tree_okD(1) [OF assms(1,4)] show "st_kind sp = MissingKind" by (simp add: entry_ok_def)
qed

lemma settled_below_leaf:
  assumes "tree_ok env pl E" "bt_get E a = Some st" "st_kind st \<noteq> DirectoryKind"
  shows "settled_below E a"
  unfolding settled_below_def
proof (intro allI impI)
  fix p sp assume p: "bt_get E p = Some sp" "starts_with p a"
  show "settled sp"
  proof (cases "p = a")
    case True
    with p assms show ?thesis by (simp add: settled_def)
  next
    case False
    with p nothing_below(2) [OF assms p(1)] show ?thesis by (simp add: settled_def below_def)
  qed
qed

lemma covered_leaf:
  assumes "posix_fs env" "tree_ok env pl E" "bt_get E a = Some st" "st_kind st \<noteq> DirectoryKind"
    and "confined pl p" "below p a" "bt_get E p = None"
  shows "\<not> on_disk env p"
  using covered [OF assms(1,2) _ settled_below_leaf [OF assms(2-4)] assms(5,6)] assms(3,7) by auto

lemma proper_ancestors_complete:
  assumes "confined pl p" "below p q" "below q (pl_workspace pl)"
  shows "q \<in> set (proper_ancestors p)"
  using assms
proof (induction "length p" arbitrary: p rule: less_induct)
  case less
  then obtain r n where p: "p = join_name r n" using confined_last by blast
  then have anc: "proper_ancestors p = r # proper_ancestors r" by (simp add: proper_ancestors_Some)
  have r: "starts_with r q" using less.prems(2) by (simp add: p below_join)
  show ?case
  proof (cases "r = q")
    case False
    with r have "below r q" by (simp add: below_def)
    moreover have "confined pl r"
      using confined_between [OF less.prems(1), of r] below_trans [OF \<open>below r q\<close> less.prems(3)] by (simp add: p)
    ultimately have "q \<in> set (proper_ancestors r)"
      using less.hyps [of r] less.prems(3) by (simp add: p join_name_def)
    then show ?thesis by (simp add: anc)
  qed (simp add: anc)
qed

section \<open>Loading one resource\<close>

text \<open>
  A step returns without panic, and if it does not fail the state it reaches satisfies \<open>Q\<close>.
\<close>

definition runs :: "('s, 'e, 'a) step \<Rightarrow> 's \<Rightarrow> ('a \<Rightarrow> 's \<Rightarrow> bool) \<Rightarrow> bool" where
  "runs m s Q \<longleftrightarrow> (\<exists>s' r. m s = Some (s', r) \<and> (\<forall>a. r = Inr a \<longrightarrow> Q a s'))"

lemma runs_ok [simp]: "runs (step_ok a) s Q \<longleftrightarrow> Q a s"
  by (simp add: runs_def step_ok_def)

lemma runs_bind: "runs m s (\<lambda>a s'. runs (f a) s' Q) \<Longrightarrow> runs (step_bind m f) s Q"
  by (auto simp: runs_def step_bind_def split: sum.splits)

lemma runs_mono: "runs m s Q \<Longrightarrow> (\<And>a s'. Q a s' \<Longrightarrow> R a s') \<Longrightarrow> runs m s R"
  unfolding runs_def by blast

lemma runs_Inl: "m s = Some (s', Inl e) \<Longrightarrow> runs m s Q"
  by (simp add: runs_def)

lemma runs_Inr: "m s = Some (s', Inr a) \<Longrightarrow> Q a s' \<Longrightarrow> runs m s Q"
  by (simp add: runs_def)

text \<open>What loading may change: entries and before-images of the paths in a set.\<close>

definition frame :: "path set \<Rightarrow> virtual_workspace \<Rightarrow> virtual_workspace \<Rightarrow> bool" where
  "frame X vw vw' \<longleftrightarrow>
     (\<forall>q. q \<notin> X \<longrightarrow> bt_get (vw_entries vw') q = bt_get (vw_entries vw) q)
     \<and> (\<forall>q st. bt_get (vw_entries vw) q = Some st \<longrightarrow>
          (\<exists>st'. bt_get (vw_entries vw') q = Some st' \<and> st_kind st' = st_kind st \<and> st_exists st' = st_exists st
             \<and> (settled st \<longrightarrow> rs_manifest st' = rs_manifest st)))
     \<and> vw_affected vw' = vw_affected vw"

lemma frame_refl [simp]: "frame X vw vw"
  by (simp add: frame_def)

lemma frame_mono: "frame X vw vw' \<Longrightarrow> X \<subseteq> Y \<Longrightarrow> frame Y vw vw'"
  unfolding frame_def by blast

lemma settled_manifest: "rs_manifest a = rs_manifest b \<Longrightarrow> settled a = settled b"
  by (simp add: settled_def)

lemma frame_trans:
  assumes "frame X u v" "frame X v w" shows "frame X u w"
  unfolding frame_def
proof (intro conjI allI impI)
  fix q st assume "bt_get (vw_entries u) q = Some st"
  with assms(1) obtain st1 where 1: "bt_get (vw_entries v) q = Some st1" "st_kind st1 = st_kind st"
    "st_exists st1 = st_exists st" "settled st \<longrightarrow> rs_manifest st1 = rs_manifest st"
    unfolding frame_def by blast
  with assms(2) obtain st2 where "bt_get (vw_entries w) q = Some st2" "st_kind st2 = st_kind st1"
    "st_exists st2 = st_exists st1" "settled st1 \<longrightarrow> rs_manifest st2 = rs_manifest st1"
    unfolding frame_def by blast
  with 1 show "\<exists>st'. bt_get (vw_entries w) q = Some st' \<and> st_kind st' = st_kind st \<and> st_exists st' = st_exists st
      \<and> (settled st \<longrightarrow> rs_manifest st' = rs_manifest st)"
    by (metis settled_manifest)
qed (use assms in \<open>auto simp: frame_def\<close>)

lemma frame_get:
  assumes "frame X vw vw'" "bt_get (vw_entries vw) q = Some st"
  obtains st' where "bt_get (vw_entries vw') q = Some st'" "st_kind st' = st_kind st" "st_exists st' = st_exists st"
    "settled st \<Longrightarrow> rs_manifest st' = rs_manifest st"
  using assms unfolding frame_def by blast

lemma frame_outside: "frame X vw vw' \<Longrightarrow> q \<notin> X \<Longrightarrow> bt_get (vw_entries vw') q = bt_get (vw_entries vw) q"
  by (simp add: frame_def)

lemma observed_inspected:
  assumes "inspect_resource env pl p index load_text = Inr st"
  shows "observed env pl (rs_manifest st)" "me_path (rs_manifest st) = p"
proof -
  show p: "me_path (rs_manifest st) = p"
    using assms by (cases rule: inspect_resource_cases) (simp_all add: missing_resource_def missing_manifest_def)
  show "observed env pl (rs_manifest st)"
    using inspect_manifest_again [OF assms] unfolding observed_def p by metis
qed

lemma entry_ok_inspected:
  assumes "inspect_resource env pl p index load_text = Inr st" "confined pl p"
  shows "entry_ok pl p st"
  using assms by (cases rule: inspect_resource_cases) (auto simp: entry_ok_def missing_resource_def missing_manifest_def)

lemma entry_ok_missing: "confined pl p \<Longrightarrow> entry_ok pl p (missing_resource p)"
  by (simp add: entry_ok_def missing_resource_def missing_manifest_def)

lemma settled_missing [simp]: "settled (missing_resource p)"
  by (simp add: settled_def missing_resource_def missing_manifest_def)

lemma not_disk_dir_file: "env_lstat env p = StatOk md \<Longrightarrow> md_kind md \<noteq> DirectoryNode \<Longrightarrow> \<not> disk_dir env p"
  by (auto simp: disk_dir_def)

text \<open>A resource found on the disk fits into the tree.\<close>

lemma tree_ok_inspected:
  assumes fs: "posix_fs env" and ok: "tree_ok env pl E" and p: "confined pl p" "validated env pl p" "bt_get E p = None"
    and present: "\<And>a sa. bt_get E a = Some sa \<Longrightarrow> below p a \<Longrightarrow> st_exists sa"
    and st: "inspect_resource env pl p index load_text = Inr st"
  shows "tree_ok env pl (bt_insert p st E)"
proof (rule tree_ok_insert [OF ok entry_ok_inspected [OF st p(1)]])
  fix q assume q: "st_exists st" "below p q" "below q (pl_workspace pl)"
  then have here: "on_disk env p"
    by (cases rule: inspect_resource_cases [OF st]) (auto simp: on_disk_def missing_resource_def missing_manifest_def)
  show "dir_at env E q"
  proof (cases "bt_get E q")
    case None
    with validated_ancestor_dir [OF fs p(1,2) here q(2,3)] show ?thesis by (simp add: dir_at_def)
  next
    case (Some sq)
    with covered_leaf [OF fs ok Some _ p(1) q(2) p(3)] here show ?thesis by (auto simp: dir_at_def)
  qed
next
  fix r sr assume r: "bt_get E r = Some sr" "st_exists sr" "below r p"
  then have "disk_dir env p"
    using tree_okD(2) [OF ok r] p(1,3) by (simp add: dir_at_def confined_below)
  with st show "st_kind st = DirectoryKind"
    by (cases rule: inspect_resource_cases) (auto simp: disk_dir_def)
next
  fix n assume n: "settled st" "on_disk env (join_name p n)"
  obtain md where "env_lstat env p = StatOk md" "md_kind md \<in> {DirectoryNode, SymlinkNode}"
    using posix_parent [OF fs n(2)] by blast
  with st n(1) show "bt_get E (join_name p n) \<noteq> None"
    by (cases rule: inspect_resource_cases) (auto simp: settled_def)
next
  assume "\<not> settled st"
  with st show "disk_dir env p"
    by (cases rule: inspect_resource_cases) (auto simp: settled_def disk_dir_def missing_resource_def missing_manifest_def)
qed

lemma tree_ok_missing:
  assumes ok: "tree_ok env pl E" and p: "confined pl p"
    and gone: "\<And>r sr. bt_get E r = Some sr \<Longrightarrow> below r p \<Longrightarrow> \<not> st_exists sr"
    and known: "\<And>n. on_disk env (join_name p n) \<Longrightarrow> bt_get E (join_name p n) \<noteq> None"
  shows "tree_ok env pl (bt_insert p (missing_resource p) E)"
  by (rule tree_ok_insert [OF ok entry_ok_missing [OF p]])
     (use gone known in \<open>auto simp: missing_resource_def missing_manifest_def settled_def\<close>)

lemma before_ok_load:
  assumes "before_ok env pl E B" "confined pl p" "validated env pl p" "observed env pl m" "me_path m = p"
    and "\<And>n. me_kind m = DirectoryKind \<Longrightarrow> me_content m \<noteq> None \<Longrightarrow> on_disk env (join_name p n) \<Longrightarrow> bt_get E (join_name p n) \<noteq> None"
  shows "before_ok env pl (bt_insert p st E) (bt_insert p m B)"
  using assms plain_pathI unfolding before_ok_def by simp

lemma before_ok_keep:
  assumes "before_ok env pl E B" "bt_get E p \<noteq> None"
  shows "before_ok env pl (bt_insert p st E) B"
  using assms unfolding before_ok_def by auto

lemma before_okD:
  assumes "before_ok env pl E B"
  shows "bt_ok B"
    "bt_get B p = Some m \<Longrightarrow> me_path m = p \<and> confined pl p \<and> validated env pl p \<and> observed env pl m \<and> bt_get E p \<noteq> None"
    "bt_get B p = Some m \<Longrightarrow> me_kind m = DirectoryKind \<Longrightarrow> me_content m \<noteq> None \<Longrightarrow> on_disk env (join_name p n)
       \<Longrightarrow> bt_get E (join_name p n) \<noteq> None"
    "bt_get E p \<noteq> None \<Longrightarrow> plain_path env pl p" "bt_get E p \<noteq> None \<Longrightarrow> on_disk env p \<Longrightarrow> bt_get B p \<noteq> None"
  using assms unfolding before_ok_def by blast+

text \<open>Entries may change as long as none disappears and those that appear are not on the disk.\<close>

lemma before_ok_rekey:
  assumes ok: "before_ok env pl E B"
    and keys: "\<And>q. bt_get E q \<noteq> None \<Longrightarrow> bt_get E' q \<noteq> None"
    and known: "\<And>q. bt_get E' q \<noteq> None \<Longrightarrow> on_disk env q \<Longrightarrow> bt_get E q \<noteq> None"
    and plain: "\<And>q. bt_get E' q \<noteq> None \<Longrightarrow> plain_path env pl q"
  shows "before_ok env pl E' B"
  unfolding before_ok_def
proof (intro conjI allI impI)
  show "bt_ok B" by (rule before_okD(1) [OF ok])
next
  fix p m assume "bt_get B p = Some m"
  from before_okD(2) [OF ok this] keys [of p]
  show "me_path m = p" "confined pl p" "validated env pl p" "observed env pl m" "bt_get E' p \<noteq> None" by auto
next
  fix p m n assume "bt_get B p = Some m" "me_kind m = DirectoryKind" "me_content m \<noteq> None" "on_disk env (join_name p n)"
  then show "bt_get E' (join_name p n) \<noteq> None" by (intro keys before_okD(3) [OF ok])
next
  fix p assume p: "bt_get E' p \<noteq> None"
  then show "plain_path env pl p" by (rule plain)
  assume "on_disk env p"
  with p known have "bt_get E p \<noteq> None" by blast
  from before_okD(5) [OF ok this \<open>on_disk env p\<close>] show "bt_get B p \<noteq> None" .
qed

lemma vw_okI:
  assumes "tree_ok env pl (vw_entries vw)" "before_ok env pl (vw_entries vw) (vw_before vw)"
    and "sorted_wrt (<) (vw_affected vw)"
    and "\<And>p. p \<in> set (vw_affected vw) \<Longrightarrow> \<exists>st. bt_get (vw_entries vw) p = Some st \<and> settled st"
    and "mirrors env pl (vw_entries vw) t"
  shows "vw_ok env pl t vw"
  using assms by (simp add: vw_ok_def)

lemma vw_okD:
  assumes "vw_ok env pl t vw"
  shows "tree_ok env pl (vw_entries vw)" "before_ok env pl (vw_entries vw) (vw_before vw)"
    "bt_ok (vw_entries vw)" "bt_ok (vw_before vw)" "sorted_wrt (<) (vw_affected vw)"
    "p \<in> set (vw_affected vw) \<Longrightarrow> \<exists>st. bt_get (vw_entries vw) p = Some st \<and> settled st"
    "mirrors env pl (vw_entries vw) t"
  using assms by (auto simp: vw_ok_def tree_ok_def before_ok_def)

lemma entry_missing_iff:
  "list_ex (entry_missing vw) (proper_ancestors p)
     \<longleftrightarrow> (\<exists>a \<in> set (proper_ancestors p). \<exists>sa. bt_get (vw_entries vw) a = Some sa \<and> \<not> st_exists sa)"
  by (auto simp: list_ex_iff entry_missing_def split: option.splits)

text \<open>A path whose ancestor is virtually missing and that has no entry is not on the disk.\<close>

lemma missing_ancestor:
  assumes fs: "posix_fs env" and ok: "tree_ok env pl E" and p: "confined pl p" "bt_get E p = None"
    and a: "a \<in> set (proper_ancestors p)" "bt_get E a = Some sa" "\<not> st_exists sa"
  shows "\<not> on_disk env p" "\<And>r sr. bt_get E r = Some sr \<Longrightarrow> below r p \<Longrightarrow> \<not> st_exists sr"
proof -
  have pa: "below p a"
    using proper_ancestors_prefix [OF a(1)] by (auto simp: below_def)
  have leaf: "st_kind sa \<noteq> DirectoryKind"
    using tree_okD(1) [OF ok a(2)] a(3) by (auto simp: entry_ok_def)
  show "\<not> on_disk env p"
    by (rule covered_leaf [OF fs ok a(2) leaf p(1) pa p(2)])
  show "\<not> st_exists sr" if "bt_get E r = Some sr" "below r p" for r sr
    using nothing_below(1) [OF ok a(2) leaf that(1) below_trans [OF that(2) pa]] .
qed

lemma load_exact_resource_runs:
  assumes fs: "posix_fs env" and ok: "vw_ok env pl t vw" and p: "confined pl p" "validated env pl p"
  shows "runs (load_exact_resource env pl p index load_text) vw
    (\<lambda>_ vw'. vw_ok env pl t vw' \<and> bt_get (vw_entries vw') p \<noteq> None \<and> frame {p} vw vw')"
proof (cases "bt_get (vw_entries vw) p")
  case (Some st)
  let ?load = "load_text \<and> rs_text st = None \<and> st_exists st \<and> st_kind st = FileKind"
  show ?thesis
  proof (cases ?load)
    case False
    with Some ok show ?thesis by (intro runs_Inr) (auto simp: load_exact_resource_def)
  next
    case True
    note t = vw_okD(1) [OF ok] and mir = vw_okD(7) [OF ok]
    note e = tree_okD(1) [OF t Some]
    then obtain source where source: "rs_text_source st = Some source"
      using True by (auto simp: entry_ok_def)
    show ?thesis
    proof (cases "validate_existing_ancestors env pl source index")
      case (Inl f)
      with Some True source show ?thesis by (intro runs_Inl [of _ _ vw f]) (simp add: load_exact_resource_def)
    next
      case val: (Inr u)
      show ?thesis
      proof (cases "read_text_file env source (pl_max_document_text_bytes pl) index")
        case (Inl f)
        with val Some True source show ?thesis by (intro runs_Inl [of _ _ vw f]) (simp add: load_exact_resource_def)
      next
        case (Inr bytes)
        let ?st = "st\<lparr>rs_text := Some bytes\<rparr>"
        let ?vw = "vw\<lparr>vw_entries := bt_insert p ?st (vw_entries vw)\<rparr>"
        have s: "settled ?st = settled st" by (simp add: settled_def)
        have "tree_ok env pl (vw_entries ?vw)"
          using e by (simp, intro tree_ok_replace [OF t Some]) (auto simp: entry_ok_def s)
        moreover have "before_ok env pl (vw_entries ?vw) (vw_before ?vw)"
          using before_ok_keep [OF vw_okD(2) [OF ok]] Some by simp
        moreover have "mirrors env pl (vw_entries ?vw) t"
          using matches_text [OF mirrorsD(2) [OF mir p(1) Some] _ _ source Inr] True
          by (simp, intro mirrors_insert [OF mir]) simp_all
        ultimately have "vw_ok env pl t ?vw"
          using vw_okD(5,6) [OF ok] True Some by (intro vw_okI) (auto simp: settled_def)
        moreover have "frame {p} vw ?vw" using Some by (simp add: frame_def)
        ultimately show ?thesis
          using val Inr Some True source
          by (intro runs_Inr [of _ _ ?vw "()"]) (simp_all add: load_exact_resource_def)
      qed
    qed
  qed
next
  case None
  note t = vw_okD(1) [OF ok] and mir = vw_okD(7) [OF ok]
  let ?found = "if list_ex (entry_missing vw) (proper_ancestors p) then Inr (missing_resource p)
    else inspect_resource env pl p index load_text"
  show ?thesis
  proof (cases ?found)
    case (Inl f)
    with None show ?thesis by (intro runs_Inl [of _ _ vw f]) (simp add: load_exact_resource_def)
  next
    case (Inr st)
    let ?m = "rs_manifest st"
    let ?vw = "vw\<lparr>vw_rollback_bytes := (if me_exists ?m then sat_add (vw_rollback_bytes vw) (resource_rollback_bytes env ?m)
        else vw_rollback_bytes vw), vw_before := bt_insert p ?m (vw_before vw), vw_entries := bt_insert p st (vw_entries vw)\<rparr>"
    have loaded: "tree_ok env pl (bt_insert p st (vw_entries vw)) \<and> observed env pl ?m \<and> me_path ?m = p
        \<and> matches env st (disk_tree env p) \<and> (me_kind ?m = DirectoryKind \<longrightarrow> me_content ?m = None)"
    proof (cases "list_ex (entry_missing vw) (proper_ancestors p)")
      case True
      then obtain a sa where a: "a \<in> set (proper_ancestors p)" "bt_get (vw_entries vw) a = Some sa" "\<not> st_exists sa"
        by (auto simp: entry_missing_iff)
      note gone = missing_ancestor [OF fs t p(1) None a]
      have "env_lstat env p = StatNotFound"
        by (rule validated_not_found [OF p(2,1) gone(1)])
      then have "inspect_resource env pl p 0 False = Inr (missing_resource p)"
        by (simp add: inspect_resource_def)
      moreover have "tree_ok env pl (bt_insert p (missing_resource p) (vw_entries vw))"
        using gone on_disk_up [OF fs] by (intro tree_ok_missing [OF t p(1)]) blast+
      moreover have "me_kind (rs_manifest (missing_resource p)) = MissingKind"
        by (simp add: missing_resource_def missing_manifest_def)
      ultimately show ?thesis
        using True Inr observed_inspected disk_tree_absent [OF gone(1)] by auto
    next
      case False
      then have st: "inspect_resource env pl p index load_text = Inr st" using Inr by simp
      have "tree_ok env pl (bt_insert p st (vw_entries vw))"
      proof (rule tree_ok_inspected [OF fs t p None _ st])
        fix a sa assume a: "bt_get (vw_entries vw) a = Some sa" "below p a"
        then have "a \<in> set (proper_ancestors p)"
          using tree_ok_confined [OF t] confined_below by (intro proper_ancestors_complete [OF p(1)]) blast+
        with False a show "st_exists sa" by (auto simp: entry_missing_iff)
      qed
      moreover have "st_kind st = DirectoryKind \<longrightarrow> me_content ?m = None"
        by (cases rule: inspect_resource_cases [OF st]) (simp_all add: missing_resource_def missing_manifest_def)
      ultimately show ?thesis using observed_inspected [OF st] matches_inspected [OF st] by simp
    qed
    have "mirrors env pl (bt_insert p st (vw_entries vw)) t"
      using loaded mirrorsD(1) [OF mir p(1) None] by (intro mirrors_insert [OF mir]) simp_all
    moreover have "\<exists>sq. bt_get (bt_insert p st (vw_entries vw)) q = Some sq \<and> settled sq" if "q \<in> set (vw_affected vw)" for q
      using vw_okD(6) [OF ok that] None by auto
    ultimately have "vw_ok env pl t ?vw"
      using loaded vw_okD(5) [OF ok] before_ok_load [OF vw_okD(2) [OF ok] p, of ?m] by (intro vw_okI) auto
    moreover have "frame {p} vw ?vw" using None by (auto simp: frame_def)
    ultimately show ?thesis
      using Inr None by (intro runs_Inr [of _ _ ?vw "()"]) (simp_all add: load_exact_resource_def Let_def)
  qed
qed

end
