(* ===== verification/Plan_Load.thy ===== *)
theory Plan_Load
  imports Plan_Invariant
begin

text \<open>
  Loading a directory tree: one listing, the stack of pending directories and its termination,
  and the coverage of a tree that was loaded.
\<close>

section \<open>One directory\<close>

lemma load_names_runs:
  assumes fs: "posix_fs env" and ok: "vw_ok env pl t vw"
    and names: "\<And>n. n \<in> set names \<Longrightarrow> confined pl (join_name d n) \<and> validated env pl (join_name d n)"
  shows "runs (load_names env pl d index names) vw
    (\<lambda>_ vw'. vw_ok env pl t vw' \<and> (\<forall>n \<in> set names. bt_get (vw_entries vw') (join_name d n) \<noteq> None)
       \<and> frame (join_name d ` set names) vw vw')"
  using ok names
proof (induction names arbitrary: vw)
  case (Cons n names)
  let ?p = "join_name d n"
  show ?case
    unfolding load_names.simps
  proof (rule runs_bind, rule runs_mono [OF load_exact_resource_runs [OF fs Cons.prems(1)]])
    show "confined pl ?p" "validated env pl ?p" using Cons.prems(2) by simp_all
  next
    fix u vw1 assume 1: "vw_ok env pl t vw1 \<and> bt_get (vw_entries vw1) ?p \<noteq> None \<and> frame {?p} vw vw1"
    show "runs (load_names env pl d index names) vw1
      (\<lambda>_ vw'. vw_ok env pl t vw' \<and> (\<forall>n \<in> set (n # names). bt_get (vw_entries vw') (join_name d n) \<noteq> None)
         \<and> frame (join_name d ` set (n # names)) vw vw')"
    proof (rule runs_mono [OF Cons.IH [of vw1]])
      fix u vw' assume 2: "vw_ok env pl t vw' \<and> (\<forall>n \<in> set names. bt_get (vw_entries vw') (join_name d n) \<noteq> None)
        \<and> frame (join_name d ` set names) vw1 vw'"
      have "bt_get (vw_entries vw') ?p \<noteq> None"
        using 1 2 by (metis frame_get option.distinct(1) option.exhaust)
      moreover have "frame (join_name d ` set (n # names)) vw vw'"
        using 1 2 by (intro frame_trans [of _ vw vw1 vw']) (auto intro: frame_mono)
      ultimately show "vw_ok env pl t vw' \<and> (\<forall>n \<in> set (n # names). bt_get (vw_entries vw') (join_name d n) \<noteq> None)
         \<and> frame (join_name d ` set (n # names)) vw vw'"
        using 2 by simp
    qed (use 1 Cons.prems in auto)
  qed
qed simp

text \<open>
  The code records the listing before it loads the children. Recording it after them gives the
  same state: a load of another path neither reads nor writes the directory's entry.
\<close>

definition record_at :: "path \<Rightarrow> resource_state \<Rightarrow> manifest_entry \<Rightarrow> virtual_workspace \<Rightarrow> virtual_workspace" where
  "record_at d st b vw = vw\<lparr>vw_before := bt_insert d b (vw_before vw), vw_entries := bt_insert d st (vw_entries vw)\<rparr>"

definition recorded :: "path \<Rightarrow> resource_state \<Rightarrow> manifest_entry \<Rightarrow> (virtual_workspace \<times> 'r) option \<Rightarrow> (virtual_workspace \<times> 'r) option" where
  "recorded d st b = map_option (\<lambda>(vw, r). (record_at d st b vw, r))"

lemma bt_insert_commute:
  assumes "bt_ok m" "a \<noteq> b"
  shows "bt_insert a x (bt_insert b y m) = bt_insert b y (bt_insert a x m)"
  using assms by (intro bt_ext) (auto simp: fun_upd_twist)

lemma load_exact_resource_record:
  assumes "bt_ok (vw_entries vw)" "bt_ok (vw_before vw)" "bt_get (vw_entries vw) d = Some sd"
    and "st_exists st = st_exists sd" "p \<noteq> d"
  shows "load_exact_resource env pl p index False (record_at d st b vw)
    = recorded d st b (load_exact_resource env pl p index False vw)"
proof -
  have "entry_missing (record_at d st b vw) = entry_missing vw"
    using assms(3,4) by (auto simp: entry_missing_def record_at_def fun_eq_iff)
  then show ?thesis
    using assms
    by (auto simp: load_exact_resource_def recorded_def Let_def record_at_def bt_insert_commute
        split: option.splits sum.splits)
qed

lemma load_names_record:
  assumes fs: "posix_fs env" and ok: "vw_ok env pl t vw" and d: "bt_get (vw_entries vw) d = Some sd"
    and st: "st_exists st = st_exists sd"
    and names: "\<And>n. n \<in> set names \<Longrightarrow> confined pl (join_name d n) \<and> validated env pl (join_name d n)"
  shows "load_names env pl d index names (record_at d st b vw) = recorded d st b (load_names env pl d index names vw)"
  using ok d st names
proof (induction names arbitrary: vw sd)
  case (Cons n names)
  let ?p = "join_name d n"
  have p: "?p \<noteq> d" by (simp add: join_name_def)
  obtain vw1 r where 1: "load_exact_resource env pl ?p index False vw = Some (vw1, r)"
    "r = Inr () \<Longrightarrow> vw_ok env pl t vw1 \<and> frame {?p} vw vw1"
    using load_exact_resource_runs [OF fs Cons.prems(1), of ?p index False] Cons.prems(4) [of n]
    unfolding runs_def by auto
  have rec: "load_exact_resource env pl ?p index False (record_at d st b vw) = Some (record_at d st b vw1, r)"
    using load_exact_resource_record [OF vw_okD(3,4) [OF Cons.prems(1)] Cons.prems(2,3) p] 1(1)
    by (simp add: recorded_def)
  show ?case
  proof (cases r)
    case (Inl e)
    with 1 rec show ?thesis by (simp add: step_bind_def recorded_def)
  next
    case (Inr u)
    with 1 have 2: "vw_ok env pl t vw1" "frame {?p} vw vw1" by simp_all
    obtain sd' where "bt_get (vw_entries vw1) d = Some sd'" "st_exists sd' = st_exists sd"
      using 2(2) Cons.prems(2) by (rule frame_get)
    with Cons.IH [OF 2(1)] Cons.prems(3,4) Inr 1(1) rec show ?thesis by (simp add: step_bind_def)
  qed
qed (simp add: step_ok_def recorded_def)

lemma observed_listed:
  assumes fs: "posix_fs env" and m: "observed env pl m" "me_path m = d" "disk_dir env d"
    and children: "directory_children env pl d index = Inr children"
  shows "observed env pl (m\<lparr>me_content := Some (directory_membership_digest env children)\<rparr>)"
proof -
  obtain st where st: "inspect_resource env pl d 0 False = Inr st"
    and m_eq: "m = rs_manifest st \<or> (\<exists>c. m = (rs_manifest st)\<lparr>me_content := c\<rparr>)"
    using m(1,2) unfolding observed_def by blast
  have "st_kind st = DirectoryKind"
    using m(3) by (cases rule: inspect_resource_cases [OF st]) (auto simp: disk_dir_def)
  with st m_eq m(2) directory_children_index [OF children, of 0] show ?thesis
    unfolding observed_def by auto
qed

lemma visit_directory_runs:
  assumes fs: "posix_fs env" and ok: "vw_ok env pl t vw"
    and d: "bt_get (vw_entries vw) d = Some sd" "st_kind sd = DirectoryKind"
  shows "runs (visit_directory env pl index d) vw
    (\<lambda>_ vw'. vw_ok env pl t vw' \<and> (\<exists>sd'. bt_get (vw_entries vw') d = Some sd' \<and> settled sd')
       \<and> frame {q. starts_with q d} vw vw')"
proof (cases "me_content (rs_manifest sd)")
  case (Some c)
  with d ok show ?thesis
    by (intro runs_Inr [of _ _ vw "()"]) (auto simp: visit_directory_def settled_def)
next
  case None
  note t = vw_okD(1) [OF ok]
  have conf: "confined pl d" by (rule tree_ok_confined [OF t d(1)])
  have disk: "disk_dir env d" using tree_okD(4) [OF t d(1)] d(2) None by (simp add: settled_def)
  then obtain m where m: "bt_get (vw_before vw) d = Some m"
    using vw_okD(2) [OF ok] d(1) unfolding before_ok_def by (metis disk_dir_on_disk option.distinct(1) option.exhaust)
  show ?thesis
  proof (cases "directory_children env pl d index")
    case (Inl e)
    with d None show ?thesis by (intro runs_Inl [of _ _ vw e]) (simp add: visit_directory_def)
  next
    case (Inr children)
    note children = Inr
    note listing = directory_children_ok [OF fs conf Inr]
    let ?c = "Some (directory_membership_digest env children)"
    let ?st = "sd\<lparr>rs_manifest := (rs_manifest sd)\<lparr>me_content := ?c\<rparr>\<rparr>"
    let ?m = "m\<lparr>me_content := ?c\<rparr>"
    have names: "confined pl (join_name d n) \<and> validated env pl (join_name d n)" if "n \<in> set (bt_keys children)" for n
      using listing(4) [OF that] confined_join_name [OF conf] by simp
    have visit: "visit_directory env pl index d vw = recorded d ?st ?m (load_names env pl d index (bt_keys children) vw)"
      using load_names_record [OF fs ok d(1) _ names, of ?st "bt_keys children" index ?m] d None Inr m
      by (simp add: visit_directory_def Let_def record_at_def)
    obtain vw1 r where 1: "load_names env pl d index (bt_keys children) vw = Some (vw1, r)"
      "r = Inr () \<Longrightarrow> vw_ok env pl t vw1 \<and> (\<forall>n \<in> set (bt_keys children). bt_get (vw_entries vw1) (join_name d n) \<noteq> None)
         \<and> frame (join_name d ` set (bt_keys children)) vw vw1"
      using load_names_runs [OF fs ok names, of "bt_keys children" index] unfolding runs_def by auto
    show ?thesis
    proof (cases r)
      case (Inl e)
      with visit 1 show ?thesis by (intro runs_Inl [of _ _ "record_at d ?st ?m vw1" e]) (simp add: recorded_def)
    next
      case (Inr u)
      with 1 have 2: "vw_ok env pl t vw1" "\<And>n. n \<in> set (bt_keys children) \<Longrightarrow> bt_get (vw_entries vw1) (join_name d n) \<noteq> None"
        "frame (join_name d ` set (bt_keys children)) vw vw1" by auto
      let ?vw = "record_at d ?st ?m vw1"
      note t1 = vw_okD(1) [OF 2(1)]
      have d1: "bt_get (vw_entries vw1) d = Some sd"
        using frame_outside [OF 2(3), of d] d(1) by (auto simp: join_name_def)
      have "tree_ok env pl (vw_entries ?vw)"
        unfolding record_at_def
        using tree_okD(1) [OF t1 d1] listing(3) 2(2) d(2)
        by (simp, intro tree_ok_replace [OF t1 d1]) (auto simp: entry_ok_def settled_def)
      moreover have "before_ok env pl (vw_entries ?vw) (vw_before ?vw)"
      proof -
        have "me_path m = d \<and> observed env pl m"
          using vw_okD(2) [OF ok] m unfolding before_ok_def by blast
        then show ?thesis
          using before_ok_load [OF vw_okD(2) [OF 2(1)] conf listing(2) observed_listed [OF fs _ _ disk children]]
            listing(3) 2(2)
          by (simp add: record_at_def)
      qed
      moreover have "mirrors env pl (vw_entries ?vw) t"
        unfolding record_at_def
        using mirrorsD(2) [OF vw_okD(7) [OF 2(1)] conf d1] d(2)
        by (simp, intro mirrors_insert [OF vw_okD(7) [OF 2(1)]]) (simp_all add: matches_def)
      moreover have "\<exists>sq. bt_get (vw_entries ?vw) q = Some sq \<and> settled sq" if "q \<in> set (vw_affected ?vw)" for q
        using vw_okD(6) [OF 2(1), of q] that by (auto simp: record_at_def settled_def)
      ultimately have "vw_ok env pl t ?vw"
        using vw_okD(5) [OF 2(1)] by (intro vw_okI) (auto simp: record_at_def)
      moreover have "frame {q. starts_with q d} vw ?vw"
      proof (rule frame_trans)
        show "frame {q. starts_with q d} vw vw1" using 2(3) by (rule frame_mono) auto
        show "frame {q. starts_with q d} vw1 ?vw"
          using d1 None d(2) by (auto simp: frame_def record_at_def settled_def)
      qed
      ultimately show ?thesis
        using visit 1 Inr by (intro runs_Inr [of _ _ ?vw "()"]) (auto simp: recorded_def record_at_def settled_def)
    qed
  qed
qed

section \<open>The stack of pending directories\<close>

lemma push_children_runs:
  assumes "\<And>c. c \<in> set children \<Longrightarrow> bt_get (vw_entries vw) c \<noteq> None"
  shows "push_children pl index directory depth vw children pending \<noteq> None"
    and "push_children pl index directory depth vw children pending = Some (Inr pending') \<Longrightarrow>
      pending' = rev (map (\<lambda>c. (c, sat_add depth 1))
        (filter (\<lambda>c. \<exists>st. bt_get (vw_entries vw) c = Some st \<and> st_kind st = DirectoryKind) children)) @ pending"
  using assms
  by (induction children arbitrary: pending) (fastforce simp: Let_def split: option.splits if_splits)+

text \<open>The existing children in the tree are the existing entries one name below.\<close>

lemma existing_children_iff:
  assumes "bt_ok (vw_entries vw)"
  shows "c \<in> set (existing_children vw d)
    \<longleftrightarrow> (\<exists>st. bt_get (vw_entries vw) c = Some st \<and> st_exists st \<and> parent c = Some d)"
  using assms parent_starts_with
  by (auto simp: existing_children_def subtree_filter bt_get_mem image_iff)

text \<open>Pending directories are directories of the tree below the root of the walk.\<close>

definition pending_ok :: "path \<Rightarrow> (path, resource_state) btree \<Rightarrow> (path \<times> nat) list \<Rightarrow> bool" where
  "pending_ok root E pending \<longleftrightarrow>
     (\<forall>i \<in> set pending. starts_with (fst i) root \<and> (\<exists>st. bt_get E (fst i) = Some st \<and> st_kind st = DirectoryKind))"

text \<open>A directory below the root is listed already or below a pending one.\<close>

definition walk_covers :: "path \<Rightarrow> (path, resource_state) btree \<Rightarrow> (path \<times> nat) list \<Rightarrow> bool" where
  "walk_covers root E pending \<longleftrightarrow>
     (\<forall>p st. bt_get E p = Some st \<longrightarrow> starts_with p root \<longrightarrow>
        settled st \<or> (\<exists>i \<in> set pending. starts_with p (fst i)))"

lemma walk_covers_step:
  assumes ok: "vw_ok env pl t vw'" and frame: "frame {q. starts_with q d} vw vw'"
    and d: "starts_with d root" "bt_get (vw_entries vw') d = Some sd" "settled sd"
    and covers: "walk_covers root (vw_entries vw) ((d, k) # rest)"
    and pushed: "\<And>c. c \<in> set (existing_children vw' d) \<Longrightarrow>
        \<exists>st. bt_get (vw_entries vw') c = Some st \<and> st_kind st = DirectoryKind \<Longrightarrow> c \<in> fst ` set pending'"
    and rest: "set rest \<subseteq> set pending'"
  shows "walk_covers root (vw_entries vw') pending'"
  unfolding walk_covers_def
proof (intro allI impI)
  note t = vw_okD(1) [OF ok]
  fix p st assume p: "bt_get (vw_entries vw') p = Some st" "starts_with p root"
  show "settled st \<or> (\<exists>i \<in> set pending'. starts_with p (fst i))"
  proof (cases "starts_with p d")
    case False
    with frame p have "bt_get (vw_entries vw) p = Some st" by (simp add: frame_def)
    with covers p(2) False rest show ?thesis by (auto simp: walk_covers_def)
  next
    case True
    show ?thesis
    proof (cases "settled st \<or> p = d")
      case True
      with p d show ?thesis by auto
    next
      case False
      with True have pd: "below p d" "\<not> settled st" by (auto simp: below_def)
      note conf = tree_ok_confined [OF t p(1)]
      have dw: "below d (pl_workspace pl)" by (rule confined_below [OF tree_ok_confined [OF t d(2)]])
      obtain n where n: "starts_with p (join_name d n)"
        using below_step [OF pd(1) conf] dw by (auto simp: below_def)
      have exists: "st_exists st" "st_kind st = DirectoryKind"
        using pd(2) tree_okD(1) [OF t p(1)] by (auto simp: settled_def entry_ok_def)
      have child: "dir_at env (vw_entries vw') (join_name d n)"
      proof (cases "p = join_name d n")
        case True
        with p exists show ?thesis by (simp add: dir_at_def)
      next
        case False
        with n have "below p (join_name d n)" by (simp add: below_def)
        moreover have "below (join_name d n) (pl_workspace pl)"
          unfolding below_join using dw by (simp add: below_def)
        ultimately show ?thesis using tree_okD(2) [OF t p(1) exists(1)] by blast
      qed
      have "bt_get (vw_entries vw') (join_name d n) \<noteq> None"
        using child tree_okD(3) [OF t d(2,3), of n] by (auto simp: dir_at_def split: option.splits)
      then obtain sc where sc: "bt_get (vw_entries vw') (join_name d n) = Some sc" by blast
      with child have k: "st_kind sc = DirectoryKind" by (simp add: dir_at_def)
      with tree_okD(1) [OF t sc] have "st_exists sc" by (simp add: entry_ok_def)
      then have "join_name d n \<in> set (existing_children vw' d)"
        using sc vw_okD(3) [OF ok] by (auto simp: existing_children_iff)
      with pushed sc k have "join_name d n \<in> fst ` set pending'" by blast
      then obtain i where "i \<in> set pending'" "fst i = join_name d n" by auto
      moreover from this n have "starts_with p (fst i)" by simp
      ultimately show ?thesis by blast
    qed
  qed
qed

text \<open>
  The walk pops a directory and pushes deeper ones, so the multiset of remaining depths decreases:
  it ends whatever the filesystem holds, because the depth is bounded by the configured limit.
\<close>

definition remaining :: "nat \<Rightarrow> (path \<times> nat) list \<Rightarrow> nat multiset" where
  "remaining limit pending = mset (map (\<lambda>i. limit + 1 - snd i) pending)"

lemma remaining_push:
  assumes "k \<le> limit" "limit < u64_max"
  shows "(remaining limit (map (\<lambda>c. (c, sat_add k 1)) cs @ rest), remaining limit ((d, k) # rest)) \<in> mult less_than"
proof -
  have "sat_add k 1 = k + 1" using assms by simp
  then have "\<forall>x \<in># remaining limit (map (\<lambda>c. (c, sat_add k 1)) cs). x < limit + 1 - k"
    using assms by (auto simp: remaining_def)
  then have "(remaining limit rest + remaining limit (map (\<lambda>c. (c, sat_add k 1)) cs), remaining limit rest + {#limit + 1 - k#})
      \<in> mult less_than"
    by (intro one_step_implies_mult) auto
  then show ?thesis by (simp add: remaining_def add.commute)
qed

lemma load_pending_runs:
  assumes fs: "posix_fs env" and limit: "pl_max_recursion_depth pl < u64_max"
    and "vw_ok env pl t vw" "pending_ok root (vw_entries vw) pending" "walk_covers root (vw_entries vw) pending"
  shows "runs (load_pending env pl index pending) vw
    (\<lambda>_ vw'. vw_ok env pl t vw' \<and> settled_below (vw_entries vw') root \<and> frame {q. starts_with q root} vw vw')"
  using assms(3-5)
proof (induction "remaining (pl_max_recursion_depth pl) pending" arbitrary: pending vw
    rule: wf_induct_rule [OF wf_mult [OF wf_less_than]])
  case (1 pending vw)
  note IH = "1.hyps" and ok = "1.prems"(1) and pend = "1.prems"(2) and cov = "1.prems"(3)
  show ?case
  proof (cases pending)
    case Nil
    with ok cov show ?thesis
      by (intro runs_Inr [of _ _ vw "()"])
         (auto simp: load_pending.simps [of _ _ _ "[]"] walk_covers_def settled_below_def)
  next
    case (Cons item rest)
    obtain d k where item: "item = (d, k)" by fastforce
    obtain sd where d: "starts_with d root" "bt_get (vw_entries vw) d = Some sd" "st_kind sd = DirectoryKind"
      using pend Cons item by (auto simp: pending_ok_def)
    note unfold = load_pending.simps [of env pl index pending vw, unfolded Cons item list.case fst_conv snd_conv]
    obtain vw1 r where visit: "visit_directory env pl index d vw = Some (vw1, r)"
      "r = Inr () \<Longrightarrow> vw_ok env pl t vw1 \<and> (\<exists>sd'. bt_get (vw_entries vw1) d = Some sd' \<and> settled sd')
         \<and> frame {q. starts_with q d} vw vw1"
      using visit_directory_runs [OF fs ok d(2,3), of index] unfolding runs_def by auto
    consider "pl_max_recursion_depth pl < k" | e where "k \<le> pl_max_recursion_depth pl" "r = Inl e"
      | "k \<le> pl_max_recursion_depth pl" "r = Inr ()"
      by (cases r; cases "pl_max_recursion_depth pl < k") auto
    then show ?thesis
    proof cases
      case 1
      with unfold show ?thesis by (intro runs_Inl) (simp add: Cons item)
    next
      case 2
      with unfold visit show ?thesis by (intro runs_Inl) (simp add: Cons item)
    next
      case 3
      then obtain sd' where v: "vw_ok env pl t vw1" "bt_get (vw_entries vw1) d = Some sd'" "settled sd'"
        "frame {q. starts_with q d} vw vw1" using visit by blast
      let ?children = "existing_children vw1 d"
      note kids = existing_children_iff [OF vw_okD(3) [OF v(1)]]
      have known: "bt_get (vw_entries vw1) c \<noteq> None" if "c \<in> set ?children" for c
        using that kids by auto
      obtain pushed where pushed: "push_children pl index d k vw1 ?children rest = Some pushed"
        using push_children_runs(1) [OF known] by fastforce
      show ?thesis
      proof (cases pushed)
        case (Inl e)
        with unfold visit pushed 3 show ?thesis by (intro runs_Inl) (simp add: Cons item)
      next
        case (Inr pending')
        let ?dirs = "rev (filter (\<lambda>c. \<exists>st. bt_get (vw_entries vw1) c = Some st \<and> st_kind st = DirectoryKind) ?children)"
        have pending': "pending' = map (\<lambda>c. (c, sat_add k 1)) ?dirs @ rest"
          using push_children_runs(2) [OF known, where directory = d and depth = k and pending = rest and pending' = pending'] pushed Inr by (simp add: rev_map)
        have less: "(remaining (pl_max_recursion_depth pl) pending', remaining (pl_max_recursion_depth pl) pending) \<in> mult less_than"
          unfolding Cons item pending' by (rule remaining_push) (use 3 limit in auto)
        have pend': "pending_ok root (vw_entries vw1) pending'"
          unfolding pending_ok_def
        proof
          fix i assume "i \<in> set pending'"
          then consider "fst i \<in> set ?dirs" | "i \<in> set rest" by (auto simp: pending')
          then show "starts_with (fst i) root \<and> (\<exists>st. bt_get (vw_entries vw1) (fst i) = Some st \<and> st_kind st = DirectoryKind)"
          proof cases
            case 1
            then show ?thesis using kids d(1) parent_starts_with starts_with_trans by fastforce
          next
            case 2
            then obtain st where "starts_with (fst i) root" "bt_get (vw_entries vw) (fst i) = Some st" "st_kind st = DirectoryKind"
              using pend Cons by (auto simp: pending_ok_def)
            then show ?thesis using frame_get [OF v(4)] by metis
          qed
        qed
        have "walk_covers root (vw_entries vw1) pending'"
          by (rule walk_covers_step [OF v(1,4) d(1) v(2,3) cov [unfolded Cons item]])
             (auto simp: pending' image_Un image_image)
        from IH [OF less v(1) pend' this]
        have "runs (load_pending env pl index pending') vw1
            (\<lambda>_ vw'. vw_ok env pl t vw' \<and> settled_below (vw_entries vw') root \<and> frame {q. starts_with q root} vw vw')"
        proof (rule runs_mono)
          fix u vw' assume *: "vw_ok env pl t vw' \<and> settled_below (vw_entries vw') root \<and> frame {q. starts_with q root} vw1 vw'"
          have "frame {q. starts_with q root} vw vw1"
            using v(4) by (rule frame_mono) (use d(1) starts_with_trans in blast)
          with * show "vw_ok env pl t vw' \<and> settled_below (vw_entries vw') root \<and> frame {q. starts_with q root} vw vw'"
            using frame_trans by blast
        qed
        then show ?thesis
          using unfold visit(1) pushed 3 Inr by (simp add: runs_def Cons item)
      qed
    qed
  qed
qed

lemma load_resource_tree_runs:
  assumes fs: "posix_fs env" and limit: "pl_max_recursion_depth pl < u64_max"
    and ok: "vw_ok env pl t vw" and p: "confined pl p" "validated env pl p"
  shows "runs (load_resource_tree env pl p index) vw
    (\<lambda>_ vw'. vw_ok env pl t vw' \<and> bt_get (vw_entries vw') p \<noteq> None \<and> settled_below (vw_entries vw') p
       \<and> frame {q. starts_with q p} vw vw')"
  unfolding load_resource_tree_def
proof (rule runs_bind, rule runs_mono [OF load_exact_resource_runs [OF fs ok p]])
  fix u vw1 assume 1: "vw_ok env pl t vw1 \<and> bt_get (vw_entries vw1) p \<noteq> None \<and> frame {p} vw vw1"
  then obtain st where st: "bt_get (vw_entries vw1) p = Some st" by blast
  have fr: "frame {q. starts_with q p} vw vw1" using 1 by (auto intro: frame_mono)
  let ?rest = "\<lambda>vw. case bt_get (vw_entries vw) p of None \<Rightarrow> None
    | Some st \<Rightarrow> if st_kind st \<noteq> DirectoryKind then Some (vw, Inr ()) else load_pending env pl index [(p, 0)] vw"
  let ?Q = "\<lambda>_ vw'. vw_ok env pl t vw' \<and> bt_get (vw_entries vw') p \<noteq> None \<and> settled_below (vw_entries vw') p
       \<and> frame {q. starts_with q p} vw vw'"
  show "runs ?rest vw1 ?Q"
  proof (cases "st_kind st = DirectoryKind")
    case False
    with 1 st fr settled_below_leaf [OF vw_okD(1) st False] show ?thesis
      by (intro runs_Inr [of _ _ vw1 "()"]) auto
  next
    case True
    have "runs (load_pending env pl index [(p, 0)]) vw1 ?Q"
    proof (rule runs_mono [OF load_pending_runs [OF fs limit]])
      show "vw_ok env pl t vw1" using 1 by simp
      show "pending_ok p (vw_entries vw1) [(p, 0)]" using st True by (simp add: pending_ok_def)
      show "walk_covers p (vw_entries vw1) [(p, 0)]" by (simp add: walk_covers_def)
    next
      fix u vw' assume 2: "vw_ok env pl t vw' \<and> settled_below (vw_entries vw') p \<and> frame {q. starts_with q p} vw1 vw'"
      with st have "bt_get (vw_entries vw') p \<noteq> None" by (metis frame_get option.distinct(1))
      with 2 fr show "?Q u vw'" using frame_trans by blast
    qed
    with st True show ?thesis by (simp add: runs_def)
  qed
qed

end
