(* ===== verification/Plan_Steps.thy ===== *)
theory Plan_Steps
  imports Plan_Load
begin

text \<open>
  The operations of a Workspace Edit keep the invariant of the virtual Workspace. A plan state is
  good when its Workspace is, no problem was recorded, and the operations planned so far are
  well formed and accounted for; every step from a good state returns and either records a problem or
  reaches a good state.
\<close>

section \<open>Changing many entries\<close>

definition affect_all :: "(path \<times> resource_state) list \<Rightarrow> virtual_workspace \<Rightarrow> virtual_workspace" where
  "affect_all xs = fold (\<lambda>(p, st). affect p st) xs"

lemma affect_all_simps:
  "affect_all [] vw = vw"
  "affect_all ((p, st) # xs) vw = affect_all xs (affect p st vw)"
  "affect_all (xs @ ys) vw = affect_all ys (affect_all xs vw)"
  by (simp_all add: affect_all_def)

lemma affect_all_Cons: "affect_all (x # xs) vw = affect_all xs (affect (fst x) (snd x) vw)"
  by (simp add: affect_all_def case_prod_beta)

lemma affect_all_sel:
  "bt_get (vw_entries (affect_all xs vw)) q = (case map_of (rev xs) q of Some st \<Rightarrow> Some st | None \<Rightarrow> bt_get (vw_entries vw) q)"
  "bt_ok (vw_entries vw) \<Longrightarrow> bt_ok (vw_entries (affect_all xs vw))"
  "vw_before (affect_all xs vw) = vw_before vw"
  "vw_rollback_bytes (affect_all xs vw) = vw_rollback_bytes vw"
  "set (vw_affected (affect_all xs vw)) = fst ` set xs \<union> set (vw_affected vw)"
  "sorted_wrt (<) (vw_affected vw) \<Longrightarrow> sorted_wrt (<) (vw_affected (affect_all xs vw))"
  by (induction xs arbitrary: vw)
     (auto simp: affect_all_simps(1) affect_all_Cons affect_def map_add_def split: option.splits)

definition removals :: "path list \<Rightarrow> (path \<times> resource_state) list" where
  "removals ps = map (\<lambda>p. (p, missing_resource p)) ps"

lemma fold_remove_resource: "fold remove_resource ps vw = affect_all (removals ps) vw"
  by (induction ps arbitrary: vw) (simp_all add: removals_def affect_all_simps remove_resource_def)

definition moved_state :: "path \<Rightarrow> resource_state \<Rightarrow> resource_state" where
  "moved_state p st = st\<lparr>rs_manifest := (rs_manifest st)\<lparr>me_path := p\<rparr>\<rparr>"

lemma matches_moved_state [simp]: "matches env (moved_state p st) n \<longleftrightarrow> matches env st n"
  by (cases "st_kind st"; cases "rs_text st") (simp_all add: matches_def moved_state_def)

definition moves :: "path \<Rightarrow> path \<Rightarrow> (path \<times> resource_state) list \<Rightarrow> (path \<times> resource_state) list" where
  "moves old new es = concat (map (\<lambda>(p, st). [(p, missing_resource p), (moved_path old new p, moved_state (moved_path old new p) st)]) es)"

lemma moves_Cons:
  "moves old new (e # es) = (fst e, missing_resource (fst e))
     # (moved_path old new (fst e), moved_state (moved_path old new (fst e)) (snd e)) # moves old new es"
  by (simp add: moves_def case_prod_beta)

lemma fold_move_resource:
  assumes "\<forall>e \<in> set es. starts_with (fst e) old"
  shows "fold (move_resource old new) es vw = affect_all (moves old new es) vw"
  using assms
proof (induction es arbitrary: vw)
  case (Cons e es)
  obtain p st where e: "e = (p, st)" by fastforce
  with Cons.prems have "strip_path_prefix p old = Some (drop (length old) p)"
    by (simp add: strip_path_prefix_def)
  then have "move_resource old new e vw
      = affect (moved_path old new p) (moved_state (moved_path old new p) st) (affect p (missing_resource p) vw)"
    by (simp add: e move_resource_def Let_def remove_resource_def moved_path_def moved_state_def join_path_def)
  with Cons show ?case by (simp add: moves_def e affect_all_simps)
qed (simp add: moves_def affect_all_simps)

lemma map_of_functional:
  assumes "\<And>v w. (k, v) \<in> set xs \<Longrightarrow> (k, w) \<in> set xs \<Longrightarrow> v = w"
  shows "map_of xs k = Some v \<longleftrightarrow> (k, v) \<in> set xs"
proof
  assume "(k, v) \<in> set xs"
  then obtain w where "map_of xs k = Some w" by (metis weak_map_of_SomeI)
  with assms \<open>(k, v) \<in> set xs\<close> show "map_of xs k = Some v" by (metis map_of_SomeD)
qed (rule map_of_SomeD)

text \<open>The entries after a tree moved: its own paths are gone, the destination holds what moved.\<close>

definition entry_after_move ::
  "path \<Rightarrow> path \<Rightarrow> (path, resource_state) btree \<Rightarrow> path \<Rightarrow> resource_state option" where
  "entry_after_move old new E q =
     (if starts_with q new
      then (case bt_get E (moved_path new old q) of
              Some st \<Rightarrow> Some (moved_state q st)
            | None \<Rightarrow> map_option (\<lambda>_. missing_resource q) (bt_get E q))
      else if starts_with q old then map_option (\<lambda>_. missing_resource q) (bt_get E q)
      else bt_get E q)"

lemma moved_path_inverse: "starts_with p old \<Longrightarrow> moved_path new old (moved_path old new p) = p"
  by (auto simp: moved_path_def starts_with_iff)

lemma moved_path_starts [simp]: "starts_with (moved_path old new p) new"
  by (simp add: moved_path_def)

lemma map_of_removals: "map_of (rev (removals ps)) q = (if q \<in> set ps then Some (missing_resource q) else None)"
proof -
  have "map_of (rev (removals ps)) q = Some v \<longleftrightarrow> q \<in> set ps \<and> v = missing_resource q" for v
    by (subst map_of_functional) (auto simp: removals_def)
  then show ?thesis by (cases "map_of (rev (removals ps)) q") auto
qed

lemma move_tree_entries:
  assumes ok: "bt_ok (vw_entries vw)" and apart: "\<not> starts_with old new" "\<not> starts_with new old"
  shows "bt_get (vw_entries (move_tree old new vw)) q = entry_after_move old new (vw_entries vw) q"
proof -
  let ?E = "vw_entries vw"
  let ?moved = "subtree old ?E"
  let ?gone = "map fst (subtree new ?E)"
  have disjoint: "\<not> (starts_with r old \<and> starts_with r new)" for r
    using apart below_linear [of r old new] by (auto simp: below_def)
  have tree: "move_tree old new vw = affect_all (moves old new ?moved) (affect_all (removals ?gone) vw)"
    unfolding move_tree_def Let_def
    by (subst fold_move_resource) (auto simp: subtree_filter [OF ok] fold_remove_resource)
  have mem: "(r, st) \<in> set ?moved \<longleftrightarrow> bt_get ?E r = Some st \<and> starts_with r old" for r st
    by (auto simp: subtree_filter [OF ok] bt_get_mem [OF ok])
  have gone: "q \<in> set ?gone \<longleftrightarrow> bt_get ?E q \<noteq> None \<and> starts_with q new"
    using map_of_eq_None_iff [of ?E q] by (auto simp: subtree_filter [OF ok] image_iff)
  have ms: "(q, v) \<in> set (moves old new ?moved) \<longleftrightarrow>
      (\<exists>st. bt_get ?E q = Some st \<and> starts_with q old \<and> v = missing_resource q)
      \<or> (starts_with q new \<and> (\<exists>st. bt_get ?E (moved_path new old q) = Some st \<and> v = moved_state q st))" for v
  proof -
    have "(q, v) \<in> set (moves old new ?moved) \<longleftrightarrow>
        (\<exists>st. (q, st) \<in> set ?moved \<and> v = missing_resource q)
        \<or> (\<exists>r st. (r, st) \<in> set ?moved \<and> q = moved_path old new r \<and> v = moved_state q st)"
      by (auto simp: moves_def) (force+)?
    also have "(\<exists>r st. (r, st) \<in> set ?moved \<and> q = moved_path old new r \<and> v = moved_state q st)
        \<longleftrightarrow> starts_with q new \<and> (\<exists>st. bt_get ?E (moved_path new old q) = Some st \<and> v = moved_state q st)"
      using moved_path_inverse [of _ old new] moved_path_inverse [of q new old] mem
      by (metis moved_path_starts)
    finally show ?thesis by (simp add: mem)
  qed
  have "map_of (rev (moves old new ?moved)) q = Some v \<longleftrightarrow> (q, v) \<in> set (moves old new ?moved)" for v
    by (subst map_of_functional) (use ms disjoint in \<open>auto simp del: split_paired_All\<close>)
  then have "map_of (rev (moves old new ?moved)) q =
      (if starts_with q new then map_option (moved_state q) (bt_get ?E (moved_path new old q))
       else if starts_with q old then map_option (\<lambda>_. missing_resource q) (bt_get ?E q) else None)"
    using ms disjoint [of q]
    by (cases "map_of (rev (moves old new ?moved)) q"; cases "bt_get ?E q"; cases "bt_get ?E (moved_path new old q)") auto
  then show ?thesis
    using gone disjoint [of q]
    by (auto simp: tree affect_all_sel map_of_removals entry_after_move_def split: option.splits)
qed

section \<open>The operations on the tree\<close>

lemma settled_below_frame:
  assumes "frame X vw vw'" "settled_below (vw_entries vw) a" "\<And>q. q \<in> X \<Longrightarrow> \<not> starts_with q a"
  shows "settled_below (vw_entries vw') a"
  using assms unfolding settled_below_def frame_def by metis

lemma tree_ok_delete:
  assumes ok: "tree_ok env pl E" and here: "settled_below E p"
    and E': "bt_ok E'" "\<And>q. bt_get E' q = (if q \<in> doomed then Some (missing_resource q) else bt_get E q)"
    and doomed: "\<And>q. q \<in> doomed \<longleftrightarrow> starts_with q p \<and> (\<exists>st. bt_get E q = Some st \<and> st_exists st)"
  shows "tree_ok env pl E'"
  unfolding tree_ok_def
proof (intro conjI allI impI)
  show "bt_ok E'" by (rule E'(1))
next
  fix q st assume "bt_get E' q = Some st"
  then show "entry_ok pl q st"
    using doomed tree_okD(1) [OF ok] tree_ok_confined [OF ok] by (auto simp: E' intro!: entry_ok_missing split: if_splits)
next
  fix q st r assume q: "bt_get E' q = Some st" "st_exists st" "below q r" "below r (pl_workspace pl)"
  then have e: "bt_get E q = Some st" "q \<notin> doomed"
    by (auto simp: E' missing_resource_def missing_manifest_def split: if_splits)
  then have "\<not> starts_with q p" using doomed q(2) by auto
  then have "r \<notin> doomed" using q(3) doomed starts_with_trans by (auto simp: below_def)
  then show "dir_at env E' r" using tree_okD(2) [OF ok e(1) q(2-4)] by (simp add: dir_at_def E')
next
  fix q st n assume q: "bt_get E' q = Some st" "settled st" "on_disk env (join_name q n)"
  have "bt_get E (join_name q n) \<noteq> None"
  proof (cases "q \<in> doomed")
    case True
    then obtain sq where "bt_get E q = Some sq" "settled sq"
      using doomed here by (auto simp: settled_below_def)
    then show ?thesis using tree_okD(3) [OF ok _ _ q(3)] by blast
  next
    case False
    with q tree_okD(3) [OF ok _ q(2,3)] show ?thesis by (simp add: E')
  qed
  then show "bt_get E' (join_name q n) \<noteq> None" by (simp add: E')
next
  fix q st assume "bt_get E' q = Some st" "\<not> settled st"
  then show "disk_dir env q" using tree_okD(4) [OF ok] by (auto simp: E' split: if_splits)
qed

text \<open>Between a covered directory and what exists below it there are only directories of the tree.\<close>

lemma between_entries:
  assumes fs: "posix_fs env" and ok: "tree_ok env pl E" and a: "bt_get E a \<noteq> None" "settled_below E a"
    and p: "bt_get E p = Some st" "st_exists st" and q: "below p q" "starts_with q a"
  obtains sq where "bt_get E q = Some sq" "st_kind sq = DirectoryKind"
proof -
  have w: "below a (pl_workspace pl)"
    using a(1) tree_ok_confined [OF ok] confined_below by blast
  have qw: "below q (pl_workspace pl)" by (rule starts_below [OF q(2) w])
  have "dir_at env E q" by (rule tree_okD(2) [OF ok p q(1) qw])
  moreover have "bt_get E q \<noteq> None" if "disk_dir env q"
  proof (cases "q = a")
    case False
    moreover have "confined pl q"
      using confined_between [OF tree_ok_confined [OF ok p(1)] _ qw] q(1) by (auto simp: below_def)
    ultimately show ?thesis using covered [OF fs ok a] q(2) that by (simp add: below_def)
  qed (use a in simp)
  ultimately show thesis using that by (auto simp: dir_at_def split: option.splits)
qed

lemma moved_path_below:
  assumes "starts_with q new" "below q r" "starts_with r new"
  shows "below (moved_path new old q) (moved_path new old r)" "starts_with (moved_path new old r) old"
  using assms by (auto simp: moved_path_def below_def starts_with_iff)

lemma confined_moved:
  assumes "confined pl new" "confined pl p" "starts_with p old" "starts_with old (pl_workspace pl)"
  shows "confined pl (moved_path old new p)"
proof -
  obtain ns ms where n: "new = pl_workspace pl @ map Normal ns" "ns \<noteq> []" "list_all utf8_valid ns"
    "p = pl_workspace pl @ map Normal ms" "list_all utf8_valid ms"
    using assms by (auto simp: confined_def)
  obtain pre where old: "old = pl_workspace pl @ pre" using assms(4) by (auto simp: starts_with_iff)
  have "drop (length old) p = map Normal (drop (length pre) ms)"
    by (simp add: n old drop_map)
  moreover have "list_all utf8_valid (drop (length pre) ms)"
    using n(5) by (auto simp: list_all_iff dest: in_set_dropD)
  ultimately show ?thesis
    using n(1-3) by (auto simp: confined_def moved_path_def intro!: exI [of _ "ns @ drop (length pre) ms"])
qed

text \<open>What the move needs: both trees are loaded and apart, and the destination stands in directories.\<close>

definition movable :: "environment \<Rightarrow> planner \<Rightarrow> (path, resource_state) btree \<Rightarrow> path \<Rightarrow> path \<Rightarrow> bool" where
  "movable env pl E old new \<longleftrightarrow>
     \<not> starts_with old new \<and> \<not> starts_with new old
     \<and> bt_get E old \<noteq> None \<and> settled_below E old \<and> bt_get E new \<noteq> None \<and> settled_below E new
     \<and> (\<forall>q. below new q \<longrightarrow> below q (pl_workspace pl) \<longrightarrow> dir_at env E q)"

lemma movable_disjoint: "movable env pl E old new \<Longrightarrow> starts_with q new \<Longrightarrow> \<not> starts_with q old"
  using below_linear [of q old new] by (auto simp: movable_def below_def)

text \<open>What the disk has at a destination had an entry before the move.\<close>

lemma move_target_known:
  assumes fs: "posix_fs env" and ok: "tree_ok env pl E" and mv: "movable env pl E old new"
    and q: "confined pl q" "starts_with q new" "on_disk env q"
  shows "bt_get E q \<noteq> None"
  using covered [OF fs ok _ _ q(1) _ q(3), of new] mv q(2)
  by (cases "q = new") (auto simp: movable_def below_def)

lemma tree_ok_move:
  assumes fs: "posix_fs env" and ok: "tree_ok env pl E" and mv: "movable env pl E old new"
    and E': "bt_ok E'" "\<And>q. bt_get E' q = entry_after_move old new E q"
  shows "tree_ok env pl E'"
proof -
  have root: "bt_get E old \<noteq> None" "settled_below E old" "bt_get E new \<noteq> None" "settled_below E new"
    using mv by (auto simp: movable_def)
  have conf: "confined pl old" "confined pl new"
    using root tree_ok_confined [OF ok] by blast+
  note newW = confined_below [OF conf(2)] and oldW = confined_below [OF conf(1)]
  have target: "confined pl q" if "starts_with q new" "bt_get E (moved_path new old q) = Some st" for q st
    using confined_moved [OF conf(2) tree_ok_confined [OF ok that(2)], of old] moved_path_inverse [OF that(1), of old] oldW
    by (simp add: below_def)
  have keys: "bt_get E q \<noteq> None \<Longrightarrow> bt_get E' q \<noteq> None" for q
    by (auto simp: E' entry_after_move_def split: option.splits)
  have existing: "(\<exists>so. starts_with q new \<and> bt_get E (moved_path new old q) = Some so \<and> st = moved_state q so)
      \<or> (bt_get E q = Some st \<and> \<not> starts_with q new \<and> \<not> starts_with q old)"
    if "bt_get E' q = Some st" "st \<noteq> missing_resource q" for q st
    using that by (auto simp: E' entry_after_move_def split: if_splits option.splits)
  show ?thesis
    unfolding tree_ok_def
  proof (intro conjI allI impI)
    show "bt_ok E'" by (rule E'(1))
  next
    fix q st assume q: "bt_get E' q = Some st"
    show "entry_ok pl q st"
    proof (cases "st = missing_resource q")
      case True
      have "confined pl q"
        using q target tree_ok_confined [OF ok]
        by (auto simp: E' entry_after_move_def split: if_splits option.splits)
      with True show ?thesis by (simp add: entry_ok_missing)
    next
      case False
      with existing [OF q] tree_okD(1) [OF ok] target show ?thesis
        by (auto simp: entry_ok_def moved_state_def)
    qed
  next
    fix q st r assume q: "bt_get E' q = Some st" "st_exists st" "below q r" "below r (pl_workspace pl)"
    then have "st \<noteq> missing_resource q" by (auto simp: missing_resource_def missing_manifest_def)
    from existing [OF q(1) this] show "dir_at env E' r"
    proof (elim disjE exE conjE)
      fix so assume so: "starts_with q new" "bt_get E (moved_path new old q) = Some so" "st = moved_state q so"
      show ?thesis
      proof (cases "starts_with r new")
        case True
        note m = moved_path_below [OF so(1) q(3) True, of old]
        have "st_exists so" using q(2) so(3) by (simp add: moved_state_def)
        then obtain sr where "bt_get E (moved_path new old r) = Some sr" "st_kind sr = DirectoryKind"
          using between_entries [OF fs ok root(1,2) so(2) _ m] by blast
        with True show ?thesis by (simp add: dir_at_def E' entry_after_move_def moved_state_def)
      next
        case False
        with so(1) q(3) have "below new r"
          using below_linear [of q new r] by (auto simp: below_def)
        moreover from this have "\<not> starts_with r old"
          using mv starts_with_trans by (auto simp: movable_def below_def)
        ultimately show ?thesis
          using mv q(4) False by (auto simp: movable_def dir_at_def E' entry_after_move_def)
      qed
    next
      assume so: "bt_get E q = Some st" "\<not> starts_with q new" "\<not> starts_with q old"
      then have "\<not> starts_with r new" "\<not> starts_with r old"
        using q(3) starts_with_trans by (auto simp: below_def)
      then show ?thesis
        using tree_okD(2) [OF ok so(1) q(2-4)] by (simp add: dir_at_def E' entry_after_move_def)
    qed
  next
    fix q st n assume q: "bt_get E' q = Some st" "settled st" "on_disk env (join_name q n)"
    have "\<exists>sq. bt_get E q = Some sq \<and> settled sq"
    proof (cases "starts_with q new \<or> starts_with q old")
      case True
      have "bt_get E q \<noteq> None"
      proof (cases "starts_with q new")
        case True
        moreover have "confined pl q"
          using q(1) target tree_ok_confined [OF ok] True
          by (auto simp: E' entry_after_move_def split: option.splits)
        ultimately show ?thesis
          using move_target_known [OF fs ok mv] on_disk_up [OF fs q(3)] by blast
      next
        case False
        with True q(1) show ?thesis by (auto simp: E' entry_after_move_def)
      qed
      with True root(2,4) show ?thesis by (auto simp: settled_below_def)
    next
      case False
      with q(1,2) show ?thesis by (auto simp: E' entry_after_move_def)
    qed
    then show "bt_get E' (join_name q n) \<noteq> None"
      using tree_okD(3) [OF ok _ _ q(3)] keys by blast
  next
    fix q st assume q: "bt_get E' q = Some st" "\<not> settled st"
    then have "st \<noteq> missing_resource q" by auto
    from existing [OF q(1) this] show "disk_dir env q"
    proof (elim disjE exE conjE)
      fix so assume so: "starts_with q new" "bt_get E (moved_path new old q) = Some so" "st = moved_state q so"
      moreover have "settled so" using root(2) so(2) by (auto simp: settled_below_def)
      ultimately show ?thesis using q(2) by (simp add: moved_state_def settled_def)
    next
      assume "bt_get E q = Some st"
      then show ?thesis using tree_okD(4) [OF ok _ q(2)] by blast
    qed
  qed
qed

section \<open>The operations on the virtual Workspace\<close>

lemma vw_ok_affect:
  assumes ok: "vw_ok env pl t vw" and p: "bt_get (vw_entries vw) p \<noteq> None"
    and tree: "tree_ok env pl (bt_insert p st (vw_entries vw))" and st: "settled st" "matches env st (t' p)"
    and same: "\<And>q. q \<noteq> p \<Longrightarrow> t' q = t q"
  shows "vw_ok env pl t' (affect p st vw)"
proof -
  have "mirrors env pl (bt_insert p st (vw_entries vw)) t'"
    by (rule mirrors_insert [OF vw_okD(7) [OF ok] st(2) same])
  then show ?thesis
    using vw_okD(5,6) [OF ok] tree before_ok_keep [OF vw_okD(2) [OF ok] p] st(1)
    by (intro vw_okI) (auto simp: affect_def)
qed

text \<open>Nothing of the tree is below a covered path but what has an entry.\<close>

lemma uncovered_node:
  assumes fs: "posix_fs env" and ok: "vw_ok env pl t vw"
    and a: "bt_get (vw_entries vw) a \<noteq> None" "settled_below (vw_entries vw) a"
    and q: "confined pl q" "starts_with q a" "bt_get (vw_entries vw) q = None"
  shows "t q = None" "disk_tree env q = None"
proof -
  have "below q a" using a(1) q(2,3) by (auto simp: below_def)
  then have "\<not> on_disk env q" using covered [OF fs vw_okD(1) [OF ok] a q(1)] q(3) by blast
  then show "disk_tree env q = None" by (rule disk_tree_absent)
  with mirrorsD(1) [OF vw_okD(7) [OF ok] q(1,3)] show "t q = None" by simp
qed

lemma missing_node:
  assumes "vw_ok env pl t vw" "confined pl q" "bt_get (vw_entries vw) q = Some st" "\<not> st_exists st"
  shows "t q = None"
proof -
  have "st_kind st = MissingKind"
    using tree_okD(1) [OF vw_okD(1) [OF assms(1)] assms(3)] assms(4) by (simp add: entry_ok_def)
  then show ?thesis
    using mirrorsD(2) [OF vw_okD(7) [OF assms(1)] assms(2,3)] by (simp add: matches_def)
qed

lemma vw_ok_delete:
  assumes fs: "posix_fs env" and ok: "vw_ok env pl t vw"
    and here: "bt_get (vw_entries vw) p \<noteq> None" "settled_below (vw_entries vw) p"
  defines "doomed \<equiv> map fst (filter (\<lambda>e. st_exists (snd e)) (subtree p (vw_entries vw)))"
    and "t' \<equiv> \<lambda>q. if starts_with q p then None else t q"
  shows "vw_ok env pl t' (fold remove_resource doomed vw)"
    "\<And>q. confined pl q \<Longrightarrow> q \<notin> set (vw_affected (fold remove_resource doomed vw)) \<Longrightarrow> t' q = t q"
proof -
  let ?vw = "fold remove_resource doomed vw"
  note tr = vw_okD(1) [OF ok]
  have get: "bt_get (vw_entries ?vw) q = (if q \<in> set doomed then Some (missing_resource q) else bt_get (vw_entries vw) q)" for q
    by (simp add: fold_remove_resource affect_all_sel map_of_removals)
  have d: "q \<in> set doomed \<longleftrightarrow> starts_with q p \<and> (\<exists>st. bt_get (vw_entries vw) q = Some st \<and> st_exists st)" for q
    by (auto simp: doomed_def subtree_filter [OF vw_okD(3) [OF ok]] bt_get_mem [OF vw_okD(3) [OF ok]] image_iff)
  have "tree_ok env pl (vw_entries ?vw)"
    by (rule tree_ok_delete [OF tr here(2) _ get]) (use d vw_okD(3) [OF ok] in \<open>auto simp: fold_remove_resource affect_all_sel\<close>)
  moreover have "before_ok env pl (vw_entries ?vw) (vw_before ?vw)"
    using vw_okD(2) [OF ok] d unfolding before_ok_def get by (auto simp: fold_remove_resource affect_all_sel)
  moreover have "sorted_wrt (<) (vw_affected ?vw)" "set (vw_affected ?vw) = set doomed \<union> set (vw_affected vw)"
    using vw_okD(5) [OF ok] by (auto simp: fold_remove_resource affect_all_sel removals_def image_image)
  moreover have kept: "t' q = t q" if q: "confined pl q" "q \<notin> set doomed" for q
  proof (cases "starts_with q p")
    case True
    have "t q = None"
    proof (cases "bt_get (vw_entries vw) q")
      case None
      then show ?thesis using uncovered_node(1) [OF fs ok here q(1) True] by blast
    next
      case (Some st)
      with q(2) d True have "\<not> st_exists st" by blast
      then show ?thesis by (rule missing_node [OF ok q(1) Some])
    qed
    with True show ?thesis by (simp add: t'_def)
  qed (simp add: t'_def)
  moreover have "mirrors env pl (vw_entries ?vw) t'"
    unfolding mirrors_def
  proof (intro allI impI)
    fix q assume q: "confined pl q"
    show "case bt_get (vw_entries ?vw) q of None \<Rightarrow> t' q = disk_tree env q | Some st \<Rightarrow> matches env st (t' q)"
    proof (cases "q \<in> set doomed")
      case True
      with d have "t' q = None" by (simp add: t'_def)
      with True show ?thesis by (simp add: get)
    next
      case False
      with kept [OF q False] mirrorsD [OF vw_okD(7) [OF ok] q] show ?thesis
        by (cases "bt_get (vw_entries vw) q") (simp_all add: get)
    qed
  qed
  ultimately show "vw_ok env pl t' ?vw"
    using vw_okD(6) [OF ok] by (intro vw_okI) (auto simp: get)
  show "t' q = t q" if "confined pl q" "q \<notin> set (vw_affected ?vw)" for q
    using kept [OF that(1)] that(2) by (auto simp: fold_remove_resource affect_all_sel removals_def image_image)
qed

lemma move_tree_sel:
  assumes "bt_ok (vw_entries vw)"
  shows "vw_before (move_tree old new vw) = vw_before vw" "bt_ok (vw_entries (move_tree old new vw))"
    "sorted_wrt (<) (vw_affected vw) \<Longrightarrow> sorted_wrt (<) (vw_affected (move_tree old new vw))"
    "set (vw_affected (move_tree old new vw)) = set (vw_affected vw)
       \<union> {q. bt_get (vw_entries vw) q \<noteq> None \<and> starts_with q new}
       \<union> {q. bt_get (vw_entries vw) q \<noteq> None \<and> starts_with q old}
       \<union> moved_path old new ` {q. bt_get (vw_entries vw) q \<noteq> None \<and> starts_with q old}"
proof -
  let ?moved = "subtree old (vw_entries vw)" and ?gone = "map fst (subtree new (vw_entries vw))"
  have tree: "move_tree old new vw = affect_all (moves old new ?moved) (affect_all (removals ?gone) vw)"
    unfolding move_tree_def Let_def
    by (subst fold_move_resource) (auto simp: subtree_filter [OF assms] fold_remove_resource)
  show "vw_before (move_tree old new vw) = vw_before vw" "bt_ok (vw_entries (move_tree old new vw))"
    "sorted_wrt (<) (vw_affected vw) \<Longrightarrow> sorted_wrt (<) (vw_affected (move_tree old new vw))"
    using assms by (simp_all add: tree affect_all_sel)
  have sub: "fst ` set (subtree p (vw_entries vw)) = {q. bt_get (vw_entries vw) q \<noteq> None \<and> starts_with q p}" for p
    by (auto simp: subtree_filter [OF assms] bt_get_mem [OF assms] image_iff)
  have gone: "fst ` set (removals ?gone) = fst ` set (subtree new (vw_entries vw))"
    by (simp add: removals_def image_image)
  have "fst ` set (moves old new es) = fst ` set es \<union> moved_path old new ` fst ` set es" for es
    by (induction es) (simp add: moves_def, auto simp: moves_Cons)
  then show "set (vw_affected (move_tree old new vw)) = set (vw_affected vw)
       \<union> {q. bt_get (vw_entries vw) q \<noteq> None \<and> starts_with q new}
       \<union> {q. bt_get (vw_entries vw) q \<noteq> None \<and> starts_with q old}
       \<union> moved_path old new ` {q. bt_get (vw_entries vw) q \<noteq> None \<and> starts_with q old}"
    unfolding tree affect_all_sel(5) gone sub by (simp add: sub Un_ac)
qed

lemma vw_ok_move:
  assumes fs: "posix_fs env" and ok: "vw_ok env pl t vw" and mv: "movable env pl (vw_entries vw) old new"
  defines "t' \<equiv> \<lambda>q. if starts_with q new then t (moved_path new old q) else if starts_with q old then None else t q"
  shows "vw_ok env pl t' (move_tree old new vw)"
    "\<And>q. confined pl q \<Longrightarrow> q \<notin> set (vw_affected (move_tree old new vw)) \<Longrightarrow> t' q = t q"
proof -
  let ?vw = "move_tree old new vw"
  note sel = move_tree_sel [OF vw_okD(3) [OF ok], of old new]
  have get: "bt_get (vw_entries ?vw) q = entry_after_move old new (vw_entries vw) q" for q
    using mv by (intro move_tree_entries vw_okD(3) [OF ok]) (auto simp: movable_def)
  have tr: "tree_ok env pl (vw_entries ?vw)"
    by (rule tree_ok_move [OF fs vw_okD(1) [OF ok] mv sel(2) get])
  have keys: "bt_get (vw_entries vw) q \<noteq> None \<Longrightarrow> bt_get (vw_entries ?vw) q \<noteq> None" for q
    by (auto simp: get entry_after_move_def split: option.splits)
  have known: "bt_get (vw_entries vw) q \<noteq> None" if "bt_get (vw_entries ?vw) q \<noteq> None" "on_disk env q" for q
  proof (cases "starts_with q new")
    case True
    have "confined pl q" using that(1) tree_ok_confined [OF tr] by blast
    then show ?thesis by (rule move_target_known [OF fs vw_okD(1) [OF ok] mv _ True that(2)])
  next
    case False
    with that(1) show ?thesis by (auto simp: get entry_after_move_def split: if_splits)
  qed
  have plain: "plain_path env pl q" if "bt_get (vw_entries ?vw) q \<noteq> None" for q
  proof (cases "bt_get (vw_entries vw) q")
    case None
    then have q: "starts_with q new" using that by (auto simp: get entry_after_move_def split: if_splits)
    have new: "plain_path env pl new" "bt_get (vw_entries vw) new \<noteq> None"
      using vw_okD(2) [OF ok] mv by (auto simp: before_ok_def movable_def)
    have conf: "confined pl q" using that tree_ok_confined [OF tr] by blast
    show ?thesis
      unfolding plain_path_def
    proof (intro allI impI, elim conjE)
      fix r assume r: "starts_with q r" "below r (pl_workspace pl)" "on_disk env r"
      show "plain_on_root env pl r"
      proof (cases "starts_with r new")
        case True
        have "bt_get (vw_entries vw) r \<noteq> None"
          by (rule move_target_known [OF fs vw_okD(1) [OF ok] mv confined_between [OF conf r(1,2)] True r(3)])
        with vw_okD(2) [OF ok] have "plain_path env pl r" by (auto simp: before_ok_def)
        with r show ?thesis by (simp add: plain_path_def)
      next
        case False
        with below_linear [OF q r(1)] have "starts_with new r" by (auto simp: below_def)
        with new(1) r show ?thesis by (simp add: plain_path_def)
      qed
    qed
  qed (use vw_okD(2) [OF ok] in \<open>auto simp: before_ok_def\<close>)
  have "before_ok env pl (vw_entries ?vw) (vw_before ?vw)"
    unfolding sel(1) by (rule before_ok_rekey [OF vw_okD(2) [OF ok] keys known plain])
  have roots: "bt_get (vw_entries vw) old \<noteq> None" "settled_below (vw_entries vw) old"
    "bt_get (vw_entries vw) new \<noteq> None" "settled_below (vw_entries vw) new"
    using mv by (auto simp: movable_def)
  have conf: "confined pl old" "confined pl new"
    using roots tree_ok_confined [OF vw_okD(1) [OF ok]] by blast+
  have origin: "confined pl (moved_path new old q)" if "confined pl q" "starts_with q new" for q
    using confined_moved [OF conf(1) that] confined_below [OF conf(2)] by (simp add: below_def)
  have moved: "settled st" if "bt_get (vw_entries vw) q = Some st" "starts_with q old" for q st
    using roots(2) that by (auto simp: settled_below_def)
  have settled: "\<exists>st. bt_get (vw_entries ?vw) p = Some st \<and> settled st" if aff: "p \<in> set (vw_affected ?vw)" for p
  proof (cases "starts_with p new")
    case True
    then show ?thesis
    proof (cases "bt_get (vw_entries vw) (moved_path new old p)")
      case (Some so)
      with True moved [OF Some] show ?thesis by (auto simp: get entry_after_move_def moved_state_def settled_def)
    next
      case None
      have "bt_get (vw_entries vw) p \<noteq> None"
        using aff vw_okD(6) [OF ok, of p] None True unfolding sel(4)
        by (auto simp: moved_path_inverse)
      with True None show ?thesis by (auto simp: get entry_after_move_def)
    qed
  next
    case False
    then have "p \<in> set (vw_affected vw) \<or> starts_with p old \<and> bt_get (vw_entries vw) p \<noteq> None"
      using aff unfolding sel(4) by auto
    with False vw_okD(6) [OF ok, of p] show ?thesis by (auto simp: get entry_after_move_def)
  qed
  have at_new: "t (moved_path new old q) = None"
    if "confined pl q" "starts_with q new" "bt_get (vw_entries vw) (moved_path new old q) = None" for q
    using uncovered_node(1) [OF fs ok roots(1,2) origin [OF that(1,2)]] that(3) by simp
  have mir: "mirrors env pl (vw_entries ?vw) t'"
    unfolding mirrors_def
  proof (intro allI impI)
    fix q assume q: "confined pl q"
    note here = mirrorsD [OF vw_okD(7) [OF ok] q]
    show "case bt_get (vw_entries ?vw) q of None \<Rightarrow> t' q = disk_tree env q | Some st \<Rightarrow> matches env st (t' q)"
    proof (cases "starts_with q new")
      case True
      show ?thesis
      proof (cases "bt_get (vw_entries vw) (moved_path new old q)")
        case None
        with at_new [OF q True] True uncovered_node(2) [OF fs ok roots(3,4) q True] show ?thesis
          by (cases "bt_get (vw_entries vw) q") (simp_all add: get entry_after_move_def t'_def)
      next
        case (Some so)
        with mirrorsD(2) [OF vw_okD(7) [OF ok] origin [OF q True] Some] True show ?thesis
          by (simp add: get entry_after_move_def t'_def)
      qed
    next
      case False
      with here uncovered_node(2) [OF fs ok roots(1,2) q] show ?thesis
        by (cases "bt_get (vw_entries vw) q") (simp_all add: get entry_after_move_def t'_def)
    qed
  qed
  show "vw_ok env pl t' ?vw"
    using tr \<open>before_ok env pl (vw_entries ?vw) (vw_before ?vw)\<close> sel(3) [OF vw_okD(5) [OF ok]] settled mir
    by (rule vw_okI)
  show "t' q = t q" if q: "confined pl q" "q \<notin> set (vw_affected ?vw)" for q
  proof -
    have out: "bt_get (vw_entries vw) q = None" if "starts_with q new \<or> starts_with q old"
      using q(2) that unfolding sel(4) by auto
    show ?thesis
    proof (cases "starts_with q new")
      case True
      have "moved_path old new (moved_path new old q) = q" by (rule moved_path_inverse [OF True])
      then have "bt_get (vw_entries vw) (moved_path new old q) = None"
        using q(2) unfolding sel(4) by (metis (mono_tags, lifting) UnI2 image_eqI mem_Collect_eq moved_path_starts)
      with at_new [OF q(1) True] uncovered_node(1) [OF fs ok roots(3,4) q(1) True] out True show ?thesis
        by (simp add: t'_def)
    next
      case False
      with out uncovered_node(1) [OF fs ok roots(1,2) q(1)] show ?thesis by (auto simp: t'_def)
    qed
  qed
qed

end
