(* ===== verification/Plan_Progress.thy ===== *)
theory Plan_Progress
  imports Plan_Steps Text_Edits
begin

text \<open>
  A plan state is good when its virtual Workspace is, no problem was recorded, and the operations
  planned so far name affected paths, order their edits and are counted by the summary. Every
  operation started in a good state returns, and records a problem or reaches a good state.
\<close>

section \<open>Good plan states\<close>

fun op_edits :: "canonical_operation \<Rightarrow> canonical_text_edit list" where
  "op_edits (OpText _ _ _ _ _ edits) = edits"
| "op_edits _ = []"

fun disjoint_edits :: "nat \<Rightarrow> canonical_text_edit list \<Rightarrow> bool" where
  "disjoint_edits c [] \<longleftrightarrow> True"
| "disjoint_edits c (e # es) \<longleftrightarrow> c \<le> ce_start e \<and> ce_start e \<le> ce_end e \<and> disjoint_edits (ce_end e) es"

definition new_text_total :: "canonical_operation list \<Rightarrow> nat" where
  "new_text_total ops = sum_list (map (\<lambda>op. sum_list (map (\<lambda>e. length (ce_new_text e)) (op_edits op))) ops)"

fun is_create :: "canonical_operation \<Rightarrow> bool" where
  "is_create (OpCreate _ _ _ _ _) = True" | "is_create _ = False"

fun is_rename :: "canonical_operation \<Rightarrow> bool" where
  "is_rename (OpRename _ _ _ _ _ _ _) = True" | "is_rename _ = False"

fun is_delete :: "canonical_operation \<Rightarrow> bool" where
  "is_delete (OpDelete _ _ _ _ _) = True" | "is_delete _ = False"

definition summary_of :: "canonical_operation list \<Rightarrow> preview_summary" where
  "summary_of ops = \<lparr>su_files_changed = 0,
     su_text_edits = min (sum_list (map (\<lambda>op. length (op_edits op)) ops)) u64_max,
     su_creates = min (length (filter is_create ops)) u64_max,
     su_renames = min (length (filter is_rename ops)) u64_max,
     su_deletes = min (length (filter is_delete ops)) u64_max\<rparr>"

text \<open>The tree the operations planned so far make of the disk.\<close>

definition planned_tree :: "environment \<Rightarrow> plan_state \<Rightarrow> tree" where
  "planned_tree env s = apply_operations (ps_operations s) (disk_tree env)"

definition operations_ok :: "plan_state \<Rightarrow> bool" where
  "operations_ok s \<longleftrightarrow>
     (\<forall>op \<in> set (ps_operations s).
        set (op_paths op) \<subseteq> set (vw_affected (ps_workspace s)) \<and> disjoint_edits 0 (op_edits op))
     \<and> min (new_text_total (ps_operations s)) u64_max \<le> ps_new_text_bytes s
     \<and> ps_summary s = summary_of (ps_operations s)"

definition plan_ok :: "environment \<Rightarrow> planner \<Rightarrow> plan_state \<Rightarrow> bool" where
  "plan_ok env pl s \<longleftrightarrow>
     vw_ok env pl (planned_tree env s) (ps_workspace s) \<and> operations_ok s \<and> ps_problems s = []
     \<and> sound_steps env pl (set (vw_affected (ps_workspace s))) (ps_operations s) (disk_tree env)
     \<and> (\<forall>p. confined pl p \<longrightarrow> p \<notin> set (vw_affected (ps_workspace s)) \<longrightarrow> planned_tree env s p = disk_tree env p)"

lemma plan_ok_initial [simp]: "plan_ok env pl initial_plan_state"
  by (simp add: plan_ok_def operations_ok_def initial_plan_state_def new_text_total_def summary_of_def empty_summary_def
      planned_tree_def)

text \<open>A step's outcome: it returns, with a problem recorded or in a good state.\<close>

definition proceeds :: "environment \<Rightarrow> planner \<Rightarrow> plan_state option \<Rightarrow> bool" where
  "proceeds env pl r \<longleftrightarrow> (\<exists>s. r = Some s \<and> (ps_problems s \<noteq> [] \<or> plan_ok env pl s))"

lemma proceeds_problem [simp]: "proceeds env pl (Some (push_problem p s))"
  by (simp add: proceeds_def push_problem_def)

lemma proceeds_ok: "plan_ok env pl s \<Longrightarrow> proceeds env pl (Some s)"
  by (auto simp: proceeds_def)

lemma proceeds_attempt:
  "(\<And>a. r = Inr a \<Longrightarrow> proceeds env pl (f a s)) \<Longrightarrow> proceeds env pl (attempt r f s)"
  by (auto simp: attempt_def split: sum.splits)

lemma proceeds_load:
  assumes "runs m (ps_workspace s) Q"
    and "\<And>vw. Q () vw \<Longrightarrow> proceeds env pl (f (s\<lparr>ps_workspace := vw\<rparr>))"
  shows "proceeds env pl (attempt_load m f s)"
  using assms by (auto simp: runs_def attempt_load_def split: sum.splits)

lemma plan_ok_load:
  assumes "plan_ok env pl s" "vw_ok env pl (planned_tree env s) vw" "frame X (ps_workspace s) vw"
  shows "plan_ok env pl (s\<lparr>ps_workspace := vw\<rparr>)"
  using assms by (simp add: plan_ok_def operations_ok_def frame_def planned_tree_def)

lemma planned_tree_simps [simp]:
  "planned_tree env (s\<lparr>ps_workspace := vw\<rparr>) = planned_tree env s"
  "planned_tree env (s\<lparr>ps_new_text_bytes := b\<rparr>) = planned_tree env s"
  by (simp_all add: planned_tree_def)

lemma sat_add_min: "sat_add (min a u64_max) b = min (a + b) u64_max"
  by (simp add: sat_add_def min_def)

lemma summary_of_append:
  "summary_of (ops @ [op]) = (summary_of ops)
     \<lparr>su_text_edits := sat_add (su_text_edits (summary_of ops)) (length (op_edits op)),
      su_creates := sat_add (su_creates (summary_of ops)) (if is_create op then 1 else 0),
      su_renames := sat_add (su_renames (summary_of ops)) (if is_rename op then 1 else 0),
      su_deletes := sat_add (su_deletes (summary_of ops)) (if is_delete op then 1 else 0)\<rparr>"
  by (simp add: summary_of_def sat_add_min)

lemma sat_add_0: "a \<le> u64_max \<Longrightarrow> sat_add a 0 = a"
  by simp

lemma summary_of_bounds:
  "su_text_edits (summary_of ops) \<le> u64_max" "su_creates (summary_of ops) \<le> u64_max"
  "su_renames (summary_of ops) \<le> u64_max" "su_deletes (summary_of ops) \<le> u64_max"
  by (simp_all add: summary_of_def)

text \<open>An operation that applies and takes away only known paths.\<close>

definition fits :: "environment \<Rightarrow> planner \<Rightarrow> path set \<Rightarrow> canonical_operation \<Rightarrow> tree \<Rightarrow> bool" where
  "fits env pl A op t \<longleftrightarrow>
     applicable env pl op t \<and> (\<forall>q. confined pl q \<longrightarrow> uproots op q \<longrightarrow> t q \<noteq> None \<longrightarrow> q \<in> A)"

text \<open>Recording an operation whose paths are affected now.\<close>

lemma plan_ok_operation:
  assumes ok: "plan_ok env pl s" and vw: "vw_ok env pl (apply_operation op (planned_tree env s)) vw"
    and same: "\<And>q. confined pl q \<Longrightarrow> q \<notin> set (vw_affected vw) \<Longrightarrow> apply_operation op (planned_tree env s) q = planned_tree env s q"
    and affected: "set (vw_affected (ps_workspace s)) \<subseteq> set (vw_affected vw)" "set (op_paths op) \<subseteq> set (vw_affected vw)"
    and step: "fits env pl (set (vw_affected vw)) op (planned_tree env s)"
    and edits: "disjoint_edits 0 (op_edits op)"
    and bytes: "min (new_text_total (ps_operations s @ [op])) u64_max \<le> bytes"
    and summary: "summary = summary_of (ps_operations s @ [op])"
  shows "plan_ok env pl (push_operation op (s\<lparr>ps_workspace := vw, ps_new_text_bytes := bytes, ps_summary := summary\<rparr>))"
  unfolding plan_ok_def
proof (intro conjI allI impI)
  let ?s = "push_operation op (s\<lparr>ps_workspace := vw, ps_new_text_bytes := bytes, ps_summary := summary\<rparr>)"
  have tree: "planned_tree env ?s = apply_operation op (planned_tree env s)"
    by (simp add: planned_tree_def push_operation_def)
  show "vw_ok env pl (planned_tree env ?s) (ps_workspace ?s)" unfolding tree using vw by (simp add: push_operation_def)
  have "set (op_paths o') \<subseteq> set (vw_affected vw)" "disjoint_edits 0 (op_edits o')" if "o' \<in> set (ps_operations s)" for o'
    using ok that affected(1) unfolding plan_ok_def operations_ok_def by blast+
  with affected(2) edits bytes summary show "operations_ok ?s"
    by (auto simp: operations_ok_def push_operation_def)
  show "ps_problems ?s = []" using ok by (simp add: plan_ok_def push_operation_def)
  show "sound_steps env pl (set (vw_affected (ps_workspace ?s))) (ps_operations ?s) (disk_tree env)"
    using ok step affected(2) same sound_steps_mono [OF _ affected(1)]
    by (simp add: plan_ok_def push_operation_def sound_steps_append planned_tree_def sound_step_def fits_def)
  fix p assume p: "confined pl p" "p \<notin> set (vw_affected (ps_workspace ?s))"
  then have "p \<notin> set (vw_affected vw)" by (simp add: push_operation_def)
  with p(1) same affected(1) ok show "planned_tree env ?s p = disk_tree env p"
    unfolding tree by (auto simp: plan_ok_def)
qed

section \<open>Text edits\<close>

lemma total_of_edits:
  "fold (\<lambda>e n. sat_add n (length (pe_new_text e))) es b = (if es = [] then b else min (b + sum_list (map (\<lambda>e. length (pe_new_text e)) es)) u64_max)"
proof (induction es arbitrary: b)
  case (Cons e es)
  show ?case
    unfolding fold_simps comp_def Cons.IH
    by (auto simp: sat_add_def min_def)
qed simp

lemma disjoint_canonical: "edits_chain c es \<Longrightarrow> disjoint_edits c (map canonical_edit es)"
  by (induction es arbitrary: c) (auto simp: canonical_edit_def)

lemma plan_text_edits_proceeds:
  assumes ok: "plan_ok env pl s" and st: "bt_get (vw_entries (ps_workspace s)) p = Some st"
    "st_kind st = FileKind" and bytes: "rs_text st = Some bytes" and valid: "utf8_valid bytes"
  shows "proceeds env pl (plan_text_edits env pl index uri p raw annotations st bytes s)"
proof -
  obtain parsed failures where parse: "parse_text_edits bytes annotations (pl_encoding pl) index p 0 raw = (parsed, failures)"
    by fastforce
  let ?edits = "sort_key edit_key parsed"
  let ?s1 = "s\<lparr>ps_problems := ps_problems s @ failures\<rparr>"
  have clean: "ps_problems s = []" using ok by (simp add: plan_ok_def)
  note unfold = plan_text_edits_def Let_def parse prod.case
  have vw: "vw_ok env pl (planned_tree env s) (ps_workspace s)" using ok by (simp add: plan_ok_def)
  note t = vw_okD(1) [OF vw]
  show ?thesis
  proof (cases "overlapping ?edits \<or> failures \<noteq> []")
    case True
    have "\<exists>q \<in> set (ps_problems ?s1). wp_index q = Some index" if "failures \<noteq> []"
      using that parse_text_edits_ok(2) [OF valid parse] by (cases failures) auto
    with True show ?thesis
      unfolding unfold by (auto simp: proceeds_def push_problem_def)
  next
    case False
    then have ov: "\<not> overlapping ?edits" and f: "failures = []" by auto
    have s1: "?s1 = s" using f by simp
    note chain = sorted_edits_chain [OF valid parse ov]
    have ends: "\<forall>e \<in> set ?edits. pe_end e \<le> length bytes" using chain(2) by (auto simp: edit_in_def)
    have splice: "splice_edits bytes 0 ?edits [] = Some (apply_backwards ?edits bytes)"
      using splice_edits_spec [OF chain(1) ends] by simp
    obtain before where before: "me_content (rs_manifest st) = Some before"
      using tree_okD(1) [OF t st(1)] st(2) by (auto simp: entry_ok_def)
    let ?total = "fold (\<lambda>e n. sat_add n (length (pe_new_text e))) ?edits (ps_new_text_bytes s)"
    have total: "min (new_text_total (ps_operations s)) u64_max \<le> ?total"
      "min (new_text_total (ps_operations s @ [op])) u64_max \<le> ?total" if "op_edits op = map canonical_edit ?edits" for op
    proof -
      have sum: "(\<lambda>e. length (ce_new_text e)) \<circ> canonical_edit = (\<lambda>e. length (pe_new_text e))"
        by (simp add: comp_def canonical_edit_def)
      have "min (new_text_total (ps_operations s)) u64_max \<le> ps_new_text_bytes s"
        using ok by (simp add: plan_ok_def operations_ok_def)
      then show "min (new_text_total (ps_operations s)) u64_max \<le> ?total"
        "min (new_text_total (ps_operations s @ [op])) u64_max \<le> ?total"
        unfolding total_of_edits by (auto simp: new_text_total_def that sum min_def)
    qed
    let ?after = "digest_raw_bytes (env_sha env) (apply_backwards ?edits bytes)"
    let ?st = "st\<lparr>rs_text := Some (apply_backwards ?edits bytes), rs_manifest := (rs_manifest st)\<lparr>me_content := Some ?after\<rparr>\<rparr>"
    let ?vw = "affect p ?st (ps_workspace s)"
    let ?op = "OpText index uri p before ?after (map canonical_edit ?edits)"
    have unchanged: "plan_ok env pl (s\<lparr>ps_new_text_bytes := ?total\<rparr>)"
      using ok total(1) [of ?op] by (simp add: plan_ok_def operations_ok_def)
    have settled: "settled ?st" "settled st" using st(2) by (simp_all add: settled_def)
    have match: "matches env st (planned_tree env s p)"
      by (rule mirrorsD(2) [OF vw_okD(7) [OF vw] tree_ok_confined [OF t st(1)] st(1)])
    then have here: "planned_tree env s p = Some (File bytes)" using st(2) bytes by (auto simp: matches_def)
    have "before = digest_raw_bytes (env_sha env) bytes" using match st(2) bytes before by (auto simp: matches_def)
    moreover have "edits_within bytes (map canonical_edit ?edits)"
      using chain(2) by (auto simp: edits_within_def edit_in_def canonical_edit_def)
    ultimately have step: "fits env pl A ?op (planned_tree env s)" for A
      using here valid by (simp add: fits_def edit_text_canonical)
    from here have tree: "apply_operation ?op (planned_tree env s) = (planned_tree env s)(p \<mapsto> File (apply_backwards ?edits bytes))"
      by (simp add: edit_text_canonical)
    have "vw_ok env pl (apply_operation ?op (planned_tree env s)) ?vw"
      unfolding tree
    proof (rule vw_ok_affect [OF vw])
      show "tree_ok env pl (bt_insert p ?st (vw_entries (ps_workspace s)))"
        using tree_okD(1) [OF t st(1)] st settled by (intro tree_ok_replace [OF t st(1)]) (auto simp: entry_ok_def)
    qed (use st settled in \<open>simp_all add: matches_def\<close>)
    moreover have "apply_operation ?op (planned_tree env s) q = planned_tree env s q" if "q \<notin> set (vw_affected ?vw)" for q
      using that unfolding tree by (auto simp: affect_def)
    ultimately have changed: "plan_ok env pl (push_operation ?op (s\<lparr>ps_workspace := ?vw, ps_new_text_bytes := ?total,
        ps_summary := summary_of (ps_operations s @ [?op])\<rparr>))"
      using total(2) [of ?op] disjoint_canonical [OF chain(1)] step
      by (intro plan_ok_operation [OF ok]) (auto simp: affect_def)
    have reorder: "s\<lparr>ps_workspace := w, ps_new_text_bytes := b, ps_summary := m\<rparr>
        = s\<lparr>ps_new_text_bytes := b, ps_workspace := w, ps_summary := m\<rparr>" for w b m
      by (cases s) simp
    have "summary_of (ps_operations s @ [?op])
        = (ps_summary s)\<lparr>su_text_edits := sat_add (su_text_edits (ps_summary s)) (length ?edits)\<rparr>"
      using ok summary_of_bounds unfolding summary_of_append by (simp add: plan_ok_def operations_ok_def sat_add_0)
    then have changed': "plan_ok env pl (push_operation ?op (s\<lparr>ps_new_text_bytes := ?total, ps_workspace := ?vw,
        ps_summary := (ps_summary s)\<lparr>su_text_edits := sat_add (su_text_edits (ps_summary s)) (length ?edits)\<rparr>\<rparr>))"
      using changed unfolding reorder by simp
    show ?thesis
      unfolding unfold s1
      using ov clean splice before unchanged changed'
      by (auto simp: affect_def intro: proceeds_ok)
  qed
qed

section \<open>Resource operations\<close>

text \<open>A validated path whose parent the code accepted stands in directories.\<close>

lemma parent_accepted:
  assumes fs: "posix_fs env" and t: "tree_ok env pl (vw_entries vw)" and p: "confined pl p" "validated env pl p"
    and par: "require_existing_parent env pl vw p index = Inr u"
    and q: "below p q" "below q (pl_workspace pl)"
  shows "dir_at env (vw_entries vw) q"
proof -
  obtain d n where d: "p = join_name d n" using confined_last [OF p(1)] by blast
  have dq: "starts_with d q" using q(1) by (simp add: d below_join)
  have dw: "below d (pl_workspace pl)" by (rule starts_below [OF dq q(2)])
  have dc: "confined pl d" using confined_between [OF p(1) _ dw] by (simp add: d)
  have dv: "validated env pl d" using validated_up [OF p(2), of d] by (simp add: d)
  show ?thesis
  proof (cases "bt_get (vw_entries vw) d")
    case (Some sd)
    with par have k: "st_kind sd = DirectoryKind"
      by (simp add: require_existing_parent_def Let_def d split: if_splits)
    with tree_okD(1) [OF t Some] have "st_exists sd" by (simp add: entry_ok_def)
    with tree_okD(2) [OF t Some _ _ q(2)] dq Some k show ?thesis
      by (cases "d = q") (auto simp: dir_at_def below_def)
  next
    case None
    with par have disk: "disk_dir env d"
      by (auto simp: require_existing_parent_def Let_def d disk_dir_def split: stat_result.splits if_splits)
    show ?thesis
    proof (cases "d = q")
      case True
      with None disk show ?thesis by (simp add: dir_at_def)
    next
      case False
      with dq have below: "below d q" by (simp add: below_def)
      show ?thesis
      proof (cases "bt_get (vw_entries vw) q")
        case None
        with validated_ancestor_dir [OF fs dc dv _ below q(2)] disk show ?thesis by (simp add: dir_at_def)
      next
        case (Some sq)
        with covered_leaf [OF fs t Some _ dc below None] disk show ?thesis by (auto simp: dir_at_def)
      qed
    qed
  qed
qed

lemma summary_of_resource_operation:
  assumes "plan_ok env pl s"
  shows "summary_of (ps_operations s @ [OpCreate i u p a b]) = (ps_summary s)\<lparr>su_creates := sat_add (su_creates (ps_summary s)) 1\<rparr>"
    and "summary_of (ps_operations s @ [OpRename i u v p q a b]) = (ps_summary s)\<lparr>su_renames := sat_add (su_renames (ps_summary s)) 1\<rparr>"
    and "summary_of (ps_operations s @ [OpDelete i u p a b]) = (ps_summary s)\<lparr>su_deletes := sat_add (su_deletes (ps_summary s)) 1\<rparr>"
  using assms summary_of_bounds unfolding summary_of_append by (simp_all add: plan_ok_def operations_ok_def sat_add_0)

lemma new_text_total_resource:
  "op_edits op = [] \<Longrightarrow> new_text_total (ops @ [op]) = new_text_total ops"
  by (simp add: new_text_total_def)

lemma plan_ok_resource_operation:
  assumes ok: "plan_ok env pl s" and vw: "vw_ok env pl (apply_operation op (planned_tree env s)) vw"
    and same: "\<And>q. confined pl q \<Longrightarrow> q \<notin> set (vw_affected vw) \<Longrightarrow> apply_operation op (planned_tree env s) q = planned_tree env s q"
    and affected: "set (vw_affected (ps_workspace s)) \<subseteq> set (vw_affected vw)" "set (op_paths op) \<subseteq> set (vw_affected vw)"
    and step: "fits env pl (set (vw_affected vw)) op (planned_tree env s)"
    and "op_edits op = []" and summary: "summary = summary_of (ps_operations s @ [op])"
  shows "plan_ok env pl (push_operation op (s\<lparr>ps_workspace := vw, ps_summary := summary\<rparr>))"
  using plan_ok_operation [OF ok vw same affected step, of "ps_new_text_bytes s" summary] assms
  by (simp add: new_text_total_resource plan_ok_def operations_ok_def)

lemma create_loaded_proceeds:
  assumes fs: "posix_fs env" and ok: "plan_ok env pl s" and p: "confined pl p" "validated env pl p"
    and st: "bt_get (vw_entries (ps_workspace s)) p = Some st"
  shows "proceeds env pl (create_loaded env pl index operation uri p s)"
proof -
  let ?vw = "ps_workspace s"
  have v: "vw_ok env pl (planned_tree env s) ?vw" using ok by (simp add: plan_ok_def)
  note t = vw_okD(1) [OF v]
  let ?next = "created_resource env (if st_exists st then st else missing_resource p)"
  have created: "plan_ok env pl (push_operation (OpCreate index uri p o1 o2)
      (s\<lparr>ps_workspace := affect p ?next ?vw, ps_summary := (ps_summary s)\<lparr>su_creates := sat_add (su_creates (ps_summary s)) 1\<rparr>\<rparr>))"
    if kind: "st_exists st \<longrightarrow> st_kind st = FileKind \<and> o1"
      and par: "\<not> st_exists st \<longrightarrow> require_existing_parent env pl ?vw p index = Inr ()" for o1 o2
  proof -
    have leaf: "st_kind st \<noteq> DirectoryKind"
      using kind tree_okD(1) [OF t st] by (cases "st_exists st") (auto simp: entry_ok_def)
    have "tree_ok env pl (bt_insert p ?next (vw_entries ?vw))"
    proof (rule tree_ok_insert [OF t])
      show "entry_ok pl p ?next"
        using p(1) tree_okD(1) [OF t st]
        by (simp add: entry_ok_def created_resource_def missing_resource_def missing_manifest_def)
      show "dir_at env (vw_entries ?vw) q" if "below p q" "below q (pl_workspace pl)" for q
        using tree_okD(2) [OF t st _ that] parent_accepted [OF fs t p _ that, of index "()"] par by blast
      show "st_kind ?next = DirectoryKind" if "bt_get (vw_entries ?vw) r = Some sr" "st_exists sr" "below r p" for r sr
        using nothing_below(1) [OF t st leaf that(1,3)] that(2) by simp
      show "bt_get (vw_entries ?vw) (join_name p n) \<noteq> None" if "on_disk env (join_name p n)" for n
        using tree_okD(3) [OF t st _ that] leaf by (simp add: settled_def)
      show "\<not> settled ?next \<Longrightarrow> disk_dir env p"
        by (simp add: settled_def created_resource_def)
    qed
    then have "vw_ok env pl (apply_operation (OpCreate index uri p o1 o2) (planned_tree env s)) (affect p ?next ?vw)"
      using st by (intro vw_ok_affect [OF v]) (auto simp: settled_def matches_def created_resource_def)
    moreover have "fits env pl A (OpCreate index uri p o1 o2) (planned_tree env s)" for A
      using mirrorsD(2) [OF vw_okD(7) [OF v] p(1) st] kind tree_okD(1) [OF t st]
      by (cases "st_kind st") (auto simp: fits_def matches_def entry_ok_def)
    ultimately show ?thesis
      by (intro plan_ok_resource_operation [OF ok]) (auto simp: affect_def summary_of_resource_operation [OF ok])
  qed
  show ?thesis
    unfolding create_loaded_def Let_def
    using st ok created
    by (auto split: if_splits intro: proceeds_ok intro!: proceeds_attempt)
qed

text \<open>Two trees that are loaded and apart can move when the destination's parent was accepted.\<close>

lemma rename_trees_proceeds:
  assumes fs: "posix_fs env" and ok: "plan_ok env pl s" and new: "confined pl new" "validated env pl new"
    and apart: "\<not> starts_with old new" "\<not> starts_with new old"
    and loaded: "bt_get (vw_entries (ps_workspace s)) old \<noteq> None" "settled_below (vw_entries (ps_workspace s)) old"
      "bt_get (vw_entries (ps_workspace s)) new \<noteq> None" "settled_below (vw_entries (ps_workspace s)) new"
    and app: "applicable env pl (OpRename index old_uri new_uri old new overwrite ignore_if_exists) (planned_tree env s)"
  shows "proceeds env pl (rename_trees env pl index old_uri new_uri old new overwrite ignore_if_exists s)"
  unfolding rename_trees_def Let_def
proof (rule proceeds_attempt)
  fix u assume par: "require_existing_parent env pl (ps_workspace s) new index = Inr u"
  let ?vw = "ps_workspace s"
  have v: "vw_ok env pl (planned_tree env s) ?vw" using ok by (simp add: plan_ok_def)
  have mv: "movable env pl (vw_entries ?vw) old new"
    using parent_accepted [OF fs vw_okD(1) [OF v] new par] apart loaded by (simp add: movable_def)
  let ?op = "OpRename index old_uri new_uri old new overwrite ignore_if_exists"
  have "q \<in> set (vw_affected (move_tree old new ?vw))"
    if q: "confined pl q" "starts_with q old \<or> starts_with q new" "planned_tree env s q \<noteq> None" for q
  proof -
    have "bt_get (vw_entries ?vw) q \<noteq> None"
      using q uncovered_node(1) [OF fs v loaded(1,2) q(1)] uncovered_node(1) [OF fs v loaded(3,4) q(1)] by metis
    with q(2) show ?thesis by (auto simp: move_tree_sel(4) [OF vw_okD(3) [OF v]])
  qed
  with app have step: "fits env pl (set (vw_affected (move_tree old new ?vw))) ?op (planned_tree env s)"
    by (auto simp: fits_def simp del: applicable.simps)
  have "set (vw_affected (move_tree old new ?vw)) \<supseteq> set (vw_affected ?vw) \<union> {old, new}"
    using loaded by (auto simp: move_tree_sel(4) [OF vw_okD(3) [OF v]])
  then have "plan_ok env pl (push_operation (OpRename index old_uri new_uri old new overwrite ignore_if_exists)
      (s\<lparr>ps_workspace := move_tree old new ?vw, ps_summary := (ps_summary s)\<lparr>su_renames := sat_add (su_renames (ps_summary s)) 1\<rparr>\<rparr>))"
    using vw_ok_move [OF fs v mv] step
    by (intro plan_ok_resource_operation [OF ok]) (simp_all add: summary_of_resource_operation [OF ok])
  then show "proceeds env pl
      (if nearest_existing_device env old \<noteq> nearest_existing_device env new
       then Some (push_problem (problem ''cross_volume_rename'' (Some index) (Some new)) s)
       else Some (push_operation (OpRename index old_uri new_uri old new overwrite ignore_if_exists)
              (s\<lparr>ps_workspace := move_tree old new (ps_workspace s),
                 ps_summary := (ps_summary s)\<lparr>su_renames := sat_add (su_renames (ps_summary s)) 1\<rparr>\<rparr>)))"
    by (auto intro: proceeds_ok)
qed

lemma rename_loaded_proceeds:
  assumes fs: "posix_fs env" and limit: "pl_max_recursion_depth pl < u64_max"
    and ok: "plan_ok env pl s" and new: "confined pl new" "validated env pl new"
    and apart: "\<not> starts_with old new" "\<not> starts_with new old"
    and loaded: "bt_get (vw_entries (ps_workspace s)) old \<noteq> None" "settled_below (vw_entries (ps_workspace s)) old"
      "bt_get (vw_entries (ps_workspace s)) new \<noteq> None"
  shows "proceeds env pl (rename_loaded env pl index operation old_uri new_uri old new s)"
proof -
  let ?vw = "ps_workspace s"
  have v: "vw_ok env pl (planned_tree env s) ?vw" using ok by (simp add: plan_ok_def)
  obtain source destination where st: "bt_get (vw_entries ?vw) old = Some source" "bt_get (vw_entries ?vw) new = Some destination"
    using loaded by blast
  have c: "confined pl old" "confined pl new" using tree_ok_confined [OF vw_okD(1) [OF v]] st by blast+
  note m = mirrorsD(2) [OF vw_okD(7) [OF v] c(1) st(1)] mirrorsD(2) [OF vw_okD(7) [OF v] c(2) st(2)]
  note e = tree_okD(1) [OF vw_okD(1) [OF v] st(1)] tree_okD(1) [OF vw_okD(1) [OF v] st(2)]
  have "proceeds env pl (attempt_load (if st_kind destination = DirectoryKind then load_resource_tree env pl new index else step_ok ())
      (rename_trees env pl index old_uri new_uri old new o1 o2) s)"
    if o: "st_exists source" "st_exists destination \<longrightarrow> o1 \<and> st_kind destination = st_kind source" for o1 o2
  proof (rule proceeds_load)
    have app: "applicable env pl (OpRename index old_uri new_uri old new o1 o2) (planned_tree env s)"
    proof -
      have closed: "planned_tree env s q = None" if q: "confined pl q" "below q new" "planned_tree env s new = None" for q
      proof (rule ccontr)
        assume n: "planned_tree env s q \<noteq> None"
        have leaf: "st_kind destination \<noteq> DirectoryKind" using m(2) q(3) by (auto simp: matches_def)
        obtain sq where sq: "bt_get (vw_entries ?vw) q = Some sq"
          using n uncovered_node(1) [OF fs v loaded(3) settled_below_leaf [OF vw_okD(1) [OF v] st(2) leaf] q(1)] q(2)
          by (cases "bt_get (vw_entries ?vw) q") (auto simp: below_def)
        from nothing_below(1) [OF vw_okD(1) [OF v] st(2) leaf sq q(2)] missing_node [OF v q(1) sq] n show False by metis
      qed
      have src: "planned_tree env s old \<noteq> None"
        using m(1) e(1) o(1) by (cases "st_kind source") (auto simp: matches_def entry_ok_def)
      have dst: "o1 \<and> map_option node_kind_of (planned_tree env s new) = map_option node_kind_of (planned_tree env s old)"
        if "planned_tree env s new \<noteq> None"
        using that m e o by (cases "st_kind source"; cases "st_kind destination") (auto simp: matches_def entry_ok_def)
      show ?thesis unfolding applicable.simps using apart src dst closed by blast
    qed
    let ?Q = "\<lambda>_ vw. vw_ok env pl (planned_tree env s) vw \<and> bt_get (vw_entries vw) new \<noteq> None \<and> settled_below (vw_entries vw) new
        \<and> frame {q. starts_with q new} ?vw vw"
    show "runs (if st_kind destination = DirectoryKind then load_resource_tree env pl new index else step_ok ()) ?vw ?Q"
      using load_resource_tree_runs [OF fs limit v new, of index] settled_below_leaf [OF vw_okD(1) [OF v] st(2)] st(2) v by simp
    show "proceeds env pl (rename_trees env pl index old_uri new_uri old new o1 o2 (s\<lparr>ps_workspace := vw\<rparr>))" if "?Q () vw" for vw
    proof (rule rename_trees_proceeds [OF fs _ new apart])
      have fr: "frame {q. starts_with q new} ?vw vw" using that by blast
      show "plan_ok env pl (s\<lparr>ps_workspace := vw\<rparr>)" using that plan_ok_load [OF ok] by blast
      show "bt_get (vw_entries (ps_workspace (s\<lparr>ps_workspace := vw\<rparr>))) old \<noteq> None"
        using frame_outside [OF fr, of old] apart loaded by simp
      show "settled_below (vw_entries (ps_workspace (s\<lparr>ps_workspace := vw\<rparr>))) old"
        using settled_below_frame [OF fr loaded(2)] below_linear [of _ old new] apart by (force simp: below_def)
    qed (use that app in simp_all)
  qed
  with st ok show ?thesis
    by (auto simp: rename_loaded_def Let_def intro: proceeds_ok)
qed

lemma delete_loaded_proceeds:
  assumes fs: "posix_fs env" and ok: "plan_ok env pl s" and st: "bt_get (vw_entries (ps_workspace s)) p = Some st"
    and here: "settled_below (vw_entries (ps_workspace s)) p"
  shows "proceeds env pl (delete_loaded index operation uri p s)"
proof -
  let ?vw = "ps_workspace s"
  let ?doomed = "map fst (filter (\<lambda>e. st_exists (snd e)) (subtree p (vw_entries ?vw)))"
  have v: "vw_ok env pl (planned_tree env s) ?vw" using ok by (simp add: plan_ok_def)
  have known: "bt_get (vw_entries ?vw) p \<noteq> None" using st by simp
  note ok' = vw_ok_delete [OF fs v known here]
  have "set (vw_affected (fold remove_resource ?doomed ?vw)) = set ?doomed \<union> set (vw_affected ?vw)"
    by (auto simp: fold_remove_resource affect_all_sel removals_def image_image)
  moreover have mem: "q \<in> set ?doomed \<longleftrightarrow> starts_with q p \<and> (\<exists>st. bt_get (vw_entries ?vw) q = Some st \<and> st_exists st)" for q
    by (auto simp: subtree_filter [OF vw_okD(3) [OF v]] bt_get_mem [OF vw_okD(3) [OF v]] image_iff)
  moreover have gone: "q \<in> set ?doomed"
    if q: "confined pl q" "starts_with q p" "planned_tree env s q \<noteq> None" for q
  proof -
    obtain sq where sq: "bt_get (vw_entries ?vw) q = Some sq"
      using q(3) uncovered_node(1) [OF fs v known here q(1,2)] by (cases "bt_get (vw_entries ?vw) q") auto
    moreover have "st_exists sq" using q(3) missing_node [OF v q(1) sq] by metis
    ultimately show ?thesis using q(2) mem by blast
  qed
  moreover have "applicable env pl (OpDelete index uri p o1 o2) (planned_tree env s)"
    if x: "st_exists st" and r: "st_kind st = DirectoryKind \<and> 1 < length ?doomed \<longrightarrow> o1" for o1 o2
  proof -
    note m = mirrorsD(2) [OF vw_okD(7) [OF v] tree_ok_confined [OF vw_okD(1) [OF v] st] st]
    have "planned_tree env s p \<noteq> None"
      using m tree_okD(1) [OF vw_okD(1) [OF v] st] x by (cases "st_kind st") (auto simp: matches_def entry_ok_def)
    moreover have "planned_tree env s q = None" if q: "\<not> o1" "confined pl q" "below q p" for q
    proof (rule ccontr)
      assume n: "planned_tree env s q \<noteq> None"
      have "q \<in> set ?doomed" "p \<in> set ?doomed" "q \<noteq> p" using gone [OF q(2) _ n] q(3) mem st x by (auto simp: below_def)
      then have "1 < length ?doomed" by (cases ?doomed; cases "tl ?doomed") auto
      moreover obtain sq where sq: "bt_get (vw_entries ?vw) q = Some sq" using \<open>q \<in> set ?doomed\<close> mem by blast
      ultimately show False
        using nothing_below(1) [OF vw_okD(1) [OF v] st _ sq q(3)] r q(1) \<open>q \<in> set ?doomed\<close> mem sq by auto
    qed
    ultimately show ?thesis by auto
  qed
  ultimately have "plan_ok env pl (push_operation (OpDelete index uri p o1 o2)
      (s\<lparr>ps_workspace := fold remove_resource ?doomed ?vw, ps_summary := (ps_summary s)\<lparr>su_deletes := sat_add (su_deletes (ps_summary s)) 1\<rparr>\<rparr>))"
    if "st_exists st" "st_kind st = DirectoryKind \<and> 1 < length ?doomed \<longrightarrow> o1" for o1 o2
    using that ok' st
    by (intro plan_ok_resource_operation [OF ok])
      (auto simp: summary_of_resource_operation [OF ok] fits_def simp del: applicable.simps)
  with st ok show ?thesis
    unfolding delete_loaded_def Let_def by (auto intro: proceeds_ok)
qed

end
