(* ===== verification/Plan_Accepted.thy ===== *)
theory Plan_Accepted
  imports Plan_Progress Workspace_Plan
begin

text \<open>
  From one operation to a whole Workspace Edit: the handlers from the URI on, the loops over the
  changes, the growth of the problem list, and what is known when a plan is accepted.
\<close>

section \<open>The handlers\<close>

lemma text_operation_proceeds:
  assumes fs: "posix_fs env" and ok: "plan_ok env pl s"
  shows "proceeds env pl (plan_text_operation env pl index uri edits_value annotations expected s)"
  unfolding plan_text_operation_def
proof (rule proceeds_attempt, goal_cases)
  case (1 p)
  note p = path_from_file_uri_ok(1,2) [OF fs 1]
  have vw: "vw_ok env pl (planned_tree env s) (ps_workspace s)" using ok by (simp add: plan_ok_def)
  show ?case
  proof (rule proceeds_load [OF load_exact_resource_runs [OF fs vw p]], goal_cases)
    case (1 vw)
    then obtain st where st: "bt_get (vw_entries vw) p = Some st" by blast
    let ?s = "s\<lparr>ps_workspace := vw\<rparr>"
    have s: "plan_ok env pl ?s" using 1 plan_ok_load [OF ok] by blast
    show ?case
      using st plan_text_edits_proceeds [OF s, of p st]
      by (auto simp: text_loaded_def Let_def split: option.splits)
  qed
qed

lemma create_operation_proceeds:
  assumes fs: "posix_fs env" and ok: "plan_ok env pl s"
  shows "proceeds env pl (plan_create_operation env pl index operation annotations s)"
  unfolding plan_create_operation_def
proof (intro proceeds_attempt, goal_cases)
  case 1
  show ?case
  proof (cases "Option.bind (bt_get operation ''uri'') as_str")
    case (Some uri)
    show ?thesis
      unfolding Some option.case
    proof (rule proceeds_attempt, goal_cases)
      case (1 p)
      note p = path_from_file_uri_ok(1,2) [OF fs 1]
      have vw: "vw_ok env pl (planned_tree env s) (ps_workspace s)" using ok by (simp add: plan_ok_def)
      show ?case
      proof (rule proceeds_load [OF load_exact_resource_runs [OF fs vw p]], goal_cases)
        case (1 vw)
        then show ?case
          using create_loaded_proceeds [OF fs _ p] plan_ok_load [OF ok] by fastforce
      qed
    qed
  qed simp
qed

lemma delete_operation_proceeds:
  assumes fs: "posix_fs env" and limit: "pl_max_recursion_depth pl < u64_max" and ok: "plan_ok env pl s"
  shows "proceeds env pl (plan_delete_operation env pl index operation annotations s)"
  unfolding plan_delete_operation_def
proof (intro proceeds_attempt, goal_cases)
  case 1
  show ?case
  proof (cases "Option.bind (bt_get operation ''uri'') as_str")
    case (Some uri)
    show ?thesis
      unfolding Some option.case
    proof (rule proceeds_attempt, goal_cases)
      case (1 p)
      note p = path_from_file_uri_ok(1,2) [OF fs 1]
      have vw: "vw_ok env pl (planned_tree env s) (ps_workspace s)" using ok by (simp add: plan_ok_def)
      show ?case
      proof (rule proceeds_load [OF load_resource_tree_runs [OF fs limit vw p]], goal_cases)
        case (1 vw)
        then show ?case
          using delete_loaded_proceeds [OF fs] plan_ok_load [OF ok] by fastforce
      qed
    qed
  qed simp
qed

lemma rename_operation_proceeds:
  assumes fs: "posix_fs env" and limit: "pl_max_recursion_depth pl < u64_max" and ok: "plan_ok env pl s"
  shows "proceeds env pl (plan_rename_operation env pl index operation annotations s)"
  unfolding plan_rename_operation_def
proof (intro proceeds_attempt, goal_cases)
  case 1
  show ?case
  proof (cases "(Option.bind (bt_get operation ''oldUri'') as_str, Option.bind (bt_get operation ''newUri'') as_str)")
    case (Pair old_uri new_uri)
    consider u v where "old_uri = Some u" "new_uri = Some v" | "old_uri = None \<or> new_uri = None" by fastforce
    then show ?thesis
    proof cases
      case (1 u v)
      show ?thesis
        unfolding Pair 1 prod.case option.case
      proof (rule proceeds_attempt, rule proceeds_attempt, goal_cases)
        case (1 old new)
        note old = path_from_file_uri_ok(1,2) [OF fs 1(1)] and new = path_from_file_uri_ok(1,2) [OF fs 1(2)]
        have vw: "vw_ok env pl (planned_tree env s) (ps_workspace s)" using ok by (simp add: plan_ok_def)
        show ?case
        proof (cases "old = new \<or> starts_with old new \<or> starts_with new old")
          case False
          then have apart: "\<not> starts_with old new" "\<not> starts_with new old" by auto
          have "proceeds env pl (attempt_load (load_resource_tree env pl old index)
              (attempt_load (load_exact_resource env pl new index False) (rename_loaded env pl index operation u v old new)) s)"
          proof (rule proceeds_load [OF load_resource_tree_runs [OF fs limit vw old]], goal_cases)
            case (1 vw1)
            have v1: "vw_ok env pl (planned_tree env s) (ps_workspace (s\<lparr>ps_workspace := vw1\<rparr>))" using 1 by simp
            have s1: "plan_ok env pl (s\<lparr>ps_workspace := vw1\<rparr>)" using 1 plan_ok_load [OF ok] by blast
            show ?case
            proof (rule proceeds_load [OF load_exact_resource_runs [OF fs v1 new]], goal_cases)
              case (1 vw2)
              then have fr: "frame {new} vw1 vw2" by simp
              have "plan_ok env pl (s\<lparr>ps_workspace := vw1, ps_workspace := vw2\<rparr>)"
                using 1 plan_ok_load [OF s1, of vw2 "{new}"] by simp
              moreover have "bt_get (vw_entries vw2) old \<noteq> None"
                using frame_outside [OF fr, of old] \<open>vw_ok env pl (planned_tree env s) vw1 \<and> _\<close> False by auto
              moreover have "settled_below (vw_entries vw2) old"
                using settled_below_frame [OF fr] \<open>vw_ok env pl (planned_tree env s) vw1 \<and> _\<close> apart by blast
              ultimately show ?case
                using rename_loaded_proceeds [OF fs limit _ new apart] 1 by simp
            qed
          qed
          with False show ?thesis by simp
        qed auto
      qed
    next
      case 2
      then show ?thesis unfolding Pair by (auto split: option.splits)
    qed
  qed
qed

lemma document_edit_proceeds:
  assumes fs: "posix_fs env" and ok: "plan_ok env pl s"
  shows "proceeds env pl (plan_document_edit env pl preconditions annotations index change text_document s)"
  unfolding plan_document_edit_def
  by (auto simp: Let_def text_operation_proceeds [OF fs ok] intro!: proceeds_attempt split: option.splits)

lemma change_proceeds:
  assumes "posix_fs env" "pl_max_recursion_depth pl < u64_max" "plan_ok env pl s"
  shows "proceeds env pl (plan_change env pl preconditions annotations index change s)"
  using assms
  by (auto simp: plan_change_def Let_def document_edit_proceeds create_operation_proceeds rename_operation_proceeds
      delete_operation_proceeds split: option.splits)

section \<open>Problems are never dropped\<close>

definition reports :: "plan_state \<Rightarrow> plan_state option \<Rightarrow> bool" where
  "reports s r \<longleftrightarrow> (\<forall>s'. r = Some s' \<longrightarrow> prefix (ps_problems s) (ps_problems s'))"

lemma reports_simps [simp]:
  "reports s None" "reports s (Some s') \<longleftrightarrow> prefix (ps_problems s) (ps_problems s')"
  "ps_problems (push_problem p s) = ps_problems s @ [p]"
  "ps_problems (push_operation op s) = ps_problems s"
  by (auto simp: reports_def push_problem_def push_operation_def)

lemma reports_attempt: "(\<And>a. reports s (f a s)) \<Longrightarrow> reports s (attempt r f s)"
  by (auto simp: attempt_def split: sum.splits)

lemma reports_load:
  "(\<And>vw. reports (s\<lparr>ps_workspace := vw\<rparr>) (f (s\<lparr>ps_workspace := vw\<rparr>))) \<Longrightarrow> reports s (attempt_load m f s)"
  by (auto simp: attempt_load_def reports_def split: option.splits sum.splits)

lemmas reports_intros = reports_attempt reports_load

lemma plan_text_edits_reports:
  "reports s (plan_text_edits env pl index uri p raw annotations st bytes s)"
  by (auto simp: plan_text_edits_def Let_def split: prod.splits option.splits)

lemma loaded_reports:
  "reports s (text_loaded env pl index uri v annotations d p s)"
  "reports s (create_loaded env pl index operation uri p s)"
  "reports s (rename_trees env pl index old_uri new_uri old new o1 o2 s)"
  "reports s (rename_loaded env pl index operation old_uri new_uri old new s)"
  "reports s (delete_loaded index operation uri p s)"
proof -
  show trees: "reports s (rename_trees env pl index old_uri new_uri old new o1 o2 s)" for s o1 o2
    by (auto simp: rename_trees_def Let_def intro!: reports_intros)
  show "reports s (text_loaded env pl index uri v annotations d p s)"
    by (auto simp: text_loaded_def Let_def plan_text_edits_reports split: option.splits)
  show "reports s (create_loaded env pl index operation uri p s)"
    by (auto simp: create_loaded_def Let_def intro!: reports_intros split: option.splits)
  show "reports s (rename_loaded env pl index operation old_uri new_uri old new s)"
    by (auto simp: rename_loaded_def Let_def intro!: reports_load trees split: option.splits)
  show "reports s (delete_loaded index operation uri p s)"
    by (auto simp: delete_loaded_def Let_def split: option.splits)
qed

lemma operation_reports:
  "reports s (plan_text_operation env pl index uri v annotations d s)"
  "reports s (plan_create_operation env pl index operation annotations s)"
  "reports s (plan_rename_operation env pl index operation annotations s)"
  "reports s (plan_delete_operation env pl index operation annotations s)"
  by (auto simp: plan_text_operation_def plan_create_operation_def plan_rename_operation_def plan_delete_operation_def
      intro!: reports_intros loaded_reports split: option.splits)

lemma change_reports: "reports s (plan_change env pl preconditions annotations index change s)"
  by (auto simp: plan_change_def plan_document_edit_def Let_def operation_reports intro!: reports_attempt split: option.splits)

lemma changes_report: "reports s (plan_changes env pl preconditions annotations index changes s)"
proof (induction changes arbitrary: index s)
  case (Cons change changes)
  show ?case
  proof (cases "plan_change env pl preconditions annotations index change s")
    case (Some s')
    then have "prefix (ps_problems s) (ps_problems s')" using change_reports by (metis reports_def)
    with Cons [of s' "index + 1"] Some show ?thesis by (auto simp: reports_def intro: prefix_order.trans)
  qed simp
qed simp

lemma uri_changes_report: "reports s (plan_uri_changes env pl annotations index entries s)"
proof (induction entries arbitrary: index s)
  case (Cons entry entries)
  obtain uri edits where e: "entry = (uri, edits)" by fastforce
  show ?case
  proof (cases "plan_text_operation env pl index uri edits annotations None s")
    case (Some s')
    then have "prefix (ps_problems s) (ps_problems s')" using operation_reports(1) by (metis reports_def)
    with Cons [of s' "index + 1"] Some show ?thesis by (auto simp: e reports_def intro: prefix_order.trans)
  qed (simp add: e)
qed simp

section \<open>The loops over the changes\<close>

lemma changes_good:
  assumes fs: "posix_fs env" and limit: "pl_max_recursion_depth pl < u64_max"
  shows "plan_ok env pl s \<Longrightarrow> plan_changes env pl preconditions annotations index changes s = Some s'
    \<Longrightarrow> ps_problems s' = [] \<Longrightarrow> plan_ok env pl s'"
proof (induction changes arbitrary: index s)
  case (Cons change changes)
  obtain s1 where s1: "plan_change env pl preconditions annotations index change s = Some s1"
    "ps_problems s1 \<noteq> [] \<or> plan_ok env pl s1"
    using change_proceeds [OF fs limit Cons.prems(1)] unfolding proceeds_def by blast
  with Cons.prems(2) have rest: "plan_changes env pl preconditions annotations (index + 1) changes s1 = Some s'" by simp
  with changes_report [of s1] Cons.prems(3) have "ps_problems s1 = []" by (force simp: reports_def)
  with s1 Cons.IH [OF _ rest] Cons.prems(3) show ?case by blast
qed simp

lemma uri_changes_good:
  assumes fs: "posix_fs env"
  shows "plan_ok env pl s \<Longrightarrow> plan_uri_changes env pl annotations index entries s = Some s'
    \<Longrightarrow> ps_problems s' = [] \<Longrightarrow> plan_ok env pl s'"
proof (induction entries arbitrary: index s)
  case (Cons entry entries)
  obtain uri edits where e: "entry = (uri, edits)" by fastforce
  obtain s1 where s1: "plan_text_operation env pl index uri edits annotations None s = Some s1"
    "ps_problems s1 \<noteq> [] \<or> plan_ok env pl s1"
    using text_operation_proceeds [OF fs Cons.prems(1)] unfolding proceeds_def by blast
  with Cons.prems(2) have rest: "plan_uri_changes env pl annotations (index + 1) entries s1 = Some s'" by (simp add: e)
  with uri_changes_report [of s1] Cons.prems(3) have "ps_problems s1 = []" by (force simp: reports_def)
  with s1 Cons.IH [OF _ rest] Cons.prems(3) show ?case by blast
qed simp

text \<open>While no change is rejected, the loop goes on.\<close>

lemma changes_return:
  assumes fs: "posix_fs env" and limit: "pl_max_recursion_depth pl < u64_max"
    and "plan_ok env pl s"
    and "\<And>n s'. n < length changes \<Longrightarrow> plan_changes env pl preconditions annotations index (take n changes) s = Some s'
      \<Longrightarrow> ps_problems s' = []"
  shows "\<exists>s'. plan_changes env pl preconditions annotations index changes s = Some s'
    \<and> (ps_problems s' \<noteq> [] \<or> plan_ok env pl s')"
  using assms(3,4)
proof (induction changes arbitrary: index s)
  case (Cons change changes)
  obtain s1 where s1: "plan_change env pl preconditions annotations index change s = Some s1"
    "ps_problems s1 \<noteq> [] \<or> plan_ok env pl s1"
    using change_proceeds [OF fs limit Cons.prems(1)] unfolding proceeds_def by blast
  show ?case
  proof (cases "changes = []")
    case True
    with s1 show ?thesis by auto
  next
    case False
    with Cons.prems(2) [of 1 s1] s1 have "ps_problems s1 = []" by (auto simp: take_Suc)
    with s1 have "plan_ok env pl s1" by blast
    moreover have "ps_problems s' = []"
      if "n < length changes" "plan_changes env pl preconditions annotations (index + 1) (take n changes) s1 = Some s'" for n s'
      using Cons.prems(2) [of "Suc n" s'] that s1 by simp
    ultimately show ?thesis using Cons.IH [of s1 "index + 1"] s1 by auto
  qed
qed (auto simp: proceeds_def)

section \<open>The finished plan\<close>

lemma complete_before_ok:
  assumes "bt_ok before" "complete_before env pl ps before = Inr result"
  shows "bt_ok result"
    "bt_get result p = (case bt_get before p of Some m \<Rightarrow> Some m
       | None \<Rightarrow> if p \<in> set ps then map_option rs_manifest (case inspect_resource env pl p 0 False of Inl e \<Rightarrow> None | Inr st \<Rightarrow> Some st) else None)"
    "p \<in> set ps \<Longrightarrow> bt_get before p = None \<Longrightarrow> \<exists>st. inspect_resource env pl p 0 False = Inr st"
proof -
  have "bt_ok result \<and> bt_get result p = (case bt_get before p of Some m \<Rightarrow> Some m
       | None \<Rightarrow> if p \<in> set ps then map_option rs_manifest (case inspect_resource env pl p 0 False of Inl e \<Rightarrow> None | Inr st \<Rightarrow> Some st) else None)
     \<and> (p \<in> set ps \<longrightarrow> bt_get before p = None \<longrightarrow> (\<exists>st. inspect_resource env pl p 0 False = Inr st))"
    using assms
  proof (induction ps arbitrary: before)
    case (Cons q ps)
    show ?case
    proof (cases "bt_get before q")
      case None
      with Cons.prems(2) obtain st where st: "inspect_resource env pl q 0 False = Inr st"
        "complete_before env pl ps (bt_insert q (rs_manifest st) before) = Inr result"
        by (auto split: sum.splits)
      have "bt_ok (bt_insert q (rs_manifest st) before)" using Cons.prems(1) by blast
      from Cons.IH [OF this st(2)] show ?thesis using None st(1) by (auto split: if_splits option.splits)
    next
      case (Some m)
      with Cons show ?thesis by (auto split: option.splits)
    qed
  qed (auto split: option.splits)
  then show "bt_ok result"
    "bt_get result p = (case bt_get before p of Some m \<Rightarrow> Some m
       | None \<Rightarrow> if p \<in> set ps then map_option rs_manifest (case inspect_resource env pl p 0 False of Inl e \<Rightarrow> None | Inr st \<Rightarrow> Some st) else None)"
    "p \<in> set ps \<Longrightarrow> bt_get before p = None \<Longrightarrow> \<exists>st. inspect_resource env pl p 0 False = Inr st"
    by blast+
qed

lemma those_map_Some: "(\<And>x. x \<in> set xs \<Longrightarrow> f x \<noteq> None) \<Longrightarrow> those (map f xs) = Some (map (\<lambda>x. the (f x)) xs)"
proof (induction xs)
  case (Cons a xs)
  from Cons.prems [of a] obtain y where "f a = Some y" by auto
  with Cons show ?case by simp
qed simp

lemma virtual_children_total:
  assumes "tree_ok env pl (vw_entries vw)"
  shows "virtual_children vw p \<noteq> None"
proof -
  let ?es = "filter (\<lambda>e. parent (fst e) = Some p \<and> st_exists (snd e)) (subtree p (vw_entries vw))"
  let ?f = "\<lambda>e. case file_name (fst e) of Some n \<Rightarrow> if utf8_valid n then Some (n, st_kind (snd e)) else None | None \<Rightarrow> None"
  have "?f e \<noteq> None" if "e \<in> set ?es" for e
  proof -
    have ok: "bt_ok (vw_entries vw)" using assms by (rule tree_ok_sorted)
    have "bt_get (vw_entries vw) (fst e) = Some (snd e)"
      using that by (auto simp: subtree_filter [OF ok] bt_get_mem [OF ok])
    then have "confined pl (fst e)" by (rule tree_ok_confined [OF assms])
    then obtain q n where "fst e = join_name q n" "utf8_valid n" using confined_last by blast
    then show ?thesis by simp
  qed
  then have "those (map ?f ?es) = Some (map (\<lambda>e. the (?f e)) ?es)" by (rule those_map_Some)
  then show ?thesis unfolding virtual_children_def by simp
qed

lemma intended_entry_total:
  assumes "tree_ok env pl (vw_entries vw)"
  shows "\<exists>m. intended_entry env vw p = Some m \<and> me_path m = p"
proof -
  obtain children where "virtual_children vw p = Some children"
    using virtual_children_total [OF assms, of p] by blast
  then show ?thesis
    using tree_okD(1) [OF assms, of p]
    by (cases "bt_get (vw_entries vw) p") (auto simp: intended_entry_def Let_def missing_manifest_def entry_ok_def)
qed

lemma finish_plan_total:
  assumes "ps_problems s \<noteq> [] \<or> plan_ok env pl s"
  shows "finish_plan env pl annotations s \<noteq> None"
proof (cases "ps_problems s = []")
  case True
  with assms have t: "tree_ok env pl (vw_entries (ps_workspace s))" by (auto simp: plan_ok_def vw_ok_def)
  have "those (map (intended_entry env (ps_workspace s)) xs) \<noteq> None" for xs
    using intended_entry_total [OF t] by (subst those_map_Some) fastforce+
  then show ?thesis by (auto simp: finish_plan_def Let_def split: sum.splits)
qed (simp add: finish_plan_def Let_def)

text \<open>What an accepted plan comes from.\<close>

lemma finish_plan_accepted:
  assumes "finish_plan env pl annotations s = Some (Inr planned)"
  obtains before intended where "ps_problems s = []" "limit_problems pl s = []"
    "complete_before env pl (vw_affected (ps_workspace s)) (vw_before (ps_workspace s)) = Inr before"
    "those (map (intended_entry env (ps_workspace s)) (vw_affected (ps_workspace s))) = Some intended"
    "cp_operations (pw_plan planned) = ps_operations s"
    "cp_before (pw_plan planned) = map snd before" "cp_intended (pw_plan planned) = intended"
    "pw_summary planned = (ps_summary s)\<lparr>su_files_changed := files_changed (map snd before) intended\<rparr>"
  using assms by (fastforce simp: finish_plan_def Let_def split: if_splits sum.splits)

lemma accepted_plan_state:
  assumes fs: "posix_fs env" and limit: "pl_max_recursion_depth pl < u64_max"
    and plan: "plan_workspace_edit_with_document_preconditions env pl edit preconditions = Some (Inr planned)"
  obtains s annotations where "plan_ok env pl s" "finish_plan env pl annotations s = Some (Inr planned)"
proof -
  have "\<exists>s annotations. plan_ok env pl s \<and> finish_plan env pl annotations s = Some (Inr planned)"
  proof -
    note p = plan [unfolded plan_workspace_edit_with_document_preconditions_def Let_def]
    have clean: "ps_problems s = []" if "finish_plan env pl a s = Some (Inr planned)" for s a
      using that by (auto elim: finish_plan_accepted)
    from p consider (none) a where "finish_plan env pl a initial_plan_state = Some (Inr planned)"
      | (uris) a es s b where "plan_uri_changes env pl a 0 es initial_plan_state = Some s" "finish_plan env pl b s = Some (Inr planned)"
      | (docs) a es s b where "plan_changes env pl preconditions a 0 es initial_plan_state = Some s" "finish_plan env pl b s = Some (Inr planned)"
      by (auto simp: bind_eq_Some_conv split: option.splits sum.splits if_splits)
    then show ?thesis
    proof cases
      case none
      then show ?thesis using plan_ok_initial by blast
    next
      case uris
      then show ?thesis using uri_changes_good [OF fs plan_ok_initial] clean by blast
    next
      case docs
      then show ?thesis using changes_good [OF fs limit plan_ok_initial] clean by blast
    qed
  qed
  with that show thesis by blast
qed

end
