(* ===== verification/Plan_Laws.thy ===== *)
theory Plan_Laws
  imports Plan_Accepted
begin

text \<open>
  The properties of the Workspace Edit planner.
\<close>

section \<open>Manifests of an accepted plan\<close>

lemma before_entry:
  assumes fs: "posix_fs env" and ok: "plan_ok env pl s"
    and complete: "complete_before env pl (vw_affected (ps_workspace s)) (vw_before (ps_workspace s)) = Inr before"
    and m: "(p, m) \<in> set before"
  shows "me_path m = p" "confined pl p" "validated env pl p" "observed env pl m"
proof -
  let ?vw = "ps_workspace s"
  have v: "vw_ok env pl (planned_tree env s) ?vw" using ok by (simp add: plan_ok_def)
  note b = complete_before_ok [OF vw_okD(4) [OF v] complete]
  have get: "bt_get before p = Some m" using b(1) m by (simp add: bt_get_mem)
  have "me_path m = p \<and> confined pl p \<and> validated env pl p \<and> observed env pl m"
  proof (cases "bt_get (vw_before ?vw) p")
    case (Some m')
    with get b(2) [of p] have "m' = m" by simp
    with Some vw_okD(2) [OF v] show ?thesis unfolding before_ok_def by blast
  next
    case None
    with get b(2) [of p] have p: "p \<in> set (vw_affected ?vw)" by (auto split: if_splits)
    obtain st where st: "inspect_resource env pl p 0 False = Inr st"
      using b(3) [OF p None] by blast
    with None get b(2) [of p] p have m': "m = rs_manifest st" by simp
    obtain sp where sp: "bt_get (vw_entries ?vw) p = Some sp" using vw_okD(6) [OF v p] by blast
    have conf: "confined pl p" by (rule tree_ok_confined [OF vw_okD(1) [OF v] sp])
    have plain: "plain_path env pl p" "on_disk env p \<Longrightarrow> bt_get (vw_before ?vw) p \<noteq> None"
      using vw_okD(2) [OF v] sp by (auto simp: before_ok_def)
    have "env_lstat env p = StatNotFound"
      using plain(2) None by (cases rule: inspect_resource_cases [OF st]) (auto simp: on_disk_def)
    then have "validated env pl p" by (rule plain_not_found [OF fs conf plain(1)])
    with conf observed_inspected [OF st] m' show ?thesis by simp
  qed
  then show "me_path m = p" "confined pl p" "validated env pl p" "observed env pl m" by auto
qed

lemma before_paths:
  assumes "posix_fs env" "plan_ok env pl s"
    and "complete_before env pl (vw_affected (ps_workspace s)) (vw_before (ps_workspace s)) = Inr before"
  shows "map me_path (map snd before) = map fst before" "sorted_wrt (<) (map fst before)"
    "set (vw_affected (ps_workspace s)) \<subseteq> set (map fst before)"
proof -
  have "vw_ok env pl (planned_tree env s) (ps_workspace s)" using assms(2) by (simp add: plan_ok_def)
  note b = complete_before_ok [OF vw_okD(4) [OF this] assms(3)]
  show "map me_path (map snd before) = map fst before"
    using before_entry(1) [OF assms] by auto
  show "sorted_wrt (<) (map fst before)" using b(1) by (simp add: bt_ok_def)
  have "bt_get before p \<noteq> None" if "p \<in> set (vw_affected (ps_workspace s))" for p
    using b(2) [of p] b(3) [of p] that by (auto split: option.splits)
  then show "set (vw_affected (ps_workspace s)) \<subseteq> set (map fst before)"
    by (auto simp: map_of_eq_None_iff)
qed

lemma intended_paths:
  assumes "tree_ok env pl (vw_entries vw)" "those (map (intended_entry env vw) ps) = Some intended"
  shows "map me_path intended = ps"
  using assms(2)
proof (induction ps arbitrary: intended)
  case (Cons p ps)
  then show ?case
    using intended_entry_total [OF assms(1), of p] by (auto split: option.splits)
qed simp

lemma accepted_plan_manifests:
  assumes fs: "posix_fs env" and limit: "pl_max_recursion_depth pl < u64_max"
    and plan: "plan_workspace_edit_with_document_preconditions env pl edit preconditions = Some (Inr planned)"
  obtains s before where "plan_ok env pl s" "limit_problems pl s = []"
    "complete_before env pl (vw_affected (ps_workspace s)) (vw_before (ps_workspace s)) = Inr before"
    "cp_operations (pw_plan planned) = ps_operations s" "cp_before (pw_plan planned) = map snd before"
    "map me_path (cp_intended (pw_plan planned)) = vw_affected (ps_workspace s)"
    "those (map (intended_entry env (ps_workspace s)) (vw_affected (ps_workspace s))) = Some (cp_intended (pw_plan planned))"
    "pw_summary planned = (ps_summary s)\<lparr>su_files_changed := files_changed (map snd before) (cp_intended (pw_plan planned))\<rparr>"
proof (rule accepted_plan_state [OF fs limit plan], rule finish_plan_accepted, assumption)
  fix s annotations before intended
  assume s: "plan_ok env pl s" "limit_problems pl s = []"
    "complete_before env pl (vw_affected (ps_workspace s)) (vw_before (ps_workspace s)) = Inr before"
    "those (map (intended_entry env (ps_workspace s)) (vw_affected (ps_workspace s))) = Some intended"
    "cp_operations (pw_plan planned) = ps_operations s"
    "cp_before (pw_plan planned) = map snd before" "cp_intended (pw_plan planned) = intended"
    "pw_summary planned = (ps_summary s)\<lparr>su_files_changed := files_changed (map snd before) intended\<rparr>"
  have "tree_ok env pl (vw_entries (ps_workspace s))" using s(1) by (auto simp: plan_ok_def vw_ok_def)
  from intended_paths [OF this s(4)] s show thesis by (intro that [of s before]) simp_all
qed

section \<open>Re-inspection\<close>

text \<open>The manifest a re-inspection reads for an observed entry, before directories are certified.\<close>

lemma observed_again:
  assumes "observed env pl m"
  obtains st where "inspect_resource env pl (me_path m) 0 False = Inr st" "me_path (rs_manifest st) = me_path m"
    "me_kind m = st_kind st"
    "me_kind m = DirectoryKind \<and> me_content m \<noteq> None \<Longrightarrow> \<exists>children. directory_children env pl (me_path m) 0 = Inr children
       \<and> m = (rs_manifest st)\<lparr>me_content := Some (directory_membership_digest env children)\<rparr>"
    "\<not> (me_kind m = DirectoryKind \<and> me_content m \<noteq> None) \<Longrightarrow> m = rs_manifest st"
proof -
  obtain st where st: "inspect_resource env pl (me_path m) 0 False = Inr st"
    and m: "m = rs_manifest st \<or> st_kind st = DirectoryKind \<and> (\<exists>children. directory_children env pl (me_path m) 0 = Inr children
        \<and> m = (rs_manifest st)\<lparr>me_content := Some (directory_membership_digest env children)\<rparr>)"
    using assms unfolding observed_def by blast
  have none: "me_content (rs_manifest st) = None" if "st_kind st = DirectoryKind"
    using that by (cases rule: inspect_resource_cases [OF st]) (simp_all add: missing_resource_def missing_manifest_def)
  show thesis
  proof (rule that [OF st])
    show "me_path (rs_manifest st) = me_path m" by (rule observed_inspected(2) [OF st])
    show "me_kind m = st_kind st" using m by auto
  qed (use m none in auto)
qed

lemma inspect_each_observed:
  assumes "posix_fs env"
    and "\<And>m. m \<in> set ms \<Longrightarrow> confined pl (me_path m) \<and> validated env pl (me_path m) \<and> observed env pl m"
  shows "\<exists>es. inspect_each env pl (map me_path ms) = (es, []) \<and> map me_path es = map me_path ms
    \<and> list_all2 (\<lambda>m e. \<exists>st. inspect_resource env pl (me_path m) 0 False = Inr st \<and> e = rs_manifest st) ms es"
  using assms(2)
proof (induction ms)
  case (Cons m ms)
  then obtain es where es: "inspect_each env pl (map me_path ms) = (es, [])" "map me_path es = map me_path ms"
    "list_all2 (\<lambda>m e. \<exists>st. inspect_resource env pl (me_path m) 0 False = Inr st \<and> e = rs_manifest st) ms es" by auto
  have m: "confined pl (me_path m)" "validated env pl (me_path m)" "observed env pl m" using Cons.prems [of m] by auto
  then have "validate_existing_ancestors env pl (me_path m) 0 = Inr ()"
    by (simp add: validate_existing_ancestors_iff [OF assms(1)])
  moreover obtain st where "inspect_resource env pl (me_path m) 0 False = Inr st" "me_path (rs_manifest st) = me_path m"
    using m(3) by (rule observed_again)
  ultimately show ?case using es by auto
qed simp

lemma certify_observed:
  assumes "list_all2 (\<lambda>m e. \<exists>st. inspect_resource env pl (me_path m) 0 False = Inr st \<and> e = rs_manifest st) ms es"
    and "\<And>m. m \<in> set ms \<Longrightarrow> observed env pl m"
    and "\<And>m. m \<in> set ms \<Longrightarrow> me_path m \<in> set certified \<longleftrightarrow> me_kind m = DirectoryKind \<and> me_content m \<noteq> None"
  shows "certify_directories env pl certified es = Inr ms"
  using assms
proof (induction ms es rule: list_all2_induct)
  case (Cons m ms e es)
  have rest: "certify_directories env pl certified es = Inr ms" using Cons.IH Cons.prems by auto
  obtain st where st: "inspect_resource env pl (me_path m) 0 False = Inr st" "e = rs_manifest st" using Cons.hyps by blast
  have obs: "observed env pl m" using Cons.prems by simp
  from obs show ?case
  proof (rule observed_again)
    fix st'
    assume st': "inspect_resource env pl (me_path m) 0 False = Inr st'" "me_path (rs_manifest st') = me_path m"
      "me_kind m = st_kind st'"
      "me_kind m = DirectoryKind \<and> me_content m \<noteq> None \<Longrightarrow> \<exists>children. directory_children env pl (me_path m) 0 = Inr children
         \<and> m = (rs_manifest st')\<lparr>me_content := Some (directory_membership_digest env children)\<rparr>"
      "\<not> (me_kind m = DirectoryKind \<and> me_content m \<noteq> None) \<Longrightarrow> m = rs_manifest st'"
    have e: "e = rs_manifest st'" using st st'(1) by simp
    have cert: "me_path m \<in> set certified \<longleftrightarrow> me_kind m = DirectoryKind \<and> me_content m \<noteq> None"
      using Cons.prems(2) [of m] by simp
    show ?thesis
    proof (cases "me_kind m = DirectoryKind \<and> me_content m \<noteq> None")
      case True
      from st'(4) [OF this] obtain children where c: "directory_children env pl (me_path m) 0 = Inr children"
        "m = (rs_manifest st')\<lparr>me_content := Some (directory_membership_digest env children)\<rparr>" by blast
      have "me_path e = me_path m" "me_kind e = DirectoryKind" using e st'(2,3) True by simp_all
      with c(1) True cert rest have "certify_directories env pl certified (e # es)
          = Inr (e\<lparr>me_content := Some (directory_membership_digest env children)\<rparr> # ms)" by (simp add: Let_def)
      also have "e\<lparr>me_content := Some (directory_membership_digest env children)\<rparr> = m" using c(2) e by simp
      finally show ?thesis .
    next
      case False
      with st'(5) e have "e = m" by simp
      with False cert rest show ?thesis by (auto simp: Let_def)
    qed
  qed
qed simp

lemma inspect_manifest_observed:
  assumes fs: "posix_fs env"
    and ms: "\<And>m. m \<in> set ms \<Longrightarrow> confined pl (me_path m) \<and> validated env pl (me_path m) \<and> observed env pl m"
    and sorted: "sorted_wrt (<) (map me_path ms)"
  shows "inspect_manifest env pl ms = Inr ms"
proof -
  obtain es where es: "inspect_each env pl (map me_path ms) = (es, [])" "map me_path es = map me_path ms"
    "list_all2 (\<lambda>m e. \<exists>st. inspect_resource env pl (me_path m) 0 False = Inr st \<and> e = rs_manifest st) ms es"
    using inspect_each_observed [OF fs ms] by blast
  have "sorted (map me_path es)" using sorted es(2) by (simp add: strict_sorted_iff)
  then have "inspect_manifest_paths env pl (map me_path ms) = Inr es"
    by (simp add: inspect_manifest_paths_def es(1) sorted_sort_id sort_key_id_if_sorted)
  moreover have "certify_directories env pl (map me_path (filter (\<lambda>e. me_kind e = DirectoryKind \<and> me_content e \<noteq> None) ms)) es = Inr ms"
  proof (rule certify_observed [OF es(3)])
    fix m assume m: "m \<in> set ms"
    then show "observed env pl m" using ms by blast
    have "distinct (map me_path ms)" using sorted by (rule sorted_wrt_distinct)
    then have "m = e" if "e \<in> set ms" "me_path e = me_path m" for e
      using that m by (auto simp: distinct_map inj_on_def)
    then show "me_path m \<in> set (map me_path (filter (\<lambda>e. me_kind e = DirectoryKind \<and> me_content e \<noteq> None) ms))
        \<longleftrightarrow> me_kind m = DirectoryKind \<and> me_content m \<noteq> None"
      using m by auto
  qed
  ultimately show ?thesis by (simp add: inspect_manifest_def)
qed

section \<open>Properties\<close>

text \<open>
  C3. A planned Mutation stays inside the Workspace: the path of every operation and of every
  manifest entry lies strictly below the root, consists of plain UTF-8 names, and nothing the
  disk has on the way to it is a symlink or belongs to another device.
\<close>

theorem accepted_plan_is_confined:
  assumes "posix_fs env" "pl_max_recursion_depth pl < u64_max"
    and "plan_workspace_edit_with_document_preconditions env pl edit preconditions = Some (Inr planned)"
  shows "\<forall>p \<in> set (concat (map op_paths (cp_operations (pw_plan planned))))
           \<union> me_path ` set (cp_before (pw_plan planned)) \<union> me_path ` set (cp_intended (pw_plan planned)).
         confined pl p \<and> plain_path env pl p"
proof -
  obtain s before where s: "plan_ok env pl s"
    "complete_before env pl (vw_affected (ps_workspace s)) (vw_before (ps_workspace s)) = Inr before"
    "cp_operations (pw_plan planned) = ps_operations s" "cp_before (pw_plan planned) = map snd before"
    "map me_path (cp_intended (pw_plan planned)) = vw_affected (ps_workspace s)"
    using accepted_plan_manifests [OF assms] by blast
  have ops: "set (concat (map op_paths (ps_operations s))) \<subseteq> set (vw_affected (ps_workspace s))"
    using s(1) by (auto simp: plan_ok_def operations_ok_def)
  have intended: "me_path ` set (cp_intended (pw_plan planned)) = set (vw_affected (ps_workspace s))"
    using s(5) by (metis list.set_map)
  note b = before_paths [OF assms(1) s(1,2)]
  have "me_path ` set (map snd before) = set (map fst before)" using b(1) by (metis list.set_map)
  with ops b(3) have "set (concat (map op_paths (ps_operations s))) \<union> me_path ` set (map snd before)
      \<union> set (vw_affected (ps_workspace s)) \<subseteq> set (map fst before)" by blast
  moreover have "confined pl p \<and> plain_path env pl p" if "p \<in> set (map fst before)" for p
    using that before_entry [OF assms(1) s(1,2)] plain_pathI by fastforce
  ultimately show ?thesis unfolding intended s(3,4) by blast
qed

text \<open>
  C5. The before manifest of an accepted plan is what the disk holds: re-inspecting it, the
  check the application makes before it starts, returns it unchanged, directories with a
  membership digest included.
\<close>

theorem before_manifest_is_confirmed:
  assumes "posix_fs env" "pl_max_recursion_depth pl < u64_max"
    and "plan_workspace_edit_with_document_preconditions env pl edit preconditions = Some (Inr planned)"
  shows "inspect_manifest env pl (cp_before (pw_plan planned)) = Inr (cp_before (pw_plan planned))"
proof -
  obtain s before where s: "plan_ok env pl s"
    "complete_before env pl (vw_affected (ps_workspace s)) (vw_before (ps_workspace s)) = Inr before"
    "cp_before (pw_plan planned) = map snd before"
    using accepted_plan_manifests [OF assms] by blast
  note b = before_paths [OF assms(1) s(1,2)]
  have "confined pl (me_path m) \<and> validated env pl (me_path m) \<and> observed env pl m" if "m \<in> set (map snd before)" for m
    using that before_entry [OF assms(1) s(1,2)] by fastforce
  moreover have "sorted_wrt (<) (map me_path (map snd before))" unfolding b(1) by (rule b(2))
  ultimately show ?thesis unfolding s(3) by (rule inspect_manifest_observed [OF assms(1)])
qed

text \<open>
  C26. Both manifests list their paths once, in path order; every path an operation names has an
  intended entry, and every intended path has a before entry. The edits of every text operation
  are ordered and disjoint, and the summary counts the operations.
\<close>

theorem manifests_cover_operations:
  assumes "posix_fs env" "pl_max_recursion_depth pl < u64_max"
    and "plan_workspace_edit_with_document_preconditions env pl edit preconditions = Some (Inr planned)"
  defines "plan \<equiv> pw_plan planned"
  shows "sorted_wrt (<) (map me_path (cp_before plan)) \<and> sorted_wrt (<) (map me_path (cp_intended plan))
    \<and> set (concat (map op_paths (cp_operations plan))) \<subseteq> set (map me_path (cp_intended plan))
    \<and> set (map me_path (cp_intended plan)) \<subseteq> set (map me_path (cp_before plan))
    \<and> list_all (\<lambda>op. disjoint_edits 0 (op_edits op)) (cp_operations plan)
    \<and> pw_summary planned = (summary_of (cp_operations plan))
        \<lparr>su_files_changed := files_changed (cp_before plan) (cp_intended plan)\<rparr>"
proof -
  obtain s before where s: "plan_ok env pl s"
    "complete_before env pl (vw_affected (ps_workspace s)) (vw_before (ps_workspace s)) = Inr before"
    "cp_operations plan = ps_operations s" "cp_before plan = map snd before"
    "map me_path (cp_intended plan) = vw_affected (ps_workspace s)"
    "pw_summary planned = (ps_summary s)\<lparr>su_files_changed := files_changed (map snd before) (cp_intended plan)\<rparr>"
    using accepted_plan_manifests [OF assms(1-3)] unfolding plan_def by blast
  note b = before_paths [OF assms(1) s(1,2)]
  have sorted: "sorted_wrt (<) (vw_affected (ps_workspace s))" using s(1) by (auto simp: plan_ok_def vw_ok_def)
  have ops: "set (op_paths op) \<subseteq> set (vw_affected (ps_workspace s))" "disjoint_edits 0 (op_edits op)"
    if "op \<in> set (ps_operations s)" for op
    using s(1) that by (auto simp: plan_ok_def operations_ok_def)
  have "ps_summary s = summary_of (ps_operations s)" using s(1) by (simp add: plan_ok_def operations_ok_def)
  then show ?thesis
    unfolding s(3-6) b(1) using b(2,3) sorted ops by (auto simp: list_all_iff)
qed

text \<open>
  C27. A planned Mutation respects the configured limits: the number of affected entries, and the
  bytes of replacement text, both of a Preview and of a staged Mutation.
\<close>

theorem accepted_plan_respects_limits:
  assumes "posix_fs env" "pl_max_recursion_depth pl < u64_max"
    and "plan_workspace_edit_with_document_preconditions env pl edit preconditions = Some (Inr planned)"
  shows "length (cp_intended (pw_plan planned)) \<le> pl_max_entries pl
    \<and> min (new_text_total (cp_operations (pw_plan planned))) u64_max \<le> min (pl_max_text_bytes pl) (pl_max_staged_text_bytes pl)"
proof -
  obtain s where s: "plan_ok env pl s" "limit_problems pl s = []" "cp_operations (pw_plan planned) = ps_operations s"
    "map me_path (cp_intended (pw_plan planned)) = vw_affected (ps_workspace s)"
    using accepted_plan_manifests [OF assms] by blast
  from s(2) have "length (vw_affected (ps_workspace s)) \<le> pl_max_entries pl"
    "ps_new_text_bytes s \<le> pl_max_text_bytes pl" "ps_new_text_bytes s \<le> pl_max_staged_text_bytes pl"
    by (auto simp: limit_problems_def Let_def not_less split: if_splits)
  moreover have "min (new_text_total (ps_operations s)) u64_max \<le> ps_new_text_bytes s"
    using s(1) by (simp add: plan_ok_def operations_ok_def)
  moreover have "length (cp_intended (pw_plan planned)) = length (vw_affected (ps_workspace s))"
    using s(4) by (metis length_map)
  ultimately show ?thesis using s(3) by simp
qed

text \<open>
  C20. Planning returns: as long as none of the earlier changes was rejected, the loop over the
  changes ends without a panic, whatever the directories hold, and so does the computation of the
  manifests.
\<close>

theorem planning_returns:
  assumes "posix_fs env" "pl_max_recursion_depth pl < u64_max"
    and "\<And>n s. n < length changes \<Longrightarrow>
      plan_changes env pl preconditions annotations 0 (take n changes) initial_plan_state = Some s \<Longrightarrow> ps_problems s = []"
  shows "\<exists>s. plan_changes env pl preconditions annotations 0 changes initial_plan_state = Some s
    \<and> finish_plan env pl edit_annotations s \<noteq> None"
proof -
  have "\<exists>s. plan_changes env pl preconditions annotations 0 changes initial_plan_state = Some s
      \<and> (ps_problems s \<noteq> [] \<or> plan_ok env pl s)"
    by (rule changes_return [OF assms(1,2) plan_ok_initial]) (rule assms(3))
  with finish_plan_total show ?thesis by blast
qed

text \<open>
  The validation of a URI: an accepted one names a path strictly inside the Workspace, of plain
  UTF-8 names, and up to the first name the disk does not have, every component on the way is on
  the Workspace's device and no symlink; the URI itself has no dot segment.
\<close>

lemma accepted_uri_is_confined:
  assumes "posix_fs env" "path_from_file_uri env pl raw index = Inr p"
  shows "confined pl p \<and> \<not> uri_contains_path_traversal raw
    \<and> (\<forall>q. starts_with p q \<and> below q (pl_workspace pl) \<longrightarrow>
         env_lstat env q = StatNotFound
         \<or> (\<exists>md. env_lstat env q = StatOk md \<and> md_kind md \<noteq> SymlinkNode \<and> Some (md_device md) = pl_root_device pl))"
proof -
  note ok = path_from_file_uri_ok [OF assms]
  have plain: "plain_on_root env pl q" if "starts_with p q" "below q (pl_workspace pl)" for q
    using ok(2) that by (simp add: validated_def)
  have "env_lstat env q = StatNotFound
         \<or> (\<exists>md. env_lstat env q = StatOk md \<and> md_kind md \<noteq> SymlinkNode \<and> Some (md_device md) = pl_root_device pl)"
    if "starts_with p q" "below q (pl_workspace pl)" for q
    using plain [OF that] by (cases "env_lstat env q") (simp_all add: plain_on_root_def)
  with ok(1,3) show ?thesis by blast
qed

end
