(* ===== verification/Plan_Refinement.thy ===== *)
theory Plan_Refinement
  imports Plan_Laws
begin

text \<open>
  The plan refines its operations: the intended manifest of an accepted plan describes, path by
  path, the tree that the operations make of the tree on the disk, and nothing else changes.
\<close>

section \<open>The children a plan lists for a directory\<close>

lemma bt_get_of_list_iff:
  assumes "distinct (map fst es)"
  shows "bt_get (bt_of_list es) k = Some v \<longleftrightarrow> (k, v) \<in> set es"
proof -
  have "map_of (rev es) k = Some v \<longleftrightarrow> (k, v) \<in> set (rev es)"
    by (rule map_of_functional) (use assms in \<open>auto dest: eq_key_imp_eq_value\<close>)
  then show ?thesis by (simp add: bt_get_of_list)
qed

lemma join_name_parent: "parent p = Some q \<Longrightarrow> confined pl p \<Longrightarrow> \<exists>n. p = join_name q n \<and> utf8_valid n"
  using confined_last [of pl p] by auto

lemma confined_name: "confined pl (join_name p n) \<Longrightarrow> utf8_valid n"
  using confined_last [of pl "join_name p n"] by auto

lemma matches_kind:
  assumes "matches env st n"
  shows "map_option node_kind_of n = (if st_kind st = MissingKind then None else Some (st_kind st))"
  using assms by (cases "st_kind st") (auto simp: matches_def)

lemma image_pairs: "(n, k) \<in> (\<lambda>e. (g (fst e), h (snd e))) ` S \<longleftrightarrow> (\<exists>q st. (q, st) \<in> S \<and> n = g q \<and> k = h st)"
  by force

lemma virtual_children_listing:
  assumes ok: "vw_ok env pl t vw" and p: "bt_get (vw_entries vw) p = Some sp" "settled sp"
    and children: "virtual_children vw p = Some children"
  shows "bt_ok children"
    "bt_get children n = (if utf8_valid n then map_option node_kind_of (t (join_name p n)) else None)"
proof -
  let ?E = "vw_entries vw"
  note tr = vw_okD(1) [OF ok] and sorted = vw_okD(3) [OF ok]
  have conf: "confined pl p" by (rule tree_ok_confined [OF tr p(1)])
  let ?es = "filter (\<lambda>e. parent (fst e) = Some p \<and> st_exists (snd e)) (subtree p ?E)"
  let ?f = "\<lambda>e. case file_name (fst e) of Some n \<Rightarrow> if utf8_valid n then Some (n, st_kind (snd e)) else None | None \<Rightarrow> None"
  let ?g = "\<lambda>e. (the (file_name (fst e)), st_kind (snd e))"
  have es: "(q, st) \<in> set ?es \<longleftrightarrow> (\<exists>n. q = join_name p n \<and> bt_get ?E q = Some st \<and> st_exists st)" for q st
    using join_name_parent [of q p] tree_ok_confined [OF tr, of q st]
    by (auto simp: subtree_filter [OF sorted] bt_get_mem [OF sorted])
  have f: "?f e = Some (?g e)" if mem: "e \<in> set ?es" for e
  proof -
    obtain q st where e: "e = (q, st)" by fastforce
    then obtain m where m: "q = join_name p m" "bt_get ?E q = Some st" using mem es by auto
    have "utf8_valid m" by (rule confined_name [OF tree_ok_confined [OF tr m(2) [unfolded m(1)]]])
    then show ?thesis by (simp add: e m(1))
  qed
  have "those (map ?f ?es) = Some (map ?g ?es)"
    using f by (subst those_map_Some) (auto intro!: map_cong)
  then have c: "children = bt_of_list (map ?g ?es)"
    using children unfolding virtual_children_def by simp
  then show "bt_ok children" by simp
  have "distinct (map fst ?es)"
    using bt_ok_distinct [OF sorted] by (simp add: subtree_filter [OF sorted] distinct_map_filter)
  then have distinct: "distinct (map fst (map ?g ?es))"
    unfolding distinct_map map_map comp_def fst_conv
  proof (elim conjE, intro conjI)
    assume d: "distinct ?es" "inj_on fst (set ?es)"
    show "distinct ?es" by (rule d(1))
    show "inj_on (\<lambda>e. the (file_name (fst e))) (set ?es)"
    proof (rule inj_onI)
      fix a b assume ab: "a \<in> set ?es" "b \<in> set ?es" "the (file_name (fst a)) = the (file_name (fst b))"
      then obtain m1 m2 where "fst a = join_name p m1" "fst b = join_name p m2"
        using es [of "fst a" "snd a"] es [of "fst b" "snd b"] by auto
      with ab(3) have "fst a = fst b" by simp
      with d(2) ab show "a = b" by (auto dest: inj_onD)
    qed
  qed
  have get: "bt_get children n = Some k \<longleftrightarrow> (\<exists>st. bt_get ?E (join_name p n) = Some st \<and> st_exists st \<and> k = st_kind st)" for k
  proof -
    have "bt_get children n = Some k \<longleftrightarrow> (\<exists>q st. (q, st) \<in> set ?es \<and> n = (\<lambda>q. the (file_name q)) q \<and> k = st_kind st)"
      unfolding c bt_get_of_list_iff [OF distinct] set_map by (rule image_pairs)
    also have "\<dots> \<longleftrightarrow> (\<exists>m st. bt_get ?E (join_name p m) = Some st \<and> st_exists st \<and> n = the (file_name (join_name p m)) \<and> k = st_kind st)"
      unfolding es by blast
    finally show ?thesis by simp
  qed
  show "bt_get children n = (if utf8_valid n then map_option node_kind_of (t (join_name p n)) else None)"
  proof (cases "bt_get ?E (join_name p n)")
    case None
    then have "\<not> on_disk env (join_name p n)" using tree_okD(3) [OF tr p] by blast
    then have "t (join_name p n) = None" if "utf8_valid n"
      using mirrorsD(1) [OF vw_okD(7) [OF ok] confined_join_name [OF conf that] None] disk_tree_absent by simp
    moreover have "bt_get children n = None" using get None by (cases "bt_get children n") auto
    ultimately show ?thesis by simp
  next
    case (Some st)
    have q: "confined pl (join_name p n)" by (rule tree_ok_confined [OF tr Some])
    have "map_option node_kind_of (t (join_name p n)) = (if st_exists st then Some (st_kind st) else None)"
      using matches_kind [OF mirrorsD(2) [OF vw_okD(7) [OF ok] q Some]] tree_okD(1) [OF tr Some]
      by (auto simp: entry_ok_def)
    moreover have "bt_get children n = (if st_exists st then Some (st_kind st) else None)"
      using get Some by (cases "bt_get children n") auto
    ultimately show ?thesis using confined_name [OF q] by simp
  qed
qed

section \<open>The intended manifest\<close>

text \<open>A manifest entry that describes the node a tree has at its path.\<close>

definition describes :: "environment \<Rightarrow> tree \<Rightarrow> manifest_entry \<Rightarrow> bool" where
  "describes env t m \<longleftrightarrow>
     (case t (me_path m) of
        None \<Rightarrow> me_kind m = MissingKind \<and> \<not> me_exists m
      | Some (File b) \<Rightarrow> me_kind m = FileKind \<and> me_exists m \<and> me_content m = Some (digest_raw_bytes (env_sha env) b)
      | Some Dir \<Rightarrow> me_kind m = DirectoryKind \<and> me_exists m
          \<and> (\<exists>children. bt_ok children \<and> me_content m = Some (directory_membership_digest env children)
               \<and> (\<forall>n. bt_get children n = (if utf8_valid n then map_option node_kind_of (t (join_name (me_path m) n)) else None))))"

lemma intended_describes:
  assumes ok: "vw_ok env pl t vw" and p: "bt_get (vw_entries vw) p = Some st" "settled st"
    and m: "intended_entry env vw p = Some m"
  shows "describes env t m"
proof -
  note tr = vw_okD(1) [OF ok]
  have path: "me_path (rs_manifest st) = p" "st_exists st \<longleftrightarrow> st_kind st \<noteq> MissingKind"
    using tree_okD(1) [OF tr p(1)] by (auto simp: entry_ok_def)
  have match: "matches env st (t p)"
    by (rule mirrorsD(2) [OF vw_okD(7) [OF ok] tree_ok_confined [OF tr p(1)] p(1)])
  show ?thesis
  proof (cases "st_kind st = DirectoryKind")
    case True
    with m p(1) obtain children where c: "virtual_children vw p = Some children"
      "m = (rs_manifest st)\<lparr>me_content := Some (directory_membership_digest env children)\<rparr>"
      by (auto simp: intended_entry_def Let_def)
    note l = virtual_children_listing [OF ok p c(1)]
    have "t p = Some Dir" using match True by (simp add: matches_def)
    with True path c(2) l show ?thesis by (auto simp: describes_def)
  next
    case False
    with m p(1) have "m = rs_manifest st" by (auto simp: intended_entry_def Let_def)
    with False path match show ?thesis
      by (cases "st_kind st") (auto simp: describes_def matches_def)
  qed
qed

lemma those_mem:
  assumes "those (map f ps) = Some ms" "m \<in> set ms"
  obtains p where "p \<in> set ps" "f p = Some m"
proof -
  have "those (map f ps) = Some ms \<longrightarrow> m \<in> set ms \<longrightarrow> (\<exists>p \<in> set ps. f p = Some m)"
    by (induction ps arbitrary: ms) (auto split: option.splits)
  with assms that show thesis by blast
qed

section \<open>Properties\<close>

text \<open>
  C2. An accepted plan says what it does: run its operations on the file tree the disk holds, and
  every entry of the intended manifest describes the node the resulting tree has at its path (absent,
  a file with the digest of its bytes, a directory with the digest of its listing), while
  every path of the Workspace without an intended entry keeps its node.
\<close>

theorem intended_manifest_describes_operations:
  assumes fs: "posix_fs env" and limit: "pl_max_recursion_depth pl < u64_max"
    and plan: "plan_workspace_edit_with_document_preconditions env pl edit preconditions = Some (Inr planned)"
  defines "result \<equiv> apply_operations (cp_operations (pw_plan planned)) (disk_tree env)"
  shows "(\<forall>m \<in> set (cp_intended (pw_plan planned)). describes env result m)
    \<and> (\<forall>p. confined pl p \<longrightarrow> p \<notin> me_path ` set (cp_intended (pw_plan planned)) \<longrightarrow> result p = disk_tree env p)"
proof (rule accepted_plan_manifests [OF fs limit plan])
  fix s before
  assume s: "plan_ok env pl s" "cp_operations (pw_plan planned) = ps_operations s"
    and paths: "map me_path (cp_intended (pw_plan planned)) = vw_affected (ps_workspace s)"
    and those: "those (map (intended_entry env (ps_workspace s)) (vw_affected (ps_workspace s))) = Some (cp_intended (pw_plan planned))"
  let ?vw = "ps_workspace s"
  have result: "result = planned_tree env s" by (simp add: result_def planned_tree_def s(2))
  have v: "vw_ok env pl result ?vw" using s(1) by (simp add: plan_ok_def result)
  have "describes env result m" if m: "m \<in> set (cp_intended (pw_plan planned))" for m
  proof -
    obtain p where p: "p \<in> set (vw_affected ?vw)" "intended_entry env ?vw p = Some m"
      by (rule those_mem [OF those m])
    obtain st where "bt_get (vw_entries ?vw) p = Some st" "settled st" using vw_okD(6) [OF v p(1)] by blast
    from intended_describes [OF v this p(2)] show ?thesis .
  qed
  moreover have "result p = disk_tree env p"
    if "confined pl p" "p \<notin> me_path ` set (cp_intended (pw_plan planned))" for p
  proof -
    have "me_path ` set (cp_intended (pw_plan planned)) = set (vw_affected ?vw)"
      unfolding paths [symmetric] by simp
    with that s(1) show ?thesis by (simp add: plan_ok_def result)
  qed
  ultimately show ?thesis by blast
qed

end
