(* ===== verification/Plan_Samples.thy ===== *)
theory Plan_Samples
  imports Plan_Refinement
begin

text \<open>
  Concrete filesystems on which the properties of the planner are applied.
\<close>

section \<open>A disk given by its entries\<close>

type_synonym disk = "(path \<times> metadata \<times> string) list"

definition disk_listing :: "disk \<Rightarrow> path \<Rightarrow> dir_entry option list" where
  "disk_listing d p =
     concat (map (\<lambda>(q, md, b). case file_name q of
         Some n \<Rightarrow> if q = join_name p n then [Some \<lparr>de_name = n, de_kind = Some (md_kind md)\<rparr>] else []
       | None \<Rightarrow> []) d)"

definition sample_env :: "disk \<Rightarrow> environment" where
  "sample_env d = \<lparr>
     env_lstat = (\<lambda>p. case map_of d p of Some (md, b) \<Rightarrow> StatOk md | None \<Rightarrow> StatNotFound),
     env_stat = (\<lambda>p. map_option fst (map_of d p)),
     env_open = (\<lambda>p. case map_of d p of
         Some (md, b) \<Rightarrow> if md_kind md = RegularNode
           then Some \<lparr>of_len = Some (length b), of_accessed = True, of_bytes = Some b, of_restored = True\<rparr> else None
       | None \<Rightarrow> None),
     env_xattrs = (\<lambda>p. Some []),
     env_read_dir = (\<lambda>p. case map_of d p of
         Some (md, b) \<Rightarrow> if md_kind md = DirectoryNode then Some (disk_listing d p) else None
       | None \<Rightarrow> None),
     env_parse_url = (\<lambda>raw. if take 8 raw = ''file:///''
         then Some (''file'', Some (RootDir # map Normal (split_on (CHR ''/'') (drop 8 raw)))) else None),
     env_sha = (\<lambda>s. s), env_hex = (\<lambda>s. s)\<rparr>"

definition disk_ok :: "disk \<Rightarrow> bool" where
  "disk_ok d \<longleftrightarrow> distinct (map fst d)
     \<and> list_all (\<lambda>(q, md, b). case file_name q of None \<Rightarrow> True
         | Some n \<Rightarrow> (case map_of d (butlast q) of Some (md', b') \<Rightarrow> md_kind md' = DirectoryNode | None \<Rightarrow> False)) d"

lemma disk_ok_parent:
  assumes "disk_ok d" "map_of d (join_name p n) = Some (md, b)"
  obtains md' b' where "map_of d p = Some (md', b')" "md_kind md' = DirectoryNode"
proof -
  have "(join_name p n, md, b) \<in> set d" using assms(2) by (rule map_of_SomeD)
  with assms(1) have "case map_of d p of Some (md', b') \<Rightarrow> md_kind md' = DirectoryNode | None \<Rightarrow> False"
    unfolding disk_ok_def list_all_iff by (auto simp: join_name_def file_name_def dest!: bspec)
  with that show thesis by (auto split: option.splits)
qed

lemma posix_sample:
  assumes "disk_ok d"
  shows "posix_fs (sample_env d)"
  unfolding posix_fs_def
proof (intro conjI allI impI)
  fix p n md assume "env_lstat (sample_env d) (join_name p n) = StatOk md"
  then obtain b where "map_of d (join_name p n) = Some (md, b)"
    by (auto simp: sample_env_def split: option.splits)
  then obtain md' b' where "map_of d p = Some (md', b')" "md_kind md' = DirectoryNode"
    by (rule disk_ok_parent [OF assms])
  then show "\<exists>md'. env_lstat (sample_env d) p = StatOk md' \<and> md_kind md' \<in> {DirectoryNode, SymlinkNode}"
    by (simp add: sample_env_def)
next
  fix p n assume "env_lstat (sample_env d) p = StatNotFound"
  then have "map_of d p = None" by (auto simp: sample_env_def split: option.splits)
  then have "map_of d (join_name p n) = None"
    by (metis disk_ok_parent [OF assms] option.distinct(1) option.exhaust surj_pair)
  then show "env_lstat (sample_env d) (join_name p n) = StatNotFound" by (simp add: sample_env_def)
next
  fix p n assume "env_lstat (sample_env d) p = StatError"
  then show "env_lstat (sample_env d) (join_name p n) = StatError" by (auto simp: sample_env_def split: option.splits)
next
  fix p listing n assume l: "env_read_dir (sample_env d) p = Some listing" "on_disk (sample_env d) (join_name p n)"
  then obtain md b where "map_of d (join_name p n) = Some (md, b)"
    by (auto simp: on_disk_def sample_env_def split: option.splits)
  then have mem: "(join_name p n, md, b) \<in> set d" by (rule map_of_SomeD)
  have "set (f (join_name p n, md, b)) \<subseteq> set (concat (map f d))" for f :: "_ \<Rightarrow> dir_entry option list"
    using mem by auto
  from this [of "\<lambda>(q, md, b). case file_name q of
         Some n \<Rightarrow> if q = join_name p n then [Some \<lparr>de_name = n, de_kind = Some (md_kind md)\<rparr>] else []
       | None \<Rightarrow> []"]
  have "Some \<lparr>de_name = n, de_kind = Some (md_kind md)\<rparr> \<in> set (disk_listing d p)"
    by (simp add: disk_listing_def)
  moreover have "listing = disk_listing d p"
    using l(1) by (auto simp: sample_env_def split: option.splits if_splits)
  ultimately have "Some \<lparr>de_name = n, de_kind = Some (md_kind md)\<rparr> \<in> set listing" by simp
  then show "\<exists>e. Some e \<in> set listing \<and> de_name e = n" by force
next
  fix raw scheme p assume "env_parse_url (sample_env d) raw = Some (scheme, Some p)"
  then show "CurDir \<notin> set p" by (auto simp: sample_env_def split: if_splits)
qed

definition sample_node :: "node_kind \<Rightarrow> nat \<Rightarrow> nat \<Rightarrow> string \<Rightarrow> metadata \<times> string" where
  "sample_node k inode links b = (\<lparr>md_kind = k, md_device = 1, md_inode = inode, md_links = links, md_mode = 420,
     md_uid = 0, md_gid = 0, md_len = length b, md_blocks = 8\<rparr>, b)"

definition root_path :: path where
  "root_path = [RootDir, Normal ''w'']"

definition at :: "string list \<Rightarrow> path" where
  "at names = root_path @ map Normal names"

definition sample_planner :: planner where
  "sample_planner = \<lparr>pl_workspace = root_path, pl_encoding = Utf8, pl_max_document_text_bytes = 100,
     pl_max_text_bytes = 100, pl_max_entries = 100, pl_max_rollback_bytes = 1000, pl_max_staged_text_bytes = 100,
     pl_max_recursion_depth = 8, pl_root_device = Some 1\<rparr>"

section \<open>An accepted plan\<close>

definition sample_disk :: disk where
  "sample_disk =
     [([RootDir], sample_node DirectoryNode 1 2 []), (root_path, sample_node DirectoryNode 2 2 []),
      (at [''d''], sample_node DirectoryNode 3 2 []), (at [''d'', ''g''], sample_node RegularNode 4 1 ''x''),
      (at [''f''], sample_node RegularNode 5 1 ''ab'')]"

definition change_rename :: "string \<Rightarrow> string \<Rightarrow> json" where
  "change_rename old new = JObject [(''kind'', JString ''rename''), (''newUri'', JString new), (''oldUri'', JString old)]"

definition change_delete :: "string \<Rightarrow> json" where
  "change_delete u = JObject [(''kind'', JString ''delete''),
     (''options'', JObject [(''recursive'', JBool True)]), (''uri'', JString u)]"

definition change_create :: "string \<Rightarrow> json" where
  "change_create u = JObject [(''kind'', JString ''create''), (''uri'', JString u)]"

definition sample_changes :: "json list" where
  "sample_changes = [change_rename ''file:///w/d'' ''file:///w/e'', change_delete ''file:///w/f'']"

declare digest_canonical_value_def [code del]

lemma sample_disk_ok: "disk_ok sample_disk"
  by code_simp

definition sample_edit_of :: "json list \<Rightarrow> json" where
  "sample_edit_of changes = JObject [(''documentChanges'', JArray changes)]"

definition accepted :: "(workspace_edit_problem list + planned_workspace_edit) option \<Rightarrow> bool" where
  "accepted r \<longleftrightarrow> (case r of Some (Inr _) \<Rightarrow> True | _ \<Rightarrow> False)"

lemma sample_plan_accepted:
  "accepted (plan_workspace_edit_with_document_preconditions (sample_env sample_disk) sample_planner (sample_edit_of sample_changes) [])"
  by code_simp

definition sample_planned :: planned_workspace_edit where
  "sample_planned = (case plan_workspace_edit_with_document_preconditions (sample_env sample_disk) sample_planner
       (sample_edit_of sample_changes) [] of Some (Inr planned) \<Rightarrow> planned)"

lemma sample_plan:
  "plan_workspace_edit_with_document_preconditions (sample_env sample_disk) sample_planner (sample_edit_of sample_changes) []
     = Some (Inr sample_planned)"
  using sample_plan_accepted by (auto simp: accepted_def sample_planned_def split: option.splits sum.splits)

lemma sample_depth: "pl_max_recursion_depth sample_planner < u64_max"
  by code_simp

lemma sample_first_change:
  "(case plan_changes (sample_env sample_disk) sample_planner [] [] 0 (take 1 sample_changes) initial_plan_state of
      Some s \<Rightarrow> ps_problems s = [] | None \<Rightarrow> True)"
  by code_simp

section \<open>Witnesses\<close>

lemma sample_operation_path: "at [''f''] \<in> set (concat (map op_paths (cp_operations (pw_plan sample_planned))))"
  by code_simp

lemma sample_intended: "cp_intended (pw_plan sample_planned) \<noteq> []"
  by code_simp

theorem accepted_plan_is_confined_witness:
  "confined sample_planner (at [''f'']) \<and> plain_path (sample_env sample_disk) sample_planner (at [''f''])"
  using accepted_plan_is_confined [OF posix_sample [OF sample_disk_ok] sample_depth sample_plan] sample_operation_path
  by blast

theorem before_manifest_is_confirmed_witness:
  "inspect_manifest (sample_env sample_disk) sample_planner (cp_before (pw_plan sample_planned))
     = Inr (cp_before (pw_plan sample_planned))"
  by (rule before_manifest_is_confirmed [OF posix_sample [OF sample_disk_ok] sample_depth sample_plan])

theorem manifests_cover_operations_witness:
  "set (concat (map op_paths (cp_operations (pw_plan sample_planned)))) \<subseteq> set (map me_path (cp_intended (pw_plan sample_planned)))"
  using manifests_cover_operations [OF posix_sample [OF sample_disk_ok] sample_depth sample_plan] by blast

theorem accepted_plan_respects_limits_witness:
  "length (cp_intended (pw_plan sample_planned)) \<le> 100"
  using accepted_plan_respects_limits [OF posix_sample [OF sample_disk_ok] sample_depth sample_plan]
  by (simp add: sample_planner_def)

theorem planning_returns_witness:
  "\<exists>s. plan_changes (sample_env sample_disk) sample_planner [] [] 0 sample_changes initial_plan_state = Some s
     \<and> finish_plan (sample_env sample_disk) sample_planner JNull s \<noteq> None"
proof (rule planning_returns [OF posix_sample [OF sample_disk_ok] sample_depth])
  fix n s assume n: "n < length sample_changes"
    "plan_changes (sample_env sample_disk) sample_planner [] [] 0 (take n sample_changes) initial_plan_state = Some s"
  then consider "n = 0" | "n = 1" by (auto simp: sample_changes_def less_Suc_eq)
  then show "ps_problems s = []"
  proof cases
    case 1
    with n(2) show ?thesis by (auto simp: initial_plan_state_def)
  next
    case 2
    with n(2) sample_first_change show ?thesis by simp
  qed
qed

lemma accepted_uri_is_confined_example:
  "confined sample_planner (at [''f''])"
proof -
  have "path_from_file_uri (sample_env sample_disk) sample_planner ''file:///w/f'' 0 = Inr (at [''f''])" by code_simp
  from accepted_uri_is_confined [OF posix_sample [OF sample_disk_ok] this] show ?thesis by blast
qed

theorem intended_manifest_describes_operations_witness:
  "describes (sample_env sample_disk)
     (apply_operations (cp_operations (pw_plan sample_planned)) (disk_tree (sample_env sample_disk)))
     (hd (cp_intended (pw_plan sample_planned)))"
  using intended_manifest_describes_operations [OF posix_sample [OF sample_disk_ok] sample_depth sample_plan]
    list.set_sel(1) [OF sample_intended] by blast

section \<open>A plan that panics\<close>

definition partial_disk :: disk where
  "partial_disk =
     [([RootDir], sample_node DirectoryNode 1 2 []), (root_path, sample_node DirectoryNode 2 2 []),
      (at [''a''], sample_node DirectoryNode 3 2 []), (at [''a'', ''0''], sample_node RegularNode 4 2 ''x''),
      (at [''a'', ''x''], sample_node DirectoryNode 5 2 []), (at [''a'', ''x'', ''y''], sample_node DirectoryNode 6 2 []),
      (at [''c''], sample_node DirectoryNode 7 2 []), (at [''c'', ''0''], sample_node RegularNode 8 2 ''x''),
      (at [''c'', ''x''], sample_node DirectoryNode 9 2 []), (at [''c'', ''x'', ''y''], sample_node DirectoryNode 10 2 [])]"

definition partial_changes :: "json list" where
  "partial_changes =
     [change_create ''file:///w/a/x/y'', change_delete ''file:///w/c'', change_delete ''file:///w/c'',
      change_rename ''file:///w/a'' ''file:///w/c'', change_rename ''file:///w/a'' ''file:///w/c'',
      change_delete ''file:///w/c/x/y'']"

lemma partial_disk_ok: "disk_ok partial_disk"
  by code_simp

text \<open>
  C30. The planner can panic instead of reporting the problems of an edit. A directory whose listing
  was recorded but whose children could not all be loaded (here: a file with two hard links) counts as
  loaded afterwards; deleting it and moving another such directory over it leaves an unlisted
  directory at a path without a before-image, and the next operation on it unwraps \<open>None\<close>.
\<close>

theorem planner_panics_after_partial_listing:
  "posix_fs (sample_env partial_disk)
   \<and> plan_workspace_edit (sample_env partial_disk) sample_planner (sample_edit_of partial_changes) = None"
proof
  show "posix_fs (sample_env partial_disk)" by (rule posix_sample [OF partial_disk_ok])
  show "plan_workspace_edit (sample_env partial_disk) sample_planner (sample_edit_of partial_changes) = None" by code_simp
qed

end
