(* ===== verification/Transaction.thy ===== *)
theory Transaction
  imports Workspace_Plan Contract
begin

text \<open>
  The records of \<open>mutation/state.rs\<close> that an Application works on, and the manifests of
  \<open>mutation/application.rs\<close>: what the journal of a commit expects before and after each
  operation. Error messages are the static texts of the code.
\<close>

section \<open>Records\<close>

record backup_entry =
  be_path :: path
  be_backup_path :: path
  be_existed :: bool
  be_kind :: string

datatype transaction_state = Staged | Committing | RecoveryRequired | CleanupPending

record transaction_record =
  tx_format_version :: nat
  tx_id :: string
  tx_preview_id :: string
  tx_receipt_id :: string
  tx_workspace_path :: path
  tx_workspace_uri :: string
  tx_state :: transaction_state
  tx_started_at :: string
  tx_artifacts :: path
  tx_backups :: "backup_entry list"
  tx_operations :: "canonical_operation list"
  tx_before :: "manifest_entry list"
  tx_intended :: "manifest_entry list"
  tx_observed :: "manifest_entry list"
  tx_manifest_digest :: string
  tx_cleanup_pending :: bool

text \<open>The journal of a commit; an effect without an \<open>after\<close> manifest is a pending intent.\<close>

record commit_effect =
  ef_index :: nat
  ef_before :: "manifest_entry list"
  ef_after :: "manifest_entry list option"

record commit_progress =
  pr_version :: nat
  pr_transaction_id :: string
  pr_operations_digest :: string
  pr_before_digest :: string
  pr_effects :: "commit_effect list"

section \<open>Serialized manifests and operations\<close>

text \<open>
  \<open>serde_json::to_value\<close> of the records. A path is its text; every path of a plan is UTF-8, which is
  what makes the serialization total.
\<close>

fun path_text_names :: "path \<Rightarrow> string" where
  "path_text_names [] = []"
| "path_text_names [c] = component_name c"
| "path_text_names (c # cs) = component_name c @ ''/'' @ path_text_names cs"

definition path_text :: "path \<Rightarrow> string" where
  "path_text p = (case p of RootDir # cs \<Rightarrow> ''/'' @ path_text_names cs | _ \<Rightarrow> path_text_names p)"

definition optional_field :: "string \<Rightarrow> string option \<Rightarrow> (string \<times> json) list" where
  "optional_field key v = (case v of None \<Rightarrow> [] | Some s \<Rightarrow> [(key, JString s)])"

definition manifest_entry_json :: "manifest_entry \<Rightarrow> json" where
  "manifest_entry_json e = jobj ([(''path'', JString (path_text (me_path e))), (''exists'', JBool (me_exists e)),
     (''resourceKind'', JString (kind_name (me_kind e)))]
     @ optional_field ''identityDigest'' (me_identity e) @ optional_field ''contentDigest'' (me_content e)
     @ optional_field ''metadataDigest'' (me_metadata e))"

definition text_edit_json :: "canonical_text_edit \<Rightarrow> json" where
  "text_edit_json e = jobj ([(''startByte'', jnat (ce_start e)), (''endByte'', jnat (ce_end e)),
     (''newText'', JString (ce_new_text e))] @ optional_field ''annotationId'' (ce_annotation e))"

fun operation_json :: "canonical_operation \<Rightarrow> json" where
  "operation_json (OpText index uri p before_digest after_digest edits) =
     jobj [(''kind'', JString ''text''), (''index'', jnat index), (''uri'', JString uri), (''path'', JString (path_text p)),
       (''beforeDigest'', JString before_digest), (''afterDigest'', JString after_digest),
       (''edits'', JArray (map text_edit_json edits))]"
| "operation_json (OpCreate index uri p overwrite ignore_if_exists) =
     jobj [(''kind'', JString ''create''), (''index'', jnat index), (''uri'', JString uri), (''path'', JString (path_text p)),
       (''overwrite'', JBool overwrite), (''ignoreIfExists'', JBool ignore_if_exists)]"
| "operation_json (OpRename index old_uri new_uri old_path new_path overwrite ignore_if_exists) =
     jobj [(''kind'', JString ''rename''), (''index'', jnat index), (''oldUri'', JString old_uri),
       (''newUri'', JString new_uri), (''oldPath'', JString (path_text old_path)), (''newPath'', JString (path_text new_path)),
       (''overwrite'', JBool overwrite), (''ignoreIfExists'', JBool ignore_if_exists)]"
| "operation_json (OpDelete index uri p recursive ignore_if_not_exists) =
     jobj [(''kind'', JString ''delete''), (''index'', jnat index), (''uri'', JString uri), (''path'', JString (path_text p)),
       (''recursive'', JBool recursive), (''ignoreIfNotExists'', JBool ignore_if_not_exists)]"

definition manifest_digest :: "(string \<Rightarrow> string) \<Rightarrow> manifest_entry list \<Rightarrow> string" where
  "manifest_digest sha m = digest_canonical_value sha ''lspctl-mutation-manifest-v1'' (JArray (map manifest_entry_json m))"

definition new_progress :: "(string \<Rightarrow> string) \<Rightarrow> transaction_record \<Rightarrow> commit_progress" where
  "new_progress sha tx = \<lparr>pr_version = 1, pr_transaction_id = tx_id tx,
     pr_operations_digest = digest_canonical_value sha ''lspctl-commit-operations-v1''
       (JArray (map operation_json (tx_operations tx))),
     pr_before_digest = manifest_digest sha (tx_before tx), pr_effects = []\<rparr>"

fun operation_index :: "canonical_operation \<Rightarrow> nat" where
  "operation_index (OpText index _ _ _ _ _) = index"
| "operation_index (OpCreate index _ _ _ _) = index"
| "operation_index (OpRename index _ _ _ _ _ _) = index"
| "operation_index (OpDelete index _ _ _ _) = index"

section \<open>Paths of the protected artifacts\<close>

definition staged_text_path :: "path \<Rightarrow> nat \<Rightarrow> path" where
  "staged_text_path artifacts index = join_name artifacts (''text-'' @ decimal index)"

definition undo_resource_path :: "path \<Rightarrow> nat \<Rightarrow> path" where
  "undo_resource_path artifacts index = join_name artifacts (''undo-'' @ decimal index)"

text \<open>The callers establish the prefix that \<open>translated_path\<close> unwraps.\<close>

definition translated_path :: "path \<Rightarrow> path \<Rightarrow> path \<Rightarrow> path" where
  "translated_path p from_path to_path =
     (let suffix = the (strip_path_prefix p from_path)
      in if suffix = [] then to_path else join_path to_path suffix)"

text \<open>
  The roots of the existing before-manifest: the paths with no other such path above them, each
  with a numbered backup.
\<close>

definition backup_roots :: "manifest_entry list \<Rightarrow> path list" where
  "backup_roots before =
     (let paths = bs_of_list (map me_path (filter me_exists before))
      in filter (\<lambda>p. \<not> list_ex (\<lambda>candidate. candidate \<noteq> p \<and> starts_with p candidate) paths) paths)"

definition planned_backup :: "manifest_entry list \<Rightarrow> path \<Rightarrow> nat \<times> path \<Rightarrow> backup_entry" where
  "planned_backup before artifacts e =
     \<lparr>be_path = snd e, be_backup_path = join_name artifacts (''backup-'' @ decimal (fst e)), be_existed = True,
      be_kind = (case List.find (\<lambda>m. me_path m = snd e) before of
          Some m \<Rightarrow> kind_name (me_kind m) | None \<Rightarrow> kind_name MissingKind)\<rparr>"

definition planned_backups :: "manifest_entry list \<Rightarrow> path \<Rightarrow> backup_entry list" where
  "planned_backups before artifacts =
     map (planned_backup before artifacts) (zip [0..<length (backup_roots before)] (backup_roots before))"

fun backup_path_for :: "backup_entry list \<Rightarrow> path \<Rightarrow> path option" where
  "backup_path_for [] p = None"
| "backup_path_for (b # bs) p =
     (case strip_path_prefix p (be_path b) of
        Some relative \<Rightarrow> Some (if relative = [] then be_backup_path b else join_path (be_backup_path b) relative)
      | None \<Rightarrow> backup_path_for bs p)"

end
