(* ===== verification/Text_Outputs.thy ===== *)
theory Text_Outputs
  imports Transaction
begin

text \<open>
  \<open>mutation/application.rs\<close>: the evaluation of a plan's text operations for staging and for diffs.
  The bytes a physical path holds are read from an \<^typ>\<open>environment\<close>; restoring the access time of a
  file after reading it is part of that read.
\<close>

section \<open>Applying canonical edits\<close>

fun apply_edits_from :: "string \<Rightarrow> nat \<Rightarrow> canonical_text_edit list \<Rightarrow> string \<Rightarrow> string + string" where
  "apply_edits_from before cursor [] after = Inr (after @ drop cursor before)"
| "apply_edits_from before cursor (e # edits) after =
     (if ce_start e < cursor \<or> ce_end e < ce_start e
         \<or> \<not> is_char_boundary before (ce_start e) \<or> \<not> is_char_boundary before (ce_end e)
      then Inl ''A canonical staged text edit range is invalid.''
      else apply_edits_from before (ce_end e) edits
             (after @ take (ce_start e - cursor) (drop cursor before) @ ce_new_text e))"

definition apply_canonical_text_edits :: "string \<Rightarrow> canonical_text_edit list \<Rightarrow> string + string" where
  "apply_canonical_text_edits before edits =
     (if \<not> utf8_valid before then Inl ''A canonical staged text input is not valid UTF-8.''
      else apply_edits_from before 0 edits [])"

section \<open>Virtual texts\<close>

definition resolve_physical_path :: "path \<Rightarrow> (path \<times> path) list \<Rightarrow> path" where
  "resolve_physical_path p aliases =
     foldr (\<lambda>(virtual_root, physical_root) resolved.
         case strip_path_prefix resolved virtual_root of
           None \<Rightarrow> resolved
         | Some relative \<Rightarrow> if relative = [] then physical_root else join_path physical_root relative)
       aliases p"

definition read_source :: "environment \<Rightarrow> path \<Rightarrow> string option" where
  "read_source env p =
     (case env_stat env p of
        None \<Rightarrow> None
      | Some _ \<Rightarrow>
          (case env_open env p of
             None \<Rightarrow> None
           | Some f \<Rightarrow> if of_restored f then of_bytes f else None))"

record text_staging =
  ts_texts :: "(path, string) btree"
  ts_unavailable :: "path list"
  ts_aliases :: "(path \<times> path) list"
  ts_staged_bytes :: nat

definition initial_staging :: text_staging where
  "initial_staging = \<lparr>ts_texts = [], ts_unavailable = [], ts_aliases = [], ts_staged_bytes = 0\<rparr>"

definition virtual_text :: "environment \<Rightarrow> path \<Rightarrow> text_staging \<Rightarrow> string option" where
  "virtual_text env p s =
     (case bt_get (ts_texts s) p of
        Some text \<Rightarrow> Some text
      | None \<Rightarrow>
          if list_ex (\<lambda>root. starts_with p root) (ts_unavailable s) then None
          else read_source env (resolve_physical_path p (ts_aliases s)))"

definition stage_failure :: contract_failure where
  "stage_failure = failure 4 ''unavailable'' ''state_unavailable'' ''persist'' ''not_applicable'' ''after_change''"

definition staged_text_limit :: contract_failure where
  "staged_text_limit = failure 6 ''mutation'' ''resource_limit_exceeded'' ''stage'' ''not_applicable'' ''after_change''"

text \<open>
  One operation: the staging state after it and, for a text operation, the bytes before and after
  that the visitor is given. The visitor is called with them before the text counts as staged.
\<close>

fun stage_operation ::
  "environment \<Rightarrow> nat \<Rightarrow> canonical_operation \<Rightarrow> text_staging \<Rightarrow> contract_failure + text_staging \<times> (string \<times> string) option" where
  "stage_operation env limit (OpText index _ p before_digest after_digest edits) s =
     (case virtual_text env p s of
        None \<Rightarrow> Inl stage_failure
      | Some before \<Rightarrow>
          if digest_raw_bytes (env_sha env) before \<noteq> before_digest then Inl stage_failure
          else case apply_canonical_text_edits before edits of
            Inl _ \<Rightarrow> Inl stage_failure
          | Inr after \<Rightarrow>
              if digest_raw_bytes (env_sha env) after \<noteq> after_digest then Inl stage_failure
              else
                let staged = sat_add (ts_staged_bytes s) (length after)
                in if limit < staged then Inl staged_text_limit
                   else Inr (s\<lparr>ts_texts := bt_insert p after (ts_texts s),
                               ts_unavailable := filter (\<lambda>root. root \<noteq> p) (ts_unavailable s),
                               ts_staged_bytes := staged\<rparr>, Some (before, after)))"
| "stage_operation env limit (OpCreate _ _ p _ _) s =
     Inr (s\<lparr>ts_texts := bt_insert p [] (filter (\<lambda>e. \<not> starts_with (fst e) p) (ts_texts s)),
            ts_unavailable := filter (\<lambda>root. root \<noteq> p) (ts_unavailable s)\<rparr>, None)"
| "stage_operation env limit (OpRename _ _ _ old_path new_path _ _) s =
     (let physical_source = resolve_physical_path old_path (ts_aliases s);
          moved = filter (\<lambda>e. starts_with (fst e) old_path) (ts_texts s);
          kept = filter (\<lambda>e. \<not> starts_with (fst e) old_path \<and> \<not> starts_with (fst e) new_path) (ts_texts s)
      in Inr (s\<lparr>ts_texts := fold (\<lambda>e. bt_insert (translated_path (fst e) old_path new_path) (snd e)) moved kept,
                ts_unavailable := filter (\<lambda>root. \<not> starts_with root new_path) (ts_unavailable s) @ [old_path],
                ts_aliases := ts_aliases s @ [(new_path, physical_source)]\<rparr>, None))"
| "stage_operation env limit (OpDelete _ _ p _ _) s =
     Inr (s\<lparr>ts_texts := filter (\<lambda>e. \<not> starts_with (fst e) p) (ts_texts s),
            ts_unavailable := ts_unavailable s @ [p]\<rparr>, None)"

text \<open>
  \<open>visit_canonical_text_outputs\<close>: \<open>visit\<close> may fail and then ends the evaluation; it acts on a world of
  its own.
\<close>

fun visit_outputs ::
  "environment \<Rightarrow> nat \<Rightarrow> (canonical_operation \<Rightarrow> (string \<times> string) option \<Rightarrow> 'v \<Rightarrow> 'v \<times> (contract_failure + unit))
     \<Rightarrow> canonical_operation list \<Rightarrow> text_staging \<Rightarrow> 'v \<Rightarrow> 'v \<times> (contract_failure + unit)" where
  "visit_outputs env limit visit [] s v = (v, Inr ())"
| "visit_outputs env limit visit (op # ops) s v =
     (case stage_operation env limit op s of
        Inl f \<Rightarrow> (v, Inl f)
      | Inr (s', text) \<Rightarrow>
          (case visit op text v of
             (v', Inl f) \<Rightarrow> (v', Inl f)
           | (v', Inr _) \<Rightarrow> visit_outputs env limit visit ops s' v'))"

definition visit_canonical_text_outputs ::
  "environment \<Rightarrow> nat \<Rightarrow> (canonical_operation \<Rightarrow> (string \<times> string) option \<Rightarrow> 'v \<Rightarrow> 'v \<times> (contract_failure + unit))
     \<Rightarrow> canonical_operation list \<Rightarrow> 'v \<Rightarrow> 'v \<times> (contract_failure + unit)" where
  "visit_canonical_text_outputs env limit visit operations v = visit_outputs env limit visit operations initial_staging v"

text \<open>
  \<open>stage_text_outputs\<close>: the visitor writes each output to a new private file of the artifact directory.
  \<open>create\<close> is that write (open with \<open>create_new\<close>, restrict, write, flush).
\<close>

definition stage_text_visit ::
  "(path \<Rightarrow> string \<Rightarrow> 'v \<Rightarrow> 'v \<times> (unit + unit)) \<Rightarrow> path \<Rightarrow> canonical_operation \<Rightarrow> (string \<times> string) option \<Rightarrow> 'v
     \<Rightarrow> 'v \<times> (contract_failure + unit)" where
  "stage_text_visit create artifacts op text v =
     (case text of
        None \<Rightarrow> (v, Inr ())
      | Some (_, after) \<Rightarrow>
          map_prod id (map_sum (\<lambda>_. stage_failure) id)
            (create (staged_text_path artifacts (operation_index op)) after v))"

definition stage_text_outputs ::
  "environment \<Rightarrow> nat \<Rightarrow> (path \<Rightarrow> string \<Rightarrow> 'v \<Rightarrow> 'v \<times> (unit + unit)) \<Rightarrow> transaction_record \<Rightarrow> 'v
     \<Rightarrow> 'v \<times> (contract_failure + unit)" where
  "stage_text_outputs env limit create tx v =
     visit_canonical_text_outputs env limit (stage_text_visit create (tx_artifacts tx)) (tx_operations tx) v"

end
