(* ===== verification/Text_Output_Laws.thy ===== *)
theory Text_Output_Laws
  imports Text_Outputs Plan_Samples
begin

text \<open>
  The staged texts of an accepted plan are the texts of the tree its operations produce, and a plan
  the planner accepts whose texts cannot be staged.
\<close>

section \<open>Edits\<close>

lemma edit_text_Cons:
  "edit_text (e # es) b = take (ce_start e) (edit_text es b) @ ce_new_text e @ drop (ce_end e) (edit_text es b)"
  by (simp add: edit_text_def)

definition parsed_edit :: "canonical_text_edit \<Rightarrow> parsed_text_edit" where
  "parsed_edit e = \<lparr>pe_start = ce_start e, pe_end = ce_end e, pe_new_text = ce_new_text e,
     pe_annotation = ce_annotation e, pe_ordinal = 0\<rparr>"

lemma canonical_parsed [simp]: "canonical_edit (parsed_edit e) = e"
  by (simp add: canonical_edit_def parsed_edit_def)

lemma edit_text_parsed: "edit_text es b = apply_backwards (map parsed_edit es) b"
  using edit_text_canonical [of "map parsed_edit es" b] by (simp add: comp_def)

lemma disjoint_parsed: "disjoint_edits c es = edits_chain c (map parsed_edit es)"
  by (induction es arbitrary: c) (simp_all add: parsed_edit_def)

text \<open>The checked splice of the Application and the splice of the planner are the same function.\<close>

lemma apply_edits_splice:
  "disjoint_edits c es \<Longrightarrow> edits_within b es \<Longrightarrow> c \<le> length b
     \<Longrightarrow> apply_edits_from b c es acc = (case splice_edits b c (map parsed_edit es) acc of Some r \<Rightarrow> Inr r | None \<Rightarrow> Inl [])"
proof (induction es arbitrary: c acc)
  case (Cons e es)
  have "ce_end e \<le> length b" "edits_within b es" using Cons.prems(2) by (simp_all add: edits_within_def)
  with Cons show ?case by (simp add: parsed_edit_def edits_within_def)
qed simp

lemma apply_canonical_edit_text:
  assumes "utf8_valid b" "disjoint_edits 0 es" "edits_within b es"
  shows "apply_canonical_text_edits b es = Inr (edit_text es b)"
proof -
  have "\<forall>e \<in> set (map parsed_edit es). pe_end e \<le> length b"
    using assms(3) by (auto simp: edits_within_def parsed_edit_def)
  from splice_edits_spec [OF assms(2) [unfolded disjoint_parsed] this] show ?thesis
    using assms by (simp add: apply_canonical_text_edits_def apply_edits_splice edit_text_parsed)
qed

section \<open>Staged texts\<close>

text \<open>A staged text is the text the tree has at its path.\<close>

definition staged :: "text_staging \<Rightarrow> tree \<Rightarrow> bool" where
  "staged s t \<longleftrightarrow> bt_ok (ts_texts s) \<and> (\<forall>p b. bt_get (ts_texts s) p = Some b \<longrightarrow> t p = Some (File b))"

lemma staged_initial: "staged initial_staging t"
  by (simp add: staged_def initial_staging_def)

lemma translated_moved: "starts_with p old \<Longrightarrow> translated_path p old new = moved_path old new p"
  by (auto simp: translated_path_def moved_path_def strip_path_prefix_def join_path_def starts_with_iff)

text \<open>What each operation leaves when it succeeds, and the texts it shows for a text operation.\<close>

fun outputs_of :: "canonical_operation \<Rightarrow> tree \<Rightarrow> (string \<times> string) option" where
  "outputs_of (OpText _ _ p _ _ edits) t =
     (case t p of Some (File b) \<Rightarrow> Some (b, edit_text edits b) | _ \<Rightarrow> None)"
| "outputs_of _ t = None"

lemma fold_moved_texts:
  assumes "bt_ok kept" "\<forall>p b. (p, b) \<in> set moved \<longrightarrow> starts_with p old"
  shows "bt_ok (fold (\<lambda>e. bt_insert (translated_path (fst e) old new) (snd e)) moved kept)
    \<and> (bt_get (fold (\<lambda>e. bt_insert (translated_path (fst e) old new) (snd e)) moved kept) q = Some b
         \<longrightarrow> bt_get kept q = Some b \<or> (\<exists>p. (p, b) \<in> set moved \<and> q = moved_path old new p))"
  using assms
proof (induction moved arbitrary: kept)
  case (Cons e moved)
  obtain p c where e: "e = (p, c)" by fastforce
  with Cons.prems(2) have "starts_with p old" by simp
  with Cons.IH [of "bt_insert (translated_path p old new) c kept"] Cons.prems e show ?case
    by (auto simp: translated_moved split: if_splits)
qed simp

lemma stage_operation_staged:
  assumes s: "staged s t" and ok: "applicable env pl op t" and edits: "disjoint_edits 0 (op_edits op)"
    and sha: "inj (env_sha env)" and step: "stage_operation env limit op s = Inr (s', text)"
  shows "staged s' (apply_operation op t) \<and> text = outputs_of op t"
proof (cases op)
  case (OpText index uri p before_digest after_digest es)
  with step obtain before after where v: "virtual_text env p s = Some before"
    "digest_raw_bytes (env_sha env) before = before_digest" "apply_canonical_text_edits before es = Inr after"
    "s' = s\<lparr>ts_texts := bt_insert p after (ts_texts s), ts_unavailable := filter (\<lambda>root. root \<noteq> p) (ts_unavailable s),
        ts_staged_bytes := sat_add (ts_staged_bytes s) (length after)\<rparr>" "text = Some (before, after)"
    by (auto simp: Let_def split: option.splits sum.splits if_splits)
  from ok OpText obtain b where b: "t p = Some (File b)" "utf8_valid b" "edits_within b es"
    "before_digest = digest_raw_bytes (env_sha env) b" by auto
  have "before = b" using v(2) b(4) injD [OF sha] by (auto simp: digest_raw_bytes_def)
  moreover have "after = edit_text es b"
    using v(3) apply_canonical_edit_text [OF b(2) _ b(3)] edits OpText \<open>before = b\<close> by simp
  ultimately show ?thesis using s b(1) v(4,5) by (auto simp: OpText staged_def)
next
  case (OpCreate index uri p overwrite ignore)
  with step s ok show ?thesis
    by (auto simp: staged_def map_of_filter_key [of "\<lambda>q. \<not> starts_with q p"] split: if_splits)
next
  case (OpRename index old_uri new_uri old new overwrite ignore)
  let ?moved = "filter (\<lambda>e. starts_with (fst e) old) (ts_texts s)"
    and ?kept = "filter (\<lambda>e. \<not> starts_with (fst e) old \<and> \<not> starts_with (fst e) new) (ts_texts s)"
  have sorted: "bt_ok (ts_texts s)" and get: "\<And>p b. bt_get (ts_texts s) p = Some b \<Longrightarrow> t p = Some (File b)"
    using s by (simp_all add: staged_def)
  have texts: "ts_texts s' = fold (\<lambda>e. bt_insert (translated_path (fst e) old new) (snd e)) ?moved ?kept" "text = None"
    using step OpRename by (auto simp: Let_def)
  have f: "bt_ok (ts_texts s') \<and> (bt_get (ts_texts s') q = Some b
      \<longrightarrow> bt_get ?kept q = Some b \<or> (\<exists>p. (p, b) \<in> set ?moved \<and> q = moved_path old new p))" for q b
    unfolding texts by (rule fold_moved_texts) (use sorted in auto)
  have "apply_operation op t q = Some (File b)" if q: "bt_get (ts_texts s') q = Some b" for q b
  proof -
    from f q consider (kept) "bt_get ?kept q = Some b" | (moved) p where "(p, b) \<in> set ?moved" "q = moved_path old new p"
      by blast
    then show ?thesis
    proof cases
      case kept
      then have "bt_get (ts_texts s) q = Some b" "\<not> starts_with q old" "\<not> starts_with q new"
        using map_of_filter_key [of "\<lambda>k. \<not> starts_with k old \<and> \<not> starts_with k new" "ts_texts s" q]
        by (auto split: if_splits)
      with get show ?thesis by (simp add: OpRename)
    next
      case moved
      then have "starts_with p old" "bt_get (ts_texts s) p = Some b"
        by (auto simp: bt_get_mem [OF sorted])
      with get moved(2) show ?thesis by (simp add: OpRename moved_path_starts moved_path_inverse)
    qed
  qed
  with f texts(2) show ?thesis by (auto simp: staged_def OpRename simp del: apply_operation.simps)
next
  case (OpDelete index uri p recursive ignore)
  with step s show ?thesis by (auto simp: staged_def map_of_filter_key [of "\<lambda>q. \<not> starts_with q p"] split: if_splits)
qed

text \<open>A visitor that collects what it is shown.\<close>

definition collect :: "canonical_operation \<Rightarrow> (string \<times> string) option
    \<Rightarrow> (canonical_operation \<times> (string \<times> string) option) list
    \<Rightarrow> (canonical_operation \<times> (string \<times> string) option) list \<times> (contract_failure + unit)" where
  "collect op text shown = (shown @ [(op, text)], Inr ())"

fun planned_outputs :: "canonical_operation list \<Rightarrow> tree \<Rightarrow> (canonical_operation \<times> (string \<times> string) option) list" where
  "planned_outputs [] t = []"
| "planned_outputs (op # ops) t = (op, outputs_of op t) # planned_outputs ops (apply_operation op t)"

lemma visit_outputs_planned:
  assumes sha: "inj (env_sha env)"
  shows "staged s t \<Longrightarrow> sound_steps env pl A ops t \<Longrightarrow> \<forall>op \<in> set ops. disjoint_edits 0 (op_edits op)
    \<Longrightarrow> visit_outputs env limit collect ops s shown = (shown', r)
    \<Longrightarrow> (\<exists>n. shown' = shown @ take n (planned_outputs ops t)) \<and> (r = Inr () \<longrightarrow> shown' = shown @ planned_outputs ops t)"
proof (induction ops arbitrary: s t shown)
  case (Cons op ops)
  show ?case
  proof (cases "stage_operation env limit op s")
    case (Inl f)
    with Cons.prems(4) show ?thesis by (auto intro: exI [of _ 0])
  next
    case (Inr x)
    obtain s' out where x: "x = (s', out)" by fastforce
    have "staged s' (apply_operation op t) \<and> out = outputs_of op t"
      using Cons.prems(2,3) Inr x
      by (intro stage_operation_staged [OF Cons.prems(1) _ _ sha]) (auto simp: sound_step_def)
    then have st: "staged s' (apply_operation op t)" "out = outputs_of op t" by auto
    have rest: "sound_steps env pl A ops (apply_operation op t)" "\<forall>op \<in> set ops. disjoint_edits 0 (op_edits op)"
      using Cons.prems(2,3) by auto
    have run: "visit_outputs env limit collect ops s' (shown @ [(op, out)]) = (shown', r)"
      using Cons.prems(4) Inr x by (simp add: collect_def [of op])
    note IH = Cons.IH [OF st(1) rest run]
    from IH obtain n where "shown' = (shown @ [(op, out)]) @ take n (planned_outputs ops (apply_operation op t))" by blast
    then have "shown' = shown @ take (Suc n) (planned_outputs (op # ops) t)" using st(2) by simp
    moreover have "r = Inr () \<longrightarrow> shown' = shown @ planned_outputs (op # ops) t" using IH st(2) by simp
    ultimately show ?thesis by blast
  qed
qed (auto intro: exI [of _ 0])

section \<open>Properties\<close>


section \<open>Samples\<close>

definition change_text :: "string \<Rightarrow> string \<Rightarrow> json" where
  "change_text u txt = JObject
     [(''edits'', JArray [JObject [(''newText'', JString txt),
         (''range'', JObject [(''end'', JObject [(''character'', jnat 1), (''line'', jnat 0)]),
                              (''start'', JObject [(''character'', jnat 0), (''line'', jnat 0)])])]]),
      (''textDocument'', JObject [(''uri'', JString u)])]"

definition text_changes :: "json list" where
  "text_changes = [change_rename ''file:///w/f'' ''file:///w/h'', change_text ''file:///w/h'' ''z'']"

lemma text_plan_accepted:
  "accepted (plan_workspace_edit_with_document_preconditions (sample_env sample_disk) sample_planner (sample_edit_of text_changes) [])"
  by code_simp

definition text_planned :: planned_workspace_edit where
  "text_planned = (case plan_workspace_edit_with_document_preconditions (sample_env sample_disk) sample_planner
       (sample_edit_of text_changes) [] of Some (Inr planned) \<Rightarrow> planned)"

lemma text_plan:
  "plan_workspace_edit_with_document_preconditions (sample_env sample_disk) sample_planner (sample_edit_of text_changes) []
     = Some (Inr text_planned)"
  using text_plan_accepted by (auto simp: accepted_def text_planned_def split: option.splits sum.splits)

lemma text_visit_ok:
  "snd (visit_canonical_text_outputs (sample_env sample_disk) 100 collect (cp_operations (pw_plan text_planned)) []) = Inr ()"
  by code_simp


definition swap_changes :: "json list" where
  "swap_changes = [change_rename ''file:///w/d/g'' ''file:///w/t'', change_rename ''file:///w/f'' ''file:///w/d/g'',
     change_rename ''file:///w/t'' ''file:///w/f'', change_text ''file:///w/f'' ''z'']"

definition swap_planned :: planned_workspace_edit where
  "swap_planned = (case plan_workspace_edit_with_document_preconditions (sample_env sample_disk) sample_planner
       (sample_edit_of swap_changes) [] of Some (Inr planned) \<Rightarrow> planned)"

text \<open>
  C39. Staging can reject a plan that is fine: two files change places over a third name and one of them is
  then edited. \<open>resolve_physical_path\<close> finds the file's physical path at the last rename and then goes on
  through the earlier ones, so it reads the other file, whose digest is not the canonical one.
\<close>

theorem swapped_file_edit_is_not_staged:
  "plan_workspace_edit_with_document_preconditions (sample_env sample_disk) sample_planner (sample_edit_of swap_changes) []
     = Some (Inr swap_planned)
   \<and> snd (visit_canonical_text_outputs (sample_env sample_disk) 100 collect (cp_operations (pw_plan swap_planned)) [])
     = Inl stage_failure"
proof
  have "accepted (plan_workspace_edit_with_document_preconditions (sample_env sample_disk) sample_planner
      (sample_edit_of swap_changes) [])" by code_simp
  then show "plan_workspace_edit_with_document_preconditions (sample_env sample_disk) sample_planner (sample_edit_of swap_changes) []
     = Some (Inr swap_planned)"
    by (auto simp: accepted_def swap_planned_def split: option.splits sum.splits)
  show "snd (visit_canonical_text_outputs (sample_env sample_disk) 100 collect (cp_operations (pw_plan swap_planned)) [])
     = Inl stage_failure" by code_simp
qed

end
