(* ===== verification/Commit_Manifests.thy ===== *)
theory Commit_Manifests
  imports Transaction
begin

text \<open>
  \<open>mutation/application.rs\<close>: the manifests a commit expects. \<open>initial_progress_manifest\<close> is the state
  before the first operation, \<open>operation_after\<close> the state an operation must leave, computed from the
  one before it; a commit and a rollback go on only while the filesystem agrees with them. A failed
  \<open>unwrap\<close> of a child name is \<open>None\<close>.
\<close>

section \<open>Lookups and comparisons\<close>

definition manifest_for_path :: "manifest_entry list \<Rightarrow> path \<Rightarrow> string + manifest_entry" where
  "manifest_for_path manifest p =
     (case List.find (\<lambda>e. me_path e = p) manifest of
        Some e \<Rightarrow> Inr e | None \<Rightarrow> Inl ''A rollback manifest path is missing.'')"

record manifest_mismatch =
  mm_code :: string
  mm_path :: path
  mm_expected :: "string option"
  mm_actual :: "string option"

definition entry_mismatch :: "manifest_entry \<Rightarrow> manifest_entry \<Rightarrow> string option" where
  "entry_mismatch expected actual =
     (if me_exists expected \<noteq> me_exists actual then Some ''resource_existence''
      else if me_kind expected \<noteq> me_kind actual then Some ''resource_kind''
      else if me_identity expected \<noteq> None \<and> me_identity expected \<noteq> me_identity actual then Some ''resource_identity''
      else if me_content expected \<noteq> None \<and> me_content expected \<noteq> me_content actual then Some ''resource_content''
      else if me_metadata expected \<noteq> None \<and> me_metadata expected \<noteq> me_metadata actual then Some ''resource_metadata''
      else None)"

definition manifest_mismatches :: "manifest_entry list \<Rightarrow> manifest_entry list \<Rightarrow> manifest_mismatch list" where
  "manifest_mismatches expected actual =
     List.map_filter (\<lambda>e.
       let a = (case List.find (\<lambda>a. me_path a = me_path e) actual of Some a \<Rightarrow> a | None \<Rightarrow> missing_manifest (me_path e))
       in map_option (\<lambda>c. \<lparr>mm_code = c, mm_path = me_path e, mm_expected = me_content e, mm_actual = me_content a\<rparr>)
            (entry_mismatch e a)) expected"

text \<open>Whether an operation moves the resource at a path: it renames it, overwrites it by a rename, or deletes it.\<close>

fun relocates :: "canonical_operation \<Rightarrow> path \<Rightarrow> bool" where
  "relocates (OpRename _ _ _ old_path new_path overwrite _) p \<longleftrightarrow>
     starts_with p old_path \<or> overwrite \<and> starts_with p new_path"
| "relocates (OpDelete _ _ doomed _ _) p \<longleftrightarrow> starts_with p doomed"
| "relocates _ p \<longleftrightarrow> False"

definition preview_manifest_mismatches :: "canonical_plan \<Rightarrow> manifest_entry list \<Rightarrow> manifest_mismatch list" where
  "preview_manifest_mismatches plan actual =
     manifest_mismatches (cp_before plan) actual
     @ map (\<lambda>e. \<lparr>mm_code = ''resource_content'', mm_path = me_path e, mm_expected = None, mm_actual = None\<rparr>)
         (filter (\<lambda>e. me_exists e \<and> me_kind e = DirectoryKind \<and> me_content e = None
             \<and> list_ex (\<lambda>op. relocates op (me_path e)) (cp_operations plan)) (cp_before plan))"

section \<open>Directory membership\<close>

definition listed_children :: "manifest_entry list \<Rightarrow> path \<Rightarrow> (string, resource_kind) btree option" where
  "listed_children entries p =
     map_option bt_of_list
       (those (map (\<lambda>e. case file_name (me_path e) of
                     Some n \<Rightarrow> if utf8_valid n then Some (n, me_kind e) else None
                   | None \<Rightarrow> None)
          (filter (\<lambda>e. me_exists e \<and> parent (me_path e) = Some p) entries)))"

text \<open>The loop reads no digest, so the entries it updates do not influence each other.\<close>

definition refresh_entry :: "(string \<Rightarrow> string) \<Rightarrow> manifest_entry list \<Rightarrow> manifest_entry \<Rightarrow> manifest_entry option" where
  "refresh_entry sha entries e =
     (if me_kind e \<noteq> DirectoryKind \<or> me_content e = None then Some e
      else map_option (\<lambda>children. e\<lparr>me_content := Some (membership_digest sha children)\<rparr>)
             (listed_children entries (me_path e)))"

definition refresh_membership :: "(string \<Rightarrow> string) \<Rightarrow> manifest_entry list \<Rightarrow> manifest_entry list option" where
  "refresh_membership sha entries = those (map (refresh_entry sha entries) entries)"

section \<open>Expected manifests\<close>

definition entries_by_path :: "manifest_entry list \<Rightarrow> (path, manifest_entry) btree" where
  "entries_by_path entries = bt_of_list (map (\<lambda>e. (me_path e, e)) entries)"

definition certify_relocated :: "canonical_operation list \<Rightarrow> manifest_entry \<Rightarrow> manifest_entry" where
  "certify_relocated operations e =
     (if me_kind e = DirectoryKind \<and> list_ex (\<lambda>op. relocates op (me_path e)) operations
      then e\<lparr>me_content := Some []\<rparr> else e)"

definition initial_progress_manifest :: "(string \<Rightarrow> string) \<Rightarrow> transaction_record \<Rightarrow> manifest_entry list option" where
  "initial_progress_manifest sha tx =
     (let absent = bt_of_list (map (\<lambda>e. (me_path e, missing_manifest (me_path e))) (tx_intended tx));
          entries = map snd (fold (\<lambda>e. bt_insert (me_path e) e) (tx_before tx) absent)
      in refresh_membership sha (map (certify_relocated (tx_operations tx)) entries))"

fun undo_root :: "canonical_operation \<Rightarrow> path option" where
  "undo_root (OpRename _ _ _ _ new_path _ _) = Some new_path"
| "undo_root (OpDelete _ _ p _ _) = Some p"
| "undo_root _ = None"

definition add_undo_manifest ::
  "transaction_record \<Rightarrow> canonical_operation \<Rightarrow> manifest_entry list \<Rightarrow> manifest_entry list" where
  "add_undo_manifest tx op entries =
     (case undo_root op of
        None \<Rightarrow> entries
      | Some p \<Rightarrow>
          let undo = undo_resource_path (tx_artifacts tx) (operation_index op);
              missing = map (\<lambda>e. missing_manifest (translated_path (me_path e) p undo))
                          (filter (\<lambda>e. starts_with (me_path e) p) entries)
          in sort_key me_path (entries @ missing))"

fun transfer_each ::
  "path \<Rightarrow> path \<Rightarrow> manifest_entry list \<Rightarrow> (path, manifest_entry) btree \<Rightarrow> string + (path, manifest_entry) btree" where
  "transfer_each from_path to_path [] entries = Inr entries"
| "transfer_each from_path to_path (e # tree) entries =
     (if me_kind e = DirectoryKind \<and> me_content e = None
      then Inl ''Directory transfer lacks a membership certificate.''
      else
        let target = translated_path (me_path e) from_path to_path
        in transfer_each from_path to_path tree
             (bt_insert target (e\<lparr>me_path := target\<rparr>) (bt_insert (me_path e) (missing_manifest (me_path e)) entries)))"

definition transfer_manifest ::
  "path \<Rightarrow> path \<Rightarrow> (path, manifest_entry) btree \<Rightarrow> string + (path, manifest_entry) btree" where
  "transfer_manifest from_path to_path entries =
     (let tree = filter (\<lambda>e. me_exists e \<and> starts_with (me_path e) from_path) (map snd entries)
      in if tree = [] then Inl ''Missing transferred resource.''
         else transfer_each from_path to_path tree entries)"

definition occupied :: "(path, manifest_entry) btree \<Rightarrow> path \<Rightarrow> bool" where
  "occupied entries p \<longleftrightarrow> (case bt_get entries p of Some e \<Rightarrow> me_exists e | None \<Rightarrow> False)"

text \<open>
  The match over the operation in \<open>operation_after\<close>. \<open>None\<close> inside the result is the early return
  of an ignored rename, which leaves the manifest as it was.
\<close>

fun transform_manifest ::
  "(string \<Rightarrow> string) \<Rightarrow> path \<Rightarrow> canonical_operation \<Rightarrow> manifest_entry list \<Rightarrow> string option
     \<Rightarrow> (path, manifest_entry) btree \<Rightarrow> string + (path, manifest_entry) btree option" where
  "transform_manifest sha artifacts (OpText _ _ p before_digest after_digest _) observed identity entries =
     (case bt_get entries p of
        None \<Rightarrow> Inl ''Missing text precondition.''
      | Some e \<Rightarrow>
          if me_content e \<noteq> Some before_digest \<or> me_identity e \<noteq> identity
          then Inl ''Text handle or before content does not match the canonical operation.''
          else Inr (Some (bt_insert p (e\<lparr>me_content := Some after_digest\<rparr>) entries)))"
| "transform_manifest sha artifacts (OpCreate _ _ p overwrite ignore_if_exists) observed identity entries =
     (case bt_get entries p of
        None \<Rightarrow> Inl ''Missing create precondition.''
      | Some e \<Rightarrow>
          if me_exists e \<and> \<not> overwrite
          then (if ignore_if_exists then Inr (Some entries) else Inl ''Unexpected occupied create target.'')
          else if me_exists e
          then (if me_identity e \<noteq> identity then Inl ''Overwrite handle changed.''
                else Inr (Some (bt_insert p (e\<lparr>me_content := Some (digest_raw_bytes sha [])\<rparr>) entries)))
          else case manifest_for_path observed p of
            Inl f \<Rightarrow> Inl f
          | Inr created \<Rightarrow>
              if me_kind created \<noteq> FileKind \<or> me_identity created = None \<or> me_identity created \<noteq> identity
                 \<or> me_content created \<noteq> Some (digest_raw_bytes sha [])
              then Inl ''Created resource does not match its handle and canonical empty content.''
              else Inr (Some (bt_insert p created entries)))"
| "transform_manifest sha artifacts (OpRename index _ _ old_path new_path overwrite ignore_if_exists) observed identity entries =
     (case (if occupied entries new_path
            then (if overwrite
                  then map_sum id Some (transfer_manifest new_path (undo_resource_path artifacts index) entries)
                  else if ignore_if_exists then Inr None
                  else Inl ''Unexpected occupied rename destination.'')
            else Inr (Some entries)) of
        Inl f \<Rightarrow> Inl f
      | Inr None \<Rightarrow> Inr None
      | Inr (Some entries') \<Rightarrow> map_sum id Some (transfer_manifest old_path new_path entries'))"
| "transform_manifest sha artifacts (OpDelete index _ p _ ignore_if_not_exists) observed identity entries =
     (if occupied entries p
      then map_sum id Some (transfer_manifest p (undo_resource_path artifacts index) entries)
      else if ignore_if_not_exists then Inr (Some entries)
      else Inl ''Unexpected missing delete target.'')"

definition operation_after ::
  "(string \<Rightarrow> string) \<Rightarrow> transaction_record \<Rightarrow> canonical_operation \<Rightarrow> manifest_entry list \<Rightarrow> manifest_entry list
     \<Rightarrow> string option \<Rightarrow> (string + manifest_entry list) option" where
  "operation_after sha tx op before observed identity =
     (case transform_manifest sha (tx_artifacts tx) op observed identity (entries_by_path before) of
        Inl f \<Rightarrow> Some (Inl f)
      | Inr None \<Rightarrow> Some (Inr before)
      | Inr (Some entries) \<Rightarrow> map_option Inr (refresh_membership sha (map snd entries)))"

end
