(* ===== verification/Actions.thy ===== *)
theory Actions
  imports Plan_Types
begin

text \<open>
  Actions on a world that every call may change: the steps they are made of, triples about their
  outcomes, and what an instrumented world that also keeps a trace has to do with the plain one.
\<close>

section \<open>Steps\<close>

definition call :: "('w \<Rightarrow> 'w \<times> ('e + 'a)) \<Rightarrow> ('w, 'e, 'a) step" where
  "call f = (\<lambda>w. Some (f w))"

text \<open>\<open>m; k\<close> where \<open>k\<close> does not use what \<open>m\<close> returned, and a check that ends the closure with an error.\<close>

definition step_then :: "('w, 'e, 'a) step \<Rightarrow> ('w, 'e, 'b) step \<Rightarrow> ('w, 'e, 'b) step" where
  "step_then m k = step_bind m (\<lambda>_. k)"

definition require :: "bool \<Rightarrow> 'e \<Rightarrow> ('w, 'e, unit) step" where
  "require c message = (if c then step_ok () else step_err message)"

definition unwrap :: "'x + 'a \<Rightarrow> ('w, 'e, 'a) step" where
  "unwrap r = (case r of Inl _ \<Rightarrow> step_panic | Inr a \<Rightarrow> step_ok a)"

fun each :: "('a \<Rightarrow> ('w, 'e, 'b) step) \<Rightarrow> 'a list \<Rightarrow> ('w, 'e, 'b list) step" where
  "each f [] = step_ok []"
| "each f (x # xs) = step_bind (f x) (\<lambda>y. step_bind (each f xs) (\<lambda>ys. step_ok (y # ys)))"

section \<open>Outcomes of host actions\<close>

text \<open>From a world with \<open>P\<close>, an action that returns a value establishes \<open>Q\<close> and one that fails leaves \<open>E\<close>.\<close>

definition upholds :: "('w \<Rightarrow> bool) \<Rightarrow> ('w \<Rightarrow> bool) \<Rightarrow> ('w, 'e, 'a) step \<Rightarrow> ('a \<Rightarrow> 'w \<Rightarrow> bool) \<Rightarrow> bool" where
  "upholds E P m Q \<longleftrightarrow>
     (\<forall>w w' r. P w \<longrightarrow> m w = Some (w', r) \<longrightarrow> (case r of Inl _ \<Rightarrow> E w' | Inr a \<Rightarrow> Q a w'))"

lemma upholdsD: "upholds E P m Q \<Longrightarrow> P w \<Longrightarrow> m w = Some (w', r) \<Longrightarrow> (case r of Inl _ \<Rightarrow> E w' | Inr a \<Rightarrow> Q a w')"
  unfolding upholds_def by blast

lemma upholds_bind:
  assumes "upholds E P m R" "\<And>a. upholds E (R a) (f a) Q"
  shows "upholds E P (step_bind m f) Q"
  unfolding upholds_def
proof (intro allI impI)
  fix w w' r assume w: "P w" "step_bind m f w = Some (w', r)"
  then obtain w1 r1 where m: "m w = Some (w1, r1)"
    by (auto simp: step_bind_def split: option.splits)
  note r1 = upholdsD [OF assms(1) w(1) m]
  show "case r of Inl _ \<Rightarrow> E w' | Inr a \<Rightarrow> Q a w'"
  proof (cases r1)
    case (Inl e)
    with w m r1 show ?thesis by (auto simp: step_bind_def)
  next
    case (Inr a)
    with w m r1 upholdsD [OF assms(2) [of a], of w1 w' r] show ?thesis by (simp add: step_bind_def)
  qed
qed

lemma upholds_then: "upholds E P m (\<lambda>_. R) \<Longrightarrow> upholds E R k Q \<Longrightarrow> upholds E P (step_then m k) Q"
  unfolding step_then_def by (rule upholds_bind)

lemma upholds_ok: "(\<And>w. P w \<Longrightarrow> Q a w) \<Longrightarrow> upholds E P (step_ok a) Q"
  by (simp add: upholds_def step_ok_def)

lemma upholds_err: "(\<And>w. P w \<Longrightarrow> E w) \<Longrightarrow> upholds E P (step_err e) Q"
  by (simp add: upholds_def step_err_def)

lemma upholds_panic: "upholds E P step_panic Q"
  by (simp add: upholds_def step_panic_def)

lemma upholds_lift:
  "(\<And>w a. P w \<Longrightarrow> r = Inr a \<Longrightarrow> Q a w) \<Longrightarrow> (\<And>w. P w \<Longrightarrow> E w) \<Longrightarrow> upholds E P (step_lift r) Q"
  by (auto simp: upholds_def step_lift_def split: sum.splits)

lemma upholds_require: "(\<And>w. P w \<Longrightarrow> c \<Longrightarrow> Q () w) \<Longrightarrow> (\<And>w. P w \<Longrightarrow> E w) \<Longrightarrow> upholds E P (require c message) Q"
  by (auto simp: require_def upholds_ok upholds_err)

lemma upholds_unwrap: "(\<And>w a. P w \<Longrightarrow> r = Inr a \<Longrightarrow> Q a w) \<Longrightarrow> upholds E P (unwrap r) Q"
  by (auto simp: unwrap_def upholds_panic upholds_ok split: sum.splits)

lemma upholds_call:
  "(\<And>w w' r. P w \<Longrightarrow> f w = (w', r) \<Longrightarrow> (case r of Inl _ \<Rightarrow> E w' | Inr a \<Rightarrow> Q a w')) \<Longrightarrow> upholds E P (call f) Q"
  by (simp add: upholds_def call_def)

lemma upholds_mono:
  "upholds E P m Q \<Longrightarrow> (\<And>w. P' w \<Longrightarrow> P w) \<Longrightarrow> (\<And>a w. Q a w \<Longrightarrow> Q' a w) \<Longrightarrow> (\<And>w. E w \<Longrightarrow> E' w) \<Longrightarrow> upholds E' P' m Q'"
  unfolding upholds_def by (fastforce split: sum.splits)

lemma upholds_ex: "(\<And>x. upholds E (P x) m Q) \<Longrightarrow> upholds E (\<lambda>w. \<exists>x. P x w) m Q"
  unfolding upholds_def by blast

lemma upholds_pre: "(c \<Longrightarrow> upholds E P m Q) \<Longrightarrow> upholds E (\<lambda>w. P w \<and> c) m Q"
  unfolding upholds_def by blast

lemma upholds_if: "(c \<Longrightarrow> upholds E P m Q) \<Longrightarrow> (\<not> c \<Longrightarrow> upholds E P k Q) \<Longrightarrow> upholds E P (if c then m else k) Q"
  by simp

lemma upholds_each:
  "(\<And>x. x \<in> set xs \<Longrightarrow> upholds E P (f x) (\<lambda>_. P)) \<Longrightarrow> upholds E P (each f xs) (\<lambda>_. P)"
proof (induction xs)
  case (Cons x xs)
  show ?case
    by (simp, rule upholds_bind [OF Cons.prems], simp)
      (rule upholds_bind [OF Cons.IH], use Cons.prems in \<open>auto intro: upholds_ok\<close>)
qed (simp add: upholds_ok)

text \<open>The values an iteration returns, each with the element it came from.\<close>

lemma upholds_each_values:
  assumes "\<And>x zs. x \<in> set xs \<Longrightarrow> upholds E (P zs) (f x) (\<lambda>y. P (zs @ [(x, y)]))"
  shows "upholds E (P zs) (each f xs) (\<lambda>ys w. length ys = length xs \<and> P (zs @ zip xs ys) w)"
  using assms
proof (induction xs arbitrary: zs)
  case (Cons x xs)
  have "upholds E (P (zs @ [(x, y)])) (each f xs) (\<lambda>ys w. length ys = length xs \<and> P ((zs @ [(x, y)]) @ zip xs ys) w)" for y
    by (rule Cons.IH) (simp add: Cons.prems)
  then show ?case
    by (simp, intro upholds_bind [OF Cons.prems]) (auto intro!: upholds_bind upholds_ok)
qed (simp add: upholds_ok)

section \<open>Traces\<close>

text \<open>A call that leaves no event, and one whose result determines the events it leaves.\<close>

definition quiet :: "('w \<Rightarrow> 'w \<times> 'a) \<Rightarrow> 'w \<times> 'ev list \<Rightarrow> ('w \<times> 'ev list) \<times> 'a" where
  "quiet f = (\<lambda>(w, l). case f w of (w', r) \<Rightarrow> ((w', l), r))"

definition noting :: "('a \<Rightarrow> 'ev list) \<Rightarrow> ('w \<Rightarrow> 'w \<times> 'a) \<Rightarrow> 'w \<times> 'ev list \<Rightarrow> ('w \<times> 'ev list) \<times> 'a" where
  "noting ev f = (\<lambda>(w, l). case f w of (w', r) \<Rightarrow> ((w', l @ ev r), r))"

section \<open>Tracing is transparent\<close>

definition shadows :: "('w \<times> 'ev list, 'e, 'a) step \<Rightarrow> ('w, 'e, 'a) step \<Rightarrow> bool" where
  "shadows m' m \<longleftrightarrow>
     (\<forall>w l. case m w of None \<Rightarrow> m' (w, l) = None | Some (w', r) \<Rightarrow> \<exists>l'. m' (w, l) = Some ((w', l'), r))"

named_theorems shadow_rules "actions that the traced host runs as the host beneath does"

lemma shadowsD: "shadows m' m \<Longrightarrow> m w = Some (w', r) \<Longrightarrow> \<exists>l'. m' (w, l) = Some ((w', l'), r)"
  unfolding shadows_def by (fastforce dest: spec [of _ w])

lemma shadows_None: "shadows m' m \<Longrightarrow> m w = None \<Longrightarrow> m' (w, l) = None"
  unfolding shadows_def by (fastforce dest: spec [of _ w])

lemma shadows_bind [shadow_rules]:
  assumes "shadows m' m" "\<And>a. shadows (f' a) (f a)"
  shows "shadows (step_bind m' f') (step_bind m f)"
  unfolding shadows_def
proof (intro allI)
  fix w l
  show "case step_bind m f w of None \<Rightarrow> step_bind m' f' (w, l) = None
      | Some (w', r) \<Rightarrow> \<exists>l'. step_bind m' f' (w, l) = Some ((w', l'), r)"
  proof (cases "m w")
    case None
    with shadows_None [OF assms(1)] show ?thesis by (simp add: step_bind_def)
  next
    case (Some p)
    then obtain w1 r1 where m: "m w = Some (w1, r1)" by (cases p) auto
    obtain l1 where m': "m' (w, l) = Some ((w1, l1), r1)" using shadowsD [OF assms(1) m] by blast
    show ?thesis
    proof (cases r1)
      case (Inl e)
      with m m' show ?thesis by (simp add: step_bind_def)
    next
      case (Inr a)
      have "case f a w1 of None \<Rightarrow> f' a (w1, l1) = None | Some (w', r) \<Rightarrow> \<exists>l'. f' a (w1, l1) = Some ((w', l'), r)"
        using assms(2) [of a] unfolding shadows_def by blast
      with Inr m m' show ?thesis by (auto simp: step_bind_def split: option.splits)
    qed
  qed
qed

lemma shadows_then [shadow_rules]: "shadows m' m \<Longrightarrow> shadows k' k \<Longrightarrow> shadows (step_then m' k') (step_then m k)"
  unfolding step_then_def by (rule shadows_bind)

lemma shadows_basic [shadow_rules]:
  "shadows (step_ok a) (step_ok a)" "shadows (step_err e) (step_err e)" "shadows step_panic step_panic"
  "shadows (step_lift r) (step_lift r)" "shadows (require c message) (require c message)" "shadows (unwrap x) (unwrap x)"
  by (auto simp: shadows_def step_ok_def step_err_def step_panic_def step_lift_def require_def unwrap_def split: sum.splits)

lemma shadows_call [shadow_rules]:
  "shadows (call (quiet f)) (call f)" "shadows (call (noting ev f)) (call f)"
  "shadows (call (map_prod id g \<circ> quiet k)) (call (map_prod id g \<circ> k))"
  "shadows (call (map_prod id g \<circ> noting ev' k)) (call (map_prod id g \<circ> k))"
  by (auto simp: shadows_def call_def quiet_def noting_def split: prod.splits)

lemma shadows_each [shadow_rules]: "(\<And>x. shadows (f' x) (f x)) \<Longrightarrow> shadows (each f' xs) (each f xs)"
  by (induction xs) (auto intro!: shadow_rules)

lemma shadows_cases [shadow_rules]:
  "(c \<Longrightarrow> shadows m' m) \<Longrightarrow> (\<not> c \<Longrightarrow> shadows k' k) \<Longrightarrow> shadows (if c then m' else k') (if c then m else k)"
  "(\<And>a. shadows (f' a) (f a)) \<Longrightarrow> (\<And>b. shadows (g' b) (g b)) \<Longrightarrow> shadows (case_sum f' g' s) (case_sum f g s)"
  "shadows n' n \<Longrightarrow> (\<And>b. shadows (h' b) (h b)) \<Longrightarrow> shadows (case_option n' h' opt) (case_option n h opt)"
  "shadows n' n \<Longrightarrow> (\<And>y ys. shadows (t' y ys) (t y ys)) \<Longrightarrow> shadows (case_list n' t' xs) (case_list n t xs)"
  by (auto split: sum.split option.split list.split)

end
