(* ===== verification/Commit_Run.thy ===== *)
theory Commit_Run
  imports Commit_Manifests Actions
begin

text \<open>
  \<open>mutation/application.rs\<close>: the commit of a staged transaction, operation by operation, with its
  journal. The filesystem is a \<open>host\<close>: a world of any type that every call may change, also on behalf
  of other programs. \<open>ho_look\<close> is the filesystem an inspection reads.
\<close>

section \<open>The host\<close>

datatype open_mode = ReadOnly | ReadWrite | WriteOnly | CreateNew

text \<open>
  Calls on the capability root take the path relative to the Workspace. \<open>ho_lstat\<close> is
  \<open>symlink_metadata\<close>: \<open>Some\<close> whether the resource is a directory. \<open>ho_first_entry\<close> is whether a
  directory has an entry. \<open>ho_flush_parent\<close> flushes the directory a path is in. \<open>ho_read_marker\<close> opens
  the owner marker of an artifact directory and reads at most so many bytes of it;
  \<open>ho_store_progress\<close> replaces the journal of an artifact directory durably and
  \<open>ho_load_progress\<close> reads and parses it if it is a regular file of at most so many bytes.
  \<open>ho_transaction_len\<close> and \<open>ho_progress_len\<close> are the lengths of the serialized records.
\<close>

record ('w, 'h) host =
  ho_look :: "'w \<Rightarrow> 'w \<times> environment"
  ho_open :: "open_mode \<Rightarrow> path \<Rightarrow> 'w \<Rightarrow> 'w \<times> (string + 'h)"
  ho_accessed :: "'h \<Rightarrow> 'w \<Rightarrow> 'w \<times> (string + nat)"
  ho_read_handle :: "'h \<Rightarrow> 'w \<Rightarrow> 'w \<times> (string + string)"
  ho_identity :: "'h \<Rightarrow> 'w \<Rightarrow> 'w \<times> (string + string)"
  ho_truncate :: "'h \<Rightarrow> 'w \<Rightarrow> 'w \<times> (string + unit)"
  ho_write :: "'h \<Rightarrow> string \<Rightarrow> 'w \<Rightarrow> 'w \<times> (string + unit)"
  ho_sync :: "'h \<Rightarrow> 'w \<Rightarrow> 'w \<times> (string + unit)"
  ho_set_accessed :: "'h \<Rightarrow> nat \<Rightarrow> 'w \<Rightarrow> 'w \<times> (string + unit)"
  ho_copy_metadata :: "'h \<Rightarrow> 'h \<Rightarrow> 'w \<Rightarrow> 'w \<times> (string + unit)"
  ho_read_file :: "path \<Rightarrow> 'w \<Rightarrow> 'w \<times> (string + string)"
  ho_lstat :: "path \<Rightarrow> 'w \<Rightarrow> 'w \<times> (string + bool)"
  ho_first_entry :: "path \<Rightarrow> 'w \<Rightarrow> 'w \<times> (string + bool)"
  ho_rename :: "path \<Rightarrow> path \<Rightarrow> 'w \<Rightarrow> 'w \<times> (string + unit)"
  ho_remove_file :: "path \<Rightarrow> 'w \<Rightarrow> 'w \<times> (string + unit)"
  ho_remove_dir_all :: "path \<Rightarrow> 'w \<Rightarrow> 'w \<times> (string + unit)"
  ho_flush_parent :: "path \<Rightarrow> 'w \<Rightarrow> 'w \<times> (string + unit)"
  ho_read_marker :: "path \<Rightarrow> nat \<Rightarrow> 'w \<Rightarrow> 'w \<times> (string + string)"
  ho_store_progress :: "path \<Rightarrow> commit_progress \<Rightarrow> 'w \<Rightarrow> 'w \<times> (string + unit)"
  ho_load_progress :: "path \<Rightarrow> nat \<Rightarrow> 'w \<Rightarrow> 'w \<times> (string + commit_progress)"
  ho_transaction_len :: "transaction_record \<Rightarrow> nat"
  ho_progress_len :: "commit_progress \<Rightarrow> nat"

type_synonym ('w, 'a) act = "('w, string, 'a) step"

section \<open>Inspections\<close>

definition relative_path :: "planner \<Rightarrow> path \<Rightarrow> string + path" where
  "relative_path pl p =
     (case strip_path_prefix p (pl_workspace pl) of
        None \<Rightarrow> Inl ''A canonical operation path escaped the Workspace capability.''
      | Some relative \<Rightarrow> Inr relative)"

definition look :: "('w, 'h) host \<Rightarrow> (environment \<Rightarrow> workspace_edit_problem list + 'a) \<Rightarrow> string \<Rightarrow> ('w, 'a) act" where
  "look ho inspect message =
     step_bind (call (map_prod id Inr \<circ> ho_look ho)) (\<lambda>env. step_lift (map_sum (\<lambda>_. message) id (inspect env)))"

definition require_manifest :: "('w, 'h) host \<Rightarrow> planner \<Rightarrow> manifest_entry list \<Rightarrow> ('w, unit) act" where
  "require_manifest ho pl expected =
     step_bind (look ho (\<lambda>env. inspect_manifest env pl expected) ''Progress resources cannot be safely inspected.'')
       (\<lambda>actual. require (actual = expected) ''Resources differ from the proven Application state.'')"

definition inspect_manifest_path :: "('w, 'h) host \<Rightarrow> planner \<Rightarrow> path \<Rightarrow> ('w, manifest_entry) act" where
  "inspect_manifest_path ho pl p =
     step_bind (look ho (\<lambda>env. inspect_manifest_paths env pl [p]) ''A rollback resource cannot be inspected safely.'')
       (\<lambda>entries. case entries of [] \<Rightarrow> step_err ''A rollback resource manifest is missing.'' | e # _ \<Rightarrow> step_ok e)"

section \<open>The journal\<close>

definition progress_size_limit :: "('w, 'h) host \<Rightarrow> transaction_record \<Rightarrow> string + nat" where
  "progress_size_limit ho tx =
     (let count = length (tx_operations tx) + 1;
          size = ho_transaction_len ho tx * count * count * 4
      in if size \<le> u64_max then Inr size else Inl ''Commit evidence size bound overflowed.'')"

definition open_owned_artifacts :: "('w, 'h) host \<Rightarrow> planner \<Rightarrow> transaction_record \<Rightarrow> ('w, unit) act" where
  "open_owned_artifacts ho pl tx =
     step_then (require (tx_artifacts tx = join_name (tx_workspace_path tx) (''.lspctl-'' @ tx_id tx))
         ''Invalid transaction artifact location.'')
     (step_bind (step_lift (relative_path pl (tx_artifacts tx))) (\<lambda>relative.
      step_bind (call (ho_read_marker ho relative (length (tx_id tx) + 1))) (\<lambda>marker.
      require (marker = tx_id tx) ''Transaction artifact ownership is unavailable.'')))"

definition write_progress :: "('w, 'h) host \<Rightarrow> planner \<Rightarrow> transaction_record \<Rightarrow> commit_progress \<Rightarrow> ('w, unit) act" where
  "write_progress ho pl tx progress =
     step_then (open_owned_artifacts ho pl tx)
     (step_bind (step_lift (progress_size_limit ho tx)) (\<lambda>limit.
      step_then (require (ho_progress_len ho progress \<le> limit) ''Commit evidence exceeds its size bound.'')
      (call (ho_store_progress ho (tx_artifacts tx) progress))))"

text \<open>
  The identity an operation binds: that of its text or created file in the manifest after it.
\<close>

fun bound_identity :: "canonical_operation \<Rightarrow> manifest_entry list \<Rightarrow> string + string option" where
  "bound_identity (OpText _ _ p _ _ _) after = map_sum id me_identity (manifest_for_path after p)"
| "bound_identity (OpCreate _ _ p _ _) after = map_sum id me_identity (manifest_for_path after p)"
| "bound_identity _ after = Inr None"

text \<open>The loop over the recorded effects; the operations are at least as many.\<close>

fun check_effects ::
  "(string \<Rightarrow> string) \<Rightarrow> transaction_record \<Rightarrow> manifest_entry list \<Rightarrow> canonical_operation list \<Rightarrow> commit_effect list
     \<Rightarrow> (string + unit) option" where
  "check_effects sha tx expected ops [] = Some (Inr ())"
| "check_effects sha tx expected [] (effect # effects) = None"
| "check_effects sha tx expected (op # ops) (effect # effects) =
     (let before = add_undo_manifest tx op expected
      in if ef_index effect \<noteq> operation_index op \<or> ef_before effect \<noteq> before
         then Some (Inl ''Commit evidence has invalid operation order or preconditions.'')
         else case ef_after effect of
           None \<Rightarrow>
             if effects \<noteq> [] then Some (Inl ''Commit evidence advances past an uncertain operation.'')
             else Some (Inr ())
         | Some after \<Rightarrow>
             (case bound_identity op after of
                Inl f \<Rightarrow> Some (Inl f)
              | Inr identity \<Rightarrow>
                  (case operation_after sha tx op before after identity of
                     None \<Rightarrow> None
                   | Some (Inl f) \<Rightarrow> Some (Inl f)
                   | Some (Inr expected') \<Rightarrow>
                       if expected' \<noteq> after then Some (Inl ''Commit evidence has an impossible result.'')
                       else check_effects sha tx expected' ops effects)))"

definition check_progress :: "(string \<Rightarrow> string) \<Rightarrow> transaction_record \<Rightarrow> commit_progress \<Rightarrow> (string + unit) option" where
  "check_progress sha tx progress =
     (let binding = new_progress sha tx
      in if pr_version progress \<noteq> pr_version binding \<or> pr_transaction_id progress \<noteq> pr_transaction_id binding
            \<or> pr_operations_digest progress \<noteq> pr_operations_digest binding
            \<or> pr_before_digest progress \<noteq> pr_before_digest binding
            \<or> length (tx_operations tx) < length (pr_effects progress)
         then Some (Inl ''Commit evidence does not bind this transaction.'')
         else case initial_progress_manifest sha tx of
           None \<Rightarrow> None
         | Some expected \<Rightarrow> check_effects sha tx expected (tx_operations tx) (pr_effects progress))"

definition read_progress ::
  "('w, 'h) host \<Rightarrow> (string \<Rightarrow> string) \<Rightarrow> planner \<Rightarrow> transaction_record \<Rightarrow> ('w, commit_progress) act" where
  "read_progress ho sha pl tx =
     step_then (open_owned_artifacts ho pl tx)
     (step_bind (step_lift (progress_size_limit ho tx)) (\<lambda>limit.
      step_bind (call (ho_load_progress ho (tx_artifacts tx) limit)) (\<lambda>progress.
      case check_progress sha tx progress of
        None \<Rightarrow> step_panic
      | Some (Inl f) \<Rightarrow> step_err f
      | Some (Inr _) \<Rightarrow> step_ok progress)))"

section \<open>Effects\<close>

text \<open>A retained handle with the identity it had; the handles of what a rename or a deletion moves.\<close>

definition retain_move_handle :: "('w, 'h) host \<Rightarrow> planner \<Rightarrow> manifest_entry \<Rightarrow> ('w, 'h \<times> string) act" where
  "retain_move_handle ho pl expected =
     step_bind (step_lift (relative_path pl (me_path expected))) (\<lambda>relative.
     step_bind (call (ho_open ho ReadOnly relative)) (\<lambda>file.
     step_bind (call (ho_identity ho file)) (\<lambda>identity.
     step_then (require (me_identity expected = Some identity) ''Resource handle differs from commit preconditions.'')
     (step_ok (file, identity)))))"

fun moved_roots :: "canonical_operation \<Rightarrow> path list" where
  "moved_roots (OpRename _ _ _ old_path new_path _ _) = [old_path, new_path]"
| "moved_roots (OpDelete _ _ p _ _) = [p]"
| "moved_roots _ = []"

definition retain_effect_handles ::
  "('w, 'h) host \<Rightarrow> planner \<Rightarrow> canonical_operation \<Rightarrow> manifest_entry list \<Rightarrow> ('w, ('h \<times> string) list) act" where
  "retain_effect_handles ho pl op before =
     each (\<lambda>p. step_bind (step_lift (manifest_for_path before p)) (retain_move_handle ho pl))
       (filter (\<lambda>p. case manifest_for_path before p of Inr e \<Rightarrow> me_exists e | Inl _ \<Rightarrow> False) (moved_roots op))"

definition apply_text_operation ::
  "('w, 'h) host \<Rightarrow> (string \<Rightarrow> string) \<Rightarrow> planner \<Rightarrow> path \<Rightarrow> nat \<Rightarrow> path \<Rightarrow> string \<Rightarrow> string \<Rightarrow> string option
     \<Rightarrow> ('w, string option) act" where
  "apply_text_operation ho sha pl artifacts index p before_digest after_digest expected_identity =
     step_bind (step_lift (relative_path pl p)) (\<lambda>relative.
     step_bind (call (ho_open ho ReadWrite relative)) (\<lambda>file.
     step_bind (call (ho_accessed ho file)) (\<lambda>accessed.
     step_bind (call (ho_read_handle ho file)) (\<lambda>bytes.
     step_then (require (digest_raw_bytes sha bytes = before_digest) ''Text resource changed during commit.'')
     (step_bind (call (ho_read_file ho (staged_text_path artifacts index))) (\<lambda>result.
     step_then (require (digest_raw_bytes sha result = after_digest) ''Canonical text edit digest does not match.'')
     (step_bind (call (ho_identity ho file)) (\<lambda>identity.
     step_then (require (expected_identity = Some identity) ''Text resource was replaced before truncation.'')
     (step_bind (inspect_manifest_path ho pl p) (\<lambda>current.
     step_then (require (me_identity current = Some identity) ''Text resource was replaced before truncation.'')
     (step_then (call (ho_truncate ho file))
     (step_then (call (ho_write ho file result))
     (step_then (call (ho_sync ho file))
     (step_then (call (ho_set_accessed ho file accessed))
     (step_then (call (ho_sync ho file))
     (step_ok (Some identity)))))))))))))))))"

definition apply_create_operation ::
  "('w, 'h) host \<Rightarrow> planner \<Rightarrow> path \<Rightarrow> bool \<Rightarrow> bool \<Rightarrow> string option \<Rightarrow> ('w, string option) act" where
  "apply_create_operation ho pl p overwrite ignore_if_exists expected_identity =
     step_bind (step_lift (relative_path pl p)) (\<lambda>relative.
     step_bind (call (map_prod id Inr \<circ> ho_lstat ho relative)) (\<lambda>stat.
     if \<not> isl stat then
       (if overwrite then
          step_bind (call (ho_open ho WriteOnly relative)) (\<lambda>file.
          step_bind (call (ho_identity ho file)) (\<lambda>identity.
          step_then (require (expected_identity = Some identity) ''CreateFile target was replaced before truncation.'')
          (step_bind (inspect_manifest_path ho pl p) (\<lambda>current.
          step_then (require (me_identity current = Some identity) ''CreateFile target was replaced before truncation.'')
          (step_then (call (ho_truncate ho file))
          (step_then (call (ho_sync ho file))
          (step_ok (Some identity))))))))
        else if ignore_if_exists then step_ok None
        else step_err ''CreateFile target exists.'')
     else
       step_bind (call (ho_open ho CreateNew relative)) (\<lambda>file.
       step_bind (call (ho_identity ho file)) (\<lambda>identity.
       step_then (call (ho_sync ho file))
       (step_then (call (ho_flush_parent ho p))
       (step_ok (Some identity)))))))"

definition move_resource_to_undo :: "('w, 'h) host \<Rightarrow> planner \<Rightarrow> path \<Rightarrow> nat \<Rightarrow> path \<Rightarrow> ('w, unit) act" where
  "move_resource_to_undo ho pl artifacts index p =
     step_bind (step_lift (relative_path pl p)) (\<lambda>relative.
     step_bind (step_lift (relative_path pl (undo_resource_path artifacts index))) (\<lambda>undo.
     step_then (call (ho_rename ho relative undo))
     (step_then (call (ho_flush_parent ho p))
     (call (ho_flush_parent ho (undo_resource_path artifacts index))))))"

definition apply_rename_operation ::
  "('w, 'h) host \<Rightarrow> planner \<Rightarrow> path \<Rightarrow> nat \<Rightarrow> path \<Rightarrow> path \<Rightarrow> bool \<Rightarrow> bool \<Rightarrow> ('w, unit) act" where
  "apply_rename_operation ho pl artifacts index old_path new_path overwrite ignore_if_exists =
     step_bind (step_lift (relative_path pl old_path)) (\<lambda>old_relative.
     step_bind (step_lift (relative_path pl new_path)) (\<lambda>new_relative.
     let move = step_then (call (ho_rename ho old_relative new_relative))
                 (step_then (call (ho_flush_parent ho old_path))
                 (if parent old_path \<noteq> parent new_path then call (ho_flush_parent ho new_path) else step_ok ()))
     in step_bind (call (map_prod id Inr \<circ> ho_lstat ho new_relative)) (\<lambda>stat.
        if \<not> isl stat then
          (if overwrite then step_then (move_resource_to_undo ho pl artifacts index new_path) move
           else if ignore_if_exists then step_ok ()
           else step_err ''RenameFile destination exists.'')
        else move)))"

definition apply_delete_operation ::
  "('w, 'h) host \<Rightarrow> planner \<Rightarrow> path \<Rightarrow> nat \<Rightarrow> path \<Rightarrow> bool \<Rightarrow> bool \<Rightarrow> ('w, unit) act" where
  "apply_delete_operation ho pl artifacts index p recursive ignore_if_not_exists =
     step_bind (step_lift (relative_path pl p)) (\<lambda>relative.
     step_bind (call (map_prod id Inr \<circ> ho_lstat ho relative)) (\<lambda>stat.
     case stat of
       Inl _ \<Rightarrow> if ignore_if_not_exists then step_ok () else step_err ''DeleteFile target is missing.''
     | Inr is_dir \<Rightarrow>
         step_then
           (if is_dir \<and> \<not> recursive
            then step_bind (call (ho_first_entry ho relative)) (\<lambda>some_entry.
                   require (\<not> some_entry) ''DeleteFile directory is no longer empty.'')
            else step_ok ())
           (move_resource_to_undo ho pl artifacts index p)))"

fun apply_operation_effect ::
  "('w, 'h) host \<Rightarrow> (string \<Rightarrow> string) \<Rightarrow> planner \<Rightarrow> path \<Rightarrow> manifest_entry list \<Rightarrow> canonical_operation
     \<Rightarrow> ('w, string option) act" where
  "apply_operation_effect ho sha pl artifacts expected (OpText index _ p before_digest after_digest _) =
     step_bind (unwrap (manifest_for_path expected p)) (\<lambda>e.
       apply_text_operation ho sha pl artifacts index p before_digest after_digest (me_identity e))"
| "apply_operation_effect ho sha pl artifacts expected (OpCreate _ _ p overwrite ignore_if_exists) =
     step_bind (unwrap (manifest_for_path expected p)) (\<lambda>e.
       apply_create_operation ho pl p overwrite ignore_if_exists (me_identity e))"
| "apply_operation_effect ho sha pl artifacts expected (OpRename index _ _ old_path new_path overwrite ignore_if_exists) =
     step_then (apply_rename_operation ho pl artifacts index old_path new_path overwrite ignore_if_exists) (step_ok None)"
| "apply_operation_effect ho sha pl artifacts expected (OpDelete index _ p recursive ignore_if_not_exists) =
     step_then (apply_delete_operation ho pl artifacts index p recursive ignore_if_not_exists) (step_ok None)"

section \<open>The commit\<close>

definition check_handle :: "('w, 'h) host \<Rightarrow> 'h \<times> string \<Rightarrow> ('w, unit) act" where
  "check_handle ho retained =
     step_bind (call (ho_identity ho (fst retained))) (\<lambda>identity.
       require (identity = snd retained) ''A moved resource handle changed.'')"

definition complete_effect :: "commit_progress \<Rightarrow> manifest_entry list \<Rightarrow> commit_progress" where
  "complete_effect progress after =
     progress\<lparr>pr_effects := butlast (pr_effects progress) @ [(last (pr_effects progress))\<lparr>ef_after := Some after\<rparr>]\<rparr>"

text \<open>One iteration of the loop: the progress and the expected manifest after it.\<close>

definition commit_operation ::
  "('w, 'h) host \<Rightarrow> (string \<Rightarrow> string) \<Rightarrow> planner \<Rightarrow> transaction_record \<Rightarrow> (commit_progress \<Rightarrow> ('w, unit) act)
     \<Rightarrow> canonical_operation \<Rightarrow> commit_progress \<Rightarrow> manifest_entry list
     \<Rightarrow> ('w, commit_progress \<times> manifest_entry list) act" where
  "commit_operation ho sha pl tx persist op progress expected =
     (let before = add_undo_manifest tx op expected;
          pending = progress\<lparr>pr_effects := pr_effects progress
            @ [\<lparr>ef_index = operation_index op, ef_before = before, ef_after = None\<rparr>]\<rparr>
      in step_then (require_manifest ho pl before)
        (step_then (persist pending)
        (step_bind (retain_effect_handles ho pl op before) (\<lambda>retained.
         step_bind (apply_operation_effect ho sha pl (tx_artifacts tx) before op) (\<lambda>identity.
         step_then (each (check_handle ho) retained)
        (step_bind (look ho (\<lambda>env. inspect_manifest env pl before) ''Commit evidence cannot be inspected'') (\<lambda>observed.
         case operation_after sha tx op before observed identity of
           None \<Rightarrow> step_panic
         | Some (Inl f) \<Rightarrow> step_err f
         | Some (Inr after) \<Rightarrow>
             step_then (require_manifest ho pl after)
            (step_then (persist (complete_effect pending after))
             (step_ok (complete_effect pending after, after))))))))))"

text \<open>The error of a commit is the index of the operation that failed.\<close>

fun commit_each ::
  "('w, 'h) host \<Rightarrow> (string \<Rightarrow> string) \<Rightarrow> planner \<Rightarrow> transaction_record \<Rightarrow> (commit_progress \<Rightarrow> ('w, unit) act)
     \<Rightarrow> canonical_operation list \<Rightarrow> commit_progress \<Rightarrow> manifest_entry list
     \<Rightarrow> 'w \<Rightarrow> ('w \<times> (nat + commit_progress \<times> manifest_entry list)) option" where
  "commit_each ho sha pl tx persist [] progress expected w = Some (w, Inr (progress, expected))"
| "commit_each ho sha pl tx persist (op # ops) progress expected w =
     (case commit_operation ho sha pl tx persist op progress expected w of
        None \<Rightarrow> None
      | Some (w', Inl _) \<Rightarrow> Some (w', Inl (operation_index op))
      | Some (w', Inr (progress', expected')) \<Rightarrow> commit_each ho sha pl tx persist ops progress' expected' w')"

definition commit_operations_with_writer ::
  "('w, 'h) host \<Rightarrow> (string \<Rightarrow> string) \<Rightarrow> planner \<Rightarrow> transaction_record \<Rightarrow> (commit_progress \<Rightarrow> ('w, unit) act)
     \<Rightarrow> 'w \<Rightarrow> ('w \<times> (nat + unit)) option" where
  "commit_operations_with_writer ho sha pl tx persist w =
     (case initial_progress_manifest sha tx of
        None \<Rightarrow> None
      | Some expected \<Rightarrow>
          map_option (map_prod id (map_sum id (\<lambda>_. ())))
            (commit_each ho sha pl tx persist (tx_operations tx) (new_progress sha tx) expected w))"

definition commit_operations ::
  "('w, 'h) host \<Rightarrow> (string \<Rightarrow> string) \<Rightarrow> planner \<Rightarrow> transaction_record \<Rightarrow> 'w \<Rightarrow> ('w \<times> (nat + unit)) option" where
  "commit_operations ho sha pl tx = commit_operations_with_writer ho sha pl tx (write_progress ho pl tx)"

end
