(* ===== verification/Rollback_Run.thy ===== *)
theory Rollback_Run
  imports Commit_Run
begin

text \<open>
  \<open>mutation/application.rs\<close>: the rollback of a commit from its journal. The reverse of every completed
  effect is checked against the journal before the first byte changes, and each reverse step is checked
  again before and after it. Messages are the static texts of the code.
\<close>

section \<open>What to inspect\<close>

definition recertified :: "manifest_entry \<Rightarrow> (path, manifest_entry) btree \<Rightarrow> (path, manifest_entry) btree" where
  "recertified e template =
     (if me_kind e = DirectoryKind \<and> me_content e \<noteq> None \<and> bt_get template (me_path e) \<noteq> None
      then bt_insert (me_path e) e template else template)"

definition transaction_template :: "transaction_record \<Rightarrow> manifest_entry list" where
  "transaction_template tx =
     map snd (fold recertified (tx_before tx @ tx_intended tx @ tx_observed tx)
       (entries_by_path (tx_before tx @ tx_intended tx)))"

definition inspect_transaction_manifest ::
  "('w, 'h) host \<Rightarrow> planner \<Rightarrow> transaction_record \<Rightarrow> string \<Rightarrow> ('w, manifest_entry list) act" where
  "inspect_transaction_manifest ho pl tx message =
     look ho (\<lambda>env. inspect_manifest env pl (transaction_template tx)) message"

section \<open>Protected text\<close>

definition original_of :: "transaction_record \<Rightarrow> manifest_entry \<Rightarrow> manifest_entry option" where
  "original_of tx expected =
     List.find (\<lambda>e. me_exists e \<and> me_identity e = me_identity expected \<and> me_content e = me_content expected) (tx_before tx)"

definition read_original_backup ::
  "('w, 'h) host \<Rightarrow> (string \<Rightarrow> string) \<Rightarrow> planner \<Rightarrow> path \<Rightarrow> string \<Rightarrow> manifest_entry \<Rightarrow> ('w, string \<times> 'h option) act" where
  "read_original_backup ho sha pl p digest expected =
     step_bind (step_lift (relative_path pl p)) (\<lambda>relative.
     step_bind (call (ho_open ho ReadOnly relative)) (\<lambda>source.
     step_bind (call (ho_read_handle ho source)) (\<lambda>bytes.
     step_then (require (digest_raw_bytes sha bytes = digest) ''Original rollback backup content changed.'')
     (step_bind (inspect_manifest_path ho pl p) (\<lambda>actual.
      step_then (require (me_metadata actual = me_metadata expected) ''Original rollback backup metadata changed.'')
      (step_ok (bytes, Some source)))))))"

definition read_staged_text ::
  "('w, 'h) host \<Rightarrow> (string \<Rightarrow> string) \<Rightarrow> planner \<Rightarrow> path \<Rightarrow> string \<Rightarrow> ('w, string \<times> 'h option) act" where
  "read_staged_text ho sha pl p digest =
     step_bind (step_lift (relative_path pl p)) (\<lambda>relative.
     step_bind (call (ho_open ho ReadOnly relative)) (\<lambda>source.
     step_bind (call (ho_read_handle ho source)) (\<lambda>bytes.
     step_then (require (digest_raw_bytes sha bytes = digest) ''Intermediate rollback text changed.'')
     (step_ok (bytes, None)))))"

fun staged_index :: "string \<Rightarrow> canonical_operation list \<Rightarrow> nat option" where
  "staged_index digest [] = None"
| "staged_index digest (OpText index _ _ _ after_digest _ # ops) =
     (if after_digest = digest then Some index else staged_index digest ops)"
| "staged_index digest (_ # ops) = staged_index digest ops"

definition rollback_text_bytes ::
  "('w, 'h) host \<Rightarrow> (string \<Rightarrow> string) \<Rightarrow> planner \<Rightarrow> transaction_record \<Rightarrow> manifest_entry \<Rightarrow> ('w, string \<times> 'h option) act" where
  "rollback_text_bytes ho sha pl tx expected =
     (case me_content expected of
        None \<Rightarrow> step_err ''Missing undo text digest.''
      | Some digest \<Rightarrow>
          (case original_of tx expected of
             Some original \<Rightarrow>
               (case backup_path_for (tx_backups tx) (me_path original) of
                  None \<Rightarrow> step_err ''Missing original text backup.''
                | Some p \<Rightarrow> read_original_backup ho sha pl p digest expected)
           | None \<Rightarrow>
               if digest = digest_raw_bytes sha [] then step_ok ([], None)
               else case staged_index digest (tx_operations tx) of
                 Some index \<Rightarrow> read_staged_text ho sha pl (staged_text_path (tx_artifacts tx) index) digest
               | None \<Rightarrow> step_err ''No canonical content proves the intermediate text state.''))"

definition restore_proven_text ::
  "('w, 'h) host \<Rightarrow> (string \<Rightarrow> string) \<Rightarrow> planner \<Rightarrow> transaction_record \<Rightarrow> manifest_entry \<Rightarrow> manifest_entry \<Rightarrow> ('w, unit) act" where
  "restore_proven_text ho sha pl tx before after =
     step_bind (rollback_text_bytes ho sha pl tx before) (\<lambda>(bytes, backup).
     step_bind (step_lift (relative_path pl (me_path before))) (\<lambda>relative.
     step_bind (call (ho_open ho ReadWrite relative)) (\<lambda>output.
     step_bind (call (ho_identity ho output)) (\<lambda>identity.
     step_bind (call (ho_read_handle ho output)) (\<lambda>current.
     step_then (require (me_identity after = Some identity \<and> me_content after = Some (digest_raw_bytes sha current))
         ''Text changed before rollback truncation.'')
     (step_then (require_manifest ho pl [after])
     (step_then (call (ho_truncate ho output))
     (step_then (call (ho_write ho output bytes))
     (step_then (case backup of Some source \<Rightarrow> call (ho_copy_metadata ho source output) | None \<Rightarrow> step_ok ())
     (call (ho_sync ho output)))))))))))"

section \<open>Moves and removals\<close>

definition remove_capability_resource :: "('w, 'h) host \<Rightarrow> path \<Rightarrow> ('w, unit) act" where
  "remove_capability_resource ho relative =
     step_bind (call (ho_lstat ho relative)) (\<lambda>is_dir.
       if is_dir then call (ho_remove_dir_all ho relative) else call (ho_remove_file ho relative))"

definition rename_capability_resource ::
  "('w, 'h) host \<Rightarrow> planner \<Rightarrow> path \<Rightarrow> path \<Rightarrow> manifest_entry list \<Rightarrow> ('w, unit) act" where
  "rename_capability_resource ho pl from_path to_path proof_manifest =
     step_bind (step_lift (relative_path pl from_path)) (\<lambda>from_relative.
     step_bind (step_lift (relative_path pl to_path)) (\<lambda>to_relative.
     step_bind (step_lift (manifest_for_path proof_manifest from_path)) (\<lambda>source.
     step_then (require (me_exists source) ''The rollback rename source lacks proof.'')
     (step_then (require_manifest ho pl (sort_key me_path
         (filter (\<lambda>e. starts_with (me_path e) from_path) proof_manifest @ [missing_manifest to_path])))
     (step_then (call (ho_rename ho from_relative to_relative))
     (step_then (call (ho_flush_parent ho from_path))
     (if parent from_path \<noteq> parent to_path then call (ho_flush_parent ho to_path) else step_ok ())))))))"

section \<open>Preflight\<close>

text \<open>The effect recorded before the first one with an index.\<close>

definition effect_before :: "nat \<Rightarrow> commit_effect list \<Rightarrow> commit_effect option" where
  "effect_before index effects =
     (let earlier = takeWhile (\<lambda>e. ef_index e \<noteq> index) effects
      in if earlier = [] then None else Some (last earlier))"

definition retain_known :: "manifest_entry list \<Rightarrow> manifest_entry list \<Rightarrow> manifest_entry list" where
  "retain_known old entries = filter (\<lambda>e. list_ex (\<lambda>x. me_path x = me_path e) old) entries"

definition reverse_manifest :: "commit_effect list \<Rightarrow> commit_effect \<Rightarrow> manifest_entry list option" where
  "reverse_manifest effects effect =
     (case effect_before (ef_index effect) effects of
        None \<Rightarrow> Some (ef_before effect)
      | Some previous \<Rightarrow> map_option (\<lambda>old. retain_known old (ef_before effect)) (ef_after previous))"

fun written_path :: "canonical_operation \<Rightarrow> path option" where
  "written_path (OpText _ _ p _ _ _) = Some p"
| "written_path (OpCreate _ _ p _ _) = Some p"
| "written_path _ = None"

definition check_restorable ::
  "('w, 'h) host \<Rightarrow> (string \<Rightarrow> string) \<Rightarrow> planner \<Rightarrow> transaction_record \<Rightarrow> canonical_operation \<Rightarrow> commit_effect \<Rightarrow> ('w, unit) act" where
  "check_restorable ho sha pl tx op effect =
     (case written_path op of
        None \<Rightarrow> step_ok ()
      | Some p \<Rightarrow>
          step_bind (step_lift (manifest_for_path (ef_before effect) p)) (\<lambda>before.
          if me_exists before then step_bind (rollback_text_bytes ho sha pl tx before) (\<lambda>_. step_ok ()) else step_ok ()))"

fun preflight ::
  "('w, 'h) host \<Rightarrow> (string \<Rightarrow> string) \<Rightarrow> planner \<Rightarrow> transaction_record \<Rightarrow> commit_effect list
     \<Rightarrow> (canonical_operation \<times> commit_effect) list \<Rightarrow> manifest_entry list \<Rightarrow> ('w, manifest_entry list) act" where
  "preflight ho sha pl tx effects [] reversed = step_ok reversed"
| "preflight ho sha pl tx effects ((op, effect) # rest) reversed =
     (case ef_after effect of
        None \<Rightarrow> step_panic
      | Some after \<Rightarrow>
          step_then (require (reversed = after) ''Commit effects do not form an undo chain.'')
          (step_then (check_restorable ho sha pl tx op effect)
          (case reverse_manifest effects effect of
             None \<Rightarrow> step_panic
           | Some reversed' \<Rightarrow> preflight ho sha pl tx effects rest reversed')))"

section \<open>The reverse steps\<close>

fun undo_effect ::
  "('w, 'h) host \<Rightarrow> (string \<Rightarrow> string) \<Rightarrow> planner \<Rightarrow> transaction_record \<Rightarrow> canonical_operation \<Rightarrow> manifest_entry list
     \<Rightarrow> manifest_entry list \<Rightarrow> ('w, unit) act" where
  "undo_effect ho sha pl tx (OpRename index _ _ old_path new_path _ _) before after =
     (if before = after then step_ok ()
      else step_then (rename_capability_resource ho pl new_path old_path after)
        (let undo = undo_resource_path (tx_artifacts tx) index
         in step_bind (step_lift (manifest_for_path after undo)) (\<lambda>e.
            if me_exists e then rename_capability_resource ho pl undo new_path after else step_ok ())))"
| "undo_effect ho sha pl tx (OpDelete index _ p _ _) before after =
     (let undo = undo_resource_path (tx_artifacts tx) index
      in step_bind (step_lift (manifest_for_path after undo)) (\<lambda>e.
         if me_exists e then rename_capability_resource ho pl undo p after else step_ok ()))"
| "undo_effect ho sha pl tx op before after =
     (case written_path op of
        None \<Rightarrow> step_ok ()
      | Some p \<Rightarrow>
          step_bind (step_lift (manifest_for_path before p)) (\<lambda>b.
          step_bind (step_lift (manifest_for_path after p)) (\<lambda>a.
          if me_exists b then restore_proven_text ho sha pl tx b a
          else step_bind (step_lift (relative_path pl p)) (\<lambda>relative.
            step_then (remove_capability_resource ho relative) (call (ho_flush_parent ho p))))))"

text \<open>An unchanged text or created file skips the check after its step too.\<close>

definition unchanged_text :: "canonical_operation \<Rightarrow> manifest_entry list \<Rightarrow> manifest_entry list \<Rightarrow> bool" where
  "unchanged_text op before after \<longleftrightarrow>
     (case written_path op of
        None \<Rightarrow> False
      | Some p \<Rightarrow> (case (manifest_for_path before p, manifest_for_path after p) of
          (Inr b, Inr a) \<Rightarrow> b = a | _ \<Rightarrow> False))"

definition undo_operation ::
  "('w, 'h) host \<Rightarrow> (string \<Rightarrow> string) \<Rightarrow> planner \<Rightarrow> transaction_record \<Rightarrow> canonical_operation \<times> commit_effect \<Rightarrow> ('w, unit) act" where
  "undo_operation ho sha pl tx e =
     (case ef_after (snd e) of
        None \<Rightarrow> step_panic
      | Some after \<Rightarrow>
          step_then (require_manifest ho pl after)
          (if unchanged_text (fst e) (ef_before (snd e)) after then step_ok ()
           else step_then (undo_effect ho sha pl tx (fst e) (ef_before (snd e)) after)
             (require_manifest ho pl (ef_before (snd e)))))"

definition rollback_transaction ::
  "('w, 'h) host \<Rightarrow> (string \<Rightarrow> string) \<Rightarrow> planner \<Rightarrow> transaction_record \<Rightarrow> ('w, manifest_entry list) act" where
  "rollback_transaction ho sha pl tx =
     step_bind (inspect_transaction_manifest ho pl tx ''The partial filesystem is unsafe for automatic rollback'') (\<lambda>current.
     if manifest_mismatches (tx_before tx) current = [] then step_ok current
     else
       step_bind (read_progress ho sha pl tx) (\<lambda>progress.
       let effects = pr_effects progress; steps = rev (zip (tx_operations tx) effects)
       in step_then (require (list_all (\<lambda>e. ef_after e \<noteq> None) effects) ''An uncertain commit effect requires Recovery.'')
         (if effects = [] then step_err ''No completed Application effects are proven.''
          else case ef_after (last effects) of
            None \<Rightarrow> step_panic
          | Some final \<Rightarrow>
              step_then (require_manifest ho pl final)
             (step_bind (preflight ho sha pl tx effects steps final) (\<lambda>reversed.
              step_then (require (manifest_mismatches (tx_before tx) reversed = [])
                  ''Proven effects cannot restore the full before-manifest.'')
             (step_then (each (undo_operation ho sha pl tx) steps)
             (step_bind (inspect_transaction_manifest ho pl tx ''Restored state cannot be inspected.'') (\<lambda>current.
              step_then (require (manifest_mismatches (tx_before tx) current = [])
                  ''The rollback manifest does not match its preconditions.'')
              (step_ok current)))))))))"

end
