(* ===== verification/Commit_Journal.thy ===== *)
theory Commit_Journal
  imports Rollback_Run
begin

text \<open>
  What a commit writes, and when: every change of the filesystem follows the durable announcement of the
  operation it belongs to, and every journal that is written passes the validation of \<open>read_progress\<close>.
  The changes are read off a trace that an instrumented host keeps; the host beneath it is arbitrary.
\<close>

section \<open>Traces\<close>

datatype 'h event =
    Journaled commit_progress bool
  | Loaded commit_progress
  | Opened open_mode path 'h
  | Touched 'h
  | Moved path path
  | Removed path

definition traced :: "('w, 'h) host \<Rightarrow> ('w \<times> 'h event list, 'h) host" where
  "traced ho = \<lparr>
     ho_look = quiet (ho_look ho),
     ho_open = (\<lambda>m p. noting (\<lambda>r. case r of Inr h \<Rightarrow> [Opened m p h] | Inl _ \<Rightarrow> []) (ho_open ho m p)),
     ho_accessed = (\<lambda>h. quiet (ho_accessed ho h)),
     ho_read_handle = (\<lambda>h. quiet (ho_read_handle ho h)),
     ho_identity = (\<lambda>h. quiet (ho_identity ho h)),
     ho_truncate = (\<lambda>h. noting (\<lambda>_. [Touched h]) (ho_truncate ho h)),
     ho_write = (\<lambda>h b. noting (\<lambda>_. [Touched h]) (ho_write ho h b)),
     ho_sync = (\<lambda>h. quiet (ho_sync ho h)),
     ho_set_accessed = (\<lambda>h a. noting (\<lambda>_. [Touched h]) (ho_set_accessed ho h a)),
     ho_copy_metadata = (\<lambda>h g. noting (\<lambda>_. [Touched g]) (ho_copy_metadata ho h g)),
     ho_read_file = (\<lambda>p. quiet (ho_read_file ho p)),
     ho_lstat = (\<lambda>p. quiet (ho_lstat ho p)),
     ho_first_entry = (\<lambda>p. quiet (ho_first_entry ho p)),
     ho_rename = (\<lambda>p q. noting (\<lambda>_. [Moved p q]) (ho_rename ho p q)),
     ho_remove_file = (\<lambda>p. noting (\<lambda>_. [Removed p]) (ho_remove_file ho p)),
     ho_remove_dir_all = (\<lambda>p. noting (\<lambda>_. [Removed p]) (ho_remove_dir_all ho p)),
     ho_flush_parent = (\<lambda>p. quiet (ho_flush_parent ho p)),
     ho_read_marker = (\<lambda>p n. quiet (ho_read_marker ho p n)),
     ho_store_progress = (\<lambda>p progress. noting (\<lambda>r. [Journaled progress (\<not> isl r)]) (ho_store_progress ho p progress)),
     ho_load_progress = (\<lambda>p n. noting (\<lambda>r. case r of Inr progress \<Rightarrow> [Loaded progress] | Inl _ \<Rightarrow> []) (ho_load_progress ho p n)),
     ho_transaction_len = ho_transaction_len ho,
     ho_progress_len = ho_progress_len ho\<rparr>"

lemma traced_sel [simp]:
  "ho_look (traced ho) = quiet (ho_look ho)"
  "ho_open (traced ho) m p = noting (\<lambda>r. case r of Inr h \<Rightarrow> [Opened m p h] | Inl _ \<Rightarrow> []) (ho_open ho m p)"
  "ho_accessed (traced ho) h = quiet (ho_accessed ho h)"
  "ho_read_handle (traced ho) h = quiet (ho_read_handle ho h)"
  "ho_identity (traced ho) h = quiet (ho_identity ho h)"
  "ho_truncate (traced ho) h = noting (\<lambda>_. [Touched h]) (ho_truncate ho h)"
  "ho_write (traced ho) h b = noting (\<lambda>_. [Touched h]) (ho_write ho h b)"
  "ho_sync (traced ho) h = quiet (ho_sync ho h)"
  "ho_set_accessed (traced ho) h a = noting (\<lambda>_. [Touched h]) (ho_set_accessed ho h a)"
  "ho_copy_metadata (traced ho) h g = noting (\<lambda>_. [Touched g]) (ho_copy_metadata ho h g)"
  "ho_read_file (traced ho) p = quiet (ho_read_file ho p)"
  "ho_lstat (traced ho) p = quiet (ho_lstat ho p)"
  "ho_first_entry (traced ho) p = quiet (ho_first_entry ho p)"
  "ho_rename (traced ho) p q = noting (\<lambda>_. [Moved p q]) (ho_rename ho p q)"
  "ho_remove_file (traced ho) p = noting (\<lambda>_. [Removed p]) (ho_remove_file ho p)"
  "ho_remove_dir_all (traced ho) p = noting (\<lambda>_. [Removed p]) (ho_remove_dir_all ho p)"
  "ho_flush_parent (traced ho) p = quiet (ho_flush_parent ho p)"
  "ho_read_marker (traced ho) p n = quiet (ho_read_marker ho p n)"
  "ho_store_progress (traced ho) p progress = noting (\<lambda>r. [Journaled progress (\<not> isl r)]) (ho_store_progress ho p progress)"
  "ho_load_progress (traced ho) p n = noting (\<lambda>r. case r of Inr progress \<Rightarrow> [Loaded progress] | Inl _ \<Rightarrow> []) (ho_load_progress ho p n)"
  "ho_transaction_len (traced ho) = ho_transaction_len ho"
  "ho_progress_len (traced ho) = ho_progress_len ho"
  by (simp_all add: traced_def)

section \<open>The write-ahead discipline\<close>

text \<open>
  Reading a trace: the operation announced last, if its effect is still pending, and the path each
  handle was opened at. A change that no announced operation covers is a violation, \<open>None\<close>.
\<close>

type_synonym 'h journal_state = "canonical_operation list \<times> ('h \<times> path) list"

definition announced :: "transaction_record \<Rightarrow> commit_progress \<Rightarrow> canonical_operation list" where
  "announced tx progress =
     (if pr_effects progress \<noteq> [] \<and> ef_after (last (pr_effects progress)) = None
        \<and> length (pr_effects progress) \<le> length (tx_operations tx)
      then [tx_operations tx ! (length (pr_effects progress) - 1)] else [])"

fun operation_paths :: "transaction_record \<Rightarrow> canonical_operation \<Rightarrow> path list" where
  "operation_paths tx (OpText _ _ p _ _ _) = [p]"
| "operation_paths tx (OpCreate _ _ p _ _) = [p]"
| "operation_paths tx (OpRename index _ _ old_path new_path _ _) =
     [old_path, new_path, undo_resource_path (tx_artifacts tx) index]"
| "operation_paths tx (OpDelete index _ p _ _) = [p, undo_resource_path (tx_artifacts tx) index]"

definition covers :: "planner \<Rightarrow> transaction_record \<Rightarrow> canonical_operation list \<Rightarrow> path \<Rightarrow> bool" where
  "covers pl tx ops r \<longleftrightarrow> list_ex (\<lambda>op. list_ex (\<lambda>p. relative_path pl p = Inr r) (operation_paths tx op)) ops"

lemma covers_path: "p \<in> set (operation_paths tx op) \<Longrightarrow> op \<in> set ops \<Longrightarrow> relative_path pl p = Inr r \<Longrightarrow> covers pl tx ops r"
  unfolding covers_def list_ex_iff by blast

text \<open>
  The operations a loaded journal proves complete, if a rollback may rely on it: it is valid, no effect
  is uncertain, and its effects form an undo chain that ends in the manifest before the transaction.
\<close>

fun undo_chain :: "commit_effect list \<Rightarrow> commit_effect list \<Rightarrow> manifest_entry list \<Rightarrow> manifest_entry list option" where
  "undo_chain effects [] reversed = Some reversed"
| "undo_chain effects (effect # rest) reversed =
     (if ef_after effect \<noteq> Some reversed then None
      else Option.bind (reverse_manifest effects effect) (undo_chain effects rest))"

definition restorable :: "transaction_record \<Rightarrow> commit_effect list \<Rightarrow> bool" where
  "restorable tx effects \<longleftrightarrow> effects \<noteq> [] \<and> list_all (\<lambda>e. ef_after e \<noteq> None) effects
     \<and> (case undo_chain effects (rev effects) (the (ef_after (last effects))) of
          None \<Rightarrow> False | Some reversed \<Rightarrow> manifest_mismatches (tx_before tx) reversed = [])"

definition proven_operations :: "(string \<Rightarrow> string) \<Rightarrow> transaction_record \<Rightarrow> commit_progress \<Rightarrow> canonical_operation list" where
  "proven_operations sha tx progress =
     (if check_progress sha tx progress = Some (Inr ()) \<and> restorable tx (pr_effects progress)
      then take (length (pr_effects progress)) (tx_operations tx) else [])"

fun follow_event :: "(string \<Rightarrow> string) \<Rightarrow> planner \<Rightarrow> transaction_record \<Rightarrow> 'h event \<Rightarrow> 'h journal_state \<Rightarrow> 'h journal_state option" where
  "follow_event sha pl tx (Journaled progress stored) (op, handles) =
     Some (if stored then announced tx progress else [], handles)"
| "follow_event sha pl tx (Loaded progress) (op, handles) =
     Some (proven_operations sha tx progress, handles)"
| "follow_event sha pl tx (Opened m r h) (op, handles) =
     (if m = CreateNew \<and> \<not> covers pl tx op r then None else Some (op, (h, r) # handles))"
| "follow_event sha pl tx (Touched h) (op, handles) =
     (case map_of handles h of
        Some r \<Rightarrow> if covers pl tx op r then Some (op, handles) else None
      | None \<Rightarrow> None)"
| "follow_event sha pl tx (Moved r r') (op, handles) =
     (if covers pl tx op r \<and> covers pl tx op r' then Some (op, handles) else None)"
| "follow_event sha pl tx (Removed r) (op, handles) = (if covers pl tx op r then Some (op, handles) else None)"

fun follow :: "(string \<Rightarrow> string) \<Rightarrow> planner \<Rightarrow> transaction_record \<Rightarrow> 'h event list \<Rightarrow> 'h journal_state \<Rightarrow> 'h journal_state option" where
  "follow sha pl tx [] st = Some st"
| "follow sha pl tx (e # es) st = Option.bind (follow_event sha pl tx e st) (follow sha pl tx es)"

definition write_ahead :: "(string \<Rightarrow> string) \<Rightarrow> planner \<Rightarrow> transaction_record \<Rightarrow> 'h event list \<Rightarrow> bool" where
  "write_ahead sha pl tx l \<longleftrightarrow> follow sha pl tx l ([], []) \<noteq> None"

lemma follow_append: "follow sha pl tx (xs @ ys) st = Option.bind (follow sha pl tx xs st) (follow sha pl tx ys)"
proof (induction xs arbitrary: st)
  case (Cons x xs)
  show ?case by (cases "follow_event sha pl tx x st") (simp_all add: Cons.IH)
qed simp

text \<open>The world of the traced host: where its trace stands, and what it journaled.\<close>

fun valid_event :: "(string \<Rightarrow> string) \<Rightarrow> transaction_record \<Rightarrow> 'h event \<Rightarrow> bool" where
  "valid_event sha tx (Journaled progress stored) \<longleftrightarrow> check_progress sha tx progress = Some (Inr ())"
| "valid_event sha tx _ \<longleftrightarrow> True"

definition at_state ::
  "(string \<Rightarrow> string) \<Rightarrow> planner \<Rightarrow> transaction_record \<Rightarrow> 'h journal_state \<Rightarrow> 'w \<times> 'h event list \<Rightarrow> bool" where
  "at_state sha pl tx st w \<longleftrightarrow> follow sha pl tx (snd w) ([], []) = Some st
     \<and> list_all (valid_event sha tx) (snd w)"

definition disciplined :: "(string \<Rightarrow> string) \<Rightarrow> planner \<Rightarrow> transaction_record \<Rightarrow> 'w \<times> 'h event list \<Rightarrow> bool" where
  "disciplined sha pl tx w \<longleftrightarrow> (\<exists>st. at_state sha pl tx st w)"

lemma disciplined_at [simp]: "at_state sha pl tx st w \<Longrightarrow> disciplined sha pl tx w"
  unfolding disciplined_def by blast

lemma upholds_quiet:
  "upholds (disciplined sha pl tx) (at_state sha pl tx st) (call (quiet f)) (\<lambda>_. at_state sha pl tx st)"
proof (rule upholds_call)
  fix w w' r assume w: "at_state sha pl tx st w" "quiet f w = (w', r)"
  then have "at_state sha pl tx st w'" by (auto simp: quiet_def at_state_def split: prod.splits)
  then show "case r of Inl _ \<Rightarrow> disciplined sha pl tx w' | Inr _ \<Rightarrow> at_state sha pl tx st w'" by (simp split: sum.splits)
qed

lemma at_state_event:
  "at_state sha pl tx st (w, l) \<Longrightarrow> follow_event sha pl tx e st = Some st' \<Longrightarrow> valid_event sha tx e
     \<Longrightarrow> at_state sha pl tx st' (w', l @ [e])"
  by (simp add: at_state_def follow_append)

lemma upholds_touch:
  assumes "follow_event sha pl tx e st = Some st" "valid_event sha tx e"
  shows "upholds (disciplined sha pl tx) (at_state sha pl tx st) (call (noting (\<lambda>_. [e]) f)) (\<lambda>_. at_state sha pl tx st)"
proof (rule upholds_call)
  fix w w' r assume w: "at_state sha pl tx st w" "noting (\<lambda>_. [e]) f w = (w', r)"
  obtain v l where "w = (v, l)" by (cases w)
  with w at_state_event [OF _ assms, of v l] have "at_state sha pl tx st w'"
    by (auto simp: noting_def split: prod.splits)
  then show "case r of Inl _ \<Rightarrow> disciplined sha pl tx w' | Inr a \<Rightarrow> at_state sha pl tx st w'"
    by (simp split: sum.splits)
qed

lemma upholds_open:
  assumes "m = CreateNew \<longrightarrow> covers pl tx op r"
  shows "upholds (disciplined sha pl tx) (at_state sha pl tx (op, hs)) (call (ho_open (traced ho) m r))
           (\<lambda>h. at_state sha pl tx (op, (h, r) # hs))"
proof (rule upholds_call)
  fix w w' x assume w: "at_state sha pl tx (op, hs) w" "ho_open (traced ho) m r w = (w', x)"
  obtain v l where v: "w = (v, l)" by (cases w)
  obtain v' where o: "ho_open ho m r v = (v', x)" "w' = (v', l @ (case x of Inr h \<Rightarrow> [Opened m r h] | Inl _ \<Rightarrow> []))"
    using w(2) v by (auto simp: noting_def split: prod.splits)
  show "case x of Inl _ \<Rightarrow> disciplined sha pl tx w' | Inr h \<Rightarrow> at_state sha pl tx (op, (h, r) # hs) w'"
  proof (cases x)
    case (Inl e)
    have "at_state sha pl tx (op, hs) w'" using w(1) v o Inl by (simp add: at_state_def)
    with Inl show ?thesis by simp
  next
    case (Inr h)
    with at_state_event [OF w(1) [unfolded v], of "Opened m r h" "(op, (h, r) # hs)" v'] assms o show ?thesis by simp
  qed
qed

text \<open>Actions that leave the trace where it stands.\<close>

named_theorems still_rules "actions that leave a trace where it stands"

abbreviation still ::
  "(string \<Rightarrow> string) \<Rightarrow> planner \<Rightarrow> transaction_record \<Rightarrow> 'h journal_state \<Rightarrow> ('w \<times> 'h event list, 'a) act \<Rightarrow> bool" where
  "still sha pl tx st m \<equiv> upholds (disciplined sha pl tx) (at_state sha pl tx st) m (\<lambda>_. at_state sha pl tx st)"

lemma quiet_map: "map_prod id g \<circ> quiet f = quiet (map_prod id g \<circ> f)"
  by (auto simp: quiet_def fun_eq_iff split: prod.splits)

lemma still_quiet [still_rules]: "still sha pl tx st (call (quiet f))"
  by (rule upholds_quiet)

lemma still_quiet_map [still_rules]: "still sha pl tx st (call (map_prod id g \<circ> quiet f))"
  unfolding quiet_map by (rule upholds_quiet)

lemma still_bind [still_rules]:
  "still sha pl tx st m \<Longrightarrow> (\<And>a. still sha pl tx st (f a)) \<Longrightarrow> still sha pl tx st (step_bind m f)"
  by (rule upholds_bind)

lemma still_then [still_rules]: "still sha pl tx st m \<Longrightarrow> still sha pl tx st k \<Longrightarrow> still sha pl tx st (step_then m k)"
  by (rule upholds_then)

lemma still_basic [still_rules]:
  "still sha pl tx st (step_ok a)" "still sha pl tx st (step_err e)" "still sha pl tx st step_panic"
  "still sha pl tx st (step_lift r)" "still sha pl tx st (require c message)" "still sha pl tx st (unwrap r')"
  by (auto intro: upholds_ok upholds_err upholds_panic upholds_lift upholds_require upholds_unwrap)

lemma still_each [still_rules]: "(\<And>x. still sha pl tx st (f x)) \<Longrightarrow> still sha pl tx st (each f xs)"
  by (rule upholds_each)

lemma still_touch:
  "follow_event sha pl tx e st = Some st \<Longrightarrow> valid_event sha tx e \<Longrightarrow> still sha pl tx st (call (noting (\<lambda>_. [e]) f))"
  by (rule upholds_touch)

lemma look_still [still_rules]: "still sha pl tx st (look (traced ho) inspect message)"
  unfolding look_def traced_sel by (intro still_rules)

lemma require_manifest_still [still_rules]: "still sha pl tx st (require_manifest (traced ho) p expected)"
  unfolding require_manifest_def by (intro still_rules)

lemma inspect_manifest_path_still [still_rules]: "still sha pl tx st (inspect_manifest_path (traced ho) p q)"
  unfolding inspect_manifest_path_def by (intro still_rules) (auto split: list.split intro: still_rules)

lemma open_owned_artifacts_still [still_rules]: "still sha pl tx st (open_owned_artifacts (traced ho) p tx')"
  unfolding open_owned_artifacts_def traced_sel by (intro still_rules)

lemma check_handle_still [still_rules]: "still sha pl tx st (check_handle (traced ho) retained)"
  unfolding check_handle_def traced_sel by (intro still_rules)

section \<open>Effects under an announced operation\<close>

definition during ::
  "(string \<Rightarrow> string) \<Rightarrow> planner \<Rightarrow> transaction_record \<Rightarrow> canonical_operation list \<Rightarrow> 'w \<times> 'h event list \<Rightarrow> bool" where
  "during sha pl tx op w \<longleftrightarrow> (\<exists>handles. at_state sha pl tx (op, handles) w)"

abbreviation within ::
  "(string \<Rightarrow> string) \<Rightarrow> planner \<Rightarrow> transaction_record \<Rightarrow> canonical_operation list \<Rightarrow> ('w \<times> 'h event list, 'a) act \<Rightarrow> bool" where
  "within sha pl tx op m \<equiv> upholds (disciplined sha pl tx) (during sha pl tx op) m (\<lambda>_. during sha pl tx op)"

lemma during_at: "at_state sha pl tx (op, handles) w \<Longrightarrow> during sha pl tx op w"
  unfolding during_def by blast

lemma during_disciplined: "during sha pl tx op w \<Longrightarrow> disciplined sha pl tx w"
  unfolding during_def disciplined_def by blast

lemma upholds_during:
  assumes "\<And>handles. upholds (disciplined sha pl tx) (at_state sha pl tx (op, handles)) m Q"
  shows "upholds (disciplined sha pl tx) (during sha pl tx op) m Q"
  using assms unfolding upholds_def during_def by blast

lemma within_still: "(\<And>handles. still sha pl tx (op, handles) m) \<Longrightarrow> within sha pl tx op m"
proof (rule upholds_during)
  fix handles assume *: "\<And>handles. still sha pl tx (op, handles) m"
  show "upholds (disciplined sha pl tx) (at_state sha pl tx (op, handles)) m (\<lambda>_. during sha pl tx op)"
    by (rule upholds_mono [OF * [of handles]], assumption, erule during_at, assumption)
qed

lemma within_bind: "within sha pl tx op m \<Longrightarrow> (\<And>a. within sha pl tx op (f a)) \<Longrightarrow> within sha pl tx op (step_bind m f)"
  by (rule upholds_bind)

lemma within_then: "within sha pl tx op m \<Longrightarrow> within sha pl tx op k \<Longrightarrow> within sha pl tx op (step_then m k)"
  by (rule upholds_then)

lemma within_lift:
  "(\<And>a. r = Inr a \<Longrightarrow> within sha pl tx op (f a)) \<Longrightarrow> within sha pl tx op (step_bind (step_lift r) f)"
  by (cases r) (auto simp: upholds_def step_bind_def step_lift_def during_disciplined)

lemma within_unwrap:
  "(\<And>a. r = Inr a \<Longrightarrow> within sha pl tx op (f a)) \<Longrightarrow> within sha pl tx op (step_bind (unwrap r) f)"
  by (cases r) (auto simp: upholds_def step_bind_def unwrap_def step_panic_def step_ok_def)

text \<open>Opening a file and working on its handle.\<close>

lemma within_open:
  assumes "m = CreateNew \<longrightarrow> covers pl tx op r"
    and "\<And>h handles. map_of handles h = Some r \<Longrightarrow> still sha pl tx (op, handles) (f h)"
  shows "within sha pl tx op (step_bind (call (ho_open (traced ho) m r)) f)"
proof (rule upholds_during, rule upholds_bind [OF upholds_open [OF assms(1)]])
  fix handles h
  show "upholds (disciplined sha pl tx) (at_state sha pl tx (op, (h, r) # handles)) (f h) (\<lambda>_. during sha pl tx op)"
    by (rule upholds_mono [OF assms(2)]) (auto intro: during_at)
qed

lemma touch_handle:
  assumes "map_of handles h = Some r" "covers pl tx op r"
  shows "still sha pl tx (op, handles) (call (ho_truncate (traced ho) h))"
    "still sha pl tx (op, handles) (call (ho_write (traced ho) h b))"
    "still sha pl tx (op, handles) (call (ho_set_accessed (traced ho) h a))"
  unfolding traced_sel by (rule still_touch; use assms in simp)+

lemma move_covered:
  "covers pl tx op r \<Longrightarrow> covers pl tx op r' \<Longrightarrow> still sha pl tx (op, handles) (call (ho_rename (traced ho) r r'))"
  unfolding traced_sel by (rule still_touch) simp_all

lemma retain_effect_handles_within: "within sha pl tx op (retain_effect_handles (traced ho) pl op' before)"
  unfolding retain_effect_handles_def
proof (rule upholds_each)
  have retain: "within sha pl tx op (retain_move_handle (traced ho) pl e)" for e
    unfolding retain_move_handle_def
    by (rule within_lift, rule within_open) (auto simp del: traced_sel(2) intro!: still_rules simp: traced_sel(5))
  show "within sha pl tx op (step_bind (step_lift (manifest_for_path before p)) (retain_move_handle (traced ho) pl))" for p
    by (rule within_lift, rule retain)
qed

lemma apply_text_within:
  fixes ho :: "('w, 'h) host"
  assumes "p \<in> set (operation_paths tx op)"
  shows "within sha pl tx [op] (apply_text_operation (traced ho) sha pl artifacts index p d1 d2 identity)"
  unfolding apply_text_operation_def
proof (rule within_lift, rule within_open)
  fix relative and h :: 'h and handles assume r: "relative_path pl p = Inr relative" "map_of handles h = Some relative"
  have c: "covers pl tx [op] relative" using assms r(1) by (auto intro: covers_path)
  note t = touch_handle [OF r(2) c]
  show "still sha pl tx ([op], handles) (step_bind (call (ho_accessed (traced ho) h)) (\<lambda>accessed.
     step_bind (call (ho_read_handle (traced ho) h)) (\<lambda>bytes.
     step_then (require (digest_raw_bytes sha bytes = d1) ''Text resource changed during commit.'')
     (step_bind (call (ho_read_file (traced ho) (staged_text_path artifacts index))) (\<lambda>result.
     step_then (require (digest_raw_bytes sha result = d2) ''Canonical text edit digest does not match.'')
     (step_bind (call (ho_identity (traced ho) h)) (\<lambda>i.
     step_then (require (identity = Some i) ''Text resource was replaced before truncation.'')
     (step_bind (inspect_manifest_path (traced ho) pl p) (\<lambda>current.
     step_then (require (me_identity current = Some i) ''Text resource was replaced before truncation.'')
     (step_then (call (ho_truncate (traced ho) h))
     (step_then (call (ho_write (traced ho) h result))
     (step_then (call (ho_sync (traced ho) h))
     (step_then (call (ho_set_accessed (traced ho) h accessed))
     (step_then (call (ho_sync (traced ho) h))
     (step_ok (Some i))))))))))))))))"
    by (intro still_bind still_then t still_basic inspect_manifest_path_still) (simp_all add: still_quiet)
qed simp

lemma apply_create_within:
  assumes "p \<in> set (operation_paths tx op)"
  shows "within sha pl tx [op] (apply_create_operation (traced ho) pl p overwrite ignore identity)"
  unfolding apply_create_operation_def
proof (rule within_lift, rule within_bind)
  fix relative stat assume r: "relative_path pl p = Inr relative"
  have c: "covers pl tx [op] relative" using assms r(1) by (auto intro: covers_path)
  show "within sha pl tx [op] (if \<not> isl stat then
       (if overwrite then
          step_bind (call (ho_open (traced ho) WriteOnly relative)) (\<lambda>file.
          step_bind (call (ho_identity (traced ho) file)) (\<lambda>i.
          step_then (require (identity = Some i) ''CreateFile target was replaced before truncation.'')
          (step_bind (inspect_manifest_path (traced ho) pl p) (\<lambda>current.
          step_then (require (me_identity current = Some i) ''CreateFile target was replaced before truncation.'')
          (step_then (call (ho_truncate (traced ho) file))
          (step_then (call (ho_sync (traced ho) file))
          (step_ok (Some i))))))))
        else if ignore then step_ok None
        else step_err ''CreateFile target exists.'')
     else
       step_bind (call (ho_open (traced ho) CreateNew relative)) (\<lambda>file.
       step_bind (call (ho_identity (traced ho) file)) (\<lambda>i.
       step_then (call (ho_sync (traced ho) file))
       (step_then (call (ho_flush_parent (traced ho) p))
       (step_ok (Some i))))))"
    using c
    by (intro upholds_if within_open within_still still_bind still_then still_basic inspect_manifest_path_still touch_handle)
      (simp_all add: still_quiet)
qed (rule within_still, simp add: still_quiet_map)

lemma move_to_undo_within:
  assumes "p \<in> set (operation_paths tx op)" "undo_resource_path artifacts index \<in> set (operation_paths tx op)"
  shows "within sha pl tx [op] (move_resource_to_undo (traced ho) pl artifacts index p)"
  unfolding move_resource_to_undo_def
proof (rule within_lift, rule within_lift, rule within_still)
  fix relative undo handles
  assume "relative_path pl p = Inr relative" "relative_path pl (undo_resource_path artifacts index) = Inr undo"
  with assms have "covers pl tx [op] relative" "covers pl tx [op] undo"
    by (auto intro: covers_path)
  then show "still sha pl tx ([op], handles) (step_then (call (ho_rename (traced ho) relative undo))
     (step_then (call (ho_flush_parent (traced ho) p)) (call (ho_flush_parent (traced ho) (undo_resource_path artifacts index)))))"
    by (intro still_then move_covered) (simp_all add: still_quiet)
qed

lemma apply_rename_within:
  assumes "old \<in> set (operation_paths tx op)" "new \<in> set (operation_paths tx op)"
    "undo_resource_path artifacts index \<in> set (operation_paths tx op)"
  shows "within sha pl tx [op] (apply_rename_operation (traced ho) pl artifacts index old new overwrite ignore)"
  unfolding apply_rename_operation_def Let_def
proof (rule within_lift, rule within_lift, rule within_bind)
  fix r r' stat assume rel: "relative_path pl old = Inr r" "relative_path pl new = Inr r'"
  have c: "covers pl tx [op] r" "covers pl tx [op] r'"
    using assms rel by (auto intro: covers_path)
  have move: "within sha pl tx [op] (step_then (call (ho_rename (traced ho) r r'))
      (step_then (call (ho_flush_parent (traced ho) old))
        (if parent old \<noteq> parent new then call (ho_flush_parent (traced ho) new) else step_ok ())))"
    using c by (intro within_still still_then move_covered upholds_if) (simp_all add: still_quiet still_basic)
  show "within sha pl tx [op] (if \<not> isl stat then
      (if overwrite then step_then (move_resource_to_undo (traced ho) pl artifacts index new)
          (step_then (call (ho_rename (traced ho) r r')) (step_then (call (ho_flush_parent (traced ho) old))
            (if parent old \<noteq> parent new then call (ho_flush_parent (traced ho) new) else step_ok ())))
       else if ignore then step_ok () else step_err ''RenameFile destination exists.'')
      else step_then (call (ho_rename (traced ho) r r')) (step_then (call (ho_flush_parent (traced ho) old))
            (if parent old \<noteq> parent new then call (ho_flush_parent (traced ho) new) else step_ok ())))"
    using move within_then [OF move_to_undo_within [OF assms(2,3)] move]
    by (auto intro!: within_still still_basic)
qed (rule within_still, simp add: still_quiet_map)

lemma apply_delete_within:
  assumes "p \<in> set (operation_paths tx op)" "undo_resource_path artifacts index \<in> set (operation_paths tx op)"
  shows "within sha pl tx [op] (apply_delete_operation (traced ho) pl artifacts index p recursive ignore)"
  unfolding apply_delete_operation_def
proof (rule within_lift, rule within_bind)
  fix relative stat
  have "within sha pl tx [op] (step_then
      (if is_dir \<and> \<not> recursive
       then step_bind (call (ho_first_entry (traced ho) relative)) (\<lambda>some_entry.
              require (\<not> some_entry) ''DeleteFile directory is no longer empty.'') else step_ok ())
      (move_resource_to_undo (traced ho) pl artifacts index p))" for is_dir
    by (intro within_then move_to_undo_within [OF assms] upholds_if within_still still_bind still_basic)
      (simp_all add: still_quiet)
  then show "within sha pl tx [op] (case stat of
       Inl _ \<Rightarrow> if ignore then step_ok () else step_err ''DeleteFile target is missing.''
     | Inr is_dir \<Rightarrow> step_then
         (if is_dir \<and> \<not> recursive
          then step_bind (call (ho_first_entry (traced ho) relative)) (\<lambda>some_entry.
                 require (\<not> some_entry) ''DeleteFile directory is no longer empty.'') else step_ok ())
         (move_resource_to_undo (traced ho) pl artifacts index p))"
    by (auto intro!: within_still still_basic split: sum.split)
qed (rule within_still, simp add: still_quiet_map)

lemma apply_operation_within:
  "within sha pl tx [op] (apply_operation_effect (traced ho) sha pl (tx_artifacts tx) expected op)"
proof (cases op)
  case (OpText index uri p d1 d2 es)
  then show ?thesis by (simp, intro within_unwrap apply_text_within) simp
next
  case (OpCreate index uri p o1 o2)
  then show ?thesis by (simp, intro within_unwrap apply_create_within) simp
next
  case (OpRename index u1 u2 old new o1 o2)
  then show ?thesis
    by (simp, intro within_then [OF apply_rename_within within_still [OF still_basic(1)]]) simp_all
next
  case (OpDelete index uri p o1 o2)
  then show ?thesis
    by (simp, intro within_then [OF apply_delete_within within_still [OF still_basic(1)]]) simp_all
qed

end
