(* ===== verification/Commit_Laws.thy ===== *)
theory Commit_Laws
  imports Commit_Journal
begin

text \<open>
  The journal of a commit: every entry a commit writes passes the validation that reads it back, and
  the writes of the commit follow its announcements.
\<close>

section \<open>Refreshed manifests\<close>

definition same_resource :: "manifest_entry \<Rightarrow> manifest_entry \<Rightarrow> bool" where
  "same_resource e a \<longleftrightarrow> me_path a = me_path e \<and> me_exists a = me_exists e \<and> me_kind a = me_kind e
     \<and> me_identity a = me_identity e \<and> me_metadata a = me_metadata e
     \<and> (me_content a = None \<longleftrightarrow> me_content e = None) \<and> (me_kind e \<noteq> DirectoryKind \<longrightarrow> a = e)"

lemma refresh_entry_same: "refresh_entry sha entries e = Some a \<Longrightarrow> same_resource e a"
  by (auto simp: refresh_entry_def same_resource_def split: if_splits)

lemma those_map_all2: "those (map f xs) = Some ys \<Longrightarrow> list_all2 (\<lambda>x y. f x = Some y) xs ys"
  by (induction xs arbitrary: ys) (auto split: option.splits)

lemma refresh_membership_same: "refresh_membership sha entries = Some after \<Longrightarrow> list_all2 same_resource entries after"
  unfolding refresh_membership_def
  by (drule those_map_all2) (auto elim!: list_all2_mono dest: refresh_entry_same)

lemma find_refreshed:
  "list_all2 same_resource entries after \<Longrightarrow> List.find (\<lambda>e. me_path e = p) entries = Some e
     \<Longrightarrow> \<exists>a. List.find (\<lambda>e. me_path e = p) after = Some a \<and> same_resource e a"
proof (induction entries arbitrary: after)
  case (Cons x entries)
  then obtain y rest where "after = y # rest" "same_resource x y" "list_all2 same_resource entries rest"
    by (auto simp: list_all2_Cons1)
  with Cons show ?case by (auto simp: same_resource_def split: if_splits)
qed simp

section \<open>Entries keyed by their path\<close>

definition keyed :: "(path, manifest_entry) btree \<Rightarrow> bool" where
  "keyed E \<longleftrightarrow> bt_ok E \<and> (\<forall>p e. bt_get E p = Some e \<longrightarrow> me_path e = p)"

lemma keyed_insert: "keyed E \<Longrightarrow> me_path e = p \<Longrightarrow> keyed (bt_insert p e E)"
  by (simp add: keyed_def)

lemma keyed_by_path [simp]: "keyed (entries_by_path entries)"
proof -
  have "keyed E \<Longrightarrow> keyed (fold (\<lambda>(k, v). bt_insert k v) (map (\<lambda>e. (me_path e, e)) es) E)" for E es
    by (induction es arbitrary: E) (auto intro: keyed_insert)
  moreover have "keyed []" by (simp add: keyed_def)
  ultimately show ?thesis unfolding entries_by_path_def bt_of_list_def by blast
qed

lemma keyed_find:
  assumes "keyed E"
  shows "List.find (\<lambda>e. me_path e = p) (map snd E) = bt_get E p"
proof -
  have "\<forall>x \<in> set E. me_path (snd x) = fst x"
    using assms by (auto simp: keyed_def bt_get_mem)
  then show ?thesis by (induction E) auto
qed

section \<open>The result of an operation is its own evidence\<close>

lemma manifest_for_path_Inr: "manifest_for_path m p = Inr e \<longleftrightarrow> List.find (\<lambda>e. me_path e = p) m = Some e"
  by (auto simp: manifest_for_path_def split: option.splits)

lemma manifest_for_path_path: "manifest_for_path m p = Inr e \<Longrightarrow> me_path e = p"
  unfolding manifest_for_path_Inr find_Some_iff by blast

lemma operation_evidence:
  assumes k: "keyed E" and t: "transform_manifest sha artifacts op observed identity E = Inr (Some E')"
    and r: "refresh_membership sha (map snd E') = Some after"
  shows "\<exists>i. bound_identity op after = Inr i \<and> transform_manifest sha artifacts op after i E = Inr (Some E')"
proof -
  note same = refresh_membership_same [OF r]
  have find: "\<exists>a. manifest_for_path after p = Inr a \<and> same_resource e a" if "keyed E'" "bt_get E' p = Some e" for p e
    using find_refreshed [OF same, of p e] that keyed_find [of E' p] by (simp add: manifest_for_path_Inr)
  show ?thesis
  proof (cases op)
    case (OpText index uri p d1 d2 es)
    with t obtain e where e: "bt_get E p = Some e" "me_content e = Some d1"
      "E' = bt_insert p (e\<lparr>me_content := Some d2\<rparr>) E"
      by (auto split: option.splits if_splits)
    have "me_path e = p" using k e(1) by (simp add: keyed_def)
    with find [of p "e\<lparr>me_content := Some d2\<rparr>"] obtain a where "manifest_for_path after p = Inr a" "me_identity a = me_identity e"
      using k e(3) by (auto simp: keyed_insert same_resource_def)
    with OpText e show ?thesis by simp
  next
    case (OpCreate index uri p overwrite ignore)
    with t obtain e where e: "bt_get E p = Some e" by (auto split: option.splits)
    have p: "me_path e = p" using k e by (simp add: keyed_def)
    consider (ignored) "me_exists e" "\<not> overwrite" "ignore" "E' = E"
      | (over) "me_exists e" "overwrite" "E' = bt_insert p (e\<lparr>me_content := Some (digest_raw_bytes sha [])\<rparr>) E"
      | (new) created where "\<not> me_exists e" "manifest_for_path observed p = Inr created" "me_kind created = FileKind"
        "me_identity created \<noteq> None" "me_content created = Some (digest_raw_bytes sha [])" "E' = bt_insert p created E"
      using t e OpCreate by (auto split: if_splits sum.splits)
    then show ?thesis
    proof cases
      case ignored
      with find [of p e] k e obtain a where "manifest_for_path after p = Inr a" by auto
      with OpCreate e ignored show ?thesis by simp
    next
      case over
      with find [of p "e\<lparr>me_content := Some (digest_raw_bytes sha [])\<rparr>"] k p obtain a
        where "manifest_for_path after p = Inr a" "me_identity a = me_identity e"
        by (auto simp: keyed_insert same_resource_def)
      with OpCreate e over show ?thesis by simp
    next
      case new
      have "me_path created = p" by (rule manifest_for_path_path [OF new(2)])
      with find [of p created] k new obtain a where a: "manifest_for_path after p = Inr a" "same_resource created a"
        by (auto simp: keyed_insert)
      then have "a = created" using new(3) by (simp add: same_resource_def)
      with OpCreate e new a show ?thesis by simp
    qed
  next
    case OpRename
    with t show ?thesis by simp
  next
    case OpDelete
    with t show ?thesis by simp
  qed
qed

lemma map_sum_Some [simp]: "map_sum id Some x \<noteq> Inr None"
  by (cases x) simp_all

lemma operation_after_evidence:
  assumes "operation_after sha tx op before observed identity = Some (Inr after)"
  shows "\<exists>i. bound_identity op after = Inr i \<and> operation_after sha tx op before after i = Some (Inr after)"
proof (cases "transform_manifest sha (tx_artifacts tx) op observed identity (entries_by_path before)")
  case (Inl f)
  with assms show ?thesis by (simp add: operation_after_def)
next
  case (Inr r)
  show ?thesis
  proof (cases r)
    case None
    with Inr assms have "after = before" by (simp add: operation_after_def)
    moreover have "\<exists>i u v o1 a b c d. op = OpRename i u v o1 a b c"
      using Inr None by (cases op) (auto split: option.splits if_splits sum.splits)
    ultimately show ?thesis using Inr None by (auto simp: operation_after_def)
  next
    case (Some E')
    with Inr assms have "refresh_membership sha (map snd E') = Some after"
      by (auto simp: operation_after_def)
    with operation_evidence [OF keyed_by_path Inr [unfolded Some] this] show ?thesis
      by (auto simp: operation_after_def)
  qed
qed

section \<open>Journals a commit may write\<close>

text \<open>After the operations \<open>done_ops\<close>: the journal binds the transaction and proves the expected manifest.\<close>

definition journal_ok ::
  "(string \<Rightarrow> string) \<Rightarrow> transaction_record \<Rightarrow> manifest_entry list \<Rightarrow> canonical_operation list \<Rightarrow> commit_progress
     \<Rightarrow> manifest_entry list \<Rightarrow> bool" where
  "journal_ok sha tx start done_ops progress expected \<longleftrightarrow>
     (\<exists>effects. progress = (new_progress sha tx)\<lparr>pr_effects := effects\<rparr> \<and> length effects = length done_ops
        \<and> list_all (\<lambda>e. ef_after e \<noteq> None) effects
        \<and> (\<forall>rest more. check_effects sha tx start (done_ops @ rest) (effects @ more) = check_effects sha tx expected rest more))"

lemma journal_ok_new: "journal_ok sha tx start [] (new_progress sha tx) start"
  by (simp add: journal_ok_def new_progress_def)

lemma check_bound:
  assumes "initial_progress_manifest sha tx = Some start" "length effects \<le> length (tx_operations tx)"
  shows "check_progress sha tx ((new_progress sha tx)\<lparr>pr_effects := effects\<rparr>) = check_effects sha tx start (tx_operations tx) effects"
  using assms by (simp add: check_progress_def Let_def)

text \<open>The announcement of the next operation, and its completion.\<close>

lemma journal_announced:
  assumes start: "initial_progress_manifest sha tx = Some start" and ok: "journal_ok sha tx start done_ops progress expected"
    and ops: "tx_operations tx = done_ops @ op # rest"
  defines "pending \<equiv> progress\<lparr>pr_effects := pr_effects progress
      @ [\<lparr>ef_index = operation_index op, ef_before = add_undo_manifest tx op expected, ef_after = None\<rparr>]\<rparr>"
  shows "check_progress sha tx pending = Some (Inr ())" "announced tx pending = [op]"
proof -
  obtain effects where e: "progress = (new_progress sha tx)\<lparr>pr_effects := effects\<rparr>" "length effects = length done_ops"
    "\<And>rest more. check_effects sha tx start (done_ops @ rest) (effects @ more) = check_effects sha tx expected rest more"
    using ok unfolding journal_ok_def by blast
  have p: "pending = (new_progress sha tx)\<lparr>pr_effects := effects
      @ [\<lparr>ef_index = operation_index op, ef_before = add_undo_manifest tx op expected, ef_after = None\<rparr>]\<rparr>"
    by (simp add: pending_def e(1))
  show "check_progress sha tx pending = Some (Inr ())"
    unfolding p by (subst check_bound [OF start]) (simp_all add: ops e(2,3))
  show "announced tx pending = [op]"
    unfolding p by (simp add: announced_def ops e(2) nth_append)
qed

lemma journal_completed:
  assumes start: "initial_progress_manifest sha tx = Some start" and ok: "journal_ok sha tx start done_ops progress expected"
    and ops: "tx_operations tx = done_ops @ op # rest"
    and after: "operation_after sha tx op (add_undo_manifest tx op expected) observed identity = Some (Inr after)"
  defines "pending \<equiv> progress\<lparr>pr_effects := pr_effects progress
      @ [\<lparr>ef_index = operation_index op, ef_before = add_undo_manifest tx op expected, ef_after = None\<rparr>]\<rparr>"
  shows "check_progress sha tx (complete_effect pending after) = Some (Inr ())"
    "announced tx (complete_effect pending after) = []"
    "journal_ok sha tx start (done_ops @ [op]) (complete_effect pending after) after"
proof -
  obtain effects where e: "progress = (new_progress sha tx)\<lparr>pr_effects := effects\<rparr>" "length effects = length done_ops"
    "list_all (\<lambda>e. ef_after e \<noteq> None) effects"
    "\<And>rest more. check_effects sha tx start (done_ops @ rest) (effects @ more) = check_effects sha tx expected rest more"
    using ok unfolding journal_ok_def by blast
  let ?done = "\<lparr>ef_index = operation_index op, ef_before = add_undo_manifest tx op expected, ef_after = Some after\<rparr>"
  have p: "complete_effect pending after = (new_progress sha tx)\<lparr>pr_effects := effects @ [?done]\<rparr>"
    by (simp add: pending_def complete_effect_def e(1))
  obtain i where i: "bound_identity op after = Inr i"
    "operation_after sha tx op (add_undo_manifest tx op expected) after i = Some (Inr after)"
    using operation_after_evidence [OF after] by blast
  have step: "check_effects sha tx expected (op # rest) (?done # more) = check_effects sha tx after rest more" for rest more
    using i by (simp add: Let_def)
  show "check_progress sha tx (complete_effect pending after) = Some (Inr ())"
    unfolding p by (subst check_bound [OF start]) (simp_all add: ops e(2,4) step del: check_effects.simps(3))
  show "announced tx (complete_effect pending after) = []" unfolding p by (simp add: announced_def)
  show "journal_ok sha tx start (done_ops @ [op]) (complete_effect pending after) after"
    unfolding journal_ok_def p
    using e(3) by (intro exI [of _ "effects @ [?done]"]) (simp add: e(2,4) step del: check_effects.simps(3))
qed

section \<open>The commit under observation\<close>

lemma write_progress_upholds:
  assumes "check_progress sha tx progress = Some (Inr ())"
  shows "upholds (disciplined sha pl tx) (during sha pl tx op) (write_progress (traced ho) pl tx progress)
           (\<lambda>_. during sha pl tx (announced tx progress))"
  unfolding write_progress_def
proof (rule upholds_then [OF within_still [OF open_owned_artifacts_still]], rule upholds_bind [OF within_still [OF still_basic(4)]],
    rule upholds_then [OF within_still [OF still_basic(5)]], rule upholds_call)
  fix w w' r assume w: "during sha pl tx op w" "ho_store_progress (traced ho) (tx_artifacts tx) progress w = (w', r)"
  obtain v l handles where l: "w = (v, l)" "at_state sha pl tx (op, handles) (v, l)"
    using w(1) by (cases w) (auto simp: during_def)
  obtain v' where v': "w' = (v', l @ [Journaled progress (\<not> isl r)])"
    using w(2) l(1) by (auto simp: noting_def split: prod.splits)
  have "at_state sha pl tx (if \<not> isl r then announced tx progress else [], handles) w'"
    unfolding v' by (rule at_state_event [OF l(2)]) (simp_all add: assms)
  then show "case r of Inl _ \<Rightarrow> disciplined sha pl tx w' | Inr _ \<Rightarrow> during sha pl tx (announced tx progress) w'"
    by (cases r) (auto intro: during_at)
qed

lemma commit_operation_upholds:
  fixes ho :: "('a, 'b) host"
  assumes start: "initial_progress_manifest sha tx = Some start" and ok: "journal_ok sha tx start done_ops progress expected"
    and ops: "tx_operations tx = done_ops @ op # rest"
  shows "upholds (disciplined sha pl tx) (during sha pl tx x)
    (commit_operation (traced ho) sha pl tx (write_progress (traced ho) pl tx) op progress expected)
    (\<lambda>(progress', expected') w. during sha pl tx [] w \<and> journal_ok sha tx start (done_ops @ [op]) progress' expected')"
proof -
  let ?before = "add_undo_manifest tx op expected"
  let ?pending = "progress\<lparr>pr_effects := pr_effects progress
      @ [\<lparr>ef_index = operation_index op, ef_before = ?before, ef_after = None\<rparr>]\<rparr>"
  let ?Q = "\<lambda>(progress', expected') w. during sha pl tx [] w \<and> journal_ok sha tx start (done_ops @ [op]) progress' expected'"
  let ?store = "write_progress (traced ho) pl tx"
  let ?finish = "\<lambda>r. case r of None \<Rightarrow> step_panic
       | Some (Inl f) \<Rightarrow> step_err f
       | Some (Inr after) \<Rightarrow> step_then (require_manifest (traced ho) pl after)
           (step_then (?store (complete_effect ?pending after)) (step_ok (complete_effect ?pending after, after)))"
  have finish: "upholds (disciplined sha pl tx) (during sha pl tx [op]) (?finish (operation_after sha tx op ?before observed identity)) ?Q"
    for observed identity
  proof -
    have "upholds (disciplined sha pl tx) (during sha pl tx [op]) (?finish (Some (Inr after))) ?Q"
      if after: "operation_after sha tx op ?before observed identity = Some (Inr after)" for after
      unfolding option.case sum.case
      by (rule upholds_then [OF within_still [OF require_manifest_still]],
          rule upholds_then [OF write_progress_upholds [OF journal_completed(1) [OF start ok ops after]]], rule upholds_ok)
        (simp add: journal_completed(2,3) [OF start ok ops after])
    then show ?thesis
      by (cases "operation_after sha tx op ?before observed identity" rule: option.exhaust [OF _ sum.exhaust])
        (auto intro: upholds_panic upholds_err during_disciplined split: option.split sum.split)
  qed
  have announced: "upholds (disciplined sha pl tx) (during sha pl tx x) (?store ?pending) (\<lambda>_. during sha pl tx [op])"
    using write_progress_upholds [OF journal_announced(1) [OF start ok ops]] unfolding journal_announced(2) [OF start ok ops] .
  show ?thesis
    unfolding commit_operation_def Let_def
    by (rule upholds_then [OF within_still [OF require_manifest_still] upholds_then [OF announced
          upholds_bind [OF retain_effect_handles_within upholds_bind [OF apply_operation_within
          upholds_then [OF within_still [OF still_each [OF check_handle_still]]
          upholds_bind [OF within_still [OF look_still] finish]]]]]])
qed

lemma commit_each_disciplined:
  assumes start: "initial_progress_manifest sha tx = Some start"
  shows "journal_ok sha tx start done_ops progress expected \<Longrightarrow> tx_operations tx = done_ops @ ops \<Longrightarrow> during sha pl tx x w
    \<Longrightarrow> commit_each (traced ho) sha pl tx (write_progress (traced ho) pl tx) ops progress expected w = Some (w', r)
    \<Longrightarrow> disciplined sha pl tx w'"
proof (induction ops arbitrary: done_ops progress expected x w)
  case Nil
  then show ?case by (auto intro: during_disciplined)
next
  case (Cons op ops)
  from Cons.prems(4) obtain w1 r1 where s: "commit_operation (traced ho) sha pl tx (write_progress (traced ho) pl tx) op progress expected w = Some (w1, r1)"
    by (auto split: option.splits)
  note o = upholdsD [OF commit_operation_upholds [OF start Cons.prems(1,2)] Cons.prems(3) s]
  show ?case
  proof (cases r1)
    case (Inl f)
    with o s Cons.prems(4) show ?thesis by simp
  next
    case (Inr y)
    obtain progress' expected' where y: "y = (progress', expected')" by fastforce
    have "during sha pl tx [] w1" "journal_ok sha tx start (done_ops @ [op]) progress' expected'" using o Inr y by auto
    with Cons.IH [of "done_ops @ [op]" progress' expected' "[]" w1] Cons.prems(2,4) s Inr y show ?thesis by simp
  qed
qed

end
