(* ===== verification/Host_Laws.thy ===== *)
theory Host_Laws
  imports Rollback_Run
begin

text \<open>
  What the actions of a commit and of a rollback inherit from the calls of their host, whatever these
  are: an instrumented host that mirrors another runs every action with the same outcome, and a relation
  between worlds that every call obeys relates the world before an action to the one after it.
\<close>

section \<open>Mirrored hosts\<close>

text \<open>The call on the instrumented world returns what the call beneath returns and only adds to the trace.\<close>

definition mirrors :: "('w \<times> 'ev list \<Rightarrow> ('w \<times> 'ev list) \<times> 'a) \<Rightarrow> ('w \<Rightarrow> 'w \<times> 'a) \<Rightarrow> bool" where
  "mirrors f' f \<longleftrightarrow> (\<forall>w l. \<exists>l'. f' (w, l) = ((fst (f w), l'), snd (f w)))"

lemma mirrors_trace [simp, intro]: "mirrors (quiet f) f" "mirrors (noting ev f) f"
  by (auto simp: mirrors_def quiet_def noting_def split: prod.splits)

lemma mirrors_at: "mirrors f' f \<Longrightarrow> \<exists>l'. f' (w, l) = ((fst (f w), l'), snd (f w))"
  unfolding mirrors_def by blast

lemma shadows_mirror:
  assumes "mirrors f' f"
  shows "shadows (call f') (call f)"
  unfolding shadows_def call_def
proof (intro allI)
  fix w l
  obtain w' r where f: "f w = (w', r)" by (cases "f w")
  with mirrors_at [OF assms, of w l] show "case Some (f w) of None \<Rightarrow> Some (f' (w, l)) = None
      | Some (w', r) \<Rightarrow> \<exists>l'. Some (f' (w, l)) = Some ((w', l'), r)" by simp
qed

lemma shadows_mapped_mirror:
  assumes "mirrors f' f"
  shows "shadows (call (map_prod id g \<circ> f')) (call (map_prod id g \<circ> f))"
proof (rule shadows_mirror, unfold mirrors_def, intro allI)
  fix w l
  show "\<exists>l'. (map_prod id g \<circ> f') (w, l) = ((fst ((map_prod id g \<circ> f) w), l'), snd ((map_prod id g \<circ> f) w))"
    using mirrors_at [OF assms, of w l] by (cases "f w") auto
qed

locale mirrored_host =
  fixes ho' :: "('w \<times> 'ev list, 'h) host" and ho :: "('w, 'h) host"
  assumes looks: "mirrors (ho_look ho') (ho_look ho)"
    and opens: "mirrors (ho_open ho' m p) (ho_open ho m p)"
    and handles: "mirrors (ho_accessed ho' h) (ho_accessed ho h)" "mirrors (ho_read_handle ho' h) (ho_read_handle ho h)"
      "mirrors (ho_identity ho' h) (ho_identity ho h)" "mirrors (ho_truncate ho' h) (ho_truncate ho h)"
      "mirrors (ho_write ho' h b) (ho_write ho h b)" "mirrors (ho_sync ho' h) (ho_sync ho h)"
      "mirrors (ho_set_accessed ho' h a) (ho_set_accessed ho h a)" "mirrors (ho_copy_metadata ho' h g) (ho_copy_metadata ho h g)"
    and paths: "mirrors (ho_read_file ho' p) (ho_read_file ho p)" "mirrors (ho_lstat ho' p) (ho_lstat ho p)"
      "mirrors (ho_first_entry ho' p) (ho_first_entry ho p)" "mirrors (ho_rename ho' p q) (ho_rename ho p q)"
      "mirrors (ho_remove_file ho' p) (ho_remove_file ho p)" "mirrors (ho_remove_dir_all ho' p) (ho_remove_dir_all ho p)"
      "mirrors (ho_flush_parent ho' p) (ho_flush_parent ho p)"
    and journal: "mirrors (ho_read_marker ho' p n) (ho_read_marker ho p n)"
      "mirrors (ho_store_progress ho' p progress) (ho_store_progress ho p progress)"
      "mirrors (ho_load_progress ho' p n) (ho_load_progress ho p n)"
    and lengths: "ho_transaction_len ho' = ho_transaction_len ho" "ho_progress_len ho' = ho_progress_len ho"
begin

lemmas fallible_calls = opens handles paths journal

lemmas shadow_calls = fallible_calls [THEN shadows_mirror] fallible_calls [THEN shadows_mapped_mirror] looks [THEN shadows_mapped_mirror]

lemma inspections:
  "shadows (look ho' inspect message) (look ho inspect message)"
  "shadows (require_manifest ho' pl expected) (require_manifest ho pl expected)"
  "shadows (inspect_manifest_path ho' pl p) (inspect_manifest_path ho pl p)"
  by (auto simp: look_def require_manifest_def inspect_manifest_path_def intro!: shadow_rules shadow_calls)

lemma journals:
  "shadows (open_owned_artifacts ho' pl tx) (open_owned_artifacts ho pl tx)"
  "shadows (write_progress ho' pl tx progress) (write_progress ho pl tx progress)"
  "shadows (read_progress ho' sha pl tx) (read_progress ho sha pl tx)"
  by (auto simp: open_owned_artifacts_def write_progress_def read_progress_def progress_size_limit_def lengths
      intro!: shadow_rules shadow_calls)

lemma effects:
  "shadows (retain_move_handle ho' pl e) (retain_move_handle ho pl e)"
  "shadows (retain_effect_handles ho' pl op before) (retain_effect_handles ho pl op before)"
  "shadows (apply_text_operation ho' sha pl artifacts i p d1 d2 expected) (apply_text_operation ho sha pl artifacts i p d1 d2 expected)"
  "shadows (apply_create_operation ho' pl p overwrite ignore expected) (apply_create_operation ho pl p overwrite ignore expected)"
  "shadows (move_resource_to_undo ho' pl artifacts i p) (move_resource_to_undo ho pl artifacts i p)"
  by (auto simp: retain_move_handle_def retain_effect_handles_def apply_text_operation_def apply_create_operation_def
      move_resource_to_undo_def intro!: shadow_rules shadow_calls inspections)

lemma moves:
  "shadows (apply_rename_operation ho' pl artifacts i p q overwrite ignore) (apply_rename_operation ho pl artifacts i p q overwrite ignore)"
  "shadows (apply_delete_operation ho' pl artifacts i p recursive ignore) (apply_delete_operation ho pl artifacts i p recursive ignore)"
  by (auto simp: apply_rename_operation_def apply_delete_operation_def Let_def intro!: shadow_rules shadow_calls effects)

lemma operation:
  "shadows (apply_operation_effect ho' sha pl artifacts expected op) (apply_operation_effect ho sha pl artifacts expected op)"
  by (cases op) (auto intro!: shadow_rules effects moves)

lemma commit_step:
  assumes "\<And>progress. shadows (persist' progress) (persist progress)"
  shows "shadows (commit_operation ho' sha pl tx persist' op progress expected) (commit_operation ho sha pl tx persist op progress expected)"
  unfolding commit_operation_def Let_def check_handle_def
  by (intro shadow_rules assms inspections effects operation) (auto intro!: shadow_rules shadow_calls)

lemma commit_steps:
  assumes "\<And>progress. shadows (persist' progress) (persist progress)"
  shows "shadows (commit_each ho' sha pl tx persist' ops progress expected) (commit_each ho sha pl tx persist ops progress expected)"
proof (induction ops arbitrary: progress expected)
  case (Cons op ops)
  note step = commit_step [of persist' persist sha pl tx op progress expected, OF assms]
  show ?case
    unfolding shadows_def
  proof (intro allI)
    fix w l
    let ?m = "commit_operation ho sha pl tx persist op progress expected"
    show "case commit_each ho sha pl tx persist (op # ops) progress expected w of
        None \<Rightarrow> commit_each ho' sha pl tx persist' (op # ops) progress expected (w, l) = None
      | Some (w', r) \<Rightarrow> \<exists>l'. commit_each ho' sha pl tx persist' (op # ops) progress expected (w, l) = Some ((w', l'), r)"
    proof (cases "?m w")
      case None
      with shadows_None [OF step] show ?thesis by simp
    next
      case (Some y)
      obtain w1 r1 where y: "y = (w1, r1)" by (cases y)
      with Some obtain l1 where t: "commit_operation ho' sha pl tx persist' op progress expected (w, l) = Some ((w1, l1), r1)"
        using shadowsD [OF step] by blast
      show ?thesis
      proof (cases r1)
        case (Inr z)
        obtain progress' expected' where z: "z = (progress', expected')" by (cases z)
        have "case commit_each ho sha pl tx persist ops progress' expected' w1 of
            None \<Rightarrow> commit_each ho' sha pl tx persist' ops progress' expected' (w1, l1) = None
          | Some (w', r) \<Rightarrow> \<exists>l'. commit_each ho' sha pl tx persist' ops progress' expected' (w1, l1) = Some ((w', l'), r)"
          using Cons.IH [of progress' expected'] unfolding shadows_def by blast
        moreover have "commit_each ho' sha pl tx persist' (op # ops) progress expected (w, l)
            = commit_each ho' sha pl tx persist' ops progress' expected' (w1, l1)"
          using t Inr z by simp
        moreover have "commit_each ho sha pl tx persist (op # ops) progress expected w
            = commit_each ho sha pl tx persist ops progress' expected' w1"
          using Some y Inr z by simp
        ultimately show ?thesis by (simp only:)
      qed (use Some y t in simp)
    qed
  qed
qed (simp add: shadows_def)

lemma shadows_mapped: "shadows m' m \<Longrightarrow> shadows (\<lambda>w. map_option (map_prod id g) (m' w)) (\<lambda>w. map_option (map_prod id g) (m w))"
  unfolding shadows_def by (fastforce split: option.splits dest: spec)

lemma commits: "shadows (commit_operations ho' sha pl tx) (commit_operations ho sha pl tx)"
  unfolding commit_operations_def commit_operations_with_writer_def
  by (cases "initial_progress_manifest sha tx")
    (auto intro!: shadows_mapped commit_steps journals simp: shadows_def [of "\<lambda>w. None"])

lemma rollbacks: "shadows (rollback_transaction ho' sha pl tx) (rollback_transaction ho sha pl tx)"
proof -
  have inspect: "shadows (inspect_transaction_manifest ho' pl tx m) (inspect_transaction_manifest ho pl tx m)" for m
    unfolding inspect_transaction_manifest_def by (intro inspections)
  have bytes: "shadows (rollback_text_bytes ho' sha pl tx e) (rollback_text_bytes ho sha pl tx e)" for e
    by (auto simp: rollback_text_bytes_def read_original_backup_def read_staged_text_def
        intro!: shadow_rules shadow_calls inspections)
  have restore: "shadows (restore_proven_text ho' sha pl tx a b) (restore_proven_text ho sha pl tx a b)" for a b
    by (auto simp: restore_proven_text_def intro!: shadow_rules shadow_calls inspections bytes split: prod.split option.split)
  have move: "shadows (rename_capability_resource ho' pl p q m) (rename_capability_resource ho pl p q m)" for p q m
    by (auto simp: rename_capability_resource_def intro!: shadow_rules shadow_calls inspections)
  have effect: "shadows (undo_effect ho' sha pl tx op a b) (undo_effect ho sha pl tx op a b)" for op a b
    by (cases op) (auto simp: Let_def remove_capability_resource_def intro!: shadow_rules shadow_calls restore move)
  have undo: "shadows (undo_operation ho' sha pl tx e) (undo_operation ho sha pl tx e)" for e
    by (auto simp: undo_operation_def intro!: shadow_rules inspections effect split: option.split)
  have check: "shadows (check_restorable ho' sha pl tx op e) (check_restorable ho sha pl tx op e)" for op e
    by (auto simp: check_restorable_def intro!: shadow_rules bytes split: option.split)
  have pre: "shadows (preflight ho' sha pl tx effects steps m) (preflight ho sha pl tx effects steps m)" for effects steps m
    by (induction steps arbitrary: m) (auto intro!: shadow_rules check split: option.split)
  show ?thesis
    unfolding rollback_transaction_def Let_def
    by (auto intro!: shadow_rules inspect inspections journals pre undo split: option.split)
qed

end

section \<open>Relations every call obeys\<close>

definition keeps :: "('w \<Rightarrow> 'w \<Rightarrow> bool) \<Rightarrow> ('w, 'e, 'a) step \<Rightarrow> bool" where
  "keeps R m \<longleftrightarrow> (\<forall>w w' r. m w = Some (w', r) \<longrightarrow> R w w')"

definition obeys :: "('w \<Rightarrow> 'w \<Rightarrow> bool) \<Rightarrow> ('w \<Rightarrow> 'w \<times> 'a) \<Rightarrow> bool" where
  "obeys R f \<longleftrightarrow> (\<forall>w. R w (fst (f w)))"

lemma keepsD: "keeps R m \<Longrightarrow> m w = Some (w', r) \<Longrightarrow> R w w'"
  unfolding keeps_def by blast

lemma keeps_call: "obeys R f \<Longrightarrow> keeps R (call f)"
  unfolding keeps_def obeys_def call_def by (metis fst_conv option.inject)

lemma keeps_mapped_call: "obeys R f \<Longrightarrow> keeps R (call (map_prod id g \<circ> f))"
  by (rule keeps_call) (simp add: obeys_def)

lemma keeps_cases:
  "(c \<Longrightarrow> keeps R m) \<Longrightarrow> (\<not> c \<Longrightarrow> keeps R k) \<Longrightarrow> keeps R (if c then m else k)"
  "(\<And>a. keeps R (f a)) \<Longrightarrow> (\<And>b. keeps R (g b)) \<Longrightarrow> keeps R (case_sum f g s)"
  "keeps R n \<Longrightarrow> (\<And>b. keeps R (h b)) \<Longrightarrow> keeps R (case_option n h opt)"
  "keeps R n \<Longrightarrow> (\<And>y ys. keeps R (t y ys)) \<Longrightarrow> keeps R (case_list n t xs)"
  "(\<And>a b. keeps R (k2 a b)) \<Longrightarrow> keeps R (case_prod k2 p)"
  by (auto split: sum.split option.split list.split prod.split)

text \<open>A relation that any number of calls obeys if each does.\<close>

locale step_relation =
  fixes R :: "'w \<Rightarrow> 'w \<Rightarrow> bool"
  assumes stays: "R w w"
    and chained: "R w w1 \<Longrightarrow> R w1 w2 \<Longrightarrow> R w w2"
begin

lemma keeps_bind: "keeps R m \<Longrightarrow> (\<And>a. keeps R (f a)) \<Longrightarrow> keeps R (step_bind m f)"
  unfolding keeps_def by (auto simp: step_bind_def split: option.splits prod.splits sum.splits) (blast intro: chained)+

lemma keeps_then: "keeps R m \<Longrightarrow> keeps R k \<Longrightarrow> keeps R (step_then m k)"
  unfolding step_then_def by (rule keeps_bind)

lemma keeps_basic:
  "keeps R (step_ok a)" "keeps R (step_err e)" "keeps R step_panic" "keeps R (step_lift r)" "keeps R (require c message)"
  "keeps R (unwrap x)"
  by (auto simp: keeps_def step_ok_def step_err_def step_panic_def step_lift_def require_def unwrap_def stays split: sum.splits)

lemma keeps_each: "(\<And>x. keeps R (f x)) \<Longrightarrow> keeps R (each f xs)"
  by (induction xs) (auto intro!: keeps_bind keeps_basic)

lemmas keep_rules = keeps_bind keeps_then keeps_basic keeps_each keeps_cases

end

locale respected_host = step_relation R for R :: "'w \<Rightarrow> 'w \<Rightarrow> bool" +
  fixes ho :: "('w, 'h) host"
  assumes respected: "obeys R (ho_look ho)" "obeys R (ho_open ho m p)" "obeys R (ho_accessed ho h)"
      "obeys R (ho_read_handle ho h)" "obeys R (ho_identity ho h)" "obeys R (ho_truncate ho h)"
      "obeys R (ho_write ho h b)" "obeys R (ho_sync ho h)" "obeys R (ho_set_accessed ho h a)"
      "obeys R (ho_copy_metadata ho h g)" "obeys R (ho_read_file ho p)" "obeys R (ho_lstat ho p)"
      "obeys R (ho_first_entry ho p)" "obeys R (ho_rename ho p q)" "obeys R (ho_remove_file ho p)"
      "obeys R (ho_remove_dir_all ho p)" "obeys R (ho_flush_parent ho p)" "obeys R (ho_read_marker ho p n)"
      "obeys R (ho_store_progress ho p progress)" "obeys R (ho_load_progress ho p n)"
begin

lemmas keep_calls = respected(2-) [THEN keeps_call] respected [THEN keeps_mapped_call]

lemma inspections_keep: "keeps R (look ho inspect message)" "keeps R (require_manifest ho pl expected)"
  "keeps R (inspect_manifest_path ho pl p)"
  by (auto simp: look_def require_manifest_def inspect_manifest_path_def intro!: keep_rules keep_calls)

lemma journals_keep: "keeps R (open_owned_artifacts ho pl tx)" "keeps R (write_progress ho pl tx progress)"
  "keeps R (read_progress ho sha pl tx)"
  by (auto simp: open_owned_artifacts_def write_progress_def read_progress_def intro!: keep_rules keep_calls)

lemma effects_keep: "keeps R (retain_effect_handles ho pl op before)"
  "keeps R (apply_text_operation ho sha pl artifacts i p d1 d2 expected)"
  "keeps R (apply_create_operation ho pl p overwrite ignore expected)" "keeps R (move_resource_to_undo ho pl artifacts i p)"
  by (auto simp: retain_move_handle_def retain_effect_handles_def apply_text_operation_def apply_create_operation_def
      move_resource_to_undo_def intro!: keep_rules keep_calls inspections_keep)

lemma operation_keeps: "keeps R (apply_operation_effect ho sha pl artifacts expected op)"
  by (cases op) (auto simp: apply_rename_operation_def apply_delete_operation_def Let_def intro!: keep_rules keep_calls effects_keep)

lemma commit_step_keeps:
  "(\<And>progress. keeps R (persist progress)) \<Longrightarrow> keeps R (commit_operation ho sha pl tx persist op progress expected)"
  unfolding commit_operation_def Let_def check_handle_def
  by (intro keep_rules inspections_keep effects_keep operation_keeps) (auto intro!: keep_rules keep_calls)

lemma commit_steps_keep:
  assumes "\<And>progress. keeps R (persist progress)"
  shows "keeps R (commit_each ho sha pl tx persist ops progress expected)"
proof (induction ops arbitrary: progress expected)
  case (Cons op ops)
  show ?case
    unfolding keeps_def
    using keepsD [OF commit_step_keeps [of persist sha pl tx op progress expected, OF assms]] keepsD [OF Cons.IH]
    by (auto split: option.splits prod.splits sum.splits) (blast intro: chained)
qed (simp add: keeps_def stays)

lemma commits_keep: "keeps R (commit_operations ho sha pl tx)"
  unfolding commit_operations_def commit_operations_with_writer_def keeps_def
  using keepsD [OF commit_steps_keep [OF journals_keep(2)]] by (auto split: option.splits)

lemma rollbacks_keep: "keeps R (rollback_transaction ho sha pl tx)"
proof -
  have bytes: "keeps R (rollback_text_bytes ho sha pl tx e)" for e
    by (auto simp: rollback_text_bytes_def read_original_backup_def read_staged_text_def
        intro!: keep_rules keep_calls inspections_keep)
  have restore: "keeps R (restore_proven_text ho sha pl tx a b)" for a b
    by (auto simp: restore_proven_text_def intro!: keep_rules keep_calls inspections_keep bytes)
  have move: "keeps R (rename_capability_resource ho pl p q m)" for p q m
    by (auto simp: rename_capability_resource_def intro!: keep_rules keep_calls inspections_keep)
  have effect: "keeps R (undo_effect ho sha pl tx op a b)" for op a b
    by (cases op) (auto simp: Let_def remove_capability_resource_def intro!: keep_rules keep_calls restore move)
  have undo: "keeps R (undo_operation ho sha pl tx e)" for e
    by (auto simp: undo_operation_def intro!: keep_rules inspections_keep effect)
  have pre: "keeps R (preflight ho sha pl tx effects steps m)" for effects steps m
    by (induction steps arbitrary: m) (auto simp: check_restorable_def intro!: keep_rules bytes)
  show ?thesis
    unfolding rollback_transaction_def inspect_transaction_manifest_def Let_def
    by (auto intro!: keep_rules inspections_keep journals_keep pre undo)
qed

end

end
