(* ===== verification/Commit_Shadow.thy ===== *)
theory Commit_Shadow
  imports Commit_Laws Host_Laws
begin

text \<open>
  Observing a commit does not change it: on the traced host every action returns what it returns on the
  host beneath. With the laws of the traced commit this gives the write-ahead property of the commit.
\<close>

section \<open>Tracing is transparent\<close>

interpretation traced_host: mirrored_host "traced ho" ho for ho :: "('w, 'h) host"
  by unfold_locales simp_all

lemma commit_operations_shadow:
  assumes "commit_operations ho sha pl tx w = Some (w', r)"
  obtains l x start where "initial_progress_manifest sha tx = Some start"
    "commit_each (traced ho) sha pl tx (write_progress (traced ho) pl tx) (tx_operations tx) (new_progress sha tx) start (w, []) = Some ((w', l), x)"
    "commit_operations (traced ho) sha pl tx (w, []) = Some ((w', l), r)"
proof -
  from assms obtain start x where s: "initial_progress_manifest sha tx = Some start"
    "commit_each ho sha pl tx (write_progress ho pl tx) (tx_operations tx) (new_progress sha tx) start w = Some (w', x)"
    "r = map_sum id (\<lambda>_. ()) x"
    by (auto simp: commit_operations_def commit_operations_with_writer_def split: option.splits)
  obtain l where l: "commit_each (traced ho) sha pl tx (write_progress (traced ho) pl tx) (tx_operations tx) (new_progress sha tx) start (w, []) = Some ((w', l), x)"
    using shadowsD [OF traced_host.commit_steps [OF traced_host.journals(2)] s(2)] by blast
  from that [OF s(1) l] l s(1,3) show thesis by (simp add: commit_operations_def commit_operations_with_writer_def)
qed

section \<open>The property\<close>

text \<open>
  C6. Whatever the filesystem does and whatever other programs do to it, a commit changes the
  filesystem write-ahead. Run on a host that notes every change, the commit gives the same result, and
  in its trace every resource created, written through a handle, moved or removed belongs to the
  operation announced by the journal last stored, while that announcement is still pending; a rename or
  a deletion moves only its own paths and its own undo path. Every journal it tries to store passes the
  validation with which a recovery reads it back.
\<close>

theorem commit_is_write_ahead:
  assumes "commit_operations ho sha pl tx w = Some (w', r)"
  shows "\<exists>l. commit_operations (traced ho) sha pl tx (w, []) = Some ((w', l), r)
    \<and> write_ahead sha pl tx l \<and> list_all (valid_event sha tx) l"
proof -
  obtain l x start where s: "initial_progress_manifest sha tx = Some start"
    "commit_each (traced ho) sha pl tx (write_progress (traced ho) pl tx) (tx_operations tx) (new_progress sha tx) start (w, []) = Some ((w', l), x)"
    "commit_operations (traced ho) sha pl tx (w, []) = Some ((w', l), r)"
    by (rule commit_operations_shadow [OF assms])
  have "during sha pl tx [] (w, [])" by (rule during_at [of sha pl tx "[]" "[]"]) (simp add: at_state_def)
  from commit_each_disciplined [OF s(1) journal_ok_new _ this s(2)]
  have "disciplined sha pl tx (w', l)" by simp
  with s(3) show ?thesis by (auto simp: disciplined_def at_state_def write_ahead_def)
qed

end
