(* ===== verification/Rollback_Laws.thy ===== *)
theory Rollback_Laws
  imports Commit_Shadow
begin

text \<open>
  A rollback under observation: what it may change, and that it runs as on the host beneath.
\<close>

section \<open>Reading the journal and the preflight\<close>

lemma upholds_assume: "(c \<Longrightarrow> upholds E P m Q) \<Longrightarrow> upholds E (\<lambda>w. c \<and> P w) m Q"
  unfolding upholds_def by blast

lemma load_progress_upholds:
  "upholds (disciplined sha pl tx) (during sha pl tx ops) (call (ho_load_progress (traced ho) p n))
     (\<lambda>progress. during sha pl tx (proven_operations sha tx progress))"
proof (rule upholds_call)
  fix w w' r assume w: "during sha pl tx ops w" "ho_load_progress (traced ho) p n w = (w', r)"
  obtain v l handles where l: "w = (v, l)" "at_state sha pl tx (ops, handles) (v, l)"
    using w(1) by (cases w) (auto simp: during_def)
  show "case r of Inl _ \<Rightarrow> disciplined sha pl tx w' | Inr progress \<Rightarrow> during sha pl tx (proven_operations sha tx progress) w'"
  proof (cases r)
    case (Inl f)
    with w(2) l have "at_state sha pl tx (ops, handles) w'" by (auto simp: noting_def at_state_def split: prod.splits)
    with Inl show ?thesis by simp
  next
    case (Inr progress)
    with w(2) l obtain v' where v': "w' = (v', l @ [Loaded progress])" by (auto simp: noting_def split: prod.splits)
    have "at_state sha pl tx (proven_operations sha tx progress, handles) w'"
      unfolding v' by (rule at_state_event [OF l(2)]) simp_all
    with Inr show ?thesis by (auto intro: during_at)
  qed
qed

lemma read_progress_upholds:
  "upholds (disciplined sha pl tx) (during sha pl tx ops) (read_progress (traced ho) sha pl tx)
     (\<lambda>progress w. check_progress sha tx progress = Some (Inr ()) \<and> during sha pl tx (proven_operations sha tx progress) w)"
  unfolding read_progress_def
proof (rule upholds_then [OF within_still [OF open_owned_artifacts_still]], rule upholds_bind [OF within_still [OF still_basic(4)]],
    rule upholds_bind [OF load_progress_upholds])
  fix progress
  show "upholds (disciplined sha pl tx) (during sha pl tx (proven_operations sha tx progress))
     (case check_progress sha tx progress of None \<Rightarrow> step_panic | Some (Inl f) \<Rightarrow> step_err f | Some (Inr _) \<Rightarrow> step_ok progress)
     (\<lambda>progress w. check_progress sha tx progress = Some (Inr ()) \<and> during sha pl tx (proven_operations sha tx progress) w)"
    by (cases "check_progress sha tx progress" rule: option.exhaust [OF _ sum.exhaust])
      (auto intro!: upholds_panic upholds_err upholds_ok during_disciplined split: option.split sum.split)
qed

lemma text_bytes_within: "within sha pl tx ops (rollback_text_bytes (traced ho) sha pl tx' expected)"
proof -
  have original: "within sha pl tx ops (read_original_backup (traced ho) sha pl p digest expected)" for p digest
    unfolding read_original_backup_def
    by (rule within_lift, rule within_open, simp, intro still_bind still_then still_basic inspect_manifest_path_still)
      (simp add: still_quiet)
  have staged: "within sha pl tx ops (read_staged_text (traced ho) sha pl p digest)" for p digest
    unfolding read_staged_text_def
    by (rule within_lift, rule within_open, simp, intro still_bind still_then still_basic) (simp add: still_quiet)
  show ?thesis
    unfolding rollback_text_bytes_def
    using original staged by (auto intro!: within_still still_basic split: option.split)
qed

lemma preflight_upholds:
  "upholds (disciplined sha pl tx) (during sha pl tx ops) (preflight (traced ho) sha pl tx effects steps reversed)
     (\<lambda>r w. undo_chain effects (map snd steps) reversed = Some r \<and> during sha pl tx ops w)"
proof (induction steps arbitrary: reversed)
  case Nil
  show ?case by (simp add: upholds_ok)
next
  case (Cons step steps)
  obtain op effect where step: "step = (op, effect)" by fastforce
  have check: "within sha pl tx ops (check_restorable (traced ho) sha pl tx op effect)"
  proof (cases "written_path op")
    case (Some p)
    have "within sha pl tx ops (if me_exists e then step_bind (rollback_text_bytes (traced ho) sha pl tx e) (\<lambda>_. step_ok ()) else step_ok ())" for e
      by (rule upholds_if, rule upholds_bind [OF text_bytes_within], (rule within_still, rule still_basic)+)
    then show ?thesis unfolding check_restorable_def Some option.case by (intro within_lift)
  qed (simp add: check_restorable_def within_still still_basic)
  have chain: "upholds (disciplined sha pl tx) (during sha pl tx ops)
      (case reverse_manifest effects effect of None \<Rightarrow> step_panic
       | Some reversed' \<Rightarrow> preflight (traced ho) sha pl tx effects steps reversed')
      (\<lambda>r w. undo_chain effects (map snd (step # steps)) reversed = Some r \<and> during sha pl tx ops w)"
    if "ef_after effect = Some reversed"
    using that Cons.IH by (auto simp: step intro: upholds_panic split: option.split)
  show ?case
  proof (cases "ef_after effect")
    case None
    then show ?thesis by (simp add: step upholds_panic)
  next
    case (Some after)
    have "upholds (disciplined sha pl tx) (during sha pl tx ops) (require (reversed = after) m)
        (\<lambda>_ w. reversed = after \<and> during sha pl tx ops w)" for m
      by (auto intro!: upholds_require during_disciplined)
    from upholds_then [OF this upholds_assume [OF upholds_then [OF check chain]]] Some
    show ?thesis by (simp add: step)
  qed
qed

section \<open>The reverse steps\<close>

lemma removed_covered:
  assumes "covers pl tx ops r"
  shows "within sha pl tx ops (remove_capability_resource (traced ho) r)"
  unfolding remove_capability_resource_def traced_sel
  by (intro within_bind upholds_if within_still still_quiet still_touch) (use assms in simp_all)

lemma rename_capability_within:
  assumes "p \<in> set (operation_paths tx op)" "q \<in> set (operation_paths tx op)" "op \<in> set ops"
  shows "within sha pl tx ops (rename_capability_resource (traced ho) pl p q m)"
  unfolding rename_capability_resource_def
  by (rule within_lift, rule within_lift, rule within_lift, rule within_still,
      intro still_then require_manifest_still move_covered upholds_if still_basic)
    (use assms in \<open>auto intro: covers_path simp: still_quiet\<close>)

lemma restore_text_within:
  fixes ho :: "('w, 'h) host"
  assumes "me_path before \<in> set (operation_paths tx op)" "op \<in> set ops"
  shows "within sha pl tx ops (restore_proven_text (traced ho) sha pl tx before after)"
proof -
  have body: "within sha pl tx ops (step_bind (step_lift (relative_path pl (me_path before))) (\<lambda>relative.
     step_bind (call (ho_open (traced ho) ReadWrite relative)) (\<lambda>output.
     step_bind (call (ho_identity (traced ho) output)) (\<lambda>identity.
     step_bind (call (ho_read_handle (traced ho) output)) (\<lambda>current.
     step_then (require (me_identity after = Some identity \<and> me_content after = Some (digest_raw_bytes sha current)) m)
     (step_then (require_manifest (traced ho) pl [after])
     (step_then (call (ho_truncate (traced ho) output))
     (step_then (call (ho_write (traced ho) output bytes))
     (step_then (case backup of Some source \<Rightarrow> call (ho_copy_metadata (traced ho) source output) | None \<Rightarrow> step_ok ())
     (call (ho_sync (traced ho) output)))))))))))"
    (is "within _ _ _ _ (step_bind _ (\<lambda>relative. step_bind _ ?work))") for bytes backup m
  proof (rule within_lift, rule within_open)
    fix relative and h :: 'h and handles assume r: "relative_path pl (me_path before) = Inr relative" "map_of handles h = Some relative"
    note c = covers_path [OF assms r(1)]
    show "still sha pl tx (ops, handles) (?work h)"
      using c r(2)
      by (intro still_bind still_then touch_handle still_basic require_manifest_still)
        (auto simp: still_quiet intro!: still_touch still_basic split: option.split)
  qed simp
  show ?thesis
    unfolding restore_proven_text_def
    by (rule upholds_bind [OF text_bytes_within]) (simp only: split_beta body)
qed

lemma written_path_operation: "written_path op = Some p \<Longrightarrow> p \<in> set (operation_paths tx op)"
  by (cases op) auto

lemma manifest_for_path_me: "manifest_for_path m p = Inr e \<Longrightarrow> me_path e = p"
  by (auto simp: manifest_for_path_def find_Some_iff split: option.splits)

lemma undo_text_within:
  assumes "written_path op = Some p" "op \<in> set ops"
  shows "within sha pl tx ops (step_bind (step_lift (manifest_for_path before p)) (\<lambda>b.
      step_bind (step_lift (manifest_for_path after p)) (\<lambda>a.
      if me_exists b then restore_proven_text (traced ho) sha pl tx b a
      else step_bind (step_lift (relative_path pl p)) (\<lambda>relative.
        step_then (remove_capability_resource (traced ho) relative) (call (ho_flush_parent (traced ho) p))))))"
  using written_path_operation [OF assms(1)] assms(2)
  by (intro within_lift upholds_if restore_text_within within_then removed_covered within_still)
    (auto simp: still_quiet intro: covers_path dest!: manifest_for_path_me)

lemma undo_effect_within:
  assumes "op \<in> set ops"
  shows "within sha pl tx ops (undo_effect (traced ho) sha pl tx op before after)"
proof (cases op)
  case (OpText index uri p d1 d2 es)
  with undo_text_within [of op p ops] assms show ?thesis by simp
next
  case (OpCreate index uri p o1 o2)
  with undo_text_within [of op p ops] assms show ?thesis by simp
next
  case (OpRename index u1 u2 p q o1 o2)
  with assms show ?thesis
    by (auto simp: Let_def still_basic
        intro!: within_still [OF still_basic(1)] within_then [OF rename_capability_within [of _ _ op]] within_lift rename_capability_within [of _ _ op])
next
  case (OpDelete index uri p o1 o2)
  with assms show ?thesis
    by (auto simp: Let_def intro!: within_still [OF still_basic(1)] within_lift rename_capability_within [of _ _ op])
qed

lemma undo_operation_within: "fst e \<in> set ops \<Longrightarrow> within sha pl tx ops (undo_operation (traced ho) sha pl tx e)"
  unfolding undo_operation_def
  by (cases "ef_after (snd e)")
    (auto intro!: upholds_panic within_then within_still [OF require_manifest_still] undo_effect_within within_still [OF still_basic(1)])

section \<open>The whole rollback\<close>

lemma inspect_transaction_still [still_rules]: "still sha pl tx st (inspect_transaction_manifest (traced ho) pl tx' message)"
  unfolding inspect_transaction_manifest_def by (rule look_still)

lemma check_progress_length:
  "check_progress sha tx progress = Some (Inr ()) \<Longrightarrow> length (pr_effects progress) \<le> length (tx_operations tx)"
  by (auto simp: check_progress_def Let_def split: if_splits)

lemma require_upholds: "upholds (disciplined sha pl tx) (during sha pl tx ops) (require c m) (\<lambda>_ w. c \<and> during sha pl tx ops w)"
  by (rule upholds_require) (auto dest: during_disciplined)

lemma proven_effects:
  assumes "check_progress sha tx progress = Some (Inr ())" "list_all (\<lambda>e. ef_after e \<noteq> None) (pr_effects progress)"
    "pr_effects progress \<noteq> []" "ef_after (last (pr_effects progress)) = Some final"
    "undo_chain (pr_effects progress) (map snd (rev (zip (tx_operations tx) (pr_effects progress)))) final = Some reversed"
    "manifest_mismatches (tx_before tx) reversed = []" "e \<in> set (rev (zip (tx_operations tx) (pr_effects progress)))"
  shows "fst e \<in> set (proven_operations sha tx progress)"
proof -
  have len: "length (pr_effects progress) \<le> length (tx_operations tx)" by (rule check_progress_length [OF assms(1)])
  then have "map snd (rev (zip (tx_operations tx) (pr_effects progress))) = rev (pr_effects progress)"
    by (simp add: rev_map [symmetric] map_snd_zip_take)
  with assms have "restorable tx (pr_effects progress)" by (simp add: restorable_def)
  moreover have "fst e \<in> set (take (length (pr_effects progress)) (tx_operations tx))"
    using assms(7) len by (metis (no_types, lifting) image_eqI map_fst_zip_take min_absorb2 list.set_map set_rev)
  ultimately show ?thesis using assms(1) by (simp add: proven_operations_def)
qed

lemma rollback_upholds:
  "upholds (disciplined sha pl tx) (during sha pl tx []) (rollback_transaction (traced ho) sha pl tx)
     (\<lambda>m w. manifest_mismatches (tx_before tx) m = [] \<and> disciplined sha pl tx w)"
proof -
  let ?Q = "\<lambda>m w. manifest_mismatches (tx_before tx) m = [] \<and> disciplined sha pl tx w"
  have finish: "upholds (disciplined sha pl tx) (during sha pl tx ops)
      (step_bind (inspect_transaction_manifest (traced ho) pl tx m) (\<lambda>current.
        step_then (require (manifest_mismatches (tx_before tx) current = []) m') (step_ok current))) ?Q" for ops m m'
    by (rule upholds_bind [OF within_still [OF inspect_transaction_still] upholds_then [OF require_upholds upholds_ok]])
      (auto dest: during_disciplined)
  have undo: "upholds (disciplined sha pl tx) (during sha pl tx ops)
      (step_then (each (undo_operation (traced ho) sha pl tx) steps) k) ?Q"
    if "\<And>e. e \<in> set steps \<Longrightarrow> fst e \<in> set ops" "upholds (disciplined sha pl tx) (during sha pl tx ops) k ?Q" for steps ops k
    by (rule upholds_then [OF upholds_each that(2)]) (rule undo_operation_within [OF that(1)])
  show ?thesis
    unfolding rollback_transaction_def Let_def
    apply (rule upholds_bind [OF within_still [OF inspect_transaction_still]])
    apply (rule upholds_if)
     apply (rule upholds_ok, simp add: during_disciplined)
    apply (rule upholds_bind [OF read_progress_upholds], rule upholds_assume)
    apply (rule upholds_then [OF require_upholds], rule upholds_assume)
    apply (rule upholds_if)
     apply (rule upholds_err, erule during_disciplined)
    apply (split option.split, intro conjI impI allI)
     apply (rule upholds_panic)
    apply (rule upholds_then [OF within_still [OF require_manifest_still]])
    apply (rule upholds_bind [OF preflight_upholds], rule upholds_assume)
    apply (rule upholds_then [OF require_upholds], rule upholds_assume)
    apply (rule undo [OF _ finish])
    apply (rule proven_effects; assumption)
    done
qed

text \<open>
  C12. Whatever the filesystem does, a rollback changes nothing it has not proven. Observed on a host that
  notes every change, it gives the same result, and every resource it writes, moves or removes
  belongs to an operation that the journal it loaded proves complete: the journal is valid for the
  transaction, no effect in it is uncertain, and its effects, undone in reverse, form a chain
  that ends in the before-manifest. With any other journal nothing is changed. When it reports
  success, the resources it saw last match the before-manifest.
\<close>

theorem rollback_changes_only_proven:
  assumes "rollback_transaction ho sha pl tx w = Some (w', r)"
  shows "\<exists>l. rollback_transaction (traced ho) sha pl tx (w, []) = Some ((w', l), r) \<and> write_ahead sha pl tx l
    \<and> (case r of Inl _ \<Rightarrow> True | Inr restored \<Rightarrow> manifest_mismatches (tx_before tx) restored = [])"
proof -
  obtain l where l: "rollback_transaction (traced ho) sha pl tx (w, []) = Some ((w', l), r)"
    using shadowsD [OF traced_host.rollbacks assms] by blast
  have "during sha pl tx [] (w, [])" by (rule during_at [of sha pl tx "[]" "[]"]) (simp add: at_state_def)
  from upholdsD [OF rollback_upholds this l]
  have "disciplined sha pl tx (w', l)" "case r of Inl _ \<Rightarrow> True | Inr restored \<Rightarrow> manifest_mismatches (tx_before tx) restored = []"
    by (auto split: sum.splits)
  with l show ?thesis by (auto simp: disciplined_def at_state_def write_ahead_def)
qed

end
