(* ===== verification/Undo_Chain.thy ===== *)
theory Undo_Chain
  imports Rollback_Laws Plan_Refinement
begin

text \<open>
  Why the preflight of a rollback accepts what a commit leaves: the manifests a valid journal records
  form a chain, and undoing it drops exactly the undo paths that each operation added.
\<close>

section \<open>Artifact paths\<close>

fun number_of :: "string \<Rightarrow> nat" where
  "number_of s = foldl (\<lambda>n c. 10 * n + (of_char c - 48)) 0 s"

lemma number_of_decimal: "number_of (decimal n) = n"
proof (induction n rule: decimal.induct)
  case (1 n)
  have digit: "of_char (digit_char (n mod 10)) - 48 = n mod 10" for n
    by (simp add: digit_char_def)
  show ?case
  proof (cases "n < 10")
    case True
    with digit [of n] show ?thesis by (simp add: decimal.simps [of n])
  next
    case False
    with 1 digit [of n] show ?thesis by (simp add: decimal.simps [of n])
  qed
qed

lemma decimal_inject: "decimal m = decimal n \<longleftrightarrow> m = n"
  by (metis number_of_decimal)

lemma undo_path_inject: "undo_resource_path artifacts m = undo_resource_path artifacts n \<longleftrightarrow> m = n"
  by (simp add: undo_resource_path_def decimal_inject)

lemma undo_path_apart:
  assumes "starts_with p (undo_resource_path artifacts m)" "starts_with p (undo_resource_path artifacts n)"
  shows "m = n"
proof -
  have "length (undo_resource_path artifacts m) = length (undo_resource_path artifacts n)"
    by (simp add: undo_resource_path_def join_name_def)
  with assms have "undo_resource_path artifacts m = undo_resource_path artifacts n"
    by (metis append_eq_append_conv starts_with_iff)
  then show ?thesis by (simp add: undo_path_inject)
qed

lemma undo_path_artifact: "starts_with p (undo_resource_path artifacts n) \<Longrightarrow> starts_with p artifacts"
  unfolding undo_resource_path_def by (erule starts_with_trans, rule starts_with_join_name)

lemma translated_starts: "starts_with p q \<Longrightarrow> starts_with (translated_path p q r) r"
  by (auto simp: translated_path_def strip_path_prefix_def join_path_def Let_def)

lemma translated_append: "translated_path (q @ s) q r = r @ s"
  by (simp add: translated_path_def Let_def join_path_def)

lemma translated_inject: "starts_with p q \<Longrightarrow> starts_with p' q \<Longrightarrow> translated_path p q r = translated_path p' q r \<longleftrightarrow> p = p'"
  by (auto simp: starts_with_iff translated_append)

section \<open>Manifests in path order\<close>

abbreviation paths_of :: "manifest_entry list \<Rightarrow> path set" where
  "paths_of m \<equiv> me_path ` set m"

definition ordered :: "manifest_entry list \<Rightarrow> bool" where
  "ordered m \<longleftrightarrow> sorted_wrt (<) (map me_path m)"

lemma ordered_sorted: "ordered m \<longleftrightarrow> sorted (map me_path m) \<and> distinct (map me_path m)"
  by (simp add: ordered_def strict_sorted_iff)

lemma ordered_sort: "distinct (map me_path m) \<Longrightarrow> ordered (sort_key me_path m)"
  unfolding ordered_sorted by (simp add: distinct_map)

lemma ordered_keyed: "keyed E \<Longrightarrow> ordered (map snd E) \<and> paths_of (map snd E) = fst ` set E"
proof -
  assume "keyed E"
  then have "\<forall>x \<in> set E. me_path (snd x) = fst x" by (auto simp: keyed_def bt_get_mem)
  then have "map me_path (map snd E) = map fst E" by simp
  with \<open>keyed E\<close> show ?thesis unfolding ordered_def keyed_def bt_ok_def by (metis list.set_map)
qed

lemma same_resources_paths: "list_all2 same_resource m m' \<Longrightarrow> map me_path m' = map me_path m"
  by (induction rule: list_all2_induct) (simp_all add: same_resource_def)

lemma keyed_entries: "keyed E \<Longrightarrow> bt_get E p = Some e \<Longrightarrow> me_path e = p"
  by (simp add: keyed_def)

lemma keyed_mem: "keyed E \<Longrightarrow> (p, e) \<in> set E \<Longrightarrow> bt_get E p = Some e"
  unfolding keyed_def by (metis bt_get_mem)

lemma insert_all_get:
  "distinct (map me_path es) \<Longrightarrow> bt_get (fold (\<lambda>e. bt_insert (me_path e) e) es E) p
     = (case List.find (\<lambda>e. me_path e = p) es of Some e \<Rightarrow> Some e | None \<Rightarrow> bt_get E p)"
proof (induction es arbitrary: E)
  case (Cons e es)
  have "List.find (\<lambda>e. me_path e = p) es = None" if "me_path e = p"
    using Cons.prems that by (auto simp: find_None_iff) (metis image_eqI)
  with Cons show ?case by (auto split: option.splits)
qed simp

lemma insert_all_keyed: "keyed E \<Longrightarrow> keyed (fold (\<lambda>e. bt_insert (me_path e) e) es E)"
  by (induction es arbitrary: E) (simp_all add: keyed_insert)

section \<open>What an operation adds to a manifest\<close>

text \<open>New entries appear only below what an operation moves something to.\<close>

definition grows_below :: "path set \<Rightarrow> (path, manifest_entry) btree \<Rightarrow> (path, manifest_entry) btree \<Rightarrow> bool" where
  "grows_below T E E' \<longleftrightarrow> keyed E' \<and> fst ` set E \<subseteq> fst ` set E'
     \<and> (\<forall>p \<in> fst ` set E'. p \<in> fst ` set E \<or> (\<exists>t \<in> T. starts_with p t))"

lemma fst_bt_insert [simp]: "fst ` set (bt_insert k v E) = insert k (fst ` set E)"
  by (auto simp: set_bt_insert)

lemma grows_refl [simp]: "grows_below T E E \<longleftrightarrow> keyed E"
  by (simp add: grows_below_def)

lemma grows_keyed: "grows_below T E E' \<Longrightarrow> keyed E'"
  by (simp add: grows_below_def)

lemma grows_trans: "grows_below T E E' \<Longrightarrow> grows_below T E' E'' \<Longrightarrow> grows_below T E E''"
  unfolding grows_below_def by (elim conjE, intro conjI ballI, assumption, erule subset_trans, assumption) metis

lemma grows_mono: "grows_below T E E' \<Longrightarrow> T \<subseteq> T' \<Longrightarrow> grows_below T' E E'"
  unfolding grows_below_def by blast

lemma grows_insert:
  assumes "keyed E" "bt_get E p = Some x" "me_path e = p"
  shows "grows_below T E (bt_insert p e E)"
proof -
  have "p \<in> fst ` set E" using map_of_SomeD [OF assms(2)] by force
  then show ?thesis using keyed_insert [OF assms(1,3)] by (auto simp: grows_below_def)
qed

lemma transfer_each_grows:
  "transfer_each p q tree E = Inr E' \<Longrightarrow> keyed E \<Longrightarrow> (\<forall>e \<in> set tree. starts_with (me_path e) p) \<Longrightarrow> me_path ` set tree \<subseteq> fst ` set E
     \<Longrightarrow> grows_below {q} E E'"
proof (induction tree arbitrary: E)
  case (Cons e tree)
  let ?t = "translated_path (me_path e) p q"
  let ?E1 = "bt_insert ?t (e\<lparr>me_path := ?t\<rparr>) (bt_insert (me_path e) (missing_manifest (me_path e)) E)"
  have "me_path (missing_manifest r) = r" for r by (simp add: missing_manifest_def)
  then have k: "keyed ?E1" using Cons.prems(2) by (simp add: keyed_insert)
  have "starts_with ?t q" using Cons.prems(3) by (simp add: translated_starts)
  then have "grows_below {q} E ?E1" using k Cons.prems(4) by (auto simp: grows_below_def)
  moreover have "grows_below {q} ?E1 E'"
    using Cons.prems k by (intro Cons.IH) (auto simp: Let_def split: if_splits)
  ultimately show ?case by (rule grows_trans)
qed simp

lemma transfer_grows:
  assumes "transfer_manifest p q E = Inr E'" "keyed E"
  shows "grows_below {q} E E'"
proof -
  have "\<forall>x \<in> set E. me_path (snd x) = fst x" using assms(2) by (auto simp: keyed_def bt_get_mem)
  then have "me_path ` set (filter (\<lambda>e. me_exists e \<and> starts_with (me_path e) p) (map snd E)) \<subseteq> fst ` set E"
    by force
  with assms show ?thesis
    by (intro transfer_each_grows [of p q]) (auto simp: transfer_manifest_def Let_def split: if_splits)
qed

definition targets :: "path \<Rightarrow> canonical_operation \<Rightarrow> path set" where
  "targets artifacts op = set (op_paths op) \<union> {undo_resource_path artifacts (operation_index op)}"

lemma transform_grows:
  assumes t: "transform_manifest sha artifacts op seen identity E = Inr (Some E')" and E: "keyed E"
  shows "grows_below (targets artifacts op) E E'"
proof (cases op)
  case (OpText index uri p d1 d2 es)
  with t E show ?thesis
    by (auto split: option.splits if_splits intro!: grows_insert dest: keyed_entries)
next
  case (OpCreate index uri p o1 o2)
  with t E show ?thesis
    by (auto split: option.splits if_splits sum.splits intro!: grows_insert dest: keyed_entries manifest_for_path_me)
next
  case (OpRename index u1 u2 p q o1 o2)
  obtain E1 where E1: "grows_below (targets artifacts op) E E1" "transfer_manifest p q E1 = Inr E'"
  proof (cases "occupied E q \<and> o1")
    case True
    with t OpRename obtain E1 where E1: "transfer_manifest q (undo_resource_path artifacts index) E = Inr E1" "transfer_manifest p q E1 = Inr E'"
      by (cases "transfer_manifest q (undo_resource_path artifacts index) E"; cases "transfer_manifest p q (projr (transfer_manifest q (undo_resource_path artifacts index) E))") auto
    from that [OF grows_mono [OF transfer_grows [OF E1(1) E]] E1(2)] OpRename show thesis by (simp add: targets_def)
  next
    case False
    with t OpRename have "transfer_manifest p q E = Inr E'"
      by (cases "transfer_manifest p q E") (auto split: if_splits)
    with that [of E] E show thesis by simp
  qed
  from grows_trans [OF E1(1) grows_mono [OF transfer_grows [OF E1(2) grows_keyed [OF E1(1)]]]] OpRename
  show ?thesis by (simp add: targets_def)
next
  case (OpDelete index uri p o1 o2)
  show ?thesis
  proof (cases "occupied E p")
    case True
    with t OpDelete have "transfer_manifest p (undo_resource_path artifacts index) E = Inr E'"
      by (cases "transfer_manifest p (undo_resource_path artifacts index) E") auto
    from grows_mono [OF transfer_grows [OF this E]] OpDelete show ?thesis by (simp add: targets_def)
  next
    case False
    with t OpDelete E show ?thesis by (simp split: if_splits)
  qed
qed

lemma by_path_keys: "fst ` set (entries_by_path m) = paths_of m"
proof -
  have "fst ` set (fold (\<lambda>(k, v). bt_insert k v) (map (\<lambda>e. (me_path e, e)) es) E) = paths_of es \<union> fst ` set E" for es E
    by (induction es arbitrary: E) auto
  then show ?thesis unfolding entries_by_path_def bt_of_list_def by simp
qed

lemma operation_after_grows:
  assumes a: "operation_after sha tx op before seen identity = Some (Inr after)" and o: "ordered before"
  shows "ordered after \<and> (\<forall>p \<in> paths_of after. p \<in> paths_of before \<or> (\<exists>t \<in> targets (tx_artifacts tx) op. starts_with p t))"
proof -
  consider "after = before"
    | E' where "transform_manifest sha (tx_artifacts tx) op seen identity (entries_by_path before) = Inr (Some E')"
        "refresh_membership sha (map snd E') = Some after"
    using a by (auto simp: operation_after_def split: sum.splits option.splits)
  then show ?thesis
  proof cases
    case 2
    note g = transform_grows [OF 2(1) keyed_by_path]
    have m: "map me_path after = map me_path (map snd E')"
      by (rule same_resources_paths [OF refresh_membership_same [OF 2(2)]])
    then have "paths_of after = paths_of (map snd E')" by (metis list.set_map)
    with m ordered_keyed [OF grows_keyed [OF g]] g show ?thesis
      by (auto simp: ordered_def grows_below_def by_path_keys)
  qed (use o in blast)
qed

section \<open>The manifests of a journal\<close>

definition fresh_artifacts :: "transaction_record \<Rightarrow> bool" where
  "fresh_artifacts tx \<longleftrightarrow>
     distinct (map operation_index (tx_operations tx))
     \<and> (\<forall>op \<in> set (tx_operations tx). \<forall>p \<in> set (op_paths op).
          \<not> starts_with p (tx_artifacts tx) \<and> \<not> starts_with (tx_artifacts tx) p)"

text \<open>After \<open>k\<close> operations only their undo paths lie below the artifact directory.\<close>

definition apart :: "transaction_record \<Rightarrow> nat \<Rightarrow> manifest_entry list \<Rightarrow> bool" where
  "apart tx k m \<longleftrightarrow> ordered m
     \<and> (\<forall>p \<in> paths_of m. starts_with p (tx_artifacts tx)
          \<longrightarrow> (\<exists>j<k. starts_with p (undo_resource_path (tx_artifacts tx) (operation_index (tx_operations tx ! j)))))"

lemma apart_undo:
  assumes "fresh_artifacts tx" "apart tx k m" "k < length (tx_operations tx)" "p \<in> paths_of m"
  shows "\<not> starts_with p (undo_resource_path (tx_artifacts tx) (operation_index (tx_operations tx ! k)))"
proof
  assume u: "starts_with p (undo_resource_path (tx_artifacts tx) (operation_index (tx_operations tx ! k)))"
  from undo_path_artifact [OF u] assms(2,4) obtain j where j: "j < k"
    "starts_with p (undo_resource_path (tx_artifacts tx) (operation_index (tx_operations tx ! j)))"
    unfolding apart_def by blast
  from undo_path_apart [OF u j(2)] have "map operation_index (tx_operations tx) ! k = map operation_index (tx_operations tx) ! j"
    using assms(3) j(1) by simp
  with assms(1,3) j(1) show False unfolding fresh_artifacts_def by (metis length_map less_trans nat_neq_iff nth_eq_iff_index_eq)
qed

lemma add_undo_laws:
  assumes o: "ordered m" and u: "\<And>p. p \<in> paths_of m \<Longrightarrow> \<not> starts_with p (undo_resource_path (tx_artifacts tx) (operation_index op))"
  shows "ordered (add_undo_manifest tx op m)" "retain_known m (add_undo_manifest tx op m) = m"
    "set m \<subseteq> set (add_undo_manifest tx op m)"
    "\<And>p. p \<in> paths_of (add_undo_manifest tx op m) \<Longrightarrow> p \<in> paths_of m
       \<or> starts_with p (undo_resource_path (tx_artifacts tx) (operation_index op))"
proof -
  let ?u = "undo_resource_path (tx_artifacts tx) (operation_index op)"
  have known: "retain_known m m = m" by (auto simp: retain_known_def list_ex_iff intro!: filter_True)
  have "ordered (add_undo_manifest tx op m) \<and> retain_known m (add_undo_manifest tx op m) = m
      \<and> set m \<subseteq> set (add_undo_manifest tx op m)
      \<and> (\<forall>p \<in> paths_of (add_undo_manifest tx op m). p \<in> paths_of m \<or> starts_with p ?u)"
  proof (cases "undo_root op")
    case None
    with o known show ?thesis by (simp add: add_undo_manifest_def)
  next
    case (Some q)
    let ?below = "filter (\<lambda>e. starts_with (me_path e) q) m"
    let ?new = "map (\<lambda>e. missing_manifest (translated_path (me_path e) q ?u)) ?below"
    have paths: "map me_path ?new = map (\<lambda>p. translated_path p q ?u) (map me_path ?below)"
      by (simp add: missing_manifest_def)
    have below: "starts_with (me_path e) ?u" if "e \<in> set ?new" for e
      using that by (auto simp: missing_manifest_def translated_starts)
    have apart: "p \<notin> paths_of ?new" if "p \<in> paths_of m" for p using below u [OF that] by blast
    have "distinct (map me_path ?below)" using o by (simp add: ordered_sorted distinct_map_filter)
    moreover have "inj_on (\<lambda>p. translated_path p q ?u) (set (map me_path ?below))"
      by (auto simp: inj_on_def translated_inject)
    ultimately have "distinct (map me_path ?new)" unfolding paths by (simp only: distinct_map simp_thms)
    with o apart have d: "distinct (map me_path (m @ ?new))" by (auto simp: ordered_sorted)
    have "retain_known m (m @ ?new) = m"
      using known apart by (auto simp: retain_known_def list_ex_iff filter_empty_conv)
    then have "retain_known m (sort_key me_path (m @ ?new)) = m"
      using o by (simp add: retain_known_def filter_sort sort_key_id_if_sorted ordered_sorted del: filter_append)
    then show ?thesis
      using ordered_sort [OF d] below by (auto simp: add_undo_manifest_def Some Let_def)
  qed
  then show "ordered (add_undo_manifest tx op m)" "retain_known m (add_undo_manifest tx op m) = m"
    "set m \<subseteq> set (add_undo_manifest tx op m)"
    "\<And>p. p \<in> paths_of (add_undo_manifest tx op m) \<Longrightarrow> p \<in> paths_of m \<or> starts_with p ?u" by blast+
qed

lemma apart_step:
  assumes f: "fresh_artifacts tx" and m: "apart tx k m" and k: "k < length (tx_operations tx)"
    and a: "operation_after sha tx (tx_operations tx ! k) (add_undo_manifest tx (tx_operations tx ! k) m) seen identity = Some (Inr after)"
  shows "apart tx (Suc k) after"
proof -
  let ?op = "tx_operations tx ! k"
  let ?u = "undo_resource_path (tx_artifacts tx) (operation_index ?op)"
  have o: "ordered m" using m by (simp add: apart_def)
  note undo = add_undo_laws [OF o apart_undo [OF f m k]]
  note g = operation_after_grows [OF a undo(1)]
  have "\<exists>j<Suc k. starts_with p (undo_resource_path (tx_artifacts tx) (operation_index (tx_operations tx ! j)))"
    if p: "p \<in> paths_of after" "starts_with p (tx_artifacts tx)" for p
  proof -
    from g p(1) undo(4) consider "p \<in> paths_of m" | "starts_with p ?u" | q where "q \<in> set (op_paths ?op)" "starts_with p q"
      unfolding targets_def by blast
    then show ?thesis
    proof cases
      case 1
      with m p(2) show ?thesis unfolding apart_def by (meson less_Suc_eq)
    next
      case 3
      with f k have "\<not> starts_with q (tx_artifacts tx)" "\<not> starts_with (tx_artifacts tx) q"
        unfolding fresh_artifacts_def by auto
      with 3(2) p(2) show ?thesis by (metis prefix_same_cases starts_with_def)
    qed blast
  qed
  with g show ?thesis by (auto simp: apart_def)
qed

text \<open>The manifests before each recorded effect and after the last.\<close>

fun journal_chain ::
  "(string \<Rightarrow> string) \<Rightarrow> transaction_record \<Rightarrow> manifest_entry list \<Rightarrow> canonical_operation list \<Rightarrow> commit_effect list \<Rightarrow> bool" where
  "journal_chain sha tx m ops [] \<longleftrightarrow> True"
| "journal_chain sha tx m [] (effect # effects) \<longleftrightarrow> False"
| "journal_chain sha tx m (op # ops) (effect # effects) \<longleftrightarrow>
     (case ef_after effect of
        None \<Rightarrow> False
      | Some after \<Rightarrow>
          ef_index effect = operation_index op \<and> ef_before effect = add_undo_manifest tx op m
          \<and> (\<exists>seen identity. operation_after sha tx op (add_undo_manifest tx op m) seen identity = Some (Inr after))
          \<and> journal_chain sha tx after ops effects)"

lemma check_effects_chain:
  "check_effects sha tx m ops effects = Some (Inr ()) \<Longrightarrow> list_all (\<lambda>e. ef_after e \<noteq> None) effects \<Longrightarrow> journal_chain sha tx m ops effects"
proof (induction sha tx m ops effects rule: check_effects.induct)
  case (3 sha tx m op ops effect effects)
  then show ?case
    by (auto simp: Let_def split: option.splits sum.splits if_splits)
qed simp_all

section \<open>Undoing the chain\<close>

lemma undo_chain_append: "undo_chain effects (xs @ ys) m = Option.bind (undo_chain effects xs m) (undo_chain effects ys)"
proof (induction xs arbitrary: m)
  case (Cons x xs)
  show ?case by (cases "reverse_manifest effects x") (simp_all add: Cons.IH)
qed simp

lemma chain_undone:
  assumes f: "fresh_artifacts tx"
  shows "journal_chain sha tx m (drop (length pre) (tx_operations tx)) effects \<Longrightarrow> apart tx (length pre) m
    \<Longrightarrow> map ef_index pre = map operation_index (take (length pre) (tx_operations tx))
    \<Longrightarrow> (pre \<noteq> [] \<longrightarrow> ef_after (last pre) = Some m)
    \<Longrightarrow> undo_chain (pre @ effects) (rev effects) (if effects = [] then m else the (ef_after (last effects)))
        = Some (if pre = [] \<and> effects \<noteq> [] then add_undo_manifest tx (hd (tx_operations tx)) m else m)"
proof (induction effects arbitrary: m pre)
  case (Cons effect effects)
  let ?k = "length pre"
  from Cons.prems(1) have k: "?k < length (tx_operations tx)"
    by (cases "?k < length (tx_operations tx)") simp_all
  let ?op = "tx_operations tx ! ?k"
  let ?before = "add_undo_manifest tx ?op m"
  have drop: "drop ?k (tx_operations tx) = ?op # drop (Suc ?k) (tx_operations tx)"
    by (rule Cons_nth_drop_Suc [OF k, symmetric])
  with Cons.prems(1) obtain after seen identity where e: "ef_after effect = Some after"
    "ef_index effect = operation_index ?op" "ef_before effect = ?before"
    "operation_after sha tx ?op ?before seen identity = Some (Inr after)"
    "journal_chain sha tx after (drop (Suc ?k) (tx_operations tx)) effects"
    by (auto split: option.splits)
  have "map operation_index (take (Suc ?k) (tx_operations tx)) = map ef_index (pre @ [effect])"
    using Cons.prems(3) e(2) by (simp add: take_Suc_conv_app_nth [OF k])
  then have rest: "undo_chain (pre @ effect # effects) (rev effects) (if effects = [] then after else the (ef_after (last effects))) = Some after"
    using Cons.IH [of after "pre @ [effect]"] e(1,5) apart_step [OF f Cons.prems(2) k e(4)] by simp
  have index: "ef_index effect \<notin> set (map ef_index pre)"
  proof
    assume "ef_index effect \<in> set (map ef_index pre)"
    then have "operation_index ?op \<in> set (map operation_index (take ?k (tx_operations tx)))"
      using Cons.prems(3) e(2) by simp
    moreover have "distinct (map operation_index (take ?k (tx_operations tx) @ [?op]))"
      using f unfolding fresh_artifacts_def by (metis distinct_take take_Suc_conv_app_nth [OF k] take_map)
    ultimately show False by simp
  qed
  then have "ef_index x \<noteq> ef_index effect" if "x \<in> set pre" for x using that by (metis image_eqI list.set_map)
  then have "takeWhile (\<lambda>x. ef_index x \<noteq> ef_index effect) (pre @ effect # effects) = pre"
    by (simp add: takeWhile_append2)
  then have "reverse_manifest (pre @ effect # effects) effect
      = Some (if pre = [] then ?before else retain_known m ?before)"
    using Cons.prems(4) e(3) by (simp add: reverse_manifest_def effect_before_def Let_def)
  moreover have "retain_known m ?before = m"
    by (rule add_undo_laws(2)) (use Cons.prems(2) apart_undo [OF f Cons.prems(2) k] in \<open>auto simp: apart_def\<close>)
  ultimately have "undo_chain (pre @ effect # effects) [effect] after = Some (if pre = [] then ?before else m)"
    using e(1) by simp
  with rest e(1) have "undo_chain (pre @ effect # effects) (rev (effect # effects)) (the (ef_after (last (effect # effects))))
      = Some (if pre = [] then ?before else m)"
    by (auto simp: undo_chain_append split: if_splits)
  moreover have "hd (tx_operations tx) = ?op" if "pre = []" using that k by (simp add: hd_conv_nth)
  ultimately show ?case by simp
qed simp

section \<open>The initial manifest\<close>

text \<open>
  What an accepted plan's before-manifest gives: it is in path order, covers the intended one, and a
  directory it certifies has the digest of the children it lists.
\<close>

definition covering :: "(string \<Rightarrow> string) \<Rightarrow> transaction_record \<Rightarrow> bool" where
  "covering sha tx \<longleftrightarrow> ordered (tx_before tx) \<and> paths_of (tx_intended tx) \<subseteq> paths_of (tx_before tx)
     \<and> (\<forall>e \<in> set (tx_before tx). me_kind e = DirectoryKind \<longrightarrow> me_content e \<noteq> None \<longrightarrow>
          (\<forall>children. listed_children (tx_before tx) (me_path e) = Some children \<longrightarrow> me_content e = Some (membership_digest sha children)))"

lemma ordered_ext: "ordered m \<Longrightarrow> ordered m' \<Longrightarrow> set m = set m' \<Longrightarrow> m = m'"
proof -
  assume "ordered m" "ordered m'" "set m = set m'"
  moreover from this have "inj_on me_path (set m \<union> set m')" by (simp add: ordered_sorted distinct_map)
  ultimately show ?thesis
    unfolding ordered_sorted by (metis inj_on_map_eq_map list.set_map sorted_distinct_set_unique)
qed

lemma insert_all_keys: "fst ` set (fold (\<lambda>e. bt_insert (me_path e) e) es E) = paths_of es \<union> fst ` set E"
  by (induction es arbitrary: E) auto

lemma find_path: "distinct (map me_path m) \<Longrightarrow> List.find (\<lambda>e. me_path e = p) m = Some e \<longleftrightarrow> e \<in> set m \<and> me_path e = p"
  by (induction m) auto

lemma initial_entries:
  assumes "covering sha tx"
  shows "map snd (fold (\<lambda>e. bt_insert (me_path e) e) (tx_before tx)
      (bt_of_list (map (\<lambda>e. (me_path e, missing_manifest (me_path e))) (tx_intended tx)))) = tx_before tx"
proof -
  let ?absent = "bt_of_list (map (\<lambda>e. (me_path e, missing_manifest (me_path e))) (tx_intended tx))"
  let ?all = "fold (\<lambda>e. bt_insert (me_path e) e) (tx_before tx) ?absent"
  have "?absent = fold (\<lambda>e. bt_insert (me_path e) e) (map (\<lambda>e. missing_manifest (me_path e)) (tx_intended tx)) []"
    by (simp add: bt_of_list_def fold_map comp_def missing_manifest_def)
  then have absent: "keyed ?absent" "fst ` set ?absent = paths_of (tx_intended tx)"
    by (simp_all add: insert_all_keyed insert_all_keys keyed_def [of "[]"] missing_manifest_def image_image)
  then have k: "keyed ?all" by (simp add: insert_all_keyed)
  have o: "ordered (tx_before tx)" and d: "distinct (map me_path (tx_before tx))"
    using assms by (simp_all add: covering_def ordered_sorted)
  have keys: "fst ` set ?all = paths_of (tx_before tx)"
    using assms absent(2) by (auto simp: insert_all_keys covering_def)
  have get: "bt_get ?all p = Some e \<longleftrightarrow> e \<in> set (tx_before tx) \<and> me_path e = p" if p: "p \<in> paths_of (tx_before tx)" for p e
  proof -
    obtain e' where "e' \<in> set (tx_before tx)" "me_path e' = p" using p by blast
    then have "List.find (\<lambda>e. me_path e = p) (tx_before tx) = Some e'" using find_path [OF d] by blast
    then show ?thesis unfolding insert_all_get [OF d] using find_path [OF d, of p e] by simp
  qed
  have "set (map snd ?all) = set (tx_before tx)"
  proof (intro set_eqI iffI)
    fix e assume "e \<in> set (map snd ?all)"
    then obtain p where p: "(p, e) \<in> set ?all" by auto
    have "bt_get ?all p = Some e" by (rule keyed_mem [OF k p])
    moreover have "p \<in> paths_of (tx_before tx)" using keys p by force
    ultimately show "e \<in> set (tx_before tx)" using get by blast
  next
    fix e assume "e \<in> set (tx_before tx)"
    then have "bt_get ?all (me_path e) = Some e" using get [of "me_path e" e] by blast
    from map_of_SomeD [OF this] show "e \<in> set (map snd ?all)" by force
  qed
  then show ?thesis using ordered_ext [OF _ o] ordered_keyed [OF k] by blast
qed

text \<open>What the refresh of directories leaves of the before-manifest.\<close>

lemma listed_children_cong:
  assumes v: "map (\<lambda>e. (me_path e, me_exists e, me_kind e)) m = map (\<lambda>e. (me_path e, me_exists e, me_kind e)) m'"
  shows "listed_children m p = listed_children m' p"
proof -
  let ?v = "\<lambda>e. (me_path e, me_exists e, me_kind e)"
  let ?name = "\<lambda>(q, x, k). case file_name q of Some n \<Rightarrow> if utf8_valid n then Some (n, k) else None | None \<Rightarrow> None"
  let ?listed = "\<lambda>vs. map_option bt_of_list (those (map ?name (filter (\<lambda>(q, x, k). x \<and> parent q = Some p) vs)))"
  have "map (\<lambda>e. case file_name (me_path e) of Some n \<Rightarrow> if utf8_valid n then Some (n, me_kind e) else None | None \<Rightarrow> None)
      (filter (\<lambda>e. me_exists e \<and> parent (me_path e) = Some p) es)
    = map ?name (filter (\<lambda>(q, x, k). x \<and> parent q = Some p) (map ?v es))" for es
    by (induction es) auto
  then have l: "listed_children es p = ?listed (map ?v es)" for es
    unfolding listed_children_def by (rule arg_cong)
  have eq: "?listed (map ?v m) = ?listed (map ?v m')" by (rule arg_cong [OF v])
  show ?thesis by (rule trans [OF l [of m] trans [OF eq l [of m', symmetric]]])
qed

lemma initial_manifest:
  assumes c: "covering sha tx" and start: "initial_progress_manifest sha tx = Some start"
  shows "ordered start" "paths_of start = paths_of (tx_before tx)" "e \<in> set (tx_before tx) \<Longrightarrow>
    \<exists>a \<in> set start. me_path a = me_path e \<and> entry_mismatch e a = None"
proof -
  let ?m = "map (certify_relocated (tx_operations tx)) (tx_before tx)"
  have r: "refresh_membership sha ?m = Some start"
    using start by (simp add: initial_progress_manifest_def Let_def initial_entries [OF c] del: map_map)
  have v: "map (\<lambda>e. (me_path e, me_exists e, me_kind e)) ?m = map (\<lambda>e. (me_path e, me_exists e, me_kind e)) (tx_before tx)"
    by (simp add: certify_relocated_def)
  have all2: "list_all2 same_resource ?m start" by (rule refresh_membership_same [OF r])
  have paths: "map me_path start = map me_path (tx_before tx)"
    using same_resources_paths [OF all2] by (simp add: certify_relocated_def comp_def if_distrib cong: if_cong)
  then show "paths_of start = paths_of (tx_before tx)" by (metis list.set_map)
  show "ordered start" using c paths by (simp add: covering_def ordered_def)
  assume e: "e \<in> set (tx_before tx)"
  let ?c = "certify_relocated (tx_operations tx) e"
  have entries: "list_all2 (\<lambda>x a. refresh_entry sha ?m (certify_relocated (tx_operations tx) x) = Some a) (tx_before tx) start"
    using those_map_all2 [OF r [unfolded refresh_membership_def]] by (simp add: list_all2_map1)
  obtain i where i: "i < length (tx_before tx)" "e = tx_before tx ! i" using e by (auto simp: in_set_conv_nth)
  obtain a where a: "a \<in> set start" "refresh_entry sha ?m ?c = Some a"
  proof
    show "start ! i \<in> set start" using i(1) list_all2_lengthD [OF entries] by simp
    show "refresh_entry sha ?m ?c = Some (start ! i)" using list_all2_nthD [OF entries i(1)] i(2) by simp
  qed
  note same = refresh_entry_same [OF a(2)]
  have "me_content a = me_content e" if "me_content e \<noteq> None"
  proof (cases "me_kind e = DirectoryKind")
    case True
    note some = that
    with True have "me_kind ?c = DirectoryKind" "me_content ?c \<noteq> None" "me_path ?c = me_path e" by (simp_all add: certify_relocated_def)
    with a(2) obtain children where "listed_children ?m (me_path e) = Some children" "me_content a = Some (membership_digest sha children)"
      by (auto simp: refresh_entry_def)
    with c e some True listed_children_cong [OF v] show ?thesis by (simp add: covering_def)
  next
    case False
    then have "?c = e" by (simp add: certify_relocated_def)
    with a(2) False show ?thesis by (simp add: refresh_entry_def)
  qed
  then have content: "me_content e = None \<or> me_content a = me_content e" by blast
  have fields: "me_path a = me_path e" "me_exists a = me_exists e" "me_kind a = me_kind e"
    "me_identity a = me_identity e" "me_metadata a = me_metadata e"
    using same by (simp_all add: same_resource_def certify_relocated_def split: if_splits)
  then have "entry_mismatch e a = None" using content by (auto simp: entry_mismatch_def)
  with a(1) fields(1) show "\<exists>a \<in> set start. me_path a = me_path e \<and> entry_mismatch e a = None" by blast
qed

section \<open>Complete journals are restorable\<close>

lemma initial_apart:
  assumes "covering sha tx" "initial_progress_manifest sha tx = Some start"
    and "\<And>p. p \<in> paths_of (tx_before tx) \<Longrightarrow> \<not> starts_with p (tx_artifacts tx)"
  shows "apart tx 0 start"
  using initial_manifest(1,2) [OF assms(1,2)] assms(3) by (simp add: apart_def)

theorem journal_restorable:
  assumes c: "covering sha tx" and f: "fresh_artifacts tx"
    and a: "\<And>p. p \<in> paths_of (tx_before tx) \<Longrightarrow> \<not> starts_with p (tx_artifacts tx)"
    and p: "check_progress sha tx progress = Some (Inr ())" "pr_effects progress \<noteq> []"
      "list_all (\<lambda>e. ef_after e \<noteq> None) (pr_effects progress)"
  shows "restorable tx (pr_effects progress)"
proof -
  obtain start where start: "initial_progress_manifest sha tx = Some start"
    "check_effects sha tx start (tx_operations tx) (pr_effects progress) = Some (Inr ())"
    using p(1) by (auto simp: check_progress_def Let_def split: option.splits if_splits)
  note i = initial_manifest [OF c start(1)] and ap = initial_apart [OF c start(1) a]
  have ops: "tx_operations tx \<noteq> []" using check_progress_length [OF p(1)] p(2) by auto
  let ?op = "hd (tx_operations tx)" and ?reversed = "add_undo_manifest tx (hd (tx_operations tx)) start"
  have "undo_chain (pr_effects progress) (rev (pr_effects progress)) (the (ef_after (last (pr_effects progress)))) = Some ?reversed"
    using chain_undone [OF f, of sha start "[]" "pr_effects progress"] check_effects_chain [OF start(2) p(3)] p(2) ap by simp
  moreover have "manifest_mismatches (tx_before tx) ?reversed = []"
  proof -
    have "\<not> starts_with q (undo_resource_path (tx_artifacts tx) (operation_index ?op))" if "q \<in> paths_of start" for q
      using apart_undo [OF f ap, of q] ops that by (simp add: hd_conv_nth)
    note undo = add_undo_laws [OF i(1) this]
    have d: "distinct (map me_path ?reversed)" using undo(1) by (simp add: ordered_sorted)
    have "\<exists>b. List.find (\<lambda>b. me_path b = me_path e) ?reversed = Some b \<and> entry_mismatch e b = None" if "e \<in> set (tx_before tx)" for e
      using i(3) [OF that] undo(3) find_path [OF d] by blast
    then show ?thesis by (fastforce simp: manifest_mismatches_def map_filter_def filter_empty_conv)
  qed
  ultimately show ?thesis using p(2,3) by (simp add: restorable_def)
qed

end
