(* ===== verification/Plan_Indices.thy ===== *)
theory Plan_Indices
  imports Plan_Laws Transaction
begin

text \<open>
  The operations of a plan carry the index of the change they come from, so their indices increase.
\<close>

definition numbers :: "nat \<Rightarrow> plan_state \<Rightarrow> plan_state option \<Rightarrow> bool" where
  "numbers index s r \<longleftrightarrow> (\<forall>s'. r = Some s' \<longrightarrow> ps_operations s' = ps_operations s
     \<or> (\<exists>op. ps_operations s' = ps_operations s @ [op] \<and> operation_index op = index))"

lemma numbers_simps [simp]:
  "numbers index s None"
  "numbers index s (Some s') \<longleftrightarrow> ps_operations s' = ps_operations s
     \<or> (\<exists>op. ps_operations s' = ps_operations s @ [op] \<and> operation_index op = index)"
  "ps_operations (push_problem p s) = ps_operations s"
  "ps_operations (push_operation op s) = ps_operations s @ [op]"
  by (auto simp: numbers_def push_problem_def push_operation_def)

lemma numbers_attempt: "(\<And>a. numbers index s (f a s)) \<Longrightarrow> numbers index s (attempt r f s)"
  by (auto simp: attempt_def split: sum.splits)

lemma numbers_load:
  "(\<And>vw. numbers index (s\<lparr>ps_workspace := vw\<rparr>) (f (s\<lparr>ps_workspace := vw\<rparr>))) \<Longrightarrow> numbers index s (attempt_load m f s)"
  by (auto simp: attempt_load_def numbers_def split: option.splits sum.splits)

lemmas numbers_intros = numbers_attempt numbers_load

lemma plan_text_edits_numbers: "numbers index s (plan_text_edits env pl index uri p raw annotations st bytes s)"
  by (auto simp: plan_text_edits_def Let_def push_operation_def push_problem_def split: prod.splits option.splits)

lemma loaded_numbers:
  "numbers index s (text_loaded env pl index uri v annotations d p s)"
  "numbers index s (create_loaded env pl index operation uri p s)"
  "numbers index s (rename_trees env pl index old_uri new_uri old new o1 o2 s)"
  "numbers index s (rename_loaded env pl index operation old_uri new_uri old new s)"
  "numbers index s (delete_loaded index operation uri p s)"
proof -
  show trees: "numbers index s (rename_trees env pl index old_uri new_uri old new o1 o2 s)" for s o1 o2
    by (auto simp: rename_trees_def Let_def intro!: numbers_intros)
  show "numbers index s (text_loaded env pl index uri v annotations d p s)"
    by (auto simp: text_loaded_def Let_def plan_text_edits_numbers split: option.splits)
  show "numbers index s (create_loaded env pl index operation uri p s)"
    by (auto simp: create_loaded_def Let_def intro!: numbers_intros split: option.splits)
  show "numbers index s (rename_loaded env pl index operation old_uri new_uri old new s)"
    by (auto simp: rename_loaded_def Let_def intro!: numbers_load trees split: option.splits)
  show "numbers index s (delete_loaded index operation uri p s)"
    by (auto simp: delete_loaded_def Let_def split: option.splits)
qed

lemma operation_numbers:
  "numbers index s (plan_text_operation env pl index uri v annotations d s)"
  "numbers index s (plan_create_operation env pl index operation annotations s)"
  "numbers index s (plan_rename_operation env pl index operation annotations s)"
  "numbers index s (plan_delete_operation env pl index operation annotations s)"
  by (auto simp: plan_text_operation_def plan_create_operation_def plan_rename_operation_def plan_delete_operation_def
      intro!: numbers_intros loaded_numbers split: option.splits)

lemma change_numbers: "numbers index s (plan_change env pl preconditions annotations index change s)"
  by (auto simp: plan_change_def plan_document_edit_def Let_def operation_numbers intro!: numbers_attempt split: option.splits)

definition numbered :: "nat \<Rightarrow> plan_state \<Rightarrow> bool" where
  "numbered n s \<longleftrightarrow> sorted_wrt (<) (map operation_index (ps_operations s))
     \<and> (\<forall>op \<in> set (ps_operations s). operation_index op < n)"

lemma numbers_next: "numbers n s (Some s') \<Longrightarrow> numbered n s \<Longrightarrow> numbered (n + 1) s'"
  by (fastforce simp: numbered_def sorted_wrt_append)

lemma changes_numbered:
  "plan_changes env pl preconditions annotations n changes s = Some s' \<Longrightarrow> numbered n s \<Longrightarrow> \<exists>k. numbered k s'"
proof (induction changes arbitrary: n s)
  case (Cons change changes)
  then obtain s1 where "plan_change env pl preconditions annotations n change s = Some s1"
    "plan_changes env pl preconditions annotations (n + 1) changes s1 = Some s'"
    by (auto simp: bind_eq_Some_conv)
  with Cons.IH Cons.prems(2) numbers_next [of n s s1] change_numbers show ?case by metis
qed auto

lemma uri_changes_numbered:
  "plan_uri_changes env pl annotations n entries s = Some s' \<Longrightarrow> numbered n s \<Longrightarrow> \<exists>k. numbered k s'"
proof (induction entries arbitrary: n s)
  case (Cons entry entries)
  then obtain uri edits s1 where "entry = (uri, edits)" "plan_text_operation env pl n uri edits annotations None s = Some s1"
    "plan_uri_changes env pl annotations (n + 1) entries s1 = Some s'"
    by (cases entry) (auto simp: bind_eq_Some_conv)
  with Cons.IH Cons.prems(2) numbers_next [of n s s1] operation_numbers(1) show ?case by metis
qed auto

lemma finish_plan_operations: "finish_plan env pl annotations s = Some (Inr planned) \<Longrightarrow> cp_operations (pw_plan planned) = ps_operations s"
  by (auto elim: finish_plan_accepted)

lemma accepted_plan_indices:
  assumes "plan_workspace_edit_with_document_preconditions env pl edit preconditions = Some (Inr planned)"
  shows "sorted_wrt (<) (map operation_index (cp_operations (pw_plan planned)))"
proof -
  have start: "numbered 0 initial_plan_state" by (simp add: numbered_def initial_plan_state_def)
  note p = assms [unfolded plan_workspace_edit_with_document_preconditions_def Let_def]
  from p consider (none) a where "finish_plan env pl a initial_plan_state = Some (Inr planned)"
    | (uris) a es s b where "plan_uri_changes env pl a 0 es initial_plan_state = Some s" "finish_plan env pl b s = Some (Inr planned)"
    | (docs) a es s b where "plan_changes env pl preconditions a 0 es initial_plan_state = Some s" "finish_plan env pl b s = Some (Inr planned)"
    by (auto simp: bind_eq_Some_conv split: option.splits sum.splits if_splits)
  then obtain s b k where "numbered k s" "finish_plan env pl b s = Some (Inr planned)"
  proof cases
    case none
    with start that show thesis by blast
  next
    case uris
    with uri_changes_numbered [OF uris(1) start] that show thesis by blast
  next
    case docs
    with changes_numbered [OF docs(1) start] that show thesis by blast
  qed
  then show ?thesis by (simp add: numbered_def finish_plan_operations)
qed

end
