(* ===== verification/Undo_Plans.thy ===== *)
theory Undo_Plans
  imports Undo_Chain Plan_Indices
begin

text \<open>
  A transaction of an accepted plan meets what the undo chain needs: its manifests cover its
  operations and certify the directories they list.
\<close>

section \<open>Listings of the disk\<close>

text \<open>What \<open>read_dir\<close> promises besides \<open>posix_fs\<close>: an entry it reports with a kind is there, of that kind.\<close>

definition faithful_listing :: "environment \<Rightarrow> bool" where
  "faithful_listing env \<longleftrightarrow>
     (\<forall>p listing e k. env_read_dir env p = Some listing \<longrightarrow> Some e \<in> set listing \<longrightarrow> de_kind e = Some k
        \<longrightarrow> (\<exists>md. env_lstat env (join_name p (de_name e)) = StatOk md \<and> md_kind md = k))"

definition disk_kind :: "environment \<Rightarrow> path \<Rightarrow> resource_kind option" where
  "disk_kind env p =
     (case env_lstat env p of
        StatOk md \<Rightarrow> Some (if md_kind md = RegularNode then FileKind else DirectoryKind) | _ \<Rightarrow> None)"

lemma collect_children_kinds:
  "collect_children env pl p index listing children = Inr result \<Longrightarrow> bt_get result n = Some k
     \<Longrightarrow> bt_get children n = Some k \<or> (\<exists>e nk. Some e \<in> set listing \<and> de_name e = n \<and> de_kind e = Some nk
           \<and> k = (if nk = RegularNode then FileKind else DirectoryKind))"
proof (induction listing arbitrary: children)
  case (Cons entry listing)
  from Cons.prems(1) obtain e nk where e: "entry = Some e" "de_kind e = Some nk"
    "collect_children env pl p index listing (bt_insert (de_name e) (if nk = RegularNode then FileKind else DirectoryKind) children) = Inr result"
    by (auto simp: Let_def split: option.splits sum.splits if_splits)
  from Cons.IH [OF e(3) Cons.prems(2)] e(1,2) show ?case by (fastforce split: if_splits)
qed simp

lemma directory_children_get:
  assumes fs: "posix_fs env" "faithful_listing env" and p: "confined pl p"
    and c: "directory_children env pl p index = Inr children"
  shows "bt_get children n = disk_kind env (join_name p n)"
proof -
  obtain listing where l: "env_read_dir env p = Some listing" "collect_children env pl p index listing [] = Inr children"
    using c by (auto simp: directory_children_def split: sum.splits option.splits)
  have some: "disk_kind env (join_name p n) = Some k" if k: "bt_get children n = Some k" for k
  proof -
    from collect_children_kinds [OF l(2) k] obtain e nk where "Some e \<in> set listing" "de_name e = n" "de_kind e = Some nk"
      "k = (if nk = RegularNode then FileKind else DirectoryKind)" by auto
    with fs(2) l(1) show ?thesis unfolding faithful_listing_def disk_kind_def by fastforce
  qed
  show ?thesis
  proof (cases "bt_get children n")
    case None
    then have "\<not> on_disk env (join_name p n)"
      using directory_children_ok(3) [OF fs(1) p c] by (auto simp: bt_keys_def map_of_eq_None_iff)
    then show ?thesis using None by (cases "env_lstat env (join_name p n)") (auto simp: on_disk_def disk_kind_def)
  qed (simp add: some)
qed

section \<open>Listings of a manifest\<close>

lemma those_map_inverse: "those (map f xs) = Some ys \<Longrightarrow> ys = map (\<lambda>x. the (f x)) xs"
  by (induction xs arbitrary: ys) (auto split: option.splits)

lemma listed_children_get:
  assumes o: "ordered m" and conf: "\<And>e. e \<in> set m \<Longrightarrow> confined pl (me_path e)" and l: "listed_children m p = Some children"
  shows "bt_ok children" "bt_get children n = Some k \<longleftrightarrow> (\<exists>e \<in> set m. me_exists e \<and> me_path e = join_name p n \<and> me_kind e = k)"
proof -
  let ?es = "filter (\<lambda>e. me_exists e \<and> parent (me_path e) = Some p) m"
  let ?f = "\<lambda>e. case file_name (me_path e) of Some n \<Rightarrow> if utf8_valid n then Some (n, me_kind e) else None | None \<Rightarrow> None"
  let ?g = "\<lambda>e. (the (file_name (me_path e)), me_kind e)"
  have es: "\<exists>n. me_path e = join_name p n \<and> utf8_valid n" if "e \<in> set ?es" for e
    using that conf by (auto intro: join_name_parent)
  have "?f e = Some (?g e)" if e: "e \<in> set ?es" for e using es [OF e] by auto
  moreover obtain ys where "those (map ?f ?es) = Some ys" "children = bt_of_list ys"
    using l by (auto simp: listed_children_def)
  ultimately have c: "children = bt_of_list (map ?g ?es)"
    using those_map_inverse [of ?f ?es] by (auto intro!: arg_cong [of _ _ bt_of_list] map_cong)
  then show "bt_ok children" by simp
  have "distinct (map me_path ?es)" using o by (simp add: ordered_sorted distinct_map_filter)
  moreover have "inj_on (\<lambda>q. the (file_name q)) (set (map me_path ?es))"
  proof (rule inj_onI)
    fix a b assume ab: "a \<in> set (map me_path ?es)" "b \<in> set (map me_path ?es)" "the (file_name a) = the (file_name b)"
    then obtain x y where "x \<in> set ?es" "a = me_path x" "y \<in> set ?es" "b = me_path y" by auto
    with es [of x] es [of y] ab(3) show "a = b" by auto
  qed
  ultimately have "distinct (map (\<lambda>q. the (file_name q)) (map me_path ?es))" by (subst distinct_map) (rule conjI)
  then have distinct: "distinct (map fst (map ?g ?es))" by (simp add: comp_def)
  have "bt_get children n = Some k \<longleftrightarrow> (\<exists>e \<in> set ?es. the (file_name (me_path e)) = n \<and> me_kind e = k)"
    unfolding c bt_get_of_list_iff [OF distinct] by auto
  also have "\<dots> \<longleftrightarrow> (\<exists>e \<in> set m. me_exists e \<and> me_path e = join_name p n \<and> me_kind e = k)"
  proof
    assume "\<exists>e \<in> set ?es. the (file_name (me_path e)) = n \<and> me_kind e = k"
    then obtain e where e: "e \<in> set ?es" "the (file_name (me_path e)) = n" "me_kind e = k" by blast
    with es [OF e(1)] show "\<exists>e \<in> set m. me_exists e \<and> me_path e = join_name p n \<and> me_kind e = k" by auto
  qed auto
  finally show "bt_get children n = Some k \<longleftrightarrow> (\<exists>e \<in> set m. me_exists e \<and> me_path e = join_name p n \<and> me_kind e = k)" .
qed

section \<open>The before-manifest of an accepted plan\<close>

lemma observed_kind:
  assumes "observed env pl m"
  shows "me_exists m \<longleftrightarrow> on_disk env (me_path m)" "on_disk env (me_path m) \<Longrightarrow> disk_kind env (me_path m) = Some (me_kind m)"
proof -
  obtain st where st: "inspect_resource env pl (me_path m) 0 False = Inr st"
    "me_exists m = st_exists st" "me_kind m = st_kind st"
    using assms by (auto simp: observed_def)
  have "(me_exists m \<longleftrightarrow> on_disk env (me_path m)) \<and> (on_disk env (me_path m) \<longrightarrow> disk_kind env (me_path m) = Some (me_kind m))"
    using st(1)
  proof (cases rule: inspect_resource_cases)
    case missing
    then show ?thesis using st by (simp add: on_disk_def missing_resource_def missing_manifest_def)
  qed (use st in \<open>auto simp: on_disk_def disk_kind_def\<close>)
  then show "me_exists m \<longleftrightarrow> on_disk env (me_path m)" "on_disk env (me_path m) \<Longrightarrow> disk_kind env (me_path m) = Some (me_kind m)"
    by blast+
qed

lemma certified_listing:
  assumes fs: "posix_fs env" "faithful_listing env" and ok: "plan_ok env pl s"
    and complete: "complete_before env pl (vw_affected (ps_workspace s)) (vw_before (ps_workspace s)) = Inr before"
    and e: "e \<in> set (map snd before)" "me_kind e = DirectoryKind" "me_content e \<noteq> None"
    and l: "listed_children (map snd before) (me_path e) = Some children"
  shows "me_content e = Some (membership_digest (env_sha env) children)"
proof -
  let ?vw = "ps_workspace s"
  have v: "vw_ok env pl (planned_tree env s) ?vw" using ok by (simp add: plan_ok_def)
  note b = complete_before_ok [OF vw_okD(4) [OF v] complete] and bo = vw_okD(2) [OF v]
  note entry = before_entry [OF fs(1) ok complete] and paths = before_paths [OF fs(1) ok complete]
  obtain p where p: "(p, e) \<in> set before" using e(1) by auto
  note pe = entry [OF p]
  have o: "ordered (map snd before)" unfolding ordered_def paths(1) by (rule paths(2))
  have conf: "confined pl (me_path x)" if "x \<in> set (map snd before)" for x
    using that entry by fastforce
  obtain st where st: "inspect_resource env pl p 0 False = Inr st" "me_kind e = st_kind st"
    "me_content e \<noteq> None \<Longrightarrow> me_content (rs_manifest st) = None \<Longrightarrow> \<exists>listed. directory_children env pl p 0 = Inr listed
       \<and> me_content e = Some (directory_membership_digest env listed)"
    using pe(1,4) by (auto simp: observed_def)
  have plain: "me_content (rs_manifest st) = None"
    using st(1) by (cases rule: inspect_resource_cases) (use st(2) e(2) in \<open>auto simp: missing_resource_def missing_manifest_def\<close>)
  obtain listed where listed: "directory_children env pl p 0 = Inr listed" "me_content e = Some (directory_membership_digest env listed)"
    using st(3) [OF e(3) plain] by blast
  have known: "bt_get (vw_before ?vw) p = Some e"
  proof (cases "bt_get (vw_before ?vw) p")
    case None
    then have "bt_get before p = Some (rs_manifest st) \<or> bt_get before p = None" using b(2) [of p] st(1) by (auto split: if_splits)
    moreover have "bt_get before p = Some e" using p b(1) by (simp add: bt_get_mem)
    ultimately show ?thesis using e(3) plain by auto
  next
    case (Some m)
    then have "(p, m) \<in> set before" using b(1) b(2) [of p] by (simp add: bt_get_mem)
    with Some p bt_ok_unique [OF b(1)] show ?thesis by blast
  qed
  have child: "(\<exists>x \<in> set (map snd before). me_exists x \<and> me_path x = join_name p n \<and> me_kind x = k) \<longleftrightarrow> disk_kind env (join_name p n) = Some k" for n k
  proof
    assume "\<exists>x \<in> set (map snd before). me_exists x \<and> me_path x = join_name p n \<and> me_kind x = k"
    then show "disk_kind env (join_name p n) = Some k" using entry(4) observed_kind by fastforce
  next
    assume d: "disk_kind env (join_name p n) = Some k"
    then have on: "on_disk env (join_name p n)" by (auto simp: disk_kind_def on_disk_def split: stat_result.splits)
    then have "bt_get (vw_before ?vw) (join_name p n) \<noteq> None"
      using before_okD(3) [OF bo known e(2,3)] before_okD(5) [OF bo] by blast
    then obtain x where "bt_get before (join_name p n) = Some x" using b(2) [of "join_name p n"] by auto
    then have x: "(join_name p n, x) \<in> set before" using b(1) by (simp add: bt_get_mem)
    from entry [OF x] observed_kind [of env pl x] on d
    show "\<exists>x \<in> set (map snd before). me_exists x \<and> me_path x = join_name p n \<and> me_kind x = k" using x by force
  qed
  have "bt_get listed n = bt_get children n" for n
  proof (rule option.expand)
    note g = listed_children_get(2) [OF o conf l [unfolded pe(1)], of n] child [of n]
      directory_children_get [OF fs pe(2) listed(1), of n]
    show "(bt_get listed n = None) = (bt_get children n = None)" using g by (metis not_Some_eq)
    show "the (bt_get listed n) = the (bt_get children n)" if "bt_get listed n \<noteq> None" "bt_get children n \<noteq> None" using g that by force
  qed
  then have "listed = children"
    by (intro bt_ext directory_children_ok(1) [OF fs(1) pe(2) listed(1)] listed_children_get(1) [OF o conf l]) auto
  with listed(2) show ?thesis by (simp add: directory_membership_digest_def)
qed

section \<open>The property\<close>

text \<open>A transaction an Application makes of a plan, with an artifact directory that no path of the plan is in.\<close>

definition transaction_of :: "planner \<Rightarrow> canonical_plan \<Rightarrow> transaction_record \<Rightarrow> bool" where
  "transaction_of pl plan tx \<longleftrightarrow>
     tx_operations tx = cp_operations plan \<and> tx_before tx = cp_before plan \<and> tx_intended tx = cp_intended plan
     \<and> tx_artifacts tx = join_name (pl_workspace pl) (''.lspctl-'' @ tx_id tx)
     \<and> \<not> list_ex (\<lambda>e. starts_with (me_path e) (tx_artifacts tx)) (cp_before plan)"

lemma confined_not_above: "confined pl p \<Longrightarrow> starts_with (join_name (pl_workspace pl) n) p \<Longrightarrow> p = join_name (pl_workspace pl) n"
proof -
  assume c: "confined pl p" "starts_with (join_name (pl_workspace pl) n) p"
  then obtain names r where n: "names \<noteq> []" "p = pl_workspace pl @ map Normal names" "join_name (pl_workspace pl) n = p @ r"
    by (auto simp: confined_def starts_with_iff)
  then have "[Normal n] = map Normal names @ r" by (simp add: join_name_def)
  with n(1,3) show ?thesis by (cases names) auto
qed

lemma plan_transaction:
  assumes fs: "posix_fs env" "faithful_listing env" "pl_max_recursion_depth pl < u64_max"
    and plan: "plan_workspace_edit_with_document_preconditions env pl edit preconditions = Some (Inr planned)"
    and tx: "transaction_of pl (pw_plan planned) tx"
  shows "covering (env_sha env) tx \<and> fresh_artifacts tx \<and> (\<forall>p \<in> paths_of (tx_before tx). \<not> starts_with p (tx_artifacts tx))"
proof (rule accepted_plan_manifests [OF fs(1,3) plan])
  fix s before
  assume s: "plan_ok env pl s"
    "complete_before env pl (vw_affected (ps_workspace s)) (vw_before (ps_workspace s)) = Inr before"
    "cp_operations (pw_plan planned) = ps_operations s" "cp_before (pw_plan planned) = map snd before"
    "map me_path (cp_intended (pw_plan planned)) = vw_affected (ps_workspace s)"
  note paths = before_paths [OF fs(1) s(1,2)]
  have before: "paths_of (tx_before tx) = set (map fst before)"
    using tx s(4) paths(1) unfolding transaction_of_def by (metis list.set_map)
  have intended: "paths_of (tx_intended tx) = set (vw_affected (ps_workspace s))"
    using tx s(5) unfolding transaction_of_def by (metis list.set_map)
  have apart: "\<not> starts_with p (tx_artifacts tx)" if "p \<in> paths_of (tx_before tx)" for p
    using tx that unfolding transaction_of_def by (auto simp: list_ex_iff)
  have "covering (env_sha env) tx"
    unfolding covering_def
  proof (intro conjI ballI impI allI)
    show "ordered (tx_before tx)" using tx s(4) paths(1,2) unfolding transaction_of_def ordered_def by metis
    show "paths_of (tx_intended tx) \<subseteq> paths_of (tx_before tx)" unfolding before intended by (rule paths(3))
  next
    fix e children assume "e \<in> set (tx_before tx)" "me_kind e = DirectoryKind" "me_content e \<noteq> None"
      "listed_children (tx_before tx) (me_path e) = Some children"
    then show "me_content e = Some (membership_digest (env_sha env) children)"
      using tx s(4) certified_listing [OF fs(1,2) s(1,2)] unfolding transaction_of_def by metis
  qed
  moreover have "fresh_artifacts tx"
    unfolding fresh_artifacts_def
  proof (intro conjI ballI)
    show "distinct (map operation_index (tx_operations tx))"
      using accepted_plan_indices [OF plan] tx unfolding transaction_of_def by (simp add: sorted_wrt_distinct)
  next
    fix op p assume op: "op \<in> set (tx_operations tx)" "p \<in> set (op_paths op)"
    have "set (concat (map op_paths (ps_operations s))) \<subseteq> set (vw_affected (ps_workspace s))"
      using s(1) by (auto simp: plan_ok_def operations_ok_def)
    then have p: "p \<in> paths_of (tx_before tx)"
      using op tx s(3) paths(3) unfolding before transaction_of_def by auto
    then show "\<not> starts_with p (tx_artifacts tx)" by (rule apart)
    have "confined pl p" using p before_entry(2) [OF fs(1) s(1,2)] unfolding before by fastforce
    with apart [OF p] tx show "\<not> starts_with (tx_artifacts tx) p"
      unfolding transaction_of_def using confined_not_above by fastforce
  qed
  ultimately show ?thesis using apart by blast
qed

text \<open>
  C11. A journal never blocks its own rollback. Take the transaction an Application makes of an accepted plan,
  on a disk whose listings are faithful, with an artifact directory of its own, and any journal of it that
  is valid and has no uncertain effect. Then the effects it records form an undo chain: undone
  from the last to the first, every step finds the manifest it expects, the undo paths each
  operation added drop out, and what remains at the end matches the whole before-manifest. So the
  preflight of a rollback cannot refuse it for its chain or for its preconditions.
\<close>

theorem complete_journal_is_restorable:
  assumes fs: "posix_fs env" "faithful_listing env" "pl_max_recursion_depth pl < u64_max"
    and plan: "plan_workspace_edit_with_document_preconditions env pl edit preconditions = Some (Inr planned)"
    and tx: "transaction_of pl (pw_plan planned) tx"
    and journal: "check_progress (env_sha env) tx progress = Some (Inr ())"
      "pr_effects progress \<noteq> []" "list_all (\<lambda>e. ef_after e \<noteq> None) (pr_effects progress)"
  shows "restorable tx (pr_effects progress)"
  using plan_transaction [OF fs plan tx] journal_restorable [OF _ _ _ journal] by blast

end
