(* ===== verification/Commit_Samples.thy ===== *)
theory Commit_Samples
  imports Undo_Plans Text_Output_Laws
begin

text \<open>
  A host in memory, and the commit of a concrete plan on it: an edit of a file and then its deletion. Handles are inodes.
\<close>

section \<open>A host in memory\<close>

type_synonym memory = "disk \<times> commit_progress option"

definition on_inode :: "(metadata \<times> string \<Rightarrow> metadata \<times> string) \<Rightarrow> nat \<Rightarrow> memory \<Rightarrow> memory \<times> (string + unit)" where
  "on_inode f h w = ((map (\<lambda>(p, x). (p, if md_inode (fst x) = h then f x else x)) (fst w), snd w), Inr ())"

definition of_inode :: "(metadata \<times> string \<Rightarrow> 'a) \<Rightarrow> nat \<Rightarrow> memory \<Rightarrow> memory \<times> (string + 'a)" where
  "of_inode f h w = (w, case List.find (\<lambda>e. md_inode (fst (snd e)) = h) (fst w) of
      Some e \<Rightarrow> Inr (f (snd e)) | None \<Rightarrow> Inl ''no such handle'')"

definition put_bytes :: "string \<Rightarrow> metadata \<times> string \<Rightarrow> metadata \<times> string" where
  "put_bytes b x = ((fst x)\<lparr>md_len := length b\<rparr>, b)"

definition memory_open :: "open_mode \<Rightarrow> path \<Rightarrow> memory \<Rightarrow> memory \<times> (string + nat)" where
  "memory_open m r w =
     (case map_of (fst w) (root_path @ r) of
        Some x \<Rightarrow> (w, if m = CreateNew then Inl ''exists'' else Inr (md_inode (fst x)))
      | None \<Rightarrow> if m = CreateNew
          then ((fst w @ [(root_path @ r, sample_node RegularNode (100 + length (fst w)) 1 [])], snd w), Inr (100 + length (fst w)))
          else (w, Inl ''not found''))"

definition memory_rename :: "path \<Rightarrow> path \<Rightarrow> memory \<Rightarrow> memory \<times> (string + unit)" where
  "memory_rename r r' w =
     (if map_of (fst w) (root_path @ r) = None then (w, Inl ''not found'')
      else ((map (\<lambda>(p, x). (if starts_with p (root_path @ r) then translated_path p (root_path @ r) (root_path @ r') else p, x)) (fst w), snd w), Inr ()))"

definition memory_remove :: "path \<Rightarrow> memory \<Rightarrow> memory \<times> (string + unit)" where
  "memory_remove r w =
     (if map_of (fst w) (root_path @ r) = None then (w, Inl ''not found'')
      else ((filter (\<lambda>e. \<not> starts_with (fst e) (root_path @ r)) (fst w), snd w), Inr ()))"

definition read_path :: "path \<Rightarrow> memory \<Rightarrow> memory \<times> (string + string)" where
  "read_path p w = (w, case map_of (fst w) p of Some x \<Rightarrow> Inr (snd x) | None \<Rightarrow> Inl ''not found'')"

definition memory_host :: "(memory, nat) host" where
  "memory_host = \<lparr>
     ho_look = (\<lambda>w. (w, sample_env (fst w))),
     ho_open = memory_open,
     ho_accessed = of_inode (\<lambda>x. 0),
     ho_read_handle = of_inode snd,
     ho_identity = (\<lambda>h w. of_inode (\<lambda>x. identity_digest (sample_env (fst w)) (fst x)) h w),
     ho_truncate = on_inode (put_bytes []),
     ho_write = (\<lambda>h b. on_inode (put_bytes b) h),
     ho_sync = (\<lambda>h w. (w, Inr ())),
     ho_set_accessed = (\<lambda>h a w. (w, Inr ())),
     ho_copy_metadata = (\<lambda>h g w. (w, Inr ())),
     ho_read_file = read_path,
     ho_lstat = (\<lambda>r w. (w, case map_of (fst w) (root_path @ r) of
         Some x \<Rightarrow> Inr (md_kind (fst x) = DirectoryNode) | None \<Rightarrow> Inl ''not found'')),
     ho_first_entry = (\<lambda>r w. (w, Inr (list_ex (\<lambda>e. fst e \<noteq> root_path @ r \<and> starts_with (fst e) (root_path @ r)) (fst w)))),
     ho_rename = memory_rename,
     ho_remove_file = memory_remove,
     ho_remove_dir_all = memory_remove,
     ho_flush_parent = (\<lambda>p w. (w, Inr ())),
     ho_read_marker = (\<lambda>r n w. map_prod id (map_sum id (take n)) (read_path (root_path @ r @ [Normal ''.lspctl-transaction-owner'']) w)),
     ho_store_progress = (\<lambda>p progress w. ((fst w, Some progress), Inr ())),
     ho_load_progress = (\<lambda>p n w. (w, case snd w of Some progress \<Rightarrow> Inr progress | None \<Rightarrow> Inl ''not found'')),
     ho_transaction_len = (\<lambda>tx. 1000),
     ho_progress_len = (\<lambda>progress. length (pr_effects progress))\<rparr>"

section \<open>A commit\<close>

definition commit_changes :: "json list" where
  "commit_changes = [change_text ''file:///w/f'' ''z'', change_delete ''file:///w/f'']"

definition commit_transaction :: "canonical_plan \<Rightarrow> transaction_record" where
  "commit_transaction plan = \<lparr>tx_format_version = 1, tx_id = ''t'', tx_preview_id = ''p'', tx_receipt_id = ''r'',
     tx_workspace_path = root_path, tx_workspace_uri = ''file:///w'', tx_state = Committing, tx_started_at = [],
     tx_artifacts = at [''.lspctl-t''], tx_backups = planned_backups (cp_before plan) (at [''.lspctl-t'']),
     tx_operations = cp_operations plan, tx_before = cp_before plan, tx_intended = cp_intended plan,
     tx_observed = [], tx_manifest_digest = [], tx_cleanup_pending = True\<rparr>"

lemma commit_transaction_before: "tx_before (commit_transaction plan) = cp_before plan"
  by (simp add: commit_transaction_def)

definition staged_disk :: disk where
  "staged_disk = sample_disk
     @ [(at [''.lspctl-t''], sample_node DirectoryNode 20 2 []),
        (at [''.lspctl-t'', ''.lspctl-transaction-owner''], sample_node RegularNode 21 1 ''t''),
        (at [''.lspctl-t'', ''text-0''], sample_node RegularNode 22 1 ''zb''),
        (at [''.lspctl-t'', ''backup-0''], sample_node RegularNode 23 1 ''ab'')]"

definition committed :: "(memory \<times> (nat + unit)) option" where
  "committed = (case plan_workspace_edit_with_document_preconditions (sample_env sample_disk) sample_planner
       (sample_edit_of commit_changes) [] of
     Some (Inr planned) \<Rightarrow> commit_operations memory_host (\<lambda>s. s) sample_planner (commit_transaction (pw_plan planned)) (staged_disk, None)
   | _ \<Rightarrow> None)"

lemma commit_succeeds: "map_option snd committed = Some (Inr ())"
  by code_simp

definition sample_planned_commit :: planned_workspace_edit where
  "sample_planned_commit = (case plan_workspace_edit_with_document_preconditions (sample_env sample_disk) sample_planner
       (sample_edit_of commit_changes) [] of Some (Inr planned) \<Rightarrow> planned)"

lemma committed_run:
  obtains w' where "commit_operations memory_host (\<lambda>s. s) sample_planner
    (commit_transaction (pw_plan sample_planned_commit)) (staged_disk, None) = Some (w', Inr ())"
  using commit_succeeds that
  by (auto simp: committed_def sample_planned_commit_def split: option.splits sum.splits)

theorem commit_is_write_ahead_witness:
  "\<exists>w' l. commit_operations (traced memory_host) (\<lambda>s. s) sample_planner
       (commit_transaction (pw_plan sample_planned_commit)) ((staged_disk, None), []) = Some ((w', l), Inr ())
     \<and> write_ahead (\<lambda>s. s) sample_planner (commit_transaction (pw_plan sample_planned_commit)) l"
proof -
  obtain w' where "commit_operations memory_host (\<lambda>s. s) sample_planner
    (commit_transaction (pw_plan sample_planned_commit)) (staged_disk, None) = Some (w', Inr ())"
    by (rule committed_run)
  from commit_is_write_ahead [OF this] show ?thesis by blast
qed

section \<open>Its rollback\<close>

definition sample_rollback :: "(memory \<times> (string + manifest_entry list)) option" where
  "sample_rollback = (case plan_workspace_edit_with_document_preconditions (sample_env sample_disk) sample_planner
       (sample_edit_of commit_changes) [] of
     Some (Inr planned) \<Rightarrow>
       (case commit_operations memory_host (\<lambda>s. s) sample_planner (commit_transaction (pw_plan planned)) (staged_disk, None) of
          Some (w, _) \<Rightarrow> rollback_transaction memory_host (\<lambda>s. s) sample_planner (commit_transaction (pw_plan planned)) w
        | None \<Rightarrow> None)
   | _ \<Rightarrow> None)"

lemma rollback_succeeds: "(case sample_rollback of Some (w, Inr _) \<Rightarrow> map_of (fst w) (at [''f'']) = map_of staged_disk (at [''f'']) | _ \<Rightarrow> False)"
  by code_simp

lemma sample_rollback_run:
  obtains w w' m where "rollback_transaction memory_host (\<lambda>s. s) sample_planner (commit_transaction (pw_plan sample_planned_commit)) w = Some (w', Inr m)"
    "map_of (fst w') (at [''f'']) = map_of staged_disk (at [''f''])"
  using rollback_succeeds that
  by (auto simp: sample_rollback_def sample_planned_commit_def split: option.splits sum.splits)

theorem rollback_changes_only_proven_witness:
  "\<exists>w w' l m. rollback_transaction (traced memory_host) (\<lambda>s. s) sample_planner
       (commit_transaction (pw_plan sample_planned_commit)) (w, []) = Some ((w', l), Inr m)
     \<and> write_ahead (\<lambda>s. s) sample_planner (commit_transaction (pw_plan sample_planned_commit)) l
     \<and> manifest_mismatches (cp_before (pw_plan sample_planned_commit)) m = []"
proof -
  obtain w w' m where "rollback_transaction memory_host (\<lambda>s. s) sample_planner (commit_transaction (pw_plan sample_planned_commit)) w = Some (w', Inr m)"
    by (rule sample_rollback_run)
  from rollback_changes_only_proven [OF this] show ?thesis unfolding commit_transaction_before sum.case by blast
qed

section \<open>The journal of the commit\<close>

lemma faithful_sample: "disk_ok d \<Longrightarrow> faithful_listing (sample_env d)"
  unfolding faithful_listing_def
proof (intro allI impI)
  fix p listing e k assume d: "disk_ok d" and l: "env_read_dir (sample_env d) p = Some listing"
    and e: "Some e \<in> set listing" "de_kind e = Some k"
  have "listing = disk_listing d p" using l by (auto simp: sample_env_def split: option.splits if_splits)
  with e obtain q md b where "(q, md, b) \<in> set d" "q = join_name p (de_name e)" "md_kind md = k"
    by (auto simp: disk_listing_def split: option.splits if_splits)
  moreover have "distinct (map fst d)" using d by (simp add: disk_ok_def)
  ultimately show "\<exists>md. env_lstat (sample_env d) (join_name p (de_name e)) = StatOk md \<and> md_kind md = k"
    by (auto simp: sample_env_def)
qed

definition sample_journal :: "planned_workspace_edit \<Rightarrow> commit_progress option" where
  "sample_journal planned =
     (case commit_operations memory_host (\<lambda>s. s) sample_planner (commit_transaction (pw_plan planned)) (staged_disk, None) of
        Some (w, _) \<Rightarrow> snd w | None \<Rightarrow> None)"

definition journal_checks :: "planned_workspace_edit \<Rightarrow> bool" where
  "journal_checks planned \<longleftrightarrow>
     (case sample_journal planned of
        None \<Rightarrow> False
      | Some progress \<Rightarrow> check_progress (\<lambda>s. s) (commit_transaction (pw_plan planned)) progress = Some (Inr ())
          \<and> pr_effects progress \<noteq> [] \<and> list_all (\<lambda>e. ef_after e \<noteq> None) (pr_effects progress)
          \<and> transaction_of sample_planner (pw_plan planned) (commit_transaction (pw_plan planned)))"

lemma sample_journal_checks:
  "(case plan_workspace_edit_with_document_preconditions (sample_env sample_disk) sample_planner
       (sample_edit_of commit_changes) [] of Some (Inr planned) \<Rightarrow> journal_checks planned | _ \<Rightarrow> False)"
  by code_simp

theorem complete_journal_is_restorable_witness:
  "\<exists>progress. sample_journal sample_planned_commit = Some progress
     \<and> restorable (commit_transaction (pw_plan sample_planned_commit)) (pr_effects progress)"
proof -
  from sample_journal_checks have plan: "plan_workspace_edit_with_document_preconditions (sample_env sample_disk) sample_planner
      (sample_edit_of commit_changes) [] = Some (Inr sample_planned_commit)"
    and "journal_checks sample_planned_commit"
    by (auto simp: sample_planned_commit_def split: option.splits sum.splits)
  then obtain progress where p: "sample_journal sample_planned_commit = Some progress"
    "check_progress (\<lambda>s. s) (commit_transaction (pw_plan sample_planned_commit)) progress = Some (Inr ())"
    "pr_effects progress \<noteq> []" "list_all (\<lambda>e. ef_after e \<noteq> None) (pr_effects progress)"
    "transaction_of sample_planner (pw_plan sample_planned_commit) (commit_transaction (pw_plan sample_planned_commit))"
    by (auto simp: journal_checks_def split: option.splits)
  have sha: "env_sha (sample_env sample_disk) = (\<lambda>s. s)" by (simp add: sample_env_def)
  from complete_journal_is_restorable [OF posix_sample [OF sample_disk_ok] faithful_sample [OF sample_disk_ok] sample_depth plan p(5)
      p(2) [folded sha] p(3,4)] p(1) show ?thesis by blast
qed

end
