(* ===== verification/Mutation_Store.thy ===== *)
theory Mutation_Store
  imports Transaction Actions
begin

text \<open>
  \<open>mutation/state.rs\<close>: Previews, Receipts and transaction journals as files of private state
  directories. The files, the clock and the locks are a record of calls over an arbitrary world;
  atomic replacement may store a record and still report a failure.
\<close>

section \<open>Records\<close>

record preview_record =
  pv_id :: string
  pv_workspace_uri :: string
  pv_server :: "string option"
  pv_session_identity :: string
  pv_position_encoding :: string
  pv_expires_at :: string
  pv_source :: json
  pv_summary :: preview_summary
  pv_edit :: json
  pv_command :: "json option"
  pv_annotations :: json
  pv_plan :: canonical_plan
  pv_preconditions :: "manifest_entry list"
  pv_conflicts :: "workspace_edit_problem list"
  pv_stale_reasons :: "json list"
  pv_diff :: "string option"
  pv_reserved :: bool

record stored_preview =
  sp_format_version :: nat
  sp_created :: int
  sp_expires :: int
  sp_workspace_path :: path
  sp_authorization_digest :: string
  sp_recovery_manifest_digest :: "string option"
  sp_preview :: preview_record

record receipt_record =
  rc_id :: string
  rc_kind :: string
  rc_transaction_id :: string
  rc_workspace_uri :: string
  rc_server :: "string option"
  rc_session_identity :: "string option"
  rc_preview_id :: "string option"
  rc_linked_id :: "string option"
  rc_preauthorized :: bool
  rc_started_at :: string
  rc_completed_at :: string
  rc_outcome :: string
  rc_filesystem_state :: string
  rc_summary :: preview_summary
  rc_before :: "manifest_entry list"
  rc_intended :: "manifest_entry list"
  rc_observed :: "manifest_entry list"
  rc_session_synchronized :: bool
  rc_cleanup_pending :: bool
  rc_durability :: json
  rc_manifest_digest :: string
  rc_failure_stage :: "string option"
  rc_failed_change :: "nat option"

record stored_receipt =
  sr_format_version :: nat
  sr_completed :: int
  sr_expires :: int
  sr_receipt :: receipt_record

section \<open>The state files\<close>

datatype read_fault = FileNotFound | FileNotOpened | FileNotRead | FileNotParsed

datatype lock_attempt = Locked | WouldBlock | LockFailed

text \<open>
  Identifiers are file stems in file-name order. \<open>sf_remove_preview\<close> fails with whether the file was not
  found. \<open>sf_preview_len\<close> is the length of the serialized record, if it can be serialized.
  \<open>sf_random\<close> is 16 random bytes in hexadecimal.
\<close>

record 'w state_files =
  sf_now :: "'w \<Rightarrow> 'w \<times> int"
  sf_preview_ids :: "'w \<Rightarrow> 'w \<times> (unit + string list)"
  sf_receipt_ids :: "'w \<Rightarrow> 'w \<times> (unit + string list)"
  sf_transaction_ids :: "'w \<Rightarrow> 'w \<times> (unit + string list)"
  sf_load_preview :: "string \<Rightarrow> 'w \<Rightarrow> 'w \<times> (read_fault + stored_preview)"
  sf_load_receipt :: "string \<Rightarrow> 'w \<Rightarrow> 'w \<times> (read_fault + stored_receipt)"
  sf_load_transaction :: "string \<Rightarrow> 'w \<Rightarrow> 'w \<times> (read_fault + transaction_record)"
  sf_store_preview :: "stored_preview \<Rightarrow> 'w \<Rightarrow> 'w \<times> (unit + unit)"
  sf_store_receipt :: "stored_receipt \<Rightarrow> 'w \<Rightarrow> 'w \<times> (unit + unit)"
  sf_store_transaction :: "transaction_record \<Rightarrow> 'w \<Rightarrow> 'w \<times> (unit + unit)"
  sf_remove_preview :: "string \<Rightarrow> 'w \<Rightarrow> 'w \<times> (bool + unit)"
  sf_remove_receipt :: "string \<Rightarrow> 'w \<Rightarrow> 'w \<times> (unit + unit)"
  sf_remove_transaction :: "string \<Rightarrow> 'w \<Rightarrow> 'w \<times> (unit + unit)"
  sf_preview_exists :: "string \<Rightarrow> 'w \<Rightarrow> 'w \<times> bool"
  sf_receipt_exists :: "string \<Rightarrow> 'w \<Rightarrow> 'w \<times> bool"
  sf_transaction_exists :: "string \<Rightarrow> 'w \<Rightarrow> 'w \<times> bool"
  sf_preview_size :: "string \<Rightarrow> 'w \<Rightarrow> 'w \<times> nat option"
  sf_preview_len :: "stored_preview \<Rightarrow> nat option"
  sf_open_lock :: "string \<Rightarrow> 'w \<Rightarrow> 'w \<times> (unit + unit)"
  sf_try_lock :: "string \<Rightarrow> 'w \<Rightarrow> 'w \<times> lock_attempt"
  sf_close_lock :: "string \<Rightarrow> 'w \<Rightarrow> 'w \<times> unit"
  sf_random :: "'w \<Rightarrow> 'w \<times> (unit + string)"
  sf_rfc3339 :: "int \<Rightarrow> string"

type_synonym ('w, 'a) store_act = "('w, contract_failure, 'a) step"

text \<open>A call without an error of its own, one whose error is mapped, and an outcome kept as a value.\<close>

definition ask :: "('w \<Rightarrow> 'w \<times> 'a) \<Rightarrow> ('w, 'e, 'a) step" where
  "ask f = call (map_prod id Inr \<circ> f)"

definition call_or :: "'e \<Rightarrow> ('w \<Rightarrow> 'w \<times> ('x + 'a)) \<Rightarrow> ('w, 'e, 'a) step" where
  "call_or e f = step_bind (ask f) (\<lambda>r. case r of Inl _ \<Rightarrow> step_err e | Inr a \<Rightarrow> step_ok a)"

definition attempting :: "('w, 'e, 'a) step \<Rightarrow> ('w, 'x, 'e + 'a) step" where
  "attempting m = (\<lambda>w. map_option (map_prod id Inr) (m w))"

section \<open>Failures\<close>

definition preview_unknown :: "string \<Rightarrow> contract_failure" where
  "preview_unknown st = failure 6 ''mutation'' ''preview_unknown'' st ''not_applicable'' ''never''"

definition recovery_not_found :: contract_failure where
  "recovery_not_found = failure 7 ''recovery'' ''recovery_not_found'' ''recover'' ''not_applicable'' ''never''"

definition stored_version_failure :: contract_failure where
  "stored_version_failure = failure 3 ''blocked'' ''stored_state_version_unsupported'' ''inspect'' ''not_applicable'' ''never''"

definition state_failure :: contract_failure where
  "state_failure = failure 4 ''unavailable'' ''state_unavailable'' ''persist'' ''not_applicable'' ''after_change''"

definition capacity_failure :: contract_failure where
  "capacity_failure = failure 4 ''unavailable'' ''state_capacity_exceeded'' ''reserve'' ''not_applicable'' ''after_change''"

definition application_busy :: contract_failure where
  "application_busy = failure 6 ''mutation'' ''application_busy'' ''reserve'' ''not_applicable'' ''safe''"

definition receipt_unknown :: contract_failure where
  "receipt_unknown = (preview_unknown ''inspect'')\<lparr>exit_code := 3, category := ''blocked'', code := ''state_record_unknown''\<rparr>"

definition prune_rejected :: contract_failure where
  "prune_rejected = failure 3 ''blocked'' ''state_prune_rejected'' ''prune'' ''not_applicable'' ''after_change''"

section \<open>Single records\<close>

definition mutation_state_version :: nat where "mutation_state_version = 1"

fun read_failure :: "read_fault \<Rightarrow> contract_failure" where
  "read_failure FileNotFound = preview_unknown ''inspect''"
| "read_failure FileNotParsed = stored_version_failure"
| "read_failure _ = state_failure"

definition read_record :: "('w \<Rightarrow> 'w \<times> (read_fault + 'a)) \<Rightarrow> ('w, 'a) store_act" where
  "read_record f = call (map_prod id (map_sum read_failure id) \<circ> f)"

definition validate_record_version :: "nat \<Rightarrow> ('w, unit) store_act" where
  "validate_record_version version = require (version = mutation_state_version) stored_version_failure"

definition read_preview :: "'w state_files \<Rightarrow> string \<Rightarrow> ('w, stored_preview) store_act" where
  "read_preview sf key =
     step_bind (read_record (sf_load_preview sf key)) (\<lambda>p.
     step_then (validate_record_version (sp_format_version p))
     (step_bind (ask (sf_now sf)) (\<lambda>now.
      if sp_expires p \<le> now \<and> \<not> pv_reserved (sp_preview p)
      then step_then (ask (sf_remove_preview sf key)) (step_err (preview_unknown ''inspect''))
      else step_ok p)))"

definition write_preview :: "'w state_files \<Rightarrow> stored_preview \<Rightarrow> ('w, unit) store_act" where
  "write_preview sf p = call_or state_failure (sf_store_preview sf p)"

definition read_receipt :: "'w state_files \<Rightarrow> string \<Rightarrow> ('w, stored_receipt) store_act" where
  "read_receipt sf key =
     step_bind (attempting (read_record (sf_load_receipt sf key))) (\<lambda>r. case r of
       Inl f \<Rightarrow> step_err (if code f = ''preview_unknown'' then receipt_unknown else f)
     | Inr receipt \<Rightarrow> step_then (validate_record_version (sr_format_version receipt)) (step_ok receipt))"

definition read_transaction :: "'w state_files \<Rightarrow> string \<Rightarrow> ('w, transaction_record) store_act" where
  "read_transaction sf key =
     step_bind (attempting (read_record (sf_load_transaction sf key))) (\<lambda>r. case r of
       Inl f \<Rightarrow> step_err (if code f = ''preview_unknown'' then recovery_not_found else f)
     | Inr tx \<Rightarrow> step_then (validate_record_version (tx_format_version tx)) (step_ok tx))"

definition write_transaction :: "'w state_files \<Rightarrow> transaction_record \<Rightarrow> ('w, unit) store_act" where
  "write_transaction sf tx = call_or state_failure (sf_store_transaction sf tx)"

definition remove_transaction :: "'w state_files \<Rightarrow> string \<Rightarrow> ('w, unit) store_act" where
  "remove_transaction sf key = call_or state_failure (sf_remove_transaction sf key)"

text \<open>A journal that cannot be read is evidence of its own, \<open>Inl\<close> its identifier.\<close>

definition list_transactions :: "'w state_files \<Rightarrow> ('w, (string + transaction_record) list) store_act" where
  "list_transactions sf =
     step_bind (call_or state_failure (sf_transaction_ids sf)) (each (\<lambda>key.
       step_bind (ask (sf_load_transaction sf key)) (\<lambda>r. step_ok (case r of
         Inr tx \<Rightarrow> if tx_format_version tx = mutation_state_version then Inr tx else Inl key
       | Inl _ \<Rightarrow> Inl key))))"

definition already_applied :: "'w state_files \<Rightarrow> string \<Rightarrow> ('w, stored_receipt option) store_act" where
  "already_applied sf preview_id =
     step_bind (ask (sf_receipt_exists sf preview_id)) (\<lambda>exists.
       if \<not> exists then step_ok None
       else step_bind (read_receipt sf preview_id) (\<lambda>r. step_ok (Some r)))"

definition retire_preview_after_recovery :: "'w state_files \<Rightarrow> string \<Rightarrow> ('w, unit) store_act" where
  "retire_preview_after_recovery sf preview_id =
     step_bind (ask (sf_remove_preview sf preview_id)) (\<lambda>r. case r of
       Inr _ \<Rightarrow> step_ok ()
     | Inl not_found \<Rightarrow> if not_found then step_ok () else step_err state_failure)"

section \<open>Receipt chains\<close>

text \<open>
  One pass over the records, adding the identifiers of every record linked to the set so far; passes
  until one adds nothing.
\<close>

definition link_record :: "stored_receipt \<Rightarrow> string list \<Rightarrow> string list" where
  "link_record r ids =
     (let linked = rc_linked_id (sr_receipt r)
      in if rc_id (sr_receipt r) \<in> set ids \<or> (case linked of Some l \<Rightarrow> l \<in> set ids | None \<Rightarrow> False)
         then (case linked of Some l \<Rightarrow> bs_insert l (bs_insert (rc_id (sr_receipt r)) ids)
               | None \<Rightarrow> bs_insert (rc_id (sr_receipt r)) ids)
         else ids)"

definition link_pass :: "stored_receipt list \<Rightarrow> string list \<Rightarrow> string list" where
  "link_pass receipts ids = fold link_record receipts ids"

definition receipt_names :: "stored_receipt list \<Rightarrow> string set" where
  "receipt_names receipts = (\<Union>r \<in> set receipts. insert (rc_id (sr_receipt r)) (set_option (rc_linked_id (sr_receipt r))))"

lemma set_link_record:
  "set ids \<subseteq> set (link_record r ids) \<and> set (link_record r ids) \<subseteq> set ids \<union> receipt_names [r]
     \<and> length ids \<le> length (link_record r ids)"
  by (auto simp: link_record_def receipt_names_def Let_def bs_insert_def set_insort_key split: option.splits)

lemma set_link_pass:
  "set ids \<subseteq> set (link_pass receipts ids) \<and> set (link_pass receipts ids) \<subseteq> set ids \<union> receipt_names receipts"
proof -
  have "set ids \<subseteq> set (fold link_record rs ids) \<and> set (fold link_record rs ids) \<subseteq> set ids \<union> receipt_names rs" for rs
  proof (induction rs arbitrary: ids)
    case (Cons r rs)
    show ?case using Cons [of "link_record r ids"] set_link_record [of ids r] by (auto simp: receipt_names_def)
  qed simp
  then show ?thesis by (simp add: link_pass_def)
qed

lemma link_record_same: "set (link_record r ids) = set ids \<Longrightarrow> link_record r ids = ids"
  by (auto simp: link_record_def Let_def bs_insert_def set_insort_key split: option.splits if_splits)

lemma link_pass_grows: "set (link_pass receipts ids) = set ids \<Longrightarrow> link_pass receipts ids = ids"
  unfolding link_pass_def
proof (induction receipts arbitrary: ids)
  case (Cons r rs)
  have "set ids \<subseteq> set (link_record r ids)" "set (link_record r ids) \<subseteq> set (fold link_record rs (link_record r ids))"
    using set_link_record [of ids r] set_link_pass [of "link_record r ids" rs] by (simp_all add: link_pass_def)
  with Cons.prems have s: "set (link_record r ids) = set ids" by auto
  with Cons link_record_same [OF s] show ?case by simp
qed simp

lemma finite_receipt_names: "finite (receipt_names receipts)"
  by (simp add: receipt_names_def)

function close_links :: "stored_receipt list \<Rightarrow> string list \<Rightarrow> string list" where
  "close_links receipts ids =
     (let ids' = link_pass receipts ids
      in if length ids' = length ids then ids' else close_links receipts ids')"
  by pat_completeness auto
termination
proof (relation "measure (\<lambda>(receipts, ids). card (receipt_names receipts - set ids))")
  fix receipts ids ids'
  assume i: "ids' = link_pass receipts ids" "length ids' \<noteq> length ids"
  then have "set ids' \<noteq> set ids" using link_pass_grows [of receipts ids] by auto
  with i(1) set_link_pass [of ids receipts] have "receipt_names receipts - set ids' \<subset> receipt_names receipts - set ids" by auto
  then show "((receipts, ids'), receipts, ids) \<in> measure (\<lambda>(receipts, ids). card (receipt_names receipts - set ids))"
    by (simp add: psubset_card_mono finite_receipt_names)
qed simp

declare close_links.simps [simp del]

definition receipt_chain :: "stored_receipt list \<Rightarrow> string \<Rightarrow> stored_receipt list" where
  "receipt_chain receipts start =
     filter (\<lambda>r. rc_id (sr_receipt r) \<in> set (close_links receipts [start])) receipts"

definition receipt_chain_protected :: "stored_receipt list \<Rightarrow> bool" where
  "receipt_chain_protected chain \<longleftrightarrow>
     \<not> list_ex (\<lambda>r. rc_kind (sr_receipt r) = ''recovery_receipt''
         \<and> rc_outcome (sr_receipt r) \<in> {''restored'', ''accepted_current''} \<and> \<not> rc_cleanup_pending (sr_receipt r)) chain
     \<and> list_ex (\<lambda>r. rc_cleanup_pending (sr_receipt r)) chain"

section \<open>Expiry\<close>

definition read_all_receipts :: "'w state_files \<Rightarrow> ('w, stored_receipt list) store_act" where
  "read_all_receipts sf = step_bind (call_or state_failure (sf_receipt_ids sf)) (each (read_receipt sf))"

fun pruning_failure :: "read_fault \<Rightarrow> contract_failure" where
  "pruning_failure FileNotParsed = stored_version_failure"
| "pruning_failure _ = state_failure"

definition prune_preview :: "'w state_files \<Rightarrow> int \<Rightarrow> string \<Rightarrow> ('w, string list) store_act" where
  "prune_preview sf now key =
     step_bind (call (map_prod id (map_sum pruning_failure id) \<circ> sf_load_preview sf key)) (\<lambda>p.
     step_then (validate_record_version (sp_format_version p))
     (if sp_expires p \<le> now \<and> \<not> pv_reserved (sp_preview p)
      then step_then (call_or state_failure (sf_remove_preview sf key)) (step_ok [pv_id (sp_preview p)])
      else step_ok []))"

definition chain_expired :: "int \<Rightarrow> stored_receipt list \<Rightarrow> bool" where
  "chain_expired now chain \<longleftrightarrow> list_all (\<lambda>r. sr_expires r \<le> now) chain \<and> \<not> receipt_chain_protected chain"

text \<open>The chains the loop over the records finds, one for each record no earlier chain visited.\<close>

fun chains_of :: "stored_receipt list \<Rightarrow> stored_receipt list \<Rightarrow> string list \<Rightarrow> stored_receipt list list" where
  "chains_of receipts [] visited = []"
| "chains_of receipts (r # rs) visited =
     (if rc_id (sr_receipt r) \<in> set visited then chains_of receipts rs visited
      else let chain = receipt_chain receipts (rc_id (sr_receipt r))
           in chain # chains_of receipts rs (fold (\<lambda>c. bs_insert (rc_id (sr_receipt c))) chain visited))"

definition expired_chain_ids :: "int \<Rightarrow> stored_receipt list \<Rightarrow> string list" where
  "expired_chain_ids now receipts =
     map (\<lambda>r. rc_id (sr_receipt r)) (concat (filter (chain_expired now) (chains_of receipts receipts [])))"

definition remove_receipt :: "'w state_files \<Rightarrow> string \<Rightarrow> ('w, unit) store_act" where
  "remove_receipt sf key = call_or state_failure (sf_remove_receipt sf key)"

definition prune_expired_records :: "'w state_files \<Rightarrow> ('w, string list) store_act" where
  "prune_expired_records sf =
     step_bind (ask (sf_now sf)) (\<lambda>now.
     step_bind (call_or state_failure (sf_preview_ids sf)) (\<lambda>previews.
     step_bind (each (prune_preview sf now) previews) (\<lambda>removed.
     step_bind (read_all_receipts sf) (\<lambda>receipts.
     let expired = expired_chain_ids now receipts
     in step_then (each (remove_receipt sf) expired) (step_ok (concat removed @ expired))))))"

definition list_previews :: "'w state_files \<Rightarrow> ('w, stored_preview list) store_act" where
  "list_previews sf =
     step_then (prune_expired_records sf)
     (step_bind (call_or state_failure (sf_preview_ids sf)) (\<lambda>keys.
      step_bind (each (read_preview sf) keys) (\<lambda>records.
      step_ok (sort_key (\<lambda>p. - sp_created p) records))))"

definition list_receipts :: "'w state_files \<Rightarrow> ('w, stored_receipt list) store_act" where
  "list_receipts sf =
     step_then (prune_expired_records sf)
     (step_bind (read_all_receipts sf) (\<lambda>records. step_ok (sort_key (\<lambda>r. - sr_completed r) records)))"

definition expired_preview_ids :: "'w state_files \<Rightarrow> ('w, string list) store_act" where
  "expired_preview_ids sf =
     step_bind (ask (sf_now sf)) (\<lambda>now.
     step_bind (list_previews sf) (\<lambda>records.
     step_ok (map (\<lambda>p. pv_id (sp_preview p)) (filter (\<lambda>p. sp_expires p \<le> now \<and> \<not> pv_reserved (sp_preview p)) records))))"

definition expired_receipt_ids :: "'w state_files \<Rightarrow> ('w, string list) store_act" where
  "expired_receipt_ids sf =
     step_bind (ask (sf_now sf)) (\<lambda>now.
     step_bind (read_all_receipts sf) (\<lambda>receipts. step_ok (expired_chain_ids now receipts)))"

section \<open>Capacity\<close>

definition preview_retention :: int where "preview_retention = 24 * 3600"
definition receipt_retention :: int where "receipt_retention = 720 * 3600"

definition create_preview ::
  "'w state_files \<Rightarrow> nat \<Rightarrow> nat \<Rightarrow> preview_record \<Rightarrow> path \<Rightarrow> string \<Rightarrow> string option \<Rightarrow> ('w, stored_preview) store_act" where
  "create_preview sf max_count max_total_bytes preview workspace_path authorization recovery =
     step_then (prune_expired_records sf)
     (step_bind (ask (sf_now sf)) (\<lambda>now.
      let expires = now + preview_retention;
          stored = \<lparr>sp_format_version = mutation_state_version, sp_created = now, sp_expires = expires,
            sp_workspace_path = workspace_path, sp_authorization_digest = authorization,
            sp_recovery_manifest_digest = recovery, sp_preview = preview\<lparr>pv_expires_at := sf_rfc3339 sf expires\<rparr>\<rparr>
      in case sf_preview_len sf stored of
           None \<Rightarrow> step_err state_failure
         | Some len \<Rightarrow>
             step_bind (call_or state_failure (sf_preview_ids sf)) (\<lambda>keys.
             step_bind (each (\<lambda>key. ask (sf_preview_size sf key)) keys) (\<lambda>sizes.
             if max_count \<le> length keys \<or> max_total_bytes < sat_add (sum_list (List.map_filter (\<lambda>s. s) sizes)) len
             then step_then (expired_preview_ids sf) (step_err capacity_failure)
             else step_then (write_preview sf stored) (step_ok stored)))))"

definition require_receipt_room :: "'w state_files \<Rightarrow> nat \<Rightarrow> ('w, unit) store_act" where
  "require_receipt_room sf max_count =
     step_bind (call_or state_failure (sf_receipt_ids sf)) (\<lambda>keys.
     if max_count \<le> length keys then step_then (expired_receipt_ids sf) (step_err capacity_failure) else step_ok ())"

definition ensure_receipt_capacity :: "'w state_files \<Rightarrow> nat \<Rightarrow> ('w, unit) store_act" where
  "ensure_receipt_capacity sf max_count = step_then (prune_expired_records sf) (require_receipt_room sf max_count)"

definition write_receipt :: "'w state_files \<Rightarrow> nat \<Rightarrow> receipt_record \<Rightarrow> ('w, stored_receipt) store_act" where
  "write_receipt sf max_count receipt =
     step_then (prune_expired_records sf)
     (step_bind (ask (sf_now sf)) (\<lambda>now.
      let stored = \<lparr>sr_format_version = mutation_state_version, sr_completed = now, sr_expires = now + receipt_retention,
            sr_receipt = receipt\<rparr>
      in step_then (require_receipt_room sf max_count)
        (step_then (call_or state_failure (sf_store_receipt sf stored)) (step_ok stored))))"

definition update_receipt ::
  "'w state_files \<Rightarrow> string \<Rightarrow> (receipt_record \<Rightarrow> bool) \<Rightarrow> (receipt_record \<Rightarrow> receipt_record) \<Rightarrow> ('w, unit) store_act" where
  "update_receipt sf key already change =
     step_bind (read_receipt sf key) (\<lambda>stored.
     if already (sr_receipt stored) then step_ok ()
     else call_or state_failure (sf_store_receipt sf (stored\<lparr>sr_receipt := change (sr_receipt stored)\<rparr>)))"

definition mark_receipt_session_synchronized :: "'w state_files \<Rightarrow> string \<Rightarrow> ('w, unit) store_act" where
  "mark_receipt_session_synchronized sf key =
     update_receipt sf key rc_session_synchronized (\<lambda>r. r\<lparr>rc_session_synchronized := True\<rparr>)"

definition mark_receipt_cleanup_complete :: "'w state_files \<Rightarrow> string \<Rightarrow> ('w, unit) store_act" where
  "mark_receipt_cleanup_complete sf key =
     update_receipt sf key (\<lambda>r. \<not> rc_cleanup_pending r) (\<lambda>r. r\<lparr>rc_cleanup_pending := False\<rparr>)"

definition convert_preview_to_receipt ::
  "'w state_files \<Rightarrow> nat \<Rightarrow> string \<Rightarrow> receipt_record \<Rightarrow> ('w, stored_receipt) store_act" where
  "convert_preview_to_receipt sf max_count preview_id receipt =
     step_bind (write_receipt sf max_count receipt) (\<lambda>stored.
     step_bind (ask (sf_remove_preview sf preview_id)) (\<lambda>removed.
     if removed = Inl False
     then let pending = stored\<lparr>sr_receipt := (sr_receipt stored)\<lparr>rc_cleanup_pending := True\<rparr>\<rparr>
          in step_then (call_or state_failure (sf_store_receipt sf pending)) (step_ok pending)
     else step_ok stored))"

section \<open>Reservations\<close>

definition release_preview :: "'w state_files \<Rightarrow> stored_preview \<Rightarrow> ('w, unit) store_act" where
  "release_preview sf p = write_preview sf (p\<lparr>sp_preview := (sp_preview p)\<lparr>pv_reserved := False\<rparr>\<rparr>)"

definition reserve_preview :: "'w state_files \<Rightarrow> string \<Rightarrow> ('w, stored_preview) store_act" where
  "reserve_preview sf key =
     step_bind (read_preview sf key) (\<lambda>p.
     if pv_reserved (sp_preview p) then step_err application_busy
     else
       let reserved = p\<lparr>sp_preview := (sp_preview p)\<lparr>pv_reserved := True\<rparr>\<rparr>
       in step_bind (attempting (write_preview sf reserved)) (\<lambda>r. case r of
            Inl f \<Rightarrow> step_then (release_preview sf reserved) (step_err f)
          | Inr _ \<Rightarrow> step_ok reserved))"

definition open_application_lock :: "'w state_files \<Rightarrow> string \<Rightarrow> ('w, unit) store_act" where
  "open_application_lock sf uri = call_or state_failure (sf_open_lock sf uri)"

text \<open>What runs while the lock file is open; dropping the file releases the lock. Discarding a Preview drops it before the removal.\<close>

definition with_lock_file :: "'w state_files \<Rightarrow> string \<Rightarrow> ('w, 'a) store_act \<Rightarrow> ('w, 'a) store_act" where
  "with_lock_file sf uri m =
     step_then (open_application_lock sf uri) (\<lambda>w. map_option (\<lambda>(w', r). (fst (sf_close_lock sf uri w'), r)) (m w))"

definition random_identifier :: "'w state_files \<Rightarrow> string \<Rightarrow> ('w, string) store_act" where
  "random_identifier sf p = step_bind (call_or state_failure (sf_random sf)) (\<lambda>digits. step_ok (p @ digits))"

definition discard_preview :: "'w state_files \<Rightarrow> string \<Rightarrow> ('w, unit) store_act" where
  "discard_preview sf key =
     step_bind (read_preview sf key) (\<lambda>p.
     step_then
       (if pv_reserved (sp_preview p)
        then with_lock_file sf (pv_workspace_uri (sp_preview p))
          (step_bind (ask (sf_try_lock sf (pv_workspace_uri (sp_preview p)))) (\<lambda>attempt. case attempt of
             WouldBlock \<Rightarrow> step_err application_busy
           | LockFailed \<Rightarrow> step_err state_failure
           | Locked \<Rightarrow>
               step_bind (list_transactions sf) (\<lambda>transactions.
               require (\<not> list_ex (\<lambda>t. case t of Inr tx \<Rightarrow> tx_preview_id tx = key | Inl _ \<Rightarrow> True) transactions)
                 application_busy)))
        else step_ok ())
       (call_or state_failure (sf_remove_preview sf key)))"

section \<open>Requested pruning\<close>

datatype prune_target = PreviewFile string | ReceiptFile string

datatype prune_problem = ProtectedState | UnknownState

definition starts :: "string \<Rightarrow> string \<Rightarrow> bool" where
  "starts s p \<longleftrightarrow> take (length p) s = p"

definition prune_receipts :: "stored_receipt list \<Rightarrow> string \<Rightarrow> prune_problem + (string \<times> prune_target) list" where
  "prune_receipts receipts key =
     (if \<not> list_ex (\<lambda>r. rc_id (sr_receipt r) = key) receipts then Inl UnknownState
      else let chain = receipt_chain receipts key
           in if receipt_chain_protected chain then Inl ProtectedState
              else Inr (map (\<lambda>r. (rc_id (sr_receipt r), ReceiptFile (rc_id (sr_receipt r)))) chain))"

definition prune_request ::
  "'w state_files \<Rightarrow> stored_receipt list \<Rightarrow> string \<Rightarrow> ('w, prune_problem + (string \<times> prune_target) list) store_act" where
  "prune_request sf receipts key =
     step_bind (if starts key ''prv_'' then ask (sf_preview_exists sf key) else step_ok False) (\<lambda>preview.
     if preview then
       step_bind (attempting (read_preview sf key)) (\<lambda>r. step_ok (case r of
         Inr p \<Rightarrow> if pv_reserved (sp_preview p) then Inl ProtectedState else Inr [(key, PreviewFile key)]
       | Inl _ \<Rightarrow> Inl UnknownState))
     else if starts key ''prv_'' \<or> starts key ''rcp_'' then step_ok (prune_receipts receipts key)
     else step_bind (if starts key ''txn_'' then ask (sf_transaction_exists sf key) else step_ok False) (\<lambda>transaction.
       step_ok (Inl (if transaction then ProtectedState else UnknownState))))"

fun remove_target :: "'w state_files \<Rightarrow> prune_target \<Rightarrow> ('w, unit) store_act" where
  "remove_target sf (PreviewFile key) = call_or state_failure (sf_remove_preview sf key)"
| "remove_target sf (ReceiptFile key) = remove_receipt sf key"

definition prune_state :: "'w state_files \<Rightarrow> string list \<Rightarrow> ('w, string list) store_act" where
  "prune_state sf requested =
     (if requested = [] then prune_expired_records sf
      else
        step_bind (read_all_receipts sf) (\<lambda>receipts.
        step_bind (each (prune_request sf receipts) requested) (\<lambda>decisions.
        step_then (require (list_all (\<lambda>d. \<not> isl d) decisions) prune_rejected)
        (let paths = bt_of_list (concat (map projr decisions))
         in step_then (each (remove_target sf) (map snd paths)) (step_ok (bt_keys paths))))))"

end
