(* ===== verification/Mutation_Store_Laws.thy ===== *)
theory Mutation_Store_Laws
  imports Mutation_Store
begin

text \<open>
  What the state store promises: a Receipt chain is a connected component of the links between the
  Receipts, and pruning removes unprotected chains whole.
\<close>

section \<open>Chains are components\<close>

definition links :: "stored_receipt list \<Rightarrow> (string \<times> string) set" where
  "links receipts =
     (\<Union>r \<in> set receipts. \<Union>l \<in> set_option (rc_linked_id (sr_receipt r)).
        {(rc_id (sr_receipt r), l), (l, rc_id (sr_receipt r))})"

lemma links_mono: "set rs \<subseteq> set rs' \<Longrightarrow> links rs \<subseteq> links rs'"
  by (auto simp: links_def)

lemma sym_links: "sym ((links receipts)\<^sup>*)"
  by (rule sym_rtrancl) (auto simp: sym_def links_def)

lemma closure_image: "a\<^sup>* `` (a\<^sup>* `` s) = a\<^sup>* `` s"
  by (simp add: relcomp_Image [symmetric])

lemma link_record_reaches: "set (link_record r ids) \<subseteq> (links [r])\<^sup>* `` set ids"
proof
  fix x assume x: "x \<in> set (link_record r ids)"
  show "x \<in> (links [r])\<^sup>* `` set ids"
  proof (cases "x \<in> set ids")
    case False
    with x obtain l where l: "rc_linked_id (sr_receipt r) = Some l"
        and "rc_id (sr_receipt r) \<in> set ids \<and> x = l \<or> l \<in> set ids \<and> x = rc_id (sr_receipt r)"
      by (auto simp: link_record_def Let_def split: option.splits if_splits)
    moreover have "(rc_id (sr_receipt r), l) \<in> links [r]" "(l, rc_id (sr_receipt r)) \<in> links [r]"
      using l by (simp_all add: links_def)
    ultimately show ?thesis by blast
  qed blast
qed

lemma link_pass_reaches: "set (fold link_record rs ids) \<subseteq> (links rs)\<^sup>* `` set ids"
proof (induction rs arbitrary: ids)
  case (Cons r rs)
  let ?a = "(links (r # rs))\<^sup>*"
  have m: "(links [r])\<^sup>* \<subseteq> ?a" "(links rs)\<^sup>* \<subseteq> ?a" by (rule rtrancl_mono [OF links_mono], simp)+ auto
  have r: "set (link_record r ids) \<subseteq> ?a `` set ids"
    using link_record_reaches [of r ids] m(1) by blast
  have "set (fold link_record rs (link_record r ids)) \<subseteq> ?a `` set (link_record r ids)"
    using Cons.IH [of "link_record r ids"] m(2) by blast
  with r have "set (fold link_record rs (link_record r ids)) \<subseteq> ?a `` (?a `` set ids)" by blast
  then show ?case by (simp add: closure_image)
qed auto

lemma link_record_length: "length ids \<le> length (link_record r ids)"
  and link_record_idle: "length (link_record r ids) = length ids \<Longrightarrow> link_record r ids = ids"
  by (auto simp: link_record_def Let_def bs_insert_def split: option.splits)

lemma link_pass_length: "length ids \<le> length (fold link_record rs ids)"
  by (induction rs arbitrary: ids) (auto intro: order_trans link_record_length)

lemma link_pass_idle:
  "length (fold link_record rs ids) = length ids \<Longrightarrow> fold link_record rs ids = ids \<and> (\<forall>r \<in> set rs. link_record r ids = ids)"
proof (induction rs arbitrary: ids)
  case (Cons r rs)
  have "length (link_record r ids) = length ids"
    using Cons.prems link_record_length [of ids r] link_pass_length [of "link_record r ids" rs] by simp
  then have r: "link_record r ids = ids" by (rule link_record_idle)
  with Cons.prems Cons.IH [of ids] show ?case by simp
qed simp

lemma idle_closed:
  assumes "\<forall>r \<in> set rs. link_record r ids = ids"
  shows "(links rs)\<^sup>* `` set ids \<subseteq> set ids"
proof -
  have one: "b \<in> set ids" if "(a, b) \<in> links rs" "a \<in> set ids" for a b
  proof -
    from that obtain r l where r: "r \<in> set rs" "rc_linked_id (sr_receipt r) = Some l"
        "a = rc_id (sr_receipt r) \<and> b = l \<or> a = l \<and> b = rc_id (sr_receipt r)"
      by (auto simp: links_def)
    with that have "b \<in> set (link_record r ids)" by (auto simp: link_record_def)
    with assms r(1) show ?thesis by simp
  qed
  have "b \<in> set ids" if "(a, b) \<in> (links rs)\<^sup>*" "a \<in> set ids" for a b
    using that by (induction rule: rtrancl_induct) (auto intro: one)
  then show ?thesis by blast
qed

lemma set_close_links: "set (close_links rs ids) = (links rs)\<^sup>* `` set ids"
proof (induction rs ids rule: close_links.induct)
  case (1 receipts ids)
  let ?ids = "link_pass receipts ids" and ?a = "(links receipts)\<^sup>*"
  have sub: "set ids \<subseteq> set ?ids" "set ?ids \<subseteq> ?a `` set ids"
    using set_link_pass [of ids receipts] link_pass_reaches [of receipts ids] by (simp_all add: link_pass_def)
  show ?case
  proof (cases "length ?ids = length ids")
    case True
    then have same: "?ids = ids" "\<forall>r \<in> set receipts. link_record r ids = ids"
      using link_pass_idle [of receipts ids] by (simp_all add: link_pass_def)
    have "?a `` set ids = set ids" using idle_closed [OF same(2)] by blast
    with True same(1) show ?thesis by (subst close_links.simps) simp
  next
    case False
    then have "set (close_links receipts ids) = ?a `` set ?ids"
      using 1 [OF refl] by (subst close_links.simps) simp
    moreover have "?a `` set ?ids = ?a `` set ids"
    proof
      from sub(2) have "?a `` set ?ids \<subseteq> ?a `` (?a `` set ids)" by blast
      then show "?a `` set ?ids \<subseteq> ?a `` set ids" by (simp only: closure_image)
    qed (use sub(1) in blast)
    ultimately show ?thesis by simp
  qed
qed

lemma in_receipt_chain:
  "r \<in> set (receipt_chain receipts start) \<longleftrightarrow> r \<in> set receipts \<and> (start, rc_id (sr_receipt r)) \<in> (links receipts)\<^sup>*"
  by (simp add: receipt_chain_def set_close_links)

text \<open>
  C28. The loop that collects a Receipt chain finds, in the order of the records, exactly those whose
  identifier is connected to the requested one by links between Receipts, in either direction and over
  any number of steps, through identifiers that have no record of their own as well.
\<close>

theorem receipt_chain_is_component:
  "receipt_chain receipts start =
     filter (\<lambda>r. (start, rc_id (sr_receipt r)) \<in> (links receipts)\<^sup>*) receipts"
  by (simp add: receipt_chain_def set_close_links)

text \<open>Two records of one chain have the same chain, so the chains the loop visits are disjoint.\<close>

lemma chain_of_member:
  assumes "(start, rc_id (sr_receipt r)) \<in> (links receipts)\<^sup>*"
  shows "receipt_chain receipts (rc_id (sr_receipt r)) = receipt_chain receipts start"
proof -
  have "(rc_id (sr_receipt r), x) \<in> (links receipts)\<^sup>* \<longleftrightarrow> (start, x) \<in> (links receipts)\<^sup>*" for x
    using assms symD [OF sym_links assms] by (auto dest: rtrancl_trans)
  then show ?thesis by (simp add: receipt_chain_def set_close_links)
qed

end
