(* ===== verification/Store_Laws.thy ===== *)
theory Store_Laws
  imports Mutation_Store Host_Laws
begin

text \<open>
  What the operations of the state store inherit from the calls on its files: instrumented files that
  mirror others run every operation with the same outcome, and a relation every call obeys holds across
  every operation.
\<close>

section \<open>Calls\<close>

lemma shadows_ask: "mirrors f' f \<Longrightarrow> shadows (ask f') (ask f)"
  unfolding ask_def by (rule shadows_mapped_mirror)

lemma shadows_call_or: "mirrors f' f \<Longrightarrow> shadows (call_or e f') (call_or e f)"
  unfolding call_or_def by (intro shadow_rules shadows_ask)

lemma shadows_read_record: "mirrors f' f \<Longrightarrow> shadows (read_record f') (read_record f)"
  unfolding read_record_def by (rule shadows_mapped_mirror)

lemma shadows_attempting [shadow_rules]: "shadows m' m \<Longrightarrow> shadows (attempting m') (attempting m)"
  unfolding shadows_def attempting_def
  by (fastforce split: option.splits prod.splits dest: spec)

lemma keeps_attempting: "keeps R m \<Longrightarrow> keeps R (attempting m)"
  by (auto simp: keeps_def attempting_def)

section \<open>Outcomes of calls\<close>

lemma upholds_ask: "(\<And>w w' a. P w \<Longrightarrow> f w = (w', a) \<Longrightarrow> Q a w') \<Longrightarrow> upholds E P (ask f) Q"
  unfolding ask_def by (rule upholds_call) (auto simp: map_prod_def split: prod.splits)

lemma upholds_call_or:
  "(\<And>w w' a. P w \<Longrightarrow> f w = (w', Inr a) \<Longrightarrow> Q a w') \<Longrightarrow> (\<And>w w' x. P w \<Longrightarrow> f w = (w', Inl x) \<Longrightarrow> E w') \<Longrightarrow>
   upholds E P (call_or e f) Q"
  unfolding call_or_def
  by (rule upholds_bind [OF upholds_ask [where Q = "\<lambda>r w. case r of Inl _ \<Rightarrow> E w | Inr a \<Rightarrow> Q a w"]])
    (auto intro: upholds_err upholds_ok split: sum.splits)

lemma upholds_attempting:
  "upholds E' P m Q' \<Longrightarrow> upholds E P (attempting m) (\<lambda>r w. case r of Inl _ \<Rightarrow> E' w | Inr a \<Rightarrow> Q' a w)"
  by (fastforce simp: upholds_def attempting_def split: sum.splits)

section \<open>Mirrored files\<close>

locale mirrored_files =
  fixes sf' :: "('w \<times> 'ev list) state_files" and sf :: "'w state_files"
  assumes mirrored: "mirrors (sf_now sf') (sf_now sf)" "mirrors (sf_preview_ids sf') (sf_preview_ids sf)"
      "mirrors (sf_receipt_ids sf') (sf_receipt_ids sf)" "mirrors (sf_transaction_ids sf') (sf_transaction_ids sf)"
      "mirrors (sf_load_preview sf' key) (sf_load_preview sf key)" "mirrors (sf_load_receipt sf' key) (sf_load_receipt sf key)"
      "mirrors (sf_load_transaction sf' key) (sf_load_transaction sf key)" "mirrors (sf_store_preview sf' p) (sf_store_preview sf p)"
      "mirrors (sf_store_receipt sf' r) (sf_store_receipt sf r)" "mirrors (sf_store_transaction sf' tx) (sf_store_transaction sf tx)"
      "mirrors (sf_remove_preview sf' key) (sf_remove_preview sf key)" "mirrors (sf_remove_receipt sf' key) (sf_remove_receipt sf key)"
      "mirrors (sf_remove_transaction sf' key) (sf_remove_transaction sf key)"
      "mirrors (sf_preview_exists sf' key) (sf_preview_exists sf key)" "mirrors (sf_receipt_exists sf' key) (sf_receipt_exists sf key)"
      "mirrors (sf_transaction_exists sf' key) (sf_transaction_exists sf key)"
      "mirrors (sf_preview_size sf' key) (sf_preview_size sf key)" "mirrors (sf_open_lock sf' uri) (sf_open_lock sf uri)"
      "mirrors (sf_try_lock sf' uri) (sf_try_lock sf uri)" "mirrors (sf_close_lock sf' uri) (sf_close_lock sf uri)"
      "mirrors (sf_random sf') (sf_random sf)"
    and pure: "sf_preview_len sf' = sf_preview_len sf" "sf_rfc3339 sf' = sf_rfc3339 sf"
begin

lemmas store_calls = mirrored [THEN shadows_ask] mirrored(2-4,8-10,12-13,18,21) [THEN shadows_call_or]
  mirrored(11) [THEN shadows_call_or] mirrored(5-7) [THEN shadows_read_record] mirrored(5-7) [THEN shadows_mapped_mirror]

lemma reads:
  "shadows (read_preview sf' key) (read_preview sf key)" "shadows (read_receipt sf' key) (read_receipt sf key)"
  "shadows (read_transaction sf' key) (read_transaction sf key)" "shadows (read_all_receipts sf') (read_all_receipts sf)"
  "shadows (list_transactions sf') (list_transactions sf)" "shadows (already_applied sf' key) (already_applied sf key)"
  by (auto simp: read_preview_def read_receipt_def read_transaction_def read_all_receipts_def list_transactions_def
      already_applied_def validate_record_version_def intro!: shadow_rules store_calls)

lemma removals:
  "shadows (remove_receipt sf' key) (remove_receipt sf key)" "shadows (remove_transaction sf' key) (remove_transaction sf key)"
  "shadows (retire_preview_after_recovery sf' key) (retire_preview_after_recovery sf key)"
  "shadows (prune_preview sf' now key) (prune_preview sf now key)"
  by (auto simp: remove_receipt_def remove_transaction_def retire_preview_after_recovery_def prune_preview_def
      validate_record_version_def intro!: shadow_rules store_calls)

lemma prunes: "shadows (prune_expired_records sf') (prune_expired_records sf)"
  by (auto simp: prune_expired_records_def Let_def intro!: shadow_rules store_calls reads removals)

lemma writes:
  "shadows (write_preview sf' p) (write_preview sf p)" "shadows (release_preview sf' p) (release_preview sf p)"
  "shadows (write_transaction sf' tx) (write_transaction sf tx)" "shadows (update_receipt sf' key f g) (update_receipt sf key f g)"
  "shadows (mark_receipt_session_synchronized sf' key) (mark_receipt_session_synchronized sf key)"
  "shadows (mark_receipt_cleanup_complete sf' key) (mark_receipt_cleanup_complete sf key)"
  by (auto simp: write_preview_def release_preview_def write_transaction_def update_receipt_def
      mark_receipt_session_synchronized_def mark_receipt_cleanup_complete_def intro!: shadow_rules store_calls reads)

lemma expiries: "shadows (list_previews sf') (list_previews sf)" "shadows (expired_preview_ids sf') (expired_preview_ids sf)"
  "shadows (expired_receipt_ids sf') (expired_receipt_ids sf)" "shadows (list_receipts sf') (list_receipts sf)"
  by (auto simp: list_previews_def expired_preview_ids_def expired_receipt_ids_def list_receipts_def
      intro!: shadow_rules store_calls reads prunes)

lemma receipts:
  "shadows (ensure_receipt_capacity sf' n) (ensure_receipt_capacity sf n)" "shadows (write_receipt sf' n r) (write_receipt sf n r)"
  "shadows (convert_preview_to_receipt sf' n key r) (convert_preview_to_receipt sf n key r)"
  by (auto simp: ensure_receipt_capacity_def require_receipt_room_def write_receipt_def convert_preview_to_receipt_def Let_def
      intro!: shadow_rules store_calls prunes expiries)

lemma previews:
  "shadows (create_preview sf' n m p w a d) (create_preview sf n m p w a d)" "shadows (reserve_preview sf' key) (reserve_preview sf key)"
  "shadows (random_identifier sf' s) (random_identifier sf s)"
  by (auto simp: create_preview_def reserve_preview_def random_identifier_def Let_def pure
      intro!: shadow_rules store_calls reads writes prunes expiries)

lemma locks:
  assumes "shadows m' m"
  shows "shadows (with_lock_file sf' uri m') (with_lock_file sf uri m)"
proof -
  have "shadows (\<lambda>w. map_option (\<lambda>(w', r). (fst (sf_close_lock sf' uri w'), r)) (m' w))
      (\<lambda>w. map_option (\<lambda>(w', r). (fst (sf_close_lock sf uri w'), r)) (m w))"
    unfolding shadows_def
  proof (intro allI)
    fix w l
    show "case map_option (\<lambda>(w', r). (fst (sf_close_lock sf uri w'), r)) (m w) of
        None \<Rightarrow> map_option (\<lambda>(w', r). (fst (sf_close_lock sf' uri w'), r)) (m' (w, l)) = None
      | Some (w', r) \<Rightarrow> \<exists>l'. map_option (\<lambda>(w', r). (fst (sf_close_lock sf' uri w'), r)) (m' (w, l)) = Some ((w', l'), r)"
    proof (cases "m w")
      case None
      with shadows_None [OF assms] show ?thesis by simp
    next
      case (Some y)
      obtain w1 r where y: "y = (w1, r)" by (cases y)
      with Some obtain l1 where "m' (w, l) = Some ((w1, l1), r)" using shadowsD [OF assms] by blast
      with Some y mirrors_at [OF mirrored(20) [of uri], of w1 l1] show ?thesis by auto
    qed
  qed
  then show ?thesis unfolding with_lock_file_def open_application_lock_def by (intro shadow_rules store_calls)
qed

lemma requests: "shadows (prune_state sf' requested) (prune_state sf requested)"
proof -
  have target: "shadows (remove_target sf' t) (remove_target sf t)" for t
    by (cases t) (auto intro!: shadow_rules store_calls removals)
  show ?thesis
    by (auto simp: prune_state_def prune_request_def Let_def intro!: shadow_rules store_calls reads prunes target)
qed

end

section \<open>Files that obey a relation\<close>

text \<open>Storing a journal is left out: an operation that stores none also keeps a relation that forbids it.\<close>

locale obeyed_files = step_relation R for R :: "'w \<Rightarrow> 'w \<Rightarrow> bool" +
  fixes sf :: "'w state_files"
  assumes obeyed: "obeys R (sf_now sf)" "obeys R (sf_preview_ids sf)" "obeys R (sf_receipt_ids sf)" "obeys R (sf_transaction_ids sf)"
      "obeys R (sf_load_preview sf key)" "obeys R (sf_load_receipt sf key)" "obeys R (sf_load_transaction sf key)"
      "obeys R (sf_store_preview sf p)" "obeys R (sf_store_receipt sf r)"
      "obeys R (sf_remove_preview sf key)" "obeys R (sf_remove_receipt sf key)" "obeys R (sf_remove_transaction sf key)"
      "obeys R (sf_preview_exists sf key)" "obeys R (sf_receipt_exists sf key)" "obeys R (sf_transaction_exists sf key)"
      "obeys R (sf_preview_size sf key)" "obeys R (sf_open_lock sf uri)" "obeys R (sf_try_lock sf uri)"
      "obeys R (sf_close_lock sf uri)" "obeys R (sf_random sf)"
begin

lemma keeps_ask: "obeys R f \<Longrightarrow> keeps R (ask f)"
  unfolding ask_def by (rule keeps_mapped_call)

lemma keeps_call_or: "obeys R f \<Longrightarrow> keeps R (call_or e f)"
  unfolding call_or_def by (intro keep_rules keeps_ask)

lemmas store_keeps = obeyed [THEN keeps_ask] obeyed(2-4,8-9,11-12,17,20) [THEN keeps_call_or] obeyed(10) [THEN keeps_call_or]
  obeyed(5-7) [THEN keeps_mapped_call] keeps_attempting

lemma reads_keep:
  "keeps R (read_preview sf key)" "keeps R (read_receipt sf key)" "keeps R (read_transaction sf key)" "keeps R (read_all_receipts sf)"
  "keeps R (list_transactions sf)" "keeps R (already_applied sf key)"
  by (auto simp: read_preview_def read_receipt_def read_transaction_def read_all_receipts_def list_transactions_def read_record_def
      already_applied_def validate_record_version_def intro!: keep_rules store_keeps)

lemma removals_keep:
  "keeps R (remove_receipt sf key)" "keeps R (remove_transaction sf key)" "keeps R (retire_preview_after_recovery sf key)"
  "keeps R (prune_preview sf now key)" "keeps R (prune_expired_records sf)"
  by (auto simp: remove_receipt_def remove_transaction_def retire_preview_after_recovery_def prune_preview_def
      prune_expired_records_def validate_record_version_def Let_def intro!: keep_rules store_keeps reads_keep)

lemma writes_keep:
  "keeps R (write_preview sf p)" "keeps R (release_preview sf p)"
  "keeps R (mark_receipt_session_synchronized sf key)" "keeps R (mark_receipt_cleanup_complete sf key)"
  by (auto simp: write_preview_def release_preview_def update_receipt_def
      mark_receipt_session_synchronized_def mark_receipt_cleanup_complete_def intro!: keep_rules store_keeps reads_keep)

lemma journal_keeps: "obeys R (sf_store_transaction sf tx) \<Longrightarrow> keeps R (write_transaction sf tx)"
  unfolding write_transaction_def by (rule keeps_call_or)

lemma receipts_keep:
  "keeps R (ensure_receipt_capacity sf n)" "keeps R (write_receipt sf n r)" "keeps R (convert_preview_to_receipt sf n key r)"
  by (auto simp: ensure_receipt_capacity_def require_receipt_room_def write_receipt_def convert_preview_to_receipt_def
      expired_receipt_ids_def Let_def intro!: keep_rules store_keeps reads_keep removals_keep)

lemma previews_keep: "keeps R (random_identifier sf s)"
  by (auto simp: random_identifier_def intro!: keep_rules store_keeps)

end

end
