(* ===== verification/Prune_Laws.thy ===== *)
theory Prune_Laws
  imports Mutation_Store_Laws Store_Laws
begin

text \<open>
  What pruning may remove. The state files are traced: what was read of Previews and Receipts, the
  clock, and every attempt to remove a file are events.
\<close>

section \<open>Traced state files\<close>

datatype store_event =
    ReadClock int
  | ReadPreview string stored_preview
  | ReadReceipt stored_receipt
  | RemovingPreview string
  | RemovingReceipt string

definition seen :: "('a \<Rightarrow> store_event) \<Rightarrow> 'e + 'a \<Rightarrow> store_event list" where
  "seen ev r = (case r of Inl _ \<Rightarrow> [] | Inr a \<Rightarrow> [ev a])"

definition traced_files :: "'w state_files \<Rightarrow> ('w \<times> store_event list) state_files" where
  "traced_files sf = \<lparr>
     sf_now = noting (\<lambda>t. [ReadClock t]) (sf_now sf),
     sf_preview_ids = quiet (sf_preview_ids sf),
     sf_receipt_ids = quiet (sf_receipt_ids sf),
     sf_transaction_ids = quiet (sf_transaction_ids sf),
     sf_load_preview = (\<lambda>key. noting (seen (ReadPreview key)) (sf_load_preview sf key)),
     sf_load_receipt = (\<lambda>key. noting (seen ReadReceipt) (sf_load_receipt sf key)),
     sf_load_transaction = (\<lambda>key. quiet (sf_load_transaction sf key)),
     sf_store_preview = (\<lambda>p. quiet (sf_store_preview sf p)),
     sf_store_receipt = (\<lambda>r. quiet (sf_store_receipt sf r)),
     sf_store_transaction = (\<lambda>tx. quiet (sf_store_transaction sf tx)),
     sf_remove_preview = (\<lambda>key. noting (\<lambda>_. [RemovingPreview key]) (sf_remove_preview sf key)),
     sf_remove_receipt = (\<lambda>key. noting (\<lambda>_. [RemovingReceipt key]) (sf_remove_receipt sf key)),
     sf_remove_transaction = (\<lambda>key. quiet (sf_remove_transaction sf key)),
     sf_preview_exists = (\<lambda>key. quiet (sf_preview_exists sf key)),
     sf_receipt_exists = (\<lambda>key. quiet (sf_receipt_exists sf key)),
     sf_transaction_exists = (\<lambda>key. quiet (sf_transaction_exists sf key)),
     sf_preview_size = (\<lambda>key. quiet (sf_preview_size sf key)),
     sf_preview_len = sf_preview_len sf,
     sf_open_lock = (\<lambda>uri. quiet (sf_open_lock sf uri)),
     sf_try_lock = (\<lambda>uri. quiet (sf_try_lock sf uri)),
     sf_close_lock = (\<lambda>uri. quiet (sf_close_lock sf uri)),
     sf_random = quiet (sf_random sf),
     sf_rfc3339 = sf_rfc3339 sf\<rparr>"

lemma traced_files_simps [simp]:
  "sf_now (traced_files sf) = noting (\<lambda>t. [ReadClock t]) (sf_now sf)"
  "sf_preview_ids (traced_files sf) = quiet (sf_preview_ids sf)"
  "sf_receipt_ids (traced_files sf) = quiet (sf_receipt_ids sf)"
  "sf_load_preview (traced_files sf) key = noting (seen (ReadPreview key)) (sf_load_preview sf key)"
  "sf_load_receipt (traced_files sf) key = noting (seen ReadReceipt) (sf_load_receipt sf key)"
  "sf_remove_preview (traced_files sf) key = noting (\<lambda>_. [RemovingPreview key]) (sf_remove_preview sf key)"
  "sf_remove_receipt (traced_files sf) key = noting (\<lambda>_. [RemovingReceipt key]) (sf_remove_receipt sf key)"
  "sf_preview_exists (traced_files sf) key = quiet (sf_preview_exists sf key)"
  "sf_transaction_exists (traced_files sf) key = quiet (sf_transaction_exists sf key)"
  by (simp_all add: traced_files_def)

interpretation traced_store: mirrored_files "traced_files sf" sf for sf :: "'w state_files"
  by unfold_locales (simp_all add: traced_files_def)

section \<open>What a trace shows\<close>

definition receipts_read :: "store_event list \<Rightarrow> stored_receipt list" where
  "receipts_read l = concat (map (\<lambda>ev. case ev of ReadReceipt r \<Rightarrow> [r] | _ \<Rightarrow> []) l)"

definition receipts_removed :: "store_event list \<Rightarrow> string list" where
  "receipts_removed l = concat (map (\<lambda>ev. case ev of RemovingReceipt k \<Rightarrow> [k] | _ \<Rightarrow> []) l)"

lemma receipts_read_simps [simp]:
  "receipts_read [] = []" "receipts_read (l @ l') = receipts_read l @ receipts_read l'"
  "receipts_read [ReadClock t] = []" "receipts_read [ReadPreview k p] = []" "receipts_read [ReadReceipt r] = [r]"
  "receipts_read [RemovingPreview k] = []" "receipts_read [RemovingReceipt k] = []"
  by (simp_all add: receipts_read_def)

lemma receipts_removed_simps [simp]:
  "receipts_removed [] = []" "receipts_removed (l @ l') = receipts_removed l @ receipts_removed l'"
  "receipts_removed [ReadClock t] = []" "receipts_removed [ReadPreview k p] = []" "receipts_removed [ReadReceipt r] = []"
  "receipts_removed [RemovingPreview k] = []" "receipts_removed [RemovingReceipt k] = [k]"
  by (simp_all add: receipts_removed_def)

text \<open>A Preview the trace has read unreserved, and a Receipt among the records read whose chain is not protected.\<close>

definition free_preview :: "store_event list \<Rightarrow> string \<Rightarrow> bool" where
  "free_preview l key \<longleftrightarrow> (\<exists>p. ReadPreview key p \<in> set l \<and> \<not> pv_reserved (sp_preview p))"

definition free_receipt :: "stored_receipt list \<Rightarrow> string \<Rightarrow> bool" where
  "free_receipt receipts key \<longleftrightarrow>
     key \<in> (\<lambda>r. rc_id (sr_receipt r)) ` set receipts \<and> \<not> receipt_chain_protected (receipt_chain receipts key)"

definition expired_by :: "store_event list \<Rightarrow> string \<Rightarrow> bool" where
  "expired_by l key \<longleftrightarrow>
     (\<exists>t. ReadClock t \<in> set l \<and> list_all (\<lambda>r. sr_expires r \<le> t) (receipt_chain (receipts_read l) key))"

definition lawful_prune :: "string list \<Rightarrow> store_event list \<Rightarrow> bool" where
  "lawful_prune requested l \<longleftrightarrow>
     (\<forall>key. RemovingPreview key \<in> set l \<longrightarrow> free_preview l key)
   \<and> (\<forall>key \<in> set (receipts_removed l). free_receipt (receipts_read l) key \<and> (requested = [] \<longrightarrow> expired_by l key))
   \<and> (receipts_removed l \<noteq> [] \<longrightarrow>
        (\<forall>key \<in> set requested. free_preview l key \<or> free_receipt (receipts_read l) key))"

definition whole_chains :: "store_event list \<Rightarrow> bool" where
  "whole_chains l \<longleftrightarrow>
     (\<forall>key \<in> set (receipts_removed l). \<forall>r \<in> set (receipt_chain (receipts_read l) key).
        RemovingReceipt (rc_id (sr_receipt r)) \<in> set l \<or> RemovingPreview (rc_id (sr_receipt r)) \<in> set l)"

text \<open>The trace before the Receipts are removed: those read so far, and previews removed only when free.\<close>

definition reading :: "stored_receipt list \<Rightarrow> store_event set \<Rightarrow> string list \<Rightarrow> 'w \<times> store_event list \<Rightarrow> bool" where
  "reading rs known ks = (\<lambda>(w, l). receipts_read l = rs \<and> receipts_removed l = ks \<and> known \<subseteq> set l
     \<and> (\<forall>key. RemovingPreview key \<in> set l \<longrightarrow> free_preview l key))"

definition lawful :: "string list \<Rightarrow> 'w \<times> store_event list \<Rightarrow> bool" where
  "lawful requested = (\<lambda>(w, l). lawful_prune requested l)"

lemma free_preview_more [simp]: "free_preview l key \<Longrightarrow> free_preview (l @ l') key"
  by (auto simp: free_preview_def)

lemma reading_lawful: "reading rs known [] wl \<Longrightarrow> lawful requested wl"
  by (auto simp: reading_def lawful_def lawful_prune_def)

lemma reading_world: "reading rs known ks (w, l) \<Longrightarrow> reading rs known ks (w', l)"
  by (simp add: reading_def)

lemma reading_more:
  "reading rs known ks (w, l) \<Longrightarrow> (\<And>key. RemovingPreview key \<in> set l' \<Longrightarrow> free_preview (l @ l') key) \<Longrightarrow>
     rs' = rs @ receipts_read l' \<Longrightarrow> ks' = ks @ receipts_removed l' \<Longrightarrow> known' \<subseteq> known \<union> set l' \<Longrightarrow>
     reading rs' known' ks' (w', l @ l')"
  by (auto simp: reading_def)


section \<open>Triples\<close>

lemma upholds_call_mapped:
  "(\<And>w w' a. P w \<Longrightarrow> f w = (w', Inr a) \<Longrightarrow> Q a w') \<Longrightarrow> (\<And>w w' x. P w \<Longrightarrow> f w = (w', Inl x) \<Longrightarrow> E w') \<Longrightarrow>
   upholds E P (call (map_prod id (map_sum g id) \<circ> f)) Q"
proof (rule upholds_call)
  fix w w' r
  assume a: "\<And>w w' a. P w \<Longrightarrow> f w = (w', Inr a) \<Longrightarrow> Q a w'" "\<And>w w' x. P w \<Longrightarrow> f w = (w', Inl x) \<Longrightarrow> E w'"
    and w: "P w" "(map_prod id (map_sum g id) \<circ> f) w = (w', r)"
  obtain y where "f w = (w', y)" "r = map_sum g id y" using w(2) by (cases "f w") auto
  with a w(1) show "case r of Inl _ \<Rightarrow> E w' | Inr a \<Rightarrow> Q a w'" by (cases y) auto
qed

lemma read_preview_traced:
  "upholds (reading rs known ks) (reading rs known ks) (read_preview (traced_files sf) key)
     (\<lambda>p. reading rs (insert (ReadPreview key p) known) ks)"
  unfolding read_preview_def read_record_def validate_record_version_def
proof (simp only: traced_files_simps, rule upholds_bind [OF upholds_call_mapped])
  let ?Q = "\<lambda>p. reading rs (insert (ReadPreview key p) known) ks"
  show "?Q p w'" if "reading rs known ks w" "noting (seen (ReadPreview key)) (sf_load_preview sf key) w = (w', Inr p)" for w w' p
    using that by (cases w) (auto simp: noting_def seen_def split: prod.splits intro!: reading_more)
  show "reading rs known ks w'" if "reading rs known ks w" "noting (seen (ReadPreview key)) (sf_load_preview sf key) w = (w', Inl x)" for w w' x
    using that by (cases w) (auto simp: noting_def seen_def split: prod.splits intro: reading_world)
  have weaken: "reading rs known ks w" if "?Q p w" for p w
    using that by (auto simp: reading_def)
  have clock: "upholds (reading rs known ks) (?Q p) (ask (noting (\<lambda>t. [ReadClock t]) (sf_now sf))) (\<lambda>_. ?Q p)" for p
    by (rule upholds_ask) (auto simp: noting_def split: prod.splits intro!: reading_more)
  have drop: "upholds (reading rs known ks) (?Q p) (ask (noting (\<lambda>_. [RemovingPreview key]) (sf_remove_preview sf key))) (\<lambda>_. ?Q p)"
    if "\<not> pv_reserved (sp_preview p)" for p
    by (rule upholds_ask) (use that in \<open>auto simp: noting_def free_preview_def reading_def split: prod.splits\<close>)
  show "upholds (reading rs known ks) (?Q p)
      (step_then (require (sp_format_version p = mutation_state_version) stored_version_failure)
        (step_bind (ask (noting (\<lambda>t. [ReadClock t]) (sf_now sf))) (\<lambda>now.
           if sp_expires p \<le> now \<and> \<not> pv_reserved (sp_preview p)
           then step_then (ask (noting (\<lambda>_. [RemovingPreview key]) (sf_remove_preview sf key))) (step_err (preview_unknown ''inspect''))
           else step_ok p))) ?Q" for p
    by (intro upholds_then [OF upholds_require, where R = "?Q p"] upholds_bind [OF clock] upholds_if
        upholds_then [OF drop] upholds_err upholds_ok) (auto intro: weaken)
qed


definition harmless :: "store_event set \<Rightarrow> 'w \<times> store_event list \<Rightarrow> bool" where
  "harmless known wl \<longleftrightarrow> (\<exists>rs. reading rs known [] wl)"

lemma reading_harmless: "reading rs known [] wl \<Longrightarrow> harmless known wl"
  by (auto simp: harmless_def)

lemma read_receipt_traced:
  "upholds (harmless known) (reading rs known []) (read_receipt (traced_files sf) key) (\<lambda>r. reading (rs @ [r]) known [])"
proof -
  have load: "upholds (reading rs known []) (reading rs known []) (read_record (sf_load_receipt (traced_files sf) key))
      (\<lambda>r. reading (rs @ [r]) known [])"
    unfolding read_record_def
    by (rule upholds_call_mapped)
      (auto simp: noting_def seen_def split: prod.splits intro: reading_world intro!: reading_more)
  show ?thesis
    unfolding read_receipt_def validate_record_version_def
    by (rule upholds_bind [OF upholds_attempting [OF load]])
      (auto intro!: upholds_then [OF upholds_require, where R = "reading (rs @ [r]) known []" for r] upholds_err upholds_ok
        intro: reading_harmless split: sum.splits)
qed

lemma read_all_receipts_traced:
  "upholds (harmless known) (reading [] known []) (read_all_receipts (traced_files sf)) (\<lambda>rs. reading rs known [])"
  unfolding read_all_receipts_def
proof (rule upholds_bind [OF upholds_call_or])
  show "reading [] known [] w'" if "reading [] known [] w" "sf_receipt_ids (traced_files sf) w = (w', Inr keys)" for w w' keys
    using that by (cases w) (auto simp: quiet_def split: prod.splits intro: reading_world)
  show "harmless known w'" if "reading [] known [] w" "sf_receipt_ids (traced_files sf) w = (w', Inl x)" for w w' x
    using that by (cases w) (auto simp: quiet_def split: prod.splits intro: reading_harmless reading_world)
  show "upholds (harmless known) (reading [] known []) (each (read_receipt (traced_files sf)) keys) (\<lambda>rs. reading rs known [])" for keys
    by (rule upholds_mono [OF upholds_each_values [where P = "\<lambda>zs. reading (map snd zs) known []" and zs = "[]" and xs = keys and E = "harmless known"]])
      (use read_receipt_traced [of known "map snd zs" for zs] in auto)
qed

lemma prune_preview_traced:
  "upholds (harmless known) (reading [] known []) (prune_preview (traced_files sf) now key) (\<lambda>_. reading [] known [])"
  unfolding prune_preview_def validate_record_version_def
proof (simp only: traced_files_simps, rule upholds_bind [OF upholds_call_mapped])
  let ?Q = "\<lambda>p. reading [] (insert (ReadPreview key p) known) []"
  show "?Q p w'" if "reading [] known [] w" "noting (seen (ReadPreview key)) (sf_load_preview sf key) w = (w', Inr p)" for w w' p
    using that by (cases w) (auto simp: noting_def seen_def split: prod.splits intro!: reading_more)
  show "harmless known w'" if "reading [] known [] w" "noting (seen (ReadPreview key)) (sf_load_preview sf key) w = (w', Inl x)" for w w' x
    using that by (cases w) (auto simp: noting_def seen_def split: prod.splits intro: reading_world reading_harmless)
  have weaken: "reading [] known [] w" if "?Q p w" for p w
    using that by (auto simp: reading_def)
  have drop: "upholds (harmless known) (?Q p) (call_or state_failure (noting (\<lambda>_. [RemovingPreview key]) (sf_remove_preview sf key))) (\<lambda>_. ?Q p)"
    if "\<not> pv_reserved (sp_preview p)" for p
    by (rule upholds_call_or) (use that in \<open>auto simp: noting_def free_preview_def reading_def harmless_def split: prod.splits\<close>)
  show "upholds (harmless known) (?Q p)
      (step_then (require (sp_format_version p = mutation_state_version) stored_version_failure)
        (if sp_expires p \<le> now \<and> \<not> pv_reserved (sp_preview p)
         then step_then (call_or state_failure (noting (\<lambda>_. [RemovingPreview key]) (sf_remove_preview sf key)))
           (step_ok [pv_id (sp_preview p)])
         else step_ok [])) (\<lambda>_. reading [] known [])" for p
    by (intro upholds_then [OF upholds_require, where R = "?Q p"] upholds_if upholds_then [OF drop] upholds_err upholds_ok)
      (auto intro: weaken reading_harmless)
qed

lemma remove_receipt_traced:
  "upholds (\<lambda>wl. reading rs known (ks @ [key]) wl) (reading rs known ks) (remove_receipt (traced_files sf) key)
     (\<lambda>_. reading rs known (ks @ [key]))"
  unfolding remove_receipt_def
  by (rule upholds_call_or) (auto simp: noting_def split: prod.splits intro!: reading_more)


section \<open>Requested pruning\<close>

definition target_ok :: "stored_receipt list \<Rightarrow> store_event list \<Rightarrow> (string \<times> prune_target) list \<Rightarrow> string \<times> prune_target \<Rightarrow> bool" where
  "target_ok rs l ts = (\<lambda>(n, t). case t of
     PreviewFile k \<Rightarrow> n = k \<and> free_preview l k
   | ReceiptFile k \<Rightarrow> n = k \<and> free_receipt rs k
       \<and> (\<forall>r \<in> set (receipt_chain rs k). rc_id (sr_receipt r) \<in> fst ` set ts))"

definition decision_ok ::
  "stored_receipt list \<Rightarrow> store_event list \<Rightarrow> string \<times> (prune_problem + (string \<times> prune_target) list) \<Rightarrow> bool" where
  "decision_ok rs l = (\<lambda>(q, d). case d of Inl _ \<Rightarrow> True
     | Inr ts \<Rightarrow> (free_preview l q \<or> free_receipt rs q) \<and> list_all (target_ok rs l ts) ts)"

lemma decision_ok_Inl [simp]: "decision_ok rs l (q, Inl x)"
  by (simp add: decision_ok_def)

lemma target_ok_more: "target_ok rs l ts e \<Longrightarrow> target_ok rs (l @ l') ts e"
  by (auto simp: target_ok_def split: prune_target.splits)

lemma decision_ok_more: "decision_ok rs l e \<Longrightarrow> decision_ok rs (l @ l') e"
  by (auto simp: decision_ok_def list_all_iff target_ok_more split: sum.splits)

lemma free_chain:
  assumes "free_receipt rs key" "r \<in> set (receipt_chain rs key)"
  shows "free_receipt rs (rc_id (sr_receipt r))" "receipt_chain rs (rc_id (sr_receipt r)) = receipt_chain rs key"
proof -
  show same: "receipt_chain rs (rc_id (sr_receipt r)) = receipt_chain rs key"
    using assms(2) by (intro chain_of_member) (simp add: in_receipt_chain)
  show "free_receipt rs (rc_id (sr_receipt r))"
    using assms same by (auto simp: free_receipt_def in_receipt_chain)
qed

lemma prune_receipts_ok: "decision_ok rs l (key, prune_receipts rs key)"
proof (cases "list_ex (\<lambda>r. rc_id (sr_receipt r) = key) rs \<and> \<not> receipt_chain_protected (receipt_chain rs key)")
  case True
  then have key: "free_receipt rs key" by (auto simp: free_receipt_def list_ex_iff)
  have "target_ok rs l (map (\<lambda>r. (rc_id (sr_receipt r), ReceiptFile (rc_id (sr_receipt r)))) (receipt_chain rs key))
      (rc_id (sr_receipt r), ReceiptFile (rc_id (sr_receipt r)))" if "r \<in> set (receipt_chain rs key)" for r
    using free_chain [OF key that] by (auto simp: target_ok_def image_image)
  with True key show ?thesis by (auto simp: decision_ok_def prune_receipts_def list_all_iff Let_def)
next
  case False
  then show ?thesis by (auto simp: decision_ok_def prune_receipts_def Let_def)
qed

definition deciding ::
  "stored_receipt list \<Rightarrow> (string \<times> (prune_problem + (string \<times> prune_target) list)) list \<Rightarrow> 'w \<times> store_event list \<Rightarrow> bool" where
  "deciding rs zs wl \<longleftrightarrow> (\<exists>l. reading rs (set l) [] wl \<and> list_all (decision_ok rs l) zs)"

lemma decidingI: "reading rs (set l) [] wl \<Longrightarrow> list_all (decision_ok rs l) zs \<Longrightarrow> deciding rs zs wl"
  by (auto simp: deciding_def)

lemma quiet_keeps_reading: "upholds E (reading rs known ks) (ask (quiet f)) (\<lambda>_. reading rs known ks)"
  by (rule upholds_ask) (auto simp: quiet_def split: prod.splits intro: reading_world)

lemma prune_request_traced:
  "upholds (harmless {}) (deciding rs zs) (prune_request (traced_files sf) rs q) (\<lambda>d. deciding rs (zs @ [(q, d)]))"
  unfolding deciding_def [of rs zs, abs_def]
proof (rule upholds_ex, rule upholds_pre)
  fix l assume zs: "list_all (decision_ok rs l) zs"
  have ok: "deciding rs (zs @ [(q, d)]) wl" if "reading rs (set l) [] wl" "decision_ok rs l (q, d)" for d and wl :: "'a \<times> store_event list"
    using that zs by (auto intro: decidingI)
  have read: "upholds (harmless {}) (reading rs (set l) [])
      (step_bind (attempting (read_preview (traced_files sf) q)) (\<lambda>r. step_ok (case r of
         Inr p \<Rightarrow> if pv_reserved (sp_preview p) then Inl ProtectedState else Inr [(q, PreviewFile q)]
       | Inl _ \<Rightarrow> Inl UnknownState))) (\<lambda>d. deciding rs (zs @ [(q, d)]))"
  proof (rule upholds_bind [OF upholds_attempting [OF read_preview_traced]], rule upholds_ok)
    fix r :: "contract_failure + stored_preview" and wl :: "'a \<times> store_event list"
    assume r: "case r of Inl _ \<Rightarrow> reading rs (set l) [] wl | Inr p \<Rightarrow> reading rs (insert (ReadPreview q p) (set l)) [] wl"
    show "deciding rs (zs @ [(q, case r of Inr p \<Rightarrow> if pv_reserved (sp_preview p) then Inl ProtectedState else Inr [(q, PreviewFile q)]
       | Inl _ \<Rightarrow> Inl UnknownState)]) wl"
    proof (cases r)
      case (Inl f)
      with r show ?thesis by (auto intro!: ok simp: decision_ok_def)
    next
      case (Inr p)
      with r have "reading rs (set (l @ [ReadPreview q p])) [] wl" by simp
      moreover have "list_all (decision_ok rs (l @ [ReadPreview q p])) zs"
        using zs by (auto simp: list_all_iff decision_ok_more)
      moreover have "decision_ok rs (l @ [ReadPreview q p]) (q, if pv_reserved (sp_preview p) then Inl ProtectedState else Inr [(q, PreviewFile q)])"
        by (auto simp: decision_ok_def target_ok_def free_preview_def)
      ultimately show ?thesis using Inr by (intro decidingI) simp_all
    qed
  qed
  show "upholds (harmless {}) (reading rs (set l) []) (prune_request (traced_files sf) rs q) (\<lambda>d. deciding rs (zs @ [(q, d)]))"
    unfolding prune_request_def
    by (rule upholds_bind [where R = "\<lambda>_. reading rs (set l) []"], (auto intro!: quiet_keeps_reading upholds_ok)[1],
        intro upholds_if read)
      (auto intro!: upholds_ok ok prune_receipts_ok upholds_bind [where R = "\<lambda>_. reading rs (set l) []"] quiet_keeps_reading)
qed


section \<open>Removal\<close>

definition removed_receipts :: "prune_target list \<Rightarrow> string list" where
  "removed_receipts ts = concat (map (\<lambda>t. case t of ReceiptFile k \<Rightarrow> [k] | PreviewFile _ \<Rightarrow> []) ts)"

definition removed_previews :: "prune_target list \<Rightarrow> store_event set" where
  "removed_previews ts = {RemovingPreview k | k. PreviewFile k \<in> set ts}"

definition removable :: "string list \<Rightarrow> stored_receipt list \<Rightarrow> store_event list \<Rightarrow> string list \<Rightarrow> bool" where
  "removable requested rs l ks \<longleftrightarrow>
     (\<forall>k \<in> set ks. free_receipt rs k
        \<and> (requested = [] \<longrightarrow> (\<exists>t. ReadClock t \<in> set l \<and> list_all (\<lambda>r. sr_expires r \<le> t) (receipt_chain rs k))))
   \<and> (\<forall>q \<in> set requested. free_preview l q \<or> free_receipt rs q)"

lemma reading_removable:
  "reading rs known ks wl \<Longrightarrow> set l \<subseteq> known \<Longrightarrow> removable requested rs l ks \<Longrightarrow> lawful requested wl"
  by (cases wl) (auto simp: reading_def lawful_def lawful_prune_def removable_def expired_by_def free_preview_def; blast)

lemma remove_target_traced:
  assumes "set l \<subseteq> known" "case t of PreviewFile k \<Rightarrow> free_preview l k \<and> removable requested rs l ks
      | ReceiptFile k \<Rightarrow> removable requested rs l (ks @ [k])"
  shows "upholds (lawful requested) (reading rs known ks) (remove_target (traced_files sf) t)
     (\<lambda>_. reading rs (known \<union> removed_previews [t]) (ks @ removed_receipts [t]))"
proof (cases t)
  case (PreviewFile k)
  have free: "free_preview l' k" if "set l \<subseteq> set l'" for l'
    using that assms(2) PreviewFile by (auto simp: free_preview_def)
  have "reading rs (insert (RemovingPreview k) known) ks (w', l' @ [RemovingPreview k])"
    if "reading rs known ks (w, l')" for w w' :: 'a and l'
    using that assms(1) by (intro reading_more [OF that]) (auto intro!: free simp: reading_def)
  moreover have "reading rs known ks wl" if "reading rs (insert (RemovingPreview k) known) ks wl" for wl :: "'a \<times> store_event list"
    using that by (auto simp: reading_def)
  ultimately show ?thesis
    using assms PreviewFile
    by (auto simp: noting_def removed_previews_def removed_receipts_def split: prod.splits
        intro!: upholds_call_or reading_removable [where l = l and known = known])
next
  case (ReceiptFile k)
  have "reading rs known (ks @ [k]) wl \<Longrightarrow> lawful requested wl" for wl :: "'a \<times> store_event list"
    using reading_removable [OF _ assms(1), of rs "ks @ [k]" wl requested] assms(2) ReceiptFile by simp
  then show ?thesis
    using ReceiptFile upholds_mono [OF remove_receipt_traced [of rs known ks k sf], of "reading rs known ks" _ "lawful requested"]
    by (auto simp: removed_previews_def removed_receipts_def)
qed

lemma remove_targets_traced:
  assumes "set l \<subseteq> known" "\<And>k. PreviewFile k \<in> set ts \<Longrightarrow> free_preview l k" "removable requested rs l (ks @ removed_receipts ts)"
  shows "upholds (lawful requested) (reading rs known ks) (each (remove_target (traced_files sf)) ts)
     (\<lambda>_. reading rs (known \<union> removed_previews ts) (ks @ removed_receipts ts))"
  using assms
proof (induction ts arbitrary: known ks)
  case Nil
  then show ?case by (auto intro!: upholds_ok simp: removed_previews_def removed_receipts_def)
next
  case (Cons t ts)
  have split: "removed_receipts (t # ts) = removed_receipts [t] @ removed_receipts ts"
    "removed_previews (t # ts) = removed_previews [t] \<union> removed_previews ts"
    by (auto simp: removed_receipts_def removed_previews_def)
  have fewer: "removable requested rs l ks'" if "removable requested rs l ks''" "set ks' \<subseteq> set ks''" for ks' ks''
    using that by (auto simp: removable_def)
  have t: "case t of PreviewFile k \<Rightarrow> free_preview l k \<and> removable requested rs l ks
      | ReceiptFile k \<Rightarrow> removable requested rs l (ks @ [k])"
    using Cons.prems(2,3) by (auto simp: removed_receipts_def split: prune_target.splits intro: fewer)
  have "upholds (lawful requested) (reading rs (known \<union> removed_previews [t]) (ks @ removed_receipts [t]))
      (each (remove_target (traced_files sf)) ts)
      (\<lambda>_. reading rs ((known \<union> removed_previews [t]) \<union> removed_previews ts) ((ks @ removed_receipts [t]) @ removed_receipts ts))"
    using Cons.prems by (intro Cons.IH) (auto simp: split)
  then show ?case
    by (simp, intro upholds_bind [OF remove_target_traced [OF Cons.prems(1) t]])
      (auto simp: split(1) [simplified] split(2) Un_assoc intro!: upholds_bind upholds_ok)
qed


section \<open>Pruning\<close>

lemma set_fold_insert:
  "set (fold (\<lambda>(k, v). bt_insert k v) es m) \<subseteq> set es \<union> set m"
  "fst ` set (fold (\<lambda>(k, v). bt_insert k v) es m) = fst ` set es \<union> fst ` set m"
proof (induction es arbitrary: m)
  case (Cons e es)
  obtain k v where e: "e = (k, v)" by (cases e)
  { case 1 show ?case using Cons(1) [of "bt_insert k v m"] e by (auto simp: set_bt_insert) }
  { case 2 show ?case using Cons(2) [of "bt_insert k v m"] e by (force simp: set_bt_insert image_iff) }
qed simp_all

lemma entries_of_list: "set (bt_of_list es) \<subseteq> set es" "fst ` set (bt_of_list es) = fst ` set es"
  using set_fold_insert [of es "[]"] by (simp_all add: bt_of_list_def)

lemma remove_decided:
  assumes "list_all (decision_ok rs l) (zip requested decisions)" "length decisions = length requested" "requested \<noteq> []"
    "list_all (\<lambda>d. \<not> isl d) decisions"
  defines "paths \<equiv> bt_of_list (concat (map projr decisions))"
  shows "upholds (lawful requested) (reading rs (set l) []) (each (remove_target (traced_files sf)) (map snd paths))
     (\<lambda>_ wl. lawful requested wl \<and> whole_chains (snd wl))"
proof -
  have each: "(free_preview l q \<or> free_receipt rs q) \<and> list_all (target_ok rs l (projr d)) (projr d)"
    if "(q, d) \<in> set (zip requested decisions)" for q d
  proof -
    have "\<not> isl d" using assms(4) that by (auto simp: list_all_iff dest: set_zip_rightD)
    with assms(1) that show ?thesis by (fastforce simp: decision_ok_def list_all_iff split: sum.splits)
  qed
  have q: "free_preview l q \<or> free_receipt rs q" if q: "q \<in> set requested" for q
  proof -
    from q assms(2) obtain i where "i < length requested" "q = requested ! i" by (auto simp: in_set_conv_nth)
    with assms(2) have "(q, decisions ! i) \<in> set (zip requested decisions)" by (auto simp: set_zip)
    from each [OF this] show ?thesis by blast
  qed
  have d: "list_all (target_ok rs l (projr d)) (projr d)" if d: "d \<in> set decisions" for d
  proof -
    from d assms(2) obtain i where "i < length requested" "d = decisions ! i" by (auto simp: in_set_conv_nth)
    with assms(2) have "(requested ! i, d) \<in> set (zip requested decisions)" by (auto simp: set_zip)
    from each [OF this] show ?thesis by blast
  qed
  have target: "\<exists>ts. fst ` set ts \<subseteq> fst ` set paths \<and> target_ok rs l ts (n, t)" if "(n, t) \<in> set paths" for n t
  proof -
    from that entries_of_list(1) [of "concat (map projr decisions)"]
    obtain d' where "d' \<in> set decisions" "(n, t) \<in> set (projr d')"
      by (auto simp: paths_def)
    with d [of d'] show ?thesis
      by (intro exI [of _ "projr d'"]) (auto simp: list_all_iff paths_def entries_of_list(2))
  qed
  have receipt: "free_receipt rs k \<and> (\<forall>r \<in> set (receipt_chain rs k). rc_id (sr_receipt r) \<in> fst ` set paths)"
    if k: "k \<in> set (removed_receipts (map snd paths))" for k
  proof -
    from k obtain n where n: "(n, ReceiptFile k) \<in> set paths"
      by (auto simp: removed_receipts_def split: prune_target.splits)
    from target [OF n] show ?thesis by (auto simp: target_ok_def)
  qed
  have named: "ReceiptFile n \<in> set (map snd paths) \<or> PreviewFile n \<in> set (map snd paths)" if "n \<in> fst ` set paths" for n
  proof -
    from that obtain t where t: "(n, t) \<in> set paths" by auto
    from target [OF t] have "t = ReceiptFile n \<or> t = PreviewFile n"
      by (cases t) (auto simp: target_ok_def)
    with t show ?thesis by force
  qed
  have ok: "removable requested rs l (removed_receipts (map snd paths))"
    using receipt q assms(3) by (simp add: removable_def)
  have "lawful requested wl \<and> whole_chains (snd wl)"
    if "reading rs (set l \<union> removed_previews (map snd paths)) (removed_receipts (map snd paths)) wl" for wl :: "'a \<times> store_event list"
  proof
    show "lawful requested wl" by (rule reading_removable [OF that _ ok]) simp
    obtain w l' where wl: "wl = (w, l')" by (cases wl)
    with that have l': "receipts_read l' = rs" "receipts_removed l' = removed_receipts (map snd paths)"
      "removed_previews (map snd paths) \<subseteq> set l'"
      by (auto simp: reading_def)
    have gone: "RemovingReceipt n \<in> set l' \<or> RemovingPreview n \<in> set l'" if "n \<in> fst ` set paths" for n
      using named [OF that]
    proof
      assume "ReceiptFile n \<in> set (map snd paths)"
      then have "n \<in> set (receipts_removed l')" unfolding l'(2) by (force simp: removed_receipts_def)
      then show ?thesis by (force simp: receipts_removed_def split: store_event.splits)
    qed (use l'(3) in \<open>auto simp: removed_previews_def\<close>)
    show "whole_chains (snd wl)"
      unfolding whole_chains_def wl snd_conv l'(1,2) using receipt gone by blast
  qed
  moreover have "upholds (lawful requested) (reading rs (set l) []) (each (remove_target (traced_files sf)) (map snd paths))
     (\<lambda>_. reading rs (set l \<union> removed_previews (map snd paths)) ([] @ removed_receipts (map snd paths)))"
  proof (rule remove_targets_traced [OF order_refl])
    fix k assume "PreviewFile k \<in> set (map snd paths)"
    then obtain n where n: "(n, PreviewFile k) \<in> set paths" by auto
    from target [OF n] show "free_preview l k" by (auto simp: target_ok_def)
  qed (use ok in simp)
  ultimately show ?thesis by (auto intro: upholds_mono)
qed


lemma expired_chains:
  assumes "c \<in> set (chains_of receipts rs visited)" "set rs \<subseteq> set receipts"
  shows "\<exists>r \<in> set receipts. c = receipt_chain receipts (rc_id (sr_receipt r))"
  using assms by (induction receipts rs visited rule: chains_of.induct) (auto simp: Let_def split: if_splits)

lemma expired_removable:
  assumes "ReadClock now \<in> set l"
  shows "removable [] rs l (expired_chain_ids now rs)"
  unfolding removable_def
proof (intro conjI ballI impI)
  fix k assume "k \<in> set (expired_chain_ids now rs)"
  then obtain c r where c: "c \<in> set (chains_of rs rs [])" "chain_expired now c" and r: "r \<in> set c" "k = rc_id (sr_receipt r)"
    by (auto simp: expired_chain_ids_def)
  obtain s where s: "s \<in> set rs" "c = receipt_chain rs (rc_id (sr_receipt s))" using expired_chains [OF c(1) order_refl] by blast
  have free: "free_receipt rs (rc_id (sr_receipt s))" using c(2) s by (auto simp: free_receipt_def chain_expired_def)
  from r(1) free_chain [OF free] s(2) have "free_receipt rs k" "receipt_chain rs k = c" unfolding r(2) by simp_all
  with c(2) assms show "free_receipt rs k"
    "\<exists>t. ReadClock t \<in> set l \<and> list_all (\<lambda>r. sr_expires r \<le> t) (receipt_chain rs k)"
    by (auto simp: chain_expired_def)
qed simp

lemma expired_whole:
  assumes "k \<in> set (expired_chain_ids now rs)" "r \<in> set (receipt_chain rs k)"
  shows "rc_id (sr_receipt r) \<in> set (expired_chain_ids now rs)"
proof -
  from assms(1) obtain c s where c: "c \<in> set (chains_of rs rs [])" "chain_expired now c" "s \<in> set c" "k = rc_id (sr_receipt s)"
    by (auto simp: expired_chain_ids_def)
  obtain t :: stored_receipt where "c = receipt_chain rs (rc_id (sr_receipt t))" using expired_chains [OF c(1) order_refl] by blast
  with c(3,4) have "receipt_chain rs k = c" using chain_of_member [of "rc_id (sr_receipt t)" s rs] by (simp add: in_receipt_chain)
  with assms(2) c(1,2) show ?thesis by (auto simp: expired_chain_ids_def)
qed

lemma remove_expired:
  assumes "ReadClock now \<in> known"
  shows "upholds (lawful []) (reading rs known []) (each (remove_receipt (traced_files sf)) (expired_chain_ids now rs))
     (\<lambda>_ wl. lawful [] wl \<and> whole_chains (snd wl))"
proof -
  let ?ks = "expired_chain_ids now rs"
  have ok: "removable [] rs [ReadClock now] ?ks" by (rule expired_removable) simp
  have sub: "set [ReadClock now] \<subseteq> known" using assms by simp
  have "upholds (lawful []) (reading rs known []) (each (remove_target (traced_files sf)) (map ReceiptFile ?ks))
     (\<lambda>_. reading rs (known \<union> removed_previews (map ReceiptFile ?ks)) ([] @ removed_receipts (map ReceiptFile ?ks)))"
    by (rule remove_targets_traced [OF sub]) (use ok in \<open>auto simp: removed_receipts_def comp_def\<close>)
  moreover have "each (remove_target (traced_files sf)) (map ReceiptFile ks) = each (remove_receipt (traced_files sf)) ks" for ks
    by (induction ks) simp_all
  moreover have "removed_receipts (map ReceiptFile ?ks) = ?ks" by (simp add: removed_receipts_def comp_def)
  moreover have "lawful [] wl \<and> whole_chains (snd wl)" if at: "reading rs (known \<union> p) ?ks wl" for p and wl :: "'a \<times> store_event list"
  proof
    show "lawful [] wl" by (rule reading_removable [OF at _ ok]) (use sub in auto)
    obtain w l where wl: "wl = (w, l)" by (cases wl)
    with at have l: "receipts_read l = rs" "receipts_removed l = ?ks" by (auto simp: reading_def)
    have "RemovingReceipt k \<in> set l" if "k \<in> set ?ks" for k
      using that unfolding l(2) [symmetric] by (auto simp: receipts_removed_def split: store_event.splits)
    then show "whole_chains (snd wl)" unfolding whole_chains_def wl snd_conv l using expired_whole by blast
  qed
  ultimately show ?thesis by (auto intro: upholds_mono)
qed

lemma prune_state_traced:
  "upholds (lawful requested) (\<lambda>(w, l). l = []) (prune_state (traced_files sf) requested)
     (\<lambda>_ wl. lawful requested wl \<and> whole_chains (snd wl))"
proof -
  have start: "reading [] {} [] wl" if "case wl of (w, l) \<Rightarrow> l = []" for wl :: "'a \<times> store_event list"
    using that by (auto simp: reading_def)
  have failed: "lawful requested wl" if "harmless known wl" for known and wl :: "'a \<times> store_event list"
    using that by (auto simp: harmless_def intro: reading_lawful)
  show ?thesis
  proof (cases "requested = []")
    case True
    let ?l = "\<lambda>now rs. reading rs {ReadClock now} []"
    have clock: "upholds (lawful []) (\<lambda>(w, l). l = []) (ask (sf_now (traced_files sf))) (\<lambda>now. ?l now [])"
      by (rule upholds_ask) (auto simp: noting_def reading_def split: prod.splits)
    have ids: "upholds (lawful []) (?l now []) (call_or state_failure (sf_preview_ids (traced_files sf))) (\<lambda>_. ?l now [])" for now
      by (rule upholds_call_or) (auto simp: quiet_def split: prod.splits intro: reading_world reading_lawful)
    have previews: "upholds (lawful []) (?l now []) (each (prune_preview (traced_files sf) now) keys) (\<lambda>_. ?l now [])" for now keys
      by (rule upholds_each, rule upholds_mono [OF prune_preview_traced]) (auto intro: failed [unfolded True])
    have receipts: "upholds (lawful []) (?l now []) (read_all_receipts (traced_files sf)) (?l now)" for now
      by (rule upholds_mono [OF read_all_receipts_traced]) (auto intro: failed [unfolded True])
    show ?thesis
      unfolding True prune_state_def prune_expired_records_def Let_def
      by (simp only: if_True simp_thms, intro upholds_bind [OF clock] upholds_bind [OF ids] upholds_bind [OF previews] upholds_bind [OF receipts]
        upholds_then [OF remove_expired]) (auto intro: upholds_ok)
  next
    case False
    have receipts: "upholds (lawful requested) (\<lambda>(w, l). l = []) (read_all_receipts (traced_files sf)) (\<lambda>rs. deciding rs [])"
      by (rule upholds_mono [OF read_all_receipts_traced [of "{}"]]) (auto intro: start failed decidingI [where l = "[]"])
    have decide: "upholds (lawful requested) (deciding rs []) (each (prune_request (traced_files sf) rs) requested)
        (\<lambda>ds wl. length ds = length requested \<and> deciding rs ([] @ zip requested ds) wl)" for rs
      by (rule upholds_mono [OF upholds_each_values [where P = "deciding rs" and E = "harmless {}"]]) (auto intro: prune_request_traced failed)
    have finish: "upholds (lawful requested) (\<lambda>wl. length ds = length requested \<and> deciding rs ([] @ zip requested ds) wl)
        (step_then (require (list_all (\<lambda>d. \<not> isl d) ds) prune_rejected)
          (let paths = bt_of_list (concat (map projr ds))
           in step_then (each (remove_target (traced_files sf)) (map snd paths)) (step_ok (bt_keys paths))))
        (\<lambda>_ wl. lawful requested wl \<and> whole_chains (snd wl))" for rs ds
    proof (rule upholds_then [OF upholds_require])
      show "list_all (\<lambda>d. \<not> isl d) ds \<and> length ds = length requested \<and> deciding rs ([] @ zip requested ds) wl"
        if "length ds = length requested \<and> deciding rs ([] @ zip requested ds) wl" "list_all (\<lambda>d. \<not> isl d) ds" for wl
        using that by simp
      show "lawful requested wl" if "length ds = length requested \<and> deciding rs ([] @ zip requested ds) wl" for wl
        using that by (auto simp: deciding_def intro: reading_lawful reading_harmless failed simp: harmless_def)
      let ?paths = "bt_of_list (concat (map projr ds))" and ?Q = "\<lambda>wl. lawful requested wl \<and> whole_chains (snd wl)"
      have "upholds (lawful requested) (\<lambda>wl. (\<exists>l. reading rs (set l) [] wl \<and> list_all (decision_ok rs l) (zip requested ds)) \<and>
            (list_all (\<lambda>d. \<not> isl d) ds \<and> length ds = length requested))
          (each (remove_target (traced_files sf)) (map snd ?paths)) (\<lambda>_. ?Q)"
        by (intro upholds_pre, intro upholds_ex, intro upholds_pre remove_decided) (use False in auto)
      then have "upholds (lawful requested) (\<lambda>wl. list_all (\<lambda>d. \<not> isl d) ds \<and> length ds = length requested \<and> deciding rs ([] @ zip requested ds) wl)
          (each (remove_target (traced_files sf)) (map snd ?paths)) (\<lambda>_. ?Q)"
        by (rule upholds_mono) (auto simp: deciding_def)
      then show "upholds (lawful requested) (\<lambda>wl. list_all (\<lambda>d. \<not> isl d) ds \<and> length ds = length requested \<and> deciding rs ([] @ zip requested ds) wl)
          (let paths = ?paths in step_then (each (remove_target (traced_files sf)) (map snd paths)) (step_ok (bt_keys paths)))
          (\<lambda>_. ?Q)"
        unfolding Let_def by (rule upholds_then) (rule upholds_ok)
    qed
    from False show ?thesis
      unfolding prune_state_def by (simp, intro upholds_bind [OF receipts] upholds_bind [OF decide] finish)
  qed
qed


end
