(* ===== verification/Application.thy ===== *)
theory Application
  imports Ascii_Text Mutation_Store Rollback_Run Text_Outputs
begin

text \<open>
  \<open>mutation/application.rs\<close>: one Application of a Preview, from the Workspace lock to the Receipt, and
  the Recovery of an abandoned one. The filesystem of the commit (\<open>host\<close>), the state files
  (\<open>state_files\<close>) and the remaining calls (\<open>application_host\<close>) act on one world.
\<close>

section \<open>Durations and encodings\<close>

text \<open>In nanoseconds.\<close>

definition parse_duration :: "string \<Rightarrow> nat option" where
  "parse_duration value =
     (case strip_suffix value ''ms'' of
        Some v \<Rightarrow> map_option (\<lambda>n. n * 1000000) (parse_u64 v)
      | None \<Rightarrow>
          (case strip_suffix value ''s'' of
             Some v \<Rightarrow> map_option (\<lambda>n. n * 1000000000) (parse_u64 v)
           | None \<Rightarrow>
               (case strip_suffix value ''m'' of
                  Some v \<Rightarrow> map_option (\<lambda>n. min (n * 60) u64_max * 1000000000) (parse_u64 v)
                | None \<Rightarrow> None)))"

definition parse_position_encoding :: "string \<Rightarrow> position_encoding" where
  "parse_position_encoding value = (if value = ''utf-16'' then Utf16 else Utf8)"

section \<open>The calls of an Application\<close>

text \<open>
  The monotonic clock counts nanoseconds. \<open>ap_open_workspace\<close> opens the Workspace as a directory
  capability and gives its device; \<open>ap_copy\<close> copies a resource with its metadata into the protected
  artifacts, adding to the bytes copied so far; \<open>ap_write_new\<close> writes and flushes the file just created.
\<close>

record 'w application_host =
  ap_now :: "'w \<Rightarrow> 'w \<times> nat"
  ap_sleep :: "nat \<Rightarrow> 'w \<Rightarrow> 'w"
  ap_timestamp :: "'w \<Rightarrow> 'w \<times> string"
  ap_open_workspace :: "path \<Rightarrow> 'w \<Rightarrow> 'w \<times> (unit + nat option)"
  ap_create_directory :: "path \<Rightarrow> 'w \<Rightarrow> 'w \<times> (unit + unit)"
  ap_create_new :: "path \<Rightarrow> 'w \<Rightarrow> 'w \<times> (unit + unit)"
  ap_restrict :: "path \<Rightarrow> 'w \<Rightarrow> 'w \<times> (unit + unit)"
  ap_write_new :: "path \<Rightarrow> string \<Rightarrow> 'w \<Rightarrow> 'w \<times> (unit + unit)"
  ap_remove_file :: "path \<Rightarrow> 'w \<Rightarrow> 'w \<times> (unit + unit)"
  ap_remove_directory :: "path \<Rightarrow> 'w \<Rightarrow> 'w \<times> (unit + unit)"
  ap_remove_all :: "path \<Rightarrow> 'w \<Rightarrow> 'w \<times> (unit + unit)"
  ap_copy :: "path \<Rightarrow> path \<Rightarrow> nat \<Rightarrow> 'w \<Rightarrow> 'w \<times> (unit + nat)"
  ap_flush :: "path \<Rightarrow> 'w \<Rightarrow> 'w \<times> (unit + unit)"
  ap_exists :: "path \<Rightarrow> 'w \<Rightarrow> 'w \<times> bool"
  ap_read_text :: "path \<Rightarrow> 'w \<Rightarrow> 'w \<times> string option"

record 'w application_context =
  ax_limits :: planner
  ax_max_receipts :: nat
  ax_lock_timeout :: string
  ax_reauthorize :: "(stored_preview \<Rightarrow> 'w \<Rightarrow> 'w \<times> (contract_failure + json list)) option"
  ax_post_commit :: "(receipt_record \<Rightarrow> json list \<Rightarrow> 'w \<Rightarrow> 'w \<times> bool) option"
  ax_preauthorized :: bool
  ax_deadline :: "nat option"

section \<open>Failures\<close>

definition application_cancelled :: contract_failure where
  "application_cancelled = failure 6 ''mutation'' ''application_cancelled'' ''lock_workspace'' ''not_applicable'' ''safe''"

definition lock_timeout_failure :: contract_failure where
  "lock_timeout_failure = failure 4 ''unavailable'' ''workspace_lock_timeout'' ''lock_workspace'' ''not_applicable'' ''safe''"

definition preview_stale :: contract_failure where
  "preview_stale = failure 6 ''mutation'' ''preview_stale'' ''reserve'' ''not_applicable'' ''after_change''"

definition recovery_failure :: "string \<Rightarrow> string \<Rightarrow> contract_failure" where
  "recovery_failure cd again = failure 7 ''recovery'' cd ''recover'' ''not_applicable'' again"

definition unsupported_filesystem :: contract_failure where
  "unsupported_filesystem = failure 3 ''blocked'' ''unsupported_filesystem'' ''validate_mutation'' ''not_applicable'' ''after_change''"

definition rolled_back :: contract_failure where
  "rolled_back = failure 6 ''mutation'' ''rolled_back'' ''rollback'' ''not_applicable'' ''after_change''"

section \<open>The Workspace lock\<close>

text \<open>Adding to an \<open>Instant\<close> panics when its seconds overflow.\<close>

definition instant_add :: "nat \<Rightarrow> nat \<Rightarrow> nat option" where
  "instant_add t d = (if (t + d) div 1000000000 < 2 ^ 63 then Some (t + d) else None)"

definition lock_poll :: nat where "lock_poll = 20000000"

text \<open>
  One turn of the loop: \<open>Some\<close> the outcome, or \<open>None\<close> to sleep and try again. Without a caller's deadline
  this is the loop of \<open>lock_workspace\<close>.
\<close>

definition lock_turn ::
  "'w state_files \<Rightarrow> 'w application_host \<Rightarrow> string \<Rightarrow> nat option \<Rightarrow> nat \<Rightarrow> 'w \<Rightarrow> 'w \<times> (contract_failure + unit) option" where
  "lock_turn sf ap uri caller_deadline deadline w =
     (case sf_try_lock sf uri w of
        (w, Locked) \<Rightarrow> (w, Some (Inr ()))
      | (w, LockFailed) \<Rightarrow> (w, Some (Inl state_failure))
      | (w, WouldBlock) \<Rightarrow>
          let (w, cancelled) = (case caller_deadline of
              None \<Rightarrow> (w, False)
            | Some d \<Rightarrow> map_prod id (\<lambda>now. d \<le> now) (ap_now ap w))
          in if cancelled then (w, Some (Inl application_cancelled))
             else case ap_now ap w of (w, now) \<Rightarrow>
               if now < deadline then (w, None) else (w, Some (Inl lock_timeout_failure)))"

partial_function (option) lock_loop ::
  "'w state_files \<Rightarrow> 'w application_host \<Rightarrow> string \<Rightarrow> nat option \<Rightarrow> nat \<Rightarrow> 'w \<Rightarrow> ('w \<times> (contract_failure + unit)) option" where
  "lock_loop sf ap uri caller_deadline deadline w =
     (case lock_turn sf ap uri caller_deadline deadline w of
        (w', r) \<Rightarrow> (case r of
            Some x \<Rightarrow> Some (w', x)
          | None \<Rightarrow> lock_loop sf ap uri caller_deadline deadline (ap_sleep ap lock_poll w')))"

text \<open>The same turn by turn, to evaluate it.\<close>

fun lock_next ::
  "'w state_files \<Rightarrow> 'w application_host \<Rightarrow> string \<Rightarrow> nat option \<Rightarrow> nat \<Rightarrow> 'w \<times> (contract_failure + unit) option
     \<Rightarrow> ('w \<times> (contract_failure + unit)) option" where
  "lock_next sf ap uri caller_deadline deadline (w, Some x) = Some (w, x)"
| "lock_next sf ap uri caller_deadline deadline (w, None) = lock_loop sf ap uri caller_deadline deadline (ap_sleep ap lock_poll w)"

lemma lock_loop_next [code]:
  "lock_loop sf ap uri caller_deadline deadline w = lock_next sf ap uri caller_deadline deadline (lock_turn sf ap uri caller_deadline deadline w)"
  by (subst lock_loop.simps) (auto split: prod.splits option.splits)

definition lock_workspace_until ::
  "'w state_files \<Rightarrow> 'w application_host \<Rightarrow> string \<Rightarrow> string \<Rightarrow> nat option \<Rightarrow> ('w, unit) store_act" where
  "lock_workspace_until sf ap uri timeout_text caller_deadline =
     (let timeout = (case parse_duration timeout_text of Some d \<Rightarrow> d | None \<Rightarrow> 30 * 1000000000)
      in step_bind (ask (ap_now ap)) (\<lambda>now. case instant_add now timeout of
           None \<Rightarrow> step_panic
         | Some deadline \<Rightarrow> lock_loop sf ap uri caller_deadline deadline))"

definition lock_workspace_for_application ::
  "'w state_files \<Rightarrow> 'w application_host \<Rightarrow> string \<Rightarrow> string \<Rightarrow> nat option \<Rightarrow> ('w, unit) store_act" where
  "lock_workspace_for_application sf ap uri timeout_text caller_deadline =
     lock_workspace_until sf ap uri timeout_text caller_deadline"

definition lock_workspace :: "'w state_files \<Rightarrow> 'w application_host \<Rightarrow> string \<Rightarrow> string \<Rightarrow> ('w, unit) store_act" where
  "lock_workspace sf ap uri timeout_text = lock_workspace_until sf ap uri timeout_text None"

definition deadline_expired :: "'w application_host \<Rightarrow> nat option \<Rightarrow> ('w, 'e, bool) step" where
  "deadline_expired ap deadline =
     (case deadline of None \<Rightarrow> step_ok False | Some d \<Rightarrow> step_bind (ask (ap_now ap)) (\<lambda>now. step_ok (d \<le> now)))"

section \<open>Opening the planner\<close>

text \<open>\<open>WorkspaceEditPlanner::open\<close>; every problem of it becomes the same failure.\<close>

definition open_planner ::
  "'w application_host \<Rightarrow> 'w application_context \<Rightarrow> path \<Rightarrow> position_encoding \<Rightarrow> ('w, planner) store_act" where
  "open_planner ap ctx workspace encoding =
     step_then (require (list_all (\<lambda>c. utf8_valid (component_name c)) workspace) unsupported_filesystem)
     (step_bind (call_or unsupported_filesystem (ap_open_workspace ap workspace)) (\<lambda>device.
      step_ok ((ax_limits ctx)\<lparr>pl_workspace := workspace, pl_encoding := encoding, pl_root_device := device\<rparr>)))"

text \<open>An inspection whose problems become one failure.\<close>

definition observe_or ::
  "'e \<Rightarrow> ('w, 'h) host \<Rightarrow> (environment \<Rightarrow> workspace_edit_problem list + 'a) \<Rightarrow> ('w, 'e, 'a) step" where
  "observe_or f ho inspect =
     step_bind (ask (ho_look ho)) (\<lambda>env. case inspect env of Inl _ \<Rightarrow> step_err f | Inr a \<Rightarrow> step_ok a)"

definition inspect_path_best_effort :: "environment \<Rightarrow> path \<Rightarrow> manifest_entry" where
  "inspect_path_best_effort env p =
     (case env_lstat env p of
        StatOk md \<Rightarrow>
          let kind = (if md_kind md = RegularNode then FileKind
                      else if md_kind md = DirectoryNode then DirectoryKind else MissingKind)
          in \<lparr>me_path = p, me_exists = (kind \<noteq> MissingKind), me_kind = kind, me_identity = None,
              me_content = (if kind = FileKind
                then (case env_open env p of
                        Some f \<Rightarrow> map_option (digest_raw_bytes (env_sha env)) (of_bytes f) | None \<Rightarrow> None)
                else None), me_metadata = None\<rparr>
      | _ \<Rightarrow> missing_manifest p)"

definition inspect_paths_best_effort :: "environment \<Rightarrow> manifest_entry list \<Rightarrow> manifest_entry list" where
  "inspect_paths_best_effort env template =
     sort_key me_path (map (\<lambda>e. inspect_path_best_effort env (me_path e)) template)"

section \<open>Staging\<close>

definition artifact_owner_file :: string where "artifact_owner_file = ''.lspctl-transaction-owner''"

definition write_artifact_owner :: "'w application_host \<Rightarrow> transaction_record \<Rightarrow> ('w, unit) store_act" where
  "write_artifact_owner ap tx =
     (let p = join_name (tx_artifacts tx) artifact_owner_file
      in step_then (call_or stage_failure (ap_create_new ap p))
        (step_then (call_or stage_failure (ap_restrict ap p))
        (call_or stage_failure (ap_write_new ap p (tx_id tx)))))"

fun stage_backups :: "'w application_host \<Rightarrow> nat \<Rightarrow> backup_entry list \<Rightarrow> nat \<Rightarrow> ('w, nat) store_act" where
  "stage_backups ap limit [] copied = step_ok copied"
| "stage_backups ap limit (b # bs) copied =
     step_bind (call_or stage_failure (ap_copy ap (be_path b) (be_backup_path b) copied)) (\<lambda>copied'.
     step_then (require (copied' \<le> limit) staged_text_limit) (stage_backups ap limit bs copied'))"

definition create_staged_text :: "'w application_host \<Rightarrow> path \<Rightarrow> string \<Rightarrow> 'w \<Rightarrow> 'w \<times> (unit + unit)" where
  "create_staged_text ap p bytes w =
     (case ap_create_new ap p w of
        (w, Inl _) \<Rightarrow> (w, Inl ())
      | (w, Inr _) \<Rightarrow> (case ap_restrict ap p w of
            (w, Inl _) \<Rightarrow> (w, Inl ())
          | (w, Inr _) \<Rightarrow> ap_write_new ap p bytes w))"

text \<open>The texts are staged from the files as they are when the staging of texts begins.\<close>

definition stage_transaction_contents ::
  "('w, 'h) host \<Rightarrow> 'w application_host \<Rightarrow> planner \<Rightarrow> transaction_record \<Rightarrow> ('w, unit) store_act" where
  "stage_transaction_contents ho ap limits tx =
     step_then (call_or stage_failure (ap_restrict ap (tx_artifacts tx)))
     (step_then (stage_backups ap (pl_max_rollback_bytes limits) (tx_backups tx) 0)
     (step_bind (ask (ho_look ho)) (\<lambda>env.
      step_then (call (stage_text_outputs env (pl_max_staged_text_bytes limits) (create_staged_text ap) tx))
      (call_or stage_failure (ap_flush ap (tx_artifacts tx))))))"

text \<open>A failure of staging comes with whether the artifact directory may still exist.\<close>

definition with_artifacts :: "bool \<Rightarrow> ('w, contract_failure, 'a) step \<Rightarrow> ('w, contract_failure \<times> bool, 'a) step" where
  "with_artifacts created m = (\<lambda>w. map_option (map_prod id (map_sum (\<lambda>f. (f, created)) id)) (m w))"

definition stage_transaction ::
  "('w, 'h) host \<Rightarrow> 'w application_host \<Rightarrow> planner \<Rightarrow> transaction_record \<Rightarrow> ('w, contract_failure \<times> bool, unit) step" where
  "stage_transaction ho ap limits tx =
     step_then (call_or (stage_failure, False) (ap_create_directory ap (tx_artifacts tx)))
     (step_bind (attempting (write_artifact_owner ap tx)) (\<lambda>owner. case owner of
        Inl f \<Rightarrow>
          step_then (ask (ap_remove_file ap (join_name (tx_artifacts tx) artifact_owner_file)))
          (step_bind (ask (ap_remove_directory ap (tx_artifacts tx))) (\<lambda>removed.
           step_err (f, isl removed)))
      | Inr _ \<Rightarrow> with_artifacts True (stage_transaction_contents ho ap limits tx)))"

definition flush_parent :: "'w application_host \<Rightarrow> path \<Rightarrow> ('w, string, unit) step" where
  "flush_parent ap p = (case parent p of None \<Rightarrow> step_ok () | Some d \<Rightarrow> call_or [] (ap_flush ap d))"

definition cleanup_transaction_artifacts :: "'w application_host \<Rightarrow> transaction_record \<Rightarrow> ('w, string, unit) step" where
  "cleanup_transaction_artifacts ap tx =
     step_bind (ask (ap_exists ap (tx_artifacts tx))) (\<lambda>exists.
     if \<not> exists then step_ok ()
     else
       step_then (require (tx_artifacts tx = join_name (tx_workspace_path tx) (''.lspctl-'' @ tx_id tx))
           ''The transaction artifact path is not canonical.'')
       (step_bind (ask (ap_read_text ap (join_name (tx_artifacts tx) artifact_owner_file))) (\<lambda>marker.
        step_then (require (marker = Some (tx_id tx)) ''The transaction artifact ownership cannot be verified.'')
        (step_then (call_or [] (ap_remove_all ap (tx_artifacts tx)))
        (flush_parent ap (tx_artifacts tx))))))"

section \<open>The journal and the Receipts\<close>

definition finish_initial_journal_write ::
  "'w state_files \<Rightarrow> stored_preview \<Rightarrow> transaction_record \<Rightarrow> contract_failure + unit \<Rightarrow> ('w, unit) store_act" where
  "finish_initial_journal_write sf stored tx result =
     (case result of
        Inr _ \<Rightarrow> step_ok ()
      | Inl f \<Rightarrow>
          step_bind (attempting (read_transaction sf (tx_id tx))) (\<lambda>readback. case readback of
            Inr journal \<Rightarrow>
              if tx_id journal = tx_id tx \<and> tx_preview_id journal = tx_preview_id tx \<and> tx_receipt_id journal = tx_receipt_id tx
                 \<and> tx_workspace_uri journal = tx_workspace_uri tx \<and> tx_workspace_path journal = tx_workspace_path tx
              then step_err f else step_err (recovery_failure ''recovery_evidence_invalid'' ''never'')
          | Inl e \<Rightarrow>
              if code e = ''recovery_not_found'' then step_then (release_preview sf stored) (step_err f)
              else step_err e))"

definition durability_value :: json where
  "durability_value = jobj [(''fileFlush'', JString ''complete''), (''directoryFlush'', JString ''complete'')]"

definition finish_terminal_cleanup ::
  "'w state_files \<Rightarrow> 'w application_host \<Rightarrow> transaction_record \<Rightarrow> string \<Rightarrow> ('w, 'e, bool) step" where
  "finish_terminal_cleanup sf ap tx preview_id =
     step_bind (attempting (cleanup_transaction_artifacts ap tx)) (\<lambda>r. if isl r then step_ok True else
     step_bind (attempting (retire_preview_after_recovery sf preview_id)) (\<lambda>r. if isl r then step_ok True else
     step_bind (attempting (remove_transaction sf (tx_id tx))) (\<lambda>r. if isl r then step_ok True else
     step_bind (attempting (mark_receipt_cleanup_complete sf (tx_receipt_id tx))) (\<lambda>r. step_ok (isl r)))))"

definition manifest_is_directory :: "manifest_entry list \<Rightarrow> path \<Rightarrow> bool" where
  "manifest_is_directory manifest p \<longleftrightarrow>
     (case List.find (\<lambda>e. me_path e = p) manifest of Some e \<Rightarrow> me_kind e = DirectoryKind | None \<Rightarrow> False)"

fun file_operation_json :: "canonical_plan \<Rightarrow> canonical_operation \<Rightarrow> json option" where
  "file_operation_json plan (OpText _ _ _ _ _ _) = None"
| "file_operation_json plan (OpCreate _ uri p _ _) =
     Some (jobj [(''kind'', JString ''create''), (''uri'', JString uri),
       (''isDirectory'', JBool (manifest_is_directory (cp_intended plan) p))])"
| "file_operation_json plan (OpRename _ old_uri new_uri _ new_path _ _) =
     Some (jobj [(''kind'', JString ''rename''), (''oldUri'', JString old_uri), (''newUri'', JString new_uri),
       (''isDirectory'', JBool (manifest_is_directory (cp_intended plan) new_path))])"
| "file_operation_json plan (OpDelete _ uri p _ _) =
     Some (jobj [(''kind'', JString ''delete''), (''uri'', JString uri),
       (''isDirectory'', JBool (manifest_is_directory (cp_before plan) p))])"

definition post_commit_file_operations :: "stored_preview \<Rightarrow> json list" where
  "post_commit_file_operations stored =
     List.map_filter (file_operation_json (pv_plan (sp_preview stored))) (cp_operations (pv_plan (sp_preview stored)))"

section \<open>Applying a Preview\<close>

definition application_success :: "receipt_record \<Rightarrow> string \<Rightarrow> json" where
  "application_success receipt outcome =
     jobj [(''schemaVersion'', jnat 1), (''ok'', JBool True), (''command'', JArray [JString ''apply'']),
       (''outcome'', JString outcome),
       (''result'', jobj [(''previewId'', jopt JString (rc_preview_id receipt)), (''receiptId'', JString (rc_id receipt)),
          (''transactionId'', JString (rc_transaction_id receipt)), (''state'', JString ''terminal''),
          (''outcome'', JString outcome), (''filesystemState'', JString (rc_filesystem_state receipt)),
          (''sessionSynchronized'', JBool (rc_session_synchronized receipt)),
          (''cleanupPending'', JBool (rc_cleanup_pending receipt)),
          (''durability'', jobj [(''directoryFlush'', json_index (rc_durability receipt) ''directoryFlush'')]),
          (''manifest'', JArray (map manifest_entry_json (rc_observed receipt)))])]"

definition applied_answer :: "'w state_files \<Rightarrow> string \<Rightarrow> ('w, json option) store_act" where
  "applied_answer sf preview_id =
     step_bind (already_applied sf preview_id) (\<lambda>found. step_ok (case found of
       Some receipt \<Rightarrow>
         if rc_outcome (sr_receipt receipt) = ''applied''
         then Some (application_success (sr_receipt receipt) ''already_applied'') else None
     | None \<Rightarrow> None))"

text \<open>The first journal of the Workspace, or unreadable one, that stands in the way.\<close>

fun recovery_block :: "string \<Rightarrow> (string + transaction_record) list \<Rightarrow> contract_failure option" where
  "recovery_block uri [] = None"
| "recovery_block uri (Inl evidence # rest) = Some (recovery_failure ''recovery_evidence_invalid'' ''never'')"
| "recovery_block uri (Inr tx # rest) =
     (if tx_workspace_uri tx = uri then Some (recovery_failure ''recovery_required'' ''after_change'')
      else recovery_block uri rest)"

definition unless_some :: "'e option \<Rightarrow> ('w, 'e, unit) step" where
  "unless_some blocker = (case blocker of None \<Rightarrow> step_ok () | Some f \<Rightarrow> step_err f)"

definition check_authorization :: "'w application_context \<Rightarrow> stored_preview \<Rightarrow> ('w, unit) store_act" where
  "check_authorization ctx stored =
     (case ax_reauthorize ctx of
        None \<Rightarrow> step_ok ()
      | Some reauthorize \<Rightarrow> step_bind (call (reauthorize stored)) (\<lambda>reasons. require (reasons = []) preview_stale))"

definition new_transaction ::
  "(string \<Rightarrow> string) \<Rightarrow> string \<Rightarrow> stored_preview \<Rightarrow> manifest_entry list \<Rightarrow> string \<Rightarrow> string \<Rightarrow> transaction_record" where
  "new_transaction sha preview_id stored current transaction_id started =
     (let plan = pv_plan (sp_preview stored);
          artifacts = join_name (sp_workspace_path stored) (''.lspctl-'' @ transaction_id)
      in \<lparr>tx_format_version = mutation_state_version, tx_id = transaction_id, tx_preview_id = preview_id,
          tx_receipt_id = preview_id, tx_workspace_path = sp_workspace_path stored,
          tx_workspace_uri = pv_workspace_uri (sp_preview stored), tx_state = Staged, tx_started_at = started,
          tx_artifacts = artifacts, tx_backups = planned_backups (cp_before plan) artifacts,
          tx_operations = cp_operations plan, tx_before = cp_before plan, tx_intended = cp_intended plan,
          tx_observed = current, tx_manifest_digest = manifest_digest sha (cp_before plan), tx_cleanup_pending = False\<rparr>)"

definition prepare_application ::
  "('w, 'h) host \<Rightarrow> 'w state_files \<Rightarrow> 'w application_host \<Rightarrow> (string \<Rightarrow> string) \<Rightarrow> 'w application_context \<Rightarrow> string
     \<Rightarrow> stored_preview \<Rightarrow> ('w, planner \<times> transaction_record) store_act" where
  "prepare_application ho sf ap sha ctx preview_id stored =
     step_bind (deadline_expired ap (ax_deadline ctx)) (\<lambda>late.
     step_then (require (\<not> late) application_cancelled)
     (step_then (check_authorization ctx stored)
     (step_bind (list_transactions sf) (\<lambda>transactions.
      step_then (unless_some (recovery_block (pv_workspace_uri (sp_preview stored)) transactions))
     (step_then (ensure_receipt_capacity sf (ax_max_receipts ctx))
     (step_bind (open_planner ap ctx (sp_workspace_path stored) (parse_position_encoding (pv_position_encoding (sp_preview stored)))) (\<lambda>pl.
      step_bind (observe_or unsupported_filesystem ho (\<lambda>env. inspect_manifest env pl (cp_before (pv_plan (sp_preview stored))))) (\<lambda>current.
      step_then (require (preview_manifest_mismatches (pv_plan (sp_preview stored)) current = []) preview_stale)
     (step_bind (random_identifier sf ''txn_'') (\<lambda>transaction_id.
      step_bind (ask (ap_timestamp ap)) (\<lambda>started.
      step_ok (pl, new_transaction sha preview_id stored current transaction_id started))))))))))))"

text \<open>
  The Receipt of an Application. \<open>outcome\<close> and the filesystem state go together; the failure stage and
  the failed change are those of a commit that did not succeed.
\<close>

definition application_receipt ::
  "'w application_context \<Rightarrow> string \<Rightarrow> stored_preview \<Rightarrow> transaction_record \<Rightarrow> string \<Rightarrow> string \<Rightarrow> string
     \<Rightarrow> manifest_entry list \<Rightarrow> string \<Rightarrow> string option \<Rightarrow> nat option \<Rightarrow> receipt_record" where
  "application_receipt ctx preview_id stored tx completed outcome filesystem_state found digest failed_stage failed_change =
     \<lparr>rc_id = preview_id, rc_kind = ''receipt'', rc_transaction_id = tx_id tx,
      rc_workspace_uri = pv_workspace_uri (sp_preview stored), rc_server = pv_server (sp_preview stored),
      rc_session_identity = Some (pv_session_identity (sp_preview stored)), rc_preview_id = Some preview_id,
      rc_linked_id = None, rc_preauthorized = ax_preauthorized ctx, rc_started_at = tx_started_at tx,
      rc_completed_at = completed, rc_outcome = outcome, rc_filesystem_state = filesystem_state,
      rc_summary = pv_summary (sp_preview stored), rc_before = cp_before (pv_plan (sp_preview stored)),
      rc_intended = cp_intended (pv_plan (sp_preview stored)), rc_observed = found, rc_session_synchronized = False,
      rc_cleanup_pending = True, rc_durability = durability_value, rc_manifest_digest = digest,
      rc_failure_stage = failed_stage, rc_failed_change = failed_change\<rparr>"

text \<open>
  An Application that stops before its commit: without artifacts the journal and the reservation go, a
  failure to remove artifacts needs Recovery. Failures of the two removals are ignored.
\<close>

definition withdraw ::
  "'w state_files \<Rightarrow> stored_preview \<Rightarrow> transaction_record \<Rightarrow> contract_failure \<Rightarrow> ('w, 'a) store_act" where
  "withdraw sf stored tx f =
     step_bind (attempting (remove_transaction sf (tx_id tx))) (\<lambda>_.
     step_bind (attempting (release_preview sf stored)) (\<lambda>_. step_err f))"

definition withdraw_staged ::
  "'w state_files \<Rightarrow> 'w application_host \<Rightarrow> stored_preview \<Rightarrow> transaction_record \<Rightarrow> contract_failure \<Rightarrow> ('w, 'a) store_act" where
  "withdraw_staged sf ap stored tx f =
     step_bind (attempting (cleanup_transaction_artifacts ap tx)) (\<lambda>r. case r of
       Inr _ \<Rightarrow> withdraw sf stored tx f
     | Inl _ \<Rightarrow>
         step_then (write_transaction sf (tx\<lparr>tx_state := RecoveryRequired, tx_cleanup_pending := True\<rparr>))
           (step_err (recovery_failure ''recovery_required'' ''after_change'')))"

definition application_committed ::
  "'w state_files \<Rightarrow> 'w application_host \<Rightarrow> (string \<Rightarrow> string) \<Rightarrow> 'w application_context \<Rightarrow> string
     \<Rightarrow> stored_preview \<Rightarrow> transaction_record \<Rightarrow> manifest_entry list \<Rightarrow> ('w, json) store_act" where
  "application_committed sf ap sha ctx preview_id stored tx found =
     (let tx' = tx\<lparr>tx_observed := found, tx_state := CleanupPending, tx_cleanup_pending := True,
                  tx_manifest_digest := manifest_digest sha found\<rparr>
      in step_then (write_transaction sf tx')
        (step_bind (ask (ap_timestamp ap)) (\<lambda>completed.
         step_bind (convert_preview_to_receipt sf (ax_max_receipts ctx) preview_id
             (application_receipt ctx preview_id stored tx' completed ''applied'' ''changed'' found (manifest_digest sha found) None None)) (\<lambda>record.
         step_bind (finish_terminal_cleanup sf ap tx' preview_id) (\<lambda>pending.
         let receipt = (sr_receipt record)\<lparr>rc_cleanup_pending := pending\<rparr>
         in step_bind (case ax_post_commit ctx of
                None \<Rightarrow> step_ok False
              | Some post_commit \<Rightarrow> ask (post_commit receipt (post_commit_file_operations stored))) (\<lambda>synchronized.
            if synchronized
            then step_then (mark_receipt_session_synchronized sf (rc_id receipt))
              (step_ok (application_success (receipt\<lparr>rc_session_synchronized := True\<rparr>) ''applied''))
            else step_ok (application_success receipt ''applied'')))))))"

text \<open>The manifest of a transaction, inspected as far as it can be.\<close>

definition final_manifest ::
  "('w, 'h) host \<Rightarrow> planner \<Rightarrow> transaction_record \<Rightarrow> ('w, 'e, manifest_entry list) step" where
  "final_manifest ho pl tx =
     step_bind (attempting (inspect_transaction_manifest ho pl tx [])) (\<lambda>inspected. case inspected of
       Inr found \<Rightarrow> step_ok found
     | Inl _ \<Rightarrow> step_bind (ask (ho_look ho)) (\<lambda>env. step_ok (inspect_paths_best_effort env (tx_before tx))))"

definition application_undone ::
  "('w, 'h) host \<Rightarrow> 'w state_files \<Rightarrow> 'w application_host \<Rightarrow> (string \<Rightarrow> string) \<Rightarrow> 'w application_context \<Rightarrow> planner \<Rightarrow> string
     \<Rightarrow> stored_preview \<Rightarrow> transaction_record \<Rightarrow> nat option \<Rightarrow> ('w, json) store_act" where
  "application_undone ho sf ap sha ctx pl preview_id stored tx failed =
     step_bind (attempting (rollback_transaction ho sha pl tx)) (\<lambda>r. case r of
       Inr restored \<Rightarrow>
         (let tx' = tx\<lparr>tx_state := CleanupPending, tx_observed := restored,
                      tx_manifest_digest := manifest_digest sha restored, tx_cleanup_pending := True\<rparr>
          in step_then (write_transaction sf tx')
            (step_bind (ask (ap_timestamp ap)) (\<lambda>completed.
             step_then (convert_preview_to_receipt sf (ax_max_receipts ctx) preview_id
                 (application_receipt ctx preview_id stored tx' completed ''rolled_back'' ''unchanged'' restored
                   (manifest_digest sha restored) (Some ''commit'') failed))
             (step_then (finish_terminal_cleanup sf ap tx' preview_id) (step_err rolled_back)))))
     | Inl _ \<Rightarrow>
         step_bind (final_manifest ho pl tx) (\<lambda>found.
         let tx' = tx\<lparr>tx_state := RecoveryRequired, tx_observed := found, tx_manifest_digest := manifest_digest sha found\<rparr>
         in step_then (write_transaction sf tx')
           (step_bind (ask (ap_timestamp ap)) (\<lambda>completed.
            step_then (convert_preview_to_receipt sf (ax_max_receipts ctx) preview_id
                (application_receipt ctx preview_id stored tx' completed ''recovery_required'' ''partial'' found
                  (manifest_digest sha found) (Some ''rollback'') failed))
            (step_err (recovery_failure ''recovery_required'' ''after_change''))))))"

text \<open>A manifest whose inspection has problems counts as one of nothing (\<open>unwrap_or_default\<close>).\<close>

definition found_manifest :: "environment \<Rightarrow> planner \<Rightarrow> manifest_entry list \<Rightarrow> manifest_entry list" where
  "found_manifest env pl entries = (case inspect_manifest env pl entries of Inr found \<Rightarrow> found | Inl _ \<Rightarrow> [])"

definition commit_application ::
  "('w, 'h) host \<Rightarrow> 'w state_files \<Rightarrow> 'w application_host \<Rightarrow> (string \<Rightarrow> string) \<Rightarrow> 'w application_context \<Rightarrow> planner \<Rightarrow> string
     \<Rightarrow> stored_preview \<Rightarrow> transaction_record \<Rightarrow> ('w, json) store_act" where
  "commit_application ho sf ap sha ctx pl preview_id stored tx =
     (let tx' = tx\<lparr>tx_state := Committing\<rparr>; intended = cp_intended (pv_plan (sp_preview stored))
      in step_then (write_transaction sf tx')
        (step_bind (attempting (commit_operations ho sha pl tx')) (\<lambda>result.
         step_bind (ask (ho_look ho)) (\<lambda>env.
         let found = found_manifest env pl intended
         in if \<not> isl result \<and> manifest_mismatches intended found = []
            then application_committed sf ap sha ctx preview_id stored tx' found
            else application_undone ho sf ap sha ctx pl preview_id stored (tx'\<lparr>tx_observed := found\<rparr>)
              (case result of Inl index \<Rightarrow> Some index | Inr _ \<Rightarrow> None)))))"

definition stage_and_commit ::
  "('w, 'h) host \<Rightarrow> 'w state_files \<Rightarrow> 'w application_host \<Rightarrow> (string \<Rightarrow> string) \<Rightarrow> 'w application_context \<Rightarrow> planner \<Rightarrow> string
     \<Rightarrow> stored_preview \<Rightarrow> transaction_record \<Rightarrow> ('w, json) store_act" where
  "stage_and_commit ho sf ap sha ctx pl preview_id stored tx =
     step_bind (attempting (write_transaction sf tx)) (\<lambda>written.
     step_then (finish_initial_journal_write sf stored tx written)
     (step_bind (attempting (stage_transaction ho ap (ax_limits ctx) tx)) (\<lambda>staged. case staged of
        Inl (f, created) \<Rightarrow> if created then withdraw_staged sf ap stored tx f else withdraw sf stored tx f
      | Inr _ \<Rightarrow>
          step_bind (deadline_expired ap (ax_deadline ctx)) (\<lambda>late.
          if late then withdraw_staged sf ap stored tx application_cancelled
          else commit_application ho sf ap sha ctx pl preview_id stored tx))))"

definition apply_reserved ::
  "('w, 'h) host \<Rightarrow> 'w state_files \<Rightarrow> 'w application_host \<Rightarrow> (string \<Rightarrow> string) \<Rightarrow> 'w application_context \<Rightarrow> string
     \<Rightarrow> stored_preview \<Rightarrow> ('w, json) store_act" where
  "apply_reserved ho sf ap sha ctx preview_id stored =
     step_bind (attempting (prepare_application ho sf ap sha ctx preview_id stored)) (\<lambda>prepared. case prepared of
       Inl f \<Rightarrow> step_then (release_preview sf stored) (step_err f)
     | Inr (pl, tx) \<Rightarrow> stage_and_commit ho sf ap sha ctx pl preview_id stored tx)"

text \<open>Each of the three looks for a Receipt of an earlier Application ends it.\<close>

definition or_applied :: "'w state_files \<Rightarrow> string \<Rightarrow> ('w, json) store_act \<Rightarrow> ('w, json) store_act" where
  "or_applied sf preview_id m =
     step_bind (applied_answer sf preview_id) (\<lambda>found. case found of Some answer \<Rightarrow> step_ok answer | None \<Rightarrow> m)"

definition apply_preview ::
  "('w, 'h) host \<Rightarrow> 'w state_files \<Rightarrow> 'w application_host \<Rightarrow> (string \<Rightarrow> string) \<Rightarrow> 'w application_context \<Rightarrow> string
     \<Rightarrow> ('w, json) store_act" where
  "apply_preview ho sf ap sha ctx preview_id =
     or_applied sf preview_id
     (step_bind (attempting (read_preview sf preview_id)) (\<lambda>read. case read of
        Inl f \<Rightarrow> if code f = ''preview_unknown'' then or_applied sf preview_id (step_err f) else step_err f
      | Inr preliminary \<Rightarrow>
          let uri = pv_workspace_uri (sp_preview preliminary)
          in with_lock_file sf uri
            (step_then (lock_workspace_for_application sf ap uri (ax_lock_timeout ctx) (ax_deadline ctx))
            (or_applied sf preview_id
            (step_bind (reserve_preview sf preview_id) (apply_reserved ho sf ap sha ctx preview_id))))))"

section \<open>Recovery\<close>

definition reconcile_locked ::
  "('w, 'h) host \<Rightarrow> 'w state_files \<Rightarrow> 'w application_host \<Rightarrow> (string \<Rightarrow> string) \<Rightarrow> 'w application_context
     \<Rightarrow> transaction_record \<Rightarrow> ('w, transaction_record option) store_act" where
  "reconcile_locked ho sf ap sha ctx initial =
     step_bind (attempting (read_transaction sf (tx_id initial))) (\<lambda>r. case r of
       Inl f \<Rightarrow> if code f = ''recovery_not_found'' then step_ok None else step_err f
     | Inr tx \<Rightarrow>
         if tx_state tx \<notin> {Staged, Committing} then step_ok (Some tx)
         else
           step_bind (open_planner ap ctx (tx_workspace_path tx) Utf8) (\<lambda>pl.
           step_bind (observe_or unsupported_filesystem ho (\<lambda>env. inspect_manifest env pl (transaction_template tx))) (\<lambda>current.
           let abandoned = (tx_state tx = Committing \<or> manifest_mismatches (tx_before tx) current \<noteq> []);
               found = tx\<lparr>tx_observed := current, tx_manifest_digest := manifest_digest sha current\<rparr>;
               sealed = (if abandoned then found\<lparr>tx_state := RecoveryRequired, tx_cleanup_pending := True\<rparr> else found)
           in step_then (write_transaction sf sealed) (step_ok (Some sealed)))))"

definition reconcile_recovery_status ::
  "('w, 'h) host \<Rightarrow> 'w state_files \<Rightarrow> 'w application_host \<Rightarrow> (string \<Rightarrow> string) \<Rightarrow> 'w application_context
     \<Rightarrow> transaction_record \<Rightarrow> ('w, transaction_record option) store_act" where
  "reconcile_recovery_status ho sf ap sha ctx initial =
     with_lock_file sf (tx_workspace_uri initial)
       (step_bind (ask (sf_try_lock sf (tx_workspace_uri initial))) (\<lambda>attempt. case attempt of
          WouldBlock \<Rightarrow> step_ok (Some initial)
        | LockFailed \<Rightarrow> step_err state_failure
        | Locked \<Rightarrow> reconcile_locked ho sf ap sha ctx initial))"

definition or_else :: "'a option \<Rightarrow> 'a option \<Rightarrow> 'a option" where
  "or_else x y = (case x of Some a \<Rightarrow> Some a | None \<Rightarrow> y)"

definition recovery_receipt ::
  "(string \<Rightarrow> string) \<Rightarrow> string \<Rightarrow> transaction_record \<Rightarrow> string \<Rightarrow> bool \<Rightarrow> string \<Rightarrow> manifest_entry list
     \<Rightarrow> stored_receipt option \<Rightarrow> stored_preview option \<Rightarrow> string \<Rightarrow> string \<Rightarrow> receipt_record" where
  "recovery_receipt sha transaction_id tx receipt_id accept_current outcome final original pending started completed =
     \<lparr>rc_id = receipt_id, rc_kind = ''recovery_receipt'', rc_transaction_id = transaction_id,
      rc_workspace_uri = tx_workspace_uri tx,
      rc_server = or_else (Option.bind original (\<lambda>r. rc_server (sr_receipt r))) (Option.bind pending (\<lambda>p. pv_server (sp_preview p))),
      rc_session_identity = or_else (Option.bind original (\<lambda>r. rc_session_identity (sr_receipt r)))
        (map_option (\<lambda>p. pv_session_identity (sp_preview p)) pending),
      rc_preview_id = or_else (Option.bind original (\<lambda>r. rc_preview_id (sr_receipt r))) (Some (tx_preview_id tx)),
      rc_linked_id = map_option (\<lambda>r. rc_id (sr_receipt r)) original, rc_preauthorized = False,
      rc_started_at = started, rc_completed_at = completed, rc_outcome = outcome,
      rc_filesystem_state = (if accept_current then ''changed'' else ''unchanged''),
      rc_summary = (case or_else (map_option (\<lambda>r. rc_summary (sr_receipt r)) original)
          (map_option (\<lambda>p. pv_summary (sp_preview p)) pending) of Some s \<Rightarrow> s | None \<Rightarrow> empty_summary),
      rc_before = tx_observed tx, rc_intended = final, rc_observed = final, rc_session_synchronized = False,
      rc_cleanup_pending = False, rc_durability = durability_value, rc_manifest_digest = manifest_digest sha final,
      rc_failure_stage = None, rc_failed_change = None\<rparr>"

definition recovery_success :: "(string \<Rightarrow> string) \<Rightarrow> string \<Rightarrow> string \<Rightarrow> bool \<Rightarrow> string \<Rightarrow> manifest_entry list \<Rightarrow> json" where
  "recovery_success sha transaction_id receipt_id accept_current outcome final =
     jobj [(''schemaVersion'', jnat 1), (''ok'', JBool True),
       (''command'', JArray [JString ''recovery'', JString (if accept_current then ''accept-current'' else ''rollback'')]),
       (''outcome'', JString outcome),
       (''result'', jobj [(''transactionId'', JString transaction_id), (''recoveryReceiptId'', JString receipt_id),
          (''filesystemState'', JString (if accept_current then ''changed'' else ''unchanged'')),
          (''manifestDigest'', JString (manifest_digest sha final)), (''cleanupPending'', JBool False)])]"

text \<open>
  What happens to the filesystem: nothing when the current state is accepted or nothing was changed yet,
  otherwise the rollback. A failed rollback also looks at the filesystem for its report.
\<close>

definition restore_or_accept ::
  "('w, 'h) host \<Rightarrow> (string \<Rightarrow> string) \<Rightarrow> planner \<Rightarrow> transaction_record \<Rightarrow> bool \<Rightarrow> manifest_entry list \<Rightarrow> ('w, string) store_act" where
  "restore_or_accept ho sha pl tx accept_current current =
     (if accept_current then step_ok ''accepted_current''
      else if tx_state tx = Staged \<and> manifest_mismatches (tx_before tx) current = [] then step_ok ''restored''
      else step_bind (attempting (rollback_transaction ho sha pl tx)) (\<lambda>r. case r of
        Inr _ \<Rightarrow> step_ok ''restored''
      | Inl _ \<Rightarrow> step_then (ask (ho_look ho)) (step_err (recovery_failure ''recovery_failed'' ''after_change''))))"

definition finish_recovery ::
  "('w, 'h) host \<Rightarrow> 'w state_files \<Rightarrow> 'w application_host \<Rightarrow> (string \<Rightarrow> string) \<Rightarrow> 'w application_context \<Rightarrow> planner
     \<Rightarrow> string \<Rightarrow> transaction_record \<Rightarrow> bool \<Rightarrow> manifest_entry list \<Rightarrow> string \<Rightarrow> ('w, json) store_act" where
  "finish_recovery ho sf ap sha ctx pl transaction_id tx accept_current current outcome =
     step_bind (if accept_current then step_ok current else final_manifest ho pl tx) (\<lambda>final.
     step_bind (random_identifier sf ''rcp_'') (\<lambda>receipt_id.
     step_bind (attempting (read_receipt sf (tx_receipt_id tx))) (\<lambda>original.
     step_bind (attempting (read_preview sf (tx_preview_id tx))) (\<lambda>pending.
     step_bind (ask (ap_timestamp ap)) (\<lambda>started.
     step_bind (ask (ap_timestamp ap)) (\<lambda>completed.
     let receipt = recovery_receipt sha transaction_id tx receipt_id accept_current outcome final
           (case original of Inr r \<Rightarrow> Some r | Inl _ \<Rightarrow> None) (case pending of Inr p \<Rightarrow> Some p | Inl _ \<Rightarrow> None) started completed
     in step_then (write_receipt sf (ax_max_receipts ctx) receipt)
       (step_then (retire_preview_after_recovery sf (tx_preview_id tx))
       (step_bind (attempting (cleanup_transaction_artifacts ap tx)) (\<lambda>cleaned. case cleaned of
          Inl _ \<Rightarrow> step_err (recovery_failure ''recovery_failed'' ''after_change'')
        | Inr _ \<Rightarrow>
            step_then (remove_transaction sf transaction_id)
              (step_ok (recovery_success sha transaction_id receipt_id accept_current outcome final)))))))))))"

definition recover_locked ::
  "('w, 'h) host \<Rightarrow> 'w state_files \<Rightarrow> 'w application_host \<Rightarrow> (string \<Rightarrow> string) \<Rightarrow> 'w application_context \<Rightarrow> string
     \<Rightarrow> string \<Rightarrow> bool \<Rightarrow> ('w, json) store_act" where
  "recover_locked ho sf ap sha ctx transaction_id supplied accept_current =
     step_bind (read_transaction sf transaction_id) (\<lambda>tx.
     step_then (require (tx_state tx \<noteq> CleanupPending \<or> accept_current) recovery_not_found)
     (step_then (require (supplied = tx_manifest_digest tx) (recovery_failure ''recovery_manifest_mismatch'' ''after_change''))
     (step_then (ensure_receipt_capacity sf (ax_max_receipts ctx))
     (step_bind (open_planner ap ctx (tx_workspace_path tx) Utf8) (\<lambda>pl.
      step_bind (observe_or unsupported_filesystem ho (\<lambda>env. inspect_manifest env pl (transaction_template tx))) (\<lambda>current.
      step_then (require (manifest_digest sha current = tx_manifest_digest tx) (recovery_failure ''recovery_conflict'' ''after_change''))
     (step_bind (restore_or_accept ho sha pl tx accept_current current)
       (finish_recovery ho sf ap sha ctx pl transaction_id tx accept_current current))))))))"

definition recover_transaction ::
  "('w, 'h) host \<Rightarrow> 'w state_files \<Rightarrow> 'w application_host \<Rightarrow> (string \<Rightarrow> string) \<Rightarrow> 'w application_context \<Rightarrow> string
     \<Rightarrow> string \<Rightarrow> bool \<Rightarrow> ('w, json) store_act" where
  "recover_transaction ho sf ap sha ctx transaction_id supplied accept_current =
     step_bind (read_transaction sf transaction_id) (\<lambda>initial.
     with_lock_file sf (tx_workspace_uri initial)
       (step_then (lock_workspace sf ap (tx_workspace_uri initial) (ax_lock_timeout ctx))
         (recover_locked ho sf ap sha ctx transaction_id supplied accept_current)))"

definition recover_rollback where
  "recover_rollback ho sf ap sha ctx transaction_id supplied = recover_transaction ho sf ap sha ctx transaction_id supplied False"

definition recover_accept_current where
  "recover_accept_current ho sf ap sha ctx transaction_id supplied = recover_transaction ho sf ap sha ctx transaction_id supplied True"

end
