(* ===== verification/Application_Trace.thy ===== *)
theory Application_Trace
  imports Application Store_Laws
begin

text \<open>
  An Application observed: its inspections, the lock, the records it stores and every call that may
  change the Workspace become events, and the observed Application gives the same outcome.
\<close>

section \<open>Watched calls\<close>

datatype app_event =
    Inspecting environment
  | Changing
  | Locking string lock_attempt
  | StoringPreview stored_preview bool
  | StoringJournal transaction_record bool
  | CreatingArtifacts path bool
  | LoadedJournal string transaction_record

abbreviation succeeded :: "'e + 'a \<Rightarrow> bool" where "succeeded r \<equiv> \<not> isl r"

definition changing :: "('w \<Rightarrow> 'w \<times> 'a) \<Rightarrow> 'w \<times> app_event list \<Rightarrow> ('w \<times> app_event list) \<times> 'a" where
  "changing = noting (\<lambda>_. [Changing])"

definition watched_host :: "('w, 'h) host \<Rightarrow> ('w \<times> app_event list, 'h) host" where
  "watched_host ho = \<lparr>
     ho_look = noting (\<lambda>env. [Inspecting env]) (ho_look ho),
     ho_open = (\<lambda>m p. if m = CreateNew then changing (ho_open ho m p) else quiet (ho_open ho m p)),
     ho_accessed = (\<lambda>h. quiet (ho_accessed ho h)),
     ho_read_handle = (\<lambda>h. quiet (ho_read_handle ho h)),
     ho_identity = (\<lambda>h. quiet (ho_identity ho h)),
     ho_truncate = (\<lambda>h. changing (ho_truncate ho h)),
     ho_write = (\<lambda>h b. changing (ho_write ho h b)),
     ho_sync = (\<lambda>h. quiet (ho_sync ho h)),
     ho_set_accessed = (\<lambda>h a. changing (ho_set_accessed ho h a)),
     ho_copy_metadata = (\<lambda>h g. changing (ho_copy_metadata ho h g)),
     ho_read_file = (\<lambda>p. quiet (ho_read_file ho p)),
     ho_lstat = (\<lambda>p. quiet (ho_lstat ho p)),
     ho_first_entry = (\<lambda>p. quiet (ho_first_entry ho p)),
     ho_rename = (\<lambda>p q. changing (ho_rename ho p q)),
     ho_remove_file = (\<lambda>p. changing (ho_remove_file ho p)),
     ho_remove_dir_all = (\<lambda>p. changing (ho_remove_dir_all ho p)),
     ho_flush_parent = (\<lambda>p. quiet (ho_flush_parent ho p)),
     ho_read_marker = (\<lambda>p n. quiet (ho_read_marker ho p n)),
     ho_store_progress = (\<lambda>p progress. changing (ho_store_progress ho p progress)),
     ho_load_progress = (\<lambda>p n. quiet (ho_load_progress ho p n)),
     ho_transaction_len = ho_transaction_len ho,
     ho_progress_len = ho_progress_len ho\<rparr>"

definition watched_files :: "'w state_files \<Rightarrow> ('w \<times> app_event list) state_files" where
  "watched_files sf = \<lparr>
     sf_now = quiet (sf_now sf),
     sf_preview_ids = quiet (sf_preview_ids sf),
     sf_receipt_ids = quiet (sf_receipt_ids sf),
     sf_transaction_ids = quiet (sf_transaction_ids sf),
     sf_load_preview = (\<lambda>key. quiet (sf_load_preview sf key)),
     sf_load_receipt = (\<lambda>key. quiet (sf_load_receipt sf key)),
     sf_load_transaction = (\<lambda>key. noting (\<lambda>r. case r of Inr tx \<Rightarrow> [LoadedJournal key tx] | Inl _ \<Rightarrow> []) (sf_load_transaction sf key)),
     sf_store_preview = (\<lambda>p. noting (\<lambda>r. [StoringPreview p (succeeded r)]) (sf_store_preview sf p)),
     sf_store_receipt = (\<lambda>r. quiet (sf_store_receipt sf r)),
     sf_store_transaction = (\<lambda>tx. noting (\<lambda>r. [StoringJournal tx (succeeded r)]) (sf_store_transaction sf tx)),
     sf_remove_preview = (\<lambda>key. quiet (sf_remove_preview sf key)),
     sf_remove_receipt = (\<lambda>key. quiet (sf_remove_receipt sf key)),
     sf_remove_transaction = (\<lambda>key. quiet (sf_remove_transaction sf key)),
     sf_preview_exists = (\<lambda>key. quiet (sf_preview_exists sf key)),
     sf_receipt_exists = (\<lambda>key. quiet (sf_receipt_exists sf key)),
     sf_transaction_exists = (\<lambda>key. quiet (sf_transaction_exists sf key)),
     sf_preview_size = (\<lambda>key. quiet (sf_preview_size sf key)),
     sf_preview_len = sf_preview_len sf,
     sf_open_lock = (\<lambda>uri. quiet (sf_open_lock sf uri)),
     sf_try_lock = (\<lambda>uri. noting (\<lambda>r. [Locking uri r]) (sf_try_lock sf uri)),
     sf_close_lock = (\<lambda>uri. quiet (sf_close_lock sf uri)),
     sf_random = quiet (sf_random sf),
     sf_rfc3339 = sf_rfc3339 sf\<rparr>"

definition watched_calls :: "'w application_host \<Rightarrow> ('w \<times> app_event list) application_host" where
  "watched_calls ap = \<lparr>
     ap_now = quiet (ap_now ap),
     ap_sleep = (\<lambda>d wl. (ap_sleep ap d (fst wl), snd wl)),
     ap_timestamp = quiet (ap_timestamp ap),
     ap_open_workspace = (\<lambda>p. quiet (ap_open_workspace ap p)),
     ap_create_directory = (\<lambda>p. noting (\<lambda>r. [CreatingArtifacts p (succeeded r)]) (ap_create_directory ap p)),
     ap_create_new = (\<lambda>p. quiet (ap_create_new ap p)),
     ap_restrict = (\<lambda>p. quiet (ap_restrict ap p)),
     ap_write_new = (\<lambda>p b. quiet (ap_write_new ap p b)),
     ap_remove_file = (\<lambda>p. quiet (ap_remove_file ap p)),
     ap_remove_directory = (\<lambda>p. quiet (ap_remove_directory ap p)),
     ap_remove_all = (\<lambda>p. quiet (ap_remove_all ap p)),
     ap_copy = (\<lambda>p q n. quiet (ap_copy ap p q n)),
     ap_flush = (\<lambda>p. quiet (ap_flush ap p)),
     ap_exists = (\<lambda>p. quiet (ap_exists ap p)),
     ap_read_text = (\<lambda>p. quiet (ap_read_text ap p))\<rparr>"

definition watched_context :: "'w application_context \<Rightarrow> ('w \<times> app_event list) application_context" where
  "watched_context ctx = \<lparr>
     ax_limits = ax_limits ctx, ax_max_receipts = ax_max_receipts ctx, ax_lock_timeout = ax_lock_timeout ctx,
     ax_reauthorize = map_option (\<lambda>f p. quiet (f p)) (ax_reauthorize ctx),
     ax_post_commit = map_option (\<lambda>f receipt ops. quiet (f receipt ops)) (ax_post_commit ctx),
     ax_preauthorized = ax_preauthorized ctx, ax_deadline = ax_deadline ctx\<rparr>"

lemma mirrors_changing [simp, intro]: "mirrors (changing f) f"
  by (simp add: changing_def)

interpretation watched: mirrored_host "watched_host ho" ho for ho :: "('w, 'h) host"
  by unfold_locales (simp_all add: watched_host_def)

interpretation watched: mirrored_files "watched_files sf" sf for sf :: "'w state_files"
  by unfold_locales (simp_all add: watched_files_def)

section \<open>Watching is transparent\<close>

lemma watched_calls_mirror:
  "mirrors (ap_now (watched_calls ap)) (ap_now ap)" "mirrors (ap_timestamp (watched_calls ap)) (ap_timestamp ap)"
  "mirrors (ap_open_workspace (watched_calls ap) p) (ap_open_workspace ap p)"
  "mirrors (ap_create_directory (watched_calls ap) p) (ap_create_directory ap p)"
  "mirrors (ap_create_new (watched_calls ap) p) (ap_create_new ap p)" "mirrors (ap_restrict (watched_calls ap) p) (ap_restrict ap p)"
  "mirrors (ap_write_new (watched_calls ap) p b) (ap_write_new ap p b)" "mirrors (ap_remove_file (watched_calls ap) p) (ap_remove_file ap p)"
  "mirrors (ap_remove_directory (watched_calls ap) p) (ap_remove_directory ap p)"
  "mirrors (ap_remove_all (watched_calls ap) p) (ap_remove_all ap p)" "mirrors (ap_copy (watched_calls ap) p q n) (ap_copy ap p q n)"
  "mirrors (ap_flush (watched_calls ap) p) (ap_flush ap p)" "mirrors (ap_exists (watched_calls ap) p) (ap_exists ap p)"
  "mirrors (ap_read_text (watched_calls ap) p) (ap_read_text ap p)"
  by (simp_all add: watched_calls_def)

lemmas call_shadows = watched_calls_mirror [THEN shadows_ask] watched_calls_mirror(3-12) [THEN shadows_call_or]
  watched.looks [THEN shadows_ask]

lemma create_staged_text_mirror: "mirrors (create_staged_text (watched_calls ap) p b) (create_staged_text ap p b)"
  unfolding mirrors_def create_staged_text_def
  by (auto simp: watched_calls_def quiet_def split: prod.splits sum.splits)

lemma stage_text_visit_mirror:
  assumes "\<And>p b. mirrors (create' p b) (create p b)"
  shows "mirrors (stage_text_visit create' artifacts op given) (stage_text_visit create artifacts op given)"
proof (cases given)
  case None
  then show ?thesis by (auto simp: mirrors_def stage_text_visit_def)
next
  case (Some t)
  obtain before after where t: "t = (before, after)" by (cases t)
  show ?thesis
    unfolding mirrors_def
  proof (intro allI)
    fix w l
    show "\<exists>l'. stage_text_visit create' artifacts op given (w, l) =
        ((fst (stage_text_visit create artifacts op given w), l'), snd (stage_text_visit create artifacts op given w))"
      using mirrors_at [OF assms [of "staged_text_path artifacts (operation_index op)" after], of w l] Some t
      by (cases "create (staged_text_path artifacts (operation_index op)) after w") (auto simp: stage_text_visit_def)
  qed
qed

lemma visit_outputs_mirror:
  assumes "\<And>op given. mirrors (visit' op given) (visit op given)"
  shows "mirrors (visit_outputs env limit visit' ops s) (visit_outputs env limit visit ops s)"
proof (induction ops arbitrary: s)
  case (Cons op ops)
  show ?case
    unfolding mirrors_def
  proof (intro allI)
    fix w l
    show "\<exists>l'. visit_outputs env limit visit' (op # ops) s (w, l) =
        ((fst (visit_outputs env limit visit (op # ops) s w), l'), snd (visit_outputs env limit visit (op # ops) s w))"
    proof (cases "stage_operation env limit op s")
      case (Inr y)
      obtain s' given where y: "y = (s', given)" by (cases y)
      obtain w1 r where v: "visit op given w = (w1, r)" by (cases "visit op given w")
      with mirrors_at [OF assms [of op given], of w l] obtain l1 where "visit' op given (w, l) = ((w1, l1), r)" by auto
      with v Inr y mirrors_at [OF Cons.IH [of s'], of w1 l1] show ?thesis by (cases r) auto
    qed simp
  qed
qed (simp add: mirrors_def)

lemma stage_text_outputs_mirror:
  "mirrors (stage_text_outputs env limit (create_staged_text (watched_calls ap)) tx) (stage_text_outputs env limit (create_staged_text ap) tx)"
  unfolding stage_text_outputs_def [abs_def] visit_canonical_text_outputs_def
  by (intro visit_outputs_mirror stage_text_visit_mirror create_staged_text_mirror)

lemma staging_shadow:
  "shadows (write_artifact_owner (watched_calls ap) tx) (write_artifact_owner ap tx)"
  "shadows (stage_backups (watched_calls ap) limit bs n) (stage_backups ap limit bs n)"
  "shadows (cleanup_transaction_artifacts (watched_calls ap) tx) (cleanup_transaction_artifacts ap tx)"
proof -
  show "shadows (write_artifact_owner (watched_calls ap) tx) (write_artifact_owner ap tx)"
    unfolding write_artifact_owner_def Let_def by (intro shadow_rules call_shadows)
  show "shadows (stage_backups (watched_calls ap) limit bs n) (stage_backups ap limit bs n)"
    by (induction bs arbitrary: n) (auto intro!: shadow_rules call_shadows)
  show "shadows (cleanup_transaction_artifacts (watched_calls ap) tx) (cleanup_transaction_artifacts ap tx)"
    unfolding cleanup_transaction_artifacts_def flush_parent_def by (intro shadow_rules call_shadows)
qed

lemma stage_transaction_shadow:
  "shadows (stage_transaction (watched_host ho) (watched_calls ap) limits tx) (stage_transaction ho ap limits tx)"
proof -
  have contents: "shadows (stage_transaction_contents (watched_host ho) (watched_calls ap) limits tx) (stage_transaction_contents ho ap limits tx)"
    unfolding stage_transaction_contents_def
    by (intro shadow_rules call_shadows staging_shadow shadows_mirror stage_text_outputs_mirror)
  have mapped: "shadows (with_artifacts c m') (with_artifacts c m)" if "shadows m' m" for c and m' :: "('a \<times> app_event list, contract_failure, unit) step" and m
    using that unfolding with_artifacts_def shadows_def by (fastforce split: option.splits dest: spec)
  show ?thesis
    unfolding stage_transaction_def by (intro shadow_rules call_shadows staging_shadow mapped contents)
qed

lemma lock_turn_mirror:
  "mirrors (lock_turn (watched_files sf) (watched_calls ap) uri cd d) (lock_turn sf ap uri cd d)"
  unfolding mirrors_def lock_turn_def watched_files_def watched_calls_def
  by (auto simp: quiet_def noting_def map_prod_def split: prod.splits lock_attempt.splits option.splits)

lemma sleep: "ap_sleep (watched_calls ap) t (w, l) = (ap_sleep ap t w, l)"
  by (simp add: watched_calls_def)

lemma lock_loop_shadow:
  "shadows (lock_loop (watched_files sf) (watched_calls ap) uri cd d) (lock_loop sf ap uri cd d)"
proof -
  have forth: "\<exists>l'. lock_loop (watched_files sf) (watched_calls ap) uri cd d (w, l) = Some ((fst y, l'), snd y)"
    if "lock_loop sf ap uri cd d w = Some y" for w l y
    using that
  proof (induction sf ap uri cd d w y arbitrary: l rule: lock_loop.raw_induct [rotated, consumes 1, case_names 1])
    case (1 loop sf ap uri cd d w y)
    obtain w1 r where t: "lock_turn sf ap uri cd d w = (w1, r)" by (cases "lock_turn sf ap uri cd d w")
    with mirrors_at [OF lock_turn_mirror, of sf ap uri cd d w l] obtain l1
      where t': "lock_turn (watched_files sf) (watched_calls ap) uri cd d (w, l) = ((w1, l1), r)" by auto
    show ?case
    proof (cases r)
      case None
      with 1(2) t have "loop sf ap uri cd d (ap_sleep ap lock_poll w1) = Some y" by simp
      from 1(1) [OF this, of l1] t' None show ?thesis
        by (subst lock_loop.simps) (simp add: sleep)
    next
      case (Some x)
      with 1(2) t t' show ?thesis by (subst lock_loop.simps) auto
    qed
  qed
  have reflect: "lock_loop sf ap uri cd d w \<noteq> None"
    if "lock_loop sf' ap' uri cd d wl = Some y" "sf' = watched_files sf" "ap' = watched_calls ap" "wl = (w, l)" for sf' ap' wl w l y
    using that
  proof (induction sf' ap' uri cd d wl y arbitrary: w l rule: lock_loop.raw_induct [rotated, consumes 1, case_names 1])
    case (1 loop sf' ap' uri cd d wl y)
    obtain w1 r where t: "lock_turn sf ap uri cd d w = (w1, r)" by (cases "lock_turn sf ap uri cd d w")
    with mirrors_at [OF lock_turn_mirror, of sf ap uri cd d w l] obtain l1
      where t': "lock_turn (watched_files sf) (watched_calls ap) uri cd d (w, l) = ((w1, l1), r)" by auto
    show ?case
    proof (cases r)
      case None
      with 1(2-) t' have "loop sf' ap' uri cd d (ap_sleep ap lock_poll w1, l1) = Some y" by (simp add: sleep)
      from 1(1) [OF this 1(3,4) refl] t None show ?thesis by (subst lock_loop.simps) simp
    next
      case (Some x)
      with t show ?thesis by (subst lock_loop.simps) simp
    qed
  qed
  show ?thesis
    unfolding shadows_def
  proof (intro allI)
    fix w l
    show "case lock_loop sf ap uri cd d w of None \<Rightarrow> lock_loop (watched_files sf) (watched_calls ap) uri cd d (w, l) = None
        | Some (w', r) \<Rightarrow> \<exists>l'. lock_loop (watched_files sf) (watched_calls ap) uri cd d (w, l) = Some ((w', l'), r)"
    proof (cases "lock_loop sf ap uri cd d w")
      case None
      with reflect [OF _ refl refl refl, of w l]
      have "lock_loop (watched_files sf) (watched_calls ap) uri cd d (w, l) = None" by (meson not_Some_eq)
      with None show ?thesis by simp
    next
      case (Some y)
      with forth [OF Some, of l] show ?thesis by (cases y) simp
    qed
  qed
qed

lemma locking_shadow:
  "shadows (lock_workspace_for_application (watched_files sf) (watched_calls ap) uri t cd) (lock_workspace_for_application sf ap uri t cd)"
  unfolding lock_workspace_for_application_def lock_workspace_until_def Let_def
  by (intro shadow_rules call_shadows lock_loop_shadow)

lemma context_simps [simp]:
  "ax_limits (watched_context ctx) = ax_limits ctx" "ax_max_receipts (watched_context ctx) = ax_max_receipts ctx"
  "ax_lock_timeout (watched_context ctx) = ax_lock_timeout ctx" "ax_preauthorized (watched_context ctx) = ax_preauthorized ctx"
  "ax_deadline (watched_context ctx) = ax_deadline ctx"
  by (simp_all add: watched_context_def)

lemma receipt_context [simp]: "application_receipt (watched_context ctx) = application_receipt ctx"
  by (intro ext) (simp add: application_receipt_def)

lemma deadline_shadow: "shadows (deadline_expired (watched_calls ap) d) (deadline_expired ap d)"
  unfolding deadline_expired_def by (intro shadow_rules call_shadows)

lemma authorization_shadow: "shadows (check_authorization (watched_context ctx) stored) (check_authorization ctx stored)"
  by (cases "ax_reauthorize ctx")
    (auto simp: check_authorization_def watched_context_def intro!: shadow_rules shadows_mirror)

lemma planner_shadow: "shadows (open_planner (watched_calls ap) (watched_context ctx) p e) (open_planner ap ctx p e)"
  unfolding open_planner_def by (simp, intro shadow_rules call_shadows)

lemma observe_shadow: "shadows (observe_or f (watched_host ho) inspect) (observe_or f ho inspect)"
  unfolding observe_or_def by (intro shadow_rules call_shadows)

lemma prepare_shadow:
  "shadows (prepare_application (watched_host ho) (watched_files sf) (watched_calls ap) sha (watched_context ctx) key stored)
     (prepare_application ho sf ap sha ctx key stored)"
  unfolding prepare_application_def unless_some_def
  by (simp, intro shadow_rules call_shadows deadline_shadow authorization_shadow planner_shadow observe_shadow
      watched.reads watched.receipts watched.previews)

lemma cleanup_shadow:
  "shadows (finish_terminal_cleanup (watched_files sf) (watched_calls ap) tx key) (finish_terminal_cleanup sf ap tx key)"
  unfolding finish_terminal_cleanup_def
  by (intro shadow_rules staging_shadow watched.removals watched.writes)

lemma final_manifest_shadow: "shadows (final_manifest (watched_host ho) pl tx) (final_manifest ho pl tx)"
  unfolding final_manifest_def inspect_transaction_manifest_def by (intro shadow_rules call_shadows watched.inspections)

lemma committed_shadow:
  "shadows (application_committed (watched_files sf) (watched_calls ap) sha (watched_context ctx) key stored tx found)
     (application_committed sf ap sha ctx key stored tx found)"
proof -
  have post: "shadows (case ax_post_commit (watched_context ctx) of None \<Rightarrow> step_ok False | Some f \<Rightarrow> ask (f receipt ops))
      (case ax_post_commit ctx of None \<Rightarrow> step_ok False | Some f \<Rightarrow> ask (f receipt ops))" for receipt ops
    by (cases "ax_post_commit ctx") (auto simp: watched_context_def intro!: shadow_rules shadows_ask)
  show ?thesis
    unfolding application_committed_def Let_def
    by (simp, intro shadow_rules call_shadows watched.writes watched.receipts cleanup_shadow post)
qed

lemma undone_shadow:
  "shadows (application_undone (watched_host ho) (watched_files sf) (watched_calls ap) sha (watched_context ctx) pl key stored tx failed)
     (application_undone ho sf ap sha ctx pl key stored tx failed)"
  unfolding application_undone_def Let_def
  by (simp, intro shadow_rules call_shadows watched.rollbacks watched.writes watched.receipts cleanup_shadow final_manifest_shadow)

lemma withdraw_shadow:
  "shadows (withdraw (watched_files sf) stored tx f) (withdraw sf stored tx f)"
  "shadows (withdraw_staged (watched_files sf) (watched_calls ap) stored tx f) (withdraw_staged sf ap stored tx f)"
  unfolding withdraw_def withdraw_staged_def
  by (intro shadow_rules watched.removals watched.writes staging_shadow)+

lemma stage_and_commit_shadow:
  "shadows (stage_and_commit (watched_host ho) (watched_files sf) (watched_calls ap) sha (watched_context ctx) pl key stored tx)
     (stage_and_commit ho sf ap sha ctx pl key stored tx)"
  unfolding stage_and_commit_def commit_application_def finish_initial_journal_write_def Let_def case_prod_unfold
  by (simp, intro shadow_rules call_shadows watched.reads watched.writes watched.commits stage_transaction_shadow deadline_shadow
      withdraw_shadow committed_shadow undone_shadow)

lemma or_applied_shadow: "shadows m' m \<Longrightarrow> shadows (or_applied (watched_files sf) key m') (or_applied sf key m)"
  unfolding or_applied_def applied_answer_def by (intro shadow_rules watched.reads)

lemma apply_preview_shadow:
  "shadows (apply_preview (watched_host ho) (watched_files sf) (watched_calls ap) sha (watched_context ctx) key)
     (apply_preview ho sf ap sha ctx key)"
  unfolding apply_preview_def apply_reserved_def Let_def case_prod_unfold
  by (simp, intro shadow_rules or_applied_shadow watched.locks watched.reads watched.writes watched.previews locking_shadow
      prepare_shadow stage_and_commit_shadow)

end
