(* ===== verification/Application_Laws.thy ===== *)
theory Application_Laws
  imports Application_Trace
begin

text \<open>
  What an Application does before the first change of the Workspace, and what its success means: the
  phases of an observed run as the events that precede one another in its trace.
\<close>

section \<open>What actions add to the trace\<close>

definition grew :: "app_event set \<Rightarrow> 'w \<times> app_event list \<Rightarrow> 'w \<times> app_event list \<Rightarrow> bool" where
  "grew S wl wl' \<longleftrightarrow> (\<exists>l. snd wl' = snd wl @ l \<and> set l \<subseteq> S)"

abbreviation calm :: "app_event set" where "calm \<equiv> - {Changing}"

interpretation grown: step_relation "grew S :: 'w \<times> app_event list \<Rightarrow> _" for S
  by unfold_locales (fastforce simp: grew_def)+

lemma obeys_grew:
  "obeys (grew S) (quiet f)" "(\<And>r. set (ev r) \<subseteq> S) \<Longrightarrow> obeys (grew S) (noting ev g)" "obeys (grew UNIV) (changing h)"
  by (auto simp: obeys_def grew_def quiet_def noting_def changing_def split: prod.splits)

lemma keeps_more: "keeps (grew S) m \<Longrightarrow> keeps (grew UNIV) m"
  unfolding keeps_def grew_def by blast

interpretation any: respected_host "grew UNIV" "watched_host ho" for ho :: "('w, 'h) host"
  by unfold_locales (simp_all add: watched_host_def obeys_grew)

interpretation calm: obeyed_files "grew calm" "watched_files sf" for sf :: "'w state_files"
  by unfold_locales (simp_all add: watched_files_def obeys_grew)

lemma calls_grew:
  "obeys (grew calm) (ap_now (watched_calls ap))" "obeys (grew calm) (ap_timestamp (watched_calls ap))"
  "obeys (grew calm) (ap_open_workspace (watched_calls ap) p)" "obeys (grew calm) (ap_create_new (watched_calls ap) p)"
  "obeys (grew calm) (ap_restrict (watched_calls ap) p)" "obeys (grew calm) (ap_write_new (watched_calls ap) p b)"
  "obeys (grew calm) (ap_remove_file (watched_calls ap) p)" "obeys (grew calm) (ap_remove_directory (watched_calls ap) p)"
  "obeys (grew calm) (ap_remove_all (watched_calls ap) p)" "obeys (grew calm) (ap_copy (watched_calls ap) p q n)"
  "obeys (grew calm) (ap_flush (watched_calls ap) p)" "obeys (grew calm) (ap_exists (watched_calls ap) p)"
  "obeys (grew calm) (ap_read_text (watched_calls ap) p)" "obeys (grew calm) (ho_look (watched_host ho))"
  by (simp_all add: watched_calls_def watched_host_def obeys_grew)

lemmas calls_calm = calls_grew [THEN calm.keeps_ask] calls_grew(3-11) [THEN calm.keeps_call_or]

lemma journal_calm: "keeps (grew calm) (write_transaction (watched_files sf) tx)"
  by (rule calm.journal_keeps) (simp add: watched_files_def obeys_grew)

lemma cleanup_calm: "keeps (grew calm) (cleanup_transaction_artifacts (watched_calls ap) tx)"
  unfolding cleanup_transaction_artifacts_def flush_parent_def by (intro grown.keep_rules calls_calm)

lemma terminal_cleanup_calm: "keeps (grew calm) (finish_terminal_cleanup (watched_files sf) (watched_calls ap) tx key)"
  unfolding finish_terminal_cleanup_def
  by (intro grown.keep_rules keeps_attempting cleanup_calm calm.removals_keep calm.writes_keep)

lemma withdraw_calm:
  "keeps (grew calm) (withdraw (watched_files sf) stored tx f)"
  "keeps (grew calm) (withdraw_staged (watched_files sf) (watched_calls ap) stored tx f)"
  unfolding withdraw_def withdraw_staged_def
  by (intro grown.keep_rules keeps_attempting cleanup_calm journal_calm calm.removals_keep calm.writes_keep)+

lemma authorization_calm: "keeps (grew calm) (check_authorization (watched_context ctx) stored)"
  by (cases "ax_reauthorize ctx")
    (auto simp: check_authorization_def watched_context_def intro!: grown.keep_rules keeps_call obeys_grew)

lemma opening_calm: "keeps (grew calm) (open_planner (watched_calls ap) ctx p e)"
  "keeps (grew calm) (deadline_expired (watched_calls ap) d)"
  unfolding open_planner_def deadline_expired_def by (intro grown.keep_rules calls_calm)+

lemma visit_outputs_grew:
  assumes "\<And>op x. obeys (grew S) (visit op x)"
  shows "obeys (grew S) (visit_outputs env limit visit ops s)"
proof (induction ops arbitrary: s)
  case (Cons op ops)
  show ?case
    unfolding obeys_def
  proof
    fix w
    show "grew S w (fst (visit_outputs env limit visit (op # ops) s w))"
    proof (cases "stage_operation env limit op s")
      case (Inr y)
      obtain s' x where y: "y = (s', x)" by (cases y)
      obtain w1 r where v: "visit op x w = (w1, r)" by (cases "visit op x w")
      with assms have one: "grew S w w1" unfolding obeys_def by (metis fst_conv)
      from Cons.IH have "grew S w1 (fst (visit_outputs env limit visit ops s' w1))" unfolding obeys_def by blast
      with one have "grew S w (fst (visit_outputs env limit visit ops s' w1))" by (rule grown.chained)
      with Inr y v one show ?thesis by (cases r) simp_all
    qed (simp add: grown.stays)
  qed
qed (simp add: obeys_def grown.stays)

lemma staged_texts_calm:
  "obeys (grew calm) (stage_text_outputs env limit (create_staged_text (watched_calls ap)) tx)"
proof -
  have "obeys (grew calm) (create_staged_text (watched_calls ap) p b)" for p b
    unfolding obeys_def create_staged_text_def
    by (auto simp: watched_calls_def quiet_def grown.stays grew_def split: prod.splits sum.splits)
  then have "obeys (grew calm) (stage_text_visit (create_staged_text (watched_calls ap)) d op x)" for d op x
    by (cases x) (auto simp: obeys_def stage_text_visit_def grown.stays)
  then show ?thesis
    unfolding stage_text_outputs_def [abs_def] visit_canonical_text_outputs_def by (rule visit_outputs_grew)
qed

lemma staging_calm:
  "keeps (grew calm) (write_artifact_owner (watched_calls ap) tx)"
  "keeps (grew calm) (stage_transaction_contents (watched_host ho) (watched_calls ap) limits tx)"
proof -
  have backups: "keeps (grew calm) (stage_backups (watched_calls ap) n bs c)" for n bs c
    by (induction bs arbitrary: c) (auto intro!: grown.keep_rules calls_calm)
  show "keeps (grew calm) (write_artifact_owner (watched_calls ap) tx)"
    unfolding write_artifact_owner_def Let_def by (intro grown.keep_rules calls_calm)
  show "keeps (grew calm) (stage_transaction_contents (watched_host ho) (watched_calls ap) limits tx)"
    unfolding stage_transaction_contents_def
    by (intro grown.keep_rules calls_calm backups keeps_call staged_texts_calm)
qed

lemma with_artifacts_keeps: "keeps R m \<Longrightarrow> keeps R (with_artifacts c m)"
  by (auto simp: keeps_def with_artifacts_def)

lemma staging_after_directory_calm:
  "keeps (grew calm) (step_bind (attempting (write_artifact_owner (watched_calls ap) tx)) (\<lambda>owner. case owner of
        Inl f \<Rightarrow>
          step_then (ask (ap_remove_file (watched_calls ap) (join_name (tx_artifacts tx) artifact_owner_file)))
          (step_bind (ask (ap_remove_directory (watched_calls ap) (tx_artifacts tx))) (\<lambda>removed.
           step_err (f, isl removed)))
      | Inr _ \<Rightarrow> with_artifacts True (stage_transaction_contents (watched_host ho) (watched_calls ap) limits tx)))"
  by (intro grown.keep_rules calls_calm keeps_attempting staging_calm with_artifacts_keeps)

section \<open>Phases\<close>

text \<open>
  The events before the commit of a Preview, in their order: the Workspace lock, the reservation, an
  inspection that still matches the plan, the journal, the private artifacts, and the journal again.
\<close>

definition commit_events :: "(string \<Rightarrow> string) \<Rightarrow> string \<Rightarrow> app_event list \<Rightarrow> stored_preview \<Rightarrow> bool" where
  "commit_events sha key es stored \<longleftrightarrow>
     (\<exists>uri env pl current transaction_id started tx.
        es = [Locking uri Locked, StoringPreview stored True, Inspecting env, StoringJournal tx True,
              CreatingArtifacts (tx_artifacts tx) True, StoringJournal (tx\<lparr>tx_state := Committing\<rparr>) True]
      \<and> pv_reserved (sp_preview stored)
      \<and> inspect_manifest env pl (cp_before (pv_plan (sp_preview stored))) = Inr current
      \<and> preview_manifest_mismatches (pv_plan (sp_preview stored)) current = []
      \<and> tx = new_transaction sha key stored current transaction_id started)"

definition commit_ready :: "(string \<Rightarrow> string) \<Rightarrow> string \<Rightarrow> app_event list \<Rightarrow> bool" where
  "commit_ready sha key l \<longleftrightarrow> (\<exists>es stored. commit_events sha key es stored \<and> subseq es l)"

text \<open>
  Then, after the commit, an inspection of everything the plan intends that finds it so. One that has
  problems counts as finding nothing.
\<close>

definition commit_verified :: "(string \<Rightarrow> string) \<Rightarrow> string \<Rightarrow> app_event list \<Rightarrow> bool" where
  "commit_verified sha key l \<longleftrightarrow>
     (\<exists>es stored env pl. commit_events sha key es stored \<and> subseq (es @ [Inspecting env]) l
      \<and> (let intended = cp_intended (pv_plan (sp_preview stored))
         in manifest_mismatches intended (found_manifest env pl intended) = []))"

text \<open>Every change comes after a trace that was ready for it.\<close>

definition reached :: "(app_event list \<Rightarrow> bool) \<Rightarrow> app_event list \<Rightarrow> bool" where
  "reached R l \<longleftrightarrow> (\<exists>k k'. l = k @ k' \<and> R k)"

definition guarded :: "(app_event list \<Rightarrow> bool) \<Rightarrow> 'w \<times> app_event list \<Rightarrow> bool" where
  "guarded R wl \<longleftrightarrow> (\<forall>l l'. snd wl = l @ Changing # l' \<longrightarrow> reached R l)"

definition at :: "(app_event list \<Rightarrow> bool) \<Rightarrow> app_event list \<Rightarrow> 'w \<times> app_event list \<Rightarrow> bool" where
  "at R es wl \<longleftrightarrow> guarded R wl \<and> subseq es (snd wl)"

lemma reached_more: "reached R l \<Longrightarrow> reached R (l @ l')"
  by (auto simp: reached_def) (metis append.assoc)

lemma guarded_more:
  assumes "guarded R (w, l)" "set l' \<subseteq> calm \<or> reached R l"
  shows "guarded R (w', l @ l')"
  unfolding guarded_def
proof (intro allI impI)
  fix k k' assume split: "snd (w', l @ l') = k @ Changing # k'"
  show "reached R k"
  proof (cases "length k < length l")
    case True
    with split have "l = k @ Changing # take (length l - length k - 1) k'"
      by (auto simp: append_eq_append_conv2 append_eq_Cons_conv)
    with assms(1) show ?thesis unfolding guarded_def by (metis snd_conv)
  next
    case False
    with split obtain m where m: "k = l @ m" "l' = m @ Changing # k'"
      by (auto simp: append_eq_append_conv2 Cons_eq_append_conv)
    with assms(2) have "reached R l" by auto
    then show ?thesis unfolding m(1) by (rule reached_more)
  qed
qed

lemma at_more:
  "at R es (w, l) \<Longrightarrow> set l' \<subseteq> calm \<or> reached R l \<Longrightarrow> at R es (w', l @ l')"
  using guarded_more [of R w l l' w'] by (auto simp: at_def intro: subseq_rev_drop_many)

lemma at_grew:
  fixes m :: "('w \<times> app_event list, 'e, 'a) step"
  assumes "keeps (grew S) m" "\<And>(w :: 'w) l. at R es (w, l) \<Longrightarrow> S \<subseteq> calm \<or> reached R l"
  shows "upholds (at R es) (at R es) m (\<lambda>_. at R es)"
  unfolding upholds_def
proof (intro allI impI)
  fix wl wl' r assume at: "at R es wl" and m: "m wl = Some (wl', r)"
  obtain w l w' l' where wl: "wl = (w, l)" "wl' = (w', l')" by (cases wl, cases wl') auto
  with keepsD [OF assms(1) m] obtain k where k: "l' = l @ k" "set k \<subseteq> S" by (auto simp: grew_def)
  have "set k \<subseteq> calm \<or> reached R l" using assms(2) [OF at [unfolded wl]] k(2) by auto
  then have "at R es wl'" unfolding wl k(1) by (rule at_more [OF at [unfolded wl]])
  then show "case r of Inl _ \<Rightarrow> at R es wl' | Inr _ \<Rightarrow> at R es wl'" by (cases r) auto
qed

lemma at_guarded: "at R es wl \<Longrightarrow> guarded R wl"
  by (simp add: at_def)

lemma at_prefix: "at R (es @ es') wl \<Longrightarrow> at R es wl"
  by (auto simp: at_def dest!: list_emb_appendD intro: subseq_rev_drop_many)

lemma at_calm_kept: "keeps (grew calm) m \<Longrightarrow> upholds (at R es) (at R (es @ es')) m (\<lambda>_. at R (es @ es'))"
  by (rule upholds_mono [OF at_grew [where es = "es @ es'"]]) (auto intro: at_prefix)

lemma at_kept: "keeps (grew calm) m \<Longrightarrow> upholds (at R es) (at R es) m (\<lambda>_. at R es)"
  using at_calm_kept [of m R es "[]"] by simp

lemma at_calm: "keeps (grew calm) m \<Longrightarrow> upholds (guarded R) (at R es) m (\<lambda>_. at R es)"
  by (rule upholds_mono [OF at_grew]) (auto intro: at_guarded)

text \<open>Once the trace is ready every action is guarded.\<close>

lemma at_ready:
  assumes "keeps (grew UNIV) m" "\<And>l. subseq es l \<Longrightarrow> R l"
  shows "upholds (guarded R) (at R (es @ es')) m (\<lambda>_. at R (es @ es'))"
proof (rule upholds_mono [OF at_grew [OF assms(1), where es = "es @ es'"]], rule disjI2)
  fix w l assume "at R (es @ es') (w, l)"
  then have "subseq (es @ es') l" by (simp add: at_def)
  then have "subseq es l" by (metis list_emb_appendD subseq_rev_drop_many)
  with assms(2) show "reached R l" unfolding reached_def by (metis append_Nil2)
qed (auto intro: at_guarded)

text \<open>A call that leaves an event of its own.\<close>

lemma at_note:
  assumes "at R es (w, l)" "e \<noteq> Changing"
  shows "at R (es @ [e]) (w', l @ [e])"
proof -
  have "at R es (w', l @ [e])" using at_more [OF assms(1), of "[e]" w'] assms(2) by simp
  then show ?thesis using assms(1) by (simp add: at_def)
qed

section \<open>The lock and the reservation\<close>

lemma lock_turn_at:
  assumes "lock_turn (watched_files sf) (watched_calls ap) uri cd d (w, l) = ((w', l'), x)"
  shows "\<exists>attempt. l' = l @ [Locking uri attempt] \<and> (x = Some (Inr ()) \<longrightarrow> attempt = Locked)"
  using assms
  by (auto simp: lock_turn_def watched_files_def watched_calls_def noting_def quiet_def map_prod_def Let_def
      split: prod.splits lock_attempt.splits option.splits if_splits)

lemma lock_loop_at:
  assumes "lock_loop (watched_files sf) (watched_calls ap) uri cd d wl = Some y" "at R es wl"
  shows "case snd y of Inl _ \<Rightarrow> guarded R (fst y) | Inr _ \<Rightarrow> at R (es @ [Locking uri Locked]) (fst y)"
proof -
  have "case snd y of Inl _ \<Rightarrow> guarded R (fst y) | Inr _ \<Rightarrow> at R (es @ [Locking uri Locked]) (fst y)"
    if "lock_loop sf' ap' uri cd d wl = Some y" "sf' = watched_files sf" "ap' = watched_calls ap" "at R es wl" for sf' ap' wl y
    using that
  proof (induction sf' ap' uri cd d wl y rule: lock_loop.raw_induct [rotated, consumes 1, case_names 1])
    case (1 loop sf' ap' uri cd d wl y)
    obtain w l w1 l1 x where t: "wl = (w, l)" "lock_turn sf' ap' uri cd d wl = ((w1, l1), x)"
      by (metis surj_pair)
    then obtain attempt where l1: "l1 = l @ [Locking uri attempt]" "x = Some (Inr ()) \<longrightarrow> attempt = Locked"
      using lock_turn_at 1(3,4) by metis
    have kept: "at R es (w', l1)" for w'
      using at_more [OF 1(5) [unfolded t(1)], of "[Locking uri attempt]"] l1(1) by simp
    show ?case
    proof (cases x)
      case None
      with 1(2-) t have "loop sf' ap' uri cd d (ap_sleep ap lock_poll w1, l1) = Some y" by (simp add: sleep)
      from 1(1) [OF this 1(3,4) kept] show ?thesis .
    next
      case (Some r)
      with 1(2) t have y: "y = ((w1, l1), r)" by simp
      show ?thesis
      proof (cases r)
        case (Inr u)
        with Some l1 have "l1 = l @ [Locking uri Locked]" by simp
        with at_note [OF 1(5) [unfolded t(1)], of "Locking uri Locked" w1] y Inr show ?thesis by simp
      qed (use y kept [of w1] in \<open>simp add: at_def\<close>)
    qed
  qed
  with assms show ?thesis by blast
qed

lemma lock_at:
  "upholds (guarded R) (at R es) (lock_workspace_for_application (watched_files sf) (watched_calls ap) uri t cd)
     (\<lambda>_. at R (es @ [Locking uri Locked]))"
  unfolding lock_workspace_for_application_def lock_workspace_until_def Let_def
proof (rule upholds_bind [OF at_calm [OF calls_calm(1)]])
  fix now
  have "upholds (guarded R) (at R es) (lock_loop (watched_files sf) (watched_calls ap) uri cd d)
      (\<lambda>_. at R (es @ [Locking uri Locked]))" for d
    unfolding upholds_def using lock_loop_at by (fastforce split: sum.splits)
  then show "upholds (guarded R) (at R es)
      (case instant_add now (case parse_duration t of None \<Rightarrow> 30 * 1000000000 | Some d \<Rightarrow> d) of
         None \<Rightarrow> step_panic | Some deadline \<Rightarrow> lock_loop (watched_files sf) (watched_calls ap) uri cd deadline)
      (\<lambda>_. at R (es @ [Locking uri Locked]))"
    by (auto intro: upholds_panic split: option.split)
qed

text \<open>A record stored: the event tells whether it was; with a failure the events so far are as before.\<close>

lemma stored_at:
  assumes "\<And>b. ev b \<noteq> Changing"
  shows "upholds (at R es) (at R es) (call_or e (noting (\<lambda>r. [ev (succeeded r)]) f)) (\<lambda>_. at R (es @ [ev True]))"
proof (rule upholds_call_or)
  fix wl wl' :: "'a \<times> app_event list" and a
  assume at: "at R es wl" and r: "noting (\<lambda>r. [ev (succeeded r)]) f wl = (wl', Inr a)"
  obtain w l where wl: "wl = (w, l)" by (cases wl)
  with r obtain w' where "wl' = (w', l @ [ev True])" by (auto simp: noting_def split: prod.splits)
  with at_note [OF at [unfolded wl] assms] show "at R (es @ [ev True]) wl'" by simp
next
  fix wl wl' :: "'a \<times> app_event list" and x
  assume at: "at R es wl" and r: "noting (\<lambda>r. [ev (succeeded r)]) f wl = (wl', Inl x)"
  obtain w l where wl: "wl = (w, l)" by (cases wl)
  with r obtain w' where "wl' = (w', l @ [ev False])" by (auto simp: noting_def split: prod.splits)
  with at_more [OF at [unfolded wl], of "[ev False]"] assms [of False] show "at R es wl'" by simp
qed

lemma reserve_at:
  "upholds (guarded R) (at R es) (reserve_preview (watched_files sf) preview_id)
     (\<lambda>stored wl. pv_reserved (sp_preview stored) \<and> at R (es @ [StoringPreview stored True]) wl)"
proof -
  have stored: "upholds (at R es) (at R es) (write_preview (watched_files sf) p) (\<lambda>_. at R (es @ [StoringPreview p True]))" for p
    unfolding write_preview_def using stored_at [of "StoringPreview p"] by (simp add: watched_files_def)
  show ?thesis
    unfolding reserve_preview_def Let_def
  proof (rule upholds_bind [OF at_calm [OF calm.reads_keep(1)]], rule upholds_if, (auto intro: upholds_err at_guarded)[1])
    fix p :: stored_preview
    let ?r = "p\<lparr>sp_preview := (sp_preview p)\<lparr>pv_reserved := True\<rparr>\<rparr>"
    show "upholds (guarded R) (at R es)
        (step_bind (attempting (write_preview (watched_files sf) ?r)) (\<lambda>r. case r of
           Inl f \<Rightarrow> step_then (release_preview (watched_files sf) ?r) (step_err f) | Inr _ \<Rightarrow> step_ok ?r))
        (\<lambda>stored wl. pv_reserved (sp_preview stored) \<and> at R (es @ [StoringPreview stored True]) wl)"
    proof (rule upholds_bind [OF upholds_attempting [OF stored]])
      fix r :: "contract_failure + unit"
      show "upholds (guarded R) (\<lambda>wl. case r of Inl _ \<Rightarrow> at R es wl | Inr _ \<Rightarrow> at R (es @ [StoringPreview ?r True]) wl)
          (case r of Inl f \<Rightarrow> step_then (release_preview (watched_files sf) ?r) (step_err f) | Inr _ \<Rightarrow> step_ok ?r)
          (\<lambda>stored wl. pv_reserved (sp_preview stored) \<and> at R (es @ [StoringPreview stored True]) wl)"
        by (cases r) (auto intro!: upholds_then [OF at_calm [OF calm.writes_keep(2)]] upholds_err upholds_ok intro: at_guarded)
    qed
  qed
qed

section \<open>Preparation and staging\<close>

lemma looked_at:
  "upholds E (at R es) (ask (ho_look (watched_host ho))) (\<lambda>env. at R (es @ [Inspecting env]))"
proof (rule upholds_ask)
  fix wl wl' env assume at: "at R es wl" and r: "ho_look (watched_host ho) wl = (wl', env)"
  obtain w l where wl: "wl = (w, l)" by (cases wl)
  with r obtain w' where "wl' = (w', l @ [Inspecting env])"
    by (auto simp: watched_host_def noting_def split: prod.splits)
  with at_note [OF at [unfolded wl], of "Inspecting env"] show "at R (es @ [Inspecting env]) wl'" by simp
qed

definition prepared_at ::
  "(app_event list \<Rightarrow> bool) \<Rightarrow> (string \<Rightarrow> string) \<Rightarrow> string \<Rightarrow> app_event list \<Rightarrow> stored_preview \<Rightarrow> transaction_record \<Rightarrow> 'w \<times> app_event list \<Rightarrow> bool" where
  "prepared_at R sha key es stored tx wl \<longleftrightarrow>
     (\<exists>env pl current transaction_id started. at R (es @ [Inspecting env]) wl
      \<and> inspect_manifest env pl (cp_before (pv_plan (sp_preview stored))) = Inr current
      \<and> preview_manifest_mismatches (pv_plan (sp_preview stored)) current = []
      \<and> tx = new_transaction sha key stored current transaction_id started)"

lemma prepared_atI:
  "at R (es @ [Inspecting env]) wl \<Longrightarrow> inspect_manifest env pl (cp_before (pv_plan (sp_preview stored))) = Inr current \<Longrightarrow>
   preview_manifest_mismatches (pv_plan (sp_preview stored)) current = [] \<Longrightarrow>
   prepared_at R sha key es stored (new_transaction sha key stored current transaction_id started) wl"
  unfolding prepared_at_def by blast

lemma prepare_at:
  "upholds (at R es) (at R es)
     (prepare_application (watched_host ho) (watched_files sf) (watched_calls ap) sha ctx' key stored)
     (\<lambda>r. prepared_at R sha key es stored (snd r))"
  if "ctx' = watched_context ctx"
proof -
  let ?plan = "pv_plan (sp_preview stored)"
  have seen: "upholds (at R es) (at R es)
      (observe_or unsupported_filesystem (watched_host ho) (\<lambda>env. inspect_manifest env pl (cp_before ?plan)))
      (\<lambda>current wl. \<exists>env. at R (es @ [Inspecting env]) wl \<and> inspect_manifest env pl (cp_before ?plan) = Inr current)" for pl
    unfolding observe_or_def
    by (rule upholds_bind [OF looked_at]) (auto intro!: upholds_err upholds_ok intro: at_prefix split: sum.split)
  have late: "upholds (at R es) (\<lambda>wl. \<exists>env. at R (es @ [Inspecting env]) wl \<and> inspect_manifest env pl (cp_before ?plan) = Inr current)
      (step_then (require (preview_manifest_mismatches ?plan current = []) preview_stale)
       (step_bind (random_identifier (watched_files sf) ''txn_'') (\<lambda>transaction_id.
        step_bind (ask (ap_timestamp (watched_calls ap))) (\<lambda>started.
        step_ok (pl, new_transaction sha key stored current transaction_id started)))))
      (\<lambda>r. prepared_at R sha key es stored (snd r))" for pl current
  proof (rule upholds_ex, rule upholds_pre)
    fix env assume i: "inspect_manifest env pl (cp_before ?plan) = Inr current"
    show "upholds (at R es) (at R (es @ [Inspecting env]))
        (step_then (require (preview_manifest_mismatches ?plan current = []) preview_stale)
         (step_bind (random_identifier (watched_files sf) ''txn_'') (\<lambda>transaction_id.
          step_bind (ask (ap_timestamp (watched_calls ap))) (\<lambda>started.
          step_ok (pl, new_transaction sha key stored current transaction_id started)))))
        (\<lambda>r. prepared_at R sha key es stored (snd r))"
    proof (rule upholds_then [where R = "\<lambda>wl. at R (es @ [Inspecting env]) wl \<and> preview_manifest_mismatches ?plan current = []"])
      show "upholds (at R es) (at R (es @ [Inspecting env])) (require (preview_manifest_mismatches ?plan current = []) preview_stale)
          (\<lambda>_ wl. at R (es @ [Inspecting env]) wl \<and> preview_manifest_mismatches ?plan current = [])"
        by (rule upholds_require) (auto intro: at_prefix)
      show "upholds (at R es) (\<lambda>wl. at R (es @ [Inspecting env]) wl \<and> preview_manifest_mismatches ?plan current = [])
          (step_bind (random_identifier (watched_files sf) ''txn_'') (\<lambda>transaction_id.
            step_bind (ask (ap_timestamp (watched_calls ap))) (\<lambda>started.
            step_ok (pl, new_transaction sha key stored current transaction_id started))))
          (\<lambda>r. prepared_at R sha key es stored (snd r))"
        by (rule upholds_pre, intro upholds_bind [OF at_calm_kept [OF calm.previews_keep]] upholds_bind [OF at_calm_kept [OF calls_calm(2)]] upholds_ok)
          (use i in \<open>auto intro: prepared_atI\<close>)
    qed
  qed
  show ?thesis
    unfolding prepare_application_def unless_some_def that
    by (simp, intro upholds_bind [OF at_kept] upholds_then [OF at_kept] upholds_bind [OF seen] late grown.keep_rules opening_calm
        authorization_calm calm.reads_keep calm.receipts_keep)
qed

lemma stage_at:
  "upholds (\<lambda>wl. at R es wl) (at R es) (stage_transaction (watched_host ho) (watched_calls ap) limits tx)
     (\<lambda>_. at R (es @ [CreatingArtifacts (tx_artifacts tx) True]))"
proof -
  have created: "upholds (at R es) (at R es) (call_or (stage_failure, False) (ap_create_directory (watched_calls ap) (tx_artifacts tx)))
      (\<lambda>_. at R (es @ [CreatingArtifacts (tx_artifacts tx) True]))"
    using stored_at [of "CreatingArtifacts (tx_artifacts tx)"] by (simp add: watched_calls_def)
  show ?thesis
    unfolding stage_transaction_def
    by (rule upholds_then [OF created at_calm_kept [OF staging_after_directory_calm]])
qed

text \<open>An action that never returns a value keeps the trace guarded.\<close>

lemma calm_failure: "keeps (grew calm) m \<Longrightarrow> (\<And>w w' a. m w \<noteq> Some (w', Inr a)) \<Longrightarrow> upholds (guarded R) (at R es) m Q"
  using upholdsD [OF at_calm, of m] unfolding upholds_def by (fastforce split: sum.splits)

lemma withdraw_fails: "withdraw sf stored tx f w \<noteq> Some (w', Inr a)" "withdraw_staged sf ap stored tx f w \<noteq> Some (w', Inr a)"
proof -
  show w: "withdraw sf stored tx f w \<noteq> Some (w', Inr a)" for sf :: "'a state_files" and w w' and a :: 'b
    by (auto simp: withdraw_def step_bind_def step_err_def split: option.splits sum.splits)
  show "withdraw_staged sf ap stored tx f w \<noteq> Some (w', Inr a)"
    using w by (auto simp: withdraw_staged_def step_bind_def step_then_def step_err_def split: option.splits sum.splits)
qed

lemma journal_at:
  "upholds (at R es) (at R es) (write_transaction (watched_files sf) tx) (\<lambda>_. at R (es @ [StoringJournal tx True]))"
  unfolding write_transaction_def using stored_at [of "StoringJournal tx"] by (simp add: watched_files_def)

lemma initial_journal_at:
  "upholds (guarded R) (at R es) (finish_initial_journal_write (watched_files sf) stored tx (Inl f)) Q"
proof (rule calm_failure)
  show "keeps (grew calm) (finish_initial_journal_write (watched_files sf) stored tx (Inl f))"
    unfolding finish_initial_journal_write_def
    by (simp, intro grown.keep_rules keeps_attempting calm.reads_keep calm.writes_keep)
qed (auto simp: finish_initial_journal_write_def step_bind_def step_then_def step_err_def split: option.splits sum.splits if_splits)

lemma committed_keeps:
  "keeps (grew calm) (application_committed (watched_files sf) (watched_calls ap) sha (watched_context ctx) key stored tx found)"
proof -
  have post: "keeps (grew calm) (case ax_post_commit (watched_context ctx) of None \<Rightarrow> step_ok False | Some f \<Rightarrow> ask (f receipt ops))" for receipt ops
    by (cases "ax_post_commit ctx") (auto simp: watched_context_def intro!: grown.keep_rules calm.keeps_ask obeys_grew)
  show ?thesis
    unfolding application_committed_def Let_def
    by (intro post grown.keep_rules calls_calm journal_calm calm.writes_keep calm.receipts_keep terminal_cleanup_calm)
qed

lemma undone_keeps:
  "keeps (grew UNIV) (application_undone (watched_host ho) (watched_files sf) (watched_calls ap) sha ctx pl key stored tx failed)"
proof -
  have final: "keeps (grew UNIV) (final_manifest (watched_host ho) pl tx)" for tx
    unfolding final_manifest_def inspect_transaction_manifest_def
    by (intro grown.keep_rules keeps_attempting any.inspections_keep calls_calm [THEN keeps_more])
  show ?thesis
    unfolding application_undone_def Let_def
    by (intro grown.keep_rules keeps_attempting any.rollbacks_keep final journal_calm [THEN keeps_more]
        calm.receipts_keep [THEN keeps_more] terminal_cleanup_calm [THEN keeps_more] calls_calm [THEN keeps_more])
qed

lemma undone_fails:
  "application_undone ho sf ap sha ctx pl key stored tx failed w \<noteq> Some (w', Inr a)"
  by (auto simp: application_undone_def step_bind_def step_then_def step_err_def Let_def split: option.splits sum.splits)

text \<open>What depends on the trace alone is not touched by the lock file.\<close>

lemma with_lock_file_at:
  assumes "upholds (guarded R) (at R []) m Q" "\<And>a wl wl'. Q a wl \<Longrightarrow> snd wl' = snd wl \<Longrightarrow> Q a wl'"
  shows "upholds (guarded R) (at R []) (with_lock_file (watched_files sf) uri m) Q"
  unfolding with_lock_file_def open_application_lock_def
proof (rule upholds_then [OF at_calm])
  show "keeps (grew calm) (call_or state_failure (sf_open_lock (watched_files sf) uri))"
    by (rule calm.keeps_call_or) (simp add: watched_files_def obeys_grew)
  have closed: "snd (fst (sf_close_lock (watched_files sf) uri wl)) = snd wl" for wl
    by (simp add: watched_files_def quiet_def split: prod.splits)
  show "upholds (guarded R) (at R []) (\<lambda>w. map_option (\<lambda>(w', r). (fst (sf_close_lock (watched_files sf) uri w'), r)) (m w)) Q"
    unfolding upholds_def
  proof (intro allI impI)
    fix wl wl' r assume at: "at R [] wl" and run: "map_option (\<lambda>(w', r). (fst (sf_close_lock (watched_files sf) uri w'), r)) (m wl) = Some (wl', r)"
    then obtain wl1 where m: "m wl = Some (wl1, r)" "wl' = fst (sf_close_lock (watched_files sf) uri wl1)" by auto
    from closed [of wl1] m(2) have "snd wl' = snd wl1" by simp
    with upholdsD [OF assms(1) at m(1)] assms(2) show "case r of Inl _ \<Rightarrow> guarded R wl' | Inr a \<Rightarrow> Q a wl'"
      by (cases r) (simp_all add: guarded_def)
  qed
qed

section \<open>The Application\<close>

lemma commit_ready_reached: "reached (commit_ready sha key) l = commit_ready sha key l"
  unfolding reached_def commit_ready_def by (metis append_Nil2 subseq_rev_drop_many)

definition answered :: "(string \<Rightarrow> string) \<Rightarrow> string \<Rightarrow> json \<Rightarrow> 'w \<times> app_event list \<Rightarrow> bool" where
  "answered sha key answer wl \<longleftrightarrow> guarded (commit_ready sha key) wl
     \<and> ((\<exists>receipt. rc_outcome receipt = ''applied'' \<and> answer = application_success receipt ''already_applied'')
        \<or> commit_verified sha key (snd wl))"

lemma commit_at:
  assumes "commit_events sha key es stored" "es = es' @ [StoringJournal (tx\<lparr>tx_state := Committing\<rparr>) True]"
  shows "upholds (guarded (commit_ready sha key)) (at (commit_ready sha key) es')
    (commit_application (watched_host ho) (watched_files sf) (watched_calls ap) sha (watched_context ctx) pl key stored tx) (answered sha key)"
proof -
  let ?i = "cp_intended (pv_plan (sp_preview stored))"
  have journal: "upholds (guarded (commit_ready sha key)) (at (commit_ready sha key) es') (write_transaction (watched_files sf) (tx\<lparr>tx_state := Committing\<rparr>)) (\<lambda>_. at (commit_ready sha key) (es @ []))"
    by (rule upholds_mono [OF journal_at]) (auto simp: assms(2) intro: at_guarded)
  have ready: "commit_ready sha key l" if "subseq es l" for l
    using that assms(1) unfolding commit_ready_def by blast
  have commit: "upholds (guarded (commit_ready sha key)) (at (commit_ready sha key) (es @ [])) (attempting (commit_operations (watched_host ho) sha pl tx')) (\<lambda>_. at (commit_ready sha key) es)" for tx'
    using at_ready [OF keeps_attempting [OF any.commits_keep], of es "commit_ready sha key" "[]"] ready by simp
  have verified: "answered sha key answer wl"
    if at: "at (commit_ready sha key) (es @ [Inspecting env]) wl" and found: "manifest_mismatches ?i (found_manifest env pl ?i) = []"
    for answer env and wl :: "'a \<times> app_event list"
  proof -
    have "subseq (es @ [Inspecting env]) (snd wl)" using at by (simp add: at_def)
    with assms(1) found have "commit_verified sha key (snd wl)" unfolding commit_verified_def Let_def by blast
    with at show ?thesis by (simp add: answered_def at_def)
  qed
  have ok: "upholds (guarded (commit_ready sha key)) (at (commit_ready sha key) (es @ [Inspecting env]))
      (application_committed (watched_files sf) (watched_calls ap) sha (watched_context ctx) key stored tx' found') (answered sha key)"
    if "manifest_mismatches ?i (found_manifest env pl ?i) = []" for env tx' found'
    using verified [OF _ that] by (intro upholds_mono [OF at_calm [OF committed_keeps]]) auto
  have undone: "upholds (guarded (commit_ready sha key)) (at (commit_ready sha key) (es @ [Inspecting env]))
      (application_undone (watched_host ho) (watched_files sf) (watched_calls ap) sha (watched_context ctx) pl key stored tx' failed) (answered sha key)" for env tx' failed
    using upholdsD [OF at_ready [OF undone_keeps, of es "commit_ready sha key" "[Inspecting env]"]] ready undone_fails
    unfolding upholds_def by (fastforce split: sum.splits)
  show ?thesis
    unfolding commit_application_def Let_def
    by (intro upholds_then [OF journal] upholds_bind [OF commit] upholds_bind [OF looked_at] upholds_if ok undone) simp_all
qed

lemma withdrawn_at:
  "upholds (guarded (commit_ready sha key)) (at (commit_ready sha key) es) (withdraw (watched_files sf) stored tx f) Q"
  "upholds (guarded (commit_ready sha key)) (at (commit_ready sha key) es) (withdraw_staged (watched_files sf) (watched_calls ap) stored tx f) Q"
  by (rule calm_failure [OF withdraw_calm(1)], rule withdraw_fails, rule calm_failure [OF withdraw_calm(2)], rule withdraw_fails)

lemma staged_and_committed_at:
  assumes "commit_events sha key (es @ [StoringJournal tx True, CreatingArtifacts (tx_artifacts tx) True,
      StoringJournal (tx\<lparr>tx_state := Committing\<rparr>) True]) stored"
  shows "upholds (guarded (commit_ready sha key)) (at (commit_ready sha key) es)
    (stage_and_commit (watched_host ho) (watched_files sf) (watched_calls ap) sha (watched_context ctx) pl key stored tx) (answered sha key)"
proof -
  let ?e1 = "es @ [StoringJournal tx True]" let ?e2 = "?e1 @ [CreatingArtifacts (tx_artifacts tx) True]"
  have committed: "upholds (guarded (commit_ready sha key)) (at (commit_ready sha key) ?e2)
      (commit_application (watched_host ho) (watched_files sf) (watched_calls ap) sha (watched_context ctx) pl key stored tx) (answered sha key)"
    by (rule commit_at [where es = "?e2 @ [StoringJournal (tx\<lparr>tx_state := Committing\<rparr>) True]"]) (use assms in simp_all)
  let ?after = "\<lambda>staged. case staged of
      Inl (f, created) \<Rightarrow> if created then withdraw_staged (watched_files sf) (watched_calls ap) stored tx f else withdraw (watched_files sf) stored tx f
    | Inr _ \<Rightarrow> step_bind (deadline_expired (watched_calls ap) (ax_deadline (watched_context ctx))) (\<lambda>late.
        if late then withdraw_staged (watched_files sf) (watched_calls ap) stored tx application_cancelled
        else commit_application (watched_host ho) (watched_files sf) (watched_calls ap) sha (watched_context ctx) pl key stored tx)"
  have "upholds (guarded (commit_ready sha key)) (\<lambda>wl. case staged of Inl _ \<Rightarrow> at (commit_ready sha key) ?e1 wl | Inr _ \<Rightarrow> at (commit_ready sha key) ?e2 wl) (?after staged) (answered sha key)" for staged
    by (cases staged) (auto intro!: withdrawn_at committed [simplified] upholds_bind [OF at_calm [OF opening_calm(2)]] split: prod.split)
  then have rest: "upholds (guarded (commit_ready sha key)) (at (commit_ready sha key) ?e1)
      (step_bind (attempting (stage_transaction (watched_host ho) (watched_calls ap) (ax_limits (watched_context ctx)) tx)) ?after) (answered sha key)"
    by (rule upholds_bind [OF upholds_attempting [OF stage_at]])
  have journal: "upholds (guarded (commit_ready sha key)) (\<lambda>wl. case written of Inl _ \<Rightarrow> at (commit_ready sha key) es wl | Inr _ \<Rightarrow> at (commit_ready sha key) ?e1 wl)
      (finish_initial_journal_write (watched_files sf) stored tx written) (\<lambda>_. at (commit_ready sha key) ?e1)" for written :: "contract_failure + unit"
  proof (cases written)
    case (Inl f)
    then show ?thesis by (simp add: initial_journal_at)
  next
    case (Inr u)
    then show ?thesis by (simp add: finish_initial_journal_write_def upholds_ok)
  qed
  show ?thesis
    unfolding stage_and_commit_def by (rule upholds_bind [OF upholds_attempting [OF journal_at] upholds_then [OF journal rest]])
qed

lemma apply_reserved_at:
  assumes "pv_reserved (sp_preview stored)"
  shows "upholds (guarded (commit_ready sha key)) (at (commit_ready sha key) [Locking uri Locked, StoringPreview stored True])
    (apply_reserved (watched_host ho) (watched_files sf) (watched_calls ap) sha (watched_context ctx) key stored) (answered sha key)"
proof -
  let ?es = "[Locking uri Locked, StoringPreview stored True]"
  have run: "upholds (guarded (commit_ready sha key)) (prepared_at (commit_ready sha key) sha key ?es stored tx)
      (stage_and_commit (watched_host ho) (watched_files sf) (watched_calls ap) sha (watched_context ctx) pl key stored tx) (answered sha key)" for pl tx
    unfolding prepared_at_def
  proof (intro upholds_ex upholds_pre)
    fix env pl' current transaction_id started
    assume "inspect_manifest env pl' (cp_before (pv_plan (sp_preview stored))) = Inr current
      \<and> preview_manifest_mismatches (pv_plan (sp_preview stored)) current = []
      \<and> tx = new_transaction sha key stored current transaction_id started"
    with assms show "upholds (guarded (commit_ready sha key)) (at (commit_ready sha key) (?es @ [Inspecting env]))
        (stage_and_commit (watched_host ho) (watched_files sf) (watched_calls ap) sha (watched_context ctx) pl key stored tx) (answered sha key)"
      by (intro staged_and_committed_at) (auto simp: commit_events_def)
  qed
  have "upholds (guarded (commit_ready sha key)) (\<lambda>wl. case prepared of Inl _ \<Rightarrow> at (commit_ready sha key) ?es wl | Inr r \<Rightarrow> prepared_at (commit_ready sha key) sha key ?es stored (snd r) wl)
      (case prepared of Inl f \<Rightarrow> step_then (release_preview (watched_files sf) stored) (step_err f)
       | Inr (pl, tx) \<Rightarrow> stage_and_commit (watched_host ho) (watched_files sf) (watched_calls ap) sha (watched_context ctx) pl key stored tx)
      (answered sha key)" for prepared :: "contract_failure + planner \<times> transaction_record"
    by (cases prepared) (auto intro!: upholds_then [OF at_calm [OF calm.writes_keep(2)]] upholds_err run intro: at_guarded)
  then show ?thesis
    unfolding apply_reserved_def by (rule upholds_bind [OF upholds_attempting [OF prepare_at [OF refl]]])
qed

lemma or_applied_at:
  assumes "upholds (guarded (commit_ready sha key)) (at (commit_ready sha key) es) m (answered sha key)"
  shows "upholds (guarded (commit_ready sha key)) (at (commit_ready sha key) es) (or_applied (watched_files sf) key m) (answered sha key)"
proof -
  have found: "upholds (guarded (commit_ready sha key)) (at (commit_ready sha key) es) (applied_answer (watched_files sf) key)
      (\<lambda>found wl. at (commit_ready sha key) es wl \<and> (\<forall>answer. found = Some answer \<longrightarrow>
         (\<exists>receipt. rc_outcome receipt = ''applied'' \<and> answer = application_success receipt ''already_applied'')))"
    unfolding applied_answer_def
    by (rule upholds_bind [OF at_calm [OF calm.reads_keep(6)]]) (auto intro!: upholds_ok split: option.split)
  show ?thesis
    unfolding or_applied_def
  proof (rule upholds_bind [OF found], rule upholds_pre)
    fix found :: "json option"
    assume "\<forall>answer. found = Some answer \<longrightarrow>
      (\<exists>receipt. rc_outcome receipt = ''applied'' \<and> answer = application_success receipt ''already_applied'')"
    then show "upholds (guarded (commit_ready sha key)) (at (commit_ready sha key) es) (case found of None \<Rightarrow> m | Some answer \<Rightarrow> step_ok answer) (answered sha key)"
      using assms by (cases found) (auto intro!: upholds_ok simp: answered_def at_def)
  qed
qed

lemma apply_preview_at:
  "upholds (guarded (commit_ready sha key)) (at (commit_ready sha key) [])
     (apply_preview (watched_host ho) (watched_files sf) (watched_calls ap) sha (watched_context ctx) key) (answered sha key)"
proof -
  have reserved: "upholds (guarded (commit_ready sha key)) (\<lambda>wl. pv_reserved (sp_preview stored) \<and> at (commit_ready sha key) ([Locking uri Locked] @ [StoringPreview stored True]) wl)
      (apply_reserved (watched_host ho) (watched_files sf) (watched_calls ap) sha (watched_context ctx) key stored) (answered sha key)" for uri stored
    using upholds_pre [OF apply_reserved_at] by (simp add: conj_commute)
  have locked: "upholds (guarded (commit_ready sha key)) (at (commit_ready sha key) [])
      (step_then (lock_workspace_for_application (watched_files sf) (watched_calls ap) uri t cd)
        (or_applied (watched_files sf) key (step_bind (reserve_preview (watched_files sf) key)
          (apply_reserved (watched_host ho) (watched_files sf) (watched_calls ap) sha (watched_context ctx) key)))) (answered sha key)" for uri t cd
    by (rule upholds_then [OF lock_at [where es = "[]", unfolded append_Nil]], rule or_applied_at, rule upholds_bind [OF reserve_at reserved])
  show ?thesis
    unfolding apply_preview_def Let_def
  proof (rule or_applied_at, rule upholds_bind [OF at_calm [OF keeps_attempting [OF calm.reads_keep(1)]]])
    fix read :: "contract_failure + stored_preview"
    show "upholds (guarded (commit_ready sha key)) (at (commit_ready sha key) []) (case read of
        Inl f \<Rightarrow> if code f = ''preview_unknown'' then or_applied (watched_files sf) key (step_err f) else step_err f
      | Inr preliminary \<Rightarrow> with_lock_file (watched_files sf) (pv_workspace_uri (sp_preview preliminary))
          (step_then (lock_workspace_for_application (watched_files sf) (watched_calls ap) (pv_workspace_uri (sp_preview preliminary))
              (ax_lock_timeout (watched_context ctx)) (ax_deadline (watched_context ctx)))
            (or_applied (watched_files sf) key (step_bind (reserve_preview (watched_files sf) key)
              (apply_reserved (watched_host ho) (watched_files sf) (watched_calls ap) sha (watched_context ctx) key))))) (answered sha key)"
    proof (cases read)
      case (Inl f)
      then show ?thesis by (auto intro!: or_applied_at upholds_err intro: at_guarded)
    next
      case (Inr preliminary)
      then show ?thesis by (auto intro!: with_lock_file_at locked simp: answered_def guarded_def)
    qed
  qed
qed


end
