(* ===== verification/Recovery_Laws.thy ===== *)
theory Recovery_Laws
  imports Application_Laws
begin

text \<open>
  What a Recovery requires before it changes the Workspace, and that it never stores the journal again.
\<close>

section \<open>Watching is transparent\<close>

lemma finish_recovery_shadow:
  "shadows (finish_recovery (watched_host ho) (watched_files sf) (watched_calls ap) sha (watched_context ctx) pl key tx accept current outcome)
     (finish_recovery ho sf ap sha ctx pl key tx accept current outcome)"
  unfolding finish_recovery_def Let_def
  by (simp only: context_simps, intro shadow_rules call_shadows final_manifest_shadow staging_shadow watched.reads watched.previews watched.receipts watched.removals)

lemma recover_shadow:
  "shadows (recover_transaction (watched_host ho) (watched_files sf) (watched_calls ap) sha (watched_context ctx) key supplied accept)
     (recover_transaction ho sf ap sha ctx key supplied accept)"
proof -
  have lock: "shadows (lock_workspace (watched_files sf) (watched_calls ap) uri t) (lock_workspace sf ap uri t)" for uri t
    using locking_shadow [of sf ap uri t None] by (simp add: lock_workspace_for_application_def lock_workspace_def)
  have restore: "shadows (restore_or_accept (watched_host ho) sha pl tx accept current) (restore_or_accept ho sha pl tx accept current)" for pl tx current
    unfolding restore_or_accept_def by (intro shadow_rules call_shadows watched.rollbacks)
  show ?thesis
    unfolding recover_transaction_def recover_locked_def
    by (simp, intro shadow_rules lock restore finish_recovery_shadow watched.locks watched.reads watched.receipts planner_shadow observe_shadow)
qed

section \<open>No journal is stored\<close>

definition unjournaled :: "app_event set" where
  "unjournaled = {ev. \<forall>tx b. ev \<noteq> StoringJournal tx b}"

lemma unjournaled_simps [simp]: "Changing \<in> unjournaled" "Inspecting env \<in> unjournaled" "Locking uri tried \<in> unjournaled"
  "StoringPreview p b \<in> unjournaled" "LoadedJournal key tx \<in> unjournaled" "CreatingArtifacts q b \<in> unjournaled"
  by (simp_all add: unjournaled_def)

lemma changing_unjournaled [simp]: "obeys (grew unjournaled) (changing f)"
  by (auto simp: obeys_def grew_def changing_def noting_def split: prod.splits)

interpretation unjournaled: respected_host "grew unjournaled" "watched_host ho" for ho :: "('w, 'h) host"
  by unfold_locales (simp_all add: watched_host_def obeys_grew)

interpretation unjournaled: obeyed_files "grew unjournaled" "watched_files sf" for sf :: "'w state_files"
  by unfold_locales (auto simp: watched_files_def intro!: obeys_grew split: sum.splits)

lemma calls_unjournaled:
  "obeys (grew unjournaled) (ap_now (watched_calls ap))" "obeys (grew unjournaled) (ap_timestamp (watched_calls ap))"
  "obeys (grew unjournaled) (ap_open_workspace (watched_calls ap) p)" "obeys (grew unjournaled) (ap_remove_all (watched_calls ap) p)"
  "obeys (grew unjournaled) (ap_flush (watched_calls ap) p)" "obeys (grew unjournaled) (ap_exists (watched_calls ap) p)"
  "obeys (grew unjournaled) (ap_read_text (watched_calls ap) p)" "obeys (grew unjournaled) (ho_look (watched_host ho))"
  by (simp_all add: watched_calls_def watched_host_def obeys_grew)

lemmas calls_keep = calls_unjournaled [THEN unjournaled.keeps_ask] calls_unjournaled(3-5) [THEN unjournaled.keeps_call_or]

lemma lock_unjournaled: "keeps (grew unjournaled) (lock_workspace (watched_files sf) (watched_calls ap) uri t)"
proof -
  have "grew unjournaled wl (fst y)" if "lock_loop sf' ap' uri cd d wl = Some y" "sf' = watched_files sf" "ap' = watched_calls ap" for sf' ap' cd d wl y
    using that
  proof (induction sf' ap' uri cd d wl y rule: lock_loop.raw_induct [rotated, consumes 1, case_names 1])
    case (1 loop sf' ap' uri cd d wl y)
    obtain w l w1 l1 x where t: "wl = (w, l)" "lock_turn sf' ap' uri cd d wl = ((w1, l1), x)" by (metis surj_pair)
    then obtain tried where "l1 = l @ [Locking uri tried]" using lock_turn_at 1(3,4) by metis
    with t(1) have one: "grew unjournaled wl (w', l1)" for w' by (simp add: grew_def)
    show ?case
    proof (cases x)
      case None
      with 1(2-) t have "loop sf' ap' uri cd d (ap_sleep ap lock_poll w1, l1) = Some y" by (simp add: sleep)
      from grown.chained [OF one 1(1) [OF this 1(3,4)]] show ?thesis .
    qed (use 1(2) t one in auto)
  qed
  then have "keeps (grew unjournaled) (lock_loop (watched_files sf) (watched_calls ap) uri cd d)" for cd d
    unfolding keeps_def by fastforce
  then show ?thesis
    unfolding lock_workspace_def lock_workspace_until_def Let_def by (intro grown.keep_rules calls_keep)
qed

lemma cleanup_unjournaled: "keeps (grew unjournaled) (cleanup_transaction_artifacts (watched_calls ap) tx)"
  unfolding cleanup_transaction_artifacts_def flush_parent_def by (intro grown.keep_rules calls_keep)

lemma finish_recovery_unjournaled:
  "keeps (grew unjournaled) (finish_recovery (watched_host ho) (watched_files sf) (watched_calls ap) sha ctx pl key tx accept current outcome)"
proof -
  have final: "keeps (grew unjournaled) (final_manifest (watched_host ho) pl tx)"
    unfolding final_manifest_def inspect_transaction_manifest_def
    by (intro grown.keep_rules keeps_attempting unjournaled.inspections_keep calls_keep)
  show ?thesis
    unfolding finish_recovery_def Let_def
    by (intro grown.keep_rules keeps_attempting final calls_keep cleanup_unjournaled unjournaled.reads_keep
        unjournaled.previews_keep unjournaled.receipts_keep unjournaled.removals_keep)
qed

lemma restore_unjournaled: "keeps (grew unjournaled) (restore_or_accept (watched_host ho) sha pl tx accept current)"
  unfolding restore_or_accept_def by (intro grown.keep_rules keeps_attempting unjournaled.rollbacks_keep calls_keep)

lemma recover_locked_unjournaled:
  "keeps (grew unjournaled) (recover_locked (watched_host ho) (watched_files sf) (watched_calls ap) sha ctx key supplied accept)"
  unfolding recover_locked_def open_planner_def observe_or_def
  by (intro grown.keep_rules restore_unjournaled finish_recovery_unjournaled calls_keep unjournaled.reads_keep unjournaled.receipts_keep)

section \<open>What a change requires\<close>

text \<open>
  The events before a Recovery changes anything: the lock, the journal read under it, and an inspection
  of all it speaks of with the digest that both the journal and the request have.
\<close>

definition recovery_events :: "(string \<Rightarrow> string) \<Rightarrow> string \<Rightarrow> string \<Rightarrow> bool \<Rightarrow> app_event list \<Rightarrow> bool" where
  "recovery_events sha key supplied accept es \<longleftrightarrow>
     (\<exists>uri tx env pl current. es = [Locking uri Locked, LoadedJournal key tx, Inspecting env]
      \<and> (tx_state tx \<noteq> CleanupPending \<or> accept) \<and> supplied = tx_manifest_digest tx
      \<and> inspect_manifest env pl (transaction_template tx) = Inr current
      \<and> manifest_digest sha current = tx_manifest_digest tx)"

definition recovery_ready :: "(string \<Rightarrow> string) \<Rightarrow> string \<Rightarrow> string \<Rightarrow> bool \<Rightarrow> app_event list \<Rightarrow> bool" where
  "recovery_ready sha key supplied accept l \<longleftrightarrow> (\<exists>es. recovery_events sha key supplied accept es \<and> subseq es l)"

text \<open>A Recovery that accepts the current state is never ready for a change.\<close>

abbreviation rollback_ready :: "(string \<Rightarrow> string) \<Rightarrow> string \<Rightarrow> string \<Rightarrow> bool \<Rightarrow> app_event list \<Rightarrow> bool" where
  "rollback_ready sha key supplied accept l \<equiv> \<not> accept \<and> recovery_ready sha key supplied accept l"

definition recovered :: "(string \<Rightarrow> string) \<Rightarrow> string \<Rightarrow> string \<Rightarrow> bool \<Rightarrow> 'w \<times> app_event list \<Rightarrow> bool" where
  "recovered sha key supplied accept wl \<longleftrightarrow>
     guarded (rollback_ready sha key supplied accept) wl \<and> recovery_ready sha key supplied accept (snd wl)"

lemma loaded_at:
  "upholds (guarded R) (at R es) (read_transaction (watched_files sf) key) (\<lambda>tx. at R (es @ [LoadedJournal key tx]))"
  unfolding read_transaction_def validate_record_version_def
proof (rule upholds_bind [OF upholds_attempting [where E' = "at R es"]])
  show "upholds (at R es) (at R es) (read_record (sf_load_transaction (watched_files sf) key)) (\<lambda>tx. at R (es @ [LoadedJournal key tx]))"
    unfolding read_record_def
  proof (rule upholds_call)
    fix wl wl' r
    assume at: "at R es wl" and run: "(map_prod id (map_sum read_failure id) \<circ> sf_load_transaction (watched_files sf) key) wl = (wl', r)"
    obtain w l w1 x where wl: "wl = (w, l)" "sf_load_transaction sf key w = (w1, x)" by (metis surj_pair)
    show "case r of Inl _ \<Rightarrow> at R es wl' | Inr tx \<Rightarrow> at R (es @ [LoadedJournal key tx]) wl'"
    proof (cases x)
      case (Inl f)
      with run wl have "wl' = (w1, l)" "isl r" by (auto simp: watched_files_def noting_def)
      with at_more [OF at [unfolded wl(1)], of "[]"] show ?thesis by (cases r) simp_all
    next
      case (Inr tx)
      with run wl have "wl' = (w1, l @ [LoadedJournal key tx])" "r = Inr tx" by (auto simp: watched_files_def noting_def)
      with at_note [OF at [unfolded wl(1)], of "LoadedJournal key tx" w1] show ?thesis by simp
    qed
  qed
  fix r :: "contract_failure + transaction_record"
  show "upholds (guarded R) (\<lambda>wl. case r of Inl _ \<Rightarrow> at R es wl | Inr tx \<Rightarrow> at R (es @ [LoadedJournal key tx]) wl)
      (case r of Inl f \<Rightarrow> step_err (if code f = ''preview_unknown'' then recovery_not_found else f)
       | Inr tx \<Rightarrow> step_then (require (tx_format_version tx = mutation_state_version) stored_version_failure) (step_ok tx))
      (\<lambda>tx. at R (es @ [LoadedJournal key tx]))"
  proof (cases r)
    case (Inl f)
    then show ?thesis by (auto intro: upholds_err at_guarded)
  next
    case (Inr tx)
    then show ?thesis
      by (auto intro!: upholds_then [OF upholds_require, where R = "at R (es @ [LoadedJournal key tx])"] upholds_ok intro: at_guarded)
  qed
qed

lemma upholds_require_then:
  "(c \<Longrightarrow> upholds E P k Q) \<Longrightarrow> (\<And>w. P w \<Longrightarrow> E w) \<Longrightarrow> upholds E P (step_then (require c f) k) Q"
  by (rule upholds_then [OF upholds_require, where R = "\<lambda>w. P w \<and> c"]) (auto intro: upholds_pre)

lemma observed_then:
  assumes "\<And>env a. inspect env = Inr a \<Longrightarrow> upholds (guarded R) (at R (es @ [Inspecting env])) (k a) Q"
  shows "upholds (guarded R) (at R es) (step_bind (observe_or f (watched_host ho) inspect) k) Q"
proof -
  have "upholds (guarded R) (at R es) (observe_or f (watched_host ho) inspect)
      (\<lambda>a wl. \<exists>env. at R (es @ [Inspecting env]) wl \<and> inspect env = Inr a)"
    unfolding observe_or_def
    by (rule upholds_bind [OF looked_at]) (auto intro!: upholds_err upholds_ok intro: at_guarded split: sum.split)
  then show ?thesis
    by (rule upholds_bind) (intro upholds_ex upholds_pre assms)
qed

lemma finish_recovery_calm:
  "keeps (grew calm) (finish_recovery (watched_host ho) (watched_files sf) (watched_calls ap) sha ctx pl key tx accept current outcome)"
proof -
  have final: "keeps (grew calm) (final_manifest (watched_host ho) pl tx)"
    unfolding final_manifest_def inspect_transaction_manifest_def look_def
    by (intro grown.keep_rules keeps_attempting calls_calm keeps_mapped_call calls_grew)
  show ?thesis
    unfolding finish_recovery_def Let_def
    by (intro grown.keep_rules keeps_attempting final calls_calm cleanup_calm calm.reads_keep
        calm.previews_keep calm.receipts_keep calm.removals_keep)
qed

lemma restore_at:
  assumes "recovery_events sha key supplied accept es"
  shows "upholds (guarded (rollback_ready sha key supplied accept)) (at (rollback_ready sha key supplied accept) es)
     (restore_or_accept (watched_host ho) sha pl tx accept current) (\<lambda>_. at (rollback_ready sha key supplied accept) es)"
proof (cases accept)
  case True
  then show ?thesis by (simp add: restore_or_accept_def upholds_ok)
next
  case False
  then have "rollback_ready sha key supplied accept l" if "subseq es l" for l
    using assms that by (auto simp: recovery_ready_def)
  moreover have "keeps (grew UNIV) (restore_or_accept (watched_host ho) sha pl tx accept current)"
    unfolding restore_or_accept_def
    by (intro grown.keep_rules keeps_attempting any.rollbacks_keep calls_calm [THEN keeps_more])
  ultimately show ?thesis by (intro at_ready [where es' = "[]", unfolded append_Nil2])
qed

lemma recover_locked_at:
  fixes sha :: "string \<Rightarrow> string" and key supplied :: string and accept :: bool
  defines "R \<equiv> rollback_ready sha key supplied accept"
  shows "upholds (guarded R) (at R [Locking uri Locked])
     (recover_locked (watched_host ho) (watched_files sf) (watched_calls ap) sha (watched_context ctx) key supplied accept)
     (\<lambda>_. recovered sha key supplied accept)"
  unfolding recover_locked_def
proof (rule upholds_bind [OF loaded_at], intro upholds_require_then at_guarded; (assumption)?)
  fix tx
  let ?es = "[Locking uri Locked] @ [LoadedJournal key tx]"
  assume c: "tx_state tx \<noteq> CleanupPending \<or> accept" "supplied = tx_manifest_digest tx"
  have finish: "upholds (guarded R) (at R (?es @ [Inspecting env]))
      (step_bind (restore_or_accept (watched_host ho) sha pl tx accept current)
        (finish_recovery (watched_host ho) (watched_files sf) (watched_calls ap) sha (watched_context ctx) pl key tx accept current))
      (\<lambda>_. recovered sha key supplied accept)"
    if i: "inspect_manifest env pl (transaction_template tx) = Inr current" "manifest_digest sha current = tx_manifest_digest tx" for env pl current
  proof -
    have es: "recovery_events sha key supplied accept (?es @ [Inspecting env])"
      using c i by (auto simp: recovery_events_def)
    have "recovered sha key supplied accept wl" if "at R (?es @ [Inspecting env]) wl" for wl :: "'a \<times> app_event list"
      using that es by (auto simp: recovered_def recovery_ready_def at_def R_def)
    then show ?thesis
      unfolding R_def
      by (intro upholds_bind [OF restore_at [OF es]] upholds_mono [OF at_calm [OF finish_recovery_calm]]) (auto simp: R_def)
  qed
  show "upholds (guarded R) (at R ?es)
      (step_then (ensure_receipt_capacity (watched_files sf) (ax_max_receipts (watched_context ctx)))
        (step_bind (open_planner (watched_calls ap) (watched_context ctx) (tx_workspace_path tx) Utf8) (\<lambda>pl.
         step_bind (observe_or unsupported_filesystem (watched_host ho) (\<lambda>env. inspect_manifest env pl (transaction_template tx))) (\<lambda>current.
         step_then (require (manifest_digest sha current = tx_manifest_digest tx) (recovery_failure ''recovery_conflict'' ''after_change''))
          (step_bind (restore_or_accept (watched_host ho) sha pl tx accept current)
            (finish_recovery (watched_host ho) (watched_files sf) (watched_calls ap) sha (watched_context ctx) pl key tx accept current))))))
      (\<lambda>_. recovered sha key supplied accept)"
    by (intro upholds_then [OF at_calm [OF calm.receipts_keep(1)]] upholds_bind [OF at_calm [OF opening_calm(1)]] observed_then
        upholds_require_then finish at_guarded)
qed

lemma recover_at:
  fixes sha :: "string \<Rightarrow> string" and key supplied :: string and accept :: bool
  defines "R \<equiv> rollback_ready sha key supplied accept"
  shows "upholds (guarded R) (at R [])
     (recover_transaction (watched_host ho) (watched_files sf) (watched_calls ap) sha (watched_context ctx) key supplied accept)
     (\<lambda>_. recovered sha key supplied accept)"
proof -
  have locked: "upholds (guarded R) (at R []) (lock_workspace (watched_files sf) (watched_calls ap) uri t) (\<lambda>_. at R [Locking uri Locked])" for uri t
    using lock_at [where es = "[]" and cd = None, unfolded append_Nil]
    by (simp add: lock_workspace_for_application_def lock_workspace_def)
  have weaken: "upholds (guarded R) (at R []) (read_transaction (watched_files sf) key) (\<lambda>_. at R [])"
    by (rule at_calm [OF calm.reads_keep(3)])
  show ?thesis
    unfolding recover_transaction_def
    by (intro upholds_bind [OF weaken] with_lock_file_at upholds_then [OF locked])
      (auto simp: recovered_def guarded_def at_def R_def intro: recover_locked_at)
qed

section \<open>The Recovery\<close>

lemma rollback_ready_reached:
  "reached (rollback_ready sha key supplied accept) l = rollback_ready sha key supplied accept l"
  unfolding reached_def recovery_ready_def by (metis append_Nil2 subseq_rev_drop_many)

lemma with_lock_file_unjournaled:
  assumes "keeps (grew unjournaled) m"
  shows "keeps (grew unjournaled) (with_lock_file (watched_files sf) uri m)"
proof -
  have "grew unjournaled wl (fst (sf_close_lock (watched_files sf) uri wl))" for wl
    by (simp add: watched_files_def grew_def quiet_def split: prod.splits)
  then have "keeps (grew unjournaled) (\<lambda>w. map_option (\<lambda>(w', r). (fst (sf_close_lock (watched_files sf) uri w'), r)) (m w))"
    using assms unfolding keeps_def by (auto split: option.splits prod.splits) (metis fst_conv grown.chained)
  moreover have "keeps (grew unjournaled) (call_or state_failure (sf_open_lock (watched_files sf) uri))"
    by (rule unjournaled.keeps_call_or) (simp add: watched_files_def obeys_grew)
  ultimately show ?thesis
    unfolding with_lock_file_def open_application_lock_def by (intro grown.keep_rules)
qed

lemma recover_unjournaled:
  "keeps (grew unjournaled) (recover_transaction (watched_host ho) (watched_files sf) (watched_calls ap) sha ctx key supplied accept)"
  unfolding recover_transaction_def
  by (intro grown.keep_rules with_lock_file_unjournaled lock_unjournaled recover_locked_unjournaled unjournaled.reads_keep)


end
