(* ===== verification/Application_Samples.thy ===== *)
theory Application_Samples
  imports Commit_Samples Prune_Laws Recovery_Laws
begin

text \<open>
  A machine in memory: the host of a commit with the state files beside it. An Application, a Recovery and
  a prune run on it.
\<close>

section \<open>A machine in memory\<close>

record machine =
  mc_memory :: memory
  mc_previews :: "(string \<times> stored_preview) list"
  mc_receipts :: "(string \<times> stored_receipt) list"
  mc_journals :: "(string \<times> transaction_record) list"
  mc_clock :: nat

definition lifted :: "(memory \<Rightarrow> memory \<times> 'a) \<Rightarrow> machine \<Rightarrow> machine \<times> 'a" where
  "lifted f m = map_prod (\<lambda>mem. m\<lparr>mc_memory := mem\<rparr>) id (f (mc_memory m))"

definition machine_host :: "(machine, nat) host" where
  "machine_host = \<lparr>
     ho_look = lifted (ho_look memory_host),
     ho_open = (\<lambda>m r. lifted (ho_open memory_host m r)),
     ho_accessed = (\<lambda>h. lifted (ho_accessed memory_host h)),
     ho_read_handle = (\<lambda>h. lifted (ho_read_handle memory_host h)),
     ho_identity = (\<lambda>h. lifted (ho_identity memory_host h)),
     ho_truncate = (\<lambda>h. lifted (ho_truncate memory_host h)),
     ho_write = (\<lambda>h b. lifted (ho_write memory_host h b)),
     ho_sync = (\<lambda>h. lifted (ho_sync memory_host h)),
     ho_set_accessed = (\<lambda>h a. lifted (ho_set_accessed memory_host h a)),
     ho_copy_metadata = (\<lambda>h g. lifted (ho_copy_metadata memory_host h g)),
     ho_read_file = (\<lambda>p. lifted (ho_read_file memory_host p)),
     ho_lstat = (\<lambda>r. lifted (ho_lstat memory_host r)),
     ho_first_entry = (\<lambda>r. lifted (ho_first_entry memory_host r)),
     ho_rename = (\<lambda>r r'. lifted (ho_rename memory_host r r')),
     ho_remove_file = (\<lambda>r. lifted (ho_remove_file memory_host r)),
     ho_remove_dir_all = (\<lambda>r. lifted (ho_remove_dir_all memory_host r)),
     ho_flush_parent = (\<lambda>p. lifted (ho_flush_parent memory_host p)),
     ho_read_marker = (\<lambda>r n. lifted (ho_read_marker memory_host r n)),
     ho_store_progress = (\<lambda>p progress. lifted (ho_store_progress memory_host p progress)),
     ho_load_progress = (\<lambda>p n. lifted (ho_load_progress memory_host p n)),
     ho_transaction_len = ho_transaction_len memory_host,
     ho_progress_len = ho_progress_len memory_host\<rparr>"

definition keep_row :: "string \<Rightarrow> 'a \<Rightarrow> (string \<times> 'a) list \<Rightarrow> (string \<times> 'a) list" where
  "keep_row key x rows = (key, x) # filter (\<lambda>r. fst r \<noteq> key) rows"

definition drop_row :: "string \<Rightarrow> (string \<times> 'a) list \<Rightarrow> (string \<times> 'a) list" where
  "drop_row key rows = filter (\<lambda>r. fst r \<noteq> key) rows"

definition found_row :: "(string \<times> 'a) list \<Rightarrow> string \<Rightarrow> read_fault + 'a" where
  "found_row rows key = (case map_of rows key of None \<Rightarrow> Inl FileNotFound | Some x \<Rightarrow> Inr x)"

definition machine_files :: "machine state_files" where
  "machine_files = \<lparr>
     sf_now = (\<lambda>m. (m, int (mc_clock m))),
     sf_preview_ids = (\<lambda>m. (m, Inr (map fst (mc_previews m)))),
     sf_receipt_ids = (\<lambda>m. (m, Inr (map fst (mc_receipts m)))),
     sf_transaction_ids = (\<lambda>m. (m, Inr (map fst (mc_journals m)))),
     sf_load_preview = (\<lambda>key m. (m, found_row (mc_previews m) key)),
     sf_load_receipt = (\<lambda>key m. (m, found_row (mc_receipts m) key)),
     sf_load_transaction = (\<lambda>key m. (m, found_row (mc_journals m) key)),
     sf_store_preview = (\<lambda>p m. (m\<lparr>mc_previews := keep_row (pv_id (sp_preview p)) p (mc_previews m)\<rparr>, Inr ())),
     sf_store_receipt = (\<lambda>r m. (m\<lparr>mc_receipts := keep_row (rc_id (sr_receipt r)) r (mc_receipts m)\<rparr>, Inr ())),
     sf_store_transaction = (\<lambda>tx m. (m\<lparr>mc_journals := keep_row (tx_id tx) tx (mc_journals m)\<rparr>, Inr ())),
     sf_remove_preview = (\<lambda>key m. (m\<lparr>mc_previews := drop_row key (mc_previews m)\<rparr>, Inr ())),
     sf_remove_receipt = (\<lambda>key m. (m\<lparr>mc_receipts := drop_row key (mc_receipts m)\<rparr>, Inr ())),
     sf_remove_transaction = (\<lambda>key m. (m\<lparr>mc_journals := drop_row key (mc_journals m)\<rparr>, Inr ())),
     sf_preview_exists = (\<lambda>key m. (m, \<not> isl (found_row (mc_previews m) key))),
     sf_receipt_exists = (\<lambda>key m. (m, \<not> isl (found_row (mc_receipts m) key))),
     sf_transaction_exists = (\<lambda>key m. (m, \<not> isl (found_row (mc_journals m) key))),
     sf_preview_size = (\<lambda>key m. (m, Some 1)),
     sf_preview_len = (\<lambda>p. Some 1),
     sf_open_lock = (\<lambda>uri m. (m, Inr ())),
     sf_try_lock = (\<lambda>uri m. (m, Locked)),
     sf_close_lock = (\<lambda>uri m. (m, ())),
     sf_random = (\<lambda>m. (m\<lparr>mc_clock := mc_clock m + 1\<rparr>, Inr [char_of (65 + mc_clock m)])),
     sf_rfc3339 = (\<lambda>t. [])\<rparr>"

definition add_node :: "path \<Rightarrow> (nat \<Rightarrow> metadata \<times> string) \<Rightarrow> machine \<Rightarrow> machine \<times> (unit + unit)" where
  "add_node p node m =
     (if map_of (fst (mc_memory m)) p \<noteq> None then (m, Inl ())
      else (m\<lparr>mc_memory := (fst (mc_memory m) @ [(p, node (100 + length (fst (mc_memory m))))], snd (mc_memory m))\<rparr>, Inr ()))"

definition drop_nodes :: "(path \<Rightarrow> bool) \<Rightarrow> machine \<Rightarrow> machine \<times> (unit + unit)" where
  "drop_nodes gone m = (m\<lparr>mc_memory := (filter (\<lambda>e. \<not> gone (fst e)) (fst (mc_memory m)), snd (mc_memory m))\<rparr>, Inr ())"

definition bytes_at :: "machine \<Rightarrow> path \<Rightarrow> string option" where
  "bytes_at m p = map_option snd (map_of (fst (mc_memory m)) p)"

definition machine_calls :: "machine application_host" where
  "machine_calls = \<lparr>
     ap_now = (\<lambda>m. (m, mc_clock m)),
     ap_sleep = (\<lambda>d m. m\<lparr>mc_clock := mc_clock m + d\<rparr>),
     ap_timestamp = (\<lambda>m. (m, [])),
     ap_open_workspace = (\<lambda>p m. (m, Inr (Some 1))),
     ap_create_directory = (\<lambda>p. add_node p (\<lambda>n. sample_node DirectoryNode n 2 [])),
     ap_create_new = (\<lambda>p. add_node p (\<lambda>n. sample_node RegularNode n 1 [])),
     ap_restrict = (\<lambda>p m. (m, Inr ())),
     ap_write_new = (\<lambda>p b m. (m\<lparr>mc_memory := (map (\<lambda>(q, x). (q, if q = p then put_bytes b x else x)) (fst (mc_memory m)), snd (mc_memory m))\<rparr>, Inr ())),
     ap_remove_file = (\<lambda>p. drop_nodes (\<lambda>q. q = p)),
     ap_remove_directory = (\<lambda>p. drop_nodes (\<lambda>q. q = p)),
     ap_remove_all = (\<lambda>p. drop_nodes (\<lambda>q. starts_with q p)),
     ap_copy = (\<lambda>p q copied m. case bytes_at m p of
         None \<Rightarrow> (m, Inl ())
       | Some b \<Rightarrow> map_prod id (map_sum id (\<lambda>_. copied + length b)) (add_node q (\<lambda>n. sample_node RegularNode n 1 b) m)),
     ap_flush = (\<lambda>p m. (m, Inr ())),
     ap_exists = (\<lambda>p m. (m, bytes_at m p \<noteq> None)),
     ap_read_text = (\<lambda>p m. (m, bytes_at m p))\<rparr>"

definition machine_context :: "machine application_context" where
  "machine_context = \<lparr>ax_limits = sample_planner, ax_max_receipts = 10, ax_lock_timeout = ''5s'', ax_reauthorize = None,
     ax_post_commit = None, ax_preauthorized = False, ax_deadline = None\<rparr>"

section \<open>An Application\<close>

definition sample_preview :: "planned_workspace_edit \<Rightarrow> stored_preview" where
  "sample_preview planned = \<lparr>sp_format_version = 1, sp_created = 0, sp_expires = 1000, sp_workspace_path = root_path,
     sp_authorization_digest = [], sp_recovery_manifest_digest = None,
     sp_preview = \<lparr>pv_id = ''prv_1'', pv_workspace_uri = ''file:///w'', pv_server = None, pv_session_identity = [],
       pv_position_encoding = ''utf-8'', pv_expires_at = [], pv_source = JNull, pv_summary = pw_summary planned,
       pv_edit = JNull, pv_command = None, pv_annotations = JNull, pv_plan = pw_plan planned, pv_preconditions = [],
       pv_conflicts = [], pv_stale_reasons = [], pv_diff = None, pv_reserved = False\<rparr>\<rparr>"

definition sample_machine :: "planned_workspace_edit \<Rightarrow> machine" where
  "sample_machine planned = \<lparr>mc_memory = (sample_disk, None), mc_previews = [(''prv_1'', sample_preview planned)],
     mc_receipts = [], mc_journals = [], mc_clock = 0\<rparr>"

definition planned_holds :: "(planned_workspace_edit \<Rightarrow> bool) \<Rightarrow> bool" where
  "planned_holds holds \<longleftrightarrow> (case plan_workspace_edit_with_document_preconditions (sample_env sample_disk) sample_planner
       (sample_edit_of commit_changes) [] of Some (Inr planned) \<Rightarrow> holds planned | _ \<Rightarrow> False)"

lemma planned_holdsD: "planned_holds holds \<Longrightarrow> holds sample_planned_commit"
  by (simp add: planned_holds_def sample_planned_commit_def split: option.split_asm sum.split_asm)

definition answered_with :: "(machine \<Rightarrow> bool) \<Rightarrow> (machine \<times> (contract_failure + json)) option \<Rightarrow> bool" where
  "answered_with holds run \<longleftrightarrow> (case run of Some (m, Inr answer) \<Rightarrow> holds m | _ \<Rightarrow> False)"

lemma answered_withE:
  assumes "answered_with holds run"
  obtains m answer where "run = Some (m, Inr answer)" "holds m"
  using assms that by (auto simp: answered_with_def split: option.split_asm sum.split_asm)

definition applied_run :: "planned_workspace_edit \<Rightarrow> (machine \<times> (contract_failure + json)) option" where
  "applied_run planned =
     apply_preview machine_host machine_files machine_calls (\<lambda>s. s) machine_context ''prv_1'' (sample_machine planned)"

text \<open>The file is gone, the Receipt is stored, the journal, the Preview and the artifacts are removed.\<close>

definition application_works :: "planned_workspace_edit \<Rightarrow> bool" where
  "application_works planned \<longleftrightarrow> answered_with (\<lambda>m. map fst (fst (mc_memory m)) = map fst (butlast sample_disk)
     \<and> map fst (mc_receipts m) = [''prv_1''] \<and> mc_journals m = [] \<and> mc_previews m = []) (applied_run planned)"

lemma apply_succeeds: "planned_holds application_works"
  by code_simp


section \<open>A Recovery\<close>

text \<open>After a commit that was not followed up, its journal is found with the digest of what the disk then holds.\<close>

definition abandoned_transaction :: "planned_workspace_edit \<Rightarrow> manifest_entry list \<Rightarrow> transaction_record" where
  "abandoned_transaction planned found = (commit_transaction (pw_plan planned))
     \<lparr>tx_state := RecoveryRequired, tx_observed := found, tx_manifest_digest := manifest_digest (\<lambda>s. s) found\<rparr>"

definition found_on :: "machine \<Rightarrow> planned_workspace_edit \<Rightarrow> manifest_entry list" where
  "found_on m planned = found_manifest (sample_env (fst (mc_memory m))) sample_planner
     (transaction_template (commit_transaction (pw_plan planned)))"

definition abandoned_machine :: "planned_workspace_edit \<Rightarrow> machine" where
  "abandoned_machine planned =
     (let m = (sample_machine planned)\<lparr>mc_memory := (staged_disk, None)\<rparr>;
          after = (case commit_operations machine_host (\<lambda>s. s) sample_planner (commit_transaction (pw_plan planned)) m of
            Some (m', _) \<Rightarrow> m' | None \<Rightarrow> m)
      in after\<lparr>mc_journals := [(''t'', abandoned_transaction planned (found_on after planned))]\<rparr>)"

definition abandoned_digest :: "machine \<Rightarrow> string" where
  "abandoned_digest m = tx_manifest_digest (snd (hd (mc_journals m)))"

definition recovered_run :: "planned_workspace_edit \<Rightarrow> (machine \<times> (contract_failure + json)) option" where
  "recovered_run planned = (let m = abandoned_machine planned in
     recover_transaction machine_host machine_files machine_calls (\<lambda>s. s) machine_context ''t'' (abandoned_digest m) False m)"

definition recovery_works :: "planned_workspace_edit \<Rightarrow> bool" where
  "recovery_works planned \<longleftrightarrow> answered_with (\<lambda>m. map_of (fst (mc_memory m)) (Plan_Samples.at [''f'']) = map_of sample_disk (Plan_Samples.at [''f''])
     \<and> mc_journals m = []) (recovered_run planned)"

lemma recovery_succeeds: "planned_holds recovery_works"
  by code_simp


section \<open>A prune\<close>

definition sample_receipt :: "string \<Rightarrow> string \<Rightarrow> string \<Rightarrow> string option \<Rightarrow> bool \<Rightarrow> stored_receipt" where
  "sample_receipt key kind outcome linked pending = \<lparr>sr_format_version = 1, sr_completed = 0, sr_expires = 1000,
     sr_receipt = \<lparr>rc_id = key, rc_kind = kind, rc_transaction_id = ''t'', rc_workspace_uri = ''file:///w'', rc_server = None,
       rc_session_identity = None, rc_preview_id = None, rc_linked_id = linked, rc_preauthorized = False,
       rc_started_at = [], rc_completed_at = [], rc_outcome = outcome, rc_filesystem_state = ''unchanged'',
       rc_summary = empty_summary, rc_before = [], rc_intended = [], rc_observed = [], rc_session_synchronized = False,
       rc_cleanup_pending = pending, rc_durability = JNull, rc_manifest_digest = [], rc_failure_stage = None,
       rc_failed_change = None\<rparr>\<rparr>"

definition recovered_machine :: machine where
  "recovered_machine = \<lparr>mc_memory = ([], None), mc_previews = [],
     mc_receipts = [(''prv_2'', sample_receipt ''prv_2'' ''receipt'' ''recovery_required'' None True),
       (''rcp_1'', sample_receipt ''rcp_1'' ''recovery_receipt'' ''restored'' (Some ''prv_2'') False),
       (''prv_3'', sample_receipt ''prv_3'' ''receipt'' ''applied'' None True)],
     mc_journals = [], mc_clock = 0\<rparr>"

lemma prune_succeeds:
  "(case prune_state machine_files [''prv_2''] recovered_machine of
      Some (m, Inr removed) \<Rightarrow> removed = [''prv_2'', ''rcp_1''] \<and> map fst (mc_receipts m) = [''prv_3''] | _ \<Rightarrow> False)"
  by code_simp


end
