(* ===== verification/Json_Rpc.thy ===== *)
theory Json_Rpc
  imports Ascii_Text Utf8 Json_Value
begin

text \<open>
  \<open>session/json_rpc_transport.rs\<close>: the reader and the writer of JSON-RPC frames. The byte stream below a
  reader is the sequence of results its reads will give, a chunk or an error; it has ended when nothing
  is left or a read gives no bytes. \<open>serde_json\<close> is a parameter.
\<close>

section \<open>Errors\<close>

datatype transport_error =
    ReadHeader | TruncatedHeader | HeaderTooLarge nat | NonAsciiHeader | MalformedHeaderLine
  | MissingContentLength | DuplicateContentLength | InvalidContentLength
  | UnsupportedContentType | DuplicateContentType | InboundBodyTooLarge nat nat
  | ReadBody | NonUtf8Body | InvalidJsonBody | BatchUnsupported | MessageNotObject
  | SerializeBody | OutboundBodyTooLarge nat nat | WriteFrame

section \<open>The header\<close>

definition cr :: char where "cr = CHR 0x0D"
definition lf :: char where "lf = CHR 0x0A"

definition blank_line :: string where "blank_line = [cr, lf, cr, lf]"

definition json_rpc_header_limit :: nat where "json_rpc_header_limit = 8 * 1024"

text \<open>\<open>split("\r\n")\<close>.\<close>

fun split_lines :: "string \<Rightarrow> string list" where
  "split_lines [] = [[]]"
| "split_lines [c] = [[c]]"
| "split_lines (c # d # s) =
     (if c = cr \<and> d = lf then [] # split_lines s
      else case split_lines (d # s) of [] \<Rightarrow> [[c]] | l # ls \<Rightarrow> (c # l) # ls)"

fun charset_parameters :: "string list \<Rightarrow> bool \<Rightarrow> transport_error + unit" where
  "charset_parameters [] seen = Inr ()"
| "charset_parameters (p # ps) seen =
     (case split_once ''='' p of
        None \<Rightarrow> Inl UnsupportedContentType
      | Some (name, value) \<Rightarrow>
          if eq_ignore_case (trim name) ''charset'' then
            if seen then Inl UnsupportedContentType
            else
              let value = trim value;
                  value = (case Option.bind (strip_prefix value [CHR 0x22]) (\<lambda>v. strip_suffix v [CHR 0x22]) of
                    Some v \<Rightarrow> v | None \<Rightarrow> value)
              in if \<not> eq_ignore_case value ''utf-8'' \<and> \<not> eq_ignore_case value ''utf8'' then Inl UnsupportedContentType
                 else charset_parameters ps True
          else charset_parameters ps seen)"

definition validate_content_type :: "string \<Rightarrow> transport_error + unit" where
  "validate_content_type content_type =
     (case split_on (CHR '';'') content_type of
        [] \<Rightarrow> Inl UnsupportedContentType
      | media_type # parts \<Rightarrow>
          if eq_ignore_case (trim media_type) ''application/vscode-jsonrpc'' then charset_parameters parts False
          else Inl UnsupportedContentType)"

fun header_lines :: "string list \<Rightarrow> nat option \<Rightarrow> bool \<Rightarrow> transport_error + nat option" where
  "header_lines [] len seen = Inr len"
| "header_lines (l # ls) len seen =
     (case split_once '':'' l of
        None \<Rightarrow> Inl MalformedHeaderLine
      | Some (name, value) \<Rightarrow>
          let name = trim name; value = trim value
          in if name = [] then Inl MalformedHeaderLine
             else if eq_ignore_case name ''Content-Length'' then
               if len \<noteq> None then Inl DuplicateContentLength
               else if value = [] \<or> \<not> list_all ascii_digit value then Inl InvalidContentLength
               else (case parse_u64 value of
                       None \<Rightarrow> Inl InvalidContentLength
                     | Some n \<Rightarrow> header_lines ls (Some n) seen)
             else if eq_ignore_case name ''Content-Type'' then
               if seen then Inl DuplicateContentType
               else (case validate_content_type value of
                       Inl e \<Rightarrow> Inl e
                     | Inr _ \<Rightarrow> header_lines ls len True)
             else header_lines ls len seen)"

definition parse_content_length :: "string \<Rightarrow> transport_error + nat" where
  "parse_content_length header =
     (if \<not> is_ascii header then Inl NonAsciiHeader
      else case header_lines (split_lines (take (length header - 4) header)) None False of
        Inl e \<Rightarrow> Inl e
      | Inr None \<Rightarrow> Inl MissingContentLength
      | Inr (Some n) \<Rightarrow> Inr n)"

section \<open>Reading\<close>

record frame_reader =
  fr_buffer :: string
  fr_source :: "(unit + string) list"
  fr_max_body :: nat

record json_rpc_frame =
  jf_message :: json
  jf_header :: string
  jf_body :: string

text \<open>\<open>fill_buf\<close>: the buffered bytes, or those of the next read.\<close>

fun next_read :: "frame_reader \<Rightarrow> frame_reader \<times> (unit + string)" where
  "next_read rd =
     (case fr_source rd of
        [] \<Rightarrow> (rd, Inr [])
      | r # rs \<Rightarrow> (rd\<lparr>fr_source := rs\<rparr>, r))"

definition fill_buf :: "frame_reader \<Rightarrow> frame_reader \<times> (unit + string)" where
  "fill_buf rd =
     (if fr_buffer rd \<noteq> [] then (rd, Inr (fr_buffer rd))
      else case next_read rd of
        (rd, Inl e) \<Rightarrow> (rd, Inl e)
      | (rd, Inr bytes) \<Rightarrow> (rd\<lparr>fr_buffer := bytes\<rparr>, Inr bytes))"

definition ends_with :: "string \<Rightarrow> string \<Rightarrow> bool" where
  "ends_with s e \<longleftrightarrow> suffix e s"

text \<open>The loop over the available bytes, at most \<open>remaining\<close> of them: the header, the bytes it leaves, and whether it is complete.\<close>

fun take_header :: "nat \<Rightarrow> string \<Rightarrow> string \<Rightarrow> string \<times> string \<times> bool" where
  "take_header (Suc remaining) header (b # bs) =
     (let header' = header @ [b]
      in if ends_with header' blank_line then (header', bs, True) else take_header remaining header' bs)"
| "take_header _ header bs = (header, bs, False)"

lemma take_header_length:
  "length header \<le> length (fst (take_header n header bs))"
  "n > 0 \<Longrightarrow> bs \<noteq> [] \<Longrightarrow> length header < length (fst (take_header n header bs))"
proof -
  show le: "length header \<le> length (fst (take_header n header bs))" for n header bs
    by (induction n header bs rule: take_header.induct) (auto simp: Let_def)
  show "length header < length (fst (take_header n header bs))" if "n > 0" "bs \<noteq> []"
    using that le [of "header @ [hd bs]" "n - 1" "tl bs"] by (cases n; cases bs) (auto simp: Let_def)
qed

lemma header_grows:
  assumes "take_header (json_rpc_header_limit - length header) header available = (header', rest, complete)"
    "available \<noteq> []" "length header' < json_rpc_header_limit"
  shows "length header < length header'" "length header < json_rpc_header_limit"
proof -
  have "length header \<le> length header'" using take_header_length(1) assms(1) by (metis fst_conv)
  with assms(3) show "length header < json_rpc_header_limit" by simp
  with take_header_length(2) assms(1,2) show "length header < length header'" by (metis fst_conv zero_less_diff)
qed

text \<open>A header is never longer than the limit when the loop goes on, so \<open>\<le>\<close> is the equality of the code.\<close>

function read_header :: "string \<Rightarrow> frame_reader \<Rightarrow> frame_reader \<times> (transport_error + string option)" where
  "read_header header rd =
     (case fill_buf rd of
        (rd, Inl _) \<Rightarrow> (rd, Inl ReadHeader)
      | (rd, Inr available) \<Rightarrow>
          if available = [] then (rd, if header = [] then Inr None else Inl TruncatedHeader)
          else case take_header (json_rpc_header_limit - length header) header available of
            (header', rest, complete) \<Rightarrow>
              let rd = rd\<lparr>fr_buffer := rest\<rparr>
              in if complete then (rd, Inr (Some header'))
                 else if json_rpc_header_limit \<le> length header' then (rd, Inl (HeaderTooLarge json_rpc_header_limit))
                 else read_header header' rd)"
  by pat_completeness auto
termination
  by (relation "measure (\<lambda>(header, rd). json_rpc_header_limit - length header)")
    (auto simp: not_le intro!: diff_less_mono2 dest: header_grows [OF sym])

declare read_header.simps [simp del]

text \<open>\<open>read_exact\<close>.\<close>

fun read_exact :: "nat \<Rightarrow> string \<Rightarrow> (unit + string) list \<Rightarrow> string \<times> (unit + string) list \<times> string option" where
  "read_exact n buffer source =
     (if n \<le> length buffer then (drop n buffer, source, Some (take n buffer))
      else case source of
        Inr (b # bs) # rest \<Rightarrow> read_exact n (buffer @ b # bs) rest
      | _ # rest \<Rightarrow> ([], rest, None)
      | [] \<Rightarrow> ([], [], None))"

declare read_exact.simps [simp del]

definition decode_body :: "(string \<Rightarrow> json option) \<Rightarrow> string \<Rightarrow> string \<Rightarrow> transport_error + json_rpc_frame" where
  "decode_body parse header body =
     (if \<not> utf8_valid body then Inl NonUtf8Body
      else case parse body of
        None \<Rightarrow> Inl InvalidJsonBody
      | Some message \<Rightarrow>
          (case message of
             JObject _ \<Rightarrow> Inr \<lparr>jf_message = message, jf_header = header, jf_body = body\<rparr>
           | JArray _ \<Rightarrow> Inl BatchUnsupported
           | _ \<Rightarrow> Inl MessageNotObject))"

definition read_frame :: "(string \<Rightarrow> json option) \<Rightarrow> frame_reader \<Rightarrow> frame_reader \<times> (transport_error + json_rpc_frame option)" where
  "read_frame parse rd =
     (case read_header [] rd of
        (rd, Inl e) \<Rightarrow> (rd, Inl e)
      | (rd, Inr None) \<Rightarrow> (rd, Inr None)
      | (rd, Inr (Some header)) \<Rightarrow>
          (case parse_content_length header of
             Inl e \<Rightarrow> (rd, Inl e)
           | Inr n \<Rightarrow>
               if fr_max_body rd < n then (rd, Inl (InboundBodyTooLarge n (fr_max_body rd)))
               else case read_exact n (fr_buffer rd) (fr_source rd) of
                 (buffer, source, None) \<Rightarrow> (rd\<lparr>fr_buffer := buffer, fr_source := source\<rparr>, Inl ReadBody)
               | (buffer, source, Some body) \<Rightarrow>
                   (rd\<lparr>fr_buffer := buffer, fr_source := source\<rparr>, map_sum id Some (decode_body parse header body))))"

section \<open>Writing\<close>

text \<open>
  How a wait on the output ends: it is done, fails, is cut short by the deadline, or its future is dropped.
\<close>

datatype io_outcome = IoDone | IoFailed | IoExpired | IoDropped

record 'w frame_output =
  fo_write_all :: "string \<Rightarrow> 'w \<Rightarrow> 'w \<times> io_outcome"
  fo_flush :: "'w \<Rightarrow> 'w \<times> io_outcome"
  fo_expired :: "'w \<Rightarrow> 'w \<times> bool"

record 'w frame_writer =
  fw_output :: 'w
  fw_max_body :: nat
  fw_reusable :: bool

definition frame_header :: "string \<Rightarrow> string" where
  "frame_header body = ''Content-Length: '' @ decimal (length body) @ blank_line"

fun run_all :: "('w \<Rightarrow> 'w \<times> io_outcome) list \<Rightarrow> 'w \<Rightarrow> 'w \<times> io_outcome" where
  "run_all [] w = (w, IoDone)"
| "run_all (f # fs) w = (case f w of (w', IoDone) \<Rightarrow> run_all fs w' | r \<Rightarrow> r)"

definition check_deadline :: "'w frame_output \<Rightarrow> 'w \<Rightarrow> 'w \<times> io_outcome" where
  "check_deadline fo w = map_prod id (\<lambda>late. if late then IoExpired else IoDone) (fo_expired fo w)"

definition send_frame :: "'w frame_output \<Rightarrow> string \<Rightarrow> string \<Rightarrow> 'w \<Rightarrow> 'w \<times> io_outcome" where
  "send_frame fo header body =
     run_all [check_deadline fo, fo_write_all fo header, fo_write_all fo body, fo_flush fo, check_deadline fo]"

text \<open>\<open>None\<close>: the future of the write was dropped before it returned.\<close>

definition write_frame ::
  "'w frame_output \<Rightarrow> (json \<Rightarrow> string option) \<Rightarrow> json \<Rightarrow> 'w frame_writer
     \<Rightarrow> 'w frame_writer \<times> (transport_error + string \<times> string) option" where
  "write_frame fo serialize message fw =
     (if \<not> fw_reusable fw then (fw, Some (Inl WriteFrame))
      else if as_object message = None then (fw, Some (Inl MessageNotObject))
      else case serialize message of
        None \<Rightarrow> (fw, Some (Inl SerializeBody))
      | Some body \<Rightarrow>
          if fw_max_body fw < length body then (fw, Some (Inl (OutboundBodyTooLarge (length body) (fw_max_body fw))))
          else
            let header = frame_header body; fw = fw\<lparr>fw_reusable := False\<rparr>
            in case send_frame fo header body (fw_output fw) of
                 (w, IoDone) \<Rightarrow> (fw\<lparr>fw_output := w, fw_reusable := True\<rparr>, Some (Inr (header, body)))
               | (w, IoDropped) \<Rightarrow> (fw\<lparr>fw_output := w\<rparr>, None)
               | (w, _) \<Rightarrow> (fw\<lparr>fw_output := w\<rparr>, Some (Inl WriteFrame)))"

end
