(* ===== verification/Json_Rpc_Laws.thy ===== *)
theory Json_Rpc_Laws
  imports Json_Rpc
begin

text \<open>
  What a reader consumes, and that the frames a writer has written are read back whatever the chunks
  they arrive in.
\<close>

section \<open>The bytes of a stream\<close>

definition pending :: "(unit + string) list \<Rightarrow> string" where
  "pending source = concat (map (\<lambda>r. case r of Inl _ \<Rightarrow> [] | Inr b \<Rightarrow> b) source)"

definition stream :: "frame_reader \<Rightarrow> string" where
  "stream rd = fr_buffer rd @ pending (fr_source rd)"

text \<open>A source without errors that ends only at its end.\<close>

definition steady :: "(unit + string) list \<Rightarrow> bool" where
  "steady source \<longleftrightarrow> list_all (\<lambda>r. case r of Inl _ \<Rightarrow> False | Inr b \<Rightarrow> b \<noteq> []) source"

lemma pending_simps [simp]: "pending [] = []" "pending (Inl u # rs) = pending rs" "pending (Inr b # rs) = b @ pending rs"
  by (simp_all add: pending_def)

lemma steady_simps [simp]: "steady []" "steady (r # rs) \<longleftrightarrow> (\<exists>b. r = Inr b \<and> b \<noteq> []) \<and> steady rs"
  by (auto simp: steady_def split: sum.splits)

lemma fill_buf_stream:
  assumes "fill_buf rd = (rd', Inr available)"
  shows "stream rd' = stream rd" "available = fr_buffer rd'" "fr_max_body rd' = fr_max_body rd"
  using assms by (auto simp: fill_buf_def stream_def split: if_splits list.splits sum.splits)

lemma fill_buf_steady:
  assumes "steady (fr_source rd)"
  obtains rd' where "fill_buf rd = (rd', Inr (fr_buffer rd'))" "steady (fr_source rd')" "stream rd' = stream rd"
    "fr_max_body rd' = fr_max_body rd" "fr_buffer rd' = [] \<longleftrightarrow> stream rd = []"
proof -
  from assms have "\<exists>rd'. fill_buf rd = (rd', Inr (fr_buffer rd')) \<and> steady (fr_source rd') \<and> stream rd' = stream rd
      \<and> fr_max_body rd' = fr_max_body rd \<and> (fr_buffer rd' = [] \<longleftrightarrow> stream rd = [])"
    by (cases "fr_source rd") (auto simp: fill_buf_def stream_def)
  with that show thesis by blast
qed

section \<open>The header\<close>

lemma take_header_bytes:
  assumes "take_header n header bs = (header', rest, complete)" "\<not> ends_with header blank_line"
  shows "header' @ rest = header @ bs" "complete = ends_with header' blank_line" "length header' \<le> length header + n"
  using assms by (induction n header bs rule: take_header.induct) (auto simp: Let_def split: if_splits)

lemma read_header_bytes:
  assumes "read_header header rd = (rd', Inr (Some found))" "\<not> ends_with header blank_line" "length header \<le> json_rpc_header_limit"
  shows "header @ stream rd = found @ stream rd' \<and> ends_with found blank_line \<and> length found \<le> json_rpc_header_limit
    \<and> fr_max_body rd' = fr_max_body rd"
  using assms
proof (induction header rd rule: read_header.induct)
  case (1 header rd)
  obtain rd1 available where f: "fill_buf rd = (rd1, Inr available)"
    using 1(2) by (auto simp: read_header.simps [of header rd] split: prod.splits sum.splits)
  note s = fill_buf_stream [OF f]
  have a: "available \<noteq> []" using 1(2) f by (auto simp: read_header.simps [of header rd] split: if_splits)
  obtain header' rest complete where t: "take_header (json_rpc_header_limit - length header) header available = (header', rest, complete)"
    by (metis prod_cases3)
  note b = take_header_bytes [OF t 1(3)]
  let ?rd = "rd1\<lparr>fr_buffer := rest\<rparr>"
  have bytes: "header @ stream rd = header' @ stream ?rd"
    using b(1) s(1,2) by (simp add: stream_def) (metis append.assoc)
  show ?case
  proof (cases complete)
    case True
    with 1(2) f a t have "rd' = ?rd" "found = header'" by (auto simp: read_header.simps [of header rd])
    with bytes b True s 1(4) show ?thesis by simp
  next
    case False
    with 1(2) f a t have r: "read_header header' ?rd = (rd', Inr (Some found))" and l: "\<not> json_rpc_header_limit \<le> length header'"
      by (auto simp: read_header.simps [of header rd] Let_def split: if_splits)
    with False b have "header' @ stream ?rd = found @ stream rd' \<and> ends_with found blank_line \<and> length found \<le> json_rpc_header_limit
        \<and> fr_max_body rd' = fr_max_body ?rd"
      by (intro 1(1) [OF f [symmetric] refl a t [symmetric] refl refl False l]) auto
    with bytes s(3) show ?thesis by simp
  qed
qed

text \<open>A header that ends at its first blank line.\<close>

definition first_blank :: "string \<Rightarrow> bool" where
  "first_blank h \<longleftrightarrow> ends_with h blank_line \<and> (\<forall>p s. h = p @ s \<longrightarrow> ends_with p blank_line \<longrightarrow> s = [])"

lemma first_blankD: "first_blank h \<Longrightarrow> h = p @ s \<Longrightarrow> ends_with p blank_line \<Longrightarrow> s = []"
  unfolding first_blank_def by blast

lemma take_header_all:
  "first_blank h \<Longrightarrow> h = header @ left \<Longrightarrow> left \<noteq> [] \<Longrightarrow> length left \<le> n \<Longrightarrow>
     take_header n header (left @ bs) = (h, bs, True)"
proof (induction left arbitrary: n header)
  case (Cons b left)
  then obtain m where n: "n = Suc m" by (cases n) auto
  show ?case
  proof (cases "ends_with (header @ [b]) blank_line")
    case True
    with first_blankD [OF Cons(2), of "header @ [b]" left] Cons(3) have "left = []" by simp
    with Cons(3) n True show ?thesis by simp
  next
    case False
    with Cons(2,3) have "left \<noteq> []" by (auto simp: first_blank_def)
    with Cons n False show ?thesis by simp
  qed
qed simp

lemma take_header_some:
  "first_blank h \<Longrightarrow> h = header @ bs @ left \<Longrightarrow> left \<noteq> [] \<Longrightarrow> length (bs @ left) \<le> n \<Longrightarrow>
     take_header n header bs = (header @ bs, [], False)"
proof (induction bs arbitrary: n header)
  case Nil
  then show ?case by (cases n) simp_all
next
  case (Cons b bs)
  then obtain m where n: "n = Suc m" by (cases n) auto
  have "\<not> ends_with (header @ [b]) blank_line"
    using first_blankD [OF Cons(2), of "header @ [b]" "bs @ left"] Cons(3,4) by auto
  with Cons n show ?case by simp
qed

lemma read_header_first:
  assumes "first_blank h" "h = header @ left" "left \<noteq> []" "length h \<le> json_rpc_header_limit"
    "steady (fr_source rd)" "stream rd = left @ rest"
  shows "\<exists>rd'. read_header header rd = (rd', Inr (Some h)) \<and> stream rd' = rest \<and> steady (fr_source rd') \<and> fr_max_body rd' = fr_max_body rd"
  using assms
proof (induction header rd arbitrary: left rule: read_header.induct)
  case (1 header rd)
  obtain rd1 where f: "fill_buf rd = (rd1, Inr (fr_buffer rd1))" "steady (fr_source rd1)" "stream rd1 = stream rd"
    "fr_max_body rd1 = fr_max_body rd" "fr_buffer rd1 = [] \<longleftrightarrow> stream rd = []"
    using fill_buf_steady [OF 1(6)] by metis
  with 1 have a: "fr_buffer rd1 \<noteq> []" by simp
  have n: "length left \<le> json_rpc_header_limit - length header" using 1(3,5) by simp
  have s: "fr_buffer rd1 @ pending (fr_source rd1) = left @ rest" using f(3) 1(7) by (simp add: stream_def)
  consider (all) "prefix left (fr_buffer rd1)" | (some) "strict_prefix (fr_buffer rd1) left"
    using s by (metis append_eq_append_conv2 prefixI prefix_order.le_less)
  then show ?case
  proof cases
    case all
    then obtain more where m: "fr_buffer rd1 = left @ more" by (auto simp: prefix_def)
    with s have "more @ pending (fr_source rd1) = rest" by simp
    with f a m take_header_all [OF 1(2,3,4) n, of more] show ?thesis by (simp add: read_header.simps [of header rd] stream_def)
  next
    case some
    from some obtain left' where l: "left = fr_buffer rd1 @ left'" "left' \<noteq> []" by (auto simp: strict_prefix_def prefix_def)
    have t: "take_header (json_rpc_header_limit - length header) header (fr_buffer rd1) = (header @ fr_buffer rd1, [], False)"
      using take_header_some [OF 1(2), of header "fr_buffer rd1" left'] 1(3) l n by simp
    let ?rd = "rd1\<lparr>fr_buffer := []\<rparr>"
    have short: "\<not> json_rpc_header_limit \<le> length (header @ fr_buffer rd1)"
      using 1(3,5) l by (cases left') auto
    have "\<exists>rd'. read_header (header @ fr_buffer rd1) ?rd = (rd', Inr (Some h)) \<and> stream rd' = rest \<and> steady (fr_source rd') \<and> fr_max_body rd' = fr_max_body ?rd"
      by (rule 1(1) [OF f(1) [symmetric] refl a t [symmetric] refl refl _ short, where left = left'])
        (use 1 l f s in \<open>auto simp: stream_def\<close>)
    with f a t short show ?thesis by (simp add: read_header.simps [of header rd])
  qed
qed

lemma first_blank_header:
  assumes "cr \<notin> set t"
  shows "first_blank (t @ blank_line)"
  unfolding first_blank_def
proof (intro conjI allI impI)
  show "ends_with (t @ blank_line) blank_line" by (simp add: ends_with_def suffix_def)
  fix p s assume eq: "t @ blank_line = p @ s" and p: "ends_with p blank_line"
  then obtain q where q: "p = q @ blank_line" by (auto simp: ends_with_def suffix_def)
  have "length t \<le> length q"
  proof (rule ccontr)
    assume "\<not> length t \<le> length q"
    then have "(t @ blank_line) ! length q = t ! length q" "t ! length q \<in> set t" by (simp_all add: nth_append)
    moreover have "(t @ blank_line) ! length q = cr" unfolding eq q by (simp add: nth_append blank_line_def)
    ultimately show False using assms by metis
  qed
  moreover have "length (t @ blank_line) = length (p @ s)" unfolding eq ..
  ultimately show "s = []" using q by simp
qed

section \<open>The header of a frame\<close>

lemma split_lines_plain: "cr \<notin> set t \<Longrightarrow> split_lines t = [t]"
  by (induction t rule: split_lines.induct) auto

lemma not_digit: "\<not> ascii_digit cr" "\<not> ascii_digit (CHR '':'')"
  by (simp_all add: ascii_digit_def cr_def less_eq_char_def)

lemma digit_plain: "ascii_digit c \<Longrightarrow> \<not> ascii_space c" "ascii_digit c \<Longrightarrow> of_char c < (128 :: nat)"
  by (simp_all add: ascii_digit_def ascii_space_def less_eq_char_def)

lemma frame_header_text: "cr \<notin> set (''Content-Length: '' @ decimal n)"
  using decimal_digits [of n] not_digit by (auto simp: cr_def list_all_iff)

lemma trim_number: "trim (CHR '' '' # decimal n) = decimal n"
proof -
  have plain: "list_all (\<lambda>c. \<not> ascii_space c) (decimal n)"
    using decimal_digits [of n] digit_plain(1) by (auto simp: list_all_iff)
  have "trim (CHR '' '' # s) = trim s" for s by (simp add: trim_def ascii_space_def)
  with trim_plain [OF plain] show ?thesis by simp
qed

lemma parse_frame_header:
  assumes "length body \<le> u64_max"
  shows "parse_content_length (frame_header body) = Inr (length body)"
proof -
  let ?t = "''Content-Length: '' @ decimal (length body)"
  have "is_ascii (frame_header body)"
    using decimal_digits [of "length body"] digit_plain(2)
    by (auto simp: is_ascii_def frame_header_def list_all_iff blank_line_def cr_def lf_def)
  moreover have "take (length (frame_header body) - 4) (frame_header body) = ?t"
    by (simp add: frame_header_def blank_line_def)
  moreover have "header_lines [?t] None False = Inr (Some (length body))"
    using parse_u64_decimal [OF assms] decimal_digits [of "length body"] trim_number
    by (simp add: eq_ignore_case_def trim_def [of "''Content-Length''"] ascii_space_def)
  ultimately show ?thesis
    using split_lines_plain [OF frame_header_text [of "length body"]] by (simp add: parse_content_length_def)
qed

lemma frame_header_first: "first_blank (frame_header body)"
  using first_blank_header [OF frame_header_text] by (simp add: frame_header_def)

lemma frame_header_length: "length body \<le> u64_max \<Longrightarrow> length (frame_header body) \<le> json_rpc_header_limit"
  using decimal_length [of "length body" 19]
  by (simp add: frame_header_def blank_line_def json_rpc_header_limit_def u64_max_def)

section \<open>The body\<close>

lemma read_exact_bytes:
  "read_exact n buffer source = (buffer', source', Some body) \<Longrightarrow>
     buffer @ pending source = body @ buffer' @ pending source' \<and> length body = n"
proof (induction n buffer source rule: read_exact.induct)
  case (1 n buffer source)
  from 1(2) consider (enough) "n \<le> length buffer" | (more) b bs rs where "\<not> n \<le> length buffer" "source = Inr (b # bs) # rs"
    by (auto simp: read_exact.simps [of n buffer source] split: if_splits list.splits sum.splits)
  then show ?case
  proof cases
    case enough
    with 1(2) show ?thesis by (auto simp: read_exact.simps [of n buffer source])
  next
    case more
    with 1(2) have "read_exact n (buffer @ b # bs) rs = (buffer', source', Some body)" by (simp add: read_exact.simps [of n buffer "Inr (b # bs) # rs"])
    with 1(1) [OF more refl refl] more show ?thesis by simp
  qed
qed

lemma read_exact_steady:
  assumes "steady source" "buffer @ pending source = body @ rest"
  shows "\<exists>buffer' source'. read_exact (length body) buffer source = (buffer', source', Some body)
    \<and> buffer' @ pending source' = rest \<and> steady source'"
  using assms
proof (induction "length body" buffer source rule: read_exact.induct)
  case (1 buffer source)
  show ?case
  proof (cases "length body \<le> length buffer")
    case True
    with 1 have "take (length body) buffer = body" "drop (length body) buffer @ pending source = rest"
      by (auto simp: append_eq_append_conv2)
    with True 1 show ?thesis by (simp add: read_exact.simps [of "length body" buffer])
  next
    case False
    with 1 obtain b bs rs where s: "source = Inr (b # bs) # rs"
      by (cases source) (auto simp: neq_Nil_conv)
    with 1(1) [of "Inr (b # bs)" rs "b # bs" b bs] False 1(2,3) show ?thesis
      by (simp add: read_exact.simps [of "length body" buffer])
  qed
qed

section \<open>One frame\<close>

text \<open>
  C22. Whatever arrives, a frame that is read is exactly the next bytes of the stream: its header, within
  the header limit and ending in a blank line, and its body, within the body limit, of the declared
  length, valid UTF-8 and the JSON object of the message; nothing else is consumed.
\<close>

theorem read_frame_is_bounded:
  assumes "read_frame parse rd = (rd', Inr (Some f))"
  shows "stream rd = jf_header f @ jf_body f @ stream rd'
    \<and> ends_with (jf_header f) blank_line \<and> length (jf_header f) \<le> json_rpc_header_limit
    \<and> parse_content_length (jf_header f) = Inr (length (jf_body f)) \<and> length (jf_body f) \<le> fr_max_body rd
    \<and> utf8_valid (jf_body f) \<and> parse (jf_body f) = Some (jf_message f) \<and> as_object (jf_message f) \<noteq> None"
proof -
  obtain rd1 header where h: "read_header [] rd = (rd1, Inr (Some header))"
    using assms by (auto simp: read_frame_def split: prod.splits sum.splits option.splits)
  have "\<not> ends_with [] blank_line" by (simp add: ends_with_def blank_line_def)
  note hb = read_header_bytes [OF h this]
  obtain n where n: "parse_content_length header = Inr n" "n \<le> fr_max_body rd1"
    using assms h by (auto simp: read_frame_def split: sum.splits if_splits)
  obtain buffer source body where e: "read_exact n (fr_buffer rd1) (fr_source rd1) = (buffer, source, Some body)"
    using assms h n by (auto simp: read_frame_def split: prod.splits option.splits)
  note eb = read_exact_bytes [OF e]
  have d: "decode_body parse header body = Inr f" "rd' = rd1\<lparr>fr_buffer := buffer, fr_source := source\<rparr>"
    using assms h n e by (cases "decode_body parse header body"; auto simp: read_frame_def)+
  from d(1) have "f = \<lparr>jf_message = jf_message f, jf_header = header, jf_body = body\<rparr>" "utf8_valid body"
    "parse body = Some (jf_message f)" "as_object (jf_message f) \<noteq> None"
    by (auto simp: decode_body_def split: if_splits option.splits json.splits)
  then have "jf_header f = header" "jf_body f = body" by (metis json_rpc_frame.select_convs(2,3))+
  with hb eb n d(2) \<open>utf8_valid body\<close> \<open>parse body = _\<close> \<open>as_object _ \<noteq> None\<close> show ?thesis by (simp add: stream_def)
qed

definition frame_bytes :: "string \<Rightarrow> string" where
  "frame_bytes body = frame_header body @ body"

lemma read_written_frame:
  assumes "steady (fr_source rd)" "stream rd = frame_bytes body @ rest" "length body \<le> fr_max_body rd" "length body \<le> u64_max"
    "utf8_valid body" "parse body = Some (JObject m)"
  shows "\<exists>rd'. read_frame parse rd = (rd', Inr (Some \<lparr>jf_message = JObject m, jf_header = frame_header body, jf_body = body\<rparr>))
    \<and> stream rd' = rest \<and> steady (fr_source rd') \<and> fr_max_body rd' = fr_max_body rd"
proof -
  have "frame_header body \<noteq> []" by (simp add: frame_header_def)
  then obtain rd1 where h: "read_header [] rd = (rd1, Inr (Some (frame_header body)))" "stream rd1 = body @ rest"
      "steady (fr_source rd1)" "fr_max_body rd1 = fr_max_body rd"
    using read_header_first [OF frame_header_first [of body], of "[]" "frame_header body" rd "body @ rest"]
      frame_header_length [OF assms(4)] assms(1,2) by (auto simp: frame_bytes_def)
  then obtain buffer source where e: "read_exact (length body) (fr_buffer rd1) (fr_source rd1) = (buffer, source, Some body)"
      "buffer @ pending source = rest" "steady source"
    using read_exact_steady [of "fr_source rd1" "fr_buffer rd1" body rest] by (auto simp: stream_def)
  have "decode_body parse (frame_header body) body = Inr \<lparr>jf_message = JObject m, jf_header = frame_header body, jf_body = body\<rparr>"
    using assms(5,6) by (simp add: decode_body_def)
  with h e assms(3) parse_frame_header [OF assms(4)] show ?thesis
    by (simp add: read_frame_def stream_def)
qed

section \<open>Writes and reads in sequence\<close>

fun write_frames ::
  "'w frame_output \<Rightarrow> (json \<Rightarrow> string option) \<Rightarrow> json list \<Rightarrow> 'w frame_writer
     \<Rightarrow> 'w frame_writer \<times> (transport_error + string \<times> string) option list" where
  "write_frames fo serialize [] fw = (fw, [])"
| "write_frames fo serialize (m # ms) fw =
     (let (fw, r) = write_frame fo serialize m fw; (fw, rs) = write_frames fo serialize ms fw in (fw, r # rs))"

fun read_frames :: "(string \<Rightarrow> json option) \<Rightarrow> nat \<Rightarrow> frame_reader \<Rightarrow> frame_reader \<times> json_rpc_frame list" where
  "read_frames parse 0 rd = (rd, [])"
| "read_frames parse (Suc n) rd =
     (case read_frame parse rd of
        (rd, Inr (Some f)) \<Rightarrow> (let (rd, fs) = read_frames parse n rd in (rd, f # fs))
      | (rd, _) \<Rightarrow> (rd, []))"

definition sent :: "(transport_error + string \<times> string) option \<Rightarrow> bool" where
  "sent r \<longleftrightarrow> (case r of Some (Inr _) \<Rightarrow> True | _ \<Rightarrow> False)"

text \<open>The messages whose write returned, in order.\<close>

definition delivered :: "json list \<Rightarrow> (transport_error + string \<times> string) option list \<Rightarrow> json list" where
  "delivered ms rs = map fst (filter (\<lambda>x. sent (snd x)) (zip ms rs))"

text \<open>
  What a byte stream below a writer does, \<open>out\<close> the bytes it has accepted: a write adds a prefix of its
  bytes, all of them when it is done, and nothing else adds any.
\<close>

definition accepts_prefixes :: "'w frame_output \<Rightarrow> ('w \<Rightarrow> string) \<Rightarrow> bool" where
  "accepts_prefixes fo out \<longleftrightarrow>
     (\<forall>b w. \<exists>p. out (fst (fo_write_all fo b w)) = out w @ p \<and> (snd (fo_write_all fo b w) = IoDone \<longrightarrow> p = b))
     \<and> (\<forall>w. out (fst (fo_flush fo w)) = out w) \<and> (\<forall>w. out (fst (fo_expired fo w)) = out w)"

lemma run_all_grows:
  "list_all (\<lambda>f. \<forall>w. \<exists>p. out (fst (f w)) = out w @ p) fs \<Longrightarrow> \<exists>p. out (fst (run_all fs w)) = out w @ p"
proof (induction fs arbitrary: w)
  case (Cons f fs)
  obtain w1 r where f: "f w = (w1, r)" by (metis surj_pair)
  with Cons.prems obtain p where p: "out w1 = out w @ p" by (auto dest: spec [of _ w])
  with Cons f show ?case by (cases r) (auto, metis append.assoc)
qed simp

lemma send_frame_out:
  assumes "accepts_prefixes fo out" "send_frame fo h b w = (w', r)"
  shows "\<exists>p. out w' = out w @ p" "r = IoDone \<Longrightarrow> out w' = out w @ h @ b"
proof -
  have d: "out (fst (check_deadline fo w)) = out w" for w
    using assms(1) by (simp add: check_deadline_def accepts_prefixes_def)
  have written: "\<exists>p. out (fst (fo_write_all fo b w)) = out w @ p" for b w
    using assms(1) unfolding accepts_prefixes_def by metis
  have "list_all (\<lambda>f. \<forall>w. \<exists>p. out (fst (f w)) = out w @ p)
      [check_deadline fo, fo_write_all fo h, fo_write_all fo b, fo_flush fo, check_deadline fo]"
    using d written assms(1) by (simp add: accepts_prefixes_def)
  from run_all_grows [OF this, of w] assms(2) show "\<exists>p. out w' = out w @ p" by (simp add: send_frame_def)
  assume r: "r = IoDone"
  obtain w1 where 1: "check_deadline fo w = (w1, IoDone)" "run_all [fo_write_all fo h, fo_write_all fo b, fo_flush fo, check_deadline fo] w1 = (w', IoDone)"
    using assms(2) r by (auto simp: send_frame_def split: prod.splits io_outcome.splits)
  obtain w2 where 2: "fo_write_all fo h w1 = (w2, IoDone)" "run_all [fo_write_all fo b, fo_flush fo, check_deadline fo] w2 = (w', IoDone)"
    using 1(2) by (auto split: prod.splits io_outcome.splits)
  obtain w3 where 3: "fo_write_all fo b w2 = (w3, IoDone)" "run_all [fo_flush fo, check_deadline fo] w3 = (w', IoDone)"
    using 2(2) by (auto split: prod.splits io_outcome.splits)
  obtain w4 where 4: "fo_flush fo w3 = (w4, IoDone)" "check_deadline fo w4 = (w', IoDone)"
    using 3(2) by (auto split: prod.splits io_outcome.splits)
  have "out w1 = out w" using d [of w] 1(1) by simp
  moreover have "out w2 = out w1 @ h" "out w3 = out w2 @ b"
    using assms(1) 2(1) 3(1) unfolding accepts_prefixes_def by (metis fst_conv snd_conv)+
  moreover have "out w4 = out w3" using assms(1) 4(1) unfolding accepts_prefixes_def by (metis fst_conv)
  moreover have "out w' = out w4" using d [of w4] 4(2) by simp
  ultimately show "out w' = out w @ h @ b" by simp
qed

lemma write_frame_out:
  assumes "accepts_prefixes fo out" "write_frame fo serialize m fw = (fw', r)"
  shows "fw_max_body fw' = fw_max_body fw"
    and "sent r \<Longrightarrow> \<exists>body. serialize m = Some body \<and> as_object m \<noteq> None \<and> length body \<le> fw_max_body fw
      \<and> fw_reusable fw \<and> fw_reusable fw' \<and> out (fw_output fw') = out (fw_output fw) @ frame_bytes body"
    and "\<not> sent r \<Longrightarrow> fw_output fw' = fw_output fw \<or> \<not> fw_reusable fw' \<and> (\<exists>p. out (fw_output fw') = out (fw_output fw) @ p)"
    and "\<not> fw_reusable fw \<Longrightarrow> fw' = fw \<and> \<not> sent r"
  using assms(2) send_frame_out [OF assms(1)]
  by (auto simp: write_frame_def sent_def frame_bytes_def Let_def not_less split: if_splits option.splits prod.splits io_outcome.splits)

lemma write_frames_out:
  assumes "accepts_prefixes fo out" "write_frames fo serialize ms fw = (fw', rs)"
  shows "\<exists>bodies tail. map serialize (delivered ms rs) = map Some bodies
    \<and> list_all (\<lambda>b. length b \<le> fw_max_body fw) bodies \<and> list_all (\<lambda>m. as_object m \<noteq> None) (delivered ms rs)
    \<and> out (fw_output fw') = out (fw_output fw) @ concat (map frame_bytes bodies) @ tail
    \<and> (tail \<noteq> [] \<longrightarrow> \<not> fw_reusable fw') \<and> (\<not> fw_reusable fw \<longrightarrow> fw' = fw)"
  using assms(2)
proof (induction ms arbitrary: fw rs)
  case (Cons m ms)
  obtain fw1 r where w: "write_frame fo serialize m fw = (fw1, r)" by (metis surj_pair)
  obtain rs' where ws: "write_frames fo serialize ms fw1 = (fw', rs')" "rs = r # rs'"
    using Cons.prems w by (auto split: prod.splits)
  note o = write_frame_out [OF assms(1) w]
  from Cons.IH [OF ws(1)] obtain bodies tail where ih: "map serialize (delivered ms rs') = map Some bodies"
    "list_all (\<lambda>b. length b \<le> fw_max_body fw) bodies" "list_all (\<lambda>m. as_object m \<noteq> None) (delivered ms rs')"
    "out (fw_output fw') = out (fw_output fw1) @ concat (map frame_bytes bodies) @ tail" "tail \<noteq> [] \<longrightarrow> \<not> fw_reusable fw'"
    "\<not> fw_reusable fw1 \<longrightarrow> fw' = fw1"
    using o(1) by auto
  have keep: "\<not> fw_reusable fw \<longrightarrow> fw' = fw" using o(4) ih(6) by auto
  show ?case
  proof (cases "sent r")
    case True
    with o(2) obtain body where b: "serialize m = Some body" "as_object m \<noteq> None" "length body \<le> fw_max_body fw"
      "out (fw_output fw1) = out (fw_output fw) @ frame_bytes body" by auto
    with True ih ws(2) keep show ?thesis
      by (intro exI [of _ "body # bodies"] exI [of _ tail]) (simp add: delivered_def)
  next
    case False
    from o(3) [OF False] show ?thesis
    proof
      assume "fw_output fw1 = fw_output fw"
      with False ih ws(2) keep show ?thesis
        by (intro exI [of _ bodies] exI [of _ tail]) (simp add: delivered_def)
    next
      assume stop: "\<not> fw_reusable fw1 \<and> (\<exists>p. out (fw_output fw1) = out (fw_output fw) @ p)"
      then obtain p where p: "out (fw_output fw1) = out (fw_output fw) @ p" "\<not> fw_reusable fw1" by auto
      with ih(4,6) have "concat (map frame_bytes bodies) @ tail = []" by simp
      then have "bodies = []" by (cases bodies) (auto simp: frame_bytes_def frame_header_def)
      with p ih ws(2) False keep show ?thesis
        by (intro exI [of _ "[]"] exI [of _ p]) (auto simp: delivered_def)
    qed
  qed
qed (auto simp: delivered_def)

lemma read_written_frames:
  assumes "steady (fr_source rd)" "stream rd = concat (map frame_bytes bodies) @ rest"
    "list_all (\<lambda>b. length b \<le> fr_max_body rd) bodies" "fr_max_body rd \<le> u64_max"
    "list_all (\<lambda>m. as_object m \<noteq> None) ms" "list_all2 (\<lambda>m b. utf8_valid b \<and> parse b = Some m) ms bodies"
  shows "\<exists>rd' fs. read_frames parse (length ms) rd = (rd', fs) \<and> map jf_message fs = ms \<and> stream rd' = rest"
  using assms(6,1-5)
proof (induction ms bodies arbitrary: rd rule: list_all2_induct)
  case (Cons m ms b bs)
  from Cons obtain members where m: "m = JObject members" by (cases m) auto
  with Cons obtain rd1 where f: "read_frame parse rd = (rd1, Inr (Some \<lparr>jf_message = m, jf_header = frame_header b, jf_body = b\<rparr>))"
      "stream rd1 = concat (map frame_bytes bs) @ rest" "steady (fr_source rd1)" "fr_max_body rd1 = fr_max_body rd"
    using read_written_frame [of rd b "concat (map frame_bytes bs) @ rest" parse members] by auto
  with Cons.IH [of rd1] Cons.prems show ?case by auto
qed simp


section \<open>Witnesses\<close>

text \<open>An output that accepts the bytes there is room for: then the write expires.\<close>

definition roomy_output :: "(nat \<times> string) frame_output" where
  "roomy_output = \<lparr>
     fo_write_all = (\<lambda>b (room, s). ((room - length b, s @ take room b), if length b \<le> room then IoDone else IoExpired)),
     fo_flush = (\<lambda>w. (w, IoDone)), fo_expired = (\<lambda>w. (w, False))\<rparr>"

definition empty_serialize :: "json \<Rightarrow> string option" where
  "empty_serialize m = (if m = JObject [] then Some ''{}'' else None)"

definition empty_parse :: "string \<Rightarrow> json option" where
  "empty_parse s = (if s = ''{}'' then Some (JObject []) else None)"

definition sample_writer :: "(nat \<times> string) frame_writer" where
  "sample_writer = \<lparr>fw_output = (60, []), fw_max_body = 10, fw_reusable = True\<rparr>"

definition sample_reader :: "string \<Rightarrow> frame_reader" where
  "sample_reader s = \<lparr>fr_buffer = [], fr_source = [Inr (take 20 s), Inr (drop 20 s)], fr_max_body = 10\<rparr>"

definition sample_messages :: "json list" where
  "sample_messages = [JObject [], JNull, JObject [], JObject [], JObject []]"

lemma sample_write:
  "(case write_frames roomy_output empty_serialize sample_messages sample_writer of
      (fw, rs) \<Rightarrow> map sent rs = [True, False, True, False, False] \<and> \<not> fw_reusable fw \<and> length (snd (fw_output fw)) = 60)"
  by code_simp


theorem read_frame_is_bounded_witness:
  "\<exists>rd' f. read_frame empty_parse (sample_reader (frame_bytes ''{}'')) = (rd', Inr (Some f)) \<and> jf_body f = ''{}''
     \<and> stream (sample_reader (frame_bytes ''{}'')) = jf_header f @ jf_body f @ stream rd' \<and> length (jf_header f) \<le> json_rpc_header_limit"
proof -
  have "steady (fr_source (sample_reader (frame_bytes ''{}'')))" "stream (sample_reader (frame_bytes ''{}'')) = frame_bytes ''{}'' @ []"
    by code_simp+
  moreover have "utf8_valid ''{}''" by code_simp
  ultimately obtain rd' f where r: "read_frame empty_parse (sample_reader (frame_bytes ''{}'')) = (rd', Inr (Some f))" "jf_body f = ''{}''"
    using read_written_frame [of "sample_reader (frame_bytes ''{}'')" "''{}''" "[]" empty_parse "[]"]
    by (auto simp: empty_parse_def u64_max_def sample_reader_def)
  from read_frame_is_bounded [OF r(1)] r show ?thesis by blast
qed

end
