(* ===== verification/Capabilities.thy ===== *)
theory Capabilities
  imports Document_Store Json_Value
begin

text \<open>
  \<open>session/capabilities.rs\<close>: what is kept of the InitializeResult of a server, and that whatever the
  server sent, the provider capabilities the rest of the program relies on have the declared types.
  The fixed profile the client offers is a static file.
\<close>

section \<open>Option checks\<close>

definition malformed_provider_option :: "string \<Rightarrow> string \<Rightarrow> string \<Rightarrow> json" where
  "malformed_provider_option capability_path field expected =
     jobj [(''code'', JString ''malformed_capability''),
       (''message'', JString (''The provider option must be '' @ expected @ ''.'')),
       (''jsonPath'', JString (capability_path @ ''.'' @ field))]"

definition is_bool :: "json \<Rightarrow> bool" where
  "is_bool v \<longleftrightarrow> as_bool v \<noteq> None"

definition is_string :: "json \<Rightarrow> bool" where
  "is_string v \<longleftrightarrow> as_str v \<noteq> None"

definition is_string_array :: "json \<Rightarrow> bool" where
  "is_string_array v \<longleftrightarrow> (case as_array v of None \<Rightarrow> False | Some items \<Rightarrow> list_all is_string items)"

definition check_optional_bool :: "(string, json) btree \<Rightarrow> string \<Rightarrow> string \<Rightarrow> json list" where
  "check_optional_bool options field p =
     (case bt_get options field of
        Some v \<Rightarrow> if is_bool v then [] else [malformed_provider_option p field ''a boolean'']
      | None \<Rightarrow> [])"

definition check_required_bool :: "(string, json) btree \<Rightarrow> string \<Rightarrow> string \<Rightarrow> json list" where
  "check_required_bool options field p =
     (case bt_get options field of
        Some v \<Rightarrow> if is_bool v then [] else [malformed_provider_option p field ''a required boolean'']
      | None \<Rightarrow> [malformed_provider_option p field ''a required boolean''])"

definition check_optional_string_array :: "(string, json) btree \<Rightarrow> string \<Rightarrow> string \<Rightarrow> json list" where
  "check_optional_string_array options field p =
     (case bt_get options field of
        Some v \<Rightarrow> if is_string_array v then [] else [malformed_provider_option p field ''an array of strings'']
      | None \<Rightarrow> [])"

definition check_required_string_array :: "(string, json) btree \<Rightarrow> string \<Rightarrow> string \<Rightarrow> json list" where
  "check_required_string_array options field p =
     (case bt_get options field of
        Some v \<Rightarrow> if is_string_array v then [] else [malformed_provider_option p field ''a required array of strings'']
      | None \<Rightarrow> [malformed_provider_option p field ''a required array of strings''])"

definition provider_option_problems :: "string \<Rightarrow> (string, json) btree \<Rightarrow> string \<Rightarrow> json list" where
  "provider_option_problems name options p =
     check_optional_bool options ''workDoneProgress'' p
     @ (if name = ''rename'' then check_optional_bool options ''prepareProvider'' p
        else if name = ''workspaceSymbols'' then check_optional_bool options ''resolveProvider'' p
        else if name = ''codeActions'' then
          check_optional_bool options ''resolveProvider'' p @ check_optional_string_array options ''codeActionKinds'' p
        else if name = ''executeCommand'' then check_required_string_array options ''commands'' p
        else if name = ''diagnostics'' then
          check_required_bool options ''interFileDependencies'' p @ check_required_bool options ''workspaceDiagnostics'' p
          @ (case bt_get options ''identifier'' of
               Some v \<Rightarrow> if is_string v then [] else [malformed_provider_option p ''identifier'' ''a string'']
             | None \<Rightarrow> [])
        else [])"

section \<open>Providers\<close>

definition unsupported_provider :: "string \<Rightarrow> json" where
  "unsupported_provider p = jobj [(''state'', JString ''unsupported''), (''capabilityPath'', JString p)]"

definition supported_provider :: "string \<Rightarrow> (string, json) btree \<Rightarrow> json" where
  "supported_provider p options =
     jobj [(''state'', JString ''supported''), (''capabilityPath'', JString p), (''options'', JObject options)]"

definition invalid_provider :: "string \<Rightarrow> string \<Rightarrow> json" where
  "invalid_provider p message =
     jobj [(''state'', JString ''invalid''), (''capabilityPath'', JString p),
       (''problems'', JArray [jobj [(''code'', JString ''malformed_capability''), (''message'', JString message),
          (''jsonPath'', JString p)]])]"

definition invalid_options :: "string \<Rightarrow> (string, json) btree \<Rightarrow> json list \<Rightarrow> json" where
  "invalid_options p options problems =
     jobj [(''state'', JString ''invalid''), (''capabilityPath'', JString p), (''options'', JObject options),
       (''problems'', JArray problems)]"

definition normalize_provider :: "(string, json) btree \<Rightarrow> string \<Rightarrow> string \<Rightarrow> json" where
  "normalize_provider capabilities name path =
     (let p = ''capabilities.'' @ path
      in case bt_get capabilities path of
           None \<Rightarrow> unsupported_provider p
         | Some v \<Rightarrow> (case v of
             JNull \<Rightarrow> unsupported_provider p
           | JBool b \<Rightarrow>
               if \<not> b then unsupported_provider p
               else if name \<notin> {''executeCommand'', ''diagnostics''} then supported_provider p []
               else invalid_provider p ''This provider capability requires an options object.''
           | JObject options \<Rightarrow>
               let problems = provider_option_problems name options p
               in if problems = [] then supported_provider p options else invalid_options p options problems
           | _ \<Rightarrow> invalid_provider p ''The optional provider capability is neither a boolean nor an options object.''))"

section \<open>The InitializeResult\<close>

definition normalize_text_synchronization :: "(string, json) btree \<Rightarrow> string + text_synchronization" where
  "normalize_text_synchronization capabilities =
     (case bt_get capabilities ''textDocumentSync'' of
        None \<Rightarrow> Inr NoSync
      | Some v \<Rightarrow> (case v of
          JNull \<Rightarrow> Inr NoSync
        | JNumber n \<Rightarrow>
            if number_u64 n = Some 0 then Inr NoSync
            else if number_u64 n \<in> {Some 1, Some 2} then Inr OpenClose
            else Inl ''textDocumentSync has an invalid core capability value''
        | JObject options \<Rightarrow>
            (case bt_get options ''openClose'' of
               None \<Rightarrow> Inr NoSync
             | Some JNull \<Rightarrow> Inr NoSync
             | Some (JBool b) \<Rightarrow> Inr (if b then OpenClose else NoSync)
             | Some _ \<Rightarrow> Inl ''textDocumentSync.openClose must be a boolean'')
        | _ \<Rightarrow> Inl ''textDocumentSync has an invalid core capability value''))"

definition negotiated_encoding :: "(string, json) btree \<Rightarrow> string + position_encoding" where
  "negotiated_encoding capabilities =
     (case bt_get capabilities ''positionEncoding'' of
        None \<Rightarrow> Inr Utf16
      | Some JNull \<Rightarrow> Inr Utf16
      | Some v \<Rightarrow>
          if v = JString ''utf-8'' then Inr Utf8
          else if v = JString ''utf-16'' then Inr Utf16
          else Inl ''The server selected an unoffered position encoding'')"

definition provider_paths :: "(string \<times> string) list" where
  "provider_paths =
     [(''hover'', ''hoverProvider''), (''definition'', ''definitionProvider''), (''references'', ''referencesProvider''),
      (''documentSymbols'', ''documentSymbolProvider''), (''workspaceSymbols'', ''workspaceSymbolProvider''),
      (''formatting'', ''documentFormattingProvider''), (''rename'', ''renameProvider''),
      (''codeActions'', ''codeActionProvider''), (''executeCommand'', ''executeCommandProvider''),
      (''diagnostics'', ''diagnosticProvider'')]"

record negotiated_capabilities =
  nc_initialize_result :: json
  nc_providers :: "(string, json) btree"
  nc_position_encoding :: position_encoding
  nc_text_synchronization :: text_synchronization

definition providers_json :: "negotiated_capabilities \<Rightarrow> json" where
  "providers_json nc = JObject (nc_providers nc)"

definition normalize_initialize_result :: "json \<Rightarrow> string + negotiated_capabilities" where
  "normalize_initialize_result result =
     (case Option.bind (json_get result ''capabilities'') as_object of
        None \<Rightarrow> Inl ''InitializeResult.capabilities must be an object''
      | Some capabilities \<Rightarrow>
          (case negotiated_encoding capabilities of
             Inl e \<Rightarrow> Inl e
           | Inr encoding \<Rightarrow>
               (case normalize_text_synchronization capabilities of
                  Inl e \<Rightarrow> Inl e
                | Inr sync \<Rightarrow>
                    Inr \<lparr>nc_initialize_result = result,
                      nc_providers = bt_of_list (map (\<lambda>(name, path). (name, normalize_provider capabilities name path)) provider_paths),
                      nc_position_encoding = encoding, nc_text_synchronization = sync\<rparr>)))"

section \<open>Types of provider options\<close>

datatype option_type = Boolean | Text | TextList

fun has_type :: "option_type \<Rightarrow> json \<Rightarrow> bool" where
  "has_type Boolean (JBool _) = True"
| "has_type Text (JString _) = True"
| "has_type TextList (JArray items) = list_all (has_type Text) items"
| "has_type _ _ = False"

text \<open>The declared options of a provider: whether the option must be there, its name and its type.\<close>

fun declared_options :: "string \<Rightarrow> (bool \<times> string \<times> option_type) list" where
  "declared_options name =
     (False, ''workDoneProgress'', Boolean) #
     (if name = ''rename'' then [(False, ''prepareProvider'', Boolean)]
      else if name = ''workspaceSymbols'' then [(False, ''resolveProvider'', Boolean)]
      else if name = ''codeActions'' then [(False, ''resolveProvider'', Boolean), (False, ''codeActionKinds'', TextList)]
      else if name = ''executeCommand'' then [(True, ''commands'', TextList)]
      else if name = ''diagnostics'' then
        [(True, ''interFileDependencies'', Boolean), (True, ''workspaceDiagnostics'', Boolean), (False, ''identifier'', Text)]
      else [])"

definition well_typed_options :: "string \<Rightarrow> (string, json) btree \<Rightarrow> bool" where
  "well_typed_options name options \<longleftrightarrow>
     list_all (\<lambda>(required, field, ty). case bt_get options field of
       None \<Rightarrow> \<not> required | Some v \<Rightarrow> has_type ty v) (declared_options name)"

lemma has_type_bool: "has_type Boolean v = is_bool v"
  by (cases v) (simp_all add: is_bool_def)

lemma has_type_text: "has_type Text v = is_string v"
  by (cases v) (simp_all add: is_string_def)

lemma has_type_list: "has_type TextList v = is_string_array v"
  using has_type_text by (cases v) (simp_all add: is_string_array_def fun_eq_iff list_all_iff)

definition option_ok :: "(string, json) btree \<Rightarrow> bool \<times> string \<times> option_type \<Rightarrow> bool" where
  "option_ok options = (\<lambda>(required, field, ty). case bt_get options field of None \<Rightarrow> \<not> required | Some v \<Rightarrow> has_type ty v)"

lemma checks_pass:
  "check_optional_bool options field p = [] \<longleftrightarrow> option_ok options (False, field, Boolean)"
  "check_required_bool options field p = [] \<longleftrightarrow> option_ok options (True, field, Boolean)"
  "check_optional_string_array options field p = [] \<longleftrightarrow> option_ok options (False, field, TextList)"
  "check_required_string_array options field p = [] \<longleftrightarrow> option_ok options (True, field, TextList)"
  "(case bt_get options field of None \<Rightarrow> [] | Some v \<Rightarrow> if is_string v then [] else [malformed_provider_option p field e]) = []
     \<longleftrightarrow> option_ok options (False, field, Text)"
  by (simp_all add: option_ok_def check_optional_bool_def check_required_bool_def check_optional_string_array_def
      check_required_string_array_def has_type_bool has_type_text has_type_list split: option.split)

lemma no_problems: "provider_option_problems name options p = [] \<longleftrightarrow> well_typed_options name options"
  unfolding provider_option_problems_def well_typed_options_def option_ok_def [symmetric] append_is_Nil_conv if_bool_eq_conj
  by (simp add: checks_pass)

lemma some_problem: "\<not> well_typed_options name options \<Longrightarrow> \<exists>q qs. provider_option_problems name options p = q # qs"
  by (metis no_problems neq_Nil_conv)

text \<open>The three forms of a provider, with what each promises of its options.\<close>

definition provider_value :: "string \<Rightarrow> json \<Rightarrow> bool" where
  "provider_value name v \<longleftrightarrow>
     json_get v ''state'' = Some (JString ''unsupported'') \<and> json_get v ''options'' = None
     \<or> json_get v ''state'' = Some (JString ''supported'')
       \<and> (\<exists>options. json_get v ''options'' = Some (JObject options) \<and> well_typed_options name options)
     \<or> json_get v ''state'' = Some (JString ''invalid'')
       \<and> (\<exists>p ps. json_get v ''problems'' = Some (JArray (p # ps)))"

lemma provider_members:
  "json_get (unsupported_provider p) ''state'' = Some (JString ''unsupported'')" "json_get (unsupported_provider p) ''options'' = None"
  "json_get (supported_provider p options) ''state'' = Some (JString ''supported'')"
  "json_get (supported_provider p options) ''options'' = Some (JObject options)"
  "json_get (invalid_provider p m) ''state'' = Some (JString ''invalid'')"
  "\<exists>q qs. json_get (invalid_provider p m) ''problems'' = Some (JArray (q # qs))"
  "json_get (invalid_options p options problems) ''state'' = Some (JString ''invalid'')"
  "json_get (invalid_options p options problems) ''problems'' = Some (JArray problems)"
  by (simp_all add: unsupported_provider_def supported_provider_def invalid_provider_def invalid_options_def jobj_def bt_get_of_list)

text \<open>What a server has to send for a provider to count as supported, and with which options.\<close>

fun offered_options :: "string \<Rightarrow> json option \<Rightarrow> (string, json) btree option" where
  "offered_options name (Some (JBool True)) = (if name \<in> {''executeCommand'', ''diagnostics''} then None else Some [])"
| "offered_options name (Some (JObject options)) = (if well_typed_options name options then Some options else None)"
| "offered_options name _ = None"

lemma empty_well_typed: "name \<notin> {''executeCommand'', ''diagnostics''} \<Longrightarrow> well_typed_options name []"
  by (simp add: well_typed_options_def)

lemma normalize_provider_value: "provider_value name (normalize_provider capabilities name path)"
  unfolding normalize_provider_def Let_def
  using empty_well_typed [of name]
  by (simp add: provider_value_def provider_members no_problems some_problem split: option.split json.split)

lemma normalize_provider_supported:
  "json_get (normalize_provider capabilities name path) ''state'' = Some (JString ''supported'')
     \<longleftrightarrow> offered_options name (bt_get capabilities path) \<noteq> None"
  "offered_options name (bt_get capabilities path) = Some options \<Longrightarrow>
     json_get (normalize_provider capabilities name path) ''options'' = Some (JObject options)"
  unfolding normalize_provider_def Let_def
  by (auto simp: provider_members no_problems split: option.splits json.splits if_splits bool.splits)

text \<open>
  C21. Whatever a server answers to the initialize request, the providers that are kept are well typed.
  There is one value for each of the ten; it is unsupported without options, supported with options that
  have every required member and only members of the declared types, or invalid with at least one
  problem. A provider is supported exactly when the server sent an object of well-typed options, which
  are then kept as they are, or the plain value true where no option is required.
\<close>

theorem providers_are_well_typed:
  assumes "normalize_initialize_result result = Inr nc"
  shows "map fst (nc_providers nc) = sort (map fst provider_paths)
    \<and> (\<forall>(name, path) \<in> set provider_paths. \<exists>v capabilities.
         bt_get (nc_providers nc) name = Some v \<and> provider_value name v
         \<and> json_get result ''capabilities'' = Some (JObject capabilities)
         \<and> (json_get v ''state'' = Some (JString ''supported'') \<longleftrightarrow> offered_options name (bt_get capabilities path) \<noteq> None)
         \<and> (\<forall>options. offered_options name (bt_get capabilities path) = Some options \<longrightarrow> json_get v ''options'' = Some (JObject options)))"
proof -
  obtain v where v: "json_get result ''capabilities'' = Some v" "as_object v \<noteq> None"
    using assms by (auto simp: normalize_initialize_result_def split: option.splits Option.bind_splits)
  then obtain capabilities where c: "json_get result ''capabilities'' = Some (JObject capabilities)" by (cases v) auto
  let ?normalized = "normalize_provider capabilities"
  let ?entries = "map (\<lambda>(name, path). (name, ?normalized name path)) provider_paths"
  have p: "nc_providers nc = bt_of_list ?entries"
    using assms c by (auto simp: normalize_initialize_result_def split: sum.splits)
  have "map fst (nc_providers nc) = sort (map fst provider_paths)"
    unfolding p by (simp add: provider_paths_def bt_of_list_def bt_insert_def)
  moreover have "bt_get (nc_providers nc) name = Some (?normalized name path)" if "(name, path) \<in> set provider_paths" for name path
  proof -
    have "distinct (map fst (rev ?entries))" by (simp add: provider_paths_def)
    moreover have "(name, ?normalized name path) \<in> set (rev ?entries)" using that by auto
    ultimately show ?thesis unfolding p bt_get_of_list by (rule map_of_is_SomeI)
  qed
  ultimately show ?thesis
    using c normalize_provider_value normalize_provider_supported by fast
qed

definition sample_result :: json where
  "sample_result = jobj [(''capabilities'', jobj [(''hoverProvider'', JBool True), (''renameProvider'', jobj [(''prepareProvider'', JNull)])])]"

definition sample_negotiated :: negotiated_capabilities where
  "sample_negotiated = projr (normalize_initialize_result sample_result)"

theorem providers_are_well_typed_witness:
  "normalize_initialize_result sample_result = Inr sample_negotiated
     \<and> (\<exists>v. bt_get (nc_providers sample_negotiated) ''rename'' = Some v \<and> provider_value ''rename'' v)"
proof -
  have "\<not> isl (normalize_initialize_result sample_result)" by code_simp
  then have "normalize_initialize_result sample_result = Inr sample_negotiated"
    by (cases "normalize_initialize_result sample_result") (simp_all add: sample_negotiated_def)
  moreover have "(''rename'', ''renameProvider'') \<in> set provider_paths" by (simp add: provider_paths_def)
  ultimately show ?thesis using providers_are_well_typed [of sample_result sample_negotiated] by fast
qed

end
