(* ===== verification/Configuration.thy ===== *)
theory Configuration
  imports Ascii_Text Utf8 Paths Contract
begin

text \<open>
  \<open>configuration.rs\<close>: the user and project files, the merge of their servers, routes and limits, and the
  selection of a server for an invocation. The TOML and JSON parsers, the filesystem, the environment
  and the crates \<open>which\<close>, \<open>url\<close>, \<open>dunce\<close> and \<open>directories\<close> are the calls of a \<open>launch_system\<close>, as they are
  at one instant. A panic is \<open>None\<close>.
\<close>

section \<open>Failures\<close>

definition invalid_configuration :: contract_failure where
  "invalid_configuration = failure 3 ''blocked'' ''invalid_configuration'' ''load_configuration'' ''not_sent'' ''after_change''"

definition workspace_failure :: contract_failure where
  "workspace_failure = failure 3 ''blocked'' ''workspace_selection_failed'' ''resolve_workspace'' ''not_sent'' ''after_change''"

definition server_selection_failure :: contract_failure where
  "server_selection_failure = failure 3 ''blocked'' ''server_selection_failed'' ''select_server'' ''not_sent'' ''after_change''"

definition incomplete_server_declaration :: contract_failure where
  "incomplete_server_declaration =
     failure 3 ''blocked'' ''server_declaration_incomplete'' ''select_server'' ''not_sent'' ''after_change''"

definition executable_unavailable :: contract_failure where
  "executable_unavailable =
     failure 4 ''unavailable'' ''server_executable_unavailable'' ''resolve_executable'' ''not_sent'' ''after_change''"

definition input_failure :: "string \<Rightarrow> contract_failure" where
  "input_failure cd = failure 2 ''input'' cd ''read_input'' ''not_applicable''
     (if cd = ''input_read_failed'' then ''after_change'' else ''never'')"

definition user_path_failure :: contract_failure where
  "user_path_failure = failure 4 ''unavailable'' ''user_path_unavailable'' ''load_configuration'' ''not_applicable'' ''after_change''"

section \<open>Sequencing\<close>

text \<open>The \<open>?\<close> of the code, on values and over a list.\<close>

definition try_then :: "'e + 'a \<Rightarrow> ('a \<Rightarrow> 'e + 'b) \<Rightarrow> 'e + 'b" where
  "try_then r f = (case r of Inl e \<Rightarrow> Inl e | Inr a \<Rightarrow> f a)"

definition ensure :: "bool \<Rightarrow> 'e \<Rightarrow> 'e + unit" where
  "ensure c e = (if c then Inr () else Inl e)"

fun collect :: "('e + 'a) list \<Rightarrow> 'e + 'a list" where
  "collect [] = Inr []"
| "collect (r # rs) = try_then r (\<lambda>a. try_then (collect rs) (\<lambda>as. Inr (a # as)))"

definition or_given :: "'a option \<Rightarrow> 'a option \<Rightarrow> 'a option" where
  "or_given x y = (case x of Some a \<Rightarrow> Some a | None \<Rightarrow> y)"

definition or_value :: "'a option \<Rightarrow> 'a \<Rightarrow> 'a" where
  "or_value x y = (case x of Some a \<Rightarrow> a | None \<Rightarrow> y)"

lemma try_then_Inr [simp]: "try_then r f = Inr b \<longleftrightarrow> (\<exists>a. r = Inr a \<and> f a = Inr b)"
  by (cases r) (simp_all add: try_then_def)

lemma ensure_Inr [simp]: "ensure c e = Inr u \<longleftrightarrow> c"
  by (simp add: ensure_def)

lemma collect_Inr: "collect rs = Inr xs \<longleftrightarrow> rs = map Inr xs"
  by (induction rs arbitrary: xs) (auto simp: Cons_eq_map_conv)

text \<open>A panic, or the result.\<close>

type_synonym 'a or_panic = "(contract_failure + 'a) option"

definition panic_then :: "'a or_panic \<Rightarrow> ('a \<Rightarrow> 'b or_panic) \<Rightarrow> 'b or_panic" where
  "panic_then r f = (case r of None \<Rightarrow> None | Some (Inl e) \<Rightarrow> Some (Inl e) | Some (Inr a) \<Rightarrow> f a)"

lemma panic_then_Some [simp]: "panic_then r f = Some (Inr b) \<longleftrightarrow> (\<exists>a. r = Some (Inr a) \<and> f a = Some (Inr b))"
  by (auto simp: panic_then_def split: option.splits sum.splits)

fun panic_collect :: "'a or_panic list \<Rightarrow> 'a list or_panic" where
  "panic_collect [] = Some (Inr [])"
| "panic_collect (r # rs) = panic_then r (\<lambda>a. panic_then (panic_collect rs) (\<lambda>as. Some (Inr (a # as))))"

text \<open>
  A failure whose data names a path. \<open>json!\<close> of a path that is not UTF-8 panics; the two paths of
  \<open>ensure_configuration_path\<close> do as well.
\<close>

definition naming_path :: "string \<Rightarrow> contract_failure + 'a \<Rightarrow> 'a or_panic" where
  "naming_path p r = (case r of Inl e \<Rightarrow> if utf8_valid p then Some (Inl e) else None | Inr a \<Rightarrow> Some (Inr a))"

lemma naming_path_Some [simp]: "naming_path p r = Some (Inr a) \<longleftrightarrow> r = Inr a"
  by (auto simp: naming_path_def split: sum.splits)

section \<open>Values of TOML\<close>

text \<open>Integers are \<open>i64\<close>, floats their bit patterns.\<close>

datatype toml =
    TomlString string
  | TomlInteger "64 word"
  | TomlFloat "64 word"
  | TomlBoolean bool
  | TomlDatetime
  | TomlArray "toml list"
  | TomlTable "(string \<times> toml) list"

definition float_finite :: "64 word \<Rightarrow> bool" where
  "float_finite w \<longleftrightarrow> take_bit 11 (drop_bit 52 w) \<noteq> mask 11"

function toml_to_json :: "toml \<Rightarrow> contract_failure + json" where
  "toml_to_json (TomlString s) = Inr (JString s)"
| "toml_to_json (TomlInteger w) = Inr (jint (sint w))"
| "toml_to_json (TomlFloat w) = (if float_finite w then Inr (JNumber (Float64 w)) else Inl invalid_configuration)"
| "toml_to_json (TomlBoolean b) = Inr (JBool b)"
| "toml_to_json TomlDatetime = Inl invalid_configuration"
| "toml_to_json (TomlArray values) = try_then (collect (map toml_to_json values)) (\<lambda>xs. Inr (JArray xs))"
| "toml_to_json (TomlTable values) =
     try_then (collect (map (\<lambda>e. try_then (toml_to_json (snd e)) (\<lambda>v. Inr (fst e, v))) values)) (\<lambda>es. Inr (jobj es))"
  by pat_completeness auto
termination
proof (relation "measure size")
  show "(x, TomlArray vs) \<in> measure size" if "x \<in> set vs" for x vs
    using that by (simp add: le_imp_less_Suc size_list_estimation')
  show "(snd e, TomlTable vs) \<in> measure size" if "e \<in> set vs" for e vs
    using that by (induction vs) (auto split: prod.splits)
qed simp

definition table_to_json :: "(string \<times> toml) list \<Rightarrow> contract_failure + json" where
  "table_to_json table = toml_to_json (TomlTable table)"

definition reject_toml_datetime :: "toml \<Rightarrow> contract_failure + unit" where
  "reject_toml_datetime v = try_then (toml_to_json v) (\<lambda>_. Inr ())"

section \<open>The files\<close>

record route_config =
  rt_server :: string
  rt_language_id :: string
  rt_extensions :: "string list"

record session_config =
  ss_owner_startup_timeout :: "string option"
  ss_initialization_timeout :: "string option"
  ss_request_timeout :: "string option"
  ss_cancellation_grace :: "string option"
  ss_shutdown_timeout :: "string option"
  ss_idle_timeout :: "string option"

record synchronization_config =
  sn_max_open_documents :: "nat option"
  sn_max_document_bytes :: "nat option"
  sn_max_total_text_bytes :: "nat option"
  sn_max_diagnostic_snapshots :: "nat option"
  sn_max_diagnostic_bytes :: "nat option"

record protocol_config =
  pt_max_message_bytes :: "nat option"
  pt_max_partial_result_bytes :: "nat option"

record preview_config =
  pw_max_count :: "nat option"
  pw_max_total_bytes :: "nat option"
  pw_max_document_text_bytes :: "nat option"
  pw_max_text_bytes :: "nat option"

record mutation_config =
  mu_application_lock_timeout :: "string option"
  mu_max_entries :: "nat option"
  mu_max_recursion_depth :: "nat option"
  mu_max_rollback_bytes :: "nat option"
  mu_max_staged_text_bytes :: "nat option"
  mu_max_preauthorized_callbacks :: "nat option"

record project_server_config =
  sc_executable :: "string option"
  sc_args :: "string list option"
  sc_cwd :: "string option"
  sc_environment :: "(string, string) btree option"
  sc_initialization_options :: "toml option"
  sc_settings :: "(string \<times> toml) list option"

record user_server_config = project_server_config +
  sc_request_timeout :: "string option"
  sc_published_diagnostics_wait :: "string option"

record project_config_file =
  pf_version :: nat
  pf_default_server :: "string option"
  pf_routes :: "route_config list option"
  pf_servers :: "(string, project_server_config) btree"

record user_config_file =
  uf_version :: nat
  uf_default_server :: "string option"
  uf_routes :: "route_config list option"
  uf_servers :: "(string, user_server_config) btree"
  uf_session :: "session_config option"
  uf_synchronization :: "synchronization_config option"
  uf_protocol :: "protocol_config option"
  uf_previews :: "preview_config option"
  uf_receipts :: "nat option option"
  uf_mutation :: "mutation_config option"

text \<open>A file that is missing, cannot be read, does not decode, or its value.\<close>

datatype 'a toml_file = NoFile | Unreadable | Undecodable | Decoded 'a

datatype json_file = JsonUnreadable | JsonInvalid | JsonValue json

text \<open>
  \<open>ls_environment\<close> is \<open>vars_os\<close> by name; \<open>ls_config_directory\<close> and \<open>ls_state_directory\<close> are those of the
  crate \<open>directories\<close>; \<open>ls_lossy\<close> is \<open>to_string_lossy\<close> of bytes that are not UTF-8.
\<close>

record launch_system =
  ls_current_directory :: "path option"
  ls_canonicalize :: "path \<Rightarrow> path option"
  ls_is_directory :: "path \<Rightarrow> bool"
  ls_directory_url :: "path \<Rightarrow> string option"
  ls_environment :: "(string, string) btree"
  ls_config_directory :: "path option"
  ls_state_directory :: "path option"
  ls_read_user :: "path \<Rightarrow> user_config_file toml_file"
  ls_read_project :: "path \<Rightarrow> project_config_file toml_file"
  ls_read_json :: "path \<Rightarrow> json_file"
  ls_parse_json :: "string \<Rightarrow> json option"
  ls_which :: "string \<Rightarrow> string option \<Rightarrow> path \<Rightarrow> path option"
  ls_lossy :: "string \<Rightarrow> string"
  ls_sha :: "string \<Rightarrow> string"
  ls_hex :: "string \<Rightarrow> string"

section \<open>Paths as text\<close>

definition to_string_lossy :: "launch_system \<Rightarrow> string \<Rightarrow> string" where
  "to_string_lossy ls s = (if utf8_valid s then s else ls_lossy ls s)"

text \<open>\<open>PathBuf::from\<close> and \<open>as_os_str\<close> on Unix: \<open>.\<close> is kept only at the start, empty components are not.\<close>

fun path_components :: "string list \<Rightarrow> path" where
  "path_components [] = []"
| "path_components (s # ss) =
     (if s = [] \<or> s = ''.'' then path_components ss
      else (if s = ''..'' then ParentDir else Normal s) # path_components ss)"

definition path_of_string :: "string \<Rightarrow> path" where
  "path_of_string s =
     (case split_on (CHR ''/'') s of
        [] \<Rightarrow> []
      | first # rest \<Rightarrow>
          (if s = [] then []
           else if first = [] then RootDir # path_components rest
           else if first = ''.'' then CurDir # path_components rest
           else path_components (first # rest)))"

fun component_bytes :: "component \<Rightarrow> string" where
  "component_bytes (Normal s) = s"
| "component_bytes (PrefixC s) = s"
| "component_bytes RootDir = []"
| "component_bytes CurDir = ''.''"
| "component_bytes ParentDir = ''..''"

fun join_bytes :: "string list \<Rightarrow> string" where
  "join_bytes [] = []"
| "join_bytes [s] = s"
| "join_bytes (s # ss) = s @ CHR ''/'' # join_bytes ss"

definition path_bytes :: "path \<Rightarrow> string" where
  "path_bytes p = (if p = [RootDir] then ''/'' else join_bytes (map component_bytes p))"

section \<open>Validation\<close>

definition ascii_alphabetic :: "char \<Rightarrow> bool" where
  "ascii_alphabetic c \<longleftrightarrow> CHR ''A'' \<le> c \<and> c \<le> CHR ''Z'' \<or> CHR ''a'' \<le> c \<and> c \<le> CHR ''z''"

definition valid_server_name :: "string \<Rightarrow> bool" where
  "valid_server_name s \<longleftrightarrow>
     (case s of [] \<Rightarrow> False
      | c # cs \<Rightarrow> length s \<le> 64 \<and> ascii_alphabetic c
          \<and> list_all (\<lambda>d. ascii_alphabetic d \<or> ascii_digit d \<or> d = CHR ''_'' \<or> d = CHR ''-'') cs)"

definition validate_server_name :: "string \<Rightarrow> contract_failure + unit" where
  "validate_server_name name = ensure (valid_server_name name) invalid_configuration"

definition validate_version :: "nat \<Rightarrow> contract_failure + unit" where
  "validate_version version = ensure (version = 1) invalid_configuration"

text \<open>In milliseconds.\<close>

definition duration_digits :: "string \<Rightarrow> (string \<times> nat) option" where
  "duration_digits value =
     (case strip_suffix value ''ms'' of
        Some digits \<Rightarrow> Some (digits, 1)
      | None \<Rightarrow> (case strip_suffix value ''s'' of
          Some digits \<Rightarrow> Some (digits, 1000)
        | None \<Rightarrow> (case strip_suffix value ''m'' of
            Some digits \<Rightarrow> Some (digits, 60000)
          | None \<Rightarrow> None)))"

definition validate_duration :: "string \<Rightarrow> contract_failure + nat" where
  "validate_duration value =
     (case duration_digits value of
        None \<Rightarrow> Inl invalid_configuration
      | Some (digits, multiplier) \<Rightarrow>
          (case parse_u64 digits of
             None \<Rightarrow> Inl invalid_configuration
           | Some amount \<Rightarrow>
               if amount = 0 then Inl invalid_configuration
               else if amount * multiplier \<le> u64_max then Inr (amount * multiplier)
               else Inl invalid_configuration))"

definition positive_or_default :: "nat option \<Rightarrow> nat \<Rightarrow> contract_failure + nat" where
  "positive_or_default value fallback =
     (let v = or_value value fallback in if v > 0 then Inr v else Inl invalid_configuration)"

text \<open>A server of either file; only a user server has durations.\<close>

definition validate_server :: "'a project_server_config_scheme \<Rightarrow> contract_failure + unit" where
  "validate_server server =
     try_then (case sc_initialization_options server of None \<Rightarrow> Inr () | Some v \<Rightarrow> reject_toml_datetime v) (\<lambda>_.
     (case sc_settings server of None \<Rightarrow> Inr () | Some table \<Rightarrow> try_then (table_to_json table) (\<lambda>_. Inr ())))"

definition validate_optional_duration :: "string option \<Rightarrow> contract_failure + unit" where
  "validate_optional_duration value =
     (case value of None \<Rightarrow> Inr () | Some v \<Rightarrow> try_then (validate_duration v) (\<lambda>_. Inr ()))"

definition validate_user_file :: "user_config_file \<Rightarrow> contract_failure + unit" where
  "validate_user_file config =
     try_then (collect (map (\<lambda>(name, server).
       try_then (validate_server_name name) (\<lambda>_.
       try_then (validate_optional_duration (sc_request_timeout server)) (\<lambda>_.
       try_then (validate_optional_duration (sc_published_diagnostics_wait server)) (\<lambda>_.
       validate_server server)))) (uf_servers config))) (\<lambda>_. Inr ())"

definition validate_project_file :: "project_config_file \<Rightarrow> contract_failure + unit" where
  "validate_project_file config =
     try_then (collect (map (\<lambda>(name, server).
       try_then (validate_server_name name) (\<lambda>_. validate_server server)) (pf_servers config))) (\<lambda>_. Inr ())"

section \<open>Merging servers\<close>

datatype config_source = BuiltIn | UserSource | ProjectSource | CliSource

record 'a sourced_value =
  so_value :: 'a
  so_source :: config_source
  so_directory :: path

definition sourced :: "'a \<Rightarrow> config_source \<Rightarrow> path \<Rightarrow> 'a sourced_value" where
  "sourced v source directory = \<lparr>so_value = v, so_source = source, so_directory = directory\<rparr>"

definition sourced_field :: "'a option \<Rightarrow> 'a option \<Rightarrow> path \<Rightarrow> path \<Rightarrow> 'a sourced_value option" where
  "sourced_field user project user_directory workspace =
     or_given (map_option (\<lambda>v. sourced v ProjectSource workspace) project)
       (map_option (\<lambda>v. sourced v UserSource user_directory) user)"

record effective_server =
  es_name :: string
  es_executable :: "string sourced_value option"
  es_args :: "string list sourced_value"
  es_cwd :: "string sourced_value option"
  es_environment :: "(string, string sourced_value) btree"
  es_initialization_options :: "json sourced_value option"
  es_settings :: "json sourced_value"
  es_request_timeout :: string
  es_published_diagnostics_wait :: string
  es_project_fields :: "string list"

definition from_project :: "'a sourced_value \<Rightarrow> bool" where
  "from_project s \<longleftrightarrow> so_source s = ProjectSource"

definition optional_from_project :: "'a sourced_value option \<Rightarrow> bool" where
  "optional_from_project s \<longleftrightarrow> (case s of None \<Rightarrow> False | Some v \<Rightarrow> from_project v)"

text \<open>The fields the project controls, in the order of the set.\<close>

definition project_fields_of ::
  "string sourced_value option \<Rightarrow> string list sourced_value \<Rightarrow> string sourced_value option \<Rightarrow> (string, string sourced_value) btree
     \<Rightarrow> json sourced_value option \<Rightarrow> json sourced_value \<Rightarrow> string list" where
  "project_fields_of executable args cwd environment initialization_options settings =
     fold (\<lambda>(c, field) fields. if c then bs_insert field fields else fields)
       [(optional_from_project executable, ''executable''), (from_project args, ''args''),
        (optional_from_project cwd, ''cwd''), (list_ex (\<lambda>e. from_project (snd e)) environment, ''environment''),
        (optional_from_project initialization_options, ''initialization_options''), (from_project settings, ''settings'')] []"

definition insert_sourced ::
  "config_source \<Rightarrow> path \<Rightarrow> (string, string) btree option \<Rightarrow> (string, string sourced_value) btree \<Rightarrow> (string, string sourced_value) btree" where
  "insert_sourced source directory vars environment =
     fold (\<lambda>(key, v). bt_insert key (sourced v source directory)) (or_value vars []) environment"

definition convert_option :: "('a \<Rightarrow> contract_failure + json) \<Rightarrow> 'a option \<Rightarrow> contract_failure + json option" where
  "convert_option f v = (case v of None \<Rightarrow> Inr None | Some x \<Rightarrow> try_then (f x) (\<lambda>y. Inr (Some y)))"

definition merge_server ::
  "launch_system \<Rightarrow> user_config_file option \<Rightarrow> string \<Rightarrow> user_server_config option \<Rightarrow> project_server_config option
     \<Rightarrow> path \<Rightarrow> path \<Rightarrow> contract_failure + effective_server" where
  "merge_server ls user name user_server project_server user_directory workspace =
     (let request_timeout = or_value (or_given (Option.bind user_server sc_request_timeout)
            (Option.bind user (\<lambda>config. Option.bind (uf_session config) ss_request_timeout))) ''30s'';
          wait = or_value (Option.bind user_server sc_published_diagnostics_wait) ''2s'';
          executable = sourced_field (Option.bind user_server sc_executable) (Option.bind project_server sc_executable) user_directory workspace;
          args = or_value (sourced_field (Option.bind user_server sc_args) (Option.bind project_server sc_args) user_directory workspace)
            (sourced [] BuiltIn workspace);
          cwd = or_given (sourced_field (Option.bind user_server sc_cwd) (Option.bind project_server sc_cwd) user_directory workspace)
            (Some (sourced (to_string_lossy ls (path_bytes workspace)) BuiltIn workspace));
          environment = insert_sourced ProjectSource workspace (Option.bind project_server sc_environment)
            (insert_sourced UserSource user_directory (Option.bind user_server sc_environment) [])
      in try_then (validate_duration request_timeout) (\<lambda>_.
         try_then (validate_duration wait) (\<lambda>_.
         try_then (convert_option toml_to_json (Option.bind user_server sc_initialization_options)) (\<lambda>user_options.
         try_then (convert_option toml_to_json (Option.bind project_server sc_initialization_options)) (\<lambda>project_options.
         let options = sourced_field user_options project_options user_directory workspace
         in try_then (convert_option table_to_json (Option.bind user_server sc_settings)) (\<lambda>user_settings.
            try_then (convert_option table_to_json (Option.bind project_server sc_settings)) (\<lambda>project_settings.
            let settings = or_value (sourced_field user_settings project_settings user_directory workspace)
                  (sourced (jobj []) BuiltIn workspace)
            in Inr \<lparr>es_name = name, es_executable = executable, es_args = args, es_cwd = cwd, es_environment = environment,
                 es_initialization_options = options, es_settings = settings, es_request_timeout = request_timeout,
                 es_published_diagnostics_wait = wait,
                 es_project_fields = project_fields_of executable args cwd environment options settings\<rparr>)))))))"

definition merge_servers ::
  "launch_system \<Rightarrow> user_config_file option \<Rightarrow> project_config_file option \<Rightarrow> path \<Rightarrow> path
     \<Rightarrow> contract_failure + (string, effective_server) btree" where
  "merge_servers ls user project user_directory workspace =
     (let names = bs_of_list (or_value (map_option (\<lambda>c. bt_keys (uf_servers c)) user) []
            @ or_value (map_option (\<lambda>c. bt_keys (pf_servers c)) project) [])
      in try_then (collect (map (\<lambda>name.
           try_then (merge_server ls user name (Option.bind user (\<lambda>c. bt_get (uf_servers c) name))
               (Option.bind project (\<lambda>c. bt_get (pf_servers c) name)) user_directory workspace)
             (\<lambda>server. Inr (name, server))) names)) (\<lambda>es. Inr (bt_of_list es)))"

end
