(* ===== verification/Server_Selection.thy ===== *)
theory Server_Selection
  imports Configuration
begin

text \<open>
  \<open>configuration.rs\<close>, continued: the limits of the user file, the loaded configuration of a Workspace, the
  selection of a server with the overrides of an invocation, and what it is launched with.
\<close>

section \<open>Limits\<close>

record session_settings =
  se_owner_startup_timeout :: string
  se_initialization_timeout :: string
  se_request_timeout :: string
  se_cancellation_grace :: string
  se_shutdown_timeout :: string
  se_idle_timeout :: string

record synchronization_settings =
  sy_max_open_documents :: nat
  sy_max_document_bytes :: nat
  sy_max_total_text_bytes :: nat
  sy_max_diagnostic_snapshots :: nat
  sy_max_diagnostic_bytes :: nat

record protocol_settings =
  ps_max_message_bytes :: nat
  ps_max_partial_result_bytes :: nat

record preview_settings =
  vs_max_count :: nat
  vs_max_total_bytes :: nat
  vs_max_document_text_bytes :: nat
  vs_max_text_bytes :: nat

record mutation_settings =
  ms_application_lock_timeout :: string
  ms_max_entries :: nat
  ms_max_recursion_depth :: nat
  ms_max_rollback_bytes :: nat
  ms_max_staged_text_bytes :: nat
  ms_max_preauthorized_callbacks :: nat

record settings =
  st_session :: session_settings
  st_synchronization :: synchronization_settings
  st_protocol :: protocol_settings
  st_previews :: preview_settings
  st_max_receipts :: nat
  st_mutation :: mutation_settings

definition validate_durations :: "string list \<Rightarrow> contract_failure + unit" where
  "validate_durations ds = try_then (collect (map validate_duration ds)) (\<lambda>_. Inr ())"

definition session_of :: "session_config option \<Rightarrow> contract_failure + session_settings" where
  "session_of config =
     (let s = \<lparr>se_owner_startup_timeout = or_value (Option.bind config ss_owner_startup_timeout) ''30s'',
            se_initialization_timeout = or_value (Option.bind config ss_initialization_timeout) ''30s'',
            se_request_timeout = or_value (Option.bind config ss_request_timeout) ''30s'',
            se_cancellation_grace = or_value (Option.bind config ss_cancellation_grace) ''5s'',
            se_shutdown_timeout = or_value (Option.bind config ss_shutdown_timeout) ''5s'',
            se_idle_timeout = or_value (Option.bind config ss_idle_timeout) ''10m''\<rparr>
      in try_then (validate_durations [se_owner_startup_timeout s, se_initialization_timeout s, se_request_timeout s,
           se_cancellation_grace s, se_shutdown_timeout s, se_idle_timeout s]) (\<lambda>_. Inr s))"

definition synchronization_of :: "synchronization_config option \<Rightarrow> contract_failure + synchronization_settings" where
  "synchronization_of config =
     try_then (positive_or_default (Option.bind config sn_max_open_documents) 128) (\<lambda>documents.
     try_then (positive_or_default (Option.bind config sn_max_document_bytes) 16777216) (\<lambda>document_bytes.
     try_then (positive_or_default (Option.bind config sn_max_total_text_bytes) 67108864) (\<lambda>total.
     try_then (positive_or_default (Option.bind config sn_max_diagnostic_snapshots) 128) (\<lambda>snapshots.
     try_then (positive_or_default (Option.bind config sn_max_diagnostic_bytes) 134217728) (\<lambda>diagnostic_bytes.
     if total < document_bytes then Inl invalid_configuration
     else Inr \<lparr>sy_max_open_documents = documents, sy_max_document_bytes = document_bytes, sy_max_total_text_bytes = total,
            sy_max_diagnostic_snapshots = snapshots, sy_max_diagnostic_bytes = diagnostic_bytes\<rparr>)))))"

definition protocol_of :: "protocol_config option \<Rightarrow> contract_failure + protocol_settings" where
  "protocol_of config =
     try_then (positive_or_default (Option.bind config pt_max_message_bytes) 67108864) (\<lambda>message.
     try_then (positive_or_default (Option.bind config pt_max_partial_result_bytes) 67108864) (\<lambda>partial.
     Inr \<lparr>ps_max_message_bytes = message, ps_max_partial_result_bytes = partial\<rparr>))"

definition previews_of :: "preview_config option \<Rightarrow> contract_failure + preview_settings" where
  "previews_of config =
     try_then (positive_or_default (Option.bind config pw_max_count) 64) (\<lambda>number.
     try_then (positive_or_default (Option.bind config pw_max_total_bytes) 268435456) (\<lambda>total.
     try_then (positive_or_default (Option.bind config pw_max_document_text_bytes) 16777216) (\<lambda>document_text.
     try_then (positive_or_default (Option.bind config pw_max_text_bytes) 67108864) (\<lambda>all_text.
     if total < all_text \<or> all_text < document_text then Inl invalid_configuration
     else Inr \<lparr>vs_max_count = number, vs_max_total_bytes = total, vs_max_document_text_bytes = document_text,
            vs_max_text_bytes = all_text\<rparr>))))"

definition mutation_of :: "mutation_config option \<Rightarrow> contract_failure + mutation_settings" where
  "mutation_of config =
     (let timeout = or_value (Option.bind config mu_application_lock_timeout) ''30s''
      in try_then (positive_or_default (Option.bind config mu_max_entries) 10000) (\<lambda>entries.
         try_then (positive_or_default (Option.bind config mu_max_recursion_depth) 64) (\<lambda>depth.
         try_then (positive_or_default (Option.bind config mu_max_rollback_bytes) 1073741824) (\<lambda>rollback.
         try_then (positive_or_default (Option.bind config mu_max_staged_text_bytes) 67108864) (\<lambda>staged.
         try_then (positive_or_default (Option.bind config mu_max_preauthorized_callbacks) 64) (\<lambda>callbacks.
         try_then (validate_duration timeout) (\<lambda>_.
         Inr \<lparr>ms_application_lock_timeout = timeout, ms_max_entries = entries, ms_max_recursion_depth = depth,
           ms_max_rollback_bytes = rollback, ms_max_staged_text_bytes = staged, ms_max_preauthorized_callbacks = callbacks\<rparr>)))))))"

definition user_settings :: "user_config_file option \<Rightarrow> contract_failure + settings" where
  "user_settings user =
     try_then (session_of (Option.bind user uf_session)) (\<lambda>session.
     try_then (synchronization_of (Option.bind user uf_synchronization)) (\<lambda>synchronization.
     try_then (protocol_of (Option.bind user uf_protocol)) (\<lambda>protocol.
     try_then (previews_of (Option.bind user uf_previews)) (\<lambda>previews.
     try_then (positive_or_default (Option.bind (Option.bind user uf_receipts) (\<lambda>m. m)) 1024) (\<lambda>receipts.
     try_then (mutation_of (Option.bind user uf_mutation)) (\<lambda>mutation.
     Inr \<lparr>st_session = session, st_synchronization = synchronization, st_protocol = protocol, st_previews = previews,
       st_max_receipts = receipts, st_mutation = mutation\<rparr>))))))"

section \<open>Routes\<close>

definition extension_valid :: "string \<Rightarrow> bool" where
  "extension_valid extension \<longleftrightarrow> extension \<noteq> [] \<and> hd extension = CHR ''.'' \<and> CHR ''/'' \<notin> set extension \<and> CHR 0x5C \<notin> set extension"

fun add_selectors :: "route_config \<Rightarrow> string list \<Rightarrow> (string \<times> string \<times> string) list \<Rightarrow> contract_failure + (string \<times> string \<times> string) list" where
  "add_selectors route [] selectors = Inr selectors"
| "add_selectors route (extension # extensions) selectors =
     (let selector = (rt_server route, rt_language_id route, map ascii_lower extension)
      in if selector \<in> set selectors then Inl invalid_configuration
         else add_selectors route extensions (selector # selectors))"

fun validate_routes_from ::
  "(string, effective_server) btree \<Rightarrow> route_config list \<Rightarrow> (string \<times> string \<times> string) list \<Rightarrow> contract_failure + unit" where
  "validate_routes_from servers [] selectors = Inr ()"
| "validate_routes_from servers (route # routes) selectors =
     try_then (validate_server_name (rt_server route)) (\<lambda>_.
     if rt_language_id route = [] \<or> rt_extensions route = [] \<or> \<not> list_all extension_valid (rt_extensions route)
     then Inl invalid_configuration
     else if bt_get servers (rt_server route) = None then Inl invalid_configuration
     else try_then (add_selectors route (rt_extensions route) selectors) (validate_routes_from servers routes))"

definition validate_routes :: "route_config list \<Rightarrow> (string, effective_server) btree \<Rightarrow> contract_failure + unit" where
  "validate_routes routes servers = validate_routes_from servers routes []"

definition unique_route_server :: "route_config list \<Rightarrow> (route_config \<Rightarrow> bool) \<Rightarrow> contract_failure + string" where
  "unique_route_server routes selects =
     (case bs_of_list (map rt_server (filter selects routes)) of
        [server] \<Rightarrow> Inr server
      | _ \<Rightarrow> Inl server_selection_failure)"

definition names_end :: "string \<Rightarrow> string \<Rightarrow> bool" where
  "names_end file extension \<longleftrightarrow> suffix (map ascii_lower extension) file"

fun maximum :: "nat list \<Rightarrow> nat option" where
  "maximum [] = None"
| "maximum (n # ns) = (case maximum ns of None \<Rightarrow> Some n | Some m \<Rightarrow> Some (max n m))"

text \<open>The routes with each of their extensions, and the length of the longest one the file has.\<close>

definition route_extensions :: "route_config list \<Rightarrow> (route_config \<times> string) list" where
  "route_extensions routes = concat (map (\<lambda>route. map (Pair route) (rt_extensions route)) routes)"

definition longest_extension :: "string \<Rightarrow> (route_config \<times> string) list \<Rightarrow> nat option" where
  "longest_extension file es = maximum (map (\<lambda>e. length (snd e)) (filter (\<lambda>e. names_end file (snd e)) es))"

definition lower_path :: "launch_system \<Rightarrow> string \<Rightarrow> string" where
  "lower_path ls file = map ascii_lower (to_string_lossy ls file)"

definition longest_extension_server :: "launch_system \<Rightarrow> route_config list \<Rightarrow> string \<Rightarrow> contract_failure + string" where
  "longest_extension_server ls routes path =
     (let file = lower_path ls path
      in case longest_extension file (route_extensions routes) of
           None \<Rightarrow> Inl server_selection_failure
         | Some longest \<Rightarrow> unique_route_server routes (\<lambda>route.
             list_ex (\<lambda>extension. length extension = longest \<and> names_end file extension) (rt_extensions route)))"

section \<open>The loaded configuration\<close>

record loaded_configuration =
  lc_workspace :: path
  lc_workspace_uri :: string
  lc_project_path :: path
  lc_default_server :: "string option"
  lc_routes :: "route_config list"
  lc_servers :: "(string, effective_server) btree"
  lc_settings :: settings

definition canonical_workspace :: "launch_system \<Rightarrow> path \<Rightarrow> contract_failure + path" where
  "canonical_workspace ls p =
     (case (if p = [] then ls_current_directory ls else Some p) of
        None \<Rightarrow> Inl workspace_failure
      | Some p \<Rightarrow> (case ls_canonicalize ls p of
          None \<Rightarrow> Inl workspace_failure
        | Some canonical \<Rightarrow> if ls_is_directory ls canonical then Inr canonical else Inl workspace_failure))"

definition resolved_user_config_path :: "launch_system \<Rightarrow> contract_failure + path" where
  "resolved_user_config_path ls =
     (case bt_get (ls_environment ls) ''XDG_CONFIG_HOME'' of
        Some xdg \<Rightarrow>
          let p = path_of_string xdg
          in if is_absolute p then Inr (join_path p [Normal ''lspctl'', Normal ''config.toml'']) else Inl user_path_failure
      | None \<Rightarrow> (case ls_config_directory ls of
          Some directory \<Rightarrow> Inr (join_name directory ''config.toml'')
        | None \<Rightarrow> Inl user_path_failure))"

fun read_optional_toml :: "'a toml_file \<Rightarrow> contract_failure + 'a option" where
  "read_optional_toml NoFile = Inr None"
| "read_optional_toml (Decoded config) = Inr (Some config)"
| "read_optional_toml _ = Inl invalid_configuration"

definition validate_user :: "user_config_file option \<Rightarrow> contract_failure + unit" where
  "validate_user user =
     (case user of None \<Rightarrow> Inr ()
      | Some config \<Rightarrow> try_then (validate_version (uf_version config)) (\<lambda>_. validate_user_file config))"

definition validate_project :: "project_config_file option \<Rightarrow> contract_failure + unit" where
  "validate_project project =
     (case project of None \<Rightarrow> Inr ()
      | Some config \<Rightarrow> try_then (validate_version (pf_version config)) (\<lambda>_. validate_project_file config))"

definition validate_default :: "string option \<Rightarrow> (string, effective_server) btree \<Rightarrow> contract_failure + unit" where
  "validate_default default_server servers =
     ensure (case default_server of None \<Rightarrow> True | Some server \<Rightarrow> bt_get servers server \<noteq> None) invalid_configuration"

definition load_configuration :: "launch_system \<Rightarrow> path \<Rightarrow> bool \<Rightarrow> loaded_configuration or_panic" where
  "load_configuration ls selected ignore_project =
     panic_then (Some (canonical_workspace ls selected)) (\<lambda>workspace.
     case ls_directory_url ls workspace of None \<Rightarrow> Some (Inl workspace_failure) | Some uri \<Rightarrow>
     panic_then (Some (resolved_user_config_path ls)) (\<lambda>user_path.
     let project_path = join_name workspace ''.lspctl.toml''; user_text = path_bytes user_path; project_text = path_bytes project_path
     in panic_then (naming_path user_text (read_optional_toml (ls_read_user ls user_path))) (\<lambda>user.
        panic_then (if ignore_project then Some (Inr None) else naming_path project_text (read_optional_toml (ls_read_project ls project_path))) (\<lambda>project.
        let either_text = (if project = None then user_text else project_text)
        in panic_then (naming_path user_text (validate_user user)) (\<lambda>_.
           panic_then (naming_path project_text (validate_project project)) (\<lambda>_.
           panic_then (naming_path either_text (merge_servers ls user project (or_value (parent user_path) []) workspace)) (\<lambda>servers.
           let routes = or_value (or_given (Option.bind project pf_routes) (Option.bind user uf_routes)) [];
               default_server = or_given (Option.bind project pf_default_server) (Option.bind user uf_default_server)
           in panic_then (naming_path either_text (validate_routes routes servers)) (\<lambda>_.
              panic_then (naming_path either_text (validate_default default_server servers)) (\<lambda>_.
              panic_then (naming_path user_text (user_settings user)) (\<lambda>limits.
              Some (Inr \<lparr>lc_workspace = workspace, lc_workspace_uri = uri, lc_project_path = project_path,
                lc_default_server = default_server, lc_routes = routes, lc_servers = servers, lc_settings = limits\<rparr>)))))))))))"

section \<open>Overrides of an invocation\<close>

text \<open>The values of an option are the bytes of its arguments.\<close>

record parsed_invocation =
  iv_command :: "string list"
  iv_options :: "(string, string list) btree"

definition option_value :: "parsed_invocation \<Rightarrow> string \<Rightarrow> string option" where
  "option_value iv name =
     (case bt_get (iv_options iv) name of Some (v # vs) \<Rightarrow> Some v | _ \<Rightarrow> None)"

definition option_string :: "launch_system \<Rightarrow> parsed_invocation \<Rightarrow> string \<Rightarrow> string option" where
  "option_string ls iv name = map_option (to_string_lossy ls) (option_value iv name)"

definition option_strings :: "launch_system \<Rightarrow> parsed_invocation \<Rightarrow> string \<Rightarrow> string list option" where
  "option_strings ls iv name = map_option (map (to_string_lossy ls)) (bt_get (iv_options iv) name)"

definition has_option :: "parsed_invocation \<Rightarrow> string \<Rightarrow> bool" where
  "has_option iv name \<longleftrightarrow> bt_get (iv_options iv) name \<noteq> None"

definition read_json_input :: "launch_system \<Rightarrow> string \<Rightarrow> bool \<Rightarrow> json or_panic" where
  "read_json_input ls p object_required =
     naming_path p (case ls_read_json ls (path_of_string p) of
        JsonUnreadable \<Rightarrow> Inl (input_failure ''input_read_failed'')
      | JsonInvalid \<Rightarrow> Inl (input_failure ''invalid_json_input'')
      | JsonValue v \<Rightarrow> if object_required \<and> as_object v = None then Inl (input_failure ''invalid_json_input'') else Inr v)"

text \<open>An inline value (the command line accepts only valid JSON) or one from a file.\<close>

definition json_option :: "launch_system \<Rightarrow> parsed_invocation \<Rightarrow> string \<Rightarrow> string \<Rightarrow> bool \<Rightarrow> json option or_panic" where
  "json_option ls iv inline file object_required =
     (case option_string ls iv inline of
        Some text \<Rightarrow> map_option (\<lambda>v. Inr (Some v)) (ls_parse_json ls text)
      | None \<Rightarrow> (case option_value iv file of
          None \<Rightarrow> Some (Inr None)
        | Some p \<Rightarrow> map_option (map_sum id Some) (read_json_input ls p object_required)))"

definition drop_field :: "string \<Rightarrow> effective_server \<Rightarrow> effective_server" where
  "drop_field field server = server\<lparr>es_project_fields := filter (\<lambda>f. f \<noteq> field) (es_project_fields server)\<rparr>"

fun override_environment ::
  "path \<Rightarrow> string list \<Rightarrow> string list \<Rightarrow> (string, string sourced_value) btree \<Rightarrow> (string, string sourced_value) btree or_panic" where
  "override_environment directory [] keys environment = Some (Inr environment)"
| "override_environment directory (entry # entries) keys environment =
     (case split_once ''='' entry of
        None \<Rightarrow> None
      | Some (key, v) \<Rightarrow>
          if key \<in> set keys then Some (Inl (input_failure ''invalid_json_input''))
          else override_environment directory entries (key # keys) (bt_insert key (sourced v CliSource directory) environment))"

definition override_launch :: "launch_system \<Rightarrow> parsed_invocation \<Rightarrow> path \<Rightarrow> effective_server \<Rightarrow> effective_server" where
  "override_launch ls iv directory server =
     (let server = (case option_string ls iv ''--server-executable'' of None \<Rightarrow> server
            | Some v \<Rightarrow> drop_field ''executable'' (server\<lparr>es_executable := Some (sourced v CliSource directory)\<rparr>));
          server = (case option_strings ls iv ''--server-arg'' of None \<Rightarrow> server
            | Some v \<Rightarrow> drop_field ''args'' (server\<lparr>es_args := sourced v CliSource directory\<rparr>))
      in case option_string ls iv ''--server-cwd'' of None \<Rightarrow> server
           | Some v \<Rightarrow> drop_field ''cwd'' (server\<lparr>es_cwd := Some (sourced v CliSource directory)\<rparr>))"

definition override_variables :: "launch_system \<Rightarrow> parsed_invocation \<Rightarrow> path \<Rightarrow> effective_server \<Rightarrow> effective_server or_panic" where
  "override_variables ls iv directory server =
     panic_then (override_environment directory (or_value (option_strings ls iv ''--server-env'') []) [] (es_environment server)) (\<lambda>environment.
     let server = server\<lparr>es_environment := environment\<rparr>
     in Some (Inr (if has_option iv ''--server-env'' \<and> \<not> list_ex (\<lambda>e. from_project (snd e)) environment
          then drop_field ''environment'' server else server)))"

definition apply_cli_overrides :: "launch_system \<Rightarrow> effective_server \<Rightarrow> parsed_invocation \<Rightarrow> effective_server or_panic" where
  "apply_cli_overrides ls server iv =
     (case ls_current_directory ls of None \<Rightarrow> Some (Inl workspace_failure) | Some directory \<Rightarrow>
     panic_then (override_variables ls iv directory (override_launch ls iv directory server)) (\<lambda>server.
     panic_then (json_option ls iv ''--initialization-options-json'' ''--initialization-options-file'' False) (\<lambda>options.
     let server = (case options of None \<Rightarrow> server
           | Some v \<Rightarrow> drop_field ''initialization_options'' (server\<lparr>es_initialization_options := Some (sourced v CliSource directory)\<rparr>))
     in panic_then (json_option ls iv ''--server-settings-json'' ''--server-settings-file'' True) (\<lambda>overrides.
        let server = (case overrides of None \<Rightarrow> server
              | Some v \<Rightarrow> drop_field ''settings'' (server\<lparr>es_settings := sourced v CliSource directory\<rparr>))
        in Some (Inr (case option_string ls iv ''--request-timeout'' of None \<Rightarrow> server
             | Some t \<Rightarrow> server\<lparr>es_request_timeout := t\<rparr>))))))"

section \<open>Selection\<close>

definition select_named_server :: "launch_system \<Rightarrow> loaded_configuration \<Rightarrow> string \<Rightarrow> parsed_invocation \<Rightarrow> effective_server or_panic" where
  "select_named_server ls lc name iv =
     (case bt_get (lc_servers lc) name of
        None \<Rightarrow> Some (Inl server_selection_failure)
      | Some server \<Rightarrow>
          panic_then (apply_cli_overrides ls server iv) (\<lambda>server.
          Some (if es_executable server = None then Inl incomplete_server_declaration else Inr server)))"

definition select_configured_server :: "loaded_configuration \<Rightarrow> string \<Rightarrow> contract_failure + effective_server" where
  "select_configured_server lc name =
     (case bt_get (lc_servers lc) name of
        None \<Rightarrow> Inl server_selection_failure
      | Some server \<Rightarrow> if es_executable server = None then Inl incomplete_server_declaration else Inr server)"

definition selected_name :: "launch_system \<Rightarrow> loaded_configuration \<Rightarrow> parsed_invocation \<Rightarrow> contract_failure + string" where
  "selected_name ls lc iv =
     (case option_string ls iv ''--server'' of
        Some server \<Rightarrow> Inr server
      | None \<Rightarrow> (case option_string ls iv ''--language-id'' of
          Some language_id \<Rightarrow> unique_route_server (lc_routes lc) (\<lambda>route. rt_language_id route = language_id)
        | None \<Rightarrow> (case option_value iv ''--file'' of
            Some file \<Rightarrow> longest_extension_server ls (lc_routes lc) file
          | None \<Rightarrow> (case lc_default_server lc of Some server \<Rightarrow> Inr server | None \<Rightarrow> Inl server_selection_failure))))"

definition select_server :: "launch_system \<Rightarrow> loaded_configuration \<Rightarrow> parsed_invocation \<Rightarrow> effective_server or_panic" where
  "select_server ls lc iv = panic_then (Some (selected_name ls lc iv)) (\<lambda>name. select_named_server ls lc name iv)"

definition document_language_id ::
  "launch_system \<Rightarrow> loaded_configuration \<Rightarrow> string \<Rightarrow> string \<Rightarrow> string option \<Rightarrow> contract_failure + string" where
  "document_language_id ls lc server path explicit =
     (case explicit of
        Some language_id \<Rightarrow> Inr language_id
      | None \<Rightarrow>
          let file = lower_path ls path;
              es = route_extensions (filter (\<lambda>route. rt_server route = server) (lc_routes lc))
          in case longest_extension file es of
               None \<Rightarrow> Inl server_selection_failure
             | Some longest \<Rightarrow>
                 (case bs_of_list (map (\<lambda>e. rt_language_id (fst e)) (filter (\<lambda>e. names_end file (snd e) \<and> length (snd e) = longest) es)) of
                    [language_id] \<Rightarrow> Inr language_id
                  | _ \<Rightarrow> Inl server_selection_failure))"

section \<open>The launch\<close>

text \<open>\<open>Path::join\<close> of a path that may be absolute.\<close>

definition resolve_from :: "path \<Rightarrow> string \<Rightarrow> path" where
  "resolve_from directory declared =
     (let p = path_of_string declared in if is_absolute p then p else join_path directory p)"

definition resolve_server_cwd :: "launch_system \<Rightarrow> effective_server \<Rightarrow> path or_panic" where
  "resolve_server_cwd ls server =
     map_option (\<lambda>cwd. case ls_canonicalize ls (resolve_from (so_directory cwd) (so_value cwd)) of
        Some p \<Rightarrow> Inr p | None \<Rightarrow> Inl server_selection_failure) (es_cwd server)"

definition effective_path :: "launch_system \<Rightarrow> effective_server \<Rightarrow> string option" where
  "effective_path ls server =
     or_given (map_option so_value (bt_get (es_environment server) ''PATH'')) (bt_get (ls_environment ls) ''PATH'')"

definition resolve_server_executable :: "launch_system \<Rightarrow> effective_server \<Rightarrow> path or_panic" where
  "resolve_server_executable ls server =
     (case es_executable server of
        None \<Rightarrow> Some (Inl incomplete_server_declaration)
      | Some executable \<Rightarrow>
          let declared = so_value executable; found = (\<lambda>r. Some (case r of Some p \<Rightarrow> Inr p | None \<Rightarrow> Inl executable_unavailable))
          in if CHR ''/'' \<in> set declared \<or> CHR 0x5C \<in> set declared
             then found (ls_canonicalize ls (resolve_from (so_directory executable) declared))
             else panic_then (resolve_server_cwd ls server) (\<lambda>cwd. found (ls_which ls declared (effective_path ls server) cwd)))"

definition transient_environment_key :: "launch_system \<Rightarrow> string \<Rightarrow> bool" where
  "transient_environment_key ls key =
     (let key = to_string_lossy ls key
      in list_ex (eq_ignore_case key) [''_'', ''OLDPWD'', ''PWD'', ''PS1'', ''PS2'', ''PS4'', ''SHLVL'']
         \<or> eq_ignore_case (take 3 key) ''PI_'' \<or> take 7 key = ''__MISE_'')"

definition effective_child_environment :: "launch_system \<Rightarrow> effective_server \<Rightarrow> path \<Rightarrow> (string, string) btree" where
  "effective_child_environment ls server cwd =
     fold (\<lambda>(key, v). bt_insert key (so_value v)) (es_environment server)
       (bt_insert ''PWD'' (path_bytes cwd) (filter (\<lambda>e. \<not> transient_environment_key ls (fst e)) (ls_environment ls)))"

definition encode_os_string :: "launch_system \<Rightarrow> string \<Rightarrow> json" where
  "encode_os_string ls s =
     (if utf8_valid s then jobj [(''utf8'', JString s)] else jobj [(''unixBytes'', JString (ls_hex ls s))])"

definition session_identity ::
  "launch_system \<Rightarrow> loaded_configuration \<Rightarrow> effective_server \<Rightarrow> path \<Rightarrow> path \<Rightarrow> (string, string) btree \<Rightarrow> string" where
  "session_identity ls lc server executable cwd environment =
     (let session = st_session (lc_settings lc); sync = st_synchronization (lc_settings lc); protocol = st_protocol (lc_settings lc);
          digest = digest_canonical_value (ls_sha ls) ''lspctl-session-identity-v1'' (jobj
            [(''workspaceUri'', JString (lc_workspace_uri lc)), (''server'', JString (es_name server)),
             (''resolvedExecutablePath'', encode_os_string ls (path_bytes executable)),
             (''args'', JArray (map JString (so_value (es_args server)))),
             (''cwd'', encode_os_string ls (path_bytes cwd)),
             (''completeChildEnvironment'', JArray (map (\<lambda>(key, v).
                jobj [(''key'', encode_os_string ls key), (''value'', encode_os_string ls v)]) environment)),
             (''initializationOptions'', jopt so_value (es_initialization_options server)),
             (''settings'', so_value (es_settings server)), (''capabilityProfileVersion'', jnat 1), (''ownerProtocolVersion'', jnat 1),
             (''initializationTimeout'', JString (se_initialization_timeout session)),
             (''cancellationGrace'', JString (se_cancellation_grace session)),
             (''shutdownTimeout'', JString (se_shutdown_timeout session)), (''idleTimeout'', JString (se_idle_timeout session)),
             (''maxOpenDocuments'', jnat (sy_max_open_documents sync)), (''maxDocumentBytes'', jnat (sy_max_document_bytes sync)),
             (''maxTotalTextBytes'', jnat (sy_max_total_text_bytes sync)),
             (''maxDiagnosticSnapshots'', jnat (sy_max_diagnostic_snapshots sync)),
             (''maxDiagnosticBytes'', jnat (sy_max_diagnostic_bytes sync)),
             (''maxMessageBytes'', jnat (ps_max_message_bytes protocol)),
             (''maxPartialResultBytes'', jnat (ps_max_partial_result_bytes protocol))])
      in ''sid_'' @ drop 7 digest)"

end
