(* ===== verification/Configuration_Laws.thy ===== *)
theory Configuration_Laws
  imports Server_Selection
begin

text \<open>
  What the rest of the program relies on in a loaded configuration: the fields of a server recorded as
  controlled by the project are those whose value comes from the project file, through the merge of the
  files and the overrides of an invocation, and failures that name a path no \<open>String\<close> can hold panic.
\<close>

section \<open>What a call that returns yields\<close>

definition yields :: "'a or_panic \<Rightarrow> ('a \<Rightarrow> bool) \<Rightarrow> bool" where
  "yields r Q \<longleftrightarrow> (\<forall>a. r = Some (Inr a) \<longrightarrow> Q a)"

lemma yieldsD: "yields r Q \<Longrightarrow> r = Some (Inr a) \<Longrightarrow> Q a"
  by (simp add: yields_def)

lemma yields_value: "Q a \<Longrightarrow> yields (Some (Inr a)) Q"
  by (simp add: yields_def)

lemma yields_error: "yields (Some (Inl e)) Q" "yields None Q"
  by (simp_all add: yields_def)

lemma yields_then: "(\<And>a. r = Some (Inr a) \<Longrightarrow> yields (f a) Q) \<Longrightarrow> yields (panic_then r f) Q"
  by (auto simp: yields_def)

lemma yields_option: "(x = None \<Longrightarrow> yields n Q) \<Longrightarrow> (\<And>a. x = Some a \<Longrightarrow> yields (f a) Q) \<Longrightarrow> yields (case_option n f x) Q"
  by (cases x) simp_all

lemma yields_if: "(c \<Longrightarrow> yields r Q) \<Longrightarrow> (\<not> c \<Longrightarrow> yields t Q) \<Longrightarrow> yields (if c then r else t) Q"
  by simp

lemmas yields_rules = yields_value yields_error yields_then yields_option yields_if

section \<open>The fields the project controls\<close>

definition project_controls :: "effective_server \<Rightarrow> (string \<times> bool) list" where
  "project_controls server =
     [(''executable'', optional_from_project (es_executable server)),
      (''args'', from_project (es_args server)),
      (''cwd'', optional_from_project (es_cwd server)),
      (''environment'', list_ex (\<lambda>e. from_project (snd e)) (es_environment server)),
      (''initialization_options'', optional_from_project (es_initialization_options server)),
      (''settings'', from_project (es_settings server))]"

definition chosen :: "(string \<times> bool) list \<Rightarrow> string set" where
  "chosen cs = fst ` set (filter snd cs)"

definition tracked :: "effective_server \<Rightarrow> bool" where
  "tracked server \<longleftrightarrow> set (es_project_fields server) = chosen (project_controls server)"

lemma chosen_simps: "chosen [] = {}" "chosen ((f, c) # cs) = (if c then insert f (chosen cs) else chosen cs)"
  by (simp_all add: chosen_def)

lemma set_fold_fields:
  "set (fold (\<lambda>(c, field) fields. if c then bs_insert field fields else fields) cs acc) = set acc \<union> chosen (map prod.swap cs)"
  by (induction cs arbitrary: acc) (auto simp: chosen_simps split: if_splits)

lemma tracked_project_fields:
  assumes "es_project_fields server = project_fields_of (es_executable server) (es_args server) (es_cwd server)
      (es_environment server) (es_initialization_options server) (es_settings server)"
  shows "tracked server"
  unfolding tracked_def project_controls_def assms project_fields_of_def set_fold_fields by simp

lemma not_from_project [simp]:
  "\<not> from_project (sourced v CliSource d)" "\<not> from_project (sourced v BuiltIn d)" "\<not> from_project (sourced v UserSource d)"
  by (simp_all add: from_project_def sourced_def)

section \<open>Merging\<close>

lemma merge_server_tracked:
  assumes "merge_server ls user name us ps ud ws = Inr server"
  shows "tracked server \<and> es_name server = name"
  using assms by (auto simp: merge_server_def Let_def intro: tracked_project_fields)

lemma insert_sourced_other:
  assumes "source \<noteq> ProjectSource" "\<forall>e \<in> set environment. \<not> from_project (snd e)"
  shows "\<forall>e \<in> set (insert_sourced source directory vars environment). \<not> from_project (snd e)"
proof -
  from assms(1) have not: "\<not> from_project (sourced v source directory)" for v
    by (simp add: from_project_def sourced_def)
  have "\<forall>e \<in> set m. \<not> from_project (snd e)
     \<Longrightarrow> \<forall>e \<in> set (fold (\<lambda>(key, v). bt_insert key (sourced v source directory)) vs m). \<not> from_project (snd e)" for vs m
  proof (induction vs arbitrary: m)
    case (Cons v vs)
    show ?case unfolding fold_simps comp_apply by (rule Cons.IH) (use Cons.prems in \<open>auto simp: set_bt_insert not split: prod.splits\<close>)
  qed simp
  with assms(2) show ?thesis by (simp add: insert_sourced_def)
qed

text \<open>Without a project file there is no project value.\<close>

lemma sourced_field_no_project [simp]: "\<not> optional_from_project (sourced_field user None ud ws)"
  by (simp add: sourced_field_def or_given_def optional_from_project_def split: option.split)

lemma or_builtin_no_project [simp]:
  "\<not> from_project (or_value (sourced_field user None ud ws) (sourced v BuiltIn ws))"
  "\<not> optional_from_project (or_given (sourced_field user None ud ws) (Some (sourced w BuiltIn ws)))"
  by (simp_all add: sourced_field_def or_given_def or_value_def optional_from_project_def split: option.split)

lemma merge_server_no_project:
  assumes "merge_server ls user name us None ud ws = Inr server"
  shows "chosen (project_controls server) = {}"
proof -
  have "\<not> list_ex (\<lambda>e. from_project (snd e)) (insert_sourced UserSource ud vars [])" for vars
    using insert_sourced_other [of UserSource "[]" ud] by (simp add: list_ex_iff)
  then show ?thesis using assms
    by (auto simp: merge_server_def Let_def project_controls_def chosen_simps insert_sourced_def [of ProjectSource] or_value_def [of None]
      convert_option_def [of _ None])
qed

lemma set_bt_of_list: "set (bt_of_list es) \<subseteq> set es"
proof -
  have "set (fold (\<lambda>(k, v). bt_insert k v) es m) \<subseteq> set es \<union> set m" for m
    by (induction es arbitrary: m) (fastforce simp: set_bt_insert)+
  from this [of "[]"] show ?thesis by (simp add: bt_of_list_def)
qed

lemma merge_servers_each:
  assumes "merge_servers ls user project ud ws = Inr servers" "bt_get servers name = Some server"
  obtains us ps where "merge_server ls user name us ps ud ws = Inr server" "project = None \<Longrightarrow> ps = None"
proof -
  from assms(2) have mem: "(name, server) \<in> set servers" by (rule map_of_SomeD)
  obtain es names where es: "servers = bt_of_list es"
      "map (\<lambda>name. try_then (merge_server ls user name (Option.bind user (\<lambda>c. bt_get (uf_servers c) name))
               (Option.bind project (\<lambda>c. bt_get (pf_servers c) name)) ud ws) (\<lambda>server. Inr (name, server))) names = map Inr es"
    using assms(1) unfolding merge_servers_def by (auto simp: Let_def collect_Inr)
  from es(1) mem set_bt_of_list have "(name, server) \<in> set es" by blast
  then have "Inr (name, server) \<in> set (map (\<lambda>name. try_then (merge_server ls user name (Option.bind user (\<lambda>c. bt_get (uf_servers c) name))
               (Option.bind project (\<lambda>c. bt_get (pf_servers c) name)) ud ws) (\<lambda>server. Inr (name, server))) names)"
    unfolding es(2) by simp
  then obtain n where "try_then (merge_server ls user n (Option.bind user (\<lambda>c. bt_get (uf_servers c) n))
               (Option.bind project (\<lambda>c. bt_get (pf_servers c) n)) ud ws) (\<lambda>server. Inr (n, server)) = Inr (name, server)"
    by (auto dest: sym)
  then have "merge_server ls user name (Option.bind user (\<lambda>c. bt_get (uf_servers c) name))
      (Option.bind project (\<lambda>c. bt_get (pf_servers c) name)) ud ws = Inr server" by auto
  then show thesis by (rule that) simp
qed

section \<open>Overrides\<close>

definition tracked_in :: "string set \<Rightarrow> effective_server \<Rightarrow> bool" where
  "tracked_in F server \<longleftrightarrow> tracked server \<and> set (es_project_fields server) \<subseteq> F"

text \<open>An override of a field that the record then no longer lists keeps the fields tracked.\<close>

definition overrides :: "string \<Rightarrow> effective_server \<Rightarrow> effective_server \<Rightarrow> bool" where
  "overrides f old new \<longleftrightarrow>
     project_controls new = map (\<lambda>(g, c). (g, c \<and> g \<noteq> f)) (project_controls old) \<and> es_project_fields new = es_project_fields old"

lemma chosen_without: "chosen (map (\<lambda>(g, c). (g, c \<and> g \<noteq> f)) cs) = chosen cs - {f}"
  by (force simp: chosen_def)

lemma drop_field_set: "set (es_project_fields (drop_field f server)) = set (es_project_fields server) - {f}"
  by (auto simp: drop_field_def)

lemma drop_field_controls [simp]: "project_controls (drop_field f server) = project_controls server"
  by (simp add: drop_field_def project_controls_def)

lemma drop_field_tracked: "tracked_in F old \<Longrightarrow> overrides f old new \<Longrightarrow> tracked_in F (drop_field f new)"
  by (auto simp: tracked_in_def tracked_def overrides_def drop_field_set chosen_without)

lemma field_overrides:
  "overrides ''executable'' server (server\<lparr>es_executable := Some (sourced v CliSource d)\<rparr>)"
  "overrides ''args'' server (server\<lparr>es_args := sourced a CliSource d\<rparr>)"
  "overrides ''cwd'' server (server\<lparr>es_cwd := Some (sourced v CliSource d)\<rparr>)"
  "overrides ''initialization_options'' server (server\<lparr>es_initialization_options := Some (sourced j CliSource d)\<rparr>)"
  "overrides ''settings'' server (server\<lparr>es_settings := sourced j CliSource d\<rparr>)"
  by (simp_all add: overrides_def project_controls_def optional_from_project_def)

lemma override_launch_tracked: "tracked_in F server \<Longrightarrow> tracked_in F (override_launch ls iv d server)"
  unfolding override_launch_def Let_def
  by (auto split: option.splits intro!: drop_field_tracked [OF _ field_overrides(1)] drop_field_tracked [OF _ field_overrides(2)]
      drop_field_tracked [OF _ field_overrides(3)])

lemma override_launch_environment [simp]: "es_environment (override_launch ls iv d server) = es_environment server"
  by (simp add: override_launch_def drop_field_def Let_def split: option.split)

lemma override_environment_sources:
  "override_environment d entries keys environment = Some (Inr environment')
     \<Longrightarrow> (\<exists>e \<in> set environment'. from_project (snd e)) \<Longrightarrow> \<exists>e \<in> set environment. from_project (snd e)"
proof (induction d entries keys environment rule: override_environment.induct)
  case (2 d entry entries keys environment)
  then obtain key v where split: "split_once ''='' entry = Some (key, v)" "key \<notin> set keys"
    by (auto split: option.splits if_splits)
  with 2 have "\<exists>e \<in> set (bt_insert key (sourced v CliSource d) environment). from_project (snd e)" by simp
  then show ?case by (force simp: set_bt_insert)
qed simp

lemma replaced_environment_tracked:
  assumes "tracked_in F server" "override_environment d (or_value (option_strings ls iv ''--server-env'') []) [] (es_environment server) = Some (Inr environment)"
  shows "tracked_in F (if has_option iv ''--server-env'' \<and> \<not> list_ex (\<lambda>e. from_project (snd e)) environment
    then drop_field ''environment'' (server\<lparr>es_environment := environment\<rparr>) else server\<lparr>es_environment := environment\<rparr>)"
proof -
  let ?s = "server\<lparr>es_environment := environment\<rparr>"
  have fewer: "\<not> list_ex (\<lambda>e. from_project (snd e)) (es_environment server) \<Longrightarrow> \<not> list_ex (\<lambda>e. from_project (snd e)) environment"
    using override_environment_sources [OF assms(2)] by (auto simp: list_ex_iff)
  have same: "environment = es_environment server" if "\<not> has_option iv ''--server-env''"
    using assms(2) that by (simp add: has_option_def option_strings_def or_value_def)
  show ?thesis
  proof (cases "list_ex (\<lambda>e. from_project (snd e)) environment")
    case True
    with fewer have "list_ex (\<lambda>e. from_project (snd e)) (es_environment server)" by blast
    with True have "project_controls ?s = project_controls server" by (simp add: project_controls_def)
    with True assms(1) show ?thesis by (auto simp: tracked_in_def tracked_def)
  next
    case False
    then have "overrides ''environment'' server ?s" by (simp add: overrides_def project_controls_def)
    with False same assms(1) drop_field_tracked show ?thesis by auto
  qed
qed

lemma override_variables_tracked: "tracked_in F server \<Longrightarrow> yields (override_variables ls iv d server) (tracked_in F)"
  unfolding override_variables_def Let_def by (intro yields_then yields_value replaced_environment_tracked)

lemma options_tracked:
  "tracked_in F server \<Longrightarrow> tracked_in F (case x of None \<Rightarrow> server
     | Some v \<Rightarrow> drop_field ''initialization_options'' (server\<lparr>es_initialization_options := Some (sourced v CliSource d)\<rparr>))"
  by (cases x) (simp_all add: drop_field_tracked [OF _ field_overrides(4)])

lemma settings_tracked:
  "tracked_in F server \<Longrightarrow> tracked_in F (case x of None \<Rightarrow> server
     | Some v \<Rightarrow> drop_field ''settings'' (server\<lparr>es_settings := sourced v CliSource d\<rparr>))"
  by (cases x) (simp_all add: drop_field_tracked [OF _ field_overrides(5)])

lemma timeout_controls: "project_controls (server\<lparr>es_request_timeout := t\<rparr>) = project_controls server"
  by (simp add: project_controls_def)

lemma timeout_tracked:
  "tracked_in F server \<Longrightarrow> tracked_in F (case x of None \<Rightarrow> server | Some t \<Rightarrow> server\<lparr>es_request_timeout := t\<rparr>)"
  by (cases x) (auto simp: tracked_in_def tracked_def timeout_controls)

lemma apply_cli_overrides_tracked: "tracked_in F server \<Longrightarrow> yields (apply_cli_overrides ls server iv) (tracked_in F)"
  unfolding apply_cli_overrides_def Let_def
  by (intro yields_rules timeout_tracked settings_tracked options_tracked)
    (blast intro: yieldsD [OF override_variables_tracked] override_launch_tracked)

lemma select_named_server_tracked:
  "(\<And>server. bt_get (lc_servers lc) name = Some server \<Longrightarrow> tracked_in F server)
     \<Longrightarrow> yields (select_named_server ls lc name iv) (tracked_in F)"
  unfolding select_named_server_def
  by (intro yields_rules) (auto simp: yields_def split: if_splits intro: yieldsD [OF apply_cli_overrides_tracked])

section \<open>Loading and selecting\<close>

lemma load_configuration_merges:
  "yields (load_configuration ls selected ignore_project) (\<lambda>lc. \<exists>user project ud ws.
     merge_servers ls user project ud ws = Inr (lc_servers lc) \<and> (ignore_project \<longrightarrow> project = None))"
  unfolding load_configuration_def Let_def
  by (intro yields_rules) (auto split: if_splits)

lemma load_configuration_server:
  assumes "load_configuration ls selected ignore_project = Some (Inr lc)" "bt_get (lc_servers lc) name = Some server"
  shows "tracked server \<and> es_name server = name \<and> (ignore_project \<longrightarrow> es_project_fields server = [])"
proof -
  from yieldsD [OF load_configuration_merges assms(1)] obtain user project ud ws
    where merge: "merge_servers ls user project ud ws = Inr (lc_servers lc)" "ignore_project \<longrightarrow> project = None" by blast
  obtain us ps where server: "merge_server ls user name us ps ud ws = Inr server" "project = None \<Longrightarrow> ps = None"
    using merge_servers_each [OF merge(1) assms(2)] by metis
  have tracked: "tracked server \<and> es_name server = name" by (rule merge_server_tracked [OF server(1)])
  have "es_project_fields server = []" if ignore_project
  proof -
    from that merge(2) server(2) have "ps = None" by blast
    with server(1) have "chosen (project_controls server) = {}" using merge_server_no_project by blast
    with tracked show ?thesis by (simp add: tracked_def)
  qed
  with tracked show ?thesis by blast
qed

lemma select_server_tracked:
  assumes "load_configuration ls selected ignore_project = Some (Inr lc)"
  shows "yields (select_server ls lc iv) (tracked_in (if ignore_project then {} else UNIV))"
  unfolding select_server_def
  by (intro yields_then select_named_server_tracked)
    (use load_configuration_server [OF assms] in \<open>auto simp: tracked_in_def\<close>)


text \<open>
  C40. Under a Workspace whose path is not UTF-8, which a file URI can name and which selects as any other,
  a project file that cannot be read or decoded is not reported as a configuration failure: the report
  names the path of the file with \<open>json!\<close>, which panics on it.
\<close>

theorem configuration_failure_panics:
  assumes "canonical_workspace ls selected = Inr workspace" "ls_directory_url ls workspace = Some uri"
    and "resolved_user_config_path ls = Inr user_path" "ls_read_user ls user_path = NoFile"
    and "\<not> utf8_valid (path_bytes (join_name workspace ''.lspctl.toml''))"
    and "ls_read_project ls (join_name workspace ''.lspctl.toml'') \<in> {Unreadable, Undecodable}"
  shows "load_configuration ls selected False = None"
  using assms by (auto simp: load_configuration_def panic_then_def naming_path_def Let_def)

section \<open>A sample\<close>

text \<open>
  A Workspace whose project file declares a server and one variable of its Environment, which the
  invocation replaces together with the arguments. The user file is not there.
\<close>

definition sample_server :: project_server_config where
  "sample_server =
     \<lparr>sc_executable = Some ''ra'', sc_args = Some [''-v''], sc_cwd = None, sc_environment = Some [(''K'', ''1'')],
      sc_initialization_options = None, sc_settings = Some [(''a'', TomlBoolean True)]\<rparr>"

definition sample_project :: project_config_file where
  "sample_project = \<lparr>pf_version = 1, pf_default_server = Some ''r'', pf_routes = None, pf_servers = [(''r'', sample_server)]\<rparr>"

fun to_itself :: "'a \<Rightarrow> 'a option" where "to_itself x = Some x"
fun always :: "path \<Rightarrow> bool" where "always p = True"
fun sample_url :: "path \<Rightarrow> string option" where "sample_url p = Some ''file:///w/''"
fun no_user_file :: "path \<Rightarrow> user_config_file toml_file" where "no_user_file p = NoFile"
fun sample_project_file :: "path \<Rightarrow> project_config_file toml_file" where "sample_project_file p = Decoded sample_project"
fun broken_project_file :: "path \<Rightarrow> project_config_file toml_file" where "broken_project_file p = Undecodable"
fun no_json :: "path \<Rightarrow> json_file" where "no_json p = JsonUnreadable"
fun no_inline_json :: "string \<Rightarrow> json option" where "no_inline_json s = None"
fun found_in_bin :: "string \<Rightarrow> string option \<Rightarrow> path \<Rightarrow> path option" where
  "found_in_bin name search cwd = Some [RootDir, Normal ''bin'', Normal name]"

definition sample_launch :: launch_system where
  "sample_launch =
     \<lparr>ls_current_directory = Some [RootDir, Normal ''w''], ls_canonicalize = to_itself, ls_is_directory = always,
      ls_directory_url = sample_url, ls_environment = [], ls_config_directory = Some [RootDir, Normal ''c''],
      ls_state_directory = Some [RootDir, Normal ''s''], ls_read_user = no_user_file, ls_read_project = sample_project_file,
      ls_read_json = no_json, ls_parse_json = no_inline_json, ls_which = found_in_bin, ls_lossy = id, ls_sha = id, ls_hex = id\<rparr>"

definition sample_invocation :: parsed_invocation where
  "sample_invocation = \<lparr>iv_command = [''hover''], iv_options = [(''--server'', [''r'']), (''--server-arg'', [''-q'']), (''--server-env'', [''K=2''])]\<rparr>"

lemmas duration_simps = validate_duration_def duration_digits_def strip_suffix_def parse_u64_def u64_max_def

lemma default_durations [simp]:
  "validate_duration ''30s'' = Inr 30000" "validate_duration ''2s'' = Inr 2000"
  "validate_duration ''5s'' = Inr 5000" "validate_duration ''10m'' = Inr 600000"
  by (simp_all add: duration_simps)

lemma try_then_value [simp]: "try_then (Inr a) f = f a" "panic_then (Some (Inr a)) g = g a" "naming_path p (Inr a) = Some (Inr a)"
  by (simp_all add: try_then_def panic_then_def naming_path_def)

lemma default_limits: "\<exists>limits. user_settings None = Inr limits"
  by (simp add: user_settings_def session_of_def synchronization_of_def protocol_of_def previews_of_def mutation_of_def
      positive_or_default_def or_value_def validate_durations_def Let_def)

definition workspace_w :: path where "workspace_w = [RootDir, Normal ''w'']"
definition directory_c :: path where "directory_c = [RootDir, Normal ''c'']"

definition merged_server :: effective_server where
  "merged_server =
     \<lparr>es_name = ''r'', es_executable = Some (sourced ''ra'' ProjectSource workspace_w), es_args = sourced [''-v''] ProjectSource workspace_w,
      es_cwd = Some (sourced ''/w'' BuiltIn workspace_w), es_environment = [(''K'', sourced ''1'' ProjectSource workspace_w)],
      es_initialization_options = None, es_settings = sourced (jobj [(''a'', JBool True)]) ProjectSource workspace_w,
      es_request_timeout = ''30s'', es_published_diagnostics_wait = ''2s'',
      es_project_fields = [''args'', ''environment'', ''executable'', ''settings'']\<rparr>"

lemma workspace_text: "to_string_lossy sample_launch (path_bytes workspace_w) = ''/w''"
  by code_simp

lemma sample_fields:
  "project_fields_of (Some (sourced ''ra'' ProjectSource workspace_w)) (sourced [''-v''] ProjectSource workspace_w)
     (Some (sourced ''/w'' BuiltIn workspace_w)) [(''K'', sourced ''1'' ProjectSource workspace_w)] None
     (sourced (jobj [(''a'', JBool True)]) ProjectSource workspace_w) = [''args'', ''environment'', ''executable'', ''settings'']"
  by code_simp

lemma sample_merges: "merge_servers sample_launch None (Some sample_project) directory_c workspace_w = Inr [(''r'', merged_server)]"
  by (simp add: merge_servers_def bs_of_list_def bs_insert_def bt_keys_def sample_project_def or_value_def merge_server_def
      sample_server_def or_given_def sourced_field_def insert_sourced_def convert_option_def table_to_json_def Let_def
      workspace_text sample_fields merged_server_def bt_of_list_def bt_insert_def)

lemma sample_valid: "validate_project (Some sample_project) = Inr ()"
  by (simp add: validate_project_def sample_project_def validate_version_def ensure_def validate_project_file_def validate_server_name_def
      valid_server_name_def ascii_alphabetic_def validate_server_def sample_server_def table_to_json_def)

lemma sample_project_fields:
  "pf_version sample_project = 1" "pf_default_server sample_project = Some ''r''" "pf_routes sample_project = None"
  by (simp_all add: sample_project_def)

definition sample_configuration :: "settings \<Rightarrow> loaded_configuration" where
  "sample_configuration limits =
     \<lparr>lc_workspace = workspace_w, lc_workspace_uri = ''file:///w/'', lc_project_path = join_name workspace_w ''.lspctl.toml'',
      lc_default_server = Some ''r'', lc_routes = [], lc_servers = [(''r'', merged_server)], lc_settings = limits\<rparr>"

lemma sample_loads: "\<exists>limits. load_configuration sample_launch [] False = Some (Inr (sample_configuration limits))"
proof -
  obtain limits where "user_settings None = Inr limits" using default_limits by blast
  moreover have "canonical_workspace sample_launch [] = Inr workspace_w" "ls_directory_url sample_launch workspace_w = Some ''file:///w/''"
      "resolved_user_config_path sample_launch = Inr (join_name directory_c ''config.toml'')"
      "ls_read_user sample_launch p = NoFile" "ls_read_project sample_launch p = Decoded sample_project" for p
    by (simp_all add: canonical_workspace_def sample_launch_def resolved_user_config_path_def workspace_w_def directory_c_def)
  ultimately show ?thesis
    by (simp add: load_configuration_def Let_def validate_user_def sample_valid or_value_def or_given_def sample_merges
        validate_routes_def validate_default_def ensure_def sample_configuration_def sample_project_fields)
qed

definition selected_fields :: "settings \<Rightarrow> string list option" where
  "selected_fields limits =
     (case select_server sample_launch (sample_configuration limits) sample_invocation of
        Some (Inr server) \<Rightarrow> Some (es_project_fields server) | _ \<Rightarrow> None)"

lemma sample_selects: "selected_fields limits = Some [''executable'', ''settings'']"
  by code_simp


definition odd_directory :: path where
  "odd_directory = [RootDir, Normal [CHR 0xFF]]"

lemma odd_path: "\<not> utf8_valid (path_bytes (join_name odd_directory ''.lspctl.toml''))"
  by code_simp

theorem configuration_failure_panics_witness:
  "load_configuration (sample_launch\<lparr>ls_read_project := broken_project_file\<rparr>) odd_directory False = None"
  by (rule configuration_failure_panics [where workspace = odd_directory and uri = "''file:///w/''" and
        user_path = "[RootDir, Normal ''c'', Normal ''config.toml'']"])
    (use odd_path in \<open>simp_all add: sample_launch_def canonical_workspace_def odd_directory_def resolved_user_config_path_def join_name_def\<close>)

end
