(* ===== verification/Trust.thy ===== *)
theory Trust
  imports Server_Selection Application "HOL-Library.Product_Lexorder"
begin

text \<open>
  \<open>configuration/trust.rs\<close>: the Trust of a user in what a project declares of its servers. A command or
  an authorization takes the files and the environment as they are at one instant, the argument \<open>ls\<close>;
  the stored Trust state, the clock and the locks change while it runs.
\<close>

section \<open>Failures\<close>

definition trust_failure :: "string \<Rightarrow> contract_failure" where
  "trust_failure cd = failure 3 ''blocked'' cd ''authorize'' ''not_applicable'' ''after_change''"

definition project_trust_failure :: "string \<Rightarrow> contract_failure" where
  "project_trust_failure cd = failure 3 ''blocked'' cd ''authorize'' ''not_sent'' ''after_change''"

definition trust_state_failure :: contract_failure where
  "trust_state_failure = failure 4 ''unavailable'' ''state_unavailable'' ''persist'' ''not_applicable'' ''after_change''"

definition stored_state_failure :: contract_failure where
  "stored_state_failure = failure 3 ''blocked'' ''stored_state_version_unsupported'' ''inspect'' ''not_applicable'' ''never''"

definition digest_mismatch_failure :: contract_failure where
  "digest_mismatch_failure = trust_failure ''trust_digest_mismatch''"

section \<open>Declarations\<close>

record trust_declaration =
  cd_server :: string
  cd_digest :: string
  cd_field_digests :: "(string, string) btree"
  cd_executable_path :: string
  cd_source_path :: string

text \<open>\<open>json!\<close> of a path: it panics unless the path is UTF-8.\<close>

definition path_json :: "path \<Rightarrow> json or_panic" where
  "path_json p = (if utf8_valid (path_bytes p) then Some (Inr (JString (path_bytes p))) else None)"

definition project_variables :: "(string, string sourced_value) btree \<Rightarrow> json" where
  "project_variables environment =
     JObject (map (\<lambda>(key, v). (key, JString (so_value v))) (filter (\<lambda>e. so_source (snd e) = ProjectSource) environment))"

definition project_field_value :: "launch_system \<Rightarrow> effective_server \<Rightarrow> string \<Rightarrow> json or_panic" where
  "project_field_value ls server field =
     (if field = ''executable'' then panic_then (resolve_server_executable ls server) path_json
      else if field = ''args'' then Some (Inr (JArray (map JString (so_value (es_args server)))))
      else if field = ''cwd'' then panic_then (resolve_server_cwd ls server) path_json
      else if field = ''environment'' then Some (Inr (project_variables (es_environment server)))
      else if field = ''initialization_options'' then Some (Inr (jopt so_value (es_initialization_options server)))
      else if field = ''settings'' then Some (Inr (so_value (es_settings server)))
      else None)"

definition project_field_values :: "launch_system \<Rightarrow> effective_server \<Rightarrow> (string, json) btree or_panic" where
  "project_field_values ls server =
     panic_then (panic_collect (map (\<lambda>field. panic_then (project_field_value ls server field) (\<lambda>v. Some (Inr (field, v))))
       (es_project_fields server))) (\<lambda>es. Some (Inr (bt_of_list es)))"

definition declaration_of ::
  "launch_system \<Rightarrow> loaded_configuration \<Rightarrow> string \<Rightarrow> string \<Rightarrow> (string, json) btree \<Rightarrow> trust_declaration" where
  "declaration_of ls lc name executable_path project_values =
     \<lparr>cd_server = name,
      cd_digest = digest_canonical_value (ls_sha ls) ''lspctl-trust-declaration-v1'' (jobj
        [(''server'', JString name), (''resolvedExecutablePath'', JString executable_path), (''projectFields'', JObject project_values)]),
      cd_field_digests = map (\<lambda>(field, v). (field, digest_canonical_value (ls_sha ls) ''lspctl-trust-field-v1'' v)) project_values,
      cd_executable_path = executable_path,
      cd_source_path = to_string_lossy ls (path_bytes (lc_project_path lc))\<rparr>"

definition current_declaration ::
  "launch_system \<Rightarrow> loaded_configuration \<Rightarrow> string \<Rightarrow> effective_server \<Rightarrow> trust_declaration or_panic" where
  "current_declaration ls lc name server =
     panic_then (resolve_server_executable ls server) (\<lambda>executable.
     panic_then (project_field_values ls server) (\<lambda>project_values.
     Some (Inr (declaration_of ls lc name (to_string_lossy ls (path_bytes executable)) project_values))))"

definition project_controlled :: "effective_server \<Rightarrow> bool" where
  "project_controlled server \<longleftrightarrow> es_project_fields server \<noteq> []"

definition current_declarations :: "launch_system \<Rightarrow> loaded_configuration \<Rightarrow> (string, trust_declaration) btree or_panic" where
  "current_declarations ls lc =
     panic_then (panic_collect (map (\<lambda>(name, server). panic_then (current_declaration ls lc name server) (\<lambda>d. Some (Inr (name, d))))
       (filter (\<lambda>e. project_controlled (snd e)) (lc_servers lc)))) (\<lambda>es. Some (Inr (bt_of_list es)))"

definition aggregate_digest :: "launch_system \<Rightarrow> (string, trust_declaration) btree \<Rightarrow> string" where
  "aggregate_digest ls declarations =
     digest_canonical_value (ls_sha ls) ''lspctl-trust-aggregate-v1''
       (JObject (map (\<lambda>(name, d). (name, JString (cd_digest d))) declarations))"

section \<open>The stored state\<close>

datatype stored_trust_state = Trusted | Denied

record stored_trust_record =
  tr_workspace_uri :: string
  tr_server :: string
  tr_state :: stored_trust_state
  tr_declaration_digest :: "string option"
  tr_field_digests :: "(string, string) btree"
  tr_executable_path :: "string option"
  tr_source_path :: "string option"
  tr_updated_at :: string

record trust_state_file =
  tf_format_version :: nat
  tf_records :: "stored_trust_record list"

definition record_of :: "string \<Rightarrow> string \<Rightarrow> stored_trust_record \<Rightarrow> bool" where
  "record_of uri server r \<longleftrightarrow> tr_workspace_uri r = uri \<and> tr_server r = server"

definition find_record :: "trust_state_file \<Rightarrow> string \<Rightarrow> string \<Rightarrow> stored_trust_record option" where
  "find_record st uri server = List.find (record_of uri server) (tf_records st)"

definition record_key :: "stored_trust_record \<Rightarrow> string \<times> string" where
  "record_key r = (tr_workspace_uri r, tr_server r)"

definition remove_record :: "string \<Rightarrow> string \<Rightarrow> trust_state_file \<Rightarrow> trust_state_file" where
  "remove_record uri server st = st\<lparr>tf_records := filter (\<lambda>r. \<not> record_of uri server r) (tf_records st)\<rparr>"

definition upsert_record :: "stored_trust_record \<Rightarrow> trust_state_file \<Rightarrow> trust_state_file" where
  "upsert_record r st =
     (let kept = tf_records (remove_record (tr_workspace_uri r) (tr_server r) st)
      in st\<lparr>tf_records := sort_key record_key (kept @ [r])\<rparr>)"

text \<open>
  What is on disk: nothing, bytes that are not a Trust state, or the state they decode to. The commit of
  an \<open>AtomicWriteFile\<close> replaces all of it or leaves it as it was; \<open>tc_read_fails\<close> is a file that is there
  and cannot be opened or read; \<open>tc_create_all\<close> is \<open>create_dir_all\<close>. Restricting a path is the call of an Application.
\<close>

datatype trust_file = NoTrustFile | UndecodableTrust | TrustFile trust_state_file

record 'w trust_store =
  tu_file :: trust_file
  tu_world :: 'w

record 'w trust_calls =
  tc_create_all :: "path \<Rightarrow> 'w \<Rightarrow> 'w \<times> (unit + unit)"
  tc_open_lock :: "path \<Rightarrow> 'w \<Rightarrow> 'w \<times> (unit + unit)"
  tc_try_lock :: "path \<Rightarrow> 'w \<Rightarrow> 'w \<times> lock_attempt"
  tc_unlock :: "path \<Rightarrow> 'w \<Rightarrow> 'w \<times> unit"
  tc_read_fails :: "path \<Rightarrow> 'w \<Rightarrow> 'w \<times> bool"
  tc_stage :: "path \<Rightarrow> 'w \<Rightarrow> 'w \<times> (unit + unit)"
  tc_commit :: "path \<Rightarrow> trust_state_file \<Rightarrow> 'w \<Rightarrow> 'w \<times> (unit + unit)"
  tc_signal_owners :: "string \<Rightarrow> string list \<Rightarrow> 'w \<Rightarrow> 'w \<times> (string list \<times> string list)"

type_synonym ('w, 'a) trust_act = "('w trust_store, contract_failure, 'a) step"

definition inside :: "('w, 'e, 'a) step \<Rightarrow> ('w trust_store, 'e, 'a) step" where
  "inside m = (\<lambda>s. map_option (\<lambda>(w, r). (s\<lparr>tu_world := w\<rparr>, r)) (m (tu_world s)))"

definition read_file :: "('w, trust_file) trust_act" where
  "read_file = (\<lambda>s. Some (s, Inr (tu_file s)))"

definition or_panicking :: "'a or_panic \<Rightarrow> ('w, 'a) trust_act" where
  "or_panicking r = (case r of None \<Rightarrow> step_panic | Some x \<Rightarrow> step_lift x)"

text \<open>\<open>resolved_user_state_directory\<close> and the paths below it.\<close>

record state_paths =
  tp_directory :: path
  tp_file :: path
  tp_lock :: path

definition trust_state_paths :: "launch_system \<Rightarrow> contract_failure + state_paths" where
  "trust_state_paths ls =
     (case ls_state_directory ls of
        None \<Rightarrow> Inl trust_state_failure
      | Some d \<Rightarrow> Inr \<lparr>tp_directory = d, tp_file = join_name d ''trust-v1.json'', tp_lock = join_name d ''trust-v1.lock''\<rparr>)"

definition read_trust_state_from :: "'w trust_calls \<Rightarrow> path \<Rightarrow> ('w, trust_state_file) trust_act" where
  "read_trust_state_from tc p =
     step_bind (inside (ask (tc_read_fails tc p))) (\<lambda>failed.
     if failed then step_err trust_state_failure
     else step_bind read_file (\<lambda>f. case f of
         NoTrustFile \<Rightarrow> step_ok \<lparr>tf_format_version = 1, tf_records = []\<rparr>
       | UndecodableTrust \<Rightarrow> or_panicking (naming_path (path_bytes p) (Inl stored_state_failure))
       | TrustFile st \<Rightarrow>
           if tf_format_version st = 1 then step_ok st
           else or_panicking (naming_path (path_bytes p) (Inl stored_state_failure))))"

definition read_trust_state :: "'w trust_calls \<Rightarrow> launch_system \<Rightarrow> ('w, trust_state_file) trust_act" where
  "read_trust_state tc ls = step_bind (step_lift (trust_state_paths ls)) (\<lambda>paths. read_trust_state_from tc (tp_file paths))"

definition commit_file :: "'w trust_calls \<Rightarrow> path \<Rightarrow> trust_state_file \<Rightarrow> ('w, unit) trust_act" where
  "commit_file tc p st = (\<lambda>s. case tc_commit tc p st (tu_world s) of
       (w, Inl _) \<Rightarrow> Some (s\<lparr>tu_world := w\<rparr>, Inl trust_state_failure)
     | (w, Inr _) \<Rightarrow> Some (s\<lparr>tu_world := w, tu_file := TrustFile st\<rparr>, Inr ()))"

definition write_trust_state :: "'w trust_calls \<Rightarrow> 'w application_host \<Rightarrow> path \<Rightarrow> trust_state_file \<Rightarrow> ('w, unit) trust_act" where
  "write_trust_state tc ap p st =
     step_then (inside (call_or trust_state_failure (tc_stage tc p)))
     (step_then (commit_file tc p st)
     (inside (call_or trust_state_failure (ap_restrict ap p))))"

text \<open>30 seconds, polled every 20 milliseconds.\<close>

definition trust_lock_turn ::
  "'w trust_calls \<Rightarrow> 'w application_host \<Rightarrow> path \<Rightarrow> nat \<Rightarrow> 'w \<Rightarrow> 'w \<times> (contract_failure + unit) option" where
  "trust_lock_turn tc ap p deadline w =
     (case tc_try_lock tc p w of
        (w, Locked) \<Rightarrow> (w, Some (Inr ()))
      | (w, LockFailed) \<Rightarrow> (w, Some (Inl trust_state_failure))
      | (w, WouldBlock) \<Rightarrow> (case ap_now ap w of (w, now) \<Rightarrow>
          if deadline \<le> now then (w, Some (Inl trust_state_failure)) else (w, None)))"

partial_function (option) trust_lock_loop ::
  "'w trust_calls \<Rightarrow> 'w application_host \<Rightarrow> path \<Rightarrow> nat \<Rightarrow> 'w \<Rightarrow> ('w \<times> (contract_failure + unit)) option" where
  "trust_lock_loop tc ap p deadline w =
     (case trust_lock_turn tc ap p deadline w of
        (w', r) \<Rightarrow> (case r of
            Some x \<Rightarrow> Some (w', x)
          | None \<Rightarrow> trust_lock_loop tc ap p deadline (ap_sleep ap lock_poll w')))"

text \<open>The same turn by turn, to evaluate it.\<close>

fun trust_lock_next ::
  "'w trust_calls \<Rightarrow> 'w application_host \<Rightarrow> path \<Rightarrow> nat \<Rightarrow> 'w \<times> (contract_failure + unit) option \<Rightarrow> ('w \<times> (contract_failure + unit)) option" where
  "trust_lock_next tc ap p deadline (w, Some x) = Some (w, x)"
| "trust_lock_next tc ap p deadline (w, None) = trust_lock_loop tc ap p deadline (ap_sleep ap lock_poll w)"

lemma trust_lock_loop_next [code]:
  "trust_lock_loop tc ap p deadline w = trust_lock_next tc ap p deadline (trust_lock_turn tc ap p deadline w)"
  by (subst trust_lock_loop.simps) (auto split: prod.splits option.splits)

definition lock_with_timeout :: "'w trust_calls \<Rightarrow> 'w application_host \<Rightarrow> path \<Rightarrow> ('w, unit) store_act" where
  "lock_with_timeout tc ap p =
     step_bind (ask (ap_now ap)) (\<lambda>now. case instant_add now (30 * 1000000000) of
       None \<Rightarrow> step_panic
     | Some deadline \<Rightarrow> trust_lock_loop tc ap p deadline)"

text \<open>What runs while a file is open, which is closed on every way out.\<close>

definition closing :: "('w \<Rightarrow> 'w \<times> unit) \<Rightarrow> ('w, 'a) trust_act \<Rightarrow> ('w, 'a) trust_act" where
  "closing close m = (\<lambda>s. map_option (\<lambda>(s', r). (s'\<lparr>tu_world := fst (close (tu_world s'))\<rparr>, r)) (m s))"

definition update_trust_state ::
  "'w trust_calls \<Rightarrow> 'w application_host \<Rightarrow> launch_system \<Rightarrow> (trust_state_file \<Rightarrow> ('w, trust_state_file) trust_act)
     \<Rightarrow> ('w, unit) trust_act" where
  "update_trust_state tc ap ls update =
     step_bind (step_lift (trust_state_paths ls)) (\<lambda>paths.
     step_then (inside (call_or trust_state_failure (tc_create_all tc (tp_directory paths))))
     (step_then (inside (call_or trust_state_failure (ap_restrict ap (tp_directory paths))))
     (step_then (inside (call_or trust_state_failure (tc_open_lock tc (tp_lock paths))))
     (closing (tc_unlock tc (tp_lock paths))
       (step_then (inside (lock_with_timeout tc ap (tp_lock paths)))
       (step_bind (read_trust_state_from tc (tp_file paths)) (\<lambda>st.
        step_bind (update st) (write_trust_state tc ap (tp_file paths)))))))))"

section \<open>Authorization\<close>

record authorized_server =
  au_server :: effective_server
  au_executable :: path
  au_cwd :: path
  au_child_environment :: "(string, string) btree"
  au_declaration_digest :: "string option"
  au_session_identity :: string

definition check_trust :: "loaded_configuration \<Rightarrow> string \<Rightarrow> trust_state_file \<Rightarrow> trust_declaration \<Rightarrow> unit or_panic" where
  "check_trust lc server st declaration =
     naming_path (path_bytes (lc_workspace lc))
       (case find_record st (lc_workspace_uri lc) server of
          None \<Rightarrow> Inl (project_trust_failure ''project_trust_required'')
        | Some r \<Rightarrow>
            if tr_state r = Denied then Inl (project_trust_failure ''project_trust_denied'')
            else if tr_state r = Trusted \<and> tr_declaration_digest r = Some (cd_digest declaration) then Inr ()
            else Inl (project_trust_failure ''project_trust_changed''))"

definition authorized_declaration ::
  "'w trust_calls \<Rightarrow> launch_system \<Rightarrow> loaded_configuration \<Rightarrow> effective_server \<Rightarrow> ('w, string option) trust_act" where
  "authorized_declaration tc ls lc server =
     (if es_project_fields server = [] then step_ok None
      else step_bind (or_panicking (current_declaration ls lc (es_name server) server)) (\<lambda>declaration.
           step_bind (read_trust_state tc ls) (\<lambda>st.
           step_then (or_panicking (check_trust lc (es_name server) st declaration))
           (step_ok (Some (cd_digest declaration))))))"

definition authorize_server ::
  "'w trust_calls \<Rightarrow> launch_system \<Rightarrow> loaded_configuration \<Rightarrow> effective_server \<Rightarrow> ('w, authorized_server) trust_act" where
  "authorize_server tc ls lc server =
     step_bind (or_panicking (resolve_server_executable ls server)) (\<lambda>executable.
     step_bind (or_panicking (resolve_server_cwd ls server)) (\<lambda>cwd.
     let environment = effective_child_environment ls server cwd
     in step_bind (authorized_declaration tc ls lc server) (\<lambda>digest.
        step_ok \<lparr>au_server = server, au_executable = executable, au_cwd = cwd, au_child_environment = environment,
          au_declaration_digest = digest, au_session_identity = session_identity ls lc server executable cwd environment\<rparr>)))"

end
