(* ===== verification/Trust_Commands.thy ===== *)
theory Trust_Commands
  imports Trust
begin

text \<open>
  \<open>configuration/trust.rs\<close>, continued: the commands \<open>trust grant\<close>, \<open>deny\<close>, \<open>revoke\<close>, \<open>status\<close> and \<open>list\<close>,
  with the results they print.
\<close>

section \<open>Rendering\<close>

definition changed_fields :: "(string, string) btree \<Rightarrow> (string, string) btree option \<Rightarrow> string list" where
  "changed_fields recorded current =
     filter (\<lambda>field. bt_get recorded field \<noteq> Option.bind current (\<lambda>c. bt_get c field))
       (bs_of_list (bt_keys recorded @ (case current of None \<Rightarrow> [] | Some c \<Rightarrow> bt_keys c)))"

fun remove_null_members :: "json \<Rightarrow> json" where
  "remove_null_members (JObject es) = JObject (filter (\<lambda>e. snd e \<noteq> JNull) es)"
| "remove_null_members v = v"

definition grant_hint :: json where
  "grant_hint = JArray [JString ''trust'', JString ''grant'']"

definition record_state :: "stored_trust_record \<Rightarrow> trust_declaration option \<Rightarrow> string \<times> string list" where
  "record_state r current =
     (case tr_state r of
        Denied \<Rightarrow> (''denied'', [])
      | Trusted \<Rightarrow>
          if (case current of None \<Rightarrow> False | Some d \<Rightarrow> tr_declaration_digest r = Some (cd_digest d)) then (''trusted'', [])
          else (''changed'', changed_fields (tr_field_digests r) (map_option cd_field_digests current)))"

definition current_or :: "string option \<Rightarrow> (trust_declaration \<Rightarrow> string) \<Rightarrow> trust_declaration option \<Rightarrow> json" where
  "current_or stored f current = jopt JString (case current of None \<Rightarrow> stored | Some d \<Rightarrow> Some (f d))"

definition render_record :: "stored_trust_record \<Rightarrow> trust_declaration option \<Rightarrow> json" where
  "render_record r current =
     (case record_state r current of (state, changed) \<Rightarrow>
        remove_null_members (jobj
          ([(''workspaceUri'', JString (tr_workspace_uri r)), (''server'', JString (tr_server r)), (''state'', JString state),
            (''declarationDigest'', jopt JString (tr_declaration_digest r)),
            (''currentDigest'', jopt (JString \<circ> cd_digest) current),
            (''executablePath'', current_or (tr_executable_path r) cd_executable_path current),
            (''sourcePath'', current_or (tr_source_path r) cd_source_path current),
            (''changedFields'', JArray (map JString changed)), (''updatedAt'', JString (tr_updated_at r))]
           @ (if state \<noteq> ''trusted'' then [(''requiredCommand'', grant_hint)] else []))))"

definition render_untrusted_record :: "loaded_configuration \<Rightarrow> string \<Rightarrow> trust_declaration option \<Rightarrow> string \<Rightarrow> json" where
  "render_untrusted_record lc server current now =
     remove_null_members (jobj
       [(''workspaceUri'', JString (lc_workspace_uri lc)), (''server'', JString server), (''state'', JString ''untrusted''),
        (''currentDigest'', jopt (JString \<circ> cd_digest) current),
        (''executablePath'', jopt (JString \<circ> cd_executable_path) current),
        (''sourcePath'', jopt (JString \<circ> cd_source_path) current),
        (''changedFields'', JArray []), (''updatedAt'', JString now), (''requiredCommand'', grant_hint)])"

definition success_envelope :: "parsed_invocation \<Rightarrow> json \<Rightarrow> json" where
  "success_envelope iv v =
     jobj [(''schemaVersion'', jnat 1), (''ok'', JBool True), (''command'', JArray (map JString (iv_command iv))), (''result'', v)]"

definition trust_change_envelope ::
  "parsed_invocation \<Rightarrow> loaded_configuration \<Rightarrow> string option \<Rightarrow> json list \<Rightarrow> string list \<times> string list \<Rightarrow> json" where
  "trust_change_envelope iv lc aggregate records signals =
     success_envelope iv (remove_null_members (jobj
       [(''workspaceUri'', JString (lc_workspace_uri lc)), (''aggregateDigest'', jopt JString aggregate), (''records'', JArray records),
        (''ownersSignalled'', JArray (map JString (fst signals))), (''ownerSignalFailures'', JArray (map JString (snd signals)))]))"

section \<open>The Workspace Application lock\<close>

text \<open>\<open>MutationStateStore::open\<close>, which creates its directories, and the lock a command holds to its end.\<close>

definition open_mutation_store :: "'w trust_calls \<Rightarrow> 'w application_host \<Rightarrow> launch_system \<Rightarrow> ('w, unit list) store_act" where
  "open_mutation_store tc ap ls =
     (case ls_state_directory ls of
        None \<Rightarrow> step_err state_failure
      | Some d \<Rightarrow>
          let root = join_name d ''mutation-v1''
          in each (\<lambda>p. step_then (call_or state_failure (tc_create_all tc p)) (call_or state_failure (ap_restrict ap p)))
               (root # map (join_name root) [''previews'', ''receipts'', ''transactions'', ''locks'']))"

definition with_application_lock ::
  "'w trust_calls \<Rightarrow> 'w state_files \<Rightarrow> 'w application_host \<Rightarrow> launch_system \<Rightarrow> loaded_configuration \<Rightarrow> ('w, 'a) trust_act \<Rightarrow> ('w, 'a) trust_act" where
  "with_application_lock tc sf ap ls lc m =
     (let uri = lc_workspace_uri lc
      in step_then (inside (open_mutation_store tc ap ls))
         (step_then (inside (open_application_lock sf uri))
         (closing (sf_close_lock sf uri)
           (step_then (inside (lock_workspace sf ap uri (ms_application_lock_timeout (st_mutation (lc_settings lc))))) m))))"

section \<open>Commands\<close>

definition command_configuration :: "launch_system \<Rightarrow> parsed_invocation \<Rightarrow> loaded_configuration or_panic" where
  "command_configuration ls iv =
     (case option_value iv ''--workspace'' of None \<Rightarrow> None | Some w \<Rightarrow> load_configuration ls (path_of_string w) False)"

definition named_declaration ::
  "launch_system \<Rightarrow> loaded_configuration \<Rightarrow> string \<Rightarrow> (string, trust_declaration) btree or_panic" where
  "named_declaration ls lc name =
     (case bt_get (lc_servers lc) name of
        None \<Rightarrow> Some (Inl server_selection_failure)
      | Some server \<Rightarrow>
          if project_controlled server
          then panic_then (current_declaration ls lc name server) (\<lambda>d. Some (Inr [(name, d)]))
          else Some (Inl server_selection_failure))"

definition granted_declarations ::
  "launch_system \<Rightarrow> loaded_configuration \<Rightarrow> parsed_invocation \<Rightarrow> (string, trust_declaration) btree or_panic" where
  "granted_declarations ls lc iv =
     (if has_option iv ''--all'' then current_declarations ls lc
      else case option_string ls iv ''--server'' of None \<Rightarrow> None | Some name \<Rightarrow> named_declaration ls lc name)"

definition matching_digest :: "string \<Rightarrow> string \<Rightarrow> 'a \<Rightarrow> 'a or_panic" where
  "matching_digest expected actual v = Some (if expected \<noteq> actual then Inl digest_mismatch_failure else Inr v)"

definition selected_declarations ::
  "launch_system \<Rightarrow> parsed_invocation \<Rightarrow> (string, trust_declaration) btree \<Rightarrow> trust_declaration list or_panic" where
  "selected_declarations ls iv declarations =
     (case option_string ls iv ''--digest'' of
        None \<Rightarrow> None
      | Some expected \<Rightarrow>
          if has_option iv ''--all'' then matching_digest expected (aggregate_digest ls declarations) (map snd declarations)
          else (case option_string ls iv ''--server'' of
              None \<Rightarrow> None
            | Some name \<Rightarrow> (case bt_get declarations name of
                None \<Rightarrow> None
              | Some d \<Rightarrow> matching_digest expected (cd_digest d) [d])))"

definition aggregate_of ::
  "launch_system \<Rightarrow> loaded_configuration \<Rightarrow> parsed_invocation \<Rightarrow> (string, trust_declaration) btree \<Rightarrow> string option or_panic" where
  "aggregate_of ls lc iv declarations =
     (if has_option iv ''--all'' then Some (Inr (Some (aggregate_digest ls declarations)))
      else case current_declarations ls lc of
          None \<Rightarrow> None
        | Some (Inl _) \<Rightarrow> Some (Inr None)
        | Some (Inr ds) \<Rightarrow> Some (Inr (Some (aggregate_digest ls ds))))"

definition replaces_denial :: "parsed_invocation \<Rightarrow> bool" where
  "replaces_denial iv \<longleftrightarrow> has_option iv ''--replace-denial'' \<or> has_option iv ''--replace-denials''"

definition denied_servers :: "trust_state_file \<Rightarrow> string \<Rightarrow> trust_declaration list \<Rightarrow> string list" where
  "denied_servers st uri ds =
     map cd_server (filter (\<lambda>d. list_ex (\<lambda>r. record_of uri (cd_server d) r \<and> tr_state r = Denied) (tf_records st)) ds)"

definition trusted_record :: "string \<Rightarrow> string \<Rightarrow> trust_declaration \<Rightarrow> stored_trust_record" where
  "trusted_record uri now d =
     \<lparr>tr_workspace_uri = uri, tr_server = cd_server d, tr_state = Trusted, tr_declaration_digest = Some (cd_digest d),
      tr_field_digests = cd_field_digests d, tr_executable_path = Some (cd_executable_path d),
      tr_source_path = Some (cd_source_path d), tr_updated_at = now\<rparr>"

definition record_grants ::
  "'w application_host \<Rightarrow> string \<Rightarrow> bool \<Rightarrow> trust_declaration list \<Rightarrow> trust_state_file \<Rightarrow> ('w, trust_state_file) trust_act" where
  "record_grants ap uri replace_denial ds st =
     (if denied_servers st uri ds \<noteq> [] \<and> \<not> replace_denial then step_err (trust_failure ''denial_replacement_required'')
      else step_bind (inside (ask (ap_timestamp ap))) (\<lambda>now.
        step_ok (fold (\<lambda>d. upsert_record (trusted_record uri now d)) ds st)))"

definition render_selected ::
  "trust_state_file \<Rightarrow> string \<Rightarrow> (string, trust_declaration) btree \<Rightarrow> trust_declaration list \<Rightarrow> json list" where
  "render_selected st uri declarations ds =
     map (\<lambda>r. render_record r (bt_get declarations (tr_server r))) (List.map_filter (\<lambda>d. find_record st uri (cd_server d)) ds)"

definition grant_trust ::
  "'w trust_calls \<Rightarrow> 'w state_files \<Rightarrow> 'w application_host \<Rightarrow> launch_system \<Rightarrow> parsed_invocation \<Rightarrow> ('w, json) trust_act" where
  "grant_trust tc sf ap ls iv =
     step_bind (or_panicking (command_configuration ls iv)) (\<lambda>lc.
     step_bind (or_panicking (granted_declarations ls lc iv)) (\<lambda>declarations.
     step_bind (or_panicking (selected_declarations ls iv declarations)) (\<lambda>ds.
     step_bind (or_panicking (aggregate_of ls lc iv declarations)) (\<lambda>aggregate.
     with_application_lock tc sf ap ls lc
       (step_then (update_trust_state tc ap ls (record_grants ap (lc_workspace_uri lc) (replaces_denial iv) ds))
       (step_bind (read_trust_state tc ls) (\<lambda>st.
        step_bind (inside (ask (tc_signal_owners tc (lc_workspace_uri lc) (map cd_server ds)))) (\<lambda>signals.
        step_ok (trust_change_envelope iv lc aggregate (render_selected st (lc_workspace_uri lc) declarations ds) signals)))))))))"

definition denied_record :: "launch_system \<Rightarrow> loaded_configuration \<Rightarrow> string \<Rightarrow> string \<Rightarrow> stored_trust_record" where
  "denied_record ls lc server now =
     \<lparr>tr_workspace_uri = lc_workspace_uri lc, tr_server = server, tr_state = Denied, tr_declaration_digest = None,
      tr_field_digests = [], tr_executable_path = None,
      tr_source_path = Some (to_string_lossy ls (path_bytes (lc_project_path lc))), tr_updated_at = now\<rparr>"

definition named_server :: "launch_system \<Rightarrow> parsed_invocation \<Rightarrow> string or_panic" where
  "named_server ls iv = map_option Inr (option_string ls iv ''--server'')"

definition deny_trust ::
  "'w trust_calls \<Rightarrow> 'w state_files \<Rightarrow> 'w application_host \<Rightarrow> launch_system \<Rightarrow> parsed_invocation \<Rightarrow> ('w, json) trust_act" where
  "deny_trust tc sf ap ls iv =
     step_bind (or_panicking (command_configuration ls iv)) (\<lambda>lc.
     step_bind (or_panicking (named_server ls iv)) (\<lambda>server.
     step_then (require (bt_get (lc_servers lc) server \<noteq> None) server_selection_failure)
     (step_bind (inside (ask (ap_timestamp ap))) (\<lambda>now.
     let r = denied_record ls lc server now
     in with_application_lock tc sf ap ls lc
       (step_then (update_trust_state tc ap ls (\<lambda>st. step_ok (upsert_record r st)))
       (step_bind (inside (ask (tc_signal_owners tc (lc_workspace_uri lc) [server]))) (\<lambda>signals.
        step_ok (trust_change_envelope iv lc None [render_record r None] signals))))))))"

definition revoke_trust ::
  "'w trust_calls \<Rightarrow> 'w state_files \<Rightarrow> 'w application_host \<Rightarrow> launch_system \<Rightarrow> parsed_invocation \<Rightarrow> ('w, json) trust_act" where
  "revoke_trust tc sf ap ls iv =
     step_bind (or_panicking (command_configuration ls iv)) (\<lambda>lc.
     step_bind (or_panicking (named_server ls iv)) (\<lambda>server.
     with_application_lock tc sf ap ls lc
       (step_then (update_trust_state tc ap ls (\<lambda>st. step_ok (remove_record (lc_workspace_uri lc) server st)))
       (step_bind (inside (ask (ap_timestamp ap))) (\<lambda>now.
        step_bind (inside (ask (tc_signal_owners tc (lc_workspace_uri lc) [server]))) (\<lambda>signals.
        step_ok (trust_change_envelope iv lc None [render_untrusted_record lc server None now] signals)))))))"

text \<open>The names \<open>trust status\<close> reports: those declared and those recorded, in order.\<close>

definition status_names :: "launch_system \<Rightarrow> loaded_configuration \<Rightarrow> parsed_invocation \<Rightarrow> string list \<Rightarrow> trust_state_file \<Rightarrow> string list" where
  "status_names ls lc iv declared st =
     bs_of_list (filter (\<lambda>name. case option_string ls iv ''--server'' of None \<Rightarrow> True | Some only \<Rightarrow> only = name)
       (declared @ map tr_server (filter (\<lambda>r. tr_workspace_uri r = lc_workspace_uri lc) (tf_records st))))"

definition status_record ::
  "'w application_host \<Rightarrow> loaded_configuration \<Rightarrow> (string, trust_declaration) btree \<Rightarrow> trust_state_file \<Rightarrow> string \<Rightarrow> ('w, json) trust_act" where
  "status_record ap lc declarations st name =
     (case find_record st (lc_workspace_uri lc) name of
        Some r \<Rightarrow> step_ok (render_record r (bt_get declarations name))
      | None \<Rightarrow> step_bind (inside (ask (ap_timestamp ap))) (\<lambda>now.
          step_ok (render_untrusted_record lc name (bt_get declarations name) now)))"

definition trust_status ::
  "'w trust_calls \<Rightarrow> 'w application_host \<Rightarrow> launch_system \<Rightarrow> parsed_invocation \<Rightarrow> ('w, json) trust_act" where
  "trust_status tc ap ls iv =
     step_bind (or_panicking (command_configuration ls iv)) (\<lambda>lc.
     step_bind (or_panicking (current_declarations ls lc)) (\<lambda>declarations.
     step_bind (read_trust_state tc ls) (\<lambda>st.
     step_bind (each (status_record ap lc declarations st) (status_names ls lc iv (bt_keys declarations) st)) (\<lambda>records.
     step_ok (success_envelope iv (jobj
       [(''workspaceUri'', JString (lc_workspace_uri lc)), (''aggregateDigest'', JString (aggregate_digest ls declarations)),
        (''records'', JArray records)]))))))"

definition listed_workspace :: "launch_system \<Rightarrow> parsed_invocation \<Rightarrow> contract_failure + string option" where
  "listed_workspace ls iv =
     (case option_value iv ''--workspace'' of
        None \<Rightarrow> Inr None
      | Some w \<Rightarrow> try_then (canonical_workspace ls (path_of_string w)) (\<lambda>p.
          case ls_directory_url ls p of None \<Rightarrow> Inl trust_state_failure | Some uri \<Rightarrow> Inr (Some uri)))"

definition trust_list :: "'w trust_calls \<Rightarrow> launch_system \<Rightarrow> parsed_invocation \<Rightarrow> ('w, json) trust_act" where
  "trust_list tc ls iv =
     step_bind (step_lift (listed_workspace ls iv)) (\<lambda>only.
     step_bind (read_trust_state tc ls) (\<lambda>st.
     step_ok (success_envelope iv (JArray (map (\<lambda>r. render_record r None)
       (filter (\<lambda>r. case only of None \<Rightarrow> True | Some uri \<Rightarrow> uri = tr_workspace_uri r) (tf_records st)))))))"

definition trust_verb :: "parsed_invocation \<Rightarrow> string option" where
  "trust_verb iv = (if 1 < length (iv_command iv) then Some (iv_command iv ! 1) else None)"

definition dispatch_trust_command ::
  "'w trust_calls \<Rightarrow> 'w state_files \<Rightarrow> 'w application_host \<Rightarrow> launch_system \<Rightarrow> parsed_invocation \<Rightarrow> ('w, json) trust_act" where
  "dispatch_trust_command tc sf ap ls iv =
     (if trust_verb iv = Some ''grant'' then grant_trust tc sf ap ls iv
      else if trust_verb iv = Some ''deny'' then deny_trust tc sf ap ls iv
      else if trust_verb iv = Some ''revoke'' then revoke_trust tc sf ap ls iv
      else if trust_verb iv = Some ''status'' then trust_status tc ap ls iv
      else if trust_verb iv = Some ''list'' then trust_list tc ls iv
      else step_panic)"

end
