(* ===== verification/Trust_Laws.thy ===== *)
theory Trust_Laws
  imports Trust_Commands
begin

text \<open>
  The Trust state as a policy: what each command makes of the decision on every server of every Workspace,
  whatever the locks, the clock and the filesystem answer, and what a history of commands says of a
  server that is launched.
\<close>

section \<open>The policy on disk\<close>

datatype decision = Refused | Approved "string option"

type_synonym policy = "string \<times> string \<Rightarrow> decision option"

definition decision_of :: "stored_trust_record \<Rightarrow> decision" where
  "decision_of r = (case tr_state r of Denied \<Rightarrow> Refused | Trusted \<Rightarrow> Approved (tr_declaration_digest r))"

definition policy_in :: "trust_state_file \<Rightarrow> policy" where
  "policy_in st = (\<lambda>(uri, server). map_option decision_of (find_record st uri server))"

fun loaded :: "trust_file \<Rightarrow> trust_state_file option" where
  "loaded NoTrustFile = Some \<lparr>tf_format_version = 1, tf_records = []\<rparr>"
| "loaded UndecodableTrust = None"
| "loaded (TrustFile st) = (if tf_format_version st = 1 then Some st else None)"

definition policy_of :: "trust_file \<Rightarrow> policy" where
  "policy_of f = (case loaded f of None \<Rightarrow> \<lambda>_. None | Some st \<Rightarrow> policy_in st)"

lemma find_filter: "List.find P xs = (case filter P xs of [] \<Rightarrow> None | x # _ \<Rightarrow> Some x)"
  by (induction xs) auto

lemma record_of_key: "record_of uri server = (\<lambda>r. record_key r = (uri, server))"
  by (auto simp: record_of_def record_key_def)

lemma find_sorted: "List.find (record_of uri server) (sort_key record_key rs) = List.find (record_of uri server) rs"
  unfolding find_filter record_of_key sort_key_stable ..

lemma policy_remove: "policy_in (remove_record uri server st) = (policy_in st)((uri, server) := None)"
proof (rule ext)
  fix k :: "string \<times> string"
  obtain u v where k: "k = (u, v)" by (cases k)
  have "filter (record_of u v) (filter (\<lambda>r. \<not> record_of uri server r) rs) = (if (u, v) = (uri, server) then [] else filter (record_of u v) rs)" for rs
    by (auto simp: record_of_def filter_empty_conv intro: filter_cong)
  then show "policy_in (remove_record uri server st) k = ((policy_in st)((uri, server) := None)) k"
    by (auto simp: k policy_in_def find_record_def remove_record_def find_filter)
qed

lemma find_append: "List.find P (xs @ ys) = (case List.find P xs of None \<Rightarrow> List.find P ys | Some x \<Rightarrow> Some x)"
  by (induction xs) auto

lemma policy_upsert: "policy_in (upsert_record r st) = (policy_in st)(record_key r \<mapsto> decision_of r)"
proof (rule ext)
  fix k :: "string \<times> string"
  obtain u v where k: "k = (u, v)" by (cases k)
  have "policy_in (upsert_record r st) k
      = (case policy_in (remove_record (tr_workspace_uri r) (tr_server r) st) k of
           None \<Rightarrow> if record_of u v r then Some (decision_of r) else None | Some d \<Rightarrow> Some d)"
    by (simp add: k policy_in_def find_record_def upsert_record_def Let_def find_sorted find_append split: option.split)
  then show "policy_in (upsert_record r st) k = ((policy_in st)(record_key r \<mapsto> decision_of r)) k"
    by (auto simp: policy_remove k record_of_def record_key_def split: option.split)
qed

lemma decision_Refused: "decision_of r = Refused \<longleftrightarrow> tr_state r = Denied"
  by (cases "tr_state r") (simp_all add: decision_of_def)

lemma format_versions [simp]:
  "tf_format_version (remove_record uri server st) = tf_format_version st"
  "tf_format_version (upsert_record r st) = tf_format_version st"
  by (simp_all add: remove_record_def upsert_record_def Let_def)

lemma policy_of_written: "tf_format_version st = 1 \<Longrightarrow> policy_of (TrustFile st) = policy_in st"
  by (simp add: policy_of_def)

lemma loaded_version: "loaded f = Some st \<Longrightarrow> tf_format_version st = 1 \<and> policy_of f = policy_in st"
  by (cases f) (auto simp: policy_of_def split: if_splits)

fun approve :: "string \<Rightarrow> trust_declaration list \<Rightarrow> policy \<Rightarrow> policy" where
  "approve uri [] p = p"
| "approve uri (d # ds) p = approve uri ds (p((uri, cd_server d) \<mapsto> Approved (Some (cd_digest d))))"

lemma approve_cases:
  "approve uri ds p k = p k \<or> (\<exists>d \<in> set ds. k = (uri, cd_server d) \<and> approve uri ds p k = Some (Approved (Some (cd_digest d))))"
proof (induction ds arbitrary: p)
  case (Cons d ds)
  define q where "q = p((uri, cd_server d) \<mapsto> Approved (Some (cd_digest d)))"
  have "q k = p k \<or> k = (uri, cd_server d) \<and> q k = Some (Approved (Some (cd_digest d)))"
    by (simp add: q_def)
  with Cons.IH [of q] show ?case unfolding approve.simps(2) q_def [symmetric] by auto
qed simp

lemma policy_grants:
  "tf_format_version st = 1 \<Longrightarrow> tf_format_version (fold (\<lambda>d. upsert_record (trusted_record uri now d)) ds st) = 1
     \<and> policy_in (fold (\<lambda>d. upsert_record (trusted_record uri now d)) ds st) = approve uri ds (policy_in st)"
proof (induction ds arbitrary: st)
  case (Cons d ds)
  define st1 where "st1 = upsert_record (trusted_record uri now d) st"
  have "tf_format_version st1 = 1"
    using Cons.prems by (simp add: st1_def upsert_record_def remove_record_def Let_def)
  moreover have "policy_in st1 = (policy_in st)((uri, cd_server d) \<mapsto> Approved (Some (cd_digest d)))"
    by (simp add: st1_def policy_upsert record_key_def decision_of_def trusted_record_def)
  ultimately show ?case using Cons.IH [of st1] unfolding fold_simps comp_apply approve.simps(2) st1_def [symmetric] by metis
qed simp

section \<open>What a command may do\<close>

definition approved_declarations :: "launch_system \<Rightarrow> loaded_configuration \<Rightarrow> parsed_invocation \<Rightarrow> trust_declaration list \<Rightarrow> bool" where
  "approved_declarations ls lc iv ds \<longleftrightarrow>
     (\<exists>declarations. granted_declarations ls lc iv = Some (Inr declarations) \<and> selected_declarations ls iv declarations = Some (Inr ds))"

inductive policy_step :: "launch_system \<Rightarrow> parsed_invocation \<Rightarrow> policy \<Rightarrow> policy \<Rightarrow> bool" for ls iv where
  grants: "trust_verb iv = Some ''grant'' \<Longrightarrow> command_configuration ls iv = Some (Inr lc) \<Longrightarrow> approved_declarations ls lc iv ds
     \<Longrightarrow> (\<forall>d \<in> set ds. p (lc_workspace_uri lc, cd_server d) = Some Refused \<longrightarrow> replaces_denial iv)
     \<Longrightarrow> policy_step ls iv p (approve (lc_workspace_uri lc) ds p)"
| denies: "trust_verb iv = Some ''deny'' \<Longrightarrow> command_configuration ls iv = Some (Inr lc) \<Longrightarrow> option_string ls iv ''--server'' = Some server
     \<Longrightarrow> bt_get (lc_servers lc) server \<noteq> None
     \<Longrightarrow> policy_step ls iv p (p((lc_workspace_uri lc, server) \<mapsto> Refused))"
| revokes: "trust_verb iv = Some ''revoke'' \<Longrightarrow> command_configuration ls iv = Some (Inr lc) \<Longrightarrow> option_string ls iv ''--server'' = Some server
     \<Longrightarrow> policy_step ls iv p (p((lc_workspace_uri lc, server) := None))"

section \<open>Actions on the Trust file\<close>

definition on_file ::
  "(trust_file \<Rightarrow> bool) \<Rightarrow> (trust_file \<Rightarrow> bool) \<Rightarrow> ('w, 'a) trust_act \<Rightarrow> ('a \<Rightarrow> trust_file \<Rightarrow> bool) \<Rightarrow> bool" where
  "on_file E R m Q \<longleftrightarrow> upholds (\<lambda>s. E (tu_file s)) (\<lambda>s. R (tu_file s)) m (\<lambda>a s. Q a (tu_file s))"

named_theorems file_rules "what actions on the Trust state do to its file"

lemma on_file_bind [file_rules]:
  "on_file E R m P \<Longrightarrow> (\<And>a. on_file E (P a) (f a) Q) \<Longrightarrow> on_file E R (step_bind m f) Q"
  unfolding on_file_def by (rule upholds_bind)

lemma on_file_then [file_rules]: "on_file E R m P \<Longrightarrow> (\<And>a. on_file E (P a) k Q) \<Longrightarrow> on_file E R (step_then m k) Q"
  unfolding step_then_def by (rule on_file_bind)

lemma on_file_ok: "(\<And>f. R f \<Longrightarrow> Q a f) \<Longrightarrow> on_file E R (step_ok a) Q"
  by (simp add: on_file_def upholds_ok)

lemma on_file_err: "(\<And>f. R f \<Longrightarrow> E f) \<Longrightarrow> on_file E R (step_err e) Q"
  by (simp add: on_file_def upholds_err)

lemma on_file_panic: "on_file E R step_panic Q"
  by (simp add: on_file_def upholds_panic)

lemma on_file_inside: "(\<And>f. R f \<Longrightarrow> E f) \<Longrightarrow> on_file E R (inside m) (\<lambda>_. R)"
  by (auto simp: on_file_def upholds_def inside_def split: sum.split)

lemma on_file_lift: "(\<And>f. R f \<Longrightarrow> E f) \<Longrightarrow> on_file E R (step_lift r) (\<lambda>a f. R f \<and> r = Inr a)"
  by (auto simp: on_file_def upholds_def step_lift_def split: sum.split)

lemma on_file_panicking: "(\<And>f. R f \<Longrightarrow> E f) \<Longrightarrow> on_file E R (or_panicking r) (\<lambda>a f. R f \<and> r = Some (Inr a))"
  by (auto simp: on_file_def upholds_def or_panicking_def step_lift_def step_panic_def split: sum.split option.splits)

lemma on_file_require: "(\<And>f. R f \<Longrightarrow> E f) \<Longrightarrow> on_file E R (require c e) (\<lambda>_ f. R f \<and> c)"
  by (auto simp: require_def on_file_def upholds_def step_ok_def step_err_def)

lemma on_file_closing: "on_file E R m Q \<Longrightarrow> on_file E R (closing close m) Q"
  unfolding on_file_def upholds_def closing_def by (fastforce split: sum.splits)

lemma on_file_each: "(\<And>x. on_file E R (g x) (\<lambda>_. R)) \<Longrightarrow> on_file E R (each g xs) (\<lambda>_. R)"
  unfolding on_file_def by (rule upholds_each)

lemma on_file_pre: "(c \<Longrightarrow> on_file E R m Q) \<Longrightarrow> on_file E (\<lambda>f. R f \<and> c) m Q"
  unfolding on_file_def by (rule upholds_pre)

lemma on_file_mono:
  "on_file E R m Q \<Longrightarrow> (\<And>a f. Q a f \<Longrightarrow> Q' a f) \<Longrightarrow> on_file E R m Q'"
  unfolding on_file_def by (rule upholds_mono)

lemma on_fileD: "on_file E R m Q \<Longrightarrow> m s = Some (s', r) \<Longrightarrow> R (tu_file s) \<Longrightarrow> (case r of Inl _ \<Rightarrow> E (tu_file s') | Inr a \<Rightarrow> Q a (tu_file s'))"
  unfolding on_file_def by (rule upholdsD)

lemma read_from_file:
  assumes "\<And>f. R f \<Longrightarrow> E f"
  shows "on_file E R (read_trust_state_from tc p) (\<lambda>st f. R f \<and> loaded f = Some st)"
proof -
  have "on_file E R (inside (ask (tc_read_fails tc p))) (\<lambda>_. R)" by (rule on_file_inside [OF assms])
  moreover have "on_file E R (if failed then step_err trust_state_failure
     else step_bind read_file (\<lambda>f. case f of
         NoTrustFile \<Rightarrow> step_ok \<lparr>tf_format_version = 1, tf_records = []\<rparr>
       | UndecodableTrust \<Rightarrow> or_panicking (naming_path (path_bytes p) (Inl stored_state_failure))
       | TrustFile st \<Rightarrow>
           if tf_format_version st = 1 then step_ok st
           else or_panicking (naming_path (path_bytes p) (Inl stored_state_failure)))) (\<lambda>st f. R f \<and> loaded f = Some st)" for failed
    using assms
    by (auto simp: on_file_def upholds_def step_err_def step_bind_def read_file_def step_ok_def or_panicking_def naming_path_def
        step_panic_def step_lift_def split: sum.splits trust_file.splits if_splits option.splits)
  ultimately show ?thesis unfolding read_trust_state_from_def by (rule on_file_bind)
qed

lemma read_state: "(\<And>f. R f \<Longrightarrow> E f) \<Longrightarrow> on_file E R (read_trust_state tc ls) (\<lambda>st f. R f \<and> loaded f = Some st)"
  unfolding read_trust_state_def
  by (rule on_file_bind [OF on_file_lift]) (auto intro!: on_file_pre read_from_file)

text \<open>An update leaves the file as it was, or what its function made of the state it read.\<close>

definition updated :: "(trust_state_file \<Rightarrow> trust_state_file \<Rightarrow> bool) \<Rightarrow> trust_file \<Rightarrow> trust_file \<Rightarrow> bool" where
  "updated G f0 f \<longleftrightarrow> (\<exists>st st'. loaded f0 = Some st \<and> G st st' \<and> f = TrustFile st')"

lemma write_updates:
  assumes "loaded f0 = Some st" "G st st'"
  shows "on_file (\<lambda>f. f = f0 \<or> updated G f0 f) (\<lambda>f. f = f0) (write_trust_state tc ap p st') (\<lambda>_. updated G f0)"
proof -
  have "on_file (\<lambda>f. f = f0 \<or> updated G f0 f) (\<lambda>f. f = f0) (commit_file tc p st') (\<lambda>_. updated G f0)"
    using assms by (auto simp: on_file_def upholds_def commit_file_def updated_def split: prod.splits sum.splits)
  then have "on_file (\<lambda>f. f = f0 \<or> updated G f0 f) (\<lambda>f. f = f0)
      (step_then (commit_file tc p st') (inside (call_or trust_state_failure (ap_restrict ap p)))) (\<lambda>_. updated G f0)"
    by (rule on_file_then) (simp add: on_file_inside)
  then show ?thesis unfolding write_trust_state_def
    by (intro on_file_then [OF on_file_inside]) simp_all
qed

lemma update_updates:
  assumes "\<And>E st. (\<And>f. f = f0 \<Longrightarrow> E f) \<Longrightarrow> on_file E (\<lambda>f. f = f0) (update st) (\<lambda>st' f. f = f0 \<and> G st st')"
  shows "on_file (\<lambda>f. f = f0 \<or> updated G f0 f) (\<lambda>f. f = f0) (update_trust_state tc ap ls update) (\<lambda>_. updated G f0)"
proof -
  have "on_file (\<lambda>f. f = f0 \<or> updated G f0 f) (\<lambda>f. f = f0)
      (step_bind (read_trust_state_from tc p) (\<lambda>st. step_bind (update st) (write_trust_state tc ap p))) (\<lambda>_. updated G f0)" for p
  proof (rule on_file_bind [OF read_from_file])
    fix st
    have "on_file (\<lambda>f. f = f0 \<or> updated G f0 f) (\<lambda>f. f = f0) (step_bind (update st) (write_trust_state tc ap p)) (\<lambda>_. updated G f0)"
      if "loaded f0 = Some st"
      by (rule on_file_bind [OF assms]) (auto intro!: on_file_pre write_updates that)
    then show "on_file (\<lambda>f. f = f0 \<or> updated G f0 f) (\<lambda>f. f = f0 \<and> loaded f = Some st)
        (step_bind (update st) (write_trust_state tc ap p)) (\<lambda>_. updated G f0)"
      unfolding on_file_def upholds_def by blast
  qed simp
  then show ?thesis unfolding update_trust_state_def
    by (intro on_file_bind [OF on_file_lift] on_file_pre on_file_then [OF on_file_inside] on_file_closing) auto
qed

lemma locked_file:
  "on_file E R m Q \<Longrightarrow> (\<And>f. R f \<Longrightarrow> E f) \<Longrightarrow> on_file E R (with_application_lock tc sf ap ls lc m) Q"
  unfolding with_application_lock_def Let_def by (intro on_file_then [OF on_file_inside] on_file_closing) auto

lemma on_file_weaken:
  "on_file E R m Q \<Longrightarrow> (\<And>f. E f \<Longrightarrow> E' f) \<Longrightarrow> (\<And>a f. Q a f \<Longrightarrow> Q' a f) \<Longrightarrow> on_file E' R m Q'"
  unfolding on_file_def by (rule upholds_mono)

section \<open>Every command takes at most one step of the policy\<close>

abbreviation stepped :: "launch_system \<Rightarrow> parsed_invocation \<Rightarrow> trust_file \<Rightarrow> trust_file \<Rightarrow> bool" where
  "stepped ls iv f0 f \<equiv> policy_step ls iv (policy_of f0) (policy_of f)"

lemma update_steps:
  assumes "\<And>E st. (\<And>f. f = f0 \<Longrightarrow> E f) \<Longrightarrow> on_file E (\<lambda>f. f = f0) (update st) (\<lambda>st' f. f = f0 \<and> G st st')"
    and "\<And>st st'. loaded f0 = Some st \<Longrightarrow> G st st' \<Longrightarrow> stepped ls iv f0 (TrustFile st')"
  shows "on_file (\<lambda>f. f = f0 \<or> stepped ls iv f0 f) (\<lambda>f. f = f0) (update_trust_state tc ap ls update) (\<lambda>_. stepped ls iv f0)"
  by (rule on_file_weaken [OF update_updates [where G = G, OF assms(1)]]) (auto simp: updated_def intro: assms(2))

lemma not_denied:
  assumes "denied_servers st uri ds = []" "d \<in> set ds"
  shows "policy_in st (uri, cd_server d) \<noteq> Some Refused"
proof
  assume "policy_in st (uri, cd_server d) = Some Refused"
  then obtain r where "List.find (record_of uri (cd_server d)) (tf_records st) = Some r" "tr_state r = Denied"
    by (auto simp: policy_in_def find_record_def decision_Refused)
  then have "list_ex (\<lambda>r. record_of uri (cd_server d) r \<and> tr_state r = Denied) (tf_records st)"
    by (auto simp: find_Some_iff list_ex_iff intro!: bexI [of _ r])
  with assms show False by (simp add: denied_servers_def filter_empty_conv)
qed

lemma grants_step:
  assumes "trust_verb iv = Some ''grant''" "command_configuration ls iv = Some (Inr lc)" "approved_declarations ls lc iv ds"
    and "loaded f0 = Some st" "denied_servers st (lc_workspace_uri lc) ds = [] \<or> replaces_denial iv"
  shows "stepped ls iv f0 (TrustFile (fold (\<lambda>d. upsert_record (trusted_record (lc_workspace_uri lc) now d)) ds st))"
proof -
  have v: "tf_format_version st = 1" "policy_of f0 = policy_in st" using loaded_version [OF assms(4)] by auto
  from policy_grants [OF v(1)] have "policy_of (TrustFile (fold (\<lambda>d. upsert_record (trusted_record (lc_workspace_uri lc) now d)) ds st))
      = approve (lc_workspace_uri lc) ds (policy_in st)"
    using policy_of_written by metis
  moreover have "\<forall>d \<in> set ds. policy_in st (lc_workspace_uri lc, cd_server d) = Some Refused \<longrightarrow> replaces_denial iv"
    using assms(5) not_denied by blast
  ultimately show ?thesis using policy_step.grants [OF assms(1-3)] v(2) by metis
qed

lemma record_grants_file:
  "(\<And>f. f = f0 \<Longrightarrow> E f) \<Longrightarrow> on_file E (\<lambda>f. f = f0) (record_grants ap uri replace ds st)
     (\<lambda>st' f. f = f0 \<and> (denied_servers st uri ds = [] \<or> replace) \<and> (\<exists>now. st' = fold (\<lambda>d. upsert_record (trusted_record uri now d)) ds st))"
  unfolding record_grants_def
  by (cases "denied_servers st uri ds \<noteq> [] \<and> \<not> replace")
    (auto intro!: on_file_err on_file_ok on_file_bind [OF on_file_inside])

lemma grant_steps:
  assumes "trust_verb iv = Some ''grant''"
  shows "on_file (\<lambda>f. f = f0 \<or> stepped ls iv f0 f) (\<lambda>f. f = f0) (grant_trust tc sf ap ls iv) (\<lambda>_. stepped ls iv f0)"
  unfolding grant_trust_def
proof (intro on_file_bind [OF on_file_panicking] on_file_pre locked_file)
  fix lc declarations ds aggregate
  assume got: "command_configuration ls iv = Some (Inr lc)" "granted_declarations ls lc iv = Some (Inr declarations)"
    "selected_declarations ls iv declarations = Some (Inr ds)"
  let ?uri = "lc_workspace_uri lc" and ?E = "\<lambda>f. f = f0 \<or> stepped ls iv f0 f"
  have approved: "approved_declarations ls lc iv ds" using got by (auto simp: approved_declarations_def)
  have "on_file ?E (\<lambda>f. f = f0) (update_trust_state tc ap ls (record_grants ap ?uri (replaces_denial iv) ds)) (\<lambda>_. stepped ls iv f0)"
    by (rule update_steps [OF record_grants_file]) (auto intro: grants_step [OF assms got(1) approved])
  then show "on_file ?E (\<lambda>f. f = f0)
      (step_then (update_trust_state tc ap ls (record_grants ap ?uri (replaces_denial iv) ds))
       (step_bind (read_trust_state tc ls) (\<lambda>st.
        step_bind (inside (ask (tc_signal_owners tc ?uri (map cd_server ds)))) (\<lambda>signals.
        step_ok (trust_change_envelope iv lc aggregate (render_selected st ?uri declarations ds) signals)))))
      (\<lambda>_. stepped ls iv f0)"
    by (rule on_file_then) (intro on_file_bind [OF read_state] on_file_pre on_file_bind [OF on_file_inside] on_file_ok; simp)
qed simp_all

lemma deny_steps:
  assumes "trust_verb iv = Some ''deny''"
  shows "on_file (\<lambda>f. f = f0 \<or> stepped ls iv f0 f) (\<lambda>f. f = f0) (deny_trust tc sf ap ls iv) (\<lambda>_. stepped ls iv f0)"
  unfolding deny_trust_def Let_def
proof (intro on_file_bind [OF on_file_panicking] on_file_then [OF on_file_require] on_file_bind [OF on_file_inside] on_file_pre locked_file)
  fix lc server now
  assume got: "command_configuration ls iv = Some (Inr lc)" "named_server ls iv = Some (Inr server)" "bt_get (lc_servers lc) server \<noteq> None"
  let ?r = "denied_record ls lc server now" and ?E = "\<lambda>f. f = f0 \<or> stepped ls iv f0 f"
  have named: "option_string ls iv ''--server'' = Some server" using got(2) by (simp add: named_server_def)
  have step: "stepped ls iv f0 (TrustFile (upsert_record ?r st))" if "loaded f0 = Some st" for st
  proof -
    have "policy_of (TrustFile (upsert_record ?r st)) = (policy_of f0)((lc_workspace_uri lc, server) \<mapsto> Refused)"
      using loaded_version [OF that]
      by (simp add: policy_of_written policy_upsert) (simp add: denied_record_def record_key_def decision_of_def)
    then show ?thesis using policy_step.denies [OF assms got(1) named got(3)] by metis
  qed
  have "on_file ?E (\<lambda>f. f = f0) (update_trust_state tc ap ls (\<lambda>st. step_ok (upsert_record ?r st))) (\<lambda>_. stepped ls iv f0)"
    by (rule update_steps [where G = "\<lambda>st st'. st' = upsert_record ?r st"]) (auto intro: on_file_ok step)
  then show "on_file ?E (\<lambda>f. f = f0)
      (step_then (update_trust_state tc ap ls (\<lambda>st. step_ok (upsert_record ?r st)))
       (step_bind (inside (ask (tc_signal_owners tc (lc_workspace_uri lc) [server]))) (\<lambda>signals.
        step_ok (trust_change_envelope iv lc None [render_record ?r None] signals)))) (\<lambda>_. stepped ls iv f0)"
    by (rule on_file_then) (intro on_file_bind [OF on_file_inside] on_file_ok; simp)
qed simp_all

lemma revoke_steps:
  assumes "trust_verb iv = Some ''revoke''"
  shows "on_file (\<lambda>f. f = f0 \<or> stepped ls iv f0 f) (\<lambda>f. f = f0) (revoke_trust tc sf ap ls iv) (\<lambda>_. stepped ls iv f0)"
  unfolding revoke_trust_def
proof (intro on_file_bind [OF on_file_panicking] on_file_pre locked_file)
  fix lc server
  assume got: "command_configuration ls iv = Some (Inr lc)" "named_server ls iv = Some (Inr server)"
  let ?uri = "lc_workspace_uri lc" and ?E = "\<lambda>f. f = f0 \<or> stepped ls iv f0 f"
  have named: "option_string ls iv ''--server'' = Some server" using got(2) by (simp add: named_server_def)
  have step: "stepped ls iv f0 (TrustFile (remove_record ?uri server st))" if "loaded f0 = Some st" for st
  proof -
    have "policy_of (TrustFile (remove_record ?uri server st)) = (policy_of f0)((?uri, server) := None)"
      using loaded_version [OF that] by (simp add: policy_of_written policy_remove)
    then show ?thesis using policy_step.revokes [OF assms got(1) named] by metis
  qed
  have "on_file ?E (\<lambda>f. f = f0) (update_trust_state tc ap ls (\<lambda>st. step_ok (remove_record ?uri server st))) (\<lambda>_. stepped ls iv f0)"
    by (rule update_steps [where G = "\<lambda>st st'. st' = remove_record ?uri server st"]) (auto intro: on_file_ok step)
  then show "on_file ?E (\<lambda>f. f = f0)
      (step_then (update_trust_state tc ap ls (\<lambda>st. step_ok (remove_record ?uri server st)))
       (step_bind (inside (ask (ap_timestamp ap))) (\<lambda>now.
        step_bind (inside (ask (tc_signal_owners tc ?uri [server]))) (\<lambda>signals.
        step_ok (trust_change_envelope iv lc None [render_untrusted_record lc server None now] signals))))) (\<lambda>_. stepped ls iv f0)"
    by (rule on_file_then) (intro on_file_bind [OF on_file_inside] on_file_ok; simp)
qed simp_all

lemma status_keeps: "(\<And>f. R f \<Longrightarrow> E f) \<Longrightarrow> on_file E R (trust_status tc ap ls iv) (\<lambda>_. R)"
  unfolding trust_status_def
  by (intro on_file_bind [OF on_file_panicking] on_file_bind [OF read_state] on_file_pre on_file_bind [OF on_file_each] on_file_ok)
    (auto simp: status_record_def intro: on_file_ok on_file_bind [OF on_file_inside] split: option.split)

lemma list_keeps: "(\<And>f. R f \<Longrightarrow> E f) \<Longrightarrow> on_file E R (trust_list tc ls iv) (\<lambda>_. R)"
  unfolding trust_list_def
  by (intro on_file_bind [OF on_file_lift] on_file_bind [OF read_state] on_file_pre on_file_ok) simp_all

definition changes_trust :: "parsed_invocation \<Rightarrow> bool" where
  "changes_trust iv \<longleftrightarrow> trust_verb iv \<in> {Some ''grant'', Some ''deny'', Some ''revoke''}"

lemma dispatch_steps:
  "on_file (\<lambda>f. f = f0 \<or> stepped ls iv f0 f) (\<lambda>f. f = f0) (dispatch_trust_command tc sf ap ls iv)
     (\<lambda>_ f. if changes_trust iv then stepped ls iv f0 f else f = f0)"
proof -
  let ?E = "\<lambda>f. f = f0 \<or> stepped ls iv f0 f" and ?R = "\<lambda>f. f = f0"
  have "on_file ?E ?R (trust_status tc ap ls iv) (\<lambda>_. ?R)" "on_file ?E ?R (trust_list tc ls iv) (\<lambda>_. ?R)"
    by (rule status_keeps list_keeps; simp)+
  moreover have "changes_trust iv" if "trust_verb iv = Some ''grant'' \<or> trust_verb iv = Some ''deny'' \<or> trust_verb iv = Some ''revoke''"
    using that by (auto simp: changes_trust_def)
  moreover have "\<not> changes_trust iv" if "trust_verb iv = Some ''status'' \<or> trust_verb iv = Some ''list''"
    using that by (auto simp: changes_trust_def)
  ultimately show ?thesis
    unfolding dispatch_trust_command_def by (simp add: on_file_panic grant_steps deny_steps revoke_steps)
qed

lemma command_step:
  assumes "dispatch_trust_command tc sf ap ls iv s = Some (s', r)"
  shows "(tu_file s' = tu_file s \<or> stepped ls iv (tu_file s) (tu_file s'))
    \<and> (\<not> isl r \<longrightarrow> (if changes_trust iv then stepped ls iv (tu_file s) (tu_file s') else tu_file s' = tu_file s))"
  using on_fileD [OF dispatch_steps [of "tu_file s"] assms] by (auto split: sum.splits if_splits)

text \<open>
  C8. The Trust commands implement a policy, the decision on each server of each Workspace: whatever the
  locks, the clock, the filesystem and the session owners answer, a command leaves the stored policy as it
  was or takes one step of it. A grant approves exactly the declarations it selected, those whose digest
  was supplied, and overrides a refusal only when told to; a denial refuses one server that is
  declared; a revocation forgets one decision. One that succeeds has taken its step, and \<open>status\<close> and
  \<open>list\<close> change nothing.
\<close>

theorem trust_commands_refine_policy:
  assumes "dispatch_trust_command tc sf ap ls iv s = Some (s', r)"
  shows "(policy_of (tu_file s') = policy_of (tu_file s) \<or> policy_step ls iv (policy_of (tu_file s)) (policy_of (tu_file s')))
    \<and> (\<not> isl r \<longrightarrow> (if changes_trust iv then policy_step ls iv (policy_of (tu_file s)) (policy_of (tu_file s')) else tu_file s' = tu_file s))"
  using command_step [OF assms] by (auto split: if_splits)

section \<open>Histories\<close>

text \<open>
  The commands run so far, each with the system it saw and whether it succeeded, and between them whatever
  else happens to the world other than the Trust file.
\<close>

inductive trust_history ::
  "'w trust_calls \<Rightarrow> 'w state_files \<Rightarrow> 'w application_host \<Rightarrow> 'w trust_store
     \<Rightarrow> (launch_system \<times> parsed_invocation \<times> bool) list \<Rightarrow> 'w trust_store \<Rightarrow> bool" for tc sf ap s0 where
  start: "trust_history tc sf ap s0 [] s0"
| command: "trust_history tc sf ap s0 h s \<Longrightarrow> dispatch_trust_command tc sf ap ls iv s = Some (s', r)
     \<Longrightarrow> trust_history tc sf ap s0 (h @ [(ls, iv, \<not> isl r)]) s'"
| elsewhere: "trust_history tc sf ap s0 h s \<Longrightarrow> trust_history tc sf ap s0 h (s\<lparr>tu_world := w\<rparr>)"

definition names_key :: "launch_system \<Rightarrow> parsed_invocation \<Rightarrow> string \<times> string \<Rightarrow> bool" where
  "names_key ls iv k \<longleftrightarrow> (\<exists>lc. command_configuration ls iv = Some (Inr lc) \<and> lc_workspace_uri lc = fst k
     \<and> option_string ls iv ''--server'' = Some (snd k))"

definition withdraws :: "launch_system \<Rightarrow> parsed_invocation \<Rightarrow> string \<times> string \<Rightarrow> bool" where
  "withdraws ls iv k \<longleftrightarrow> trust_verb iv \<in> {Some ''deny'', Some ''revoke''} \<and> names_key ls iv k"

definition approves :: "launch_system \<Rightarrow> parsed_invocation \<Rightarrow> string \<times> string \<Rightarrow> string \<Rightarrow> bool" where
  "approves ls iv k digest \<longleftrightarrow> trust_verb iv = Some ''grant'' \<and> (\<exists>lc ds. command_configuration ls iv = Some (Inr lc)
     \<and> lc_workspace_uri lc = fst k \<and> approved_declarations ls lc iv ds \<and> (\<exists>d \<in> set ds. cd_server d = snd k \<and> cd_digest d = digest))"

definition lifts_denial :: "launch_system \<Rightarrow> parsed_invocation \<Rightarrow> string \<times> string \<Rightarrow> bool" where
  "lifts_denial ls iv k \<longleftrightarrow> trust_verb iv = Some ''revoke'' \<and> names_key ls iv k
     \<or> replaces_denial iv \<and> (\<exists>digest. approves ls iv k digest)"

lemma step_approved:
  "policy_step ls iv p p' \<Longrightarrow> p' k = Some (Approved x) \<Longrightarrow> p k = Some (Approved x) \<or> (\<exists>digest. x = Some digest \<and> approves ls iv k digest)"
proof (induction rule: policy_step.cases)
  case (grants lc ds p)
  with approve_cases [of "lc_workspace_uri lc" ds p k] show ?case by (force simp: approves_def)
qed (auto split: if_splits)

lemma step_withdrawn: "policy_step ls iv p p' \<Longrightarrow> withdraws ls iv k \<Longrightarrow> p' k \<noteq> Some (Approved x)"
  by (erule policy_step.cases) (auto simp: withdraws_def names_key_def split: prod.splits if_splits)

lemma step_refused: "policy_step ls iv p p' \<Longrightarrow> p k = Some Refused \<Longrightarrow> p' k = Some Refused \<or> lifts_denial ls iv k"
proof (induction rule: policy_step.cases)
  case (grants lc ds p)
  with approve_cases [of "lc_workspace_uri lc" ds p k] show ?case by (force simp: lifts_denial_def approves_def)
qed (auto simp: lifts_denial_def names_key_def)

definition last_decision :: "(launch_system \<times> parsed_invocation \<times> bool) list \<Rightarrow> string \<times> string \<Rightarrow> string \<Rightarrow> bool" where
  "last_decision h k digest \<longleftrightarrow>
     (\<exists>h1 ls iv ok h2. h = h1 @ (ls, iv, ok) # h2 \<and> approves ls iv k digest
       \<and> (\<forall>(ls', iv', ok') \<in> set h2. ok' \<longrightarrow> \<not> withdraws ls' iv' k))"

lemma last_decision_snoc: "last_decision h k digest \<Longrightarrow> (ok \<Longrightarrow> \<not> withdraws ls iv k) \<Longrightarrow> last_decision (h @ [(ls, iv, ok)]) k digest"
  unfolding last_decision_def by fastforce

lemma last_decision_now: "approves ls iv k digest \<Longrightarrow> last_decision (h @ [(ls, iv, ok)]) k digest"
  unfolding last_decision_def by fastforce

lemma approvals_were_granted:
  assumes "trust_history tc sf ap s0 h s" "tu_file s0 = NoTrustFile" "policy_of (tu_file s) k = Some (Approved x)"
  shows "\<exists>digest. x = Some digest \<and> last_decision h k digest"
  using assms
proof (induction rule: trust_history.induct)
  case start
  then show ?case by (simp add: policy_of_def policy_in_def find_record_def split: prod.splits)
next
  case (command h s ls iv s' r)
  note step = command_step [OF command.hyps(2)]
  have still: "\<not> withdraws ls iv k" if "\<not> isl r"
  proof
    assume w: "withdraws ls iv k"
    then have "changes_trust iv" by (auto simp: withdraws_def changes_trust_def)
    with step that have "stepped ls iv (tu_file s) (tu_file s')" by simp
    from step_withdrawn [OF this w] command.prems(2) show False by blast
  qed
  have "policy_of (tu_file s) k = Some (Approved x) \<or> (\<exists>digest. x = Some digest \<and> approves ls iv k digest)"
  proof (cases "tu_file s' = tu_file s")
    case False
    with step have "stepped ls iv (tu_file s) (tu_file s')" by simp
    from step_approved [OF this command.prems(2)] show ?thesis .
  qed (use command.prems(2) in simp)
  then show ?case
  proof
    assume "policy_of (tu_file s) k = Some (Approved x)"
    from command.IH [OF command.prems(1) this] obtain digest where d: "x = Some digest" "last_decision h k digest" by blast
    from last_decision_snoc [OF d(2) still] have "last_decision (h @ [(ls, iv, \<not> isl r)]) k digest" .
    with d(1) show ?thesis by blast
  next
    assume "\<exists>digest. x = Some digest \<and> approves ls iv k digest"
    then obtain digest where "x = Some digest" "approves ls iv k digest" by blast
    with last_decision_now [OF this(2), of h "\<not> isl r"] show ?thesis by blast
  qed
qed auto

section \<open>Authorization\<close>

lemma check_trust_approved:
  assumes "check_trust lc server st d = Some (Inr u)"
  shows "policy_in st (lc_workspace_uri lc, server) = Some (Approved (Some (cd_digest d)))"
proof -
  from assms obtain r where "find_record st (lc_workspace_uri lc) server = Some r" "tr_state r \<noteq> Denied"
      "tr_declaration_digest r = Some (cd_digest d)"
    by (auto simp: check_trust_def split: option.splits if_splits)
  then show ?thesis by (cases "tr_state r") (simp_all add: policy_in_def decision_of_def)
qed

lemma authorization_reads_policy:
  assumes "es_project_fields server \<noteq> []"
  shows "on_file (\<lambda>_. True) (\<lambda>f. f = f0) (authorize_server tc ls lc server)
    (\<lambda>au f. f = f0 \<and> (\<exists>d. current_declaration ls lc (es_name server) server = Some (Inr d) \<and> au_declaration_digest au = Some (cd_digest d)
       \<and> policy_of f0 (lc_workspace_uri lc, es_name server) = Some (Approved (Some (cd_digest d)))))"
proof -
  let ?k = "(lc_workspace_uri lc, es_name server)"
  let ?Q = "\<lambda>digest d. current_declaration ls lc (es_name server) server = Some (Inr d) \<and> digest = Some (cd_digest d)
       \<and> policy_of f0 ?k = Some (Approved (Some (cd_digest d)))"
  have "on_file (\<lambda>_. True) (\<lambda>f. f = f0) (authorized_declaration tc ls lc server) (\<lambda>digest f. f = f0 \<and> (\<exists>d. ?Q digest d))"
    unfolding authorized_declaration_def if_not_P [OF assms]
  proof (intro on_file_bind [OF on_file_panicking] on_file_bind [OF read_state] on_file_then [OF on_file_panicking] on_file_pre)
    fix d st u
    assume ok: "check_trust lc (es_name server) st d = Some (Inr u)"
    show "on_file (\<lambda>_. True)
        (\<lambda>f. (f = f0 \<and> current_declaration ls lc (es_name server) server = Some (Inr d)) \<and> loaded f = Some st)
        (step_ok (Some (cd_digest d))) (\<lambda>digest f. f = f0 \<and> (\<exists>d. ?Q digest d))"
      by (rule on_file_ok) (use check_trust_approved [OF ok] loaded_version [of f0 st] in auto)
  qed simp_all
  then show ?thesis unfolding authorize_server_def Let_def
    by (intro on_file_bind [OF on_file_panicking] on_file_pre) (auto elim!: on_file_bind intro!: on_file_ok)
qed


lemma refusal_stands:
  assumes "trust_history tc sf ap s0 h s" "policy_of (tu_file s0) k = Some Refused"
    and "\<forall>(ls, iv, ok) \<in> set h. \<not> lifts_denial ls iv k"
  shows "policy_of (tu_file s) k = Some Refused"
  using assms
proof (induction rule: trust_history.induct)
  case (command h s ls iv s' r)
  then have refused: "policy_of (tu_file s) k = Some Refused" "\<not> lifts_denial ls iv k" by auto
  show ?case
  proof (cases "tu_file s' = tu_file s")
    case False
    with command_step [OF command.hyps(2)] have "stepped ls iv (tu_file s) (tu_file s')" by simp
    from step_refused [OF this refused(1)] refused(2) show ?thesis by blast
  qed (use refused in simp)
qed auto


end
