(* ===== verification/Short_Lengths.thy ===== *)
theory Short_Lengths
  imports Json_Value "HOL-Library.Code_Target_Nat"
begin

text \<open>The length of a short field, evaluated without words, for the samples.\<close>

definition zero_byte :: char where "zero_byte = char_of (0 :: nat)"

lemma be_len_small [code]:
  "be_len n = (if n < 256 then replicate 7 zero_byte @ [char_of n] else be_bytes (word_of_nat n))"
proof (cases "n < 256")
  case True
  have high: "byte_at (word_of_nat n) i = zero_byte" if "1 \<le> i" "i < 8" for i
  proof -
    have "unat (drop_bit (8 * i) (word_of_nat n :: 64 word)) = n div 2 ^ (8 * i)"
      unfolding unsigned_drop_bit_eq using True by (simp add: unat_of_nat drop_bit_eq_div take_bit_nat_eq_self)
    moreover have "n < 2 ^ (8 * i)" using True that(1) power_increasing [of 8 "8 * i" "2 :: nat"] by simp
    ultimately show ?thesis by (simp add: byte_at_def unsigned_take_bit_eq zero_byte_def)
  qed
  have low: "byte_at (word_of_nat n) 0 = char_of n"
    unfolding byte_at_def unsigned_take_bit_eq using True by (simp add: unat_of_nat take_bit_nat_eq_self)
  have "rev [0..<8] = [7, 6, 5, 4, 3, 2, 1, 0 :: nat]" by (simp add: upt_rec)
  with True high low show ?thesis by (simp add: be_len_def be_bytes_def numeral_eq_Suc)
qed (simp add: be_len_def)

text \<open>The order of characters, evaluated bit by bit from the highest.\<close>

lemma less_bits [code]:
  "Char a0 a1 a2 a3 a4 a5 a6 a7 < Char b0 b1 b2 b3 b4 b5 b6 b7 \<longleftrightarrow>
     (if a7 \<noteq> b7 then b7 else if a6 \<noteq> b6 then b6 else if a5 \<noteq> b5 then b5 else if a4 \<noteq> b4 then b4
      else if a3 \<noteq> b3 then b3 else if a2 \<noteq> b2 then b2 else if a1 \<noteq> b1 then b1 else \<not> a0 \<and> b0)"
proof -
  define v :: "bool \<Rightarrow> bool \<Rightarrow> bool \<Rightarrow> bool \<Rightarrow> bool \<Rightarrow> bool \<Rightarrow> bool \<Rightarrow> bool \<Rightarrow> nat" where
    "v x0 x1 x2 x3 x4 x5 x6 x7 = of_bool x0 + 2 * (of_bool x1 + 2 * (of_bool x2 + 2 * (of_bool x3
      + 2 * (of_bool x4 + 2 * (of_bool x5 + 2 * (of_bool x6 + 2 * of_bool x7))))))" for x0 x1 x2 x3 x4 x5 x6 x7
  have bit: "of_bool x + 2 * m < of_bool y + 2 * n \<longleftrightarrow> m < n \<or> m = n \<and> \<not> x \<and> y" for x y and m n :: nat
    by (cases x; cases y) auto
  have eq: "of_bool x + 2 * m = of_bool y + 2 * n \<longleftrightarrow> x = y \<and> m = n" for x y and m n :: nat
    by (cases x; cases y) (auto; presburger)+
  have "Char a0 a1 a2 a3 a4 a5 a6 a7 < Char b0 b1 b2 b3 b4 b5 b6 b7 \<longleftrightarrow> v a0 a1 a2 a3 a4 a5 a6 a7 < v b0 b1 b2 b3 b4 b5 b6 b7"
    by (simp add: less_char_def v_def of_char_Char)
  also have "\<dots> \<longleftrightarrow> (if a7 \<noteq> b7 then b7 else if a6 \<noteq> b6 then b6 else if a5 \<noteq> b5 then b5 else if a4 \<noteq> b4 then b4
      else if a3 \<noteq> b3 then b3 else if a2 \<noteq> b2 then b2 else if a1 \<noteq> b1 then b1 else \<not> a0 \<and> b0)"
    unfolding v_def bit eq by auto
  finally show ?thesis .
qed

end
