(* ===== verification/Trust_Samples.thy ===== *)
theory Trust_Samples
  imports Trust_Laws Configuration_Laws Application_Samples Short_Lengths
begin

text \<open>
  A grant, a denial and authorizations of a small project, run on the machine in
  memory with the Trust file beside it.
\<close>

declare digest_canonical_value_def [code]

definition machine_trust :: "machine trust_calls" where
  "machine_trust =
     \<lparr>tc_create_all = (\<lambda>p m. (m, Inr ())), tc_open_lock = (\<lambda>p m. (m, Inr ())), tc_try_lock = (\<lambda>p m. (m, Locked)),
      tc_unlock = (\<lambda>p m. (m, ())), tc_read_fails = (\<lambda>p m. (m, False)), tc_stage = (\<lambda>p m. (m, Inr ())),
      tc_commit = (\<lambda>p st m. (m, Inr ())), tc_signal_owners = (\<lambda>uri servers m. (m, ([], [])))\<rparr>"

definition untouched :: "machine trust_store" where
  "untouched =
     \<lparr>tu_file = NoTrustFile,
      tu_world = \<lparr>mc_memory = ([], None), mc_previews = [], mc_receipts = [], mc_journals = [], mc_clock = 0\<rparr>\<rparr>"

fun short_hash :: "string \<Rightarrow> string" where "short_hash bytes = ''00''"

definition small_project :: project_config_file where
  "small_project = \<lparr>pf_version = 1, pf_default_server = None, pf_routes = None,
     pf_servers = [(''r'', \<lparr>sc_executable = Some ''a'', sc_args = None, sc_cwd = None, sc_environment = None,
       sc_initialization_options = None, sc_settings = None\<rparr>)]\<rparr>"

fun small_project_file :: "path \<Rightarrow> project_config_file toml_file" where "small_project_file p = Decoded small_project"

definition trust_launch :: launch_system where
  "trust_launch = sample_launch\<lparr>ls_sha := short_hash, ls_read_project := small_project_file\<rparr>"

definition loaded_sample :: "loaded_configuration option" where
  "loaded_sample = (case load_configuration trust_launch (path_of_string ''/w'') False of Some (Inr lc) \<Rightarrow> Some lc | _ \<Rightarrow> None)"

definition grant_invocation :: parsed_invocation where
  "grant_invocation = \<lparr>iv_command = [''trust'', ''grant''],
     iv_options = [(''--digest'', [''sha256:00'']), (''--server'', [''r'']), (''--workspace'', [''/w''])]\<rparr>"

definition deny_invocation :: parsed_invocation where
  "deny_invocation = \<lparr>iv_command = [''trust'', ''deny''], iv_options = [(''--server'', [''r'']), (''--workspace'', [''/w''])]\<rparr>"

definition sample_dispatch :: "parsed_invocation \<Rightarrow> (machine trust_store \<times> (contract_failure + json)) option" where
  "sample_dispatch iv = dispatch_trust_command machine_trust machine_files machine_calls trust_launch iv untouched"

text \<open>
  Whether the server of the project is authorized after a command. Its Session Identity is not evaluated.
\<close>

definition launchable :: "loaded_configuration \<Rightarrow> effective_server \<Rightarrow> bool" where
  "launchable lc server \<longleftrightarrow> es_project_fields server \<noteq> [] \<and> es_name server = ''r'' \<and> lc_workspace_uri lc = ''file:///w/''
     \<and> resolve_server_executable trust_launch server = Some (Inr [RootDir, Normal ''bin'', Normal ''a''])
     \<and> resolve_server_cwd trust_launch server = Some (Inr [RootDir, Normal ''w''])"

fun authorizes :: "(machine trust_store \<times> (contract_failure + json)) option \<Rightarrow> loaded_configuration option \<Rightarrow> bool option" where
  "authorizes (Some (s, Inr v)) (Some lc) =
     (case bt_get (lc_servers lc) ''r'' of
        Some server \<Rightarrow>
          if launchable lc server
          then map_option (\<lambda>(s', r). \<not> isl r) (authorized_declaration machine_trust trust_launch lc server s) else None
      | None \<Rightarrow> None)"
| "authorizes _ _ = None"

lemma sample_grant: "authorizes (sample_dispatch grant_invocation) loaded_sample = Some True"
  by code_simp

lemma sample_denial: "authorizes (sample_dispatch deny_invocation) loaded_sample = Some False"
  by code_simp

text \<open>What the two runs say of an authorization.\<close>

lemma authorizes_run:
  assumes "authorizes (sample_dispatch iv) loaded_sample = Some ok"
  shows "\<exists>s v lc server s' r. sample_dispatch iv = Some (s, Inr v)
    \<and> command_configuration trust_launch deny_invocation = Some (Inr lc) \<and> bt_get (lc_servers lc) ''r'' = Some server
    \<and> es_project_fields server \<noteq> [] \<and> es_name server = ''r'' \<and> lc_workspace_uri lc = ''file:///w/''
    \<and> authorize_server machine_trust trust_launch lc server s = Some (s', r) \<and> (ok \<longleftrightarrow> \<not> isl r)"
proof -
  obtain s v lc where start: "sample_dispatch iv = Some (s, Inr v)" "loaded_sample = Some lc"
    using assms by (cases "(sample_dispatch iv, loaded_sample)" rule: authorizes.cases) auto
  from assms obtain server s' r where "bt_get (lc_servers lc) ''r'' = Some server" "launchable lc server"
      "authorized_declaration machine_trust trust_launch lc server s = Some (s', r)" "ok \<longleftrightarrow> \<not> isl r"
    unfolding start authorizes.simps(1) by (auto split: option.splits if_splits)
  note run = start this
  have "command_configuration trust_launch deny_invocation = Some (Inr lc)"
    using run(2) by (auto simp: loaded_sample_def command_configuration_def deny_invocation_def option_value_def split: option.splits sum.splits)
  moreover have "\<exists>s' r'. authorize_server machine_trust trust_launch lc server s = Some (s', r') \<and> (isl r' \<longleftrightarrow> isl r)"
    using run(4,5) by (cases r) (simp_all add: launchable_def authorize_server_def or_panicking_def step_lift_def step_bind_def Let_def step_ok_def)
  ultimately show ?thesis using run(1,3,4,6) unfolding launchable_def by metis
qed

theorem trust_commands_refine_policy_witness:
  "\<exists>s' v. sample_dispatch grant_invocation = Some (s', Inr v)
     \<and> policy_step trust_launch grant_invocation (policy_of NoTrustFile) (policy_of (tu_file s'))"
proof -
  obtain s' v where run: "sample_dispatch grant_invocation = Some (s', Inr v)" using authorizes_run [OF sample_grant] by blast
  have "changes_trust grant_invocation" by code_simp
  with trust_commands_refine_policy [OF run [unfolded sample_dispatch_def]] run show ?thesis by (simp add: untouched_def)
qed



end
