(* ===== verification/Skill_Files.thy ===== *)
theory Skill_Files
  imports Actions Ascii_Text Utf8 BTree_Map
begin

text \<open>
  What \<open>skill_install.rs\<close> uses of \<open>std::path\<close> and \<open>std::fs\<close>: paths as the text an \<open>OsStr\<close> holds, because
  the installer compares them as such, a tree of files and directories, and the calls that read and
  change it. Every call may fail; a removal or a write that fails may have been done in part.
\<close>

section \<open>Paths as text\<close>

text \<open>\<open>Path::join\<close>, and the components of a path: empty segments and \<open>.\<close> are no components.\<close>

definition raw_join :: "string \<Rightarrow> string \<Rightarrow> string" where
  "raw_join p q =
     (if prefix ''/'' q then q
      else if p = [] \<or> last p = CHR ''/'' then p @ q
      else p @ ''/'' @ q)"

definition trivial_segment :: "string \<Rightarrow> bool" where
  "trivial_segment s \<longleftrightarrow> s = [] \<or> s = ''.''"

definition names_of :: "string \<Rightarrow> string list" where
  "names_of p = filter (\<lambda>s. \<not> trivial_segment s) (split_on CHR ''/'' p)"

text \<open>The segments of a path without the trailing ones that are no components; the first one stays.\<close>

fun without_trailing :: "string list \<Rightarrow> string list" where
  "without_trailing [] = []"
| "without_trailing (s # ss) = s # rev (dropWhile trivial_segment (rev ss))"

fun text_of_segments :: "string list \<Rightarrow> string" where
  "text_of_segments [] = []"
| "text_of_segments [s] = (if s = [] then ''/'' else s)"
| "text_of_segments (s # t # ss) = s @ concat (map ((#) CHR ''/'') (t # ss))"

text \<open>\<open>Path::parent\<close> and \<open>Path::file_name\<close>.\<close>

definition raw_parent :: "string \<Rightarrow> string option" where
  "raw_parent p = (case without_trailing (split_on CHR ''/'' p) of
      [] \<Rightarrow> None
    | [s] \<Rightarrow> if s = [] then None else Some []
    | s # ss \<Rightarrow> Some (text_of_segments (without_trailing (s # butlast ss))))"

definition raw_file_name :: "string \<Rightarrow> string option" where
  "raw_file_name p = (case without_trailing (split_on CHR ''/'' p) of
      [] \<Rightarrow> None
    | ss \<Rightarrow> if trivial_segment (last ss) \<or> last ss = ''..'' then None else Some (last ss))"

text \<open>\<open>Path::is_absolute\<close>, and whether a component is \<open>..\<close> or a leading \<open>.\<close>.\<close>

definition raw_absolute :: "string \<Rightarrow> bool" where
  "raw_absolute p \<longleftrightarrow> prefix ''/'' p"

definition raw_dotted :: "string \<Rightarrow> bool" where
  "raw_dotted p \<longleftrightarrow> ''..'' \<in> set (split_on CHR ''/'' p) \<or> hd (split_on CHR ''/'' p) = ''.''"

section \<open>The tree of files\<close>

datatype file_node = FileN string | DirN "(string \<times> file_node) list" | LinkN | OtherN

fun is_dir :: "file_node \<Rightarrow> bool" where
  "is_dir (DirN _) = True"
| "is_dir _ = False"

fun is_file :: "file_node \<Rightarrow> bool" where
  "is_file (FileN _) = True"
| "is_file _ = False"

fun find_node :: "file_node \<Rightarrow> string list \<Rightarrow> file_node option" where
  "find_node n [] = Some n"
| "find_node (DirN es) (x # p) = (case bt_get es x of None \<Rightarrow> None | Some n \<Rightarrow> find_node n p)"
| "find_node _ (x # p) = None"

text \<open>The tree with another node, or none, at a path whose directory exists.\<close>

fun put_node :: "string list \<Rightarrow> file_node option \<Rightarrow> file_node \<Rightarrow> file_node" where
  "put_node [] x n = (case x of None \<Rightarrow> n | Some m \<Rightarrow> m)"
| "put_node (a # p) x (DirN es) = DirN
     (if p = [] then (case x of None \<Rightarrow> bt_remove a es | Some m \<Rightarrow> bt_insert a m es)
      else case bt_get es a of None \<Rightarrow> es | Some n \<Rightarrow> bt_insert a (put_node p x n) es)"
| "put_node (a # p) x n = n"

definition is_dir_at :: "file_node \<Rightarrow> string list \<Rightarrow> bool" where
  "is_dir_at n p = (case find_node n p of None \<Rightarrow> False | Some m \<Rightarrow> is_dir m)"

section \<open>Calls\<close>

datatype io_error = IoNotFound | IoAlreadyExists | IoOther

text \<open>What a failing call leaves behind: which entries a removal has kept, how much of a file is written.\<close>

record fault =
  fl_keep :: "string list \<Rightarrow> bool"
  fl_bytes :: nat

text \<open>
  The operating system: the fault of the n-th call, if it has one, the hex text of 16 random bytes
  (\<open>getrandom\<close>, \<open>hex\<close>), whether another process holds the lock, and \<open>dunce::canonicalize\<close>.
\<close>

record skill_system =
  ss_fault :: "nat \<Rightarrow> fault option"
  ss_random :: "nat \<Rightarrow> string option"
  ss_locked :: bool
  ss_canonical :: "file_node \<Rightarrow> string \<Rightarrow> string option"

record skill_world =
  sw_root :: file_node
  sw_tick :: nat

type_synonym 'a io = "(skill_world, io_error, 'a) step"

definition system_call ::
  "skill_system \<Rightarrow> (fault \<Rightarrow> file_node \<Rightarrow> file_node) \<Rightarrow> (file_node \<Rightarrow> io_error + (file_node \<times> 'a)) \<Rightarrow> 'a io" where
  "system_call ss torn f = (\<lambda>w.
     let w' = w\<lparr>sw_tick := Suc (sw_tick w)\<rparr> in
     case ss_fault ss (sw_tick w) of
       Some e \<Rightarrow> Some (w'\<lparr>sw_root := torn e (sw_root w)\<rparr>, Inl IoOther)
     | None \<Rightarrow> (case f (sw_root w) of
           Inl e \<Rightarrow> Some (w', Inl e)
         | Inr (root, a) \<Rightarrow> Some (w'\<lparr>sw_root := root\<rparr>, Inr a)))"

definition look_call :: "skill_system \<Rightarrow> (file_node \<Rightarrow> io_error + 'a) \<Rightarrow> 'a io" where
  "look_call ss f = system_call ss (\<lambda>_ n. n) (\<lambda>n. case f n of Inl e \<Rightarrow> Inl e | Inr a \<Rightarrow> Inr (n, a))"

definition change_call :: "skill_system \<Rightarrow> (fault \<Rightarrow> file_node \<Rightarrow> file_node) \<Rightarrow> (file_node \<Rightarrow> io_error + file_node) \<Rightarrow> unit io" where
  "change_call ss torn f = system_call ss torn (\<lambda>n. case f n of Inl e \<Rightarrow> Inl e | Inr n' \<Rightarrow> Inr (n', ()))"

text \<open>\<open>ENOENT\<close>, unless a component on the way is not a directory.\<close>

fun blocked :: "file_node \<Rightarrow> string list \<Rightarrow> bool" where
  "blocked n [] = False"
| "blocked (DirN es) (x # p) = (case bt_get es x of None \<Rightarrow> False | Some n \<Rightarrow> blocked n p)"
| "blocked _ (x # p) = True"

definition missing :: "file_node \<Rightarrow> string list \<Rightarrow> io_error" where
  "missing n p = (if blocked n p then IoOther else IoNotFound)"

definition looked_up :: "file_node \<Rightarrow> string list \<Rightarrow> io_error + file_node" where
  "looked_up n p = (case find_node n p of None \<Rightarrow> Inl (missing n p) | Some m \<Rightarrow> Inr m)"

definition symlink_metadata :: "skill_system \<Rightarrow> string \<Rightarrow> file_node io" where
  "symlink_metadata ss p = look_call ss (\<lambda>n. looked_up n (names_of p))"

fun dir_entries :: "file_node \<Rightarrow> io_error + (string \<times> file_node) list" where
  "dir_entries (DirN es) = Inr es"
| "dir_entries _ = Inl IoOther"

definition read_dir :: "skill_system \<Rightarrow> string \<Rightarrow> (string \<times> file_node) list io" where
  "read_dir ss p = look_call ss (\<lambda>n. case looked_up n (names_of p) of Inl e \<Rightarrow> Inl e | Inr m \<Rightarrow> dir_entries m)"

fun file_bytes :: "file_node \<Rightarrow> io_error + string" where
  "file_bytes (FileN bytes) = Inr bytes"
| "file_bytes _ = Inl IoOther"

definition read_bytes :: "skill_system \<Rightarrow> string \<Rightarrow> string io" where
  "read_bytes ss p = look_call ss (\<lambda>n. case looked_up n (names_of p) of Inl e \<Rightarrow> Inl e | Inr m \<Rightarrow> file_bytes m)"

text \<open>\<open>File::open\<close> and \<open>sync_all\<close> of a directory, and the permission calls of \<open>state_permissions.rs\<close>.\<close>

definition sync_directory :: "skill_system \<Rightarrow> string \<Rightarrow> unit io" where
  "sync_directory ss p = look_call ss (\<lambda>n. case looked_up n (names_of p) of Inl e \<Rightarrow> Inl e | Inr _ \<Rightarrow> Inr ())"

definition restrict_path :: "skill_system \<Rightarrow> string \<Rightarrow> unit io" where
  "restrict_path ss p = look_call ss (\<lambda>n. case looked_up n (names_of p) of Inl e \<Rightarrow> Inl e | Inr _ \<Rightarrow> Inr ())"

definition created_dir :: "string list \<Rightarrow> file_node \<Rightarrow> io_error + file_node" where
  "created_dir p n =
     (if find_node n p \<noteq> None then Inl IoAlreadyExists
      else if is_dir_at n (butlast p) then Inr (put_node p (Some (DirN [])) n)
      else Inl (missing n p))"

definition create_dir :: "skill_system \<Rightarrow> string \<Rightarrow> unit io" where
  "create_dir ss p = change_call ss (\<lambda>_ n. n) (created_dir (names_of p))"

text \<open>
  \<open>File::create\<close>; the installer creates files only in a directory it has just made, so that no link
  is followed. A file that exists is truncated unless the call only opens it (the lock file).
\<close>

definition opened :: "bool \<Rightarrow> string list \<Rightarrow> file_node \<Rightarrow> io_error + file_node" where
  "opened emptying p n = (case find_node n p of
      Some (FileN bytes) \<Rightarrow> Inr (if emptying then put_node p (Some (FileN [])) n else n)
    | Some _ \<Rightarrow> Inl IoOther
    | None \<Rightarrow> if is_dir_at n (butlast p) then Inr (put_node p (Some (FileN [])) n) else Inl (missing n p))"

definition open_file :: "skill_system \<Rightarrow> bool \<Rightarrow> string \<Rightarrow> unit io" where
  "open_file ss emptying p = change_call ss (\<lambda>_ n. n) (opened emptying (names_of p))"

definition write_all :: "skill_system \<Rightarrow> string \<Rightarrow> string \<Rightarrow> unit io" where
  "write_all ss p bytes = change_call ss
     (\<lambda>e n. put_node (names_of p) (Some (FileN (take (fl_bytes e) bytes))) n)
     (\<lambda>n. Inr (put_node (names_of p) (Some (FileN bytes)) n))"

text \<open>\<open>rename(2)\<close>: atomic; only an empty directory gives way to a directory, and only a non-directory to another one.\<close>

definition renamed :: "string list \<Rightarrow> string list \<Rightarrow> file_node \<Rightarrow> io_error + file_node" where
  "renamed p q n = (case find_node n p of
      None \<Rightarrow> Inl (missing n p)
    | Some m \<Rightarrow>
        if p = q then Inr n
        else if prefix p q \<or> \<not> is_dir_at n (butlast q) then Inl IoOther
        else if (case find_node n q of None \<Rightarrow> True | Some old \<Rightarrow> if is_dir m then old = DirN [] else \<not> is_dir old)
        then Inr (put_node q (Some m) (put_node p None n))
        else Inl IoOther)"

definition rename_path :: "skill_system \<Rightarrow> string \<Rightarrow> string \<Rightarrow> unit io" where
  "rename_path ss p q = change_call ss (\<lambda>_ n. n) (renamed (names_of p) (names_of q))"

text \<open>\<open>remove_dir_all\<close>, which unlinks a link, and \<open>remove_file\<close>.\<close>

fun pruned :: "(string list \<Rightarrow> bool) \<Rightarrow> string list \<Rightarrow> file_node \<Rightarrow> file_node" where
  "pruned keep rel (DirN es) =
     DirN (map (\<lambda>(x, n). (x, pruned keep (rel @ [x]) n)) (filter (\<lambda>(x, n). keep (rel @ [x])) es))"
| "pruned keep rel n = n"

definition removed_tree :: "string list \<Rightarrow> file_node \<Rightarrow> io_error + file_node" where
  "removed_tree p n = (case find_node n p of
      None \<Rightarrow> Inl (missing n p)
    | Some m \<Rightarrow> if is_dir m \<or> m = LinkN then Inr (put_node p None n) else Inl IoOther)"

definition partly_removed :: "string list \<Rightarrow> fault \<Rightarrow> file_node \<Rightarrow> file_node" where
  "partly_removed p e n = (case find_node n p of
      None \<Rightarrow> n
    | Some m \<Rightarrow> put_node p (Some (pruned (fl_keep e) [] m)) n)"

definition remove_dir_all :: "skill_system \<Rightarrow> string \<Rightarrow> unit io" where
  "remove_dir_all ss p = change_call ss (partly_removed (names_of p)) (removed_tree (names_of p))"

definition removed_file :: "string list \<Rightarrow> file_node \<Rightarrow> io_error + file_node" where
  "removed_file p n = (case find_node n p of
      None \<Rightarrow> Inl (missing n p)
    | Some m \<Rightarrow> if is_dir m then Inl IoOther else Inr (put_node p None n))"

definition remove_file :: "skill_system \<Rightarrow> string \<Rightarrow> unit io" where
  "remove_file ss p = change_call ss (\<lambda>_ n. n) (removed_file (names_of p))"

text \<open>\<open>atomic-write-file\<close>: the file holds the new bytes, or it is as it was.\<close>

definition write_atomically :: "skill_system \<Rightarrow> string \<Rightarrow> string \<Rightarrow> unit io" where
  "write_atomically ss p bytes = change_call ss (\<lambda>_ n. n)
     (\<lambda>n. if is_dir_at n (butlast (names_of p)) \<and> \<not> is_dir_at n (names_of p)
          then Inr (put_node (names_of p) (Some (FileN bytes)) n) else Inl IoOther)"

definition canonicalize :: "skill_system \<Rightarrow> string \<Rightarrow> string io" where
  "canonicalize ss p = look_call ss (\<lambda>n. case ss_canonical ss n p of None \<Rightarrow> Inl IoOther | Some c \<Rightarrow> Inr c)"

definition random_id :: "skill_system \<Rightarrow> string io" where
  "random_id ss = (\<lambda>w. look_call ss (\<lambda>_. case ss_random ss (sw_tick w) of None \<Rightarrow> Inl IoOther | Some s \<Rightarrow> Inr s) w)"

definition try_lock :: "skill_system \<Rightarrow> unit io" where
  "try_lock ss = look_call ss (\<lambda>_. if ss_locked ss then Inl IoOther else Inr ())"

end
