(* ===== verification/Skill_Bundle.thy ===== *)
theory Skill_Bundle
  imports Skill_Files Json_Value Configuration Server_Selection
begin

text \<open>
  \<open>skill_install.rs\<close>, the packaged skill: its files and marker, their digest, what an inspection of an
  installed copy finds, the check of a copy of this binary's own, and which installation may replace
  which. \<open>sha2\<close>, \<open>hex\<close>, \<open>semver\<close>, the JSON of the marker and of the journal and the packaged files are
  the \<open>skill_crates\<close>.
\<close>

section \<open>Data\<close>

record managed_marker =
  mm_format_version :: nat
  mm_manager :: string
  mm_skill_version :: string
  mm_digest :: string

record install_journal =
  ij_format_version :: nat
  ij_destination :: string
  ij_stage :: string
  ij_backup :: string
  ij_digest :: string
  ij_outcome :: string
  ij_previous_skill_version :: "string option"
  ij_previous_digest :: "string option"

record existing_installation =
  ei_exists :: bool
  ei_marker :: "managed_marker option"
  ei_actual_digest :: "string option"

record 'v skill_crates =
  sc_hash :: "string \<Rightarrow> string"
  sc_parse_version :: "string \<Rightarrow> 'v option"
  sc_marker_text :: "managed_marker \<Rightarrow> string"
  sc_read_marker :: "string \<Rightarrow> managed_marker option"
  sc_journal_text :: "install_journal \<Rightarrow> string"
  sc_read_journal :: "string \<Rightarrow> install_journal option"
  sc_packaged :: "string \<Rightarrow> string"

definition marker_name :: string where
  "marker_name = ''.lspctl-managed.json''"

definition journal_prefix :: string where
  "journal_prefix = ''.lspctl-journal-''"

definition stage_prefix :: string where
  "stage_prefix = ''.lspctl-stage-''"

definition backup_prefix :: string where
  "backup_prefix = ''.lspctl-backup-''"

definition lock_name :: string where
  "lock_name = ''.lspctl-install.lock''"

text \<open>\<open>SKILL_FILES\<close> with the bytes compiled in, and \<open>CARGO_PKG_VERSION\<close>.\<close>

definition skill_files :: "'v skill_crates \<Rightarrow> (string \<times> string) list" where
  "skill_files cr = map (\<lambda>n. (n, sc_packaged cr n)) [''CONFIGURATION.md'', ''MUTATIONS.md'', ''QUERYING.md'', ''SKILL.md'']"

definition package_version :: string where
  "package_version = ''0.1.2''"

definition installed_files :: "string list" where
  "installed_files = sort (marker_name # [''CONFIGURATION.md'', ''MUTATIONS.md'', ''QUERYING.md'', ''SKILL.md''])"

section \<open>Failures\<close>

definition skill_conflict :: contract_failure where
  "skill_conflict = failure 3 ''blocked'' ''skill_install_conflict'' ''install_skill'' ''not_applicable'' ''after_change''"

definition skill_install_failure :: contract_failure where
  "skill_install_failure = failure 4 ''unavailable'' ''skill_install_failed'' ''install_skill'' ''not_applicable'' ''after_change''"

type_synonym 'a skill_act = "(skill_world, contract_failure, 'a) step"

text \<open>\<open>install_failure\<close> and \<open>conflict\<close> at a path: \<open>json!\<close> of a path that is not UTF-8 panics.\<close>

definition fails_at :: "string \<Rightarrow> contract_failure \<Rightarrow> 'a skill_act" where
  "fails_at p f = (if utf8_valid p then step_err f else step_panic)"

definition or_else_failing :: "string \<Rightarrow> contract_failure \<Rightarrow> 'a io \<Rightarrow> 'a skill_act" where
  "or_else_failing p f m = (\<lambda>w. case m w of
      None \<Rightarrow> None
    | Some (w', Inl e) \<Rightarrow> fails_at p f w'
    | Some (w', Inr a) \<Rightarrow> Some (w', Inr a))"

definition failing :: "string \<Rightarrow> 'a io \<Rightarrow> 'a skill_act" where
  "failing p = or_else_failing p skill_install_failure"

text \<open>\<open>is_ok()\<close>, and a result nobody looks at.\<close>

definition succeeds :: "'a io \<Rightarrow> bool io" where
  "succeeds m = (\<lambda>w. case m w of None \<Rightarrow> None | Some (w', r) \<Rightarrow> Some (w', Inr (\<not> isl r)))"

section \<open>The installed files\<close>

definition unsafe_metadata :: "file_node \<Rightarrow> bool" where
  "unsafe_metadata m \<longleftrightarrow> m = LinkN"

definition reject_unsafe_path :: "skill_system \<Rightarrow> string \<Rightarrow> unit io" where
  "reject_unsafe_path ss p = (\<lambda>w. case symlink_metadata ss p w of
      None \<Rightarrow> None
    | Some (w', Inr m) \<Rightarrow> Some (w', if unsafe_metadata m then Inl IoOther else Inr ())
    | Some (w', Inl IoNotFound) \<Rightarrow> Some (w', Inr ())
    | Some (w', Inl e) \<Rightarrow> Some (w', Inl e))"

text \<open>
  \<open>read_tree\<close>: the files below a directory by their relative path. The entries are those of the node
  the directory is; each entry, its metadata, a directory and a file is read by a call of its own.
\<close>

definition slashed :: "string list \<Rightarrow> string" where
  "slashed names = (case names of [] \<Rightarrow> [] | n # ns \<Rightarrow> n @ concat (map ((#) CHR ''/'') ns))"

fun visit_entries ::
  "skill_system \<Rightarrow> string list \<Rightarrow> (string \<times> file_node) list \<Rightarrow> (string, string) btree \<Rightarrow> (string, string) btree io" where
  "visit_entries ss rel [] files = step_ok files"
| "visit_entries ss rel ((name, m) # es) files =
     step_bind (look_call ss (\<lambda>_. Inr ())) (\<lambda>_.
     step_bind (look_call ss (\<lambda>_. Inr ())) (\<lambda>_.
     step_bind (case m of
         LinkN \<Rightarrow> step_err IoOther
       | DirN sub \<Rightarrow> step_bind (look_call ss (\<lambda>_. Inr ())) (\<lambda>_. visit_entries ss (rel @ [name]) sub files)
       | FileN bytes \<Rightarrow>
           if list_all utf8_valid (rel @ [name])
           then step_bind (look_call ss (\<lambda>_. Inr ())) (\<lambda>_. step_ok (bt_insert (slashed (rel @ [name])) bytes files))
           else step_err IoOther
       | OtherN \<Rightarrow> step_err IoOther) (\<lambda>files. visit_entries ss rel es files)))"

definition read_tree :: "skill_system \<Rightarrow> string \<Rightarrow> (string, string) btree io" where
  "read_tree ss root = step_bind (read_dir ss root) (\<lambda>es. visit_entries ss [] es [])"

text \<open>\<open>bundle_digest\<close>: the bytes fed to the hasher; the files are ordered by path.\<close>

definition bundle_bytes :: "(string, string) btree \<Rightarrow> string" where
  "bundle_bytes files = ''lspctl-skill-v1'' @ [CHR 0x00] @ be_len (length files)
     @ concat (map (\<lambda>(path, bytes). encode_bytes path @ encode_bytes bytes) files)"

definition bundle_digest :: "'v skill_crates \<Rightarrow> (string \<times> string) list \<Rightarrow> string" where
  "bundle_digest cr files = ''sha256:'' @ sc_hash cr (bundle_bytes (bt_of_list files))"

definition embedded_digest :: "'v skill_crates \<Rightarrow> string" where
  "embedded_digest cr = bundle_digest cr (skill_files cr)"

definition inspect_installation :: "'v skill_crates \<Rightarrow> skill_system \<Rightarrow> string \<Rightarrow> existing_installation io" where
  "inspect_installation cr ss path = (\<lambda>w. case symlink_metadata ss path w of
      None \<Rightarrow> None
    | Some (w', Inl IoNotFound) \<Rightarrow>
        Some (w', Inr \<lparr>ei_exists = False, ei_marker = None, ei_actual_digest = None\<rparr>)
    | Some (w', Inl e) \<Rightarrow> Some (w', Inl e)
    | Some (w', Inr m) \<Rightarrow>
        if unsafe_metadata m \<or> \<not> is_dir m then Some (w', Inl IoOther)
        else step_bind (read_tree ss path) (\<lambda>files. step_ok
          \<lparr>ei_exists = True,
           ei_marker = Option.bind (bt_get files marker_name) (sc_read_marker cr),
           ei_actual_digest = Some (bundle_digest cr (filter (\<lambda>e. fst e \<noteq> marker_name) files))\<rparr>) w')"

text \<open>\<open>verify_embedded_installation\<close>: a flat directory with the marker and the files of this binary.\<close>

fun all_files :: "skill_system \<Rightarrow> (string \<times> file_node) list \<Rightarrow> unit io" where
  "all_files ss [] = step_ok ()"
| "all_files ss ((name, m) # es) =
     step_bind (look_call ss (\<lambda>_. Inr ())) (\<lambda>_.
     step_then (require (is_file m) IoOther) (all_files ss es))"

definition marker_is :: "managed_marker \<Rightarrow> string \<Rightarrow> bool" where
  "marker_is mk digest \<longleftrightarrow> mm_format_version mk = 1 \<and> mm_manager mk = ''lspctl''
     \<and> mm_skill_version mk = package_version \<and> mm_digest mk = digest"

definition verify_embedded_installation :: "'v skill_crates \<Rightarrow> skill_system \<Rightarrow> string \<Rightarrow> string \<Rightarrow> unit io" where
  "verify_embedded_installation cr ss path expected =
     step_bind (inspect_installation cr ss path) (\<lambda>installation.
     step_bind (read_dir ss path) (\<lambda>es.
     step_then (all_files ss es)
     (case ei_marker installation of
        None \<Rightarrow> step_err IoOther
      | Some mk \<Rightarrow> require (marker_is mk expected \<and> ei_actual_digest installation = Some expected) IoOther)))"

text \<open>\<open>write_synced\<close>, the last call of which is \<open>sync_all\<close> of the file, and \<open>write_embedded_skill\<close>.\<close>

definition write_synced :: "skill_system \<Rightarrow> string \<Rightarrow> string \<Rightarrow> unit io" where
  "write_synced ss path bytes =
     step_then (open_file ss True path)
     (step_then (restrict_path ss path)
     (step_then (write_all ss path bytes) (sync_directory ss path)))"

definition embedded_marker :: "string \<Rightarrow> managed_marker" where
  "embedded_marker digest =
     \<lparr>mm_format_version = 1, mm_manager = ''lspctl'', mm_skill_version = package_version, mm_digest = digest\<rparr>"

definition write_embedded_skill :: "'v skill_crates \<Rightarrow> skill_system \<Rightarrow> string \<Rightarrow> string \<Rightarrow> unit io" where
  "write_embedded_skill cr ss dir digest =
     step_then (each (\<lambda>(relative, bytes). write_synced ss (raw_join dir relative) bytes) (skill_files cr))
     (step_then (write_synced ss (raw_join dir marker_name) (sc_marker_text cr (embedded_marker digest)))
       (sync_directory ss dir))"

section \<open>What replaces an installation\<close>

definition managed_by_us :: "managed_marker \<Rightarrow> bool" where
  "managed_by_us mk \<longleftrightarrow> mm_format_version mk = 1 \<and> mm_manager mk = ''lspctl''"

definition valid_managed :: "existing_installation \<Rightarrow> bool" where
  "valid_managed e \<longleftrightarrow> (case ei_marker e of
      None \<Rightarrow> False
    | Some mk \<Rightarrow> managed_by_us mk \<and> ei_actual_digest e = Some (mm_digest mk))"

definition older_managed :: "('v::linorder) skill_crates \<Rightarrow> 'v \<Rightarrow> existing_installation \<Rightarrow> bool" where
  "older_managed cr current e \<longleftrightarrow> valid_managed e \<and> (case ei_marker e of
      None \<Rightarrow> False
    | Some mk \<Rightarrow> (case sc_parse_version cr (mm_skill_version mk) of None \<Rightarrow> False | Some v \<Rightarrow> v < current))"

datatype refusal = ManagedNotOlder | UnmanagedDestination

text \<open>\<open>replacement_outcome\<close> panics when the version of the package is no version.\<close>

definition replacement_outcome :: "('v::linorder) skill_crates \<Rightarrow> existing_installation \<Rightarrow> bool \<Rightarrow> (refusal + string) option" where
  "replacement_outcome cr e replace = (case sc_parse_version cr package_version of
      None \<Rightarrow> None
    | Some current \<Rightarrow> Some
        (if \<not> ei_exists e then Inr ''installed''
         else if older_managed cr current e then Inr ''upgraded''
         else if replace then Inr ''replaced''
         else if valid_managed e then Inl ManagedNotOlder
         else Inl UnmanagedDestination))"

text \<open>The outcome, or the conflict at a destination.\<close>

definition require_outcome :: "string \<Rightarrow> (refusal + string) option \<Rightarrow> string skill_act" where
  "require_outcome destination out = (case out of
      None \<Rightarrow> step_panic
    | Some (Inl _) \<Rightarrow> fails_at destination skill_conflict
    | Some (Inr s) \<Rightarrow> step_ok s)"

end
