(* ===== verification/Skill_Install.thy ===== *)
theory Skill_Install
  imports Skill_Bundle
begin

text \<open>
  \<open>skill_install.rs\<close>: installing the packaged skill below a base directory. The new files are staged
  in a sibling of the destination, a journal names the stage, the destination and the place the old
  installation is put aside, and finishing the journal moves the stage into place. An interrupted
  installation is finished by the next one, which asks for consent again.
\<close>

section \<open>The journal\<close>

definition lower_hex :: "char \<Rightarrow> bool" where
  "lower_hex c \<longleftrightarrow> ascii_digit c \<or> CHR ''a'' \<le> c \<and> c \<le> CHR ''f''"

definition valid_sha256_digest :: "string \<Rightarrow> bool" where
  "valid_sha256_digest s \<longleftrightarrow> (case strip_prefix s ''sha256:'' of
      None \<Rightarrow> False
    | Some hex \<Rightarrow> length hex = 64 \<and> list_all lower_hex hex)"

definition same_installation_path :: "string \<Rightarrow> string \<Rightarrow> bool" where
  "same_installation_path left right \<longleftrightarrow> left = right"

definition journal_id :: "string \<Rightarrow> string option" where
  "journal_id path =
     Option.bind (raw_file_name path) (\<lambda>name.
     if \<not> utf8_valid name then None
     else Option.bind (strip_prefix name journal_prefix) (\<lambda>name.
     Option.bind (strip_suffix name ''.json'') (\<lambda>i.
     if length i = 32 \<and> list_all lower_hex i then Some i else None)))"

definition validate_journal :: "'v skill_crates \<Rightarrow> string \<Rightarrow> string \<Rightarrow> install_journal \<Rightarrow> bool" where
  "validate_journal cr path destination j = (case (raw_parent destination, journal_id path) of
      (Some dir, Some i) \<Rightarrow>
        ij_format_version j = 1
        \<and> raw_absolute destination \<and> \<not> raw_dotted destination
        \<and> same_installation_path (ij_destination j) destination
        \<and> same_installation_path (ij_stage j) (raw_join dir (stage_prefix @ i))
        \<and> same_installation_path (ij_backup j) (raw_join dir (backup_prefix @ stage_prefix @ i))
        \<and> same_installation_path path (raw_join dir (journal_prefix @ i @ ''.json''))
        \<and> valid_sha256_digest (ij_digest j)
        \<and> ij_outcome j \<in> {''installed'', ''upgraded'', ''replaced''}
        \<and> (case ij_previous_digest j of None \<Rightarrow> True | Some d \<Rightarrow> valid_sha256_digest d)
        \<and> (case ij_previous_skill_version j of None \<Rightarrow> True | Some v \<Rightarrow> sc_parse_version cr v \<noteq> None)
    | _ \<Rightarrow> False)"

text \<open>\<open>trim_start_matches\<close> removes every repetition; the name of a stage is UTF-8.\<close>

function trim_start_matches :: "string \<Rightarrow> string \<Rightarrow> string" where
  "trim_start_matches pat s = (if pat \<noteq> [] \<and> prefix pat s then trim_start_matches pat (drop (length pat) s) else s)"
  by pat_completeness auto
termination
  by (relation "measure (\<lambda>(pat, s). length s)") (auto simp: prefix_def)

declare trim_start_matches.simps [simp del]

definition journal_path :: "string \<Rightarrow> install_journal \<Rightarrow> string option" where
  "journal_path dir j = map_option
     (\<lambda>name. raw_join dir (journal_prefix @ trim_start_matches stage_prefix name @ ''.json''))
     (raw_file_name (ij_stage j))"

definition write_journal :: "'v skill_crates \<Rightarrow> skill_system \<Rightarrow> string \<Rightarrow> install_journal \<Rightarrow> unit io" where
  "write_journal cr ss dir j = (case journal_path dir j of
      None \<Rightarrow> step_panic
    | Some path \<Rightarrow>
        step_then (require (validate_journal cr path (raw_join dir ''lspctl'') j) IoOther)
        (step_then (reject_unsafe_path ss path)
        (step_then (write_atomically ss path (sc_journal_text cr j)) (sync_directory ss dir))))"

text \<open>The entries of the directory that are journals; one whose entry cannot be read is passed over.\<close>

fun journal_names :: "skill_system \<Rightarrow> (string \<times> file_node) list \<Rightarrow> string list io" where
  "journal_names ss [] = step_ok []"
| "journal_names ss ((name, m) # es) =
     step_bind (succeeds (look_call ss (\<lambda>_. Inr ()))) (\<lambda>ok.
     step_bind (journal_names ss es) (\<lambda>names. step_ok
       (if ok \<and> utf8_valid name \<and> strip_prefix name journal_prefix \<noteq> None \<and> strip_suffix name ''.json'' \<noteq> None
        then name # names else names)))"

text \<open>An older journal may spell the destination as the base was given; only that alias is accepted.\<close>

definition rebased_journal ::
  "'v skill_crates \<Rightarrow> string \<Rightarrow> string \<Rightarrow> string \<Rightarrow> string \<Rightarrow> install_journal \<Rightarrow> install_journal or_panic" where
  "rebased_journal cr dir path destination selected j =
     (if same_installation_path selected destination \<or> \<not> same_installation_path (ij_destination j) selected
      then Some (Inr j)
      else case (raw_parent selected, raw_file_name path) of
        (Some selected_parent, Some name) \<Rightarrow>
          if \<not> validate_journal cr (raw_join selected_parent name) selected j then Some (Inl skill_install_failure)
          else (case (raw_file_name (ij_stage j), raw_file_name (ij_backup j)) of
              (Some stage_name, Some backup_name) \<Rightarrow> Some (Inr (j\<lparr>ij_destination := destination,
                 ij_stage := raw_join dir stage_name, ij_backup := raw_join dir backup_name\<rparr>))
            | _ \<Rightarrow> None)
      | _ \<Rightarrow> None)"

definition read_journal ::
  "'v skill_crates \<Rightarrow> skill_system \<Rightarrow> string \<Rightarrow> string \<Rightarrow> string \<Rightarrow> (string \<times> install_journal) option skill_act" where
  "read_journal cr ss dir destination selected =
     step_bind (failing destination (read_dir ss dir)) (\<lambda>es.
     step_bind (failing destination (journal_names ss es)) (\<lambda>names. (case names of
        [] \<Rightarrow> step_ok None
      | [name] \<Rightarrow>
          let path = raw_join dir name in
          step_then (failing destination (reject_unsafe_path ss path))
          (step_bind (failing destination (read_bytes ss path)) (\<lambda>bytes. (case sc_read_journal cr bytes of
              None \<Rightarrow> fails_at destination skill_install_failure
            | Some j \<Rightarrow> (case rebased_journal cr dir path destination selected j of
                None \<Rightarrow> step_panic
              | Some (Inl f) \<Rightarrow> fails_at destination f
              | Some (Inr j) \<Rightarrow>
                  if validate_journal cr path destination j then step_ok (Some (path, j))
                  else fails_at destination skill_install_failure))))
      | _ \<Rightarrow> fails_at destination skill_install_failure)))"

section \<open>Finishing a journal\<close>

text \<open>
  What is checked before anything is changed: the staged files, that a destination with another content
  may be replaced, and that a predecessor put aside is the one the journal names or may be given up.
\<close>

definition require_staged :: "'v skill_crates \<Rightarrow> skill_system \<Rightarrow> install_journal \<Rightarrow> bool skill_act" where
  "require_staged cr ss j =
     step_bind (failing (ij_destination j) (inspect_installation cr ss (ij_stage j))) (\<lambda>staged.
     step_then (if ei_exists staged
                then failing (ij_destination j) (verify_embedded_installation cr ss (ij_stage j) (ij_digest j))
                else step_ok ())
     (step_ok (ei_exists staged)))"

definition require_replaceable ::
  "('v::linorder) skill_crates \<Rightarrow> install_journal \<Rightarrow> bool \<Rightarrow> existing_installation \<Rightarrow> existing_installation \<Rightarrow> unit skill_act" where
  "require_replaceable cr j replace existing aside =
     (if ei_exists existing \<and> ei_exists aside then fails_at (ij_destination j) skill_install_failure
      else step_then (require_outcome (ij_destination j) (replacement_outcome cr existing replace)) (step_ok ()))"

definition recognized_predecessor :: "install_journal \<Rightarrow> existing_installation \<Rightarrow> refusal + string \<Rightarrow> bool" where
  "recognized_predecessor j aside out \<longleftrightarrow> out = Inr ''upgraded'' \<and> (case ei_marker aside of
      None \<Rightarrow> False
    | Some mk \<Rightarrow> ij_previous_digest j = Some (mm_digest mk)
        \<and> ij_previous_skill_version j = Some (mm_skill_version mk))"

definition require_predecessor ::
  "('v::linorder) skill_crates \<Rightarrow> install_journal \<Rightarrow> bool \<Rightarrow> existing_installation \<Rightarrow> unit skill_act" where
  "require_predecessor cr j replace aside =
     (if \<not> ei_exists aside then step_ok ()
      else case replacement_outcome cr aside False of
        None \<Rightarrow> step_panic
      | Some out \<Rightarrow>
          if recognized_predecessor j aside out \<or> replace then step_ok ()
          else fails_at (ij_destination j) skill_conflict)"

definition move_into_place ::
  "'v skill_crates \<Rightarrow> skill_system \<Rightarrow> string \<Rightarrow> install_journal \<Rightarrow> bool \<Rightarrow> existing_installation \<Rightarrow> unit io" where
  "move_into_place cr ss dir j staged existing =
     step_then (if staged then step_ok () else
       step_then (create_dir ss (ij_stage j))
       (step_then (restrict_path ss (ij_stage j))
       (step_then (write_embedded_skill cr ss (ij_stage j) (ij_digest j))
         (verify_embedded_installation cr ss (ij_stage j) (ij_digest j)))))
     (step_then (if ei_exists existing
         then step_then (rename_path ss (ij_destination j) (ij_backup j)) (sync_directory ss dir)
         else step_ok ())
     (step_then (rename_path ss (ij_stage j) (ij_destination j))
     (step_then (sync_directory ss dir)
       (verify_embedded_installation cr ss (ij_destination j) (ij_digest j)))))"

definition clean_up :: "skill_system \<Rightarrow> string \<Rightarrow> string \<Rightarrow> install_journal \<Rightarrow> bool \<Rightarrow> bool \<Rightarrow> unit io" where
  "clean_up ss dir path j aside_exists stage_left =
     step_then (if aside_exists then remove_dir_all ss (ij_backup j) else step_ok ())
     (step_then (if stage_left then remove_dir_all ss (ij_stage j) else step_ok ())
     (step_then (remove_file ss path) (sync_directory ss dir)))"

definition finish_journal ::
  "('v::linorder) skill_crates \<Rightarrow> skill_system \<Rightarrow> string \<Rightarrow> install_journal \<Rightarrow> bool \<Rightarrow> unit skill_act" where
  "finish_journal cr ss path j replace = (case raw_parent path of
      None \<Rightarrow> fails_at (ij_destination j) skill_install_failure
    | Some dir \<Rightarrow>
        if \<not> validate_journal cr path (raw_join dir ''lspctl'') j \<or> ij_digest j \<noteq> embedded_digest cr
        then fails_at (ij_destination j) skill_install_failure
        else
          step_bind (require_staged cr ss j) (\<lambda>staged.
          step_bind (failing (ij_destination j) (inspect_installation cr ss (ij_destination j))) (\<lambda>existing.
          step_bind (failing (ij_destination j) (inspect_installation cr ss (ij_backup j))) (\<lambda>aside.
          step_bind (failing (ij_destination j)
            (succeeds (verify_embedded_installation cr ss (ij_destination j) (ij_digest j)))) (\<lambda>installed.
          step_then (if installed then step_ok () else require_replaceable cr j replace existing aside)
          (step_then (require_predecessor cr j replace aside)
          (step_then (if installed then step_ok ()
             else failing (ij_destination j) (move_into_place cr ss dir j staged existing))
          (failing (ij_destination j) (clean_up ss dir path j
             (ei_exists aside \<or> \<not> installed \<and> ei_exists existing) (installed \<and> staged))))))))))"

section \<open>Installing\<close>

text \<open>\<open>create_safe_parent\<close>: the two directories above the destination exist and are no links.\<close>

definition safe_directory :: "skill_system \<Rightarrow> string \<Rightarrow> unit io" where
  "safe_directory ss p = (\<lambda>w. case symlink_metadata ss p w of
      None \<Rightarrow> None
    | Some (w', Inr m) \<Rightarrow> Some (w', if \<not> unsafe_metadata m \<and> is_dir m then Inr () else Inl IoOther)
    | Some (w', Inl IoNotFound) \<Rightarrow> create_dir ss p w'
    | Some (w', Inl e) \<Rightarrow> Some (w', Inl e))"

definition create_safe_parent :: "skill_system \<Rightarrow> string \<Rightarrow> unit io" where
  "create_safe_parent ss base =
     step_then (safe_directory ss (raw_join base ''.agent'')) (safe_directory ss (raw_join base ''.agent/skills''))"

text \<open>\<open>create_random_sibling\<close>: at most 32 names are tried.\<close>

fun try_siblings :: "skill_system \<Rightarrow> string \<Rightarrow> string \<Rightarrow> nat \<Rightarrow> string io" where
  "try_siblings ss dir pre 0 = step_err IoAlreadyExists"
| "try_siblings ss dir pre (Suc n) =
     step_bind (random_id ss) (\<lambda>i w. case create_dir ss (raw_join dir (pre @ i)) w of
        None \<Rightarrow> None
      | Some (w', Inr _) \<Rightarrow> step_then (restrict_path ss (raw_join dir (pre @ i))) (step_ok (raw_join dir (pre @ i))) w'
      | Some (w', Inl IoAlreadyExists) \<Rightarrow> try_siblings ss dir pre n w'
      | Some (w', Inl e) \<Rightarrow> Some (w', Inl e))"

definition create_random_sibling :: "skill_system \<Rightarrow> string \<Rightarrow> string \<Rightarrow> string io" where
  "create_random_sibling ss dir pre = try_siblings ss dir pre 32"

text \<open>A stage that cannot be written or verified is removed, whatever comes of the removal.\<close>

definition fill_stage :: "'v skill_crates \<Rightarrow> skill_system \<Rightarrow> string \<Rightarrow> string \<Rightarrow> unit io" where
  "fill_stage cr ss dir digest = (\<lambda>w.
     case step_then (write_embedded_skill cr ss dir digest) (verify_embedded_installation cr ss dir digest) w of
       None \<Rightarrow> None
     | Some (w', Inl e) \<Rightarrow> step_then (succeeds (remove_dir_all ss dir)) (step_err e) w'
     | Some (w', Inr _) \<Rightarrow> Some (w', Inr ()))"

definition new_journal ::
  "'v skill_crates \<Rightarrow> string \<Rightarrow> string \<Rightarrow> string \<Rightarrow> string \<Rightarrow> string \<Rightarrow> managed_marker option \<Rightarrow> install_journal" where
  "new_journal cr dir destination staged sibling outcome marker =
     \<lparr>ij_format_version = 1, ij_destination = destination, ij_stage = staged,
      ij_backup = raw_join dir (backup_prefix @ sibling), ij_digest = embedded_digest cr, ij_outcome = outcome,
      ij_previous_skill_version = Option.bind marker (\<lambda>mk.
        if managed_by_us mk \<and> sc_parse_version cr (mm_skill_version mk) \<noteq> None then Some (mm_skill_version mk) else None),
      ij_previous_digest = Option.bind marker (\<lambda>mk.
        if managed_by_us mk \<and> valid_sha256_digest (mm_digest mk) then Some (mm_digest mk) else None)\<rparr>"

definition install_result ::
  "string \<Rightarrow> string \<Rightarrow> string \<Rightarrow> string \<Rightarrow> string option \<Rightarrow> string option \<Rightarrow> json" where
  "install_result scope destination digest outcome version previous = jobj
     [(''scope'', JString scope), (''resolvedPath'', JString destination),
      (''skillVersion'', JString package_version), (''digest'', JString digest), (''outcome'', JString outcome),
      (''previousSkillVersion'', jopt JString version), (''previousDigest'', jopt JString previous),
      (''files'', JArray (map JString installed_files))]"

definition success_result :: "string \<Rightarrow> install_journal \<Rightarrow> json" where
  "success_result scope j = install_result scope (ij_destination j) (ij_digest j) (ij_outcome j)
     (ij_previous_skill_version j) (ij_previous_digest j)"

definition is_unchanged :: "'v skill_crates \<Rightarrow> existing_installation \<Rightarrow> bool" where
  "is_unchanged cr existing \<longleftrightarrow> (case ei_marker existing of
      None \<Rightarrow> False
    | Some mk \<Rightarrow> marker_is mk (embedded_digest cr) \<and> ei_actual_digest existing = Some (embedded_digest cr))"

definition install_new ::
  "('v::linorder) skill_crates \<Rightarrow> skill_system \<Rightarrow> string \<Rightarrow> string \<Rightarrow> string \<Rightarrow> bool \<Rightarrow> existing_installation \<Rightarrow> json skill_act" where
  "install_new cr ss dir destination scope replace existing =
     step_bind (require_outcome destination (replacement_outcome cr existing replace)) (\<lambda>outcome.
     step_bind (failing destination (create_random_sibling ss dir stage_prefix)) (\<lambda>staged.
     step_then (failing destination (fill_stage cr ss staged (embedded_digest cr)))
     (case raw_file_name staged of
        None \<Rightarrow> step_panic
      | Some sibling \<Rightarrow>
          let j = new_journal cr dir destination staged sibling outcome (ei_marker existing) in
          step_then (failing destination (write_journal cr ss dir j))
          (case journal_path dir j of
             None \<Rightarrow> step_panic
           | Some path \<Rightarrow> step_then (finish_journal cr ss path j replace) (step_ok (success_result scope j))))))"

definition install_to ::
  "('v::linorder) skill_crates \<Rightarrow> skill_system \<Rightarrow> string \<Rightarrow> string \<Rightarrow> bool \<Rightarrow> json skill_act" where
  "install_to cr ss selected_base scope replace =
     step_bind (failing selected_base (canonicalize ss selected_base)) (\<lambda>base.
     let selected = raw_join selected_base ''.agent/skills/lspctl'';
         destination = raw_join base ''.agent/skills/lspctl'' in
     if \<not> utf8_valid destination then fails_at destination skill_install_failure
     else case raw_parent destination of
       None \<Rightarrow> step_panic
     | Some dir \<Rightarrow>
         step_then (failing destination (create_safe_parent ss base))
         (step_then (failing destination (reject_unsafe_path ss (raw_join dir lock_name)))
         (step_then (failing destination (open_file ss False (raw_join dir lock_name)))
         (step_then (failing destination (try_lock ss))
         (step_bind (read_journal cr ss dir destination selected) (\<lambda>found. (case found of
            Some (path, j) \<Rightarrow> step_then (finish_journal cr ss path j replace) (step_ok (success_result scope j))
          | None \<Rightarrow>
              step_bind (or_else_failing destination skill_conflict (inspect_installation cr ss destination)) (\<lambda>existing.
              if is_unchanged cr existing
              then step_ok (install_result scope destination (embedded_digest cr) ''unchanged''
                     (Some package_version) (Some (embedded_digest cr)))
              else install_new cr ss dir destination scope replace existing))))))))"

text \<open>\<open>install\<close>: the base is the home directory (\<open>directories\<close>) or the working directory.\<close>

definition install ::
  "('v::linorder) skill_crates \<Rightarrow> skill_system \<Rightarrow> string option \<Rightarrow> string option \<Rightarrow> parsed_invocation \<Rightarrow> json skill_act" where
  "install cr ss home cwd iv =
     (let global = has_option iv ''--global''; scope = (if global then ''global'' else ''local'') in
      step_bind (if global
          then (case home of None \<Rightarrow> step_err user_path_failure | Some p \<Rightarrow> step_ok p)
          else (case cwd of None \<Rightarrow> step_err skill_install_failure | Some p \<Rightarrow> step_ok p)) (\<lambda>base.
      step_bind (install_to cr ss base scope (has_option iv ''--replace'')) (\<lambda>result.
      step_ok (jobj [(''schemaVersion'', jnat 1), (''ok'', JBool True), (''command'', JArray (map JString (iv_command iv))), (''result'', result)]))))"

end
