(* ===== verification/Skill_Files_Laws.thy ===== *)
theory Skill_Files_Laws
  imports Skill_Files
begin

text \<open>
  Canonical paths as text, the tree of files under changes, and the calls that only look: what such a
  call finds is a function of the tree, whatever faults it meets.
\<close>

section \<open>Canonical paths\<close>

definition plain_name :: "string \<Rightarrow> bool" where
  "plain_name x \<longleftrightarrow> x \<noteq> [] \<and> CHR ''/'' \<notin> set x \<and> x \<noteq> ''.'' \<and> x \<noteq> ''..''"

definition raw_text :: "string list \<Rightarrow> string" where
  "raw_text ns = (if ns = [] then ''/'' else concat (map ((#) CHR ''/'') ns))"

lemma plain_not_trivial [simp]: "plain_name x \<Longrightarrow> \<not> trivial_segment x"
  by (simp add: plain_name_def trivial_segment_def)

lemma split_on_nonempty [simp]: "split_on c s \<noteq> []"
  by (induction s) (auto split: list.splits)

lemma split_on_plain: "c \<notin> set x \<Longrightarrow> split_on c x = [x]"
  by (induction x) auto

lemma split_on_append: "split_on c (p @ c # q) = split_on c p @ split_on c q"
  by (induction p) (auto split: list.splits)

lemma split_on_concat:
  "list_all plain_name ns \<Longrightarrow> split_on CHR ''/'' (concat (map ((#) CHR ''/'') ns)) = [] # ns"
proof (induction ns rule: rev_induct)
  case (snoc x ns)
  have "split_on CHR ''/'' (concat (map ((#) CHR ''/'') ns) @ CHR ''/'' # x) = ([] # ns) @ [x]"
    using snoc by (simp only: split_on_append) (simp add: split_on_plain plain_name_def)
  then show ?case by simp
qed simp

lemma split_raw_text: "list_all plain_name ns \<Longrightarrow> ns \<noteq> [] \<Longrightarrow> split_on CHR ''/'' (raw_text ns) = [] # ns"
  by (simp add: raw_text_def split_on_concat)

lemma plain_filter: "list_all plain_name ns \<Longrightarrow> filter (\<lambda>s. \<not> trivial_segment s) ns = ns"
  by (induction ns) auto

lemma names_of_raw_text [simp]: "list_all plain_name ns \<Longrightarrow> names_of (raw_text ns) = ns"
  by (cases "ns = []")
    (simp_all add: names_of_def split_raw_text plain_filter, simp_all add: raw_text_def trivial_segment_def)

lemma raw_absolute_path_text [simp]: "raw_absolute (raw_text ns)"
  by (cases ns) (simp_all add: raw_absolute_def raw_text_def)

lemma raw_dotted_path_text [simp]:
  "list_all plain_name ns \<Longrightarrow> ns \<noteq> [] \<Longrightarrow> \<not> raw_dotted (raw_text ns)"
  by (auto simp: raw_dotted_def split_raw_text list_all_iff plain_name_def)

lemma last_raw_text: "list_all plain_name ns \<Longrightarrow> ns \<noteq> [] \<Longrightarrow> last (raw_text ns) \<noteq> CHR ''/''"
proof (induction ns rule: rev_induct)
  case (snoc x ns)
  then have "x \<noteq> []" "last x \<in> set x" "CHR ''/'' \<notin> set x" by (simp_all add: plain_name_def)
  then have "last x \<noteq> CHR ''/''" by metis
  with \<open>x \<noteq> []\<close> show ?case by (simp add: raw_text_def)
qed simp

lemma raw_text_snoc: "raw_text (ns @ [x]) = (if ns = [] then ''/'' @ x else raw_text ns @ CHR ''/'' # x)"
  by (simp add: raw_text_def)

lemma raw_join_plain [simp]:
  assumes "list_all plain_name ns" "plain_name x"
  shows "raw_join (raw_text ns) x = raw_text (ns @ [x])"
proof (cases "ns = []")
  case True
  with assms(2) show ?thesis by (cases x) (auto simp: raw_join_def raw_text_def plain_name_def)
next
  case False
  have "raw_text ns \<noteq> []" using False by (cases ns) (auto simp: raw_text_def)
  with assms False last_raw_text [of ns] show ?thesis
    by (cases x) (auto simp: raw_join_def raw_text_snoc plain_name_def)
qed

lemma raw_join_plains:
  assumes "list_all plain_name ns" "plain_name x" "ms \<noteq> []"
  shows "raw_join (raw_text ns) (x @ raw_text ms) = raw_text (ns @ x # ms)"
proof (cases "ns = []")
  case True
  with assms show ?thesis by (cases x) (auto simp: raw_join_def raw_text_def plain_name_def)
next
  case False
  have "raw_text ns \<noteq> []" using False by (cases ns) (auto simp: raw_text_def)
  with assms False last_raw_text [of ns] show ?thesis
    by (cases x) (auto simp: raw_join_def raw_text_def plain_name_def)
qed

lemma plain_last: "list_all plain_name ns \<Longrightarrow> ns \<noteq> [] \<Longrightarrow> \<not> trivial_segment (last ns)"
  by (induction ns rule: rev_induct) auto

lemma without_trailing_plain: "list_all plain_name ns \<Longrightarrow> without_trailing (s # ns) = s # ns"
  using plain_last [of ns] by (cases ns rule: rev_cases) auto

lemma raw_parent_raw_text [simp]:
  assumes "list_all plain_name ns" "plain_name x"
  shows "raw_parent (raw_text (ns @ [x])) = Some (raw_text ns)"
proof -
  have "without_trailing (split_on CHR ''/'' (raw_text (ns @ [x]))) = [] # ns @ [x]"
    using assms without_trailing_plain [of "ns @ [x]" "[]"] by (simp add: split_raw_text)
  moreover have "text_of_segments (without_trailing ([] # ns)) = raw_text ns"
    using without_trailing_plain [OF assms(1), of "[]"] by (cases ns) (simp_all add: raw_text_def)
  ultimately show ?thesis by (cases ns) (simp_all add: raw_parent_def butlast_append)
qed

lemma raw_file_name_raw_text [simp]:
  assumes "list_all plain_name ns" "plain_name x"
  shows "raw_file_name (raw_text (ns @ [x])) = Some x"
proof -
  have "without_trailing (split_on CHR ''/'' (raw_text (ns @ [x]))) = [] # ns @ [x]"
    using assms without_trailing_plain [of "ns @ [x]" "[]"] by (simp add: split_raw_text)
  then show ?thesis using assms(2) by (simp add: raw_file_name_def) (simp add: plain_name_def)
qed

lemma raw_text_inject [simp]:
  "list_all plain_name ns \<Longrightarrow> list_all plain_name ms \<Longrightarrow> raw_text ns = raw_text ms \<longleftrightarrow> ns = ms"
  by (metis names_of_raw_text)

section \<open>The tree\<close>

lemma find_node_append:
  "find_node n (p @ q) = (case find_node n p of None \<Rightarrow> None | Some m \<Rightarrow> find_node m q)"
  by (induction n p rule: find_node.induct) (auto split: option.splits)

lemma find_node_leaf [simp]: "\<not> is_dir n \<Longrightarrow> find_node n p = (if p = [] then Some n else None)"
  by (cases n; cases p) auto

lemma dir_at_Nil [simp]: "is_dir_at n [] = is_dir n"
  by (simp add: is_dir_at_def)

lemma dir_at_Cons [simp]:
  "is_dir_at (DirN es) (x # p) = (case bt_get es x of None \<Rightarrow> False | Some n \<Rightarrow> is_dir_at n p)"
  by (simp add: is_dir_at_def split: option.splits)

lemma dir_at_leaf [simp]: "\<not> is_dir n \<Longrightarrow> \<not> is_dir_at n p"
  by (cases p) (simp_all add: is_dir_at_def)

lemma find_put_same:
  "p \<noteq> [] \<Longrightarrow> is_dir_at n (butlast p) \<Longrightarrow> find_node (put_node p x n) p = x"
proof (induction p x n rule: put_node.induct)
  case (2 a p x es)
  then show ?case by (cases p) (auto split: option.splits)
qed auto

lemma find_put_below:
  "p \<noteq> [] \<Longrightarrow> is_dir_at n (butlast p) \<Longrightarrow>
     find_node (put_node p x n) (p @ q) = (case x of None \<Rightarrow> None | Some m \<Rightarrow> find_node m q)"
  by (simp add: find_node_append find_put_same)

lemma find_put_other:
  "\<not> prefix p q \<Longrightarrow> \<not> prefix q p \<Longrightarrow> find_node (put_node p x n) q = find_node n q"
proof (induction p x n arbitrary: q rule: put_node.induct)
  case (2 a p x es)
  then show ?case by (cases q) (auto split: option.splits)
qed auto

lemma is_dir_put: "p \<noteq> [] \<Longrightarrow> is_dir (put_node p x n) = is_dir n"
  by (cases "(p, x, n)" rule: put_node.cases) auto

lemma dir_at_put_above: "prefix q p \<Longrightarrow> q \<noteq> p \<Longrightarrow> is_dir_at (put_node p x n) q = is_dir_at n q"
proof (induction p x n arbitrary: q rule: put_node.induct)
  case (2 a p x es)
  then show ?case by (cases q) (auto split: option.splits)
qed auto

lemma dir_at_put_other: "\<not> prefix p q \<Longrightarrow> is_dir_at (put_node p x n) q = is_dir_at n q"
  using find_put_other [of p q x n] dir_at_put_above [of q p x n] by (cases "prefix q p") (auto simp: is_dir_at_def)

text \<open>The bytes of the file at a path: a change at \<open>p\<close> is not seen anywhere but at and below \<open>p\<close>.\<close>

definition file_at :: "file_node \<Rightarrow> string list \<Rightarrow> string option" where
  "file_at n q = (case find_node n q of Some (FileN bytes) \<Rightarrow> Some bytes | _ \<Rightarrow> None)"

lemma file_at_simps [simp]:
  "file_at (DirN es) [] = None"
  "file_at (DirN es) (x # q) = (case bt_get es x of None \<Rightarrow> None | Some n \<Rightarrow> file_at n q)"
  by (simp_all add: file_at_def split: option.splits)

lemma file_at_put: "\<not> prefix p q \<Longrightarrow> file_at (put_node p x n) q = file_at n q"
proof (induction p x n arbitrary: q rule: put_node.induct)
  case (2 a p x es)
  then show ?case by (cases q) (auto split: option.splits)
qed auto

text \<open>A directory that exists is not in the way.\<close>

lemma not_blocked: "is_dir_at n (butlast p) \<Longrightarrow> \<not> blocked n p"
proof (induction n p rule: blocked.induct)
  case (2 es x p)
  then show ?case by (cases "p = []") (auto split: option.splits)
qed auto

lemma looked_up_dir:
  "is_dir_at n (butlast p) \<Longrightarrow> looked_up n p = (case find_node n p of None \<Rightarrow> Inl IoNotFound | Some m \<Rightarrow> Inr m)"
  by (cases "find_node n p") (simp_all add: looked_up_def missing_def not_blocked)

lemma looked_up_Inr: "looked_up n p = Inr m \<longleftrightarrow> find_node n p = Some m"
  by (simp add: looked_up_def split: option.splits)

lemma find_Some_dir: "find_node n (p @ [x]) = Some m \<Longrightarrow> is_dir_at n p"
  by (auto simp: find_node_append is_dir_at_def split: option.splits) (case_tac x2; simp)+

section \<open>Calls that only look\<close>

text \<open>
  Such a call leaves the tree as it is, and what it returns is what the tree holds, unless a fault made
  it fail.
\<close>

definition observes :: "skill_system \<Rightarrow> 'a io \<Rightarrow> (file_node \<Rightarrow> io_error + 'a) \<Rightarrow> bool" where
  "observes ss m f \<longleftrightarrow> (\<forall>w. \<exists>t r. m w = Some (w\<lparr>sw_tick := t\<rparr>, r)
     \<and> (r = f (sw_root w) \<or> r = Inl IoOther \<and> ss_fault ss \<noteq> (\<lambda>_. None)))"

named_theorems looks "calls that only look"

lemma observesE:
  assumes "observes ss m f"
  obtains t r where "m w = Some (w\<lparr>sw_tick := t\<rparr>, r)"
    "r = f (sw_root w) \<or> r = Inl IoOther \<and> ss_fault ss \<noteq> (\<lambda>_. None)"
  using assms unfolding observes_def by blast

lemma observes_reading [looks]: "observes ss (look_call ss f) f"
  unfolding observes_def
proof
  fix w
  show "\<exists>t r. look_call ss f w = Some (w\<lparr>sw_tick := t\<rparr>, r)
      \<and> (r = f (sw_root w) \<or> r = Inl IoOther \<and> ss_fault ss \<noteq> (\<lambda>_. None))"
    by (cases "f (sw_root w)"; cases "ss_fault ss (sw_tick w)")
      (auto simp: look_call_def system_call_def Let_def intro!: exI [of _ "Suc (sw_tick w)"])
qed

lemma observes_ok [looks]: "observes ss (step_ok a) (\<lambda>_. Inr a)"
  unfolding observes_def step_ok_def by (metis skill_world.surjective skill_world.update_convs(2) old.unit.exhaust)

lemma observes_err [looks]: "observes ss (step_err e) (\<lambda>_. Inl e)"
  unfolding observes_def step_err_def by (metis skill_world.surjective skill_world.update_convs(2) old.unit.exhaust)

lemma observes_bind:
  assumes "observes ss m f" "\<And>a. observes ss (k a) (g a)"
  shows "observes ss (step_bind m k) (\<lambda>n. case f n of Inl e \<Rightarrow> Inl e | Inr a \<Rightarrow> g a n)"
  unfolding observes_def
proof
  fix w
  obtain t r where m: "m w = Some (w\<lparr>sw_tick := t\<rparr>, r)" "r = f (sw_root w) \<or> r = Inl IoOther \<and> ss_fault ss \<noteq> (\<lambda>_. None)"
    using observesE [OF assms(1)] .
  show "\<exists>t r. step_bind m k w = Some (w\<lparr>sw_tick := t\<rparr>, r)
      \<and> (r = (case f (sw_root w) of Inl e \<Rightarrow> Inl e | Inr a \<Rightarrow> g a (sw_root w)) \<or> r = Inl IoOther \<and> ss_fault ss \<noteq> (\<lambda>_. None))"
  proof (cases r)
    case (Inl e)
    with m(1) have "step_bind m k w = Some (w\<lparr>sw_tick := t\<rparr>, Inl e)" by (simp add: step_bind_def)
    with m(2) Inl show ?thesis by (intro exI [of _ t] exI [of _ "Inl e"]) (auto split: sum.splits)
  next
    case (Inr a)
    obtain t' r' where k: "k a (w\<lparr>sw_tick := t\<rparr>) = Some (w\<lparr>sw_tick := t'\<rparr>, r')"
      "r' = g a (sw_root w) \<or> r' = Inl IoOther \<and> ss_fault ss \<noteq> (\<lambda>_. None)"
      using observesE [OF assms(2), of a "w\<lparr>sw_tick := t\<rparr>"] by auto
    moreover have "f (sw_root w) = Inr a" using m(2) Inr by auto
    ultimately show ?thesis using m(1) Inr by (intro exI [of _ t'] exI [of _ r']) (simp add: step_bind_def)
  qed
qed

lemma observes_then:
  "observes ss m f \<Longrightarrow> observes ss k g \<Longrightarrow> observes ss (step_then m k) (\<lambda>n. case f n of Inl e \<Rightarrow> Inl e | Inr a \<Rightarrow> g n)"
  unfolding step_then_def by (rule observes_bind)

lemma observes_require [looks]: "observes ss (require c e) (\<lambda>_. if c then Inr () else Inl e)"
  by (simp add: require_def looks)

lemma observes_eq: "observes ss m f \<Longrightarrow> (\<And>n. f n = g n) \<Longrightarrow> observes ss m g"
  by (simp add: observes_def)

lemma observes_metadata [looks]: "observes ss (symlink_metadata ss p) (\<lambda>n. looked_up n (names_of p))"
  unfolding symlink_metadata_def by (rule observes_reading)

section \<open>What calls establish\<close>

text \<open>Triples over the tree alone.\<close>

definition ensures :: "(file_node \<Rightarrow> bool) \<Rightarrow> (file_node \<Rightarrow> bool) \<Rightarrow> (skill_world, 'e, 'a) step \<Rightarrow> ('a \<Rightarrow> file_node \<Rightarrow> bool) \<Rightarrow> bool" where
  "ensures E P m Q \<longleftrightarrow> upholds (\<lambda>w. E (sw_root w)) (\<lambda>w. P (sw_root w)) m (\<lambda>a w. Q a (sw_root w))"

lemma ensures_iff:
  "ensures E P m Q \<longleftrightarrow> (\<forall>w. P (sw_root w) \<longrightarrow> (case m w of
      None \<Rightarrow> True
    | Some (w', Inl e) \<Rightarrow> E (sw_root w')
    | Some (w', Inr a) \<Rightarrow> Q a (sw_root w')))"
  unfolding ensures_def upholds_def by (fastforce split: option.splits sum.splits)

lemma ensures_bind: "ensures E P m R \<Longrightarrow> (\<And>a. ensures E (R a) (k a) Q) \<Longrightarrow> ensures E P (step_bind m k) Q"
  unfolding ensures_def by (rule upholds_bind)

lemma ensures_then: "ensures E P m (\<lambda>_. R) \<Longrightarrow> ensures E R k Q \<Longrightarrow> ensures E P (step_then m k) Q"
  unfolding ensures_def by (rule upholds_then)

lemma ensures_ok: "(\<And>n. P n \<Longrightarrow> Q a n) \<Longrightarrow> ensures E P (step_ok a) Q"
  unfolding ensures_def by (rule upholds_ok) simp

lemma ensures_err: "(\<And>n. P n \<Longrightarrow> E n) \<Longrightarrow> ensures E P (step_err e) Q"
  unfolding ensures_def by (rule upholds_err) simp

lemma ensures_panic: "ensures E P step_panic Q"
  unfolding ensures_def by (rule upholds_panic)

lemma ensures_mono:
  "ensures E P m Q \<Longrightarrow> (\<And>n. P' n \<Longrightarrow> P n) \<Longrightarrow> (\<And>a n. Q a n \<Longrightarrow> Q' a n) \<Longrightarrow> (\<And>n. E n \<Longrightarrow> E' n) \<Longrightarrow> ensures E' P' m Q'"
  unfolding ensures_def by (rule upholds_mono)

lemma ensures_pre: "(c \<Longrightarrow> ensures E P m Q) \<Longrightarrow> ensures E (\<lambda>n. P n \<and> c) m Q"
  unfolding ensures_def upholds_def by blast

lemma ensures_observes:
  assumes "observes ss m f" "\<And>n. P n \<Longrightarrow> E n"
  shows "ensures E P m (\<lambda>a n. P n \<and> f n = Inr a)"
  unfolding ensures_def upholds_def
proof (intro allI impI)
  fix w w' r assume w: "P (sw_root w)" "m w = Some (w', r)"
  obtain t r1 where "m w = Some (w\<lparr>sw_tick := t\<rparr>, r1)"
    "r1 = f (sw_root w) \<or> r1 = Inl IoOther \<and> ss_fault ss \<noteq> (\<lambda>_. None)"
    using observesE [OF assms(1)] .
  with w assms(2) show "case r of Inl _ \<Rightarrow> E (sw_root w') | Inr a \<Rightarrow> P (sw_root w') \<and> f (sw_root w') = Inr a"
    by (auto split: sum.splits)
qed

lemma ensures_writing:
  assumes "\<And>n e. P n \<Longrightarrow> E (torn e n)" "\<And>n. P n \<Longrightarrow> E n" "\<And>n n'. P n \<Longrightarrow> f n = Inr n' \<Longrightarrow> Q () n'"
  shows "ensures E P (change_call ss torn f) Q"
  unfolding ensures_def upholds_def change_call_def system_call_def Let_def
  using assms by (auto split: option.splits sum.splits)

end
