(* ===== verification/Skill_Inspect_Laws.thy ===== *)
theory Skill_Inspect_Laws
  imports Skill_Install Skill_Files_Laws
begin

text \<open>
  What an inspection of the installed files finds as a function of the tree, and the assertions on the
  tree that a call working below one path keeps.
\<close>

section \<open>Inspections\<close>

fun tree_files ::
  "string list \<Rightarrow> (string \<times> file_node) list \<Rightarrow> (string, string) btree \<Rightarrow> io_error + (string, string) btree" where
  "tree_files rel [] files = Inr files"
| "tree_files rel ((name, m) # es) files =
     (case (case m of
         LinkN \<Rightarrow> Inl IoOther
       | DirN sub \<Rightarrow> tree_files (rel @ [name]) sub files
       | FileN bytes \<Rightarrow>
           if list_all utf8_valid (rel @ [name]) then Inr (bt_insert (slashed (rel @ [name])) bytes files)
           else Inl IoOther
       | OtherN \<Rightarrow> Inl IoOther) of
        Inl e \<Rightarrow> Inl e
      | Inr files \<Rightarrow> tree_files rel es files)"

lemma observes_reading_unit: "observes ss (look_call ss (\<lambda>_. Inr ())) (\<lambda>_. Inr ())"
  by (rule observes_reading)

lemma observes_visit [looks]: "observes ss (visit_entries ss rel es files) (\<lambda>_. tree_files rel es files)"
proof (induction ss rel es files rule: visit_entries.induct)
  case (2 ss rel name m es files)
  have m: "observes ss (case m of
         LinkN \<Rightarrow> step_err IoOther
       | DirN sub \<Rightarrow> step_bind (look_call ss (\<lambda>_. Inr ())) (\<lambda>_. visit_entries ss (rel @ [name]) sub files)
       | FileN bytes \<Rightarrow>
           if list_all utf8_valid (rel @ [name])
           then step_bind (look_call ss (\<lambda>_. Inr ())) (\<lambda>_. step_ok (bt_insert (slashed (rel @ [name])) bytes files))
           else step_err IoOther
       | OtherN \<Rightarrow> step_err IoOther)
     (\<lambda>_. case m of
         LinkN \<Rightarrow> Inl IoOther
       | DirN sub \<Rightarrow> tree_files (rel @ [name]) sub files
       | FileN bytes \<Rightarrow>
           if list_all utf8_valid (rel @ [name]) then Inr (bt_insert (slashed (rel @ [name])) bytes files)
           else Inl IoOther
       | OtherN \<Rightarrow> Inl IoOther)"
  proof (cases m)
    case (FileN bytes)
    have "observes ss (step_bind (look_call ss (\<lambda>_. Inr ())) (\<lambda>_. step_ok (bt_insert (slashed (rel @ [name])) bytes files)))
       (\<lambda>_. Inr (bt_insert (slashed (rel @ [name])) bytes files))"
      by (rule observes_eq [OF observes_bind [OF observes_reading_unit observes_ok]]) simp
    with FileN show ?thesis by (simp add: looks del: list_all_append)
  next
    case (DirN sub)
    have "observes ss (step_bind (look_call ss (\<lambda>_. Inr ())) (\<lambda>_. visit_entries ss (rel @ [name]) sub files))
       (\<lambda>_. tree_files (rel @ [name]) sub files)"
      by (rule observes_eq [OF observes_bind [OF observes_reading_unit 2(1)]]) (use DirN in simp_all)
    with DirN show ?thesis by simp
  qed (simp_all add: looks)
  show ?case
    by (simp only: visit_entries.simps,
        rule observes_eq [OF observes_bind [OF observes_reading_unit observes_bind [OF observes_reading_unit
          observes_bind [OF m 2(2)]]]])
      simp
qed (simp add: looks)

definition installation_of :: "'v skill_crates \<Rightarrow> file_node \<Rightarrow> io_error + existing_installation" where
  "installation_of cr m = (case m of
      DirN es \<Rightarrow> (case tree_files [] es [] of
          Inl e \<Rightarrow> Inl e
        | Inr files \<Rightarrow> Inr
            \<lparr>ei_exists = True,
             ei_marker = Option.bind (bt_get files marker_name) (sc_read_marker cr),
             ei_actual_digest = Some (bundle_digest cr (filter (\<lambda>e. fst e \<noteq> marker_name) files))\<rparr>)
    | _ \<Rightarrow> Inl IoOther)"

definition no_installation :: existing_installation where
  "no_installation = \<lparr>ei_exists = False, ei_marker = None, ei_actual_digest = None\<rparr>"

definition seen_installation :: "'v skill_crates \<Rightarrow> string list \<Rightarrow> file_node \<Rightarrow> io_error + existing_installation" where
  "seen_installation cr p n = (case looked_up n p of
      Inl IoNotFound \<Rightarrow> Inr no_installation
    | Inl e \<Rightarrow> Inl e
    | Inr m \<Rightarrow> installation_of cr m)"

lemma observes_read_tree:
  "observes ss (read_tree ss p) (\<lambda>n. case looked_up n (names_of p) of
      Inl e \<Rightarrow> Inl e | Inr m \<Rightarrow> (case dir_entries m of Inl e \<Rightarrow> Inl e | Inr es \<Rightarrow> tree_files [] es []))"
  unfolding read_tree_def read_dir_def
  by (rule observes_eq [OF observes_bind [OF observes_reading observes_visit]]) (simp split: sum.splits)

lemma observes_inspection [looks]:
  "observes ss (inspect_installation cr ss p) (seen_installation cr (names_of p))"
  unfolding observes_def
proof
  fix w :: skill_world
  let ?ok = "\<lambda>r f. r = f (sw_root w) \<or> r = Inl IoOther \<and> ss_fault ss \<noteq> (\<lambda>_. None)"
  obtain t r where m: "symlink_metadata ss p w = Some (w\<lparr>sw_tick := t\<rparr>, r)" "?ok r (\<lambda>n. looked_up n (names_of p))"
    using observesE [OF observes_metadata] .
  show "\<exists>t r. inspect_installation cr ss p w = Some (w\<lparr>sw_tick := t\<rparr>, r) \<and> ?ok r (seen_installation cr (names_of p))"
  proof (cases r)
    case (Inl e)
    with m show ?thesis
      by (cases e) (auto simp: inspect_installation_def seen_installation_def no_installation_def split: sum.splits)
  next
    case (Inr x)
    then have x: "looked_up (sw_root w) (names_of p) = Inr x" using m(2) by auto
    show ?thesis
    proof (cases "is_dir x")
      case True
      then obtain es where es: "x = DirN es" by (cases x) auto
      let ?k = "\<lambda>files. step_ok
          \<lparr>ei_exists = True,
           ei_marker = Option.bind (bt_get files marker_name) (sc_read_marker cr),
           ei_actual_digest = Some (bundle_digest cr (filter (\<lambda>e. fst e \<noteq> marker_name) files))\<rparr>"
      obtain t' r' where k: "step_bind (read_tree ss p) ?k (w\<lparr>sw_tick := t\<rparr>) = Some (w\<lparr>sw_tick := t'\<rparr>, r')"
        "r' = seen_installation cr (names_of p) (sw_root w) \<or> r' = Inl IoOther \<and> ss_fault ss \<noteq> (\<lambda>_. None)"
        using observesE [OF observes_bind [OF observes_read_tree, of ss ?k, OF observes_ok], of p "w\<lparr>sw_tick := t\<rparr>"] x es
        by (auto simp: seen_installation_def installation_of_def)
      have "inspect_installation cr ss p w = Some (w\<lparr>sw_tick := t'\<rparr>, r')"
        using m(1) Inr es k(1) by (simp add: inspect_installation_def unsafe_metadata_def)
      with k(2) show ?thesis by blast
    next
      case False
      then have "seen_installation cr (names_of p) (sw_root w) = Inl IoOther"
        using x by (cases x) (simp_all add: seen_installation_def installation_of_def)
      with m(1) Inr False show ?thesis by (auto simp: inspect_installation_def)
    qed
  qed
qed

text \<open>A node that \<open>verify_embedded_installation\<close> accepts.\<close>

definition embedded :: "'v skill_crates \<Rightarrow> string \<Rightarrow> file_node \<Rightarrow> bool" where
  "embedded cr digest m \<longleftrightarrow> (\<exists>es e mk. m = DirN es \<and> list_all (\<lambda>x. is_file (snd x)) es
     \<and> installation_of cr m = Inr e \<and> ei_marker e = Some mk \<and> marker_is mk digest \<and> ei_actual_digest e = Some digest)"

definition verified :: "'v skill_crates \<Rightarrow> string \<Rightarrow> string list \<Rightarrow> file_node \<Rightarrow> io_error + unit" where
  "verified cr digest p n = (case seen_installation cr p n of
      Inl e \<Rightarrow> Inl e
    | Inr e \<Rightarrow> (case looked_up n p of
        Inl e \<Rightarrow> Inl e
      | Inr m \<Rightarrow> if embedded cr digest m then Inr () else Inl IoOther))"

lemma verified_Inr: "verified cr digest p n = Inr () \<longleftrightarrow> (\<exists>m. find_node n p = Some m \<and> embedded cr digest m)"
  by (cases "find_node n p")
    (auto simp: verified_def seen_installation_def looked_up_def missing_def embedded_def no_installation_def
      split: sum.splits if_splits)

lemma observes_all_files:
  "observes ss (all_files ss es) (\<lambda>_. if list_all (\<lambda>x. is_file (snd x)) es then Inr () else Inl IoOther)"
proof (induction ss es rule: all_files.induct)
  case (2 ss name m es)
  show ?case
    by (simp only: all_files.simps,
        rule observes_eq [OF observes_bind [OF observes_reading_unit observes_then [OF observes_require 2]]]) simp
qed (simp add: looks)

lemma observes_verify [looks]:
  "observes ss (verify_embedded_installation cr ss p digest) (verified cr digest (names_of p))"
proof -
  have last: "observes ss (case ei_marker e of None \<Rightarrow> step_err IoOther
      | Some mk \<Rightarrow> require (marker_is mk digest \<and> ei_actual_digest e = Some digest) IoOther)
    (\<lambda>_. case ei_marker e of None \<Rightarrow> Inl IoOther
      | Some mk \<Rightarrow> if marker_is mk digest \<and> ei_actual_digest e = Some digest then Inr () else Inl IoOther)" for e
    by (auto simp: looks split: option.split)
  show ?thesis
    unfolding verify_embedded_installation_def read_dir_def
    by (rule observes_eq [OF observes_bind [OF observes_inspection observes_bind [OF observes_reading
          observes_then [OF observes_all_files last]]]])
      (auto simp: verified_def seen_installation_def installation_of_def embedded_def no_installation_def looked_up_def
        split: sum.splits option.splits file_node.splits io_error.splits if_splits)
qed

section \<open>Changes below a path\<close>

text \<open>An assertion that no change at or below a path makes false, and the calls that change nothing else.\<close>

definition stable :: "string list \<Rightarrow> (file_node \<Rightarrow> bool) \<Rightarrow> bool" where
  "stable p P \<longleftrightarrow> (\<forall>q x n. P n \<longrightarrow> P (put_node (p @ q) x n))"

lemma stableD: "stable p P \<Longrightarrow> P n \<Longrightarrow> P (put_node p x n)"
  unfolding stable_def by (metis append_Nil2)

lemma stable_below: "stable p P \<Longrightarrow> stable (p @ q) P"
  by (simp add: stable_def)

lemma stable_conj: "stable p P \<Longrightarrow> stable p Q \<Longrightarrow> stable p (\<lambda>n. P n \<and> Q n)"
  by (simp add: stable_def)

lemma stable_const: "stable p (\<lambda>n. c)"
  by (simp add: stable_def)

named_theorems keeping "calls that keep a stable assertion"

lemma steady_writing:
  assumes "\<And>n e. P n \<Longrightarrow> P (torn e n)" "\<And>n n'. P n \<Longrightarrow> f n = Inr n' \<Longrightarrow> P n'"
  shows "ensures P P (change_call ss torn f) (\<lambda>_. P)"
  using assms by (intro ensures_writing) auto

lemma steady_look: "observes ss m f \<Longrightarrow> ensures P P m (\<lambda>_. P)"
  using ensures_observes [of ss m f P P] by (rule ensures_mono) simp_all

lemma steady_create_dir [keeping]: "stable (names_of p) P \<Longrightarrow> ensures P P (create_dir ss p) (\<lambda>_. P)"
  unfolding create_dir_def by (rule steady_writing) (auto simp: created_dir_def stableD split: if_splits)

lemma steady_open_file [keeping]: "stable (names_of p) P \<Longrightarrow> ensures P P (open_file ss b p) (\<lambda>_. P)"
  unfolding open_file_def
  by (rule steady_writing) (auto simp: opened_def stableD split: if_splits option.splits file_node.splits)

lemma steady_write_all [keeping]: "stable (names_of p) P \<Longrightarrow> ensures P P (write_all ss p bytes) (\<lambda>_. P)"
  unfolding write_all_def by (rule steady_writing) (auto simp: stableD)

lemma steady_write_atomically [keeping]: "stable (names_of p) P \<Longrightarrow> ensures P P (write_atomically ss p bytes) (\<lambda>_. P)"
  unfolding write_atomically_def by (rule steady_writing) (auto simp: stableD split: if_splits)

lemma steady_remove_dir_all [keeping]: "stable (names_of p) P \<Longrightarrow> ensures P P (remove_dir_all ss p) (\<lambda>_. P)"
  unfolding remove_dir_all_def
  by (rule steady_writing) (auto simp: removed_tree_def partly_removed_def stableD split: if_splits option.splits)

lemma steady_remove_file [keeping]: "stable (names_of p) P \<Longrightarrow> ensures P P (remove_file ss p) (\<lambda>_. P)"
  unfolding remove_file_def by (rule steady_writing) (auto simp: removed_file_def stableD split: if_splits option.splits)

lemma steady_rename [keeping]:
  "stable (names_of p) P \<Longrightarrow> stable (names_of q) P \<Longrightarrow> ensures P P (rename_path ss p q) (\<lambda>_. P)"
  unfolding rename_path_def
  by (rule steady_writing) (auto simp: renamed_def stableD Let_def split: if_splits option.splits)

lemma steady_sync [keeping]: "ensures P P (sync_directory ss p) (\<lambda>_. P)" "ensures P P (restrict_path ss p) (\<lambda>_. P)"
  unfolding sync_directory_def restrict_path_def by (rule steady_look, rule observes_reading)+

lemma steady_then: "ensures P P m (\<lambda>_. P) \<Longrightarrow> ensures P P k (\<lambda>_. P) \<Longrightarrow> ensures P P (step_then m k) (\<lambda>_. P)"
  by (rule ensures_then)

lemma steady_if: "ensures P P m (\<lambda>_. P) \<Longrightarrow> ensures P P k (\<lambda>_. P) \<Longrightarrow> ensures P P (if c then m else k) (\<lambda>_. P)"
  by simp

lemma steady_ok [keeping]: "ensures P P (step_ok a) (\<lambda>_. P)"
  by (rule ensures_ok)

lemma steady_write_synced [keeping]: "stable (names_of p) P \<Longrightarrow> ensures P P (write_synced ss p bytes) (\<lambda>_. P)"
  unfolding write_synced_def by (intro steady_then keeping)

lemma steady_each: "(\<And>x. x \<in> set xs \<Longrightarrow> ensures P P (f x) (\<lambda>_. P)) \<Longrightarrow> ensures P P (each f xs) (\<lambda>_. P)"
  unfolding ensures_def by (rule upholds_each)

lemma plain_skill_names [simp]:
  "plain_name ''CONFIGURATION.md''" "plain_name ''MUTATIONS.md''" "plain_name ''QUERYING.md''" "plain_name ''SKILL.md''"
  "plain_name marker_name" "plain_name ''lspctl''" "plain_name lock_name" "plain_name ''.agent''" "plain_name ''skills''"
  by (simp_all add: plain_name_def marker_name_def lock_name_def)

lemma steady_write_skill [keeping]:
  assumes "list_all plain_name p" "stable p P"
  shows "ensures P P (write_embedded_skill cr ss (raw_text p) digest) (\<lambda>_. P)"
proof -
  have "ensures P P (write_synced ss (raw_join (raw_text p) x) bytes) (\<lambda>_. P)" if "plain_name x" for x bytes
    using assms that by (intro keeping) (auto intro: stable_below)
  then show ?thesis
    unfolding write_embedded_skill_def
    by (intro steady_then steady_each steady_sync) (auto simp: skill_files_def)
qed

lemma steady_verify [keeping]: "ensures P P (verify_embedded_installation cr ss p digest) (\<lambda>_. P)"
  by (rule steady_look, rule observes_verify)

lemma ensures_failing: "ensures E P m Q \<Longrightarrow> ensures E P (failing p m) Q"
  "ensures E P m Q \<Longrightarrow> ensures E P (or_else_failing p f m) Q"
  unfolding failing_def or_else_failing_def ensures_iff fails_at_def step_err_def step_panic_def
  by (fastforce split: option.splits sum.splits)+

lemma ensures_fails: "(\<And>n. P n \<Longrightarrow> E n) \<Longrightarrow> ensures E P (fails_at p f) Q"
  by (simp add: fails_at_def ensures_err ensures_panic)

lemma ensures_succeeds: "ensures E P m Q \<Longrightarrow> ensures X P (succeeds m) (\<lambda>ok n. if ok then \<exists>a. Q a n else E n)"
  unfolding ensures_iff succeeds_def by (fastforce split: option.splits sum.splits)

lemma ensures_require: "(\<And>n. P n \<Longrightarrow> c \<Longrightarrow> Q () n) \<Longrightarrow> (\<And>n. P n \<Longrightarrow> E n) \<Longrightarrow> ensures E P (require c e) Q"
  unfolding ensures_def by (rule upholds_require) auto

end
