(* ===== verification/Skill_Laws.thy ===== *)
theory Skill_Laws
  imports Skill_Inspect_Laws Canonical_Value
begin

text \<open>
  What an installation does to the tree: an installation that was there before is kept, at the
  destination or put aside, until the new one is in place and its replacement is consented to; no other
  file is touched; and an installation that succeeds leaves the packaged files.
\<close>

section \<open>The entries of an installation\<close>

definition stage_name :: "string \<Rightarrow> string" where
  "stage_name i = stage_prefix @ i"

definition backup_name :: "string \<Rightarrow> string" where
  "backup_name i = backup_prefix @ stage_prefix @ i"

definition journal_name :: "string \<Rightarrow> string" where
  "journal_name i = journal_prefix @ i @ ''.json''"

lemmas entry_defs = stage_name_def backup_name_def journal_name_def stage_prefix_def backup_prefix_def
  journal_prefix_def lock_name_def

definition hex_id :: "string \<Rightarrow> bool" where
  "hex_id i \<longleftrightarrow> length i = 32 \<and> list_all lower_hex i"

lemma hex_plain: "hex_id i \<Longrightarrow> CHR ''/'' \<notin> set i"
  by (auto simp: hex_id_def list_all_iff lower_hex_def ascii_digit_def)

lemma plain_entries [simp]:
  "hex_id i \<Longrightarrow> plain_name (stage_name i)" "hex_id i \<Longrightarrow> plain_name (backup_name i)" "hex_id i \<Longrightarrow> plain_name (journal_name i)"
  using hex_plain [of i] by (auto simp: plain_name_def entry_defs)

text \<open>Where an installation may stand: the destination, and the names predecessors are put aside at.\<close>

definition kept_entry :: "string \<Rightarrow> bool" where
  "kept_entry x \<longleftrightarrow> x = ''lspctl'' \<or> prefix backup_prefix x"

definition own_entry :: "string \<Rightarrow> bool" where
  "own_entry x \<longleftrightarrow> x = ''lspctl'' \<or> prefix ''.lspctl-'' x"

lemma entry_facts [simp]:
  "kept_entry ''lspctl''" "kept_entry (backup_name i)" "\<not> kept_entry (stage_name i)" "\<not> kept_entry (journal_name i)"
  "\<not> kept_entry lock_name" "own_entry ''lspctl''" "own_entry (backup_name i)" "own_entry (stage_name i)"
  "own_entry (journal_name i)" "own_entry lock_name" "\<not> prefix backup_prefix (stage_name i)"
  "\<not> prefix backup_prefix (journal_name i)" "stage_name i \<noteq> ''lspctl''" "journal_name i \<noteq> ''lspctl''" "backup_name i \<noteq> ''lspctl''" "\<not> prefix backup_prefix ''lspctl''"
  by (auto simp: kept_entry_def own_entry_def entry_defs)

text \<open>Replacing an installation is consented to, or it is an older one of ours.\<close>

definition consented :: "('v::linorder) skill_crates \<Rightarrow> bool \<Rightarrow> file_node \<Rightarrow> bool" where
  "consented cr replace d \<longleftrightarrow> replace \<or> (\<exists>current e. sc_parse_version cr package_version = Some current
     \<and> installation_of cr d = Inr e \<and> older_managed cr current e)"

definition holds_embedded :: "'v skill_crates \<Rightarrow> string list \<Rightarrow> file_node \<Rightarrow> bool" where
  "holds_embedded cr p n \<longleftrightarrow> (\<exists>m. find_node n p = Some m \<and> embedded cr (embedded_digest cr) m)"

definition predecessors_kept :: "('v::linorder) skill_crates \<Rightarrow> bool \<Rightarrow> string list \<Rightarrow> file_node \<Rightarrow> file_node \<Rightarrow> bool" where
  "predecessors_kept cr replace par n0 n \<longleftrightarrow> (\<forall>x d. kept_entry x \<and> find_node n0 (par @ [x]) = Some d \<longrightarrow>
     find_node n (par @ [x]) = Some d
     \<or> consented cr replace d \<and> ((\<exists>y. find_node n (par @ [y]) = Some d) \<or> holds_embedded cr (par @ [''lspctl'']) n))"

definition elsewhere_unchanged :: "string list \<Rightarrow> file_node \<Rightarrow> file_node \<Rightarrow> bool" where
  "elsewhere_unchanged par n0 n \<longleftrightarrow>
     (\<forall>q. (\<forall>x. own_entry x \<longrightarrow> \<not> prefix (par @ [x]) q) \<longrightarrow> file_at n q = file_at n0 q)"

lemma entries_apart [simp]:
  "''lspctl'' \<noteq> backup_name i" "''lspctl'' \<noteq> stage_name i" "''lspctl'' \<noteq> journal_name i"
  by (simp_all add: entry_defs)

section \<open>What a change at an entry keeps\<close>

lemma sibling_prefix [simp]: "prefix (par @ [x]) (par @ [y]) \<longleftrightarrow> x = y" "prefix (par @ x # q) (par @ [y]) \<longleftrightarrow> x = y \<and> q = []"
  "prefix (par @ [y]) (par @ x # q) \<longleftrightarrow> x = y"
  by auto

lemma find_sibling: "x \<noteq> y \<Longrightarrow> find_node (put_node (par @ x # q) m n) (par @ [y]) = find_node n (par @ [y])"
  by (rule find_put_other) auto

lemma stable_entry: "x \<noteq> y \<Longrightarrow> stable (par @ [x]) (\<lambda>n. R (find_node n (par @ [y])))"
  by (simp add: stable_def find_sibling)

lemma stable_holds: "x \<noteq> ''lspctl'' \<Longrightarrow> stable (par @ [x]) (holds_embedded cr (par @ [''lspctl'']))"
  unfolding holds_embedded_def by (rule stable_entry [where R = "\<lambda>z. \<exists>m. z = Some m \<and> embedded cr (embedded_digest cr) m"])

lemma stable_elsewhere: "own_entry x \<Longrightarrow> stable (par @ [x]) (elsewhere_unchanged par n0)"
  unfolding stable_def elsewhere_unchanged_def
  by (metis file_at_put append_assoc prefix_order.trans prefixI)

section \<open>Journals name only entries of their directory\<close>

lemma strip_prefix_Some: "strip_prefix s p = Some t \<longleftrightarrow> s = p @ t"
  by (auto simp: strip_prefix_def) (metis append_take_drop_id)

lemma strip_suffix_Some: "strip_suffix s e = Some t \<longleftrightarrow> s = t @ e"
  by (auto simp: strip_suffix_def) (metis append_take_drop_id)

lemma journal_id_Some: "journal_id path = Some i \<Longrightarrow> hex_id i"
  by (auto simp: journal_id_def hex_id_def split: if_splits Option.bind_splits)

lemma validated_journal:
  assumes "validate_journal cr path (raw_text (par @ [''lspctl''])) j" "list_all plain_name par"
  obtains i where "hex_id i" "path = raw_text (par @ [journal_name i])"
    "ij_destination j = raw_text (par @ [''lspctl''])" "ij_stage j = raw_text (par @ [stage_name i])"
    "ij_backup j = raw_text (par @ [backup_name i])"
proof -
  obtain i where i: "journal_id path = Some i"
    using assms by (auto simp: validate_journal_def split: option.splits)
  note hex = journal_id_Some [OF i]
  show thesis
  proof (rule that [OF hex])
    show "path = raw_text (par @ [journal_name i])"
      "ij_destination j = raw_text (par @ [''lspctl''])" "ij_stage j = raw_text (par @ [stage_name i])"
      "ij_backup j = raw_text (par @ [backup_name i])"
      using assms i plain_entries [OF hex]
      by (simp_all add: validate_journal_def same_installation_path_def stage_name_def backup_name_def journal_name_def)
  qed
qed

section \<open>Finishing a journal\<close>

lemma seen_Inr:
  "seen_installation cr p n = Inr e \<Longrightarrow>
     (case find_node n p of None \<Rightarrow> \<not> ei_exists e | Some d \<Rightarrow> installation_of cr d = Inr e \<and> ei_exists e)"
  by (auto simp: seen_installation_def looked_up_def no_installation_def installation_of_def
      split: option.splits sum.splits io_error.splits file_node.splits)

definition entries_same :: "string list \<Rightarrow> file_node \<Rightarrow> file_node \<Rightarrow> bool" where
  "entries_same par n0 n \<longleftrightarrow>
     (\<forall>x. kept_entry x \<longrightarrow> find_node n (par @ [x]) = find_node n0 (par @ [x])) \<and> elsewhere_unchanged par n0 n"

definition left_safe :: "('v::linorder) skill_crates \<Rightarrow> bool \<Rightarrow> string list \<Rightarrow> file_node \<Rightarrow> file_node \<Rightarrow> bool" where
  "left_safe cr replace par n0 n \<longleftrightarrow> predecessors_kept cr replace par n0 n \<and> elsewhere_unchanged par n0 n"

text \<open>The old installation is put aside at \<open>bk\<close>, and the new one is in place.\<close>

definition put_aside :: "string list \<Rightarrow> string \<Rightarrow> bool \<Rightarrow> file_node \<Rightarrow> file_node \<Rightarrow> bool" where
  "put_aside par bk moved n0 n \<longleftrightarrow> (\<forall>x. prefix backup_prefix x \<longrightarrow>
       find_node n (par @ [x]) = find_node n0 (par @ [if x = bk \<and> moved then ''lspctl'' else x]))
     \<and> elsewhere_unchanged par n0 n"

definition in_place :: "('v::linorder) skill_crates \<Rightarrow> bool \<Rightarrow> string list \<Rightarrow> string \<Rightarrow> file_node \<Rightarrow> file_node \<Rightarrow> bool" where
  "in_place cr replace par bk n0 n \<longleftrightarrow>
     (\<forall>x. prefix backup_prefix x \<and> x \<noteq> bk \<longrightarrow> find_node n (par @ [x]) = find_node n0 (par @ [x]))
     \<and> elsewhere_unchanged par n0 n \<and> holds_embedded cr (par @ [''lspctl'']) n
     \<and> (\<forall>d. find_node n0 (par @ [''lspctl'']) = Some d \<longrightarrow>
          find_node n (par @ [''lspctl'']) = Some d \<or> consented cr replace d)"

lemma same_is_safe: "entries_same par n0 n \<Longrightarrow> left_safe cr replace par n0 n"
  by (auto simp: entries_same_def left_safe_def predecessors_kept_def)

lemma put_aside_is_safe:
  assumes "put_aside par bk moved n0 n" "prefix backup_prefix bk"
    "\<And>d. find_node n0 (par @ [''lspctl'']) = Some d \<Longrightarrow> consented cr replace d \<and> moved"
    "moved \<Longrightarrow> find_node n0 (par @ [bk]) = None"
  shows "left_safe cr replace par n0 n"
  unfolding left_safe_def predecessors_kept_def
proof (intro conjI allI impI)
  fix x d assume x: "kept_entry x \<and> find_node n0 (par @ [x]) = Some d"
  show "find_node n (par @ [x]) = Some d \<or> consented cr replace d
      \<and> ((\<exists>y. find_node n (par @ [y]) = Some d) \<or> holds_embedded cr (par @ [''lspctl'']) n)"
  proof (cases "x = ''lspctl''")
    case True
    then have "find_node n (par @ [bk]) = Some d" "consented cr replace d"
      using assms(1,2,3) x by (auto simp: put_aside_def)
    then show ?thesis by blast
  next
    case False
    then have "prefix backup_prefix x" using x by (simp add: kept_entry_def)
    moreover have "\<not> (x = bk \<and> moved)" using assms(4) x by auto
    ultimately show ?thesis using assms(1) x by (auto simp: put_aside_def)
  qed
qed (use assms(1) in \<open>simp add: put_aside_def\<close>)

lemma in_place_is_safe:
  assumes "in_place cr replace par bk n0 n"
    "\<And>b. find_node n0 (par @ [bk]) = Some b \<Longrightarrow> consented cr replace b"
  shows "left_safe cr replace par n0 n"
  using assms unfolding in_place_def left_safe_def predecessors_kept_def kept_entry_def by metis

lemma stable_same: "\<not> kept_entry x \<Longrightarrow> own_entry x \<Longrightarrow> stable (par @ [x]) (entries_same par n0)"
  using stable_elsewhere [of x par n0] unfolding entries_same_def stable_def by (metis append.assoc append_Cons append_Nil find_sibling)

lemma stable_aside:
  "\<not> prefix backup_prefix x \<Longrightarrow> own_entry x \<Longrightarrow> stable (par @ [x]) (put_aside par bk moved n0)"
  using stable_elsewhere [of x par n0] unfolding put_aside_def stable_def by (metis append.assoc append_Cons append_Nil find_sibling)

lemma stable_in_place:
  assumes "own_entry x" "x \<noteq> ''lspctl''" "prefix backup_prefix x \<Longrightarrow> x = bk"
  shows "stable (par @ [x]) (in_place cr replace par bk n0)"
  using stable_elsewhere [OF assms(1), of par n0] stable_holds [OF assms(2), of par cr] assms
  unfolding in_place_def stable_def by (metis append.assoc append_Cons append_Nil find_sibling)

lemma put_aside_rename:
  assumes "entries_same par n0 n" "prefix backup_prefix bk" "bk \<noteq> ''lspctl''" "own_entry bk"
    "renamed (par @ [''lspctl'']) (par @ [bk]) n = Inr n'"
  shows "put_aside par bk True n0 n'"
proof -
  let ?dest = "par @ [''lspctl'']"
  obtain m where m: "find_node n ?dest = Some m"
    using assms(5) by (auto simp: renamed_def split: option.splits)
  have n': "n' = put_node (par @ [bk]) (Some m) (put_node ?dest None n)"
    using assms(3,5) m by (auto simp: renamed_def split: if_splits)
  have dir: "is_dir_at (put_node ?dest None n) par"
    using find_Some_dir [OF m] by (simp add: dir_at_put_above)
  have "elsewhere_unchanged par n0 n'"
    using assms(1,4) stable_elsewhere [of bk par n0] stable_elsewhere [of "''lspctl''" par n0]
    unfolding n' entries_same_def by (simp add: stableD)
  moreover have "find_node n' (par @ [bk]) = find_node n0 ?dest"
    unfolding n' using dir m assms(1) by (simp add: find_put_same entries_same_def)
  moreover have "find_node n' (par @ [x]) = find_node n0 (par @ [x])" if "prefix backup_prefix x" "x \<noteq> bk" for x
  proof -
    have "x \<noteq> ''lspctl''" using that(1) by auto
    then have "find_node n' (par @ [x]) = find_node n (par @ [x])" unfolding n' using that(2) by (simp add: find_sibling)
    then show ?thesis using assms(1) that(1) by (simp add: entries_same_def kept_entry_def)
  qed
  ultimately show ?thesis by (simp add: put_aside_def)
qed

section \<open>Moving the new files into place\<close>

lemma move_into_place_safe:
  fixes par i n0
  defines "bk \<equiv> backup_name i" and "dest \<equiv> par @ [''lspctl'']"
  assumes j: "hex_id i" "list_all plain_name par" "ij_destination j = raw_text dest"
      "ij_stage j = raw_text (par @ [stage_name i])" "ij_backup j = raw_text (par @ [bk])"
      "ij_digest j = embedded_digest cr"
    and moved: "ei_exists existing \<longleftrightarrow> find_node n0 dest \<noteq> None"
    and free: "ei_exists existing \<Longrightarrow> find_node n0 (par @ [bk]) = None"
    and consent: "\<And>d. find_node n0 dest = Some d \<Longrightarrow> consented cr replace d"
  shows "ensures (left_safe cr replace par n0) (entries_same par n0) (move_into_place cr ss (raw_text par) j staged existing)
    (\<lambda>_. in_place cr replace par bk n0)"
proof -
  let ?E = "left_safe cr replace par n0" and ?S = "entries_same par n0"
  let ?M = "put_aside par bk (ei_exists existing) n0"
  have bk: "prefix backup_prefix bk" "bk \<noteq> ''lspctl''" "own_entry bk"
    unfolding bk_def by simp_all (simp add: backup_name_def)
  have MtoE: "?E n" if "?M n" for n
  proof (rule put_aside_is_safe [OF that])
    show "consented cr replace d \<and> ei_exists existing" if "find_node n0 (par @ [''lspctl'']) = Some d" for d
      using consent [of d] moved that by (simp add: dest_def)
  qed (use free bk in simp_all)
  have names: "names_of (ij_stage j) = par @ [stage_name i]" "names_of (ij_destination j) = dest" "names_of (ij_backup j) = par @ [bk]"
    using j plain_entries [OF j(1)] by (simp_all add: dest_def bk_def)
  have stage: "ensures ?E ?S (if staged then step_ok () else
       step_then (create_dir ss (ij_stage j))
       (step_then (restrict_path ss (ij_stage j))
       (step_then (write_embedded_skill cr ss (ij_stage j) (ij_digest j))
         (verify_embedded_installation cr ss (ij_stage j) (ij_digest j))))) (\<lambda>_. ?S)" (is "ensures _ _ ?m _")
  proof -
    have st: "stable (par @ [stage_name i]) ?S" by (rule stable_same) simp_all
    then have "ensures ?S ?S (write_embedded_skill cr ss (ij_stage j) (ij_digest j)) (\<lambda>_. ?S)"
      unfolding j(4) using j(1,2) by (intro steady_write_skill) simp_all
    with st names(1) have "ensures ?S ?S ?m (\<lambda>_. ?S)" by (auto intro!: steady_then keeping)
    then show ?thesis by (rule ensures_mono) (auto intro: same_is_safe)
  qed
  have aside: "ensures ?E ?S (if ei_exists existing
      then step_then (rename_path ss (ij_destination j) (ij_backup j)) (sync_directory ss (raw_text par))
      else step_ok ()) (\<lambda>_. ?M)"
  proof (cases "ei_exists existing")
    case True
    have "ensures ?E ?S (rename_path ss (ij_destination j) (ij_backup j)) (\<lambda>_. ?M)"
      unfolding rename_path_def names dest_def
      by (rule ensures_writing)
        (use True in \<open>auto intro: same_is_safe put_aside_rename [OF _ bk]\<close>)
    moreover have "ensures ?E ?M (sync_directory ss (raw_text par)) (\<lambda>_. ?M)"
      by (rule ensures_mono [OF steady_sync(1) [where P = ?M]]) (auto intro: MtoE)
    ultimately have "ensures ?E ?S (step_then (rename_path ss (ij_destination j) (ij_backup j))
        (sync_directory ss (raw_text par))) (\<lambda>_. ?M)"
      by (rule ensures_then)
    with True show ?thesis by simp
  next
    case False
    then have "?S n \<Longrightarrow> ?M n" for n
      by (auto simp: entries_same_def put_aside_def kept_entry_def)
    with False show ?thesis by (simp add: ensures_ok)
  qed
  have place: "ensures ?E ?M (rename_path ss (ij_stage j) (ij_destination j)) (\<lambda>_. ?M)"
  proof -
    have "stable (par @ [stage_name i]) ?M" "stable dest ?M"
      unfolding dest_def by (simp_all add: stable_aside)
    then have "ensures ?M ?M (rename_path ss (ij_stage j) (ij_destination j)) (\<lambda>_. ?M)"
      by (intro keeping) (simp_all add: names)
    then show ?thesis by (rule ensures_mono) (auto intro: MtoE)
  qed
  have synced: "ensures ?E ?M (sync_directory ss (raw_text par)) (\<lambda>_. ?M)"
    by (rule ensures_mono [OF steady_sync(1) [where P = ?M]]) (auto intro: MtoE)
  have verify: "ensures ?E ?M (verify_embedded_installation cr ss (ij_destination j) (ij_digest j)) (\<lambda>_. in_place cr replace par bk n0)"
  proof (rule ensures_mono [OF ensures_observes [OF observes_verify, where P = ?M]])
    fix a n assume "?M n \<and> verified cr (ij_digest j) (names_of (ij_destination j)) n = Inr a"
    then have "?M n" "holds_embedded cr dest n" by (simp_all add: names j(6) verified_Inr holds_embedded_def)
    with consent show "in_place cr replace par bk n0 n" by (auto simp: in_place_def put_aside_def dest_def)
  qed (auto intro: MtoE)
  show ?thesis
    unfolding move_into_place_def
    by (rule ensures_then [OF stage ensures_then [OF aside ensures_then [OF place ensures_then [OF synced verify]]]])
qed

lemma ensures_outcome:
  "ensures E P (require_outcome p (replacement_outcome cr e replace))
     (\<lambda>_ n. P n \<and> (ei_exists e \<longrightarrow> replace \<or> (\<exists>current. sc_parse_version cr package_version = Some current \<and> older_managed cr current e)))"
  if "\<And>n. P n \<Longrightarrow> E n"
  using that unfolding require_outcome_def replacement_outcome_def ensures_iff step_panic_def step_ok_def fails_at_def step_err_def
  by (auto split: option.splits sum.splits if_splits)

lemma ensures_replaceable:
  assumes "\<And>n. P n \<Longrightarrow> E n"
  shows "ensures E P (require_replaceable cr j replace existing aside)
    (\<lambda>_ n. P n \<and> \<not> (ei_exists existing \<and> ei_exists aside)
      \<and> (ei_exists existing \<longrightarrow> replace \<or> (\<exists>current. sc_parse_version cr package_version = Some current \<and> older_managed cr current existing)))"
proof (cases "ei_exists existing \<and> ei_exists aside")
  case True
  then show ?thesis by (simp add: require_replaceable_def ensures_fails assms)
next
  case False
  then show ?thesis
    unfolding require_replaceable_def
    by (simp del: de_Morgan_conj) (rule ensures_then [OF ensures_outcome ensures_ok], use assms in auto)
qed

lemma ensures_predecessor:
  assumes "\<And>n. P n \<Longrightarrow> E n"
  shows "ensures E P (require_predecessor cr j replace aside)
    (\<lambda>_ n. P n \<and> (ei_exists aside \<longrightarrow> replace \<or> (\<exists>current. sc_parse_version cr package_version = Some current \<and> older_managed cr current aside)))"
  using assms
  unfolding require_predecessor_def replacement_outcome_def recognized_predecessor_def ensures_iff step_panic_def step_ok_def fails_at_def step_err_def
  by (auto split: option.splits sum.splits if_splits)

lemma ensures_staged:
  assumes "\<And>n. P n \<Longrightarrow> E n"
  shows "ensures E P (require_staged cr ss j) (\<lambda>_. P)"
proof -
  have "ensures P P (require_staged cr ss j) (\<lambda>_. P)"
    unfolding require_staged_def
    by (rule ensures_bind [OF ensures_failing(1) [OF steady_look [OF observes_inspection]]])
      (auto intro!: steady_then keeping ensures_failing)
  then show ?thesis by (rule ensures_mono) (use assms in auto)
qed

lemma ensures_inspect:
  assumes "\<And>n. P n \<Longrightarrow> E n" "list_all plain_name p"
  shows "ensures E P (failing x (inspect_installation cr ss (raw_text p)))
    (\<lambda>e n. P n \<and> (case find_node n p of None \<Rightarrow> \<not> ei_exists e | Some d \<Rightarrow> installation_of cr d = Inr e \<and> ei_exists e))"
  by (rule ensures_failing(1), rule ensures_mono [OF ensures_observes [OF observes_inspection, where P = P and E = E]])
    (use assms seen_Inr in auto)

lemma finish_journal_safe:
  assumes "validate_journal cr path (raw_text (par @ [''lspctl''])) j" "list_all plain_name par"
  shows "ensures (left_safe cr replace par n0) (entries_same par n0) (finish_journal cr ss path j replace)
    (\<lambda>_ n. left_safe cr replace par n0 n \<and> holds_embedded cr (par @ [''lspctl'']) n)"
proof -
  obtain i where i: "hex_id i" "path = raw_text (par @ [journal_name i])"
    "ij_destination j = raw_text (par @ [''lspctl''])" "ij_stage j = raw_text (par @ [stage_name i])"
    "ij_backup j = raw_text (par @ [backup_name i])"
    using validated_journal [OF assms] .
  let ?bk = "backup_name i" and ?dest = "par @ [''lspctl'']"
  let ?E = "left_safe cr replace par n0" and ?S = "entries_same par n0" and ?I = "in_place cr replace par ?bk n0"
  let ?old = "\<lambda>e. replace \<or> (\<exists>current. sc_parse_version cr package_version = Some current \<and> older_managed cr current e)"
  let ?seen = "\<lambda>p e. case find_node n0 p of None \<Rightarrow> \<not> ei_exists e | Some d \<Rightarrow> installation_of cr d = Inr e \<and> ei_exists e"
  have SE: "?S n \<Longrightarrow> ?E n" for n by (rule same_is_safe)
  have plain: "list_all plain_name ?dest" "list_all plain_name (par @ [?bk])" using assms(2) i(1) by simp_all
  have inspect: "ensures ?E (\<lambda>n. ?S n \<and> c) (failing (ij_destination j) (inspect_installation cr ss (raw_text (par @ [x]))))
      (\<lambda>e n. ?S n \<and> c \<and> ?seen (par @ [x]) e)" if "kept_entry x" "plain_name x" for x c
    by (rule ensures_mono [OF ensures_inspect [where P = "\<lambda>n. ?S n \<and> c" and E = ?E and p = "par @ [x]"]])
      (use that assms(2) in \<open>auto intro: SE simp: entries_same_def\<close>)
  have installed: "ensures ?E (\<lambda>n. ?S n \<and> c) (failing (ij_destination j)
        (succeeds (verify_embedded_installation cr ss (ij_destination j) (ij_digest j))))
      (\<lambda>b n. ?S n \<and> c \<and> (b \<longrightarrow> holds_embedded cr ?dest n))" if "ij_digest j = embedded_digest cr" for c
    by (rule ensures_failing(1), rule ensures_mono [OF ensures_succeeds [OF ensures_observes [OF observes_verify,
          where P = "\<lambda>n. ?S n \<and> c" and E = "\<lambda>n. ?S n \<and> c"], where X = ?E]])
      (use that i(3) plain in \<open>auto intro: SE simp: verified_Inr holds_embedded_def split: if_splits\<close>)
  have rest: "ensures ?E (\<lambda>n. ?S n \<and> (?seen ?dest existing \<and> ?seen (par @ [?bk]) aside) \<and> (installed \<longrightarrow> holds_embedded cr ?dest n))
     (step_then (if installed then step_ok () else require_replaceable cr j replace existing aside)
          (step_then (require_predecessor cr j replace aside)
          (step_then (if installed then step_ok ()
             else failing (ij_destination j) (move_into_place cr ss (raw_text par) j staged existing))
          (failing (ij_destination j) (clean_up ss (raw_text par) path j
             (ei_exists aside \<or> \<not> installed \<and> ei_exists existing) (installed \<and> staged))))))
     (\<lambda>_ n. ?E n \<and> holds_embedded cr ?dest n)"
    (is "ensures _ (\<lambda>n. ?S n \<and> ?seen2 \<and> ?inst n) _ _")
    if digest: "ij_digest j = embedded_digest cr" for existing aside installed staged
  proof -
    let ?free = "\<not> installed \<longrightarrow> \<not> (ei_exists existing \<and> ei_exists aside) \<and> (ei_exists existing \<longrightarrow> ?old existing)"
    let ?pred = "ei_exists aside \<longrightarrow> ?old aside"
    let ?P = "\<lambda>n. ?S n \<and> ?seen2 \<and> ?inst n"
    have PE: "?P n \<Longrightarrow> ?E n" for n using SE by blast
    have first: "ensures ?E ?P (if installed then step_ok () else require_replaceable cr j replace existing aside)
        (\<lambda>_ n. ?P n \<and> ?free)"
    proof (cases installed)
      case True
      then show ?thesis by (simp add: ensures_ok)
    next
      case False
      then show ?thesis
        by (simp, intro ensures_mono [OF ensures_replaceable [where P = ?P and E = ?E]]) (use PE False in auto)
    qed
    have second: "ensures ?E (\<lambda>n. ?P n \<and> ?free) (require_predecessor cr j replace aside) (\<lambda>_ n. ?S n \<and> ?inst n \<and> (?seen2 \<and> ?free \<and> ?pred))"
      by (rule ensures_mono [OF ensures_predecessor [where P = "\<lambda>n. ?P n \<and> ?free" and E = ?E]]) (use PE in auto)
    have third: "ensures ?E (\<lambda>n. ?S n \<and> ?inst n \<and> (?seen2 \<and> ?free \<and> ?pred))
        (if installed then step_ok () else failing (ij_destination j) (move_into_place cr ss (raw_text par) j staged existing))
        (\<lambda>_ n. ?I n \<and> (?seen2 \<and> ?pred))"
    proof (cases installed)
      case True
      have "?S n \<Longrightarrow> ?inst n \<Longrightarrow> ?I n" for n
        using True by (auto simp: entries_same_def in_place_def kept_entry_def)
      with True show ?thesis by (auto intro!: ensures_ok)
    next
      case False
      have mv: "ensures ?E ?S (move_into_place cr ss (raw_text par) j staged existing) (\<lambda>_. ?I)" if "?seen2 \<and> ?free"
        by (rule move_into_place_safe [OF i(1) assms(2) i(3,4,5) digest])
          (use that False in \<open>auto simp: consented_def split: option.splits\<close>)
      have "ensures ?E (\<lambda>n. ?S n \<and> (?seen2 \<and> ?free \<and> ?pred)) (move_into_place cr ss (raw_text par) j staged existing)
          (\<lambda>_ n. ?I n \<and> (?seen2 \<and> ?pred))"
      proof (rule ensures_pre)
        assume facts: "?seen2 \<and> ?free \<and> ?pred"
        show "ensures ?E ?S (move_into_place cr ss (raw_text par) j staged existing) (\<lambda>_ n. ?I n \<and> (?seen2 \<and> ?pred))"
          by (rule ensures_mono [OF mv]) (use facts in \<open>blast+\<close>)
      qed
      then have "ensures ?E (\<lambda>n. ?S n \<and> (?seen2 \<and> ?free \<and> ?pred))
          (failing (ij_destination j) (move_into_place cr ss (raw_text par) j staged existing)) (\<lambda>_ n. ?I n \<and> (?seen2 \<and> ?pred))"
        by (rule ensures_failing)
      then have "ensures ?E (\<lambda>n. ?S n \<and> ?inst n \<and> (?seen2 \<and> ?free \<and> ?pred))
          (failing (ij_destination j) (move_into_place cr ss (raw_text par) j staged existing)) (\<lambda>_ n. ?I n \<and> (?seen2 \<and> ?pred))"
        by (rule ensures_mono) blast+
      with False show ?thesis by (simp only: if_False)
    qed
    have consent: "consented cr replace b" if "?seen2 \<and> ?pred" "find_node n0 (par @ [?bk]) = Some b" for b
      using that by (auto simp: consented_def)
    have fourth: "ensures ?E (\<lambda>n. ?I n \<and> (?seen2 \<and> ?pred)) (failing (ij_destination j) (clean_up ss (raw_text par) path j
             (ei_exists aside \<or> \<not> installed \<and> ei_exists existing) (installed \<and> staged)))
        (\<lambda>_ n. ?E n \<and> holds_embedded cr ?dest n)"
    proof (intro ensures_pre ensures_failing)
      assume facts: "?seen2 \<and> ?pred"
      have st: "stable (par @ [x]) ?I" if "x \<in> {?bk, stage_name i, journal_name i}" for x
        by (rule stable_in_place) (use that in auto)
      have IE: "?E n \<and> holds_embedded cr ?dest n" if "?I n" for n
        using in_place_is_safe [OF that consent [OF facts]] that by (simp add: in_place_def)
      have "ensures ?I ?I (clean_up ss (raw_text par) path j
             (ei_exists aside \<or> \<not> installed \<and> ei_exists existing) (installed \<and> staged)) (\<lambda>_. ?I)"
        unfolding clean_up_def
        by (intro steady_then steady_if steady_ok steady_sync steady_remove_dir_all steady_remove_file)
          (use assms(2) i st in simp_all)
      then show "ensures ?E ?I (clean_up ss (raw_text par) path j
             (ei_exists aside \<or> \<not> installed \<and> ei_exists existing) (installed \<and> staged))
          (\<lambda>_ n. ?E n \<and> holds_embedded cr ?dest n)"
        by (rule ensures_mono) (use IE in auto)
    qed
    show ?thesis by (rule ensures_then [OF first ensures_then [OF second ensures_then [OF third fourth]]])
  qed
  show ?thesis
  proof (cases "ij_digest j = embedded_digest cr")
    case False
    then show ?thesis
      using assms(2) i(1) by (simp add: finish_journal_def i(2) ensures_fails SE)
  next
    case True
    have "ensures ?E ?S (require_staged cr ss j) (\<lambda>_ n. ?S n \<and> True)"
      by (rule ensures_mono [OF ensures_staged [where P = ?S and E = ?E]]) (auto intro: SE)
    note start = this
    have parent: "raw_parent path = Some (raw_text par)" "raw_join (raw_text par) ''lspctl'' = raw_text ?dest"
      using assms(2) i(1,2) by simp_all
    have "finish_journal cr ss path j replace =
        step_bind (require_staged cr ss j) (\<lambda>staged.
          step_bind (failing (ij_destination j) (inspect_installation cr ss (raw_text ?dest))) (\<lambda>existing.
          step_bind (failing (ij_destination j) (inspect_installation cr ss (raw_text (par @ [?bk])))) (\<lambda>aside.
          step_bind (failing (ij_destination j)
            (succeeds (verify_embedded_installation cr ss (ij_destination j) (ij_digest j)))) (\<lambda>installed.
          step_then (if installed then step_ok () else require_replaceable cr j replace existing aside)
          (step_then (require_predecessor cr j replace aside)
          (step_then (if installed then step_ok ()
             else failing (ij_destination j) (move_into_place cr ss (raw_text par) j staged existing))
          (failing (ij_destination j) (clean_up ss (raw_text par) path j
             (ei_exists aside \<or> \<not> installed \<and> ei_exists existing) (installed \<and> staged)))))))))"
      by (simp add: finish_journal_def parent True i(3) [symmetric] i(5) [symmetric] assms(1) [folded i(3)])
    then show ?thesis
      by (simp only:) (rule ensures_bind [OF start ensures_bind [OF inspect ensures_bind [OF inspect
        ensures_bind [OF installed [OF True] ensures_mono [OF rest [OF True]]]]]], use i(1) in auto)
  qed
qed

section \<open>The whole installation\<close>

definition random_hex :: "skill_system \<Rightarrow> bool" where
  "random_hex ss \<longleftrightarrow> (\<forall>t i. ss_random ss t = Some i \<longrightarrow> hex_id i)"

lemma created_dir_same:
  assumes "created_dir p n = Inr n'" "prefix p par" "entries_same par n0 n"
  shows "entries_same par n0 n'"
proof -
  have n': "n' = put_node p (Some (DirN [])) n" "find_node n p = None" "is_dir_at n (butlast p)" "p \<noteq> []"
    using assms(1) by (auto simp: created_dir_def split: if_splits)
  have empty: "find_node (DirN []) r = (if r = [] then Some (DirN []) else None)" for r by (cases r) simp_all
  have below: "find_node n (p @ r) = None" "find_node n' (p @ r) = (if r = [] then Some (DirN []) else None)" for r
    unfolding n'(1) find_put_below [OF n'(4,3)] using n'(2) by (simp_all add: find_node_append empty)
  obtain r where r: "par = p @ r" using assms(2) by (auto simp: prefix_def)
  have "file_at n' q = file_at n q" for q
  proof (cases "prefix p q")
    case True
    then show ?thesis using below by (auto simp: prefix_def file_at_def)
  qed (simp add: n'(1) file_at_put)
  then show ?thesis
    using assms(3) below [of "r @ [_]"] by (simp add: entries_same_def elsewhere_unchanged_def r)
qed

lemma steady_safe_directory:
  assumes "prefix (names_of p) par"
  shows "ensures (entries_same par n0) (entries_same par n0) (safe_directory ss p) (\<lambda>_. entries_same par n0)"
proof -
  have create: "ensures (entries_same par n0) (entries_same par n0) (create_dir ss p) (\<lambda>_. entries_same par n0)"
    unfolding create_dir_def by (rule steady_writing) (use assms created_dir_same in auto)
  show ?thesis
    unfolding ensures_iff
  proof (intro allI impI)
    fix w :: skill_world assume w: "entries_same par n0 (sw_root w)"
    obtain t r where m: "symlink_metadata ss p w = Some ((w :: skill_world)\<lparr>sw_tick := t\<rparr>, r)"
      using observesE [OF observes_metadata] by blast
    show "case safe_directory ss p w of None \<Rightarrow> True
      | Some (w', Inl e) \<Rightarrow> entries_same par n0 (sw_root w')
      | Some (w', Inr a) \<Rightarrow> entries_same par n0 (sw_root w')"
      using w m create [unfolded ensures_iff, rule_format, of "w\<lparr>sw_tick := t\<rparr>"]
      by (auto simp: safe_directory_def split: sum.splits io_error.splits)
  qed
qed

lemma steady_reject [keeping]: "ensures P P (reject_unsafe_path ss p) (\<lambda>_. P)"
  unfolding ensures_iff
proof (intro allI impI)
  fix w :: skill_world assume w: "P (sw_root w)"
  obtain t r where m: "symlink_metadata ss p w = Some ((w :: skill_world)\<lparr>sw_tick := t\<rparr>, r)"
    using observesE [OF observes_metadata] by blast
  then show "case reject_unsafe_path ss p w of None \<Rightarrow> True | Some (w', Inl e) \<Rightarrow> P (sw_root w') | Some (w', Inr a) \<Rightarrow> P (sw_root w')"
    using w by (auto simp: reject_unsafe_path_def split: sum.splits io_error.splits)
qed

lemma steady_reading: "ensures P P (look_call ss f) (\<lambda>_. P)"
  by (rule steady_look [OF observes_reading])

lemma steady_bind: "ensures P P m (\<lambda>_. P) \<Longrightarrow> (\<And>a. ensures P P (k a) (\<lambda>_. P)) \<Longrightarrow> ensures P P (step_bind m k) (\<lambda>_. P)"
  by (rule ensures_bind)

lemma steady_journal_names: "ensures P P (journal_names ss es) (\<lambda>_. P)"
proof (induction ss es rule: journal_names.induct)
  case (2 ss name m es)
  have "ensures P P (succeeds (look_call ss (\<lambda>_. Inr ()))) (\<lambda>_. P)"
    by (rule ensures_mono [OF ensures_succeeds [OF steady_reading [where P = P], where X = P]]) (auto split: if_splits)
  with 2 show ?case by (auto intro!: steady_bind keeping)
qed (simp add: keeping)

lemma read_journal_validated:
  "ensures P P (read_journal cr ss dir destination selected)
     (\<lambda>found n. P n \<and> (case found of None \<Rightarrow> True | Some (path, j) \<Rightarrow> validate_journal cr path destination j))"
proof -
  have one: "ensures P P (case sc_read_journal cr bytes of
              None \<Rightarrow> fails_at destination skill_install_failure
            | Some j \<Rightarrow> (case rebased_journal cr dir path destination selected j of
                None \<Rightarrow> step_panic
              | Some (Inl f) \<Rightarrow> fails_at destination f
              | Some (Inr j) \<Rightarrow>
                  if validate_journal cr path destination j then step_ok (Some (path, j))
                  else fails_at destination skill_install_failure))
     (\<lambda>found n. P n \<and> (case found of None \<Rightarrow> True | Some (path, j) \<Rightarrow> validate_journal cr path destination j))"
    for bytes path
    by (auto intro: ensures_fails ensures_panic ensures_ok split: option.split sum.split)
  have found: "ensures P P (case names of
        [] \<Rightarrow> step_ok None
      | [name] \<Rightarrow>
          let path = raw_join dir name in
          step_then (failing destination (reject_unsafe_path ss path))
          (step_bind (failing destination (read_bytes ss path)) (\<lambda>bytes. (case sc_read_journal cr bytes of
              None \<Rightarrow> fails_at destination skill_install_failure
            | Some j \<Rightarrow> (case rebased_journal cr dir path destination selected j of
                None \<Rightarrow> step_panic
              | Some (Inl f) \<Rightarrow> fails_at destination f
              | Some (Inr j) \<Rightarrow>
                  if validate_journal cr path destination j then step_ok (Some (path, j))
                  else fails_at destination skill_install_failure))))
      | _ \<Rightarrow> fails_at destination skill_install_failure)
     (\<lambda>found n. P n \<and> (case found of None \<Rightarrow> True | Some (path, j) \<Rightarrow> validate_journal cr path destination j))"
    for names
    unfolding Let_def read_bytes_def
    by (auto intro!: ensures_fails ensures_ok ensures_then [OF ensures_failing(1) [OF steady_reject]]
        ensures_bind [OF ensures_failing(1) [OF steady_reading] one] split: list.split)
  show ?thesis
    unfolding read_journal_def read_dir_def
    by (rule ensures_bind [OF ensures_failing(1) [OF steady_reading]
          ensures_bind [OF ensures_failing(1) [OF steady_journal_names] found]])
qed

lemma steady_sibling:
  assumes "random_hex ss" "list_all plain_name par" "\<And>i. hex_id i \<Longrightarrow> stable (par @ [stage_name i]) P"
  shows "ensures P P (try_siblings ss (raw_text par) stage_prefix k)
    (\<lambda>p n. P n \<and> (\<exists>i. hex_id i \<and> p = raw_text (par @ [stage_name i])))"
proof (induction k)
  case (Suc k)
  have id: "ensures P P (random_id ss) (\<lambda>i n. P n \<and> hex_id i)"
    using assms(1) by (auto simp: ensures_iff random_id_def random_hex_def look_call_def system_call_def Let_def
        split: option.splits sum.splits)
  show ?case
  proof (simp only: try_siblings.simps, rule ensures_bind [OF id], rule ensures_pre)
    fix i assume i: "hex_id i"
    let ?p = "raw_text (par @ [stage_name i])"
    have p: "raw_join (raw_text par) (stage_prefix @ i) = ?p"
      using assms(2) plain_entries(1) [OF i] by (simp add: stage_name_def)
    have create: "ensures P P (create_dir ss ?p) (\<lambda>_. P)"
      using assms(2,3) i by (intro keeping) simp
    have made: "ensures P P (step_then (restrict_path ss ?p) (step_ok ?p))
        (\<lambda>p n. P n \<and> (\<exists>i. hex_id i \<and> p = raw_text (par @ [stage_name i])))"
      using i by (intro ensures_then [OF steady_sync(2)] ensures_ok) blast
    show "ensures P P (\<lambda>w. case create_dir ss (raw_join (raw_text par) (stage_prefix @ i)) w of
        None \<Rightarrow> None
      | Some (w', Inr _) \<Rightarrow> step_then (restrict_path ss (raw_join (raw_text par) (stage_prefix @ i)))
            (step_ok (raw_join (raw_text par) (stage_prefix @ i))) w'
      | Some (w', Inl IoAlreadyExists) \<Rightarrow> try_siblings ss (raw_text par) stage_prefix k w'
      | Some (w', Inl e) \<Rightarrow> Some (w', Inl e))
      (\<lambda>p n. P n \<and> (\<exists>i. hex_id i \<and> p = raw_text (par @ [stage_name i])))"
      unfolding p ensures_iff
    proof (intro allI impI)
      fix w :: skill_world assume w: "P (sw_root w)"
      from create w have c: "case create_dir ss ?p w of None \<Rightarrow> True | Some (w', Inl e) \<Rightarrow> P (sw_root w') | Some (w', Inr a) \<Rightarrow> P (sw_root w')"
        by (simp add: ensures_iff)
      show "case case create_dir ss ?p w of
          None \<Rightarrow> None
        | Some (w', Inr _) \<Rightarrow> step_then (restrict_path ss ?p) (step_ok ?p) w'
        | Some (w', Inl IoAlreadyExists) \<Rightarrow> try_siblings ss (raw_text par) stage_prefix k w'
        | Some (w', Inl e) \<Rightarrow> Some (w', Inl e) of
        None \<Rightarrow> True | Some (w', Inl e) \<Rightarrow> P (sw_root w')
        | Some (w', Inr p) \<Rightarrow> P (sw_root w') \<and> (\<exists>i. hex_id i \<and> p = raw_text (par @ [stage_name i]))"
      proof (cases "create_dir ss ?p w")
        case (Some z)
        obtain w' r where z: "z = (w', r)" by (cases z)
        have P: "P (sw_root w')" using c Some z by (cases r) auto
        show ?thesis
          using Some z P made [unfolded ensures_iff, rule_format, OF P] Suc [unfolded ensures_iff, rule_format, OF P]
          by (cases r; cases "projl r") auto
      qed simp
    qed
  qed
qed (simp add: ensures_err)

lemma steady_fill_stage:
  assumes "list_all plain_name p" "stable p P"
  shows "ensures P P (fill_stage cr ss (raw_text p) digest) (\<lambda>_. P)"
  unfolding ensures_iff
proof (intro allI impI)
  fix w :: skill_world assume w: "P (sw_root w)"
  let ?p = "raw_text p"
  have fill: "ensures P P (step_then (write_embedded_skill cr ss ?p digest) (verify_embedded_installation cr ss ?p digest)) (\<lambda>_. P)"
    using assms by (intro steady_then keeping)
  have "ensures P P (succeeds (remove_dir_all ss ?p)) (\<lambda>_. P)"
    by (rule ensures_mono [OF ensures_succeeds [where X = P, OF steady_remove_dir_all [where P = P]]])
      (use assms in \<open>auto split: if_splits\<close>)
  then have rm: "ensures P P (step_then (succeeds (remove_dir_all ss ?p)) (step_err e)) (\<lambda>_. P)" for e
    by (rule ensures_then) (rule ensures_err)
  show "case fill_stage cr ss ?p digest w of None \<Rightarrow> True | Some (w', Inl e) \<Rightarrow> P (sw_root w') | Some (w', Inr a) \<Rightarrow> P (sw_root w')"
  proof (cases "step_then (write_embedded_skill cr ss ?p digest) (verify_embedded_installation cr ss ?p digest) w")
    case (Some z)
    obtain w' r where z: "z = (w', r)" by (cases z)
    have P: "P (sw_root w')" using fill [unfolded ensures_iff, rule_format, OF w] Some z by (cases r) auto
    then show ?thesis
      using Some z rm [unfolded ensures_iff, rule_format, OF P] by (cases r) (auto simp: fill_stage_def)
  qed (simp add: fill_stage_def)
qed

lemma trim_stage_name: "hex_id i \<Longrightarrow> trim_start_matches stage_prefix (stage_name i) = i"
proof -
  assume i: "hex_id i"
  then have "\<not> prefix stage_prefix i"
    by (cases i) (auto simp: hex_id_def stage_prefix_def lower_hex_def ascii_digit_def)
  then have "trim_start_matches stage_prefix i = i"
    by (subst trim_start_matches.simps) simp
  then show ?thesis
    by (subst trim_start_matches.simps) (simp add: stage_name_def stage_prefix_def)
qed

lemma journal_path_new:
  assumes "hex_id i" "list_all plain_name par" "ij_stage j = raw_text (par @ [stage_name i])"
  shows "journal_path (raw_text par) j = Some (raw_text (par @ [journal_name i]))"
  using assms plain_entries(1,3) [OF assms(1)] trim_stage_name [OF assms(1)]
  by (simp add: journal_path_def journal_name_def [symmetric])

lemma write_journal_validated:
  assumes "hex_id i" "list_all plain_name par" "ij_stage j = raw_text (par @ [stage_name i])"
    "stable (par @ [journal_name i]) P"
  shows "ensures P P (write_journal cr ss (raw_text par) j)
    (\<lambda>_ n. P n \<and> validate_journal cr (raw_text (par @ [journal_name i])) (raw_text (par @ [''lspctl''])) j)"
proof -
  let ?c = "validate_journal cr (raw_text (par @ [journal_name i])) (raw_text (par @ [''lspctl''])) j"
  have "ensures P P (step_then (reject_unsafe_path ss (raw_text (par @ [journal_name i])))
      (step_then (write_atomically ss (raw_text (par @ [journal_name i])) (sc_journal_text cr j))
        (sync_directory ss (raw_text par)))) (\<lambda>_. P)"
    using assms by (intro steady_then keeping) simp
  then have rest: "ensures P (\<lambda>n. P n \<and> ?c) (step_then (reject_unsafe_path ss (raw_text (par @ [journal_name i])))
      (step_then (write_atomically ss (raw_text (par @ [journal_name i])) (sc_journal_text cr j))
        (sync_directory ss (raw_text par)))) (\<lambda>_ n. P n \<and> ?c)"
    by (intro ensures_pre) (erule ensures_mono, simp_all)
  have "ensures P P (require ?c IoOther) (\<lambda>_ n. P n \<and> ?c)" by (rule ensures_require) simp_all
  then show ?thesis
    using assms ensures_then [OF _ rest]
    by (simp add: write_journal_def journal_path_new)
qed

text \<open>What an installation that succeeds leaves at the destination.\<close>

definition current_installation :: "'v skill_crates \<Rightarrow> file_node \<Rightarrow> bool" where
  "current_installation cr m \<longleftrightarrow> (\<exists>e. installation_of cr m = Inr e \<and> is_unchanged cr e)"

definition holds_current :: "'v skill_crates \<Rightarrow> string list \<Rightarrow> file_node \<Rightarrow> bool" where
  "holds_current cr p n \<longleftrightarrow> (\<exists>m. find_node n p = Some m \<and> current_installation cr m)"

lemma embedded_is_current: "holds_embedded cr p n \<Longrightarrow> holds_current cr p n"
  by (auto simp: holds_embedded_def holds_current_def current_installation_def embedded_def is_unchanged_def)

lemma install_new_safe:
  assumes "random_hex ss" "list_all plain_name par"
  shows "ensures (left_safe cr replace par n0) (entries_same par n0)
    (install_new cr ss (raw_text par) (raw_text (par @ [''lspctl''])) scope replace existing)
    (\<lambda>_ n. left_safe cr replace par n0 n \<and> holds_current cr (par @ [''lspctl'']) n)"
proof -
  let ?E = "left_safe cr replace par n0" and ?S = "entries_same par n0" and ?d = "raw_text (par @ [''lspctl''])"
  have SE: "?S n \<Longrightarrow> ?E n" for n by (rule same_is_safe)
  have weak: "ensures ?S ?S m Q \<Longrightarrow> ensures ?E ?S m Q" for m :: "'b skill_act" and Q
    by (erule ensures_mono) (simp_all add: SE)
  have outcome: "ensures ?E ?S (require_outcome ?d (replacement_outcome cr existing replace)) (\<lambda>_. ?S)"
    by (rule ensures_mono [OF ensures_outcome [where P = ?S and E = ?E]]) (simp_all add: SE)
  have st: "stable (par @ [stage_name i]) ?S" "stable (par @ [journal_name i]) ?S" for i
    by (simp_all add: stable_same)
  have sibling: "ensures ?E ?S (failing ?d (create_random_sibling ss (raw_text par) stage_prefix))
      (\<lambda>p n. ?S n \<and> (\<exists>i. hex_id i \<and> p = raw_text (par @ [stage_name i])))"
    unfolding create_random_sibling_def
    by (intro weak ensures_failing steady_sibling assms st)
  have rest: "ensures ?E ?S (step_then (failing ?d (fill_stage cr ss p (embedded_digest cr)))
     (case raw_file_name p of
        None \<Rightarrow> step_panic
      | Some sibling \<Rightarrow>
          let j = new_journal cr (raw_text par) ?d p sibling outcome (ei_marker existing) in
          step_then (failing ?d (write_journal cr ss (raw_text par) j))
          (case journal_path (raw_text par) j of
             None \<Rightarrow> step_panic
           | Some path \<Rightarrow> step_then (finish_journal cr ss path j replace) (step_ok (success_result scope j)))))
     (\<lambda>_ n. ?E n \<and> holds_current cr (par @ [''lspctl'']) n)"
    if named: "\<exists>i. hex_id i \<and> p = raw_text (par @ [stage_name i])" for p outcome
  proof -
    obtain i where i: "hex_id i" "p = raw_text (par @ [stage_name i])" using named by blast
    let ?j = "new_journal cr (raw_text par) ?d p (stage_name i) outcome (ei_marker existing)"
    have staged: "ij_stage ?j = raw_text (par @ [stage_name i])" by (simp add: new_journal_def i(2))
    have path: "journal_path (raw_text par) ?j = Some (raw_text (par @ [journal_name i]))"
      by (rule journal_path_new [OF i(1) assms(2) staged])
    have written: "ensures ?E ?S (failing ?d (write_journal cr ss (raw_text par) ?j))
        (\<lambda>_ n. ?S n \<and> validate_journal cr (raw_text (par @ [journal_name i])) ?d ?j)"
      by (intro weak ensures_failing write_journal_validated i(1) assms(2) staged st)
    have finish: "ensures ?E (\<lambda>n. ?S n \<and> validate_journal cr (raw_text (par @ [journal_name i])) ?d ?j)
        (step_then (finish_journal cr ss (raw_text (par @ [journal_name i])) ?j replace) (step_ok (success_result scope ?j)))
        (\<lambda>_ n. ?E n \<and> holds_current cr (par @ [''lspctl'']) n)"
      by (rule ensures_pre, rule ensures_then [OF finish_journal_safe ensures_ok])
        (use assms(2) embedded_is_current in auto)
    have fill: "ensures ?E ?S (failing ?d (fill_stage cr ss p (embedded_digest cr))) (\<lambda>_. ?S)"
      unfolding i(2) by (intro weak ensures_failing steady_fill_stage) (use assms(2) i(1) st in simp_all)
    show ?thesis
      using assms(2) i(1) path
      by (simp add: i(2) Let_def) (rule ensures_then [OF fill [unfolded i(2)] ensures_then [OF written finish, unfolded i(2)]])
  qed
  show ?thesis
    unfolding install_new_def
    by (rule ensures_bind [OF outcome ensures_bind [OF sibling ensures_pre [OF rest]]])
qed

lemma install_to_safe:
  assumes "install_to cr ss selected_base scope replace w = Some (w', r)"
    and "ss_canonical ss (sw_root w) selected_base = Some (raw_text base)" "list_all plain_name base" "random_hex ss"
  shows "left_safe cr replace (base @ [''.agent'', ''skills'']) (sw_root w) (sw_root w')
    \<and> (\<forall>result. r = Inr result \<longrightarrow> holds_current cr (base @ [''.agent'', ''skills'', ''lspctl'']) (sw_root w'))"
proof -
  define par where "par = base @ [''.agent'', ''skills'']"
  define n0 where "n0 = sw_root w"
  let ?E = "left_safe cr replace par n0" and ?S = "entries_same par n0" and ?d = "raw_text (par @ [''lspctl''])"
  let ?Q = "\<lambda>_ n. ?E n \<and> holds_current cr (par @ [''lspctl'']) n"
  have plain: "list_all plain_name par" using assms(3) by (simp add: par_def)
  have SE: "?S n \<Longrightarrow> ?E n" for n by (rule same_is_safe)
  have weak: "ensures ?S ?S m Q \<Longrightarrow> ensures ?E ?S m Q" for m :: "'b skill_act" and Q
    by (erule ensures_mono) (simp_all add: SE)
  have dirs: "ensures ?S ?S (create_safe_parent ss (raw_text base)) (\<lambda>_. ?S)"
  proof -
    have "raw_join (raw_text base) ''.agent'' = raw_text (base @ [''.agent''])" using assms(3) by simp
    moreover have "raw_join (raw_text base) ''.agent/skills'' = raw_text par"
      using raw_join_plains [OF assms(3), of "''.agent''" "[''skills'']"] by (simp add: raw_text_def par_def)
    ultimately show ?thesis
      unfolding create_safe_parent_def using assms(3)
      by (intro steady_then) (auto intro!: steady_safe_directory simp: plain par_def)
  qed
  have lock: "ensures ?S ?S (open_file ss False (raw_join (raw_text par) lock_name)) (\<lambda>_. ?S)"
    using plain by (intro keeping) (simp add: stable_same)
  have locked: "ensures ?S ?S (try_lock ss) (\<lambda>_. ?S)" unfolding try_lock_def by (rule steady_reading)
  have found: "ensures ?E (\<lambda>n. ?S n \<and> (case found of None \<Rightarrow> True | Some (path, j) \<Rightarrow> validate_journal cr path ?d j))
     (case found of
            Some (path, j) \<Rightarrow> step_then (finish_journal cr ss path j replace) (step_ok (success_result scope j))
          | None \<Rightarrow>
              step_bind (or_else_failing ?d skill_conflict (inspect_installation cr ss ?d)) (\<lambda>existing.
              if is_unchanged cr existing
              then step_ok (install_result scope ?d (embedded_digest cr) ''unchanged''
                     (Some package_version) (Some (embedded_digest cr)))
              else install_new cr ss (raw_text par) ?d scope replace existing)) ?Q" for found
  proof (cases found)
    case None
    have "ensures ?E ?S (or_else_failing ?d skill_conflict (inspect_installation cr ss ?d))
        (\<lambda>e n. ?S n \<and> seen_installation cr (par @ [''lspctl'']) n = Inr e)"
      by (rule ensures_failing(2), rule ensures_mono [OF ensures_observes [OF observes_inspection, where P = ?S and E = ?E]])
        (use plain in \<open>auto intro: SE\<close>)
    moreover have "ensures ?E (\<lambda>n. ?S n \<and> seen_installation cr (par @ [''lspctl'']) n = Inr e)
        (if is_unchanged cr e then step_ok (install_result scope ?d (embedded_digest cr) ''unchanged''
                     (Some package_version) (Some (embedded_digest cr)))
              else install_new cr ss (raw_text par) ?d scope replace e) ?Q" for e
    proof (cases "is_unchanged cr e")
      case True
      then have "holds_current cr (par @ [''lspctl'']) n" if "seen_installation cr (par @ [''lspctl'']) n = Inr e" for n
        using that by (auto simp: seen_installation_def looked_up_def holds_current_def current_installation_def
            no_installation_def is_unchanged_def split: option.splits sum.splits io_error.splits)
      with True show ?thesis by (auto intro!: ensures_ok SE)
    next
      case False
      then show ?thesis
        by (simp, intro ensures_mono [OF install_new_safe [OF assms(4) plain]]) auto
    qed
    ultimately show ?thesis using None by (auto intro: ensures_bind)
  next
    case (Some z)
    then show ?thesis
      by (cases z, simp, intro ensures_pre ensures_then [OF finish_journal_safe [OF _ plain] ensures_ok])
        (auto intro: embedded_is_current)
  qed
  have S0: "?S n0" by (simp add: entries_same_def elsewhere_unchanged_def)
  have dest: "raw_join (raw_text base) ''.agent/skills/lspctl'' = ?d"
    using raw_join_plains [OF assms(3), of "''.agent''" "[''skills'', ''lspctl'']"] by (simp add: raw_text_def par_def)
  let ?K = "\<lambda>found. case found of
            Some (path, j) \<Rightarrow> step_then (finish_journal cr ss path j replace) (step_ok (success_result scope j))
          | None \<Rightarrow>
              step_bind (or_else_failing ?d skill_conflict (inspect_installation cr ss ?d)) (\<lambda>existing.
              if is_unchanged cr existing
              then step_ok (install_result scope ?d (embedded_digest cr) ''unchanged''
                     (Some package_version) (Some (embedded_digest cr)))
              else install_new cr ss (raw_text par) ?d scope replace existing)"
  have chain: "ensures ?E (\<lambda>n. n = n0)
      (step_then (failing ?d (create_safe_parent ss (raw_text base)))
         (step_then (failing ?d (reject_unsafe_path ss (raw_join (raw_text par) lock_name)))
         (step_then (failing ?d (open_file ss False (raw_join (raw_text par) lock_name)))
         (step_then (failing ?d (try_lock ss))
         (step_bind (read_journal cr ss (raw_text par) ?d selected) ?K))))) ?Q" for selected
  proof -
    have first: "ensures ?E (\<lambda>n. n = n0) (failing ?d (create_safe_parent ss (raw_text base))) (\<lambda>_. ?S)"
      by (rule ensures_mono [OF weak [OF ensures_failing(1) [OF dirs]]]) (use S0 in simp_all)
    show ?thesis
      by (rule ensures_then [OF first ensures_then [OF weak [OF ensures_failing(1) [OF steady_reject]]
        ensures_then [OF weak [OF ensures_failing(1) [OF lock]]
        ensures_then [OF weak [OF ensures_failing(1) [OF locked]]
        ensures_bind [OF weak [OF read_journal_validated] found]]]]])
  qed
  have body: "ensures ?E (\<lambda>n. n = n0) (let selected = raw_join selected_base ''.agent/skills/lspctl'';
         destination = raw_join (raw_text base) ''.agent/skills/lspctl'' in
     if \<not> utf8_valid destination then fails_at destination skill_install_failure
     else case raw_parent destination of
       None \<Rightarrow> step_panic
     | Some dir \<Rightarrow>
         step_then (failing destination (create_safe_parent ss (raw_text base)))
         (step_then (failing destination (reject_unsafe_path ss (raw_join dir lock_name)))
         (step_then (failing destination (open_file ss False (raw_join dir lock_name)))
         (step_then (failing destination (try_lock ss))
         (step_bind (read_journal cr ss dir destination selected) (\<lambda>found. (case found of
            Some (path, j) \<Rightarrow> step_then (finish_journal cr ss path j replace) (step_ok (success_result scope j))
          | None \<Rightarrow>
              step_bind (or_else_failing destination skill_conflict (inspect_installation cr ss destination)) (\<lambda>existing.
              if is_unchanged cr existing
              then step_ok (install_result scope destination (embedded_digest cr) ''unchanged''
                     (Some package_version) (Some (embedded_digest cr)))
              else install_new cr ss dir destination scope replace existing))))))))  ?Q"
  proof (cases "utf8_valid ?d")
    case True
    show ?thesis
      unfolding Let_def dest raw_parent_raw_text [OF plain plain_skill_names(6)] option.case
      by (simp only: True not_True_eq_False if_False, rule chain)
  next
    case False
    have "ensures ?E (\<lambda>n. n = n0) (fails_at ?d skill_install_failure) ?Q"
      by (rule ensures_fails) (use S0 SE in simp)
    with False show ?thesis by (simp add: Let_def dest)
  qed
  have canonical: "ensures ?E (\<lambda>n. n = n0) (failing selected_base (canonicalize ss selected_base)) (\<lambda>b n. n = n0 \<and> b = raw_text base)"
    unfolding canonicalize_def
    by (rule ensures_failing(1), rule ensures_mono [OF ensures_observes [OF observes_reading, where P = "\<lambda>n. n = n0" and E = ?E]])
      (use S0 SE assms(2) in \<open>auto simp: n0_def\<close>)
  have "ensures ?E (\<lambda>n. n = n0) (install_to cr ss selected_base scope replace) ?Q"
    unfolding install_to_def
    by (rule ensures_bind [OF canonical], rule ensures_pre) (use body in simp)
  then have "case install_to cr ss selected_base scope replace w of None \<Rightarrow> True
      | Some (w', Inl e) \<Rightarrow> ?E (sw_root w') | Some (w', Inr a) \<Rightarrow> ?Q a (sw_root w')"
    by (simp only: ensures_iff n0_def)
  then show ?thesis
    using assms(1) by (cases r) (simp_all add: par_def n0_def)
qed

section \<open>Digests of bundles\<close>

definition bundle_fits :: "(string, string) btree \<Rightarrow> bool" where
  "bundle_fits files \<longleftrightarrow> length files < 2 ^ 64 \<and> list_all (\<lambda>(p, b). length p < 2 ^ 64 \<and> length b < 2 ^ 64) files"

lemma encoded_files_inject:
  assumes "length a = length b" "list_all (\<lambda>(p, c). length p < 2 ^ 64 \<and> length c < 2 ^ 64) a"
    "list_all (\<lambda>(p, c). length p < 2 ^ 64 \<and> length c < 2 ^ 64) b"
    "concat (map (\<lambda>(path, bytes). encode_bytes path @ encode_bytes bytes) a)
      = concat (map (\<lambda>(path, bytes). encode_bytes path @ encode_bytes bytes) b)"
  shows "a = b"
  using assms
proof (induction a b rule: list_induct2)
  case (Cons x xs y ys)
  obtain p c where x: "x = (p, c)" by (cases x)
  obtain q d where y: "y = (q, d)" by (cases y)
  let ?enc = "\<lambda>zs. concat (map (\<lambda>(path, bytes). encode_bytes path @ encode_bytes bytes) zs)"
  have sizes: "length p < 2 ^ 64" "length c < 2 ^ 64" "length q < 2 ^ 64" "length d < 2 ^ 64"
    using Cons.prems(1,2) by (simp_all add: x y)
  have "encode_bytes p @ encode_bytes c @ ?enc xs = encode_bytes q @ encode_bytes d @ ?enc ys"
    using Cons.prems(3) by (simp only: x y list.map concat.simps prod.case append_assoc)
  from encode_bytes_prefix [OF sizes(1,3) this]
  have pq: "p = q" and rest: "encode_bytes c @ ?enc xs = encode_bytes d @ ?enc ys" by simp_all
  from encode_bytes_prefix [OF sizes(2,4) rest] have cd: "c = d" and tails: "?enc xs = ?enc ys" by simp_all
  have "xs = ys" by (rule Cons.IH [OF _ _ tails]) (use Cons.prems(1,2) in simp_all)
  with pq cd show ?case by (simp add: x y)
qed simp

lemma bundle_bytes_inject:
  assumes "bundle_fits a" "bundle_fits b" "bundle_bytes a = bundle_bytes b"
  shows "a = b"
proof -
  have "be_len (length a) = be_len (length b)
    \<and> concat (map (\<lambda>(path, bytes). encode_bytes path @ encode_bytes bytes) a)
      = concat (map (\<lambda>(path, bytes). encode_bytes path @ encode_bytes bytes) b)"
    using assms(3) by (simp add: bundle_bytes_def append_eq_append_conv)
  with assms(1,2) show ?thesis
    by (intro encoded_files_inject) (simp_all add: bundle_fits_def be_len_inject)
qed

lemma map_of_rev:
  assumes "distinct (map fst xs)"
  shows "map_of (rev xs) = map_of xs"
proof
  fix k
  have "map_of (rev xs) k = Some v \<longleftrightarrow> map_of xs k = Some v" for v
    using assms by (simp add: map_of_eq_Some_iff rev_map [symmetric])
  then show "map_of (rev xs) k = map_of xs k" by (metis option.exhaust)
qed

lemma tree_files_ok: "tree_files rel es files = Inr out \<Longrightarrow> bt_ok files \<Longrightarrow> bt_ok out"
proof (induction rel es files arbitrary: out rule: tree_files.induct)
  case (2 rel name m es files)
  then show ?case by (cases m) (auto split: sum.splits if_splits)
qed simp

section \<open>Properties\<close>

text \<open>
  C16. Whatever fault any call of an installation meets, an installation that was at the destination, or
  that an earlier, interrupted one had put aside, is still in its place; or its replacement is
  consented to (by \<open>--replace\<close>, or because it is an unmodified older one of ours), and it is kept under
  another name or the packaged files are in place and verified. No file changes but those
  below the destination and its siblings named \<open>.lspctl-\<close>.
\<close>

theorem predecessors_survive_installation:
  assumes "install_to cr ss selected_base scope replace w = Some (w', r)"
    and "ss_canonical ss (sw_root w) selected_base = Some (raw_text base)"
    and "list_all plain_name base" and "random_hex ss"
  shows "(\<forall>x d. (x = ''lspctl'' \<or> prefix ''.lspctl-backup-'' x)
        \<and> find_node (sw_root w) (base @ [''.agent'', ''skills'', x]) = Some d \<longrightarrow>
      find_node (sw_root w') (base @ [''.agent'', ''skills'', x]) = Some d
      \<or> consented cr replace d
        \<and> ((\<exists>y. find_node (sw_root w') (base @ [''.agent'', ''skills'', y]) = Some d)
          \<or> holds_embedded cr (base @ [''.agent'', ''skills'', ''lspctl'']) (sw_root w')))
    \<and> (\<forall>q. (\<forall>x. x = ''lspctl'' \<or> prefix ''.lspctl-'' x \<longrightarrow> \<not> prefix (base @ [''.agent'', ''skills'', x]) q) \<longrightarrow>
        file_at (sw_root w') q = file_at (sw_root w) q)"
  using install_to_safe [OF assms]
  by (simp add: left_safe_def predecessors_kept_def elsewhere_unchanged_def kept_entry_def own_entry_def backup_prefix_def)

text \<open>
  C31. An installation that succeeds leaves the packaged files, each with the bytes compiled in, no other
  file, and the marker of this version, when SHA-256 has no collision with the packaged bundle.
\<close>

theorem installed_files_are_packaged:
  assumes "install_to cr ss selected_base scope replace w = Some (w', Inr result)"
    and "ss_canonical ss (sw_root w) selected_base = Some (raw_text base)"
    and "list_all plain_name base" and "random_hex ss"
    and "\<And>b. sc_hash cr b = sc_hash cr (bundle_bytes (bt_of_list (skill_files cr))) \<Longrightarrow>
        b = bundle_bytes (bt_of_list (skill_files cr))"
    and "\<And>es files. find_node (sw_root w') (base @ [''.agent'', ''skills'', ''lspctl'']) = Some (DirN es) \<Longrightarrow>
        tree_files [] es [] = Inr files \<Longrightarrow> bundle_fits files"
    and "\<And>n. length (sc_packaged cr n) < 2 ^ 64"
  shows "\<exists>es files marker.
      find_node (sw_root w') (base @ [''.agent'', ''skills'', ''lspctl'']) = Some (DirN es)
      \<and> tree_files [] es [] = Inr files
      \<and> bt_get files marker_name = Some marker \<and> sc_read_marker cr marker = Some (embedded_marker (embedded_digest cr))
      \<and> (\<forall>n. n \<noteq> marker_name \<longrightarrow> bt_get files n = map_of (skill_files cr) n)"
proof -
  let ?pack = "bt_of_list (skill_files cr)"
  obtain m e where m: "find_node (sw_root w') (base @ [''.agent'', ''skills'', ''lspctl'']) = Some m"
    "installation_of cr m = Inr e" "is_unchanged cr e"
    using install_to_safe [OF assms(1-4)] by (auto simp: holds_current_def current_installation_def)
  obtain es files where es: "m = DirN es" "tree_files [] es [] = Inr files"
    and e: "ei_marker e = Option.bind (bt_get files marker_name) (sc_read_marker cr)"
      "ei_actual_digest e = Some (bundle_digest cr (filter (\<lambda>x. fst x \<noteq> marker_name) files))"
    using m(2) by (auto simp: installation_of_def split: file_node.splits sum.splits)
  have ok: "bt_ok files" using tree_files_ok [OF es(2)] by simp
  let ?rest = "filter (\<lambda>x. fst x \<noteq> marker_name) files"
  have "distinct (map fst ?rest)" using bt_ok_distinct [OF bt_ok_filter [OF ok]] .
  then have distinct: "map_of (rev ?rest) = map_of ?rest" by (rule map_of_rev)
  have rest: "bt_of_list ?rest = ?rest"
    by (rule bt_ext) (use ok distinct in \<open>simp_all add: bt_get_of_list\<close>)
  have "bundle_fits ?rest"
    using assms(6) m(1) es by (auto simp: bundle_fits_def list_all_iff intro: le_less_trans [OF length_filter_le])
  moreover have "bundle_fits ?pack"
    using assms(7) by (simp add: bundle_fits_def skill_files_def bt_of_list_def bt_insert_def)
  moreover have "bundle_bytes ?rest = bundle_bytes ?pack"
  proof (rule assms(5))
    have "ei_actual_digest e = Some (embedded_digest cr)" using m(3) by (simp add: is_unchanged_def split: option.splits)
    then show "sc_hash cr (bundle_bytes ?rest) = sc_hash cr (bundle_bytes ?pack)"
      unfolding e(2) embedded_digest_def bundle_digest_def rest by simp
  qed
  ultimately have same: "?rest = ?pack" by (rule bundle_bytes_inject)
  have "bt_get files n = map_of (skill_files cr) n" if "n \<noteq> marker_name" for n
  proof -
    have "bt_get files n = bt_get ?rest n" using that by (induction files) auto
    also have "\<dots> = map_of (skill_files cr) n"
      unfolding same by (simp add: bt_get_of_list skill_files_def)
    finally show ?thesis .
  qed
  moreover obtain marker where "bt_get files marker_name = Some marker"
    "sc_read_marker cr marker = Some (embedded_marker (embedded_digest cr))"
    using m(3) e(1)
    by (auto simp: is_unchanged_def marker_is_def embedded_marker_def Option.bind_eq_Some_conv split: option.splits)
  ultimately show ?thesis using m(1) es by auto
qed

text \<open>
  A base directory that is not UTF-8: the check of the destination builds a failure that names the path,
  and \<open>json!\<close> of that path panics, so the failure is never returned.
\<close>

lemma non_utf8_destination_panics:
  assumes "ss_fault ss (sw_tick w) = None" "ss_canonical ss (sw_root w) selected_base = Some base"
    "\<not> utf8_valid (raw_join base ''.agent/skills/lspctl'')"
  shows "install_to cr ss selected_base scope replace w = None"
  using assms
  by (simp add: install_to_def failing_def or_else_failing_def canonicalize_def look_call_def system_call_def
      step_bind_def fails_at_def step_panic_def Let_def)

end
