(* ===== verification/Skill_Samples.thy ===== *)
theory Skill_Samples
  imports Skill_Laws Short_Lengths
begin

text \<open>Installations in a small home directory, as witnesses of the properties of \<open>Skill_Laws\<close>.\<close>

section \<open>A package and a system\<close>

definition sample_bundle :: string where
  "sample_bundle = bundle_bytes [(''CONFIGURATION.md'', ''c''), (''MUTATIONS.md'', ''m''), (''QUERYING.md'', ''q''), (''SKILL.md'', ''s'')]"

definition sample_hash :: "string \<Rightarrow> string" where
  "sample_hash b = replicate 64 (if b = sample_bundle then CHR ''a'' else CHR ''b'')"

definition sample_marker :: managed_marker where
  "sample_marker = embedded_marker (''sha256:'' @ replicate 64 CHR ''a'')"

definition sample_crates :: "nat skill_crates" where
  "sample_crates =
     \<lparr>sc_hash = sample_hash,
      sc_parse_version = (\<lambda>v. if v = ''0.1.1'' then Some 1 else if v = ''0.1.2'' then Some 2 else None),
      sc_marker_text = (\<lambda>m. if m = sample_marker then ''marker'' else ''other''),
      sc_read_marker = (\<lambda>s. if s = ''marker'' then Some sample_marker else None),
      sc_journal_text = (\<lambda>j. ''journal''),
      sc_read_journal = (\<lambda>s. None),
      sc_packaged = (\<lambda>n. if n = ''CONFIGURATION.md'' then ''c'' else if n = ''MUTATIONS.md'' then ''m''
        else if n = ''QUERYING.md'' then ''q'' else ''s'')\<rparr>"

definition sample_system :: "nat \<Rightarrow> skill_system" where
  "sample_system broken =
     \<lparr>ss_fault = (\<lambda>t. if t = broken then Some \<lparr>fl_keep = (\<lambda>p. True), fl_bytes = 0\<rparr> else None),
      ss_random = (\<lambda>t. Some (replicate 32 CHR ''0'')),
      ss_locked = False,
      ss_canonical = (\<lambda>n p. Some ''/home'')\<rparr>"

text \<open>The home directory holds an installation nobody marked.\<close>

definition sample_world :: skill_world where
  "sample_world = \<lparr>sw_root = DirN [(''home'', DirN [(''.agent'', DirN [(''skills'', DirN
     [(''lspctl'', DirN [(''custom'', FileN ''mine'')])])])])], sw_tick = 0\<rparr>"

text \<open>Digests are evaluated on known lists only.\<close>

lemma bundle_digest_known [code]:
  "bundle_digest cr [] = ''sha256:'' @ sc_hash cr (bundle_bytes (bt_of_list []))"
  "bundle_digest cr (e # es) = ''sha256:'' @ sc_hash cr (bundle_bytes (bt_of_list (e # es)))"
  by (simp_all add: bundle_digest_def)

abbreviation sample_entry :: "string \<Rightarrow> string list" where
  "sample_entry x \<equiv> [''home'', ''.agent'', ''skills'', x]"

text \<open>Whether an installation ended without a panic, with what at the destination, and with what put aside.\<close>

definition finishes_with :: "bool \<Rightarrow> file_node option \<Rightarrow> file_node option \<Rightarrow> (skill_world \<times> (contract_failure + json)) option \<Rightarrow> bool" where
  "finishes_with ok dest aside r \<longleftrightarrow> (case r of None \<Rightarrow> False | Some (w, x) \<Rightarrow>
     (isl x \<longleftrightarrow> \<not> ok) \<and> find_node (sw_root w) (sample_entry ''lspctl'') = dest
     \<and> find_node (sw_root w) (sample_entry (backup_prefix @ stage_prefix @ replicate 32 CHR ''0'')) = aside)"

definition sample_installed :: "(string \<times> file_node) list" where
  "sample_installed = [(''.lspctl-managed.json'', FileN ''marker''), (''CONFIGURATION.md'', FileN ''c''),
     (''MUTATIONS.md'', FileN ''m''), (''QUERYING.md'', FileN ''q''), (''SKILL.md'', FileN ''s'')]"

lemma sample_interrupted:
  "finishes_with False None (Some (DirN [(''custom'', FileN ''mine'')]))
     (install_to sample_crates (sample_system 119) ''~'' ''global'' True sample_world)"
  by code_simp

lemma sample_completed:
  "finishes_with True (Some (DirN sample_installed)) None
     (install_to sample_crates (sample_system 1000) ''~'' ''global'' True sample_world)"
  by code_simp

lemma sample_system_hex: "random_hex (sample_system t)"
  by (simp add: random_hex_def sample_system_def hex_id_def lower_hex_def ascii_digit_def list_all_iff)

lemma sample_base: "ss_canonical (sample_system t) n ''~'' = Some (raw_text [''home''])" "list_all plain_name [''home'']"
  by (simp_all add: sample_system_def raw_text_def plain_name_def)

lemma sample_bundle_code: "bundle_bytes (bt_of_list (skill_files sample_crates)) = sample_bundle"
  by code_simp

theorem predecessors_survive_installation_witness:
  "\<exists>w' f. install_to sample_crates (sample_system 119) ''~'' ''global'' True sample_world = Some (w', Inl f)
     \<and> consented sample_crates True (DirN [(''custom'', FileN ''mine'')])
     \<and> ((\<exists>y. find_node (sw_root w') (sample_entry y) = Some (DirN [(''custom'', FileN ''mine'')]))
        \<or> holds_embedded sample_crates (sample_entry ''lspctl'') (sw_root w'))"
proof -
  obtain w' f where w': "install_to sample_crates (sample_system 119) ''~'' ''global'' True sample_world = Some (w', Inl f)"
    and gone: "find_node (sw_root w') (sample_entry ''lspctl'') = None"
    using sample_interrupted by (auto simp: finishes_with_def isl_def split: option.splits prod.splits)
  have "find_node (sw_root sample_world) (sample_entry ''lspctl'') = Some (DirN [(''custom'', FileN ''mine'')])"
    by code_simp
  with w' gone show ?thesis
    using predecessors_survive_installation [OF w' sample_base sample_system_hex] by fastforce
qed

theorem installed_files_are_packaged_witness:
  "\<exists>es files marker. DirN es = DirN sample_installed \<and> tree_files [] es [] = Inr files
     \<and> bt_get files marker_name = Some marker
     \<and> sc_read_marker sample_crates marker = Some (embedded_marker (embedded_digest sample_crates))
     \<and> (\<forall>n. n \<noteq> marker_name \<longrightarrow> bt_get files n = map_of (skill_files sample_crates) n)"
proof -
  obtain w' r where r: "install_to sample_crates (sample_system 1000) ''~'' ''global'' True sample_world = Some (w', r)" "\<not> isl r"
    and dest: "find_node (sw_root w') (sample_entry ''lspctl'') = Some (DirN sample_installed)"
    using sample_completed by (auto simp: finishes_with_def split: option.splits)
  then obtain result where w': "install_to sample_crates (sample_system 1000) ''~'' ''global'' True sample_world = Some (w', Inr result)"
    by (cases r) auto
  have hash: "b = bundle_bytes (bt_of_list (skill_files sample_crates))"
    if "sc_hash sample_crates b = sc_hash sample_crates (bundle_bytes (bt_of_list (skill_files sample_crates)))" for b
    using that unfolding sample_bundle_code by (simp add: sample_crates_def sample_hash_def split: if_splits)
  have files: "tree_files [] sample_installed [] = Inr files \<Longrightarrow> bundle_fits files" for files
  proof -
    have "case tree_files [] sample_installed [] of Inl _ \<Rightarrow> False | Inr files \<Rightarrow> length files < 6 \<and> list_all (\<lambda>(p, b). length p < 30 \<and> length b < 30) files"
      by code_simp
    moreover assume "tree_files [] sample_installed [] = Inr files"
    ultimately show ?thesis by (fastforce simp: bundle_fits_def list_all_iff)
  qed
  show ?thesis
    using installed_files_are_packaged [OF w' sample_base sample_system_hex hash] dest files
    by (auto simp: sample_crates_def)
qed

end
