(* ===== verification/Spec2Isabelle.thy ===== *)
theory Spec2Isabelle
  imports Canonical_Value Document_Store_Laws Diagnostic_Cache_Laws Glob_Laws Plan_Samples Text_Output_Laws Application_Samples
    Json_Rpc_Laws Capabilities Configuration_Laws Trust_Samples Skill_Samples
begin

text \<open>
  A verification development of \<open>lspctl\<close>, a command-line program that keeps language servers
  running per Workspace, answers queries through them, and applies the Workspace Edits they
  return as crash-safe filesystem Mutations.

  \<^bold>\<open>Parts.\<close> A query names a Document by a path and a source position. The Document store
  (\<open>src/src/workspace.rs\<close>) reads the file, keeps a bounded set of snapshots open on the server
  and translates columns to protocol positions; the diagnostic cache
  (\<open>src/src/workspace/diagnostics.rs\<close>) keeps what servers publish about those Documents; registered
  server capabilities select Documents by globs (\<open>src/src/query.rs\<close>). A Workspace Edit a server
  returns is planned against the filesystem (\<open>src/src/mutation/planner.rs\<close>) into ordered
  operations with a manifest of every affected path before and after. Digests over canonical
  encodings of JSON values (\<open>src/src/canonical_value.rs\<close>) bind plans, manifests and evidence.
  Which server runs, with which arguments and limits, comes from a user file, a project file and the
  command line (\<open>src/src/configuration.rs\<close>); what a project declares needs the Trust of the user
  (\<open>src/src/configuration/trust.rs\<close>). A Session speaks JSON-RPC with the server
  (\<open>src/src/session/json_rpc_transport.rs\<close>) and keeps what it may rely on of its capabilities
  (\<open>src/src/session/capabilities.rs\<close>). The packaged skill for agents is installed below the home or the
  working directory (\<open>src/src/skill_install.rs\<close>).

  \<^bold>\<open>Theories.\<close>
  \<^item> \<open>Prelude\<close>, \<open>Paths\<close>, \<open>BTree_Map\<close>, \<open>Utf8\<close>: saturating counters, \<open>std::path\<close>,
    \<open>BTreeMap\<close>/\<open>BTreeSet\<close> as entries in key order (interface \<open>ordered_map\<close>), UTF-8 structure.
  \<^item> \<open>Json_Value\<close>, \<open>Canonical_Value\<close>: \<open>serde_json::Value\<close> and the byte string a digest hashes; it
    determines the value.
  \<^item> \<open>Contract\<close>: the classification of a failure.
  \<^item> \<open>Source_Position\<close>: \<open>resolve_source_position\<close> of the Document side and
    \<open>position_to_offset\<close> of the planner, inverse to each other on the texts they share.
  \<^item> \<open>Document_Store\<close>, \<open>Document_Store_Laws\<close>: the store as a record, reads, eviction, versions and
    the notifications sent; the server's view of open Documents refines the store.
  \<^item> \<open>Diagnostic_Cache\<close>, \<open>Diagnostic_Cache_Laws\<close>: publications, pulled reports, pressure limits,
    export and import.
  \<^item> \<open>Glob\<close>, \<open>Glob_Laws\<close>: Document filters and the memoized glob matcher with its meaning.
  \<^item> \<open>Plan_Types\<close>, \<open>Plan_Inspect\<close>, \<open>Virtual_Workspace\<close>, \<open>Plan_Operations\<close>, \<open>Workspace_Plan\<close>: the
    planner, from its inputs to the finished plan.
  \<^item> \<open>Text_Edits\<close>, \<open>Plan_Disk\<close>, \<open>Plan_Tree\<close>: the contracts the planner is measured by: a list of edits applied
    to a text one at a time, what a POSIX filesystem promises (\<open>posix_fs\<close>), and file trees with the
    effect of each operation on them.
  \<^item> \<open>Plan_Invariant\<close>, \<open>Plan_Load\<close>, \<open>Plan_Steps\<close>, \<open>Plan_Progress\<close>, \<open>Plan_Accepted\<close>: the invariant \<open>vw_ok\<close> of the
    virtual Workspace (it mirrors the tree the operations planned so far produce), kept by loading
    (which terminates), by every handler and by a whole edit.
  \<^item> \<open>Plan_Laws\<close>, \<open>Plan_Refinement\<close>, \<open>Plan_Samples\<close>: an accepted plan stays inside the Workspace, its
    before manifest is confirmed by a re-inspection of the same disk, its intended manifest describes
    the tree its operations produce, its limits hold; planning returns as long as no problem was
    reported, and a concrete edit on which it panics otherwise.
  \<^item> \<open>Transaction\<close>, \<open>Text_Outputs\<close>, \<open>Commit_Manifests\<close>, \<open>Commit_Run\<close>, \<open>Rollback_Run\<close>: the filesystem side of the
    Application of a plan (\<open>src/src/mutation/application.rs\<close>): its records (\<open>src/src/mutation/state.rs\<close>), the
    texts it stages, the manifests it expects before and after each operation, the commit with its
    journal, and the rollback from it. Both run on a \<open>host\<close>, a record of filesystem calls over an
    arbitrary world.
  \<^item> \<open>Mutation_Store\<close>: the stored Previews, Receipts and journals, with expiry, capacity, reservations,
    Receipt chains and pruning, over the calls of \<open>state_files\<close>.
  \<^item> \<open>Application\<close>: one Application of a Preview from the Workspace lock to its Receipt
    (\<open>apply_preview\<close>), the reconciliation of an abandoned journal and the two Recoveries; it runs the commit
    on the \<open>host\<close>, keeps its records through \<open>state_files\<close> and has the calls of \<open>application_host\<close> besides.
  \<^item> \<open>Actions\<close>, \<open>Host_Laws\<close>, \<open>Store_Laws\<close>: outcome triples (\<open>upholds\<close>), simulation of one action by
    another (\<open>shadows\<close>) and step relations every action keeps (\<open>keeps\<close>), with the interfaces
    \<open>mirrored_host\<close>, \<open>respected_host\<close>, \<open>mirrored_files\<close> and \<open>obeyed_files\<close> for hosts and state files
    that record what is done with them.
  \<^item> \<open>Text_Output_Laws\<close>: what is staged is what the plan's operations produce, and an accepted plan whose
    staging fails. \<open>Commit_Journal\<close>, \<open>Commit_Laws\<close>, \<open>Commit_Shadow\<close>: traces and the write-ahead discipline.
    \<open>Plan_Indices\<close>, \<open>Undo_Chain\<close>, \<open>Undo_Plans\<close>: the journal a commit writes is one a rollback accepts.
    \<open>Rollback_Laws\<close>: a rollback changes only what it has proven. \<open>Commit_Samples\<close>: both in memory.
  \<^item> \<open>Mutation_Store_Laws\<close>, \<open>Prune_Laws\<close>: a Receipt chain is a connected component, and what pruning removes.
  \<^item> \<open>Application_Trace\<close>, \<open>Application_Laws\<close>, \<open>Recovery_Laws\<close>: an Application and a Recovery observed
    (\<open>app_event\<close>), and what must come before anything they change. \<open>Application_Samples\<close>: an Application,
    a Recovery and a prune on a machine in memory.
  \<^item> \<open>Ascii_Text\<close>: splitting, trimming and decimal numbers of \<open>str\<close>.
  \<^item> \<open>Json_Rpc\<close>, \<open>Json_Rpc_Laws\<close>: the reader and the writer of frames. A frame that is read is exactly the next
    bytes of the stream and within the limits; frames written on a stream that accepts part of what it is
    given are read back in order, up to the first that was not delivered.
  \<^item> \<open>Capabilities\<close>: the normalized InitializeResult; providers kept as supported have options of their types.
  \<^item> \<open>Configuration\<close>, \<open>Server_Selection\<close>, \<open>Configuration_Laws\<close>: both files and their merge, limits, routes,
    overrides and selection; the fields recorded as project-controlled are those whose value the project
    wrote, and a failure that names a path which is not UTF-8 panics.
  \<^item> \<open>Trust\<close>, \<open>Trust_Commands\<close>, \<open>Trust_Laws\<close>, \<open>Trust_Samples\<close>: the stored decisions, authorization and the Trust
    commands. Every command takes at most one step of a policy, the decision on each server (\<open>policy_step\<close>);
    over any history of commands a server is authorized only by a grant that still stands
    (\<open>last_decision\<close>), and a denial persists. The Trust file is explicit in the state, the locks, the clock and
    the rest of the filesystem are calls over an arbitrary world (\<open>trust_calls\<close>).
  \<^item> \<open>Skill_Files\<close>, \<open>Skill_Files_Laws\<close>: paths as the text the installer compares, a tree of files, and the calls
    on it, any of which may fail, a removal or a write in part; calls that only look (\<open>observes\<close>) and
    triples over the tree (\<open>ensures\<close>). \<open>Skill_Bundle\<close>, \<open>Skill_Install\<close>: a copy of the packaged skill, its digest and
    marker, and the installation with its journal. \<open>Skill_Inspect_Laws\<close>, \<open>Skill_Laws\<close>, \<open>Skill_Samples\<close>: whatever
    call fails, the copy that was there is kept until the new one is verified in place and its
    replacement is consented to; a copy that is installed is the packaged one. \<open>Short_Lengths\<close>: equations
    the samples are evaluated with.

  \<^bold>\<open>Conventions.\<close> Strings and byte vectors are HOL strings, one character per byte. \<open>u64\<close> counters
  are natural numbers with \<open>saturating_add\<close> written out. A \<open>PathBuf\<close> is its component list. An error is
  the left side of a sum; a panic (an \<open>unwrap\<close>, a slice or an index out of range) and a loop that does
  not return are \<open>None\<close>. Machine integers of JSON numbers are 64-bit words.
  The \<open>cfg(unix)\<close> build on a 64-bit target is modelled.

  Instants count nanoseconds. Polling loops are partial functions; a loop over files or records is
  recursion on their list.

  \<^bold>\<open>Parameters.\<close> SHA-256, \<open>hex\<close>, the URL parser, extended attributes, the serialized length of a JSON
  value and the filesystem are arguments of the definitions. One planning reads the filesystem as it is
  at one instant; a commit, a rollback and an Application look again at every inspection. The texts an
  Application stages are computed from the files as they are when that staging begins. Copying a resource
  with its metadata into the artifacts is one call (\<open>ap_copy\<close>). A configuration is loaded and a Trust command
  or an authorization runs on the files and the environment as they are at one instant (\<open>launch_system\<close>); TOML
  and JSON parsers, canonical paths and the search of executables are its fields. A commit of the Trust file
  replaces all of it or nothing. For the skill installation the filesystem is a tree of the model, and
  \<open>skill_system\<close> decides which call fails.

  \<^bold>\<open>Not modelled.\<close> Message texts and \<open>data\<close> payloads of failures and problems, except where building one panics
  in \<open>configuration.rs\<close>, \<open>trust.rs\<close> and \<open>skill_install.rs\<close>; the paths of the Mutation state are taken to be UTF-8. The Windows build;
  processes, sockets and threads of Session owners and the signals sent to them; the composition of query
  requests and answers; the dispatch of Mutation commands; the
  command-line parser; the schemas and the machine contract served as static text; file permissions of
  the state directories.
\<close>

end
